(* ===== verification/Prelude.thy ===== *)
theory Prelude
  imports Complex_Main "HOL-Library.List_Lexorder" "HOL-Library.Char_ord"
    "HOL-Library.Product_Lexorder" "HOL-Library.Multiset"
begin

text \<open>
  Shared vocabulary of the development: the errors the TypeScript code throws, the
  sequencing of fallible computations (a \<open>throw\<close> inside a Prisma
  \<open>$transaction\<close> callback rolls back, so a failing step yields no state), the
  identifiers the persistence layer draws from outside the repository, and the generic
  lemmas on lists and sums that the components use.
\<close>

section \<open>Collections of rewrite rules\<close>

named_theorems money_simps \<open>exactness of number conversions\<close>
named_theorems ledger_simps \<open>balances of legs and postings\<close>
named_theorems table_simps \<open>how an operation changes the tables of the database\<close>
named_theorems frame_simps \<open>which tables an operation leaves alone\<close>

section \<open>Errors\<close>

text \<open>
  One constructor per error class of the source. The string is the message up to the
  first interpolated value; \<open>WalletError\<close>, \<open>OnboardingError\<close> and
  \<open>AppError\<close> also carry the machine-readable code.
\<close>

datatype exn =
    LedgerError string
  | FeeError string
  | TaxError string
  | PolicyError string
  | SplitError string
  | PayoutError string
  | ReversalError string
  | StatementError string
  | ReconciliationError string
  | WalletError string string
  | OnboardingError nat string
  | AppError nat string
  | JsError string

type_synonym 'a result = "exn + 'a"

section \<open>Sequencing\<close>

definition ebind :: "'e + 'a \<Rightarrow> ('a \<Rightarrow> 'e + 'b) \<Rightarrow> 'e + 'b" where
  "ebind m f = (case m of Inl e \<Rightarrow> Inl e | Inr x \<Rightarrow> f x)"

definition require :: "bool \<Rightarrow> 'e \<Rightarrow> 'e + unit" where
  "require b e = (if b then Inr () else Inl e)"

fun efold :: "('x \<Rightarrow> 's \<Rightarrow> 'e + 's) \<Rightarrow> 'x list \<Rightarrow> 's \<Rightarrow> 'e + 's" where
  "efold f [] s = Inr s"
| "efold f (x # xs) s = ebind (f x s) (efold f xs)"

definition is_ok :: "'e + 'a \<Rightarrow> bool" where
  "is_ok r = (case r of Inl _ \<Rightarrow> False | Inr _ \<Rightarrow> True)"

section \<open>Nullable values\<close>

definition coalesce :: "'a option \<Rightarrow> 'a \<Rightarrow> 'a" where
  "coalesce v d = (case v of None \<Rightarrow> d | Some x \<Rightarrow> x)"

definition or_else :: "'a option \<Rightarrow> 'a option \<Rightarrow> 'a option" where
  "or_else v d = (case v of None \<Rightarrow> d | Some x \<Rightarrow> Some x)"

section \<open>The outside world\<close>

text \<open>
  \<open>cuid()\<close> and \<open>randomUUID()\<close> come from libraries outside the repository, the
  clock from the platform. An operation takes them as an argument: \<open>gen\<close> maps the
  number of identifiers drawn so far to the next one, \<open>now\<close> is the instant (in
  milliseconds) at which the operation runs. The code relies on identifiers not repeating,
  which the theorems that need it state as \<open>inj (gen env)\<close>.
\<close>

record env =
  gen :: "nat \<Rightarrow> string"
  now :: int

text \<open>A concrete outside world for the witnesses: identifiers \<open>x\<close>, \<open>xx\<close>, \<open>xxx\<close> and so on.\<close>

definition demo_env :: env where
  "demo_env = \<lparr>gen = (\<lambda>n. replicate (Suc n) (CHR ''x'')), now = 0\<rparr>"

lemma demo_env_inj: "inj (gen demo_env)"
  by (auto simp: demo_env_def inj_def)

section \<open>Lemmas on sequencing\<close>

lemma ebind_Inr [simp]: "ebind (Inr x) f = f x"
  by (simp add: ebind_def)

lemma ebind_Inl [simp]: "ebind (Inl e) f = Inl e"
  by (simp add: ebind_def)

lemma ebind_eq_Inr [simp]: "ebind m f = Inr y \<longleftrightarrow> (\<exists>x. m = Inr x \<and> f x = Inr y)"
  by (cases m) auto

lemma ebind_eq_Inl: "ebind m f = Inl e \<longleftrightarrow> m = Inl e \<or> (\<exists>x. m = Inr x \<and> f x = Inl e)"
  by (cases m) auto

lemma ebind_assoc: "ebind (ebind m f) g = ebind m (\<lambda>x. ebind (f x) g)"
  by (cases m) auto

lemma require_eq_Inr [simp]: "require b e = Inr u \<longleftrightarrow> b"
  by (simp add: require_def)

lemma require_eq_Inl [simp]: "require b e = Inl e' \<longleftrightarrow> \<not> b \<and> e' = e"
  by (auto simp: require_def)

lemma require_True [simp]: "require True e = Inr ()"
  by (simp add: require_def)

lemma require_False [simp]: "require False e = Inl e"
  by (simp add: require_def)

lemma is_ok_simps [simp]: "is_ok (Inr x)" "\<not> is_ok (Inl e)"
  by (simp_all add: is_ok_def)

lemma is_ok_iff: "is_ok r \<longleftrightarrow> (\<exists>x. r = Inr x)"
  by (cases r) auto

lemma efold_append: "efold f (xs @ ys) s = ebind (efold f xs s) (efold f ys)"
  by (induction xs arbitrary: s) (simp_all add: ebind_def split: sum.splits)

lemma efold_preserves:
  assumes "\<And>x s s'. x \<in> set xs \<Longrightarrow> P s \<Longrightarrow> f x s = Inr s' \<Longrightarrow> P s'"
    and "P s" and "efold f xs s = Inr s'"
  shows "P s'"
  using assms(2,3,1)
proof (induction xs arbitrary: s)
  case (Cons x xs)
  then obtain t where "f x s = Inr t" "efold f xs t = Inr s'" by auto
  moreover from this Cons.prems have "P t" by auto
  ultimately show ?case using Cons by auto
qed simp

lemma efold_invariant_value:
  assumes "\<And>x s s'. f x s = Inr s' \<Longrightarrow> g s' = g s"
    and "efold f xs s = Inr s'"
  shows "g s' = g s"
  using assms(2) by (induction xs arbitrary: s) (auto dest: assms(1))

lemma coalesce_simps [simp]: "coalesce None d = d" "coalesce (Some x) d = x"
  by (simp_all add: coalesce_def)

lemma or_else_simps [simp]: "or_else None d = d" "or_else (Some x) d = Some x"
  by (simp_all add: or_else_def)

section \<open>Lemmas on integer division\<close>

lemma div_mult_le:
  assumes "0 < b"
  shows "a div b * b \<le> (a :: int)"
proof -
  have "a div b * b + a mod b = a" by simp
  moreover have "0 \<le> a mod b" using assms by simp
  ultimately show ?thesis by linarith
qed

lemma div_mult_gt:
  assumes "0 < b"
  shows "(a :: int) + 1 \<le> (a div b + 1) * b"
proof -
  have "a div b * b + a mod b = a" by simp
  moreover have "a mod b < b" using assms by simp
  ultimately show ?thesis by (simp only: distrib_right mult_1)
qed

section \<open>Lemmas on lists and sums\<close>

lemma sum_list_map_neg: "(\<Sum>x\<leftarrow>xs. - f x) = - (\<Sum>x\<leftarrow>xs. f x :: 'b::ab_group_add)"
  by (induction xs) auto

lemma sum_list_filter_split:
  "(\<Sum>x\<leftarrow>xs. f x) = (\<Sum>x\<leftarrow>filter P xs. f x) + (\<Sum>x\<leftarrow>filter (\<lambda>x. \<not> P x) xs. f x :: 'b::ab_group_add)"
  by (induction xs) (auto simp: algebra_simps)

lemma sum_list_filter_if:
  "(\<Sum>x\<leftarrow>filter P xs. f x) = (\<Sum>x\<leftarrow>xs. if P x then f x else (0 :: 'b::monoid_add))"
  by (induction xs) auto

lemma sum_list_nonneg_map:
  "(\<And>x. x \<in> set xs \<Longrightarrow> 0 \<le> f x) \<Longrightarrow> 0 \<le> (\<Sum>x\<leftarrow>xs. f x :: int)"
  by (induction xs) auto

lemma sum_list_update_map:
  "k < length xs \<Longrightarrow> (\<Sum>x\<leftarrow>xs[k := y]. f x) = (\<Sum>x\<leftarrow>xs. f x) + f y - f (xs ! k :: 'a) + (0 :: int)"
  by (induction xs arbitrary: k) (auto split: nat.split)

lemma filter_append_none: "\<not> P x \<Longrightarrow> filter P (xs @ [x]) = filter P xs"
  by simp

lemma find_None_iff_filter: "find P xs = None \<longleftrightarrow> filter P xs = []"
  by (induction xs) auto

lemma find_SomeD: "find P xs = Some x \<Longrightarrow> x \<in> set xs \<and> P x"
  by (induction xs) (auto split: if_splits)

lemma find_append: "find P (xs @ ys) = (case find P xs of None \<Rightarrow> find P ys | Some x \<Rightarrow> Some x)"
  by (induction xs) auto

lemma find_Some_ex: "x \<in> set xs \<Longrightarrow> P x \<Longrightarrow> \<exists>y. find P xs = Some y"
  by (induction xs) auto

lemma filter_map_cond:
  assumes "\<And>x. P (f x) = P x"
  shows "filter P (map f xs) = map f (filter P xs)"
  using assms by (induction xs) auto

lemma map_if_none: "(\<And>x. x \<in> set xs \<Longrightarrow> \<not> P x) \<Longrightarrow> map (\<lambda>x. if P x then f x else x) xs = xs"
  by (induction xs) auto

text \<open>\<open>update\<close> and \<open>updateMany\<close>: the rows that satisfy the filter are changed in place.\<close>

lemma updated_row:
  "x \<in> set (map (\<lambda>r. if P r then f r else r) xs) \<Longrightarrow> P x \<Longrightarrow> (\<And>r. P r \<Longrightarrow> Q (f r)) \<Longrightarrow> Q x"
  by auto

lemma find_cong_update:
  assumes "\<And>r. Q (f r) = Q r"
  shows "find Q (map (\<lambda>r. if P r then f r else r) xs) = map_option (\<lambda>r. if P r then f r else r) (find Q xs)"
  using assms by (induction xs) auto

lemma find_update_key:
  assumes "\<And>r. k (f r) = k r"
  shows "find (\<lambda>r. k r = u) (map (\<lambda>r. if k r = t then f r else r) xs) =
    (if u = t then map_option f (find (\<lambda>r. k r = t) xs) else find (\<lambda>r. k r = u) xs)"
  using assms by (induction xs) auto

lemma find_update_id:
  assumes "\<And>r. k (f r) = k r" "\<And>r. Q (f r) = Q r"
  shows "find (\<lambda>r. k r = i \<and> Q r) (map (\<lambda>r. if k r = i then f r else r) xs) = map_option f (find (\<lambda>r. k r = i \<and> Q r) xs)"
  using assms by (induction xs) auto

text \<open>\<open>Array.prototype.sort\<close> with a comparator: a stable sort.\<close>

fun insert_by :: "('a \<Rightarrow> 'a \<Rightarrow> bool) \<Rightarrow> 'a \<Rightarrow> 'a list \<Rightarrow> 'a list" where
  "insert_by le x [] = [x]"
| "insert_by le x (y # ys) = (if le x y then x # y # ys else y # insert_by le x ys)"

definition sort_by :: "('a \<Rightarrow> 'a \<Rightarrow> bool) \<Rightarrow> 'a list \<Rightarrow> 'a list" where
  "sort_by le xs = foldr (insert_by le) xs []"

lemma mset_insert_by: "mset (insert_by le x xs) = add_mset x (mset xs)"
  by (induction xs) auto

lemma mset_sort_by: "mset (sort_by le xs) = mset xs"
  unfolding sort_by_def by (induction xs) (auto simp: mset_insert_by)

lemma sort_by_facts [simp]:
  "set (sort_by le xs) = set xs" "length (sort_by le xs) = length xs" "distinct (sort_by le xs) = distinct xs"
  using mset_sort_by [of le xs] by (metis set_mset_mset, metis size_mset, metis mset_eq_imp_distinct_iff)

lemma sum_list_sort_by: "(\<Sum>x\<leftarrow>sort_by le xs. f x) = (\<Sum>x\<leftarrow>xs. f x :: int)"
  by (simp add: mset_sort_by sum_mset_sum_list [symmetric] mset_map)

end
