(* ===== verification/JsNumber.thy ===== *)
theory JsNumber
  imports Prelude "HOL-Library.Log_Nat"
begin

text \<open>
  JavaScript numbers. A finite IEEE-754 double is modelled by its exact rational value and
  every arithmetic operator by the exact result rounded to 53 significant bits, ties to
  even (\<open>rnd\<close>). The exponent range is unbounded: the amounts of this program lie
  between \<open>10\<^sup>-\<^sup>1\<^sup>0\<close> and \<open>10\<^sup>1\<^sup>6\<close>, far inside the range of a double, so overflow, subnormals,
  \<open>NaN\<close> and the sign of zero do not arise. \<open>Math.round\<close> rounds halves upwards,
  \<open>Math.floor\<close> and \<open>Math.ceil\<close> are exact.

  The lemmas say how far an operation can be off (\<open>rnd_error\<close>), that rounding cannot
  cross a representable number (\<open>rnd_ge\<close>, \<open>rnd_le\<close>), and that the three
  idioms of the money code, \<open>floor(a / b)\<close>, \<open>round(a / b)\<close> and
  \<open>round(x / 100 * 100)\<close>, compute exact integer arithmetic below \<open>2\<^sup>5\<^sup>3\<close>.
\<close>

section \<open>Rounding to a double\<close>

definition ilog2 :: "rat \<Rightarrow> int" where
  "ilog2 x = (let (p, q) = quotient_of x; k = bitlen p - bitlen q
              in if 2 powi k \<le> x then k else k - 1)"

definition round_even :: "rat \<Rightarrow> int" where
  "round_even x = (let f = \<lfloor>x\<rfloor>; d = x - of_int f
     in if d < 1/2 then f else if d > 1/2 then f + 1 else if even f then f else f + 1)"

definition rnd :: "rat \<Rightarrow> rat" where
  "rnd x = (if x = 0 then 0
            else let e = ilog2 \<bar>x\<bar> - 52 in of_int (round_even (x * 2 powi (- e))) * 2 powi e)"

definition representable :: "rat \<Rightarrow> bool" where
  "representable z \<longleftrightarrow> (\<exists>m k. z = of_int m * 2 powi k \<and> \<bar>m\<bar> \<le> 2 ^ 53)"

section \<open>Operators and Math functions\<close>

definition js_add :: "rat \<Rightarrow> rat \<Rightarrow> rat" where
  "js_add x y = rnd (x + y)"

definition js_sub :: "rat \<Rightarrow> rat \<Rightarrow> rat" where
  "js_sub x y = rnd (x - y)"

definition js_mul :: "rat \<Rightarrow> rat \<Rightarrow> rat" where
  "js_mul x y = rnd (x * y)"

definition js_div :: "rat \<Rightarrow> rat \<Rightarrow> rat" where
  "js_div x y = rnd (x / y)"

definition Math_round :: "rat \<Rightarrow> int" where
  "Math_round x = \<lfloor>x + 1/2\<rfloor>"

definition Math_floor :: "rat \<Rightarrow> int" where
  "Math_floor x = \<lfloor>x\<rfloor>"

definition Math_ceil :: "rat \<Rightarrow> int" where
  "Math_ceil x = \<lceil>x\<rceil>"

text \<open>
  \<open>Number.isInteger\<close>, and \<open>Number(s)\<close> of a decimal literal, given by its value.
\<close>

definition Number_isInteger :: "rat \<Rightarrow> bool" where
  "Number_isInteger x \<longleftrightarrow> x = of_int \<lfloor>x\<rfloor>"

definition Number :: "rat \<Rightarrow> rat" where
  "Number d = rnd d"

section \<open>Properties of rounding\<close>

lemma bitlen_powi_bounds:
  assumes "0 < n"
  shows "2 powi (bitlen n - 1) \<le> (of_int n :: rat)" "(of_int n :: rat) < 2 powi (bitlen n)"
proof -
  from assms have "1 \<le> bitlen n" by (simp add: bitlen_ge_iff_power)
  then have p: "(2 :: rat) powi (bitlen n - 1) = of_int (2 ^ nat (bitlen n - 1))"
    "(2 :: rat) powi (bitlen n) = of_int (2 ^ nat (bitlen n))"
    by (simp_all add: power_int_def)
  from bitlen_bounds [OF assms] show "2 powi (bitlen n - 1) \<le> (of_int n :: rat)"
    "(of_int n :: rat) < 2 powi (bitlen n)"
    unfolding p of_int_le_iff of_int_less_iff by simp_all
qed

lemma ilog2_bounds:
  assumes "0 < x"
  shows "2 powi (ilog2 x) \<le> x" "x < 2 powi (ilog2 x + 1)"
proof -
  obtain p q where pq: "quotient_of x = (p, q)" by (cases "quotient_of x")
  define k where "k = bitlen p - bitlen q"
  have q: "0 < q" using pq by (rule quotient_of_denom_pos)
  have x: "x = of_int p / of_int q" using pq by (rule quotient_of_div)
  with assms q have p: "0 < p" by (simp add: zero_less_divide_iff)
  have "2 powi (k - 1) * of_int q < (2 :: rat) powi (k - 1) * 2 powi (bitlen q)"
    by (intro mult_strict_left_mono bitlen_powi_bounds q zero_less_power_int) simp
  also have "\<dots> = 2 powi (bitlen p - 1)"
    by (simp add: k_def power_int_add [symmetric])
  also have "\<dots> \<le> of_int p" by (rule bitlen_powi_bounds [OF p])
  finally have lo: "2 powi (k - 1) < x" using q by (simp add: x field_simps)
  have "(of_int p :: rat) < 2 powi (bitlen p)" by (rule bitlen_powi_bounds [OF p])
  also have "\<dots> = 2 powi (k + 1) * 2 powi (bitlen q - 1)"
    by (simp add: k_def power_int_add [symmetric])
  also have "\<dots> \<le> 2 powi (k + 1) * of_int q"
    by (intro mult_left_mono bitlen_powi_bounds q) simp
  finally have hi: "x < 2 powi (k + 1)" using q by (simp add: x field_simps)
  show "2 powi (ilog2 x) \<le> x" "x < 2 powi (ilog2 x + 1)"
    using lo hi by (auto simp: ilog2_def pq k_def [symmetric])
qed

lemma round_even_error: "\<bar>of_int (round_even x) - x\<bar> \<le> 1/2"
proof -
  obtain f where f: "\<lfloor>x\<rfloor> = f" by simp
  then have "of_int f \<le> x" "x < of_int f + 1" by linarith+
  then show ?thesis unfolding round_even_def Let_def f by (auto simp: abs_le_iff)
qed

lemma round_even_ge: "of_int n \<le> x \<Longrightarrow> n \<le> round_even x"
  unfolding round_even_def Let_def by (auto; linarith)

lemma round_even_le: "x \<le> of_int n \<Longrightarrow> round_even x \<le> n"
  unfolding round_even_def Let_def by (auto; linarith)

lemma round_even_of_int [simp]: "round_even (of_int n) = n"
  by (simp add: round_even_def)

lemma round_even_minus: "round_even (- x) = - round_even x"
proof (cases "x = of_int \<lfloor>x\<rfloor>")
  case True
  then show ?thesis by (metis of_int_minus round_even_of_int)
next
  case False
  then have f: "\<lfloor>- x\<rfloor> = - \<lfloor>x\<rfloor> - 1" by linarith
  show ?thesis unfolding round_even_def Let_def f by auto
qed

lemma rnd_0 [simp]: "rnd 0 = 0" by (simp add: rnd_def)

lemma rnd_minus [simp]: "rnd (- x) = - rnd x"
  by (simp add: rnd_def Let_def round_even_minus)

lemma rnd_error: "\<bar>rnd x - x\<bar> \<le> \<bar>x\<bar> / 2 ^ 53"
proof (cases "x = 0")
  case False
  define e where "e = ilog2 \<bar>x\<bar> - 52"
  have pe: "(0::rat) < 2 powi e" by simp
  have inv: "(2::rat) powi (- e) * 2 powi e = 1"
    by (simp add: power_int_add [symmetric])
  have "rnd x - x = (of_int (round_even (x * 2 powi (- e))) - x * 2 powi (- e)) * 2 powi e"
    using False inv by (simp add: rnd_def Let_def e_def [symmetric] algebra_simps)
  then have "\<bar>rnd x - x\<bar> \<le> 1/2 * 2 powi e"
    using round_even_error [of "x * 2 powi (- e)"] pe by (simp add: abs_mult mult_right_mono)
  also have "\<dots> = 2 powi (ilog2 \<bar>x\<bar>) / 2 ^ 53"
    by (simp add: e_def power_int_diff)
  also have "\<dots> \<le> \<bar>x\<bar> / 2 ^ 53"
    using ilog2_bounds(1) [of "\<bar>x\<bar>"] False by (intro divide_right_mono) auto
  finally show ?thesis .
qed simp

lemma representable_minus [simp]: "representable (- z) = representable z"
proof -
  have "representable (- z)" if "representable z" for z
  proof -
    from that obtain m k where "z = of_int m * 2 powi k" "\<bar>m\<bar> \<le> 2 ^ 53"
      unfolding representable_def by blast
    then have "- z = of_int (- m) * 2 powi k \<and> \<bar>- m\<bar> \<le> 2 ^ 53" by simp
    then show ?thesis unfolding representable_def by blast
  qed
  from this [of z] this [of "- z"] show ?thesis by auto
qed

lemma representable_int: "\<bar>n\<bar> \<le> 2 ^ 53 \<Longrightarrow> representable (of_int n)"
  unfolding representable_def by (intro exI [of _ n] exI [of _ "0::int"]) simp

lemma representable_half: "\<bar>n\<bar> \<le> 2 ^ 53 \<Longrightarrow> representable (of_int n / 2)"
  unfolding representable_def by (intro exI [of _ n] exI [of _ "-1::int"]) (simp add: power_int_minus)

lemma grid_or_small:
  assumes "z = of_int m * 2 powi k" "\<bar>m\<bar> \<le> 2 ^ 53"
  shows "(\<exists>n. z = of_int n * 2 powi e) \<or> \<bar>z\<bar> \<le> (2 :: rat) powi (e + 52)"
proof (cases "e \<le> k")
  case True
  then have "(2::rat) powi k = of_int (2 ^ nat (k - e)) * 2 powi e"
    using power_int_add [of "2::rat" "k - e" e] by (simp add: power_int_def [of _ "k - e"])
  with assms(1) show ?thesis by (auto intro!: exI [of _ "m * 2 ^ nat (k - e)"])
next
  case False
  then have "(2::rat) powi k \<le> 2 powi (e - 1)" by (intro power_int_increasing) auto
  moreover have "\<bar>of_int m\<bar> \<le> (2::rat) ^ 53"
    using assms(2) by (metis of_int_abs of_int_le_iff of_int_numeral of_int_power)
  ultimately have "\<bar>z\<bar> \<le> 2 ^ 53 * 2 powi (e - 1)"
    unfolding assms(1) abs_mult by (intro mult_mono) auto
  also have "(2::rat) ^ 53 * 2 powi (e - 1) = 2 powi (53 + (e - 1))"
    using power_int_add [of "2::rat" 53 "e - 1"] by simp
  finally show ?thesis by (simp add: algebra_simps)
qed

lemma rnd_pos_cases:
  assumes "0 < x"
  obtains e where "rnd x = of_int (round_even (x * 2 powi (- e))) * 2 powi e"
    "2 powi (e + 52) \<le> x"
proof
  show "rnd x = of_int (round_even (x * 2 powi (- (ilog2 x - 52)))) * 2 powi (ilog2 x - 52)"
    using assms by (simp add: rnd_def Let_def)
  show "2 powi (ilog2 x - 52 + 52) \<le> x" using ilog2_bounds(1) [OF assms] by simp
qed

lemma scale_powi: "(a * 2 powi (- e) :: rat) * 2 powi e = a"
  by (simp add: power_int_minus)

lemma scaled_of_int: "(of_int n * 2 powi e) * (2 powi (- e) :: rat) = of_int n"
  by (simp add: power_int_minus)

lemma powi_52: "(2::rat) powi (e + 52) = of_int (2 ^ 52) * 2 powi e"
  using power_int_add [of "2::rat" e 52] by simp

lemma rnd_ge:
  assumes "representable z" "0 \<le> x" "z \<le> x"
  shows "z \<le> rnd x"
proof (cases "x = 0")
  case False
  with \<open>0 \<le> x\<close> have "0 < x" by simp
  then obtain e where r: "rnd x = of_int (round_even (x * 2 powi (- e))) * 2 powi e"
    and lo: "2 powi (e + 52) \<le> x" by (rule rnd_pos_cases)
  have grid: "of_int n * 2 powi e \<le> rnd x" if "of_int n * 2 powi e \<le> x" for n
  proof -
    from that have "of_int n * 2 powi e * 2 powi (- e) \<le> x * 2 powi (- e)"
      by (intro mult_right_mono) simp_all
    then have "n \<le> round_even (x * 2 powi (- e))"
      unfolding scaled_of_int by (rule round_even_ge)
    then show ?thesis unfolding r by (intro mult_right_mono) simp_all
  qed
  from assms(1) obtain m k where "z = of_int m * 2 powi k" "\<bar>m\<bar> \<le> 2 ^ 53"
    unfolding representable_def by blast
  then consider n where "z = of_int n * 2 powi e" | "\<bar>z\<bar> \<le> 2 powi (e + 52)"
    using grid_or_small [of z m k e] by blast
  then show ?thesis
  proof cases
    case 1
    with grid assms(3) show ?thesis by blast
  next
    case 2
    have "2 powi (e + 52) \<le> rnd x" unfolding powi_52 by (rule grid) (use lo in \<open>simp only: powi_52\<close>)
    with 2 show ?thesis by (simp add: abs_le_iff)
  qed
qed (use assms in simp)

lemma rnd_le:
  assumes "representable z" "0 \<le> x" "x \<le> z"
  shows "rnd x \<le> z"
proof (cases "x = 0")
  case False
  with \<open>0 \<le> x\<close> have "0 < x" by simp
  then obtain e where r: "rnd x = of_int (round_even (x * 2 powi (- e))) * 2 powi e"
    and lo: "2 powi (e + 52) \<le> x" by (rule rnd_pos_cases)
  have grid: "rnd x \<le> of_int n * 2 powi e" if "x \<le> of_int n * 2 powi e" for n
  proof -
    from that have "x * 2 powi (- e) \<le> of_int n * 2 powi e * 2 powi (- e)"
      by (intro mult_right_mono) simp_all
    then have "round_even (x * 2 powi (- e)) \<le> n"
      unfolding scaled_of_int by (rule round_even_le)
    then show ?thesis unfolding r by (intro mult_right_mono) simp_all
  qed
  from assms(1) obtain m k where "z = of_int m * 2 powi k" "\<bar>m\<bar> \<le> 2 ^ 53"
    unfolding representable_def by blast
  then consider n where "z = of_int n * 2 powi e" | "\<bar>z\<bar> \<le> 2 powi (e + 52)"
    using grid_or_small [of z m k e] by blast
  then show ?thesis
  proof cases
    case 1
    with grid assms(3) show ?thesis by blast
  next
    case 2
    with assms(3) lo have "z = of_int (2 ^ 52) * 2 powi e" by (simp add: abs_le_iff powi_52)
    with grid assms(3) show ?thesis by blast
  qed
qed (use assms in simp)

lemma rnd_exact:
  assumes "representable z"
  shows "rnd z = z"
proof -
  have pos: "rnd y = y" if "representable y" "0 < y" for y
    using rnd_ge [of y y] rnd_le [of y y] that by auto
  consider "z = 0" | "0 < z" | "0 < - z" by linarith
  then show ?thesis
  proof cases
    case 3
    with pos [of "- z"] assms show ?thesis by simp
  qed (use assms pos in auto)
qed

lemma rnd_of_int [simp]: "\<bar>n\<bar> \<le> 2 ^ 53 \<Longrightarrow> rnd (of_int n) = of_int n"
  by (intro rnd_exact representable_int)

lemma representable_rnd: "representable (rnd x)"
proof -
  have pos: "representable (rnd y)" if y: "0 < y" for y
  proof -
    define e where "e = ilog2 y - 52"
    have "y < of_int (2 ^ 53) * 2 powi e"
      using ilog2_bounds(2) [OF y] power_int_add [of "2::rat" 53 "ilog2 y - 52"]
      by (simp add: e_def algebra_simps)
    then have "y * 2 powi (- e) \<le> of_int (2 ^ 53) * 2 powi e * 2 powi (- e)"
      by (intro mult_right_mono) auto
    then have "round_even (y * 2 powi (- e)) \<le> 2 ^ 53"
      unfolding scaled_of_int by (rule round_even_le)
    moreover have "0 \<le> round_even (y * 2 powi (- e))"
      by (rule round_even_ge) (use y in simp)
    ultimately show ?thesis
      using y unfolding representable_def
      by (intro exI [of _ "round_even (y * 2 powi (- e))"] exI [of _ e])
         (simp add: rnd_def Let_def e_def)
  qed
  consider "x = 0" | "0 < x" | "0 < - x" by linarith
  then show ?thesis
  proof cases
    case 1
    then show ?thesis using representable_int [of 0] by simp
  next
    case 3
    from pos [OF this] show ?thesis by simp
  qed (rule pos)
qed

lemma rnd_rnd [simp]: "rnd (rnd x) = rnd x"
  by (intro rnd_exact representable_rnd)

lemma rnd_half: "\<bar>n\<bar> \<le> 2 ^ 53 \<Longrightarrow> rnd (of_int n / 2) = of_int n / 2"
  by (intro rnd_exact representable_half)

section \<open>Exact integer arithmetic\<close>

lemma js_add_int [money_simps]:
  "\<bar>a + b\<bar> \<le> 2 ^ 53 \<Longrightarrow> js_add (of_int a) (of_int b) = of_int (a + b)"
  unfolding js_add_def of_int_add [symmetric] by (rule rnd_of_int)

lemma js_sub_int [money_simps]:
  "\<bar>a - b\<bar> \<le> 2 ^ 53 \<Longrightarrow> js_sub (of_int a) (of_int b) = of_int (a - b)"
  unfolding js_sub_def of_int_diff [symmetric] by (rule rnd_of_int)

lemma js_mul_int [money_simps]:
  "\<bar>a * b\<bar> \<le> 2 ^ 53 \<Longrightarrow> js_mul (of_int a) (of_int b) = of_int (a * b)"
  unfolding js_mul_def of_int_mult [symmetric] by (rule rnd_of_int)

lemma Math_round_of_int [simp]: "Math_round (of_int n) = n"
  unfolding Math_round_def by (rule floor_unique) simp_all

lemma Math_round_eqI: "\<bar>x - of_int n\<bar> < 1/2 \<Longrightarrow> Math_round x = n"
  unfolding Math_round_def by (rule floor_unique) (auto simp: abs_if split: if_splits)

lemma Number_isInteger_of_int [simp]: "Number_isInteger (of_int n)"
  by (simp add: Number_isInteger_def)

lemma quotient_error:
  assumes "0 \<le> a" "a < 2 ^ 53" "0 < b"
  shows "rnd (of_int a / of_int b) < of_int a / of_int b + 1 / of_int b"
proof -
  have "rnd (of_int a / of_int b) - of_int a / of_int b \<le> (of_int a / of_int b) / 2 ^ 53"
    using rnd_error [of "of_int a / of_int b"] assms by (simp add: abs_le_iff)
  also have "\<dots> = (of_int a / 2 ^ 53) / of_int b" by simp
  also have "(of_int a :: rat) < 2 ^ 53" using assms(2) by (metis of_int_less_iff of_int_numeral of_int_power)
  then have "(of_int a / 2 ^ 53 :: rat) / of_int b < 1 / of_int b"
    using assms(3) by (intro divide_strict_right_mono) simp_all
  finally show ?thesis by simp
qed

lemma quotient_lower:
  assumes "0 \<le> a" "0 < b" "representable z" "z * of_int b \<le> of_int a"
  shows "z \<le> rnd (of_int a / of_int b)"
  using assms by (intro rnd_ge) (simp_all add: pos_le_divide_eq)

lemma floor_quotient [money_simps]:
  assumes "0 \<le> a" "a < 2 ^ 53" "0 < b"
  shows "Math_floor (js_div (of_int a) (of_int b)) = a div b"
proof -
  have "a div b \<le> a div 1" using assms by (intro zdiv_mono2) auto
  moreover have "0 \<le> a div b" using assms by (simp add: pos_imp_zdiv_nonneg_iff)
  ultimately have "\<bar>a div b\<bar> \<le> 2 ^ 53" using assms by simp
  moreover have "of_int (a div b * b) \<le> (of_int a :: rat)"
    unfolding of_int_le_iff by (rule div_mult_le [OF assms(3)])
  ultimately have lo: "of_int (a div b) \<le> rnd (of_int a / of_int b)"
    using assms by (intro quotient_lower representable_int) simp_all
  have "a + 1 \<le> (a div b + 1) * b" by (rule div_mult_gt [OF assms(3)])
  then have "of_int (a + 1) \<le> (of_int ((a div b + 1) * b) :: rat)" by (simp only: of_int_le_iff)
  then have "of_int a / of_int b + 1 / of_int b \<le> (of_int (a div b) + 1 :: rat)"
    using assms(3) by (simp add: field_simps)
  with quotient_error [OF assms] have "rnd (of_int a / of_int b) < of_int (a div b) + 1" by linarith
  with lo show ?thesis unfolding Math_floor_def js_div_def by (simp add: floor_unique)
qed

lemma round_quotient [money_simps]:
  assumes "0 \<le> a" "a < 2 ^ 53" "0 < b" "even b"
  shows "Math_round (js_div (of_int a) (of_int b)) = (a + b div 2) div b"
proof -
  define h where "h = b div 2"
  define m where "m = (a + h) div b"
  have b: "b = 2 * h" "0 < h" using assms by (auto simp: h_def)
  have "m * b \<le> a + h" unfolding m_def by (rule div_mult_le [OF assms(3)])
  with b have low: "(2 * m - 1) * h \<le> a" by (simp add: algebra_simps)
  have "a + h + 1 \<le> (m + 1) * b" unfolding m_def by (rule div_mult_gt [OF assms(3)])
  with b have up: "a + 1 \<le> (2 * m + 1) * h" by (simp add: algebra_simps)
  have "0 \<le> m" unfolding m_def using assms b by (simp add: pos_imp_zdiv_nonneg_iff)
  moreover have "2 * m - 1 \<le> (2 * m - 1) * h" if "1 \<le> m"
    using that b(2) mult_left_mono [of 1 h "2 * m - 1"] by simp
  ultimately have "\<bar>2 * m - 1\<bar> \<le> 2 ^ 53"
    using low assms(2) by (cases "1 \<le> m") (linarith, simp)
  moreover have "of_int ((2 * m - 1) * h) \<le> (of_int a :: rat)" using low by (simp only: of_int_le_iff)
  ultimately have lo: "of_int (2 * m - 1) / 2 \<le> rnd (of_int a / of_int b)"
    using assms b by (intro quotient_lower representable_half) simp_all
  have "of_int (a + 1) \<le> (of_int ((2 * m + 1) * h) :: rat)" using up by (simp only: of_int_le_iff)
  then have "of_int a / of_int b + 1 / of_int b \<le> (of_int m + 1 / 2 :: rat)"
    using b by (simp add: field_simps)
  with quotient_error [OF assms(1-3)] have "rnd (of_int a / of_int b) < of_int m + 1 / 2" by linarith
  with lo have "\<lfloor>rnd (of_int a / of_int b) + 1 / 2\<rfloor> = m" by (intro floor_unique) simp_all
  then show ?thesis by (simp add: Math_round_def js_div_def m_def h_def)
qed

text \<open>
  Dividing by a power of ten and multiplying back is off by less than half a unit, so
  rounding restores the integer.
\<close>

lemma two_roundings:
  fixes r w x :: rat
  assumes "\<bar>w - x\<bar> \<le> \<bar>x\<bar> / 2 ^ 53" "\<bar>r - w\<bar> \<le> \<bar>w\<bar> / 2 ^ 53" "\<bar>x\<bar> \<le> 2 ^ 50"
  shows "\<bar>r - x\<bar> < 1 / 2"
  using assms by (simp add: abs_if split: if_splits)

lemma scale_round_trip [money_simps]:
  assumes "\<bar>c\<bar> \<le> 2 ^ 50" "0 < d"
  shows "Math_round (js_mul (rnd (of_int c / of_int d)) (of_int d)) = c"
proof (rule Math_round_eqI)
  define y where "y = rnd (of_int c / of_int d)"
  have d: "(0::rat) < of_int d" using assms(2) by simp
  have c: "\<bar>of_int c\<bar> \<le> (2::rat) ^ 50"
    using assms(1) by (metis of_int_abs of_int_le_iff of_int_numeral of_int_power)
  have "\<bar>y - of_int c / of_int d\<bar> \<le> \<bar>of_int c / of_int d\<bar> / 2 ^ 53"
    unfolding y_def by (rule rnd_error)
  then have "\<bar>y - of_int c / of_int d\<bar> * of_int d \<le> \<bar>of_int c / of_int d\<bar> / 2 ^ 53 * of_int d"
    using d by (intro mult_right_mono) simp_all
  then have e1: "\<bar>y * of_int d - of_int c\<bar> \<le> \<bar>of_int c\<bar> / 2 ^ 53"
    using d by (simp add: abs_mult [symmetric] abs_divide left_diff_distrib
        abs_mult_pos [symmetric] field_simps)
  have e2: "\<bar>rnd (y * of_int d) - y * of_int d\<bar> \<le> \<bar>y * of_int d\<bar> / 2 ^ 53" by (rule rnd_error)
  from e1 e2 c show "\<bar>js_mul y (of_int d) - of_int c\<bar> < 1 / 2"
    unfolding js_mul_def by (rule two_roundings)
qed

end
