(* ===== verification/Money.thy ===== *)
theory Money
  imports JsNumber
begin

text \<open>
  \<open>src/lib/money.ts\<close>: currencies, minor and major units and the conversions between
  them. Minor units (\<open>Centimes\<close>) are integers; a major amount is the exact value of the
  \<open>Decimal(12,2)\<close> column, number or numeric string that the code passes to
  \<open>Number\<close>. The conversions are computed in double arithmetic, exactly as written. The lemmas
  show that in spite of that they are inverse to each other up to \<open>2\<^sup>5\<^sup>0\<close> minor
  units (a \<open>Decimal(12,2)\<close> column holds less than \<open>10\<^sup>1\<^sup>2\<close>), which is what
  lets the persistence models below keep the money columns of a row in minor units.
\<close>

section \<open>Units and currencies\<close>

datatype currency = MAD | USD | EUR | GBP | CAD

type_synonym centimes = int

definition SUPPORTED_CURRENCIES :: "currency list" where
  "SUPPORTED_CURRENCIES = [MAD, USD, EUR, GBP, CAD]"

fun MINOR_UNIT_EXPONENTS :: "currency \<Rightarrow> nat" where
  "MINOR_UNIT_EXPONENTS MAD = 2"
| "MINOR_UNIT_EXPONENTS USD = 2"
| "MINOR_UNIT_EXPONENTS EUR = 2"
| "MINOR_UNIT_EXPONENTS GBP = 2"
| "MINOR_UNIT_EXPONENTS CAD = 2"

definition centimes :: "rat \<Rightarrow> centimes" where
  "centimes n = Math_round n"

definition minorUnitExponent :: "currency \<Rightarrow> nat" where
  "minorUnitExponent c = MINOR_UNIT_EXPONENTS c"

section \<open>Conversions\<close>

definition toMinor :: "rat \<Rightarrow> currency \<Rightarrow> centimes" where
  "toMinor amount c =
     centimes (of_int (Math_round (js_mul (Number amount) (10 ^ minorUnitExponent c))))"

definition fromMinor :: "centimes \<Rightarrow> currency \<Rightarrow> rat" where
  "fromMinor minor c = js_div (Number (of_int minor)) (10 ^ minorUnitExponent c)"

text \<open>Decimal digits of a natural number, and \<open>Number.prototype.toFixed\<close>.\<close>

definition digit_char :: "nat \<Rightarrow> char" where
  "digit_char d = char_of (48 + d)"

fun show_nat :: "nat \<Rightarrow> string" where
  "show_nat n = (if n < 10 then [digit_char n] else show_nat (n div 10) @ [digit_char (n mod 10)])"

declare show_nat.simps [simp del]

definition toFixed :: "rat \<Rightarrow> nat \<Rightarrow> string" where
  "toFixed x f =
     (let n = nat (Math_round (\<bar>x\<bar> * 10 ^ f));
          ds = show_nat n;
          m = replicate (Suc f - length ds) (CHR ''0'') @ ds;
          k = length m - f
      in (if x < 0 then ''-'' else '''') @ take k m @ (if f = 0 then [] else CHR ''.'' # drop k m))"

definition toMinorString :: "centimes \<Rightarrow> currency \<Rightarrow> string" where
  "toMinorString minor c = toFixed (fromMinor minor c) (minorUnitExponent c)"

definition madToCentimes :: "rat \<Rightarrow> centimes" where
  "madToCentimes amount = toMinor amount MAD"

definition centimesToMad :: "centimes \<Rightarrow> rat" where
  "centimesToMad n = fromMinor n MAD"

definition centimesToMadString :: "centimes \<Rightarrow> string" where
  "centimesToMadString n = toMinorString n MAD"

text \<open>The value of a decimal literal, to state what a printed amount denotes.\<close>

definition char_digit :: "char \<Rightarrow> nat" where
  "char_digit ch = of_char ch - 48"

definition digits_value :: "string \<Rightarrow> nat" where
  "digits_value s = foldl (\<lambda>acc ch. 10 * acc + char_digit ch) 0 s"

definition unsigned_value :: "string \<Rightarrow> rat" where
  "unsigned_value s =
     (let i = takeWhile (\<lambda>ch. ch \<noteq> CHR ''.'') s; f = drop (Suc (length i)) s
      in of_nat (digits_value i) + of_nat (digits_value f) / 10 ^ length f)"

definition literal_value :: "string \<Rightarrow> rat" where
  "literal_value s =
     (if s \<noteq> [] \<and> hd s = CHR ''-'' then - unsigned_value (tl s) else unsigned_value s)"

section \<open>Conversion lemmas\<close>

lemma exponent_2 [simp]: "minorUnitExponent c = 2"
  by (cases c) (simp_all add: minorUnitExponent_def)

lemma centimes_of_int [simp]: "centimes (of_int n) = n"
  by (simp add: centimes_def)

lemma Number_of_int [simp]: "\<bar>n\<bar> \<le> 2 ^ 53 \<Longrightarrow> Number (of_int n) = of_int n"
  by (simp add: Number_def)

lemma toMinor_cents [money_simps]:
  assumes "\<bar>h\<bar> \<le> 2 ^ 50"
  shows "toMinor (of_int h / 100) c = h"
  using scale_round_trip [OF assms, of 100] by (simp add: toMinor_def Number_def)

lemma fromMinor_def': "\<bar>m\<bar> \<le> 2 ^ 50 \<Longrightarrow> fromMinor m c = rnd (of_int m / 100)"
  by (simp add: fromMinor_def js_div_def)

text \<open>
  Converting minor units to a major amount and back is the identity, for every currency and every amount of at most
  \<open>2\<^sup>5\<^sup>0\<close> minor units, although both directions are computed in floating point.
\<close>

lemma toMinor_of_fromMinor [money_simps]: "\<bar>m\<bar> \<le> 2 ^ 50 \<Longrightarrow> toMinor (fromMinor m c) c = m"
  using scale_round_trip [of m 100] by (simp add: toMinor_def fromMinor_def' Number_def)

section \<open>Printing\<close>

lemma of_char_digit_char: "d < 10 \<Longrightarrow> of_char (digit_char d) = 48 + d"
  by (simp add: digit_char_def of_char_of)

lemma char_digit_char: "d < 10 \<Longrightarrow> char_digit (digit_char d) = d"
  by (simp add: char_digit_def of_char_digit_char)

lemma digit_char_neq:
  assumes "d < 10"
  shows "digit_char d \<noteq> CHR ''.''" "digit_char d \<noteq> CHR ''-''"
proof -
  have neq: "digit_char d \<noteq> ch" if "of_char ch < (48 :: nat)" for ch
    using of_char_digit_char [OF assms] that by auto
  show "digit_char d \<noteq> CHR ''.''" "digit_char d \<noteq> CHR ''-''" by (rule neq, simp)+
qed

lemma digits_value_append: "digits_value (xs @ ys) = digits_value xs * 10 ^ length ys + digits_value ys"
proof -
  have step: "foldl (\<lambda>acc ch. 10 * acc + char_digit ch) a ys =
      a * 10 ^ length ys + digits_value ys" for a
    unfolding digits_value_def
  proof (induction ys arbitrary: a)
    case (Cons y ys)
    from Cons [of "10 * a + char_digit y"] Cons [of "char_digit y"] show ?case
      by (simp add: algebra_simps)
  qed simp
  have "digits_value (xs @ ys) = foldl (\<lambda>acc ch. 10 * acc + char_digit ch) (digits_value xs) ys"
    by (simp add: digits_value_def)
  then show ?thesis unfolding step .
qed

lemma digits_value_show: "digits_value (show_nat n) = n"
proof (induction n rule: show_nat.induct)
  case (1 n)
  then show ?case
    by (subst show_nat.simps)
       (auto simp: digits_value_append digits_value_def char_digit_char)
qed

lemma show_nat_digits: "ch \<in> set (show_nat n) \<Longrightarrow> ch \<noteq> CHR ''.'' \<and> ch \<noteq> CHR ''-''"
proof (induction n rule: show_nat.induct)
  case (1 n)
  then show ?case
    by (subst (asm) show_nat.simps) (auto simp: digit_char_neq split: if_splits)
qed

lemma digits_value_zeros: "digits_value (replicate k (CHR ''0'') @ s) = digits_value s"
  by (induction k) (simp_all add: digits_value_def char_digit_def)

lemma unsigned_value_split:
  assumes "\<And>ch. ch \<in> set m \<Longrightarrow> ch \<noteq> CHR ''.''" "k \<le> length m"
  shows "unsigned_value (take k m @ CHR ''.'' # drop k m) =
    of_nat (digits_value m) / 10 ^ (length m - k)"
proof -
  have "takeWhile (\<lambda>ch. ch \<noteq> CHR ''.'') (take k m @ CHR ''.'' # drop k m) = take k m"
    using assms(1) by (subst takeWhile_append2) (auto dest: in_set_takeD)
  then have "unsigned_value (take k m @ CHR ''.'' # drop k m) =
      of_nat (digits_value (take k m)) + of_nat (digits_value (drop k m)) / 10 ^ (length m - k)"
    using assms(2) by (simp add: unsigned_value_def Let_def)
  also have "\<dots> = of_nat (digits_value (take k m @ drop k m)) / 10 ^ (length m - k)"
    unfolding digits_value_append by (simp add: add_divide_distrib)
  finally show ?thesis by simp
qed

lemma toFixed_value:
  assumes "0 < f"
  shows "literal_value (toFixed x f) =
    (if x < 0 then -1 else 1) * of_nat (nat (Math_round (\<bar>x\<bar> * 10 ^ f))) / 10 ^ f"
proof -
  define n where "n = nat (Math_round (\<bar>x\<bar> * 10 ^ f))"
  define m where "m = replicate (Suc f - length (show_nat n)) (CHR ''0'') @ show_nat n"
  define k where "k = length m - f"
  have m: "ch \<noteq> CHR ''.''" "ch \<noteq> CHR ''-''" if "ch \<in> set m" for ch
    using that show_nat_digits [of ch n] by (auto simp: m_def split: if_splits)
  have len: "Suc f \<le> length m" by (simp add: m_def)
  have "unsigned_value (take k m @ CHR ''.'' # drop k m) = of_nat n / 10 ^ f"
    using unsigned_value_split [of m k] m len
    by (simp add: k_def) (simp add: m_def digits_value_zeros digits_value_show)
  moreover have "hd (take k m @ ys) \<noteq> CHR ''-''" for ys
    using m len by (cases m) (auto simp: k_def take_Cons split: nat.splits)
  moreover have "toFixed x f =
      (if x < 0 then [CHR ''-''] else []) @ take k m @ CHR ''.'' # drop k m"
    unfolding toFixed_def Let_def n_def [symmetric] m_def [symmetric] k_def using assms by simp
  ultimately show ?thesis by (simp add: literal_value_def n_def)
qed

text \<open>
  The decimal string printed for a provider payload denotes exactly the amount in
  major units.
\<close>

lemma toMinorString_value:
  assumes "\<bar>m\<bar> \<le> 2 ^ 50"
  shows "literal_value (toMinorString m c) = of_int m / 100"
proof -
  define y where "y = fromMinor m c"
  have y: "y = rnd (of_int m / 100)" unfolding y_def by (rule fromMinor_def' [OF assms])
  have mb: "\<bar>of_int m\<bar> \<le> (2::rat) ^ 50"
    using assms by (metis of_int_abs of_int_le_iff of_int_numeral of_int_power)
  have err: "\<bar>y - of_int m / 100\<bar> \<le> \<bar>of_int m / 100\<bar> / 2 ^ 53" unfolding y by (rule rnd_error)
  have sgn: "y < 0 \<longleftrightarrow> m < 0"
  proof -
    have "(y < 0) = (of_int m < (0::rat))"
      using err by (auto simp: abs_if split: if_splits)
    then show ?thesis by simp
  qed
  have "Math_round (\<bar>y\<bar> * 10 ^ 2) = \<bar>m\<bar>"
  proof (rule Math_round_eqI)
    show "\<bar>\<bar>y\<bar> * 10 ^ 2 - of_int \<bar>m\<bar>\<bar> < 1 / 2"
      using err mb sgn by (simp add: abs_if split: if_splits)
  qed
  then show ?thesis
    unfolding toMinorString_def y_def [symmetric] using sgn by (simp add: toFixed_value)
qed

end
