(* ===== verification/Ledger.thy ===== *)
theory Ledger
  imports Money
begin

text \<open>
  \<open>src/lib/ledger.ts\<close>: the double-entry ledger, pure part. A posting is a debit and a
  credit leg of one currency and equal value; the balance of an account is the sum of its
  credits minus the sum of its debits. Amounts are integer minor units; additions of
  such amounts are exact in double arithmetic up to \<open>2\<^sup>5\<^sup>3\<close>
  (\<open>js_add_int\<close>), so they are plain integer additions here.
\<close>

section \<open>Data\<close>

datatype ledger_account =
  CASH | PENDING | COLLECTED | AVAILABLE | RESERVE | FEES | PAID_OUT | WALLET | TAX_PAYABLE

datatype ledger_direction = DEBIT | CREDIT

datatype ledger_category =
  CAPTURE | REFUND | FEE | SPLIT | PAYOUT | CHARGEBACK | RESERVE_RELEASE | ADJUSTMENT
  | FX_ADJUSTMENT | DISBURSEMENT | TAX

definition LEDGER_ACCOUNTS :: "ledger_account list" where
  "LEDGER_ACCOUNTS =
     [CASH, PENDING, COLLECTED, AVAILABLE, RESERVE, FEES, PAID_OUT, WALLET, TAX_PAYABLE]"

definition LEDGER_CATEGORIES :: "ledger_category list" where
  "LEDGER_CATEGORIES =
     [CAPTURE, REFUND, FEE, SPLIT, PAYOUT, CHARGEBACK, RESERVE_RELEASE, ADJUSTMENT,
      FX_ADJUSTMENT, DISBURSEMENT, TAX]"

record ledger_leg =
  account :: ledger_account
  direction :: ledger_direction
  amountCents :: centimes
  category :: ledger_category
  leg_currency :: currency
  partyId :: "string option"

record ledger_posting =
  debit_leg :: ledger_leg
  credit_leg :: ledger_leg
  post_sourceType :: "string option"
  post_sourceId :: "string option"

type_synonym ledger_balances = "currency \<Rightarrow> ledger_account \<Rightarrow> centimes"

section \<open>Legs and postings\<close>

definition debit ::
  "ledger_account \<Rightarrow> centimes \<Rightarrow> ledger_category \<Rightarrow> string option \<Rightarrow> currency \<Rightarrow> ledger_leg" where
  "debit a n cat party c =
     \<lparr>account = a, direction = DEBIT, amountCents = n, category = cat, leg_currency = c, partyId = party\<rparr>"

definition credit ::
  "ledger_account \<Rightarrow> centimes \<Rightarrow> ledger_category \<Rightarrow> string option \<Rightarrow> currency \<Rightarrow> ledger_leg" where
  "credit a n cat party c =
     \<lparr>account = a, direction = CREDIT, amountCents = n, category = cat, leg_currency = c, partyId = party\<rparr>"

definition delta :: "ledger_leg \<Rightarrow> centimes" where
  "delta leg = (if direction leg = CREDIT then amountCents leg else - amountCents leg)"

definition posting ::
  "ledger_leg \<Rightarrow> ledger_leg \<Rightarrow> string option \<Rightarrow> string option \<Rightarrow> ledger_posting result" where
  "posting debitLeg creditLeg sourceType sourceId =
     (if direction debitLeg \<noteq> DEBIT then Inl (LedgerError ''debit leg must be DEBIT'')
      else if direction creditLeg \<noteq> CREDIT then Inl (LedgerError ''credit leg must be CREDIT'')
      else if leg_currency debitLeg \<noteq> leg_currency creditLeg
        then Inl (LedgerError ''posting must use a single currency'')
      else if amountCents debitLeg \<noteq> amountCents creditLeg
        then Inl (LedgerError ''posting must balance'')
      else if amountCents debitLeg < 0 then Inl (LedgerError ''amount must be non-negative'')
      else if account debitLeg = account creditLeg \<and> partyId debitLeg = partyId creditLeg
        then Inl (LedgerError ''debit and credit must differ (account or party)'')
      else Inr \<lparr>debit_leg = debitLeg, credit_leg = creditLeg,
                post_sourceType = sourceType, post_sourceId = sourceId\<rparr>)"

section \<open>Balances\<close>

definition zeroBalances :: "ledger_account \<Rightarrow> centimes" where
  "zeroBalances = (\<lambda>a. 0)"

definition zeroBalancesByCurrency :: ledger_balances where
  "zeroBalancesByCurrency = (\<lambda>c. zeroBalances)"

fun computeBalancesByCurrency_loop :: "ledger_leg list \<Rightarrow> ledger_balances \<Rightarrow> ledger_balances" where
  "computeBalancesByCurrency_loop [] b = b"
| "computeBalancesByCurrency_loop (leg # legs) b =
     computeBalancesByCurrency_loop legs
       (b(leg_currency leg := (b (leg_currency leg))
            (account leg := b (leg_currency leg) (account leg) + delta leg)))"

definition computeBalancesByCurrency :: "ledger_leg list \<Rightarrow> ledger_balances" where
  "computeBalancesByCurrency legs = computeBalancesByCurrency_loop legs zeroBalancesByCurrency"

fun computeBalances_loop ::
  "currency \<Rightarrow> ledger_leg list \<Rightarrow> (ledger_account \<Rightarrow> centimes) \<Rightarrow> ledger_account \<Rightarrow> centimes" where
  "computeBalances_loop c [] b = b"
| "computeBalances_loop c (leg # legs) b =
     computeBalances_loop c legs
       (if leg_currency leg = c then b(account leg := b (account leg) + delta leg) else b)"

definition computeBalances :: "ledger_leg list \<Rightarrow> currency \<Rightarrow> ledger_account \<Rightarrow> centimes" where
  "computeBalances legs c = computeBalances_loop c legs zeroBalances"

fun balanceOf_loop :: "ledger_account \<Rightarrow> currency \<Rightarrow> ledger_leg list \<Rightarrow> int \<Rightarrow> int" where
  "balanceOf_loop a c [] n = n"
| "balanceOf_loop a c (leg # legs) n =
     balanceOf_loop a c legs
       (if account leg = a \<and> leg_currency leg = c then n + delta leg else n)"

definition balanceOf :: "ledger_leg list \<Rightarrow> ledger_account \<Rightarrow> currency \<Rightarrow> centimes" where
  "balanceOf legs a c = balanceOf_loop a c legs 0"

fun isBalanced_nets :: "ledger_leg list \<Rightarrow> (currency \<rightharpoonup> int) \<Rightarrow> (currency \<rightharpoonup> int)" where
  "isBalanced_nets [] nets = nets"
| "isBalanced_nets (leg # legs) nets =
     isBalanced_nets legs
       (nets(leg_currency leg \<mapsto> coalesce (nets (leg_currency leg)) 0 + delta leg))"

definition isBalanced :: "ledger_leg list \<Rightarrow> bool" where
  "isBalanced legs =
     (let nets = isBalanced_nets legs Map.empty
      in list_all (\<lambda>c. case nets c of None \<Rightarrow> True | Some net \<Rightarrow> net = 0) SUPPORTED_CURRENCIES)"

definition applyPosting ::
  "(ledger_account \<Rightarrow> centimes) \<Rightarrow> ledger_posting \<Rightarrow> ledger_account \<Rightarrow> centimes" where
  "applyPosting balances p =
     (let next = balances(account (debit_leg p) :=
                   balances (account (debit_leg p)) + delta (debit_leg p))
      in next(account (credit_leg p) := next (account (credit_leg p)) + delta (credit_leg p)))"

section \<open>Finite types\<close>

text \<open>
  The enumerations of accounts and currencies are the source's own lists, so that a sum
  over all accounts and a statement about all currencies are executable.
\<close>

instantiation ledger_account :: enum
begin

definition "enum_class.enum = LEDGER_ACCOUNTS"
definition "enum_class.enum_all P = list_all P LEDGER_ACCOUNTS"
definition "enum_class.enum_ex P = list_ex P LEDGER_ACCOUNTS"

instance
proof
  have mem: "a \<in> set LEDGER_ACCOUNTS" for a by (cases a) (simp_all add: LEDGER_ACCOUNTS_def)
  then show "(UNIV :: ledger_account set) = set enum_class.enum"
    by (auto simp: enum_ledger_account_def)
  show "distinct (enum_class.enum :: ledger_account list)"
    by (simp add: enum_ledger_account_def LEDGER_ACCOUNTS_def)
  show "enum_class.enum_all P \<longleftrightarrow> Ball (UNIV :: ledger_account set) P" for P
    using mem by (auto simp: enum_all_ledger_account_def list_all_iff)
  show "enum_class.enum_ex P \<longleftrightarrow> Bex (UNIV :: ledger_account set) P" for P
    using mem by (auto simp: enum_ex_ledger_account_def list_ex_iff)
qed

end

instantiation currency :: enum
begin

definition "enum_class.enum = SUPPORTED_CURRENCIES"
definition "enum_class.enum_all P = list_all P SUPPORTED_CURRENCIES"
definition "enum_class.enum_ex P = list_ex P SUPPORTED_CURRENCIES"

instance
proof
  have mem: "c \<in> set SUPPORTED_CURRENCIES" for c
    by (cases c) (simp_all add: SUPPORTED_CURRENCIES_def)
  then show "(UNIV :: currency set) = set enum_class.enum"
    by (auto simp: enum_currency_def)
  show "distinct (enum_class.enum :: currency list)"
    by (simp add: enum_currency_def SUPPORTED_CURRENCIES_def)
  show "enum_class.enum_all P \<longleftrightarrow> Ball (UNIV :: currency set) P" for P
    using mem by (auto simp: enum_all_currency_def list_all_iff)
  show "enum_class.enum_ex P \<longleftrightarrow> Bex (UNIV :: currency set) P" for P
    using mem by (auto simp: enum_ex_currency_def list_ex_iff)
qed

end

section \<open>Lemmas\<close>

lemma set_SUPPORTED_CURRENCIES [simp]: "set SUPPORTED_CURRENCIES = UNIV"
proof -
  have "c \<in> set SUPPORTED_CURRENCIES" for c by (cases c) (simp_all add: SUPPORTED_CURRENCIES_def)
  then show ?thesis by auto
qed

lemma debit_fields [simp]:
  "account (debit a n cat p c) = a" "direction (debit a n cat p c) = DEBIT"
  "amountCents (debit a n cat p c) = n" "category (debit a n cat p c) = cat"
  "leg_currency (debit a n cat p c) = c" "partyId (debit a n cat p c) = p"
  by (simp_all add: debit_def)

lemma credit_fields [simp]:
  "account (credit a n cat p c) = a" "direction (credit a n cat p c) = CREDIT"
  "amountCents (credit a n cat p c) = n" "category (credit a n cat p c) = cat"
  "leg_currency (credit a n cat p c) = c" "partyId (credit a n cat p c) = p"
  by (simp_all add: credit_def)

lemma delta_simps [simp]: "delta (debit a n cat p c) = - n" "delta (credit a n cat p c) = n"
  by (simp_all add: delta_def)

text \<open>What \<open>posting\<close> guarantees of the postings it returns.\<close>

definition valid_posting :: "ledger_posting \<Rightarrow> bool" where
  "valid_posting p \<longleftrightarrow>
     direction (debit_leg p) = DEBIT \<and> direction (credit_leg p) = CREDIT \<and>
     leg_currency (debit_leg p) = leg_currency (credit_leg p) \<and>
     amountCents (debit_leg p) = amountCents (credit_leg p) \<and> 0 \<le> amountCents (debit_leg p) \<and>
     (account (debit_leg p) \<noteq> account (credit_leg p) \<or> partyId (debit_leg p) \<noteq> partyId (credit_leg p))"

abbreviation mk_posting :: "ledger_leg \<Rightarrow> ledger_leg \<Rightarrow> string option \<Rightarrow> string option \<Rightarrow> ledger_posting" where
  "mk_posting d c st si \<equiv>
     \<lparr>debit_leg = d, credit_leg = c, post_sourceType = st, post_sourceId = si\<rparr>"

lemma mk_posting_id [simp]: "mk_posting (debit_leg p) (credit_leg p) (post_sourceType p) (post_sourceId p) = p"
  by simp

lemma posting_eq_Inr:
  "posting d c st si = Inr p \<longleftrightarrow> p = mk_posting d c st si \<and> valid_posting p"
  by (auto simp: posting_def valid_posting_def)

lemma posting_ok: "is_ok (posting d c st si) \<longleftrightarrow> valid_posting (mk_posting d c st si)"
  by (auto simp: is_ok_iff posting_eq_Inr)

lemma posting_error: "posting d c st si = Inl e \<Longrightarrow> \<exists>msg. e = LedgerError msg"
  by (auto simp: posting_def split: if_splits)

definition net :: "ledger_leg list \<Rightarrow> currency \<Rightarrow> int" where
  "net legs c = (\<Sum>leg\<leftarrow>filter (\<lambda>leg. leg_currency leg = c) legs. delta leg)"

lemma balanceOf_loop_sum:
  "balanceOf_loop a c legs n =
     n + (\<Sum>leg\<leftarrow>filter (\<lambda>leg. account leg = a \<and> leg_currency leg = c) legs. delta leg)"
  by (induction legs arbitrary: n) auto

lemma balanceOf_sum [ledger_simps]:
  "balanceOf legs a c =
     (\<Sum>leg\<leftarrow>filter (\<lambda>leg. account leg = a \<and> leg_currency leg = c) legs. delta leg)"
  by (simp add: balanceOf_def balanceOf_loop_sum)

lemma balanceOf_Nil [simp]: "balanceOf [] a c = 0"
  by (simp add: balanceOf_sum)

lemma balanceOf_append [simp]: "balanceOf (xs @ ys) a c = balanceOf xs a c + balanceOf ys a c"
  by (simp add: balanceOf_sum)

lemma balanceOf_Cons [simp]:
  "balanceOf (leg # legs) a c =
     (if account leg = a \<and> leg_currency leg = c then delta leg else 0) + balanceOf legs a c"
  by (simp add: balanceOf_sum)

lemma net_simps [simp]:
  "net [] c = 0" "net (xs @ ys) c = net xs c + net ys c"
  "net (leg # legs) c = (if leg_currency leg = c then delta leg else 0) + net legs c"
  by (simp_all add: net_def)

lemma computeBalancesByCurrency_loop_sum:
  "computeBalancesByCurrency_loop legs b c a = b c a + balanceOf legs a c"
  by (induction legs arbitrary: b) auto

lemma computeBalances_loop_sum:
  "computeBalances_loop c legs b a = b a + balanceOf legs a c"
  by (induction legs arbitrary: b) auto

lemma isBalanced_nets_value:
  "isBalanced_nets legs nets c =
     (if nets c = None \<and> (\<forall>leg\<in>set legs. leg_currency leg \<noteq> c) then None
      else Some (coalesce (nets c) 0 + net legs c))"
  by (induction legs arbitrary: nets) (auto split: option.splits)

lemma net_absent: "\<forall>leg\<in>set legs. leg_currency leg \<noteq> c \<Longrightarrow> net legs c = 0"
  by (induction legs) auto

lemma isBalanced_iff [ledger_simps]: "isBalanced legs \<longleftrightarrow> (\<forall>c. net legs c = 0)"
proof -
  have "isBalanced legs \<longleftrightarrow> (\<forall>c. (\<exists>leg\<in>set legs. leg_currency leg = c) \<longrightarrow> net legs c = 0)"
    by (simp add: isBalanced_def isBalanced_nets_value list_all_iff)
  then show ?thesis using net_absent by blast
qed

lemma isBalanced_append: "isBalanced xs \<Longrightarrow> isBalanced ys \<Longrightarrow> isBalanced (xs @ ys)"
  by (simp add: isBalanced_iff)

lemma valid_posting_net: "valid_posting p \<Longrightarrow> net [debit_leg p, credit_leg p] c = 0"
  by (auto simp: valid_posting_def delta_def)

lemma net_eq_sum_accounts: "net legs c = (\<Sum>a\<in>UNIV. balanceOf legs a c)"
proof (induction legs)
  case (Cons leg legs)
  have "(\<Sum>a\<in>UNIV. if account leg = a \<and> leg_currency leg = c then delta leg else 0)
      = (if leg_currency leg = c then delta leg else 0)"
    by (cases "leg_currency leg = c") simp_all
  with Cons show ?case by (simp add: sum.distrib)
qed simp


lemma balance_views_agree_sum [simp]:
  "computeBalances legs c a = balanceOf legs a c"
  "computeBalancesByCurrency legs c a = balanceOf legs a c"
  by (simp_all add: computeBalances_def computeBalances_loop_sum computeBalancesByCurrency_def
      computeBalancesByCurrency_loop_sum zeroBalancesByCurrency_def zeroBalances_def)

section \<open>Properties\<close>

text \<open>
  Double entry. A ledger built only from postings that \<open>posting\<close> accepted is
  balanced in every currency, and the balances of all accounts, as computed by
  \<open>computeBalancesByCurrency\<close>, add up to zero in every currency.
\<close>

lemma accepted_postings_balanced:
  assumes "\<forall>p\<in>set ps. posting (debit_leg p) (credit_leg p) (post_sourceType p) (post_sourceId p) = Inr p"
  defines "legs \<equiv> concat (map (\<lambda>p. [debit_leg p, credit_leg p]) ps)"
  shows "isBalanced legs \<and> (\<forall>c. (\<Sum>a\<in>UNIV. computeBalancesByCurrency legs c a) = 0)"
proof -
  have "net legs c = 0" for c
    using assms(1) unfolding legs_def
    by (induction ps) (auto simp: posting_eq_Inr dest: valid_posting_net [of _ c])
  then show ?thesis
    by (simp add: isBalanced_iff net_eq_sum_accounts)
qed

text \<open>
  The three balance routines agree: the single-currency projection and the single-account
  balance are entries of the per-currency table, for every list of legs.
\<close>

lemma balance_views_agree:
  "computeBalances legs c a = computeBalancesByCurrency legs c a \<and>
   balanceOf legs a c = computeBalancesByCurrency legs c a"
  by simp

text \<open>
  \<open>applyPosting\<close> is the incremental form of \<open>computeBalances\<close>: applying an
  accepted posting to the balances of a ledger gives the balances of the ledger with the
  posting's two legs appended, and leaves the other currencies alone.
\<close>

lemma applyPosting_incremental:
  assumes "posting d cr st si = Inr p"
  shows "applyPosting (computeBalances legs (leg_currency d)) p =
           computeBalances (legs @ [debit_leg p, credit_leg p]) (leg_currency d) \<and>
         (\<forall>c. c \<noteq> leg_currency d \<longrightarrow>
           computeBalances (legs @ [debit_leg p, credit_leg p]) c = computeBalances legs c)"
proof -
  from assms have p: "p = mk_posting d cr st si" "leg_currency cr = leg_currency d"
    by (auto simp: posting_eq_Inr valid_posting_def)
  then show ?thesis by (auto simp: fun_eq_iff applyPosting_def Let_def)
qed

end
