(* ===== verification/Fees.thy ===== *)
theory Fees
  imports Money
begin

text \<open>
  \<open>src/lib/fees.ts\<close> and \<open>src/lib/tax.ts\<close>: CorpoPay's fee on a transaction (flat,
  percentage, per payment method, tiered) and the tax on that fee. Rates are integer basis
  points, amounts integer centimes; the one rounding step, \<open>applyBps\<close>, is computed in
  double arithmetic as in the source and shown to be exact integer rounding.
\<close>

section \<open>Data\<close>

datatype fee_type = FLAT | PERCENTAGE | PER_METHOD | TIERED

record fee_tier =
  upToCents :: int
  tier_percentageBps :: int

record fee_schedule_spec =
  feeType :: fee_type
  flatCents :: "int option"
  percentageBps :: "int option"
  perMethodCents :: "(string \<rightharpoonup> int) option"
  tiersCents :: "fee_tier list option"

record tax_spec =
  taxRateBps :: int
  taxExempt :: bool

section \<open>Operations\<close>

definition BPS_PER_UNIT :: int where
  "BPS_PER_UNIT = 10000"

definition applyBps :: "int \<Rightarrow> int \<Rightarrow> centimes result" where
  "applyBps amount bps =
     (if bps < 0 then Inl (FeeError ''bps must be non-negative'')
      else Inr (centimes (of_int (Math_round
             (js_div (js_mul (of_int amount) (of_int bps)) (of_int BPS_PER_UNIT))))))"

definition percentFee :: "int \<Rightarrow> int \<Rightarrow> centimes result" where
  "percentFee amount bps = applyBps amount bps"

definition computeFee :: "fee_schedule_spec \<Rightarrow> centimes \<Rightarrow> string option \<Rightarrow> centimes result" where
  "computeFee schedule amount method =
     (if amount < 0 then Inl (FeeError ''amount must be non-negative'')
      else case feeType schedule of
        FLAT \<Rightarrow>
          (let flat = coalesce (flatCents schedule) 0
           in if flat < 0 then Inl (FeeError ''flatCents must be non-negative'') else Inr flat)
      | PERCENTAGE \<Rightarrow> percentFee amount (coalesce (percentageBps schedule) 0)
      | PER_METHOD \<Rightarrow>
          (let perMethod = coalesce (perMethodCents schedule) Map.empty;
               flat = (case method of None \<Rightarrow> 0 | Some m \<Rightarrow> coalesce (perMethod m) 0)
           in if flat < 0 then Inl (FeeError ''per-method fee must be non-negative'') else Inr flat)
      | TIERED \<Rightarrow>
          (let tiers = coalesce (tiersCents schedule) [];
               tier = or_else (find (\<lambda>t. amount \<le> upToCents t) tiers)
                        (if tiers = [] then None else Some (last tiers))
           in case tier of None \<Rightarrow> Inr 0 | Some t \<Rightarrow> percentFee amount (tier_percentageBps t)))"

definition netAfterFee :: "fee_schedule_spec \<Rightarrow> centimes \<Rightarrow> string option \<Rightarrow> centimes result" where
  "netAfterFee schedule amount method =
     ebind (computeFee schedule amount method) (\<lambda>fee. Inr (amount - fee))"

definition computeTax :: "centimes \<Rightarrow> tax_spec option \<Rightarrow> centimes result" where
  "computeTax fee tax =
     (case tax of
        None \<Rightarrow> Inr 0
      | Some t \<Rightarrow>
          if taxExempt t \<or> taxRateBps t = 0 then Inr 0
          else if taxRateBps t < 0 then Inl (TaxError ''taxRateBps must be non-negative'')
          else applyBps fee (taxRateBps t))"

section \<open>Lemmas\<close>

definition round_bps :: "int \<Rightarrow> int \<Rightarrow> int" where
  "round_bps amount bps = (amount * bps + 5000) div 10000"

lemma applyBps_exact:
  assumes "0 \<le> amount" "0 \<le> bps" "amount * bps < 2 ^ 53"
  shows "applyBps amount bps = Inr (round_bps amount bps)"
proof -
  have nn: "0 \<le> amount * bps" using assms by simp
  then have "js_mul (of_int amount) (of_int bps) = of_int (amount * bps)"
    using assms by (intro js_mul_int) simp
  moreover have "Math_round (js_div (of_int (amount * bps)) (of_int 10000)) = round_bps amount bps"
    using round_quotient [of "amount * bps" 10000] nn assms(3) by (simp add: round_bps_def)
  ultimately show ?thesis
    using assms by (simp add: applyBps_def BPS_PER_UNIT_def flip: of_int_mult)
qed

lemma applyBps_nonneg:
  assumes "applyBps amount bps = Inr x" "0 \<le> amount"
  shows "0 \<le> x"
proof -
  have nn: "0 \<le> z \<Longrightarrow> 0 \<le> rnd z" for z using rnd_ge [of 0 z] representable_int [of 0] by simp
  from assms have "0 \<le> bps" by (auto simp: applyBps_def split: if_splits)
  with assms(2) have "0 \<le> js_div (js_mul (of_int amount) (of_int bps)) (of_int BPS_PER_UNIT)"
    by (auto simp: js_div_def js_mul_def BPS_PER_UNIT_def intro!: nn divide_nonneg_nonneg)
  then have "0 \<le> Math_round (js_div (js_mul (of_int amount) (of_int bps)) (of_int BPS_PER_UNIT))"
    by (simp add: Math_round_def)
  with assms(1) show ?thesis by (auto simp: applyBps_def split: if_splits)
qed

lemma computeTax_ok:
  assumes "0 \<le> fee" "0 \<le> taxRateBps tax"
  shows "\<exists>x. computeTax fee (Some tax) = Inr x \<and> 0 \<le> x"
proof -
  obtain y where "applyBps fee (taxRateBps tax) = Inr y" using assms(2) by (simp add: applyBps_def)
  with applyBps_nonneg [OF this assms(1)] assms(2) show ?thesis by (simp add: computeTax_def)
qed

lemma round_bps_nonneg [simp]: "0 \<le> amount \<Longrightarrow> 0 \<le> bps \<Longrightarrow> 0 \<le> round_bps amount bps"
  by (simp add: round_bps_def pos_imp_zdiv_nonneg_iff)

lemma round_bps_le:
  assumes "0 \<le> amount" "bps \<le> 10000"
  shows "round_bps amount bps \<le> amount"
proof -
  have "amount * bps \<le> amount * 10000" using assms by (intro mult_left_mono)
  then show ?thesis unfolding round_bps_def by linarith
qed

lemma round_bps_near: "\<bar>10000 * round_bps amount bps - amount * bps\<bar> \<le> 5000"
  unfolding round_bps_def by linarith

lemma round_bps_mono:
  assumes "amount \<le> amount'" "0 \<le> bps"
  shows "round_bps amount bps \<le> round_bps amount' bps"
  using mult_right_mono [OF assms] unfolding round_bps_def by (intro zdiv_mono1) auto

lemma round_bps_0 [simp]: "round_bps amount 0 = 0" "round_bps 0 bps = 0"
  by (simp_all add: round_bps_def)

text \<open>
  A schedule the API accepts (\<open>createFeeScheduleSchema\<close>): nothing negative. Amounts and
  rates within \<open>safe_rates\<close> keep every product below \<open>2\<^sup>5\<^sup>3\<close>.
\<close>

definition rates :: "fee_schedule_spec \<Rightarrow> int list" where
  "rates s = (case percentageBps s of None \<Rightarrow> [] | Some b \<Rightarrow> [b]) @
     map tier_percentageBps (coalesce (tiersCents s) [])"

definition wf_schedule :: "fee_schedule_spec \<Rightarrow> bool" where
  "wf_schedule s \<longleftrightarrow>
     (\<forall>n. flatCents s = Some n \<longrightarrow> 0 \<le> n) \<and>
     (\<forall>m. perMethodCents s = Some m \<longrightarrow> (\<forall>n\<in>ran m. 0 \<le> n)) \<and>
     (\<forall>b\<in>set (rates s). 0 \<le> b)"

definition safe_rates :: "fee_schedule_spec \<Rightarrow> int \<Rightarrow> bool" where
  "safe_rates s amount \<longleftrightarrow> (\<forall>b\<in>set (rates s). amount * b < 2 ^ 53)"

definition fee_rate :: "fee_schedule_spec \<Rightarrow> int \<Rightarrow> int" where
  "fee_rate s amount =
     (case feeType s of
        PERCENTAGE \<Rightarrow> coalesce (percentageBps s) 0
      | TIERED \<Rightarrow>
          (case find (\<lambda>t. amount \<le> upToCents t) (coalesce (tiersCents s) []) of
             Some t \<Rightarrow> tier_percentageBps t
           | None \<Rightarrow> if coalesce (tiersCents s) [] = [] then 0
                     else tier_percentageBps (last (coalesce (tiersCents s) [])))
      | _ \<Rightarrow> 0)"

definition fee_fixed :: "fee_schedule_spec \<Rightarrow> string option \<Rightarrow> int" where
  "fee_fixed s method =
     (case feeType s of
        FLAT \<Rightarrow> coalesce (flatCents s) 0
      | PER_METHOD \<Rightarrow>
          (case method of None \<Rightarrow> 0 | Some m \<Rightarrow> coalesce (coalesce (perMethodCents s) Map.empty m) 0)
      | _ \<Rightarrow> 0)"

lemma fee_rate_cases: "fee_rate s amount = 0 \<or> fee_rate s amount \<in> set (rates s)"
  by (cases "percentageBps s")
     (auto simp: fee_rate_def rates_def split: fee_type.splits option.splits dest: find_SomeD)

lemma fee_fixed_nonneg: "wf_schedule s \<Longrightarrow> 0 \<le> fee_fixed s method"
  by (auto simp: fee_fixed_def wf_schedule_def ran_def coalesce_def
      split: fee_type.splits option.splits)

lemma applyBps_rate:
  assumes "wf_schedule s" "safe_rates s amount" "0 \<le> amount" "b = 0 \<or> b \<in> set (rates s)"
  shows "applyBps amount b = Inr (round_bps amount b)"
  using assms by (intro applyBps_exact) (auto simp: wf_schedule_def safe_rates_def)

lemma computeFee_spec:
  assumes "wf_schedule s" "safe_rates s amount" "0 \<le> amount"
  shows "computeFee s amount meth = Inr (fee_fixed s meth + round_bps amount (fee_rate s amount))"
proof -
  note fx = fee_fixed_nonneg [OF assms(1), of meth]
  note rate = applyBps_rate [OF assms fee_rate_cases [of s amount], unfolded fee_rate_def]
  show ?thesis
  proof (cases "feeType s")
    case TIERED
    with rate fx assms(3) show ?thesis
      by (auto simp: computeFee_def fee_rate_def fee_fixed_def percentFee_def Let_def
          split: option.splits if_splits)
  next
    case PERCENTAGE
    with rate fx assms(3) show ?thesis
      by (simp add: computeFee_def fee_rate_def fee_fixed_def percentFee_def)
  qed (use fx assms(3) in \<open>auto simp: computeFee_def fee_rate_def fee_fixed_def Let_def
      split: option.splits\<close>)
qed

lemma computeFee_nonneg:
  assumes "wf_schedule s" "safe_rates s amount" "computeFee s amount meth = Inr fee"
  shows "0 \<le> fee"
proof -
  from assms(3) have "0 \<le> amount" by (auto simp: computeFee_def split: if_splits)
  moreover have "0 \<le> fee_rate s amount"
    using fee_rate_cases [of s amount] assms(1) by (auto simp: wf_schedule_def)
  ultimately show ?thesis
    using computeFee_spec [OF assms(1,2), of meth] assms(3) fee_fixed_nonneg [OF assms(1), of meth]
    by simp
qed

section \<open>Properties\<close>

text \<open>
  Fee computation. For a schedule without negative entries and a non-negative amount,
  \<open>computeFee\<close> never throws; the fee is the fixed part selected by the fee type and payment
  method plus the amount at the selected rate, rounded to the nearest centime with halves
  upwards; the selected tier is the first one whose inclusive bound covers the amount, or the
  last one.
\<close>

lemma computeFee_correct:
  assumes "wf_schedule s" and "safe_rates s amount" and "0 \<le> amount"
  shows "computeFee s amount method =
           Inr (fee_fixed s method + (amount * fee_rate s amount + 5000) div 10000)"
  using computeFee_spec [OF assms] by (simp add: round_bps_def)

text \<open>
  A basis-point rate of at most 100 per cent takes a share between nothing and the whole
  amount that is within half a centime of the exact proportion, and the share grows with
  the amount.
\<close>

lemma applyBps_share:
  assumes "0 \<le> amount" "amount \<le> amount'" "0 \<le> bps" "bps \<le> 10000" "amount' * bps < 2 ^ 53"
  shows "\<exists>fee fee'. applyBps amount bps = Inr fee \<and> applyBps amount' bps = Inr fee' \<and>
           0 \<le> fee \<and> fee \<le> amount \<and> \<bar>10000 * fee - amount * bps\<bar> \<le> 5000 \<and> fee \<le> fee'"
proof -
  have "amount * bps \<le> amount' * bps" using assms by (intro mult_right_mono)
  then have "applyBps amount bps = Inr (round_bps amount bps)"
    "applyBps amount' bps = Inr (round_bps amount' bps)"
    using assms by (auto intro: applyBps_exact)
  then show ?thesis
    using assms round_bps_le [of amount bps] round_bps_mono [of amount amount' bps] round_bps_near
    by simp
qed

end
