(* ===== verification/Policy.thy ===== *)
theory Policy
  imports Fees
begin

text \<open>
  \<open>src/lib/settlement-policy.ts\<close> and \<open>src/lib/settlement-presets.ts\<close>: the
  settlement policy of a tenant (availability, reserve, payout schedule, reversal funding,
  splitting, rail), its reserve computation and validation, and the industry presets a policy
  is resolved from.
\<close>

section \<open>Data\<close>

datatype availability_mode = IMMEDIATE | DELAY | ON_FULFILLMENT | ON_COLLECTION

datatype payout_schedule =
  SCHEDULE_MANUAL | AUTO_DAILY | AUTO_WEEKLY | AUTO_MONTHLY | THRESHOLD | INSTANT

datatype reserve_type = RESERVE_NONE | FIXED | ROLLING

datatype reversal_funding = NET_FROM_AVAILABLE | DEBIT_RESERVE | INVOICE_TENANT | ALLOW_NEGATIVE

datatype payout_rail = STRIPE_CONNECT | RAIL_MANUAL

record policy_spec =
  industry :: "string option"
  mcc :: "string option"
  availabilityMode :: availability_mode
  availabilityDelayDays :: "int option"
  reserveType :: reserve_type
  reservePercentageBps :: "int option"
  reserveHoldDays :: "int option"
  reserveFixedCents :: "int option"
  payoutSchedule :: payout_schedule
  payoutMinCents :: "int option"
  reversalFunding :: reversal_funding
  allowNegative :: bool
  splittingEnabled :: bool
  payoutRail :: payout_rail

record industry_preset =
  pre_industry :: string
  pre_mcc :: "string option"
  pre_fee :: fee_schedule_spec
  pre_availabilityMode :: availability_mode
  pre_availabilityDelayDays :: "int option"
  pre_reserveType :: reserve_type
  pre_reservePercentageBps :: "int option"
  pre_reserveHoldDays :: "int option"
  pre_reserveFixedCents :: "int option"
  pre_payoutSchedule :: payout_schedule
  pre_payoutMinCents :: "int option"
  pre_reversalFunding :: reversal_funding
  pre_allowNegative :: bool
  pre_splittingEnabled :: bool
  pre_payoutRail :: "payout_rail option"

record policy_overrides =
  ov_industry :: "string option"
  ov_mcc :: "string option"
  ov_availabilityMode :: "availability_mode option"
  ov_availabilityDelayDays :: "int option"
  ov_reserveType :: "reserve_type option"
  ov_reservePercentageBps :: "int option"
  ov_reserveHoldDays :: "int option"
  ov_reserveFixedCents :: "int option"
  ov_payoutSchedule :: "payout_schedule option"
  ov_payoutMinCents :: "int option"
  ov_reversalFunding :: "reversal_funding option"
  ov_allowNegative :: "bool option"
  ov_splittingEnabled :: "bool option"
  ov_payoutRail :: "payout_rail option"

section \<open>Policy engine\<close>

definition computeReserve :: "policy_spec \<Rightarrow> centimes \<Rightarrow> centimes result" where
  "computeReserve policy gross =
     (if gross < 0 then Inl (PolicyError ''gross must be non-negative'')
      else case reserveType policy of
        RESERVE_NONE \<Rightarrow> Inr 0
      | FIXED \<Rightarrow> Inr (min (coalesce (reserveFixedCents policy) 0) gross)
      | ROLLING \<Rightarrow> applyBps gross (coalesce (reservePercentageBps policy) 0))"

definition availableAfterReserve :: "policy_spec \<Rightarrow> centimes \<Rightarrow> centimes result" where
  "availableAfterReserve policy gross =
     ebind (computeReserve policy gross) (\<lambda>r. Inr (gross - r))"

definition nonNeg :: "int option \<Rightarrow> string \<Rightarrow> unit result" where
  "nonNeg v name =
     (case v of
        None \<Rightarrow> Inr ()
      | Some n \<Rightarrow> if n < 0 then Inl (PolicyError (name @ '' must be non-negative'')) else Inr ())"

definition validatePolicy :: "policy_spec \<Rightarrow> unit result" where
  "validatePolicy policy =
     ebind (nonNeg (reservePercentageBps policy) ''reservePercentageBps'') (\<lambda>_.
     ebind (nonNeg (reserveFixedCents policy) ''reserveFixedCents'') (\<lambda>_.
     ebind (nonNeg (availabilityDelayDays policy) ''availabilityDelayDays'') (\<lambda>_.
     ebind (nonNeg (reserveHoldDays policy) ''reserveHoldDays'') (\<lambda>_.
     ebind (nonNeg (payoutMinCents policy) ''payoutMinCents'') (\<lambda>_.
     if reserveType policy = FIXED \<and> reserveFixedCents policy = None
       then Inl (PolicyError ''FIXED reserve requires reserveFixedCents'')
     else if reserveType policy = ROLLING \<and> reservePercentageBps policy = None
       then Inl (PolicyError ''ROLLING reserve requires reservePercentageBps'')
     else if availabilityMode policy = DELAY \<and> availabilityDelayDays policy = None
       then Inl (PolicyError ''DELAY availability requires availabilityDelayDays'')
     else if payoutSchedule policy = THRESHOLD \<and> payoutMinCents policy = None
       then Inl (PolicyError ''THRESHOLD payout requires payoutMinCents'')
     else if reversalFunding policy = ALLOW_NEGATIVE \<and> \<not> allowNegative policy
       then Inl (PolicyError ''ALLOW_NEGATIVE reversal funding requires allowNegative'')
     else Inr ())))))"

definition no_overrides :: policy_overrides where
  "no_overrides =
     \<lparr>ov_industry = None, ov_mcc = None, ov_availabilityMode = None,
      ov_availabilityDelayDays = None, ov_reserveType = None, ov_reservePercentageBps = None,
      ov_reserveHoldDays = None, ov_reserveFixedCents = None, ov_payoutSchedule = None,
      ov_payoutMinCents = None, ov_reversalFunding = None, ov_allowNegative = None,
      ov_splittingEnabled = None, ov_payoutRail = None\<rparr>"

definition resolvePolicy :: "industry_preset \<Rightarrow> policy_overrides \<Rightarrow> policy_spec" where
  "resolvePolicy preset ov =
     \<lparr>industry = or_else (ov_industry ov) (Some (pre_industry preset)),
      mcc = or_else (ov_mcc ov) (pre_mcc preset),
      availabilityMode = coalesce (ov_availabilityMode ov) (pre_availabilityMode preset),
      availabilityDelayDays = or_else (ov_availabilityDelayDays ov) (pre_availabilityDelayDays preset),
      reserveType = coalesce (ov_reserveType ov) (pre_reserveType preset),
      reservePercentageBps = or_else (ov_reservePercentageBps ov) (pre_reservePercentageBps preset),
      reserveHoldDays = or_else (ov_reserveHoldDays ov) (pre_reserveHoldDays preset),
      reserveFixedCents = or_else (ov_reserveFixedCents ov) (pre_reserveFixedCents preset),
      payoutSchedule = coalesce (ov_payoutSchedule ov) (pre_payoutSchedule preset),
      payoutMinCents = or_else (ov_payoutMinCents ov) (pre_payoutMinCents preset),
      reversalFunding = coalesce (ov_reversalFunding ov) (pre_reversalFunding preset),
      allowNegative = coalesce (ov_allowNegative ov) (pre_allowNegative preset),
      splittingEnabled = coalesce (ov_splittingEnabled ov) (pre_splittingEnabled preset),
      payoutRail = coalesce (or_else (ov_payoutRail ov) (pre_payoutRail preset)) RAIL_MANUAL\<rparr>"

section \<open>Presets\<close>

definition percentage_fee :: "int \<Rightarrow> fee_schedule_spec" where
  "percentage_fee bps =
     \<lparr>feeType = PERCENTAGE, flatCents = None, percentageBps = Some bps,
      perMethodCents = None, tiersCents = None\<rparr>"

definition DEFAULT_PRESET :: industry_preset where
  "DEFAULT_PRESET =
     \<lparr>pre_industry = ''default'', pre_mcc = None, pre_fee = percentage_fee 290,
      pre_availabilityMode = IMMEDIATE, pre_availabilityDelayDays = None,
      pre_reserveType = ROLLING, pre_reservePercentageBps = Some 500,
      pre_reserveHoldDays = Some 30, pre_reserveFixedCents = None,
      pre_payoutSchedule = AUTO_DAILY, pre_payoutMinCents = None,
      pre_reversalFunding = NET_FROM_AVAILABLE, pre_allowNegative = False,
      pre_splittingEnabled = False, pre_payoutRail = None\<rparr>"

definition INDUSTRY_PRESETS :: "(string \<times> industry_preset) list" where
  "INDUSTRY_PRESETS =
     [(''saas'',
       \<lparr>pre_industry = ''saas'', pre_mcc = Some ''5734'', pre_fee = percentage_fee 290,
        pre_availabilityMode = IMMEDIATE, pre_availabilityDelayDays = None,
        pre_reserveType = RESERVE_NONE, pre_reservePercentageBps = None,
        pre_reserveHoldDays = None, pre_reserveFixedCents = None,
        pre_payoutSchedule = AUTO_DAILY, pre_payoutMinCents = None,
        pre_reversalFunding = NET_FROM_AVAILABLE, pre_allowNegative = False,
        pre_splittingEnabled = False, pre_payoutRail = None\<rparr>),
      (''marketplace'',
       \<lparr>pre_industry = ''marketplace'', pre_mcc = Some ''5262'', pre_fee = percentage_fee 350,
        pre_availabilityMode = ON_FULFILLMENT, pre_availabilityDelayDays = None,
        pre_reserveType = ROLLING, pre_reservePercentageBps = Some 1000,
        pre_reserveHoldDays = Some 30, pre_reserveFixedCents = None,
        pre_payoutSchedule = THRESHOLD, pre_payoutMinCents = Some 100000,
        pre_reversalFunding = DEBIT_RESERVE, pre_allowNegative = False,
        pre_splittingEnabled = True, pre_payoutRail = None\<rparr>),
      (''retail'',
       \<lparr>pre_industry = ''retail'', pre_mcc = Some ''5999'', pre_fee = percentage_fee 250,
        pre_availabilityMode = IMMEDIATE, pre_availabilityDelayDays = None,
        pre_reserveType = ROLLING, pre_reservePercentageBps = Some 300,
        pre_reserveHoldDays = Some 14, pre_reserveFixedCents = None,
        pre_payoutSchedule = AUTO_DAILY, pre_payoutMinCents = None,
        pre_reversalFunding = NET_FROM_AVAILABLE, pre_allowNegative = False,
        pre_splittingEnabled = False, pre_payoutRail = None\<rparr>),
      (''travel'',
       \<lparr>pre_industry = ''travel'', pre_mcc = Some ''4722'', pre_fee = percentage_fee 320,
        pre_availabilityMode = DELAY, pre_availabilityDelayDays = Some 7,
        pre_reserveType = ROLLING, pre_reservePercentageBps = Some 1000,
        pre_reserveHoldDays = Some 60, pre_reserveFixedCents = None,
        pre_payoutSchedule = AUTO_WEEKLY, pre_payoutMinCents = None,
        pre_reversalFunding = DEBIT_RESERVE, pre_allowNegative = False,
        pre_splittingEnabled = False, pre_payoutRail = None\<rparr>),
      (''escrow'',
       \<lparr>pre_industry = ''escrow'', pre_mcc = Some ''7399'', pre_fee = percentage_fee 150,
        pre_availabilityMode = ON_FULFILLMENT, pre_availabilityDelayDays = None,
        pre_reserveType = RESERVE_NONE, pre_reservePercentageBps = None,
        pre_reserveHoldDays = None, pre_reserveFixedCents = None,
        pre_payoutSchedule = SCHEDULE_MANUAL, pre_payoutMinCents = None,
        pre_reversalFunding = INVOICE_TENANT, pre_allowNegative = False,
        pre_splittingEnabled = False, pre_payoutRail = None\<rparr>),
      (''lending'',
       \<lparr>pre_industry = ''lending'', pre_mcc = Some ''6012'',
        pre_fee = \<lparr>feeType = FLAT, flatCents = Some 500, percentageBps = None,
                   perMethodCents = None, tiersCents = None\<rparr>,
        pre_availabilityMode = IMMEDIATE, pre_availabilityDelayDays = None,
        pre_reserveType = RESERVE_NONE, pre_reservePercentageBps = None,
        pre_reserveHoldDays = None, pre_reserveFixedCents = None,
        pre_payoutSchedule = SCHEDULE_MANUAL, pre_payoutMinCents = None,
        pre_reversalFunding = ALLOW_NEGATIVE, pre_allowNegative = True,
        pre_splittingEnabled = False, pre_payoutRail = None\<rparr>),
      (''on_demand'',
       \<lparr>pre_industry = ''on_demand'', pre_mcc = Some ''4121'', pre_fee = percentage_fee 400,
        pre_availabilityMode = IMMEDIATE, pre_availabilityDelayDays = None,
        pre_reserveType = RESERVE_NONE, pre_reservePercentageBps = None,
        pre_reserveHoldDays = None, pre_reserveFixedCents = None,
        pre_payoutSchedule = INSTANT, pre_payoutMinCents = None,
        pre_reversalFunding = NET_FROM_AVAILABLE, pre_allowNegative = False,
        pre_splittingEnabled = False, pre_payoutRail = None\<rparr>)]"

definition presetForIndustry :: "string option \<Rightarrow> industry_preset" where
  "presetForIndustry ind =
     (case ind of
        None \<Rightarrow> DEFAULT_PRESET
      | Some i \<Rightarrow> if i = '''' then DEFAULT_PRESET
                  else coalesce (map_of INDUSTRY_PRESETS i) DEFAULT_PRESET)"

definition INDUSTRY_KEYS :: "string list" where
  "INDUSTRY_KEYS = map fst INDUSTRY_PRESETS"

section \<open>Lemmas\<close>

lemma nonNeg_ok [simp]: "nonNeg v name = Inr u \<longleftrightarrow> (\<forall>n. v = Some n \<longrightarrow> 0 \<le> n)"
  by (auto simp: nonNeg_def split: option.splits)

lemma validatePolicy_ok:
  "validatePolicy p = Inr u \<longleftrightarrow>
     (\<forall>n. reservePercentageBps p = Some n \<longrightarrow> 0 \<le> n) \<and>
     (\<forall>n. reserveFixedCents p = Some n \<longrightarrow> 0 \<le> n) \<and>
     (\<forall>n. availabilityDelayDays p = Some n \<longrightarrow> 0 \<le> n) \<and>
     (\<forall>n. reserveHoldDays p = Some n \<longrightarrow> 0 \<le> n) \<and>
     (\<forall>n. payoutMinCents p = Some n \<longrightarrow> 0 \<le> n) \<and>
     (reserveType p = FIXED \<longrightarrow> reserveFixedCents p \<noteq> None) \<and>
     (reserveType p = ROLLING \<longrightarrow> reservePercentageBps p \<noteq> None) \<and>
     (availabilityMode p = DELAY \<longrightarrow> availabilityDelayDays p \<noteq> None) \<and>
     (payoutSchedule p = THRESHOLD \<longrightarrow> payoutMinCents p \<noteq> None) \<and>
     (reversalFunding p = ALLOW_NEGATIVE \<longrightarrow> allowNegative p)"
  unfolding validatePolicy_def by (auto split: if_splits)

definition safe_reserve :: "policy_spec \<Rightarrow> centimes \<Rightarrow> bool" where
  "safe_reserve p gross \<longleftrightarrow>
     (\<forall>b. reservePercentageBps p = Some b \<longrightarrow> 0 \<le> b \<and> b \<le> 10000 \<and> gross * b < 2 ^ 53) \<and>
     (\<forall>n. reserveFixedCents p = Some n \<longrightarrow> 0 \<le> n)"

lemma computeReserve_bounds:
  assumes "safe_reserve p gross" "0 \<le> gross"
  shows "\<exists>r. computeReserve p gross = Inr r \<and> 0 \<le> r \<and> r \<le> gross"
proof (cases "reserveType p")
  case ROLLING
  define b where "b = coalesce (reservePercentageBps p) 0"
  have "0 \<le> b" "b \<le> 10000" "gross * b < 2 ^ 53"
    using assms by (auto simp: b_def safe_reserve_def coalesce_def split: option.splits)
  with assms ROLLING show ?thesis
    by (simp add: computeReserve_def applyBps_exact round_bps_le b_def [symmetric])
qed (use assms in \<open>auto simp: computeReserve_def safe_reserve_def coalesce_def split: option.splits\<close>)

lemma presetForIndustry_cases:
  "presetForIndustry ind = DEFAULT_PRESET \<or> presetForIndustry ind \<in> snd ` set INDUSTRY_PRESETS"
  by (auto simp: presetForIndustry_def coalesce_def split: option.splits
      dest!: map_of_SomeD intro: rev_image_eqI)

section \<open>Properties\<close>

text \<open>Every industry, known or not, resolves to a valid policy and to a fee schedule without negative entries.\<close>

lemma presets_valid:
  "validatePolicy (resolvePolicy (presetForIndustry ind) no_overrides) = Inr () \<and>
   wf_schedule (pre_fee (presetForIndustry ind)) \<and>
   coalesce (pre_reservePercentageBps (presetForIndustry ind)) 0 \<le> 1000 \<and>
   list_all (\<lambda>i. pre_industry (presetForIndustry (Some i)) = i) INDUSTRY_KEYS"
proof -
  have "validatePolicy (resolvePolicy p no_overrides) = Inr () \<and> wf_schedule (pre_fee p) \<and>
      coalesce (pre_reservePercentageBps p) 0 \<le> 1000"
    if "p = DEFAULT_PRESET \<or> p \<in> snd ` set INDUSTRY_PRESETS" for p
    using that
    by (auto simp: DEFAULT_PRESET_def INDUSTRY_PRESETS_def resolvePolicy_def no_overrides_def
        validatePolicy_ok wf_schedule_def rates_def percentage_fee_def)
  moreover have "list_all (\<lambda>i. pre_industry (presetForIndustry (Some i)) = i) INDUSTRY_KEYS"
    by (simp add: INDUSTRY_KEYS_def INDUSTRY_PRESETS_def presetForIndustry_def)
  ultimately show ?thesis using presetForIndustry_cases by blast
qed

text \<open>
  Under a policy that passes validation and whose rolling rate is at most 100 per cent,
  the reserve hold lies between nothing and the gross amount, so the amount available after
  the reserve is never negative.
\<close>

lemma reserve_within_gross:
  assumes "validatePolicy p = Inr ()" and "0 \<le> gross" and "gross * 10000 < 2 ^ 53"
    and "\<forall>b. reservePercentageBps p = Some b \<longrightarrow> b \<le> 10000"
  shows "\<exists>r. computeReserve p gross = Inr r \<and> 0 \<le> r \<and> r \<le> gross \<and>
           availableAfterReserve p gross = Inr (gross - r)"
proof -
  have "gross * b < 2 ^ 53" if "reservePercentageBps p = Some b" for b
    using that assms mult_left_mono [of b 10000 gross] by fastforce
  with assms have "safe_reserve p gross" by (auto simp: safe_reserve_def validatePolicy_ok)
  then show ?thesis using computeReserve_bounds assms(2) by (fastforce simp: availableAfterReserve_def)
qed

end
