(* ===== verification/Json.thy ===== *)
theory Json
  imports Prelude
begin

text \<open>
  JSON values as \<open>JSON.parse\<close> returns them, and \<open>src/lib/mask.ts\<close>, which hides the secrets of a payload before it is
  stored or logged. Strings are sequences of ASCII characters.
\<close>

section \<open>Values\<close>

datatype json = JNull | JBool bool | JNum rat | JStr string | JArr "json list" | JObj "(string \<times> json) list"

definition upper_char :: "char \<Rightarrow> char" where
  "upper_char c = (let n = of_char c :: nat in if 97 \<le> n \<and> n \<le> 122 then char_of (n - 32) else c)"

definition lower_char :: "char \<Rightarrow> char" where
  "lower_char c = (let n = of_char c :: nat in if 65 \<le> n \<and> n \<le> 90 then char_of (n + 32) else c)"

definition toUpperCase :: "string \<Rightarrow> string" where
  "toUpperCase s = map upper_char s"

definition toLowerCase :: "string \<Rightarrow> string" where
  "toLowerCase s = map lower_char s"

text \<open>\<open>value[key]\<close> on an object, with \<open>null\<close> and an absent key identified, as \<open>??\<close> does.\<close>

definition json_field :: "json \<Rightarrow> string \<Rightarrow> json option" where
  "json_field j k =
     (case j of JObj kvs \<Rightarrow> (case map_of kvs k of Some JNull \<Rightarrow> None | v \<Rightarrow> v) | _ \<Rightarrow> None)"

definition json_string :: "json option \<Rightarrow> string option" where
  "json_string v = (case v of Some (JStr s) \<Rightarrow> Some s | _ \<Rightarrow> None)"

section \<open>Masking\<close>

text \<open>
  \<open>SENSITIVE_PATTERNS\<close>: a regular expression \<open>/\<dots>/i\<close> is a word with a word boundary required before it, after it, or not
  at all. All the words begin and end with a letter, so a boundary is the end of the key or a character that is no letter, digit or
  underscore.
\<close>

definition word_char :: "char \<Rightarrow> bool" where
  "word_char c = (let n = of_char c :: nat in 48 \<le> n \<and> n \<le> 57 \<or> 65 \<le> n \<and> n \<le> 90 \<or> 97 \<le> n \<and> n \<le> 122 \<or> n = 95)"

definition SENSITIVE_PATTERNS :: "(bool \<times> string \<times> bool) list" where
  "SENSITIVE_PATTERNS =
     [(False, ''secret'', False), (False, ''password'', False), (False, ''passwd'', False), (True, ''key'', True),
      (False, ''apikey'', False), (False, ''api_key'', False), (False, ''token'', False), (False, ''authorization'', False),
      (False, ''credential'', False), (False, ''cvv'', False), (False, ''pan'', True), (False, ''cardnumber'', False),
      (False, ''card_number'', False), (False, ''pin'', True), (False, ''private'', False)]"

definition pattern_test :: "bool \<times> string \<times> bool \<Rightarrow> string \<Rightarrow> bool" where
  "pattern_test p key =
     (case p of (before, w, after) \<Rightarrow>
        list_ex (\<lambda>i. take (length w) (drop i (toLowerCase key)) = w \<and>
          (before \<longrightarrow> i = 0 \<or> \<not> word_char (key ! (i - 1))) \<and>
          (after \<longrightarrow> length key = i + length w \<or> \<not> word_char (key ! (i + length w)))) [0 ..< Suc (length key)])"

definition MASK_VALUE :: string where
  "MASK_VALUE = ''***MASKED***''"

definition isSensitiveKey :: "string \<Rightarrow> bool" where
  "isSensitiveKey key = list_ex (\<lambda>p. pattern_test p key) SENSITIVE_PATTERNS"

fun maskObject :: "json \<Rightarrow> nat \<Rightarrow> json" where
  "maskObject (JArr xs) depth = (if depth > 10 then JArr xs else JArr (map (\<lambda>x. maskObject x (depth + 1)) xs))"
| "maskObject (JObj kvs) depth =
     (if depth > 10 then JObj kvs
      else JObj (map (\<lambda>(k, v). (k, if isSensitiveKey k then JStr MASK_VALUE else maskObject v (depth + 1))) kvs))"
| "maskObject j depth = j"

section \<open>Paths\<close>

datatype json_step = Key string | Idx nat

fun json_at :: "json \<Rightarrow> json_step list \<Rightarrow> json option" where
  "json_at j [] = Some j"
| "json_at (JArr xs) (Idx i # p) = (if i < length xs then json_at (xs ! i) p else None)"
| "json_at (JObj kvs) (Key k # p) = Option.bind (map_of kvs k) (\<lambda>v. json_at v p)"
| "json_at _ _ = None"

definition plain_step :: "json_step \<Rightarrow> bool" where
  "plain_step s = (case s of Key k \<Rightarrow> \<not> isSensitiveKey k | Idx i \<Rightarrow> True)"

lemma map_of_masked: "map_of (map (\<lambda>(k, v). (k, f k v)) kvs) k = map_option (f k) (map_of kvs k)"
  by (induction kvs) auto

lemma json_at_ConsE:
  assumes "json_at j (s # p) = Some v"
  obtains (arr) xs i where "j = JArr xs" "s = Idx i" "i < length xs" "json_at (xs ! i) p = Some v"
    | (obj) kvs k w where "j = JObj kvs" "s = Key k" "map_of kvs k = Some w" "json_at w p = Some v"
  using assms by (cases j; cases s) (auto split: if_splits simp: Option.bind_eq_Some_conv)

lemma mask_plain_path:
  assumes "json_at j p = Some v" "list_all plain_step p" "d + length p \<le> 11"
  shows "json_at (maskObject j d) p = Some (maskObject v (d + length p))"
  using assms
proof (induction p arbitrary: j d)
  case (Cons s p)
  from Cons.prems(1) show ?case
  proof (cases rule: json_at_ConsE)
    case (arr xs i)
    then show ?thesis using Cons.IH [of "xs ! i" "d + 1"] Cons.prems by simp
  next
    case (obj kvs k w)
    then show ?thesis using Cons.IH [of w "d + 1"] Cons.prems by (simp add: plain_step_def map_of_masked)
  qed
qed simp

lemma mask_sensitive_key:
  assumes "json_at j (p @ [Key k]) = Some v" "list_all plain_step p" "isSensitiveKey k" "d + length p \<le> 10"
  shows "json_at (maskObject j d) (p @ [Key k]) = Some (JStr MASK_VALUE)"
  using assms
proof (induction p arbitrary: j d)
  case Nil
  then obtain kvs where "j = JObj kvs" "map_of kvs k = Some v" by (auto elim: json_at_ConsE)
  with Nil show ?case by (simp add: map_of_masked)
next
  case (Cons s p)
  from Cons.prems(1) have "json_at j (s # (p @ [Key k])) = Some v" by simp
  then show ?case
  proof (cases rule: json_at_ConsE)
    case (arr xs i)
    then show ?thesis using Cons.IH [of "xs ! i" "d + 1"] Cons.prems by simp
  next
    case (obj kvs m w)
    then show ?thesis using Cons.IH [of w "d + 1"] Cons.prems by (simp add: plain_step_def map_of_masked)
  qed
qed

section \<open>Property\<close>

text \<open>
  Masking. In a payload, the value under the first sensitive key of any path is replaced by the mask when at most ten
  levels lie above it, and a value with no sensitive key above it is kept where it was. Below the tenth level nothing is
  masked: the objects there are returned as they are.
\<close>

lemma maskObject_hides:
  assumes "list_all plain_step p"
  shows "(json_at j (p @ [Key k]) \<noteq> None \<and> isSensitiveKey k \<and> length p \<le> 10 \<longrightarrow>
      json_at (maskObject j 0) (p @ [Key k]) = Some (JStr MASK_VALUE)) \<and>
    (json_at j p = Some v \<and> length p \<le> 10 \<longrightarrow> json_at (maskObject j 0) p = Some (maskObject v (length p))) \<and>
    (json_at j p = Some v \<and> length p = 11 \<longrightarrow> json_at (maskObject j 0) p = Some v)"
proof (intro conjI impI)
  assume "json_at j p = Some v \<and> length p = 11"
  moreover have "maskObject v 11 = v" by (cases v) simp_all
  ultimately show "json_at (maskObject j 0) p = Some v" using assms mask_plain_path [of j p v 0] by simp
qed (use assms mask_plain_path [of j p v 0] mask_sensitive_key [of j p k _ 0] in auto)

end
