(* ===== verification/Schema.thy ===== *)
theory Schema
  imports Ledger Policy Json
begin

text \<open>
  The tables the persistence modules read and write (\<open>prisma/schema.prisma\<close>), as lists of
  rows in order of insertion, and the enumerations of their status columns. A money column
  is a \<open>Decimal(12,2)\<close>; its value is kept in minor units, the representation on which
  \<open>toMinor\<close> and \<open>fromMinor\<close> are inverse to each other (theory Money). Columns that no
  modelled operation reads (\<open>updatedAt\<close>, free-text names of parties) are left out.
\<close>

section \<open>Enumerations\<close>

datatype provider = NAPS | VPS | STRIPE | PAYPAL | ADYEN

datatype payout_status =
  PAYOUT_DRAFT | PAYOUT_SCHEDULED | PAYOUT_PENDING | PAYOUT_PROCESSING
  | PAYOUT_PAID | PAYOUT_FAILED | PAYOUT_CANCELLED

datatype payout_method = BANK_TRANSFER | METHOD_CARD | METHOD_WALLET

datatype dispute_status = DISPUTE_OPEN | DISPUTE_WON | DISPUTE_LOST

datatype recovery_status = RECOVERY_PENDING | RECOVERY_COLLECTED | RECOVERY_WAIVED

datatype split_trigger = AT_CAPTURE | ON_USAGE | TRIGGER_MANUAL

datatype split_status = SPLIT_PENDING | SPLIT_SETTLED | SPLIT_REVERSED

datatype wallet_status = WALLET_ACTIVE | WALLET_SUSPENDED | WALLET_CLOSED

datatype wallet_owner_type = OWNER_TENANT | OWNER_CUSTOMER

datatype wallet_tx_type = TX_TOP_UP | TX_DEBIT | TX_REFUND | TX_ADJUSTMENT

datatype split_party_type = PLATFORM | SUB_MERCHANT | VENDOR | AFFILIATE | ESCROW

datatype reconciliation_status = RECON_PENDING | RECON_MATCHED | RECON_UNMATCHED | RECON_RESOLVED

datatype reconciliation_match_status = LINE_UNMATCHED | LINE_EXACT | LINE_AMOUNT_DIFF

datatype statement_status = STATEMENT_DRAFT | STATEMENT_FINALIZED | STATEMENT_VOID

datatype onboarding_status =
  ONBOARDING_DRAFT | ONBOARDING_SUBMITTED | ONBOARDING_APPROVED | ONBOARDING_REJECTED
  | ONBOARDING_NEEDS_INFO

datatype risk_tier = TIER_LOW | TIER_MEDIUM | TIER_HIGH

datatype risk_verdict = ALLOW | REVIEW | BLOCK

datatype provider_config_status = CONFIG_CONNECTED | CONFIG_INVALID | CONFIG_MISSING | CONFIG_DISABLED

datatype tenant_status = TENANT_ACTIVE | TENANT_DISABLED

datatype payment_link_status = LINK_ACTIVE | LINK_PAID | LINK_EXPIRED | LINK_CANCELED

datatype payment_intent_status =
  INTENT_CREATED | INTENT_REQUIRES_ACTION | INTENT_AUTHORIZED | INTENT_PROCESSING
  | INTENT_SUCCEEDED | INTENT_FAILED | INTENT_CANCELED | INTENT_REFUNDED

datatype refund_status = REFUND_PENDING | REFUND_SUCCEEDED | REFUND_FAILED

datatype subscription_status =
  SUB_PENDING | SUB_ACTIVE | SUB_PAUSED | SUB_CANCELLED | SUB_PAST_DUE | SUB_EXPIRED

datatype billing_interval = DAILY | WEEKLY | MONTHLY | QUARTERLY | ANNUAL | CUSTOM

datatype agreement_status =
  AGREEMENT_PENDING_CHECKOUT | AGREEMENT_ACTIVE | AGREEMENT_COMPLETED | AGREEMENT_DEFAULTED
  | AGREEMENT_CANCELLED

section \<open>Rows\<close>

record ledger_entry =
  le_id :: string
  le_postingId :: string
  le_tenantId :: string
  le_account :: ledger_account
  le_direction :: ledger_direction
  le_category :: ledger_category
  le_amount :: centimes
  le_currency :: currency
  le_balanceAfter :: centimes
  le_sourceType :: "string option"
  le_sourceId :: "string option"
  le_partyId :: "string option"
  le_createdAt :: int

text \<open>A \<open>Json?\<close> column of a fee schedule: SQL null, an object, an array or a scalar.\<close>

datatype fee_json =
  Json_null | Json_object "string \<rightharpoonup> int" | Json_array "fee_tier list" | Json_scalar

record fee_schedule =
  fs_id :: string
  fs_tenantId :: string
  fs_version :: int
  fs_name :: "string option"
  fs_feeType :: fee_type
  fs_flatCents :: "int option"
  fs_percentageBps :: "int option"
  fs_perMethodCents :: fee_json
  fs_tiersCents :: fee_json
  fs_currency :: string
  fs_isActive :: bool

record settlement_policy = policy_spec +
  sp_id :: string
  sp_tenantId :: string
  sp_version :: int
  sp_name :: "string option"
  sp_feeScheduleId :: "string option"
  sp_isActive :: bool

record tenant =
  tn_id :: string
  tn_status :: tenant_status
  tn_settlementCurrency :: currency
  tn_taxRateBps :: int
  tn_taxExempt :: bool

record payout =
  po_id :: string
  po_tenantId :: string
  po_amount :: centimes
  po_currency :: currency
  po_status :: payout_status
  po_provider :: provider
  po_providerTransferId :: "string option"
  po_method :: payout_method
  po_idempotencyKey :: string

record payout_item =
  pi_id :: string
  pi_payoutId :: string
  pi_ledgerEntryId :: string
  pi_amount :: centimes

record dispute =
  di_id :: string
  di_tenantId :: string
  di_paymentIntentId :: "string option"
  di_provider :: provider
  di_providerDisputeId :: string
  di_status :: dispute_status
  di_amount :: centimes
  di_feeAmount :: centimes
  di_currency :: currency
  di_reason :: "string option"
  di_evidenceDueDate :: "int option"

record recovery =
  rc_id :: string
  rc_tenantId :: string
  rc_disputeId :: string
  rc_status :: recovery_status
  rc_amount :: centimes
  rc_currency :: currency

text \<open>One beneficiary's share as stored in a rule; the number is unchecked JSON.\<close>

record share_spec =
  share_partyId :: string
  shareBps :: rat

record split_rule =
  sr_id :: string
  sr_tenantId :: string
  sr_name :: string
  sr_trigger :: split_trigger
  sr_shares :: "share_spec list"
  sr_isActive :: bool
  sr_createdAt :: int

record split_row =
  sl_id :: string
  sl_tenantId :: string
  sl_splitRuleId :: "string option"
  sl_sourceType :: string
  sl_sourceId :: string
  sl_partyId :: string
  sl_amount :: centimes
  sl_currency :: currency
  sl_status :: split_status
  sl_heldUntil :: "int option"

record wallet =
  wl_id :: string
  wl_tenantId :: string
  wl_ownerType :: wallet_owner_type
  wl_ownerId :: string
  wl_balance :: centimes
  wl_currency :: currency
  wl_status :: wallet_status

record wallet_transaction =
  wt_id :: string
  wt_walletId :: string
  wt_tenantId :: string
  wt_type :: wallet_tx_type
  wt_amount :: centimes
  wt_currency :: currency
  wt_balanceAfter :: centimes
  wt_sourceType :: string
  wt_sourceId :: string

record finance_config =
  fc_tenantId :: string
  fc_capabilities :: "string list"
  fc_preset :: string
  fc_walletCommissionBasis :: string

record split_party =
  pt_id :: string
  pt_tenantId :: string
  pt_slug :: string
  pt_type :: split_party_type
  pt_isActive :: bool

text \<open>The JSON document a reconciliation run stores.\<close>

record reconciliation_summary =
  rs_exactCount :: nat
  rs_amountDiffCount :: nat
  rs_missingInternal :: "(string \<times> centimes) list"
  rs_missingExternal :: "(string \<times> centimes) list"
  rs_externalTotalCents :: centimes
  rs_internalTotalCents :: centimes
  rs_netDifferenceCents :: centimes

record reconciliation_report =
  rr_id :: string
  rr_tenantId :: string
  rr_provider :: provider
  rr_currency :: currency
  rr_periodStart :: "int option"
  rr_periodEnd :: "int option"
  rr_status :: reconciliation_status
  rr_summary :: "reconciliation_summary option"

record reconciliation_line =
  rl_id :: string
  rl_reportId :: string
  rl_reference :: string
  rl_amount :: centimes
  rl_status :: reconciliation_match_status
  rl_matchedAmount :: "centimes option"
  rl_differenceAmount :: "centimes option"

record settlement_statement =
  ss_id :: string
  ss_tenantId :: string
  ss_periodStart :: int
  ss_periodEnd :: int
  ss_currency :: currency
  ss_status :: statement_status
  ss_openingBalance :: centimes
  ss_closingBalance :: centimes
  ss_netAmount :: centimes
  ss_finalizedAt :: "int option"

record statement_item =
  si_id :: string
  si_statementId :: string
  si_category :: ledger_category
  si_amount :: centimes
  si_entryCount :: nat

record merchant_onboarding =
  ob_id :: string
  ob_tenantId :: string
  ob_status :: onboarding_status
  ob_legalName :: "string option"
  ob_entityType :: "string option"
  ob_registrationNumber :: "string option"
  ob_country :: "string option"
  ob_businessAddress :: "string option"
  ob_website :: "string option"
  ob_contactEmail :: "string option"
  ob_industry :: "string option"
  ob_mcc :: "string option"
  ob_riskTier :: risk_tier
  ob_submittedAt :: "int option"
  ob_reviewerId :: "string option"
  ob_reviewNotes :: "string option"
  ob_rejectionReason :: "string option"
  ob_approvedAt :: "int option"

record risk_decision =
  rd_id :: string
  rd_tenantId :: string
  rd_eventId :: string
  rd_verdict :: risk_verdict
  rd_score :: int
  rd_reasons :: "string list"
  rd_createdAt :: int

record payment_link =
  pl_id :: string
  pl_tenantId :: string
  pl_slug :: string
  pl_amount :: centimes
  pl_currency :: currency
  pl_reference :: string
  pl_provider :: provider
  pl_status :: payment_link_status
  pl_maxAttempts :: int
  pl_attemptCount :: int
  pl_expiresAt :: "int option"
  pl_isRecurring :: bool
  pl_billingInterval :: "billing_interval option"
  pl_intervalValue :: "int option"
  pl_maxRetries :: int
  pl_isInstallment :: bool

text \<open>The keys of the free-form \<open>metadata\<close> column that the code reads.\<close>

record intent_metadata =
  meta_amount :: "rat option"
  meta_currency :: "currency option"
  meta_reference :: "string option"
  meta_isPreauth :: "bool option"
  meta_installmentAgreementId :: "string option"

record payment_intent =
  in_id :: string
  in_tenantId :: string
  in_paymentLinkId :: "string option"
  in_status :: payment_intent_status
  in_provider :: provider
  in_providerRef :: "string option"
  in_correlationId :: string
  in_providerData :: "json option"
  in_metadata :: "intent_metadata option"
  in_riskVerdict :: "risk_verdict option"
  in_createdAt :: int
  in_fxRate :: "string option"
  in_fxCurrencyPair :: "string option"
  in_fxExpiresAt :: "int option"

record provider_config =
  pc_id :: string
  pc_tenantId :: string
  pc_provider :: provider
  pc_encryptedCredentials :: string
  pc_status :: provider_config_status

record provider_transaction =
  px_id :: string
  px_paymentIntentId :: string
  px_provider :: provider
  px_providerTransactionId :: "string option"

record refund =
  rf_id :: string
  rf_paymentIntentId :: string
  rf_tenantId :: string
  rf_initiatedBy :: string
  rf_status :: refund_status
  rf_providerRefundRef :: "string option"
  rf_amount :: centimes
  rf_currency :: currency

record webhook_event =
  we_id :: string
  we_provider :: provider
  we_tenantId :: "string option"
  we_paymentIntentId :: "string option"
  we_signatureVerified :: bool
  we_processed :: bool
  we_processingError :: "string option"
  we_mappedStatus :: "payment_intent_status option"
  we_idempotencyKey :: "string option"

record subscription =
  su_id :: string
  su_tenantId :: string
  su_customerId :: string
  su_encryptedStoredProfileId :: string
  su_initialPaymentIntentId :: string
  su_paymentLinkId :: "string option"
  su_inngestRunId :: "string option"
  su_status :: subscription_status
  su_amount :: centimes
  su_currency :: currency
  su_intervalType :: billing_interval
  su_intervalValue :: int
  su_nextBillingDate :: "int option"
  su_currentPeriodStart :: "int option"
  su_currentPeriodEnd :: "int option"
  su_retryCount :: int
  su_maxRetries :: int

record billing_event =
  be_id :: string
  be_subscriptionId :: string
  be_chargeId :: string
  be_vpsTransactionId :: "string option"
  be_amount :: centimes
  be_currency :: currency
  be_status :: string
  be_attemptNumber :: int
  be_billingPeriodStart :: "int option"
  be_billingPeriodEnd :: "int option"
  be_processedAt :: "int option"
  be_errorMessage :: "string option"

record installment_plan =
  ip_id :: string
  ip_tenantId :: string
  ip_durationMonths :: int
  ip_annualInterestRate :: rat
  ip_minAmount :: "centimes option"
  ip_maxAmount :: "centimes option"
  ip_isActive :: bool

record installment_agreement =
  ia_id :: string
  ia_tenantId :: string
  ia_customerId :: string
  ia_planId :: string
  ia_paymentLinkId :: "string option"
  ia_initialPaymentIntentId :: string
  ia_encryptedStoredProfileId :: string
  ia_status :: agreement_status
  ia_principalAmount :: centimes
  ia_downPayment :: centimes
  ia_installmentAmount :: centimes
  ia_totalInstallments :: int
  ia_paidCount :: int
  ia_currency :: currency
  ia_nextChargeDate :: "int option"
  ia_inngestRunId :: "string option"

record installment_charge =
  ic_id :: string
  ic_agreementId :: string
  ic_installmentNumber :: int
  ic_dueDate :: int
  ic_amount :: centimes
  ic_currency :: currency
  ic_status :: string
  ic_chargeId :: string
  ic_vpsTransactionId :: "string option"
  ic_attemptNumber :: int
  ic_processedAt :: "int option"
  ic_errorMessage :: "string option"

record audit_log =
  al_tenantId :: "string option"
  al_userId :: "string option"
  al_action :: string
  al_entityType :: string
  al_entityId :: string

text \<open>
  The events sent to the job runner (\<open>inngest.send\<close>, \<open>step.sendEvent\<close>) with their payloads. The first
  string of the events that are sent with an \<open>id\<close> is that id, by which the job runner drops duplicates.
\<close>

record subscription_activated =
  sa_subscriptionId :: string
  sa_tenantId :: string
  sa_customerId :: string
  sa_amount :: centimes
  sa_currency :: currency
  sa_intervalType :: billing_interval
  sa_intervalValue :: int
  sa_trialDays :: "int option"

record renewal_due =
  rn_subscriptionId :: string
  rn_tenantId :: string
  rn_customerId :: string
  rn_amount :: centimes
  rn_currency :: currency
  rn_intervalType :: billing_interval
  rn_intervalValue :: int
  rn_chargeId :: string
  rn_idempotencyId :: string
  rn_attemptNumber :: int

record installment_due =
  du_agreementId :: string
  du_installmentNumber :: int
  du_tenantId :: string
  du_chargeId :: string
  du_idempotencyId :: string

type_synonym headers = "string \<rightharpoonup> string"

datatype job_event =
    PaymentNotify string string payment_intent_status "string option"
  | RiskEvaluate string string
  | SubscriptionActivated string subscription_activated
  | RenewalDue string renewal_due
  | InstallmentChargeDue string installment_due
  | WebhookProcess string provider json string headers string
  | StripeWebhookProcess string json string
  | PollStatus string provider string
  | PauseRequested string string
  | CancelRequested string string
  | InstallmentCancelRequested string string

section \<open>The database\<close>

text \<open>\<open>seq\<close> counts the identifiers drawn so far; \<open>outbox\<close> holds the events sent to the job runner.\<close>

record db =
  seq :: nat
  tenants :: "tenant list"
  ledgerEntries :: "ledger_entry list"
  feeSchedules :: "fee_schedule list"
  settlementPolicies :: "settlement_policy list"
  payouts :: "payout list"
  payoutItems :: "payout_item list"
  disputes :: "dispute list"
  recoveries :: "recovery list"
  splitParties :: "split_party list"
  splitRules :: "split_rule list"
  splits :: "split_row list"
  wallets :: "wallet list"
  walletTransactions :: "wallet_transaction list"
  financeConfigs :: "finance_config list"
  reconciliationReports :: "reconciliation_report list"
  reconciliationLines :: "reconciliation_line list"
  statements :: "settlement_statement list"
  statementItems :: "statement_item list"
  onboardings :: "merchant_onboarding list"
  riskDecisions :: "risk_decision list"
  paymentLinks :: "payment_link list"
  paymentIntents :: "payment_intent list"
  providerConfigs :: "provider_config list"
  providerTransactions :: "provider_transaction list"
  refunds :: "refund list"
  webhookEvents :: "webhook_event list"
  subscriptions :: "subscription list"
  billingEvents :: "billing_event list"
  installmentPlans :: "installment_plan list"
  installmentAgreements :: "installment_agreement list"
  installmentCharges :: "installment_charge list"
  auditLogs :: "audit_log list"
  outbox :: "job_event list"

definition empty_db :: db where
  "empty_db =
     \<lparr>seq = 0, tenants = [], ledgerEntries = [], feeSchedules = [], settlementPolicies = [],
      payouts = [], payoutItems = [], disputes = [], recoveries = [], splitParties = [],
      splitRules = [], splits = [], wallets = [], walletTransactions = [], financeConfigs = [],
      reconciliationReports = [], reconciliationLines = [], statements = [], statementItems = [],
      onboardings = [], riskDecisions = [], paymentLinks = [], paymentIntents = [],
      providerConfigs = [], providerTransactions = [], refunds = [], webhookEvents = [],
      subscriptions = [], billingEvents = [], installmentPlans = [], installmentAgreements = [], installmentCharges = [],
      auditLogs = [], outbox = []\<rparr>"

text \<open>A row id for \<open>create\<close>.\<close>

definition fresh :: "env \<Rightarrow> db \<Rightarrow> string" where
  "fresh e d = gen e (seq d)"

definition bump :: "db \<Rightarrow> db" where
  "bump d = d\<lparr>seq := Suc (seq d)\<rparr>"

end
