(* ===== verification/LedgerDb.thy ===== *)
theory LedgerDb
  imports Schema
begin

text \<open>
  \<open>src/lib/ledger-db.ts\<close>: persistence of postings and the read views. \<open>postEntry\<close>
  writes a posting as two immutable rows carrying a running balance; balances are always
  derived from the rows. The locale \<open>ledger_store\<close> is the contract the settlement, split,
  payout, reversal, refund and wallet modules rely on: a valid posting is written, an
  invalid one is refused, and exactly the posting tenant's legs grow by the two legs.
\<close>

section \<open>Reading\<close>

definition entries_of :: "db \<Rightarrow> string \<Rightarrow> ledger_entry list" where
  "entries_of d t = filter (\<lambda>r. le_tenantId r = t) (ledgerEntries d)"

definition accountBalanceCents :: "db \<Rightarrow> string \<Rightarrow> ledger_account \<Rightarrow> currency \<Rightarrow> centimes" where
  "accountBalanceCents d t a c =
     (let rows = filter (\<lambda>r. le_tenantId r = t \<and> le_account r = a \<and> le_currency r = c) (ledgerEntries d);
          sum_of = (\<lambda>dir. \<Sum>r\<leftarrow>filter (\<lambda>r. le_direction r = dir) rows. le_amount r)
      in sum_of CREDIT - sum_of DEBIT)"

definition leg_of_row :: "ledger_entry \<Rightarrow> ledger_leg" where
  "leg_of_row r =
     \<lparr>account = le_account r, direction = le_direction r, amountCents = le_amount r,
      category = le_category r, leg_currency = le_currency r, partyId = None\<rparr>"

definition tenant_legs :: "string \<Rightarrow> db \<Rightarrow> ledger_leg list" where
  "tenant_legs t d = map leg_of_row (entries_of d t)"

record ledger_view =
  lv_balances :: "ledger_account \<Rightarrow> centimes"
  lv_balancesByCurrency :: ledger_balances
  lv_balanced :: bool
  lv_entries :: "ledger_entry list"

definition getTenantLedger :: "db \<Rightarrow> string \<Rightarrow> ledger_view" where
  "getTenantLedger d t =
     (let rows = sort_key (\<lambda>r. (le_createdAt r, le_id r)) (entries_of d t);
          legs = map leg_of_row rows
      in \<lparr>lv_balances = computeBalances legs MAD,
          lv_balancesByCurrency = computeBalancesByCurrency legs,
          lv_balanced = isBalanced legs,
          lv_entries = rows\<rparr>)"

section \<open>Writing\<close>

definition entry_row :: "env \<Rightarrow> string \<Rightarrow> string \<Rightarrow> string \<Rightarrow> ledger_posting \<Rightarrow> ledger_leg \<Rightarrow> centimes \<Rightarrow> ledger_entry" where
  "entry_row e t rowId postingId p leg after =
     \<lparr>le_id = rowId, le_postingId = postingId, le_tenantId = t,
      le_account = account leg, le_direction = direction leg, le_category = category leg,
      le_amount = amountCents leg, le_currency = leg_currency (debit_leg p),
      le_balanceAfter = after, le_sourceType = post_sourceType p, le_sourceId = post_sourceId p,
      le_partyId = partyId leg, le_createdAt = now e\<rparr>"

definition postEntry ::
  "env \<Rightarrow> string \<Rightarrow> ledger_posting \<Rightarrow> db \<Rightarrow> ((string \<times> ledger_entry \<times> ledger_entry) \<times> db) result" where
  "postEntry e t p d =
     ebind (posting (debit_leg p) (credit_leg p) (post_sourceType p) (post_sourceId p)) (\<lambda>_.
       let postingId = gen e (seq d);
           c = leg_currency (debit_leg p);
           debitAfter = accountBalanceCents d t (account (debit_leg p)) c + delta (debit_leg p);
           creditAfter = accountBalanceCents d t (account (credit_leg p)) c + delta (credit_leg p);
           debitRow = entry_row e t (gen e (seq d + 1)) postingId p (debit_leg p) debitAfter;
           creditRow = entry_row e t (gen e (seq d + 2)) postingId p (credit_leg p) creditAfter
       in Inr ((postingId, debitRow, creditRow),
               d\<lparr>seq := seq d + 3, ledgerEntries := ledgerEntries d @ [debitRow, creditRow]\<rparr>))"

text \<open>
  The amounts of the ledger are \<open>Decimal(12, 2)\<close> columns: below ten thousand million units, a posting beyond that is refused by the
  database. \<open>postEntry_columns\<close> is the call with this refusal; \<open>postEntry\<close>, on which the modules below build, is the same call as
  long as the amount and the two new balances fit.
\<close>

definition fits_column :: "centimes \<Rightarrow> bool" where
  "fits_column n \<longleftrightarrow> \<bar>n\<bar> < 10 ^ 12"

definition postEntry_columns ::
  "env \<Rightarrow> string \<Rightarrow> ledger_posting \<Rightarrow> db \<Rightarrow> ((string \<times> ledger_entry \<times> ledger_entry) \<times> db) result" where
  "postEntry_columns e t p d =
     ebind (postEntry e t p d) (\<lambda>((postingId, debitRow, creditRow), d').
       if list_all (\<lambda>r. fits_column (le_amount r) \<and> fits_column (le_balanceAfter r)) [debitRow, creditRow]
       then Inr ((postingId, debitRow, creditRow), d')
       else Inl (JsError ''numeric field overflow''))"

text \<open>The calls of the client modules: build a posting, write it, ignore the returned rows.\<close>

definition post :: "env \<Rightarrow> string \<Rightarrow> ledger_posting \<Rightarrow> db \<Rightarrow> db result" where
  "post e t p d = ebind (postEntry e t p d) (\<lambda>r. Inr (snd r))"

definition move ::
  "env \<Rightarrow> string \<Rightarrow> string option \<Rightarrow> string option \<Rightarrow> ledger_leg \<times> ledger_leg \<Rightarrow> db \<Rightarrow> db result" where
  "move e t sourceType sourceId legs d =
     ebind (posting (fst legs) (snd legs) sourceType sourceId) (\<lambda>p. post e t p d)"

definition moves ::
  "env \<Rightarrow> string \<Rightarrow> string option \<Rightarrow> string option \<Rightarrow> (ledger_leg \<times> ledger_leg) list \<Rightarrow> db \<Rightarrow> db result" where
  "moves e t sourceType sourceId = efold (move e t sourceType sourceId)"

section \<open>The contract of a ledger store\<close>

definition strip :: "ledger_leg \<Rightarrow> ledger_leg" where
  "strip leg = leg\<lparr>partyId := None\<rparr>"

lemma strip_fields [simp]:
  "account (strip leg) = account leg" "direction (strip leg) = direction leg"
  "amountCents (strip leg) = amountCents leg" "category (strip leg) = category leg"
  "leg_currency (strip leg) = leg_currency leg" "delta (strip leg) = delta leg"
  by (simp_all add: strip_def delta_def)

lemma balanceOf_strip [simp]: "balanceOf (map strip legs) a c = balanceOf legs a c"
  by (induction legs) auto

lemma net_strip [simp]: "net (map strip legs) c = net legs c"
  by (induction legs) auto

definition posting_legs :: "ledger_posting list \<Rightarrow> ledger_leg list" where
  "posting_legs ps = concat (map (\<lambda>p. [debit_leg p, credit_leg p]) ps)"

lemma posting_legs_simps [simp]:
  "posting_legs [] = []" "posting_legs (p # ps) = debit_leg p # credit_leg p # posting_legs ps"
  by (simp_all add: posting_legs_def)

locale ledger_store =
  fixes put :: "string \<Rightarrow> ledger_posting \<Rightarrow> 's \<Rightarrow> 's result"
    and legs :: "string \<Rightarrow> 's \<Rightarrow> ledger_leg list"
  assumes put_valid: "valid_posting p \<Longrightarrow> \<exists>s'. put t p s = Inr s'"
    and put_invalid: "\<not> valid_posting p \<Longrightarrow> \<exists>msg. put t p s = Inl (LedgerError msg)"
    and put_legs: "put t p s = Inr s' \<Longrightarrow>
      legs u s' = legs u s @ (if u = t then map strip [debit_leg p, credit_leg p] else [])"
begin

lemma put_ok_iff: "is_ok (put t p s) \<longleftrightarrow> valid_posting p"
  using put_valid put_invalid by (metis is_ok_simps)

lemma put_ok_valid: "put t p s = Inr s' \<Longrightarrow> valid_posting p"
  using put_ok_iff by (metis is_ok_simps(1))

lemma efold_put_ok: "(\<forall>p\<in>set ps. valid_posting p) \<Longrightarrow> \<exists>s'. efold (put t) ps s = Inr s'"
proof (induction ps arbitrary: s)
  case (Cons p ps)
  from Cons.prems obtain u where "put t p s = Inr u" using put_valid [of p t s] by auto
  with Cons show ?case by auto
qed simp

lemma efold_put_valid: "efold (put t) ps s = Inr s' \<Longrightarrow> \<forall>p\<in>set ps. valid_posting p"
  by (induction ps arbitrary: s) (auto dest: put_ok_valid)

lemma efold_put_legs:
  "efold (put t) ps s = Inr s' \<Longrightarrow>
     legs u s' = legs u s @ (if u = t then map strip (posting_legs ps) else [])"
  by (induction ps arbitrary: s) (auto dest: put_legs [where u = u])

lemma efold_put_balance:
  "efold (put t) ps s = Inr s' \<Longrightarrow>
     balanceOf (legs u s') a c =
       balanceOf (legs u s) a c + (if u = t then balanceOf (posting_legs ps) a c else 0)"
  by (drule efold_put_legs [where u = u]) simp

lemma efold_put_balanced:
  assumes "efold (put t) ps s = Inr s'" and "isBalanced (legs u s)"
  shows "isBalanced (legs u s')"
proof -
  have "net (posting_legs ps) c = 0" for c
    using efold_put_valid [OF assms(1)] by (induction ps) (auto dest: valid_posting_net [of _ c])
  with assms(2) show ?thesis
    unfolding efold_put_legs [OF assms(1), of u] by (simp add: isBalanced_iff)
qed

lemma efold_put_other: "efold (put t) ps s = Inr s' \<Longrightarrow> u \<noteq> t \<Longrightarrow> legs u s' = legs u s"
  by (drule efold_put_legs [where u = u]) simp

end

section \<open>Lemmas\<close>

lemma leg_of_row_fields [simp]:
  "account (leg_of_row r) = le_account r" "leg_currency (leg_of_row r) = le_currency r"
  "delta (leg_of_row r) = (if le_direction r = CREDIT then le_amount r else - le_amount r)"
  by (simp_all add: leg_of_row_def delta_def)

lemma direction_cases [simp]: "dir \<noteq> DEBIT \<longleftrightarrow> dir = CREDIT" "dir \<noteq> CREDIT \<longleftrightarrow> dir = DEBIT"
  by (cases dir; simp)+

lemma credits_minus_debits:
  "(\<Sum>r\<leftarrow>filter (\<lambda>r. le_direction r = CREDIT) rows. le_amount r)
     - (\<Sum>r\<leftarrow>filter (\<lambda>r. le_direction r = DEBIT) rows. le_amount r) = (\<Sum>r\<leftarrow>rows. delta (leg_of_row r))"
  by (induction rows) auto

lemma accountBalanceCents_legs: "accountBalanceCents d t a c = balanceOf (tenant_legs t d) a c"
  unfolding accountBalanceCents_def Let_def credits_minus_debits
  by (simp add: balanceOf_sum tenant_legs_def entries_of_def filter_map comp_def conj_ac)

lemma balanceOf_mset:
  "balanceOf (map leg_of_row rows) a c =
     (\<Sum>r\<in>#filter_mset (\<lambda>r. le_account r = a \<and> le_currency r = c) (mset rows). delta (leg_of_row r))"
  by (induction rows) auto

lemma balanceOf_sorted:
  "balanceOf (map leg_of_row (sort_key k rows)) a c = balanceOf (map leg_of_row rows) a c"
  by (simp add: balanceOf_mset)

definition new_rows :: "env \<Rightarrow> string \<Rightarrow> ledger_posting \<Rightarrow> db \<Rightarrow> ledger_entry list" where
  "new_rows e t p d =
     [entry_row e t (gen e (seq d + 1)) (gen e (seq d)) p (debit_leg p)
        (accountBalanceCents d t (account (debit_leg p)) (leg_currency (debit_leg p)) + delta (debit_leg p)),
      entry_row e t (gen e (seq d + 2)) (gen e (seq d)) p (credit_leg p)
        (accountBalanceCents d t (account (credit_leg p)) (leg_currency (debit_leg p)) + delta (credit_leg p))]"

lemma post_eq_Inr:
  "post e t p d = Inr d' \<longleftrightarrow>
     valid_posting p \<and> d' = d\<lparr>seq := seq d + 3, ledgerEntries := ledgerEntries d @ new_rows e t p d\<rparr>"
  by (auto simp: post_def postEntry_def posting_eq_Inr Let_def new_rows_def)

lemma post_error: "\<not> valid_posting p \<Longrightarrow> \<exists>msg. post e t p d = Inl (LedgerError msg)"
  by (cases "posting (debit_leg p) (credit_leg p) (post_sourceType p) (post_sourceId p)")
     (auto simp: post_def postEntry_def posting_eq_Inr dest: posting_error)

lemma leg_of_entry_row [simp]:
  "leg_currency leg = leg_currency (debit_leg p) \<Longrightarrow>
     leg_of_row (entry_row e t i j p leg n) = strip leg"
  by (simp add: leg_of_row_def entry_row_def strip_def)

lemma le_tenantId_entry_row [simp]: "le_tenantId (entry_row e t i j p leg n) = t"
  by (simp add: entry_row_def)

interpretation ledger: ledger_store "post e" tenant_legs for e
proof unfold_locales
  show "\<exists>s'. post e t p s = Inr s'" if "valid_posting p" for p t s
    using that by (simp add: post_eq_Inr)
  show "\<exists>msg. post e t p s = Inl (LedgerError msg)" if "\<not> valid_posting p" for p t s
    using that by (rule post_error)
  show "tenant_legs u s' = tenant_legs u s @ (if u = t then map strip [debit_leg p, credit_leg p] else [])"
    if "post e t p s = Inr s'" for t p s s' u
    using that by (auto simp: post_eq_Inr tenant_legs_def entries_of_def new_rows_def valid_posting_def)
qed


section \<open>Lemmas for the client modules\<close>

definition pair_legs :: "(ledger_leg \<times> ledger_leg) list \<Rightarrow> ledger_leg list" where
  "pair_legs ls = concat (map (\<lambda>l. [fst l, snd l]) ls)"

lemma pair_legs_simps [simp]:
  "pair_legs [] = []" "pair_legs (l # ls) = fst l # snd l # pair_legs ls"
  "pair_legs (xs @ ys) = pair_legs xs @ pair_legs ys"
  by (simp_all add: pair_legs_def)

lemma valid_move [simp]:
  "valid_posting (mk_posting (debit a n cat p c) (credit b m cat' q c') st si) \<longleftrightarrow>
     c = c' \<and> n = m \<and> 0 \<le> n \<and> (a \<noteq> b \<or> p \<noteq> q)"
  by (auto simp: valid_posting_def)

definition to_posting :: "string option \<Rightarrow> string option \<Rightarrow> ledger_leg \<times> ledger_leg \<Rightarrow> ledger_posting" where
  "to_posting st si l = mk_posting (fst l) (snd l) st si"

lemma to_posting_fields [simp]:
  "debit_leg (to_posting st si l) = fst l" "credit_leg (to_posting st si l) = snd l"
  "post_sourceType (to_posting st si l) = st" "post_sourceId (to_posting st si l) = si"
  by (simp_all add: to_posting_def)

lemma move_post: "move e t st si l d = post e t (to_posting st si l) d"
proof (cases "posting (fst l) (snd l) st si")
  case (Inl err)
  then show ?thesis by (simp add: move_def post_def postEntry_def)
next
  case (Inr p)
  then have "p = to_posting st si l" by (simp add: posting_eq_Inr to_posting_def)
  with Inr show ?thesis by (simp add: move_def)
qed

lemma moves_post: "moves e t st si ls d = efold (post e t) (map (to_posting st si) ls) d"
  unfolding moves_def by (induction ls arbitrary: d) (auto simp: move_post ebind_def split: sum.splits)

lemma posting_legs_to_posting [simp]: "posting_legs (map (to_posting st si) ls) = pair_legs ls"
  by (induction ls) auto

lemma moves_ok: "(\<forall>l\<in>set ls. valid_posting (to_posting st si l)) \<Longrightarrow> \<exists>d'. moves e t st si ls d = Inr d'"
  unfolding moves_post by (rule ledger.efold_put_ok) simp

lemma moves_valid: "moves e t st si ls d = Inr d' \<Longrightarrow> \<forall>l\<in>set ls. valid_posting (to_posting st si l)"
  unfolding moves_post by (drule ledger.efold_put_valid) simp

lemma moves_balance:
  "moves e t st si ls d = Inr d' \<Longrightarrow>
     accountBalanceCents d' u a c =
       accountBalanceCents d u a c + (if u = t then balanceOf (pair_legs ls) a c else 0)"
  unfolding moves_post accountBalanceCents_legs by (drule ledger.efold_put_balance [where u = u and a = a and c = c]) simp

lemma moves_balanced:
  "moves e t st si ls d = Inr d' \<Longrightarrow> isBalanced (tenant_legs u d) \<Longrightarrow> isBalanced (tenant_legs u d')"
  unfolding moves_post by (rule ledger.efold_put_balanced)

text \<open>
  What a sequence of postings does to the database: it appends rows to the ledger and
  touches nothing else.
\<close>

definition appends ::
  "env \<Rightarrow> string \<Rightarrow> string option \<Rightarrow> string option \<Rightarrow> (ledger_leg \<times> ledger_leg) list \<Rightarrow> db \<Rightarrow> db \<Rightarrow> bool" where
  "appends e t st si ls d d' \<longleftrightarrow>
     (\<exists>n rows. d' = d\<lparr>seq := n, ledgerEntries := ledgerEntries d @ rows\<rparr> \<and> seq d \<le> n \<and>
        map leg_of_row rows = map strip (pair_legs ls) \<and>
        map le_partyId rows = map partyId (pair_legs ls) \<and>
        (\<forall>r\<in>set rows. le_tenantId r = t \<and> le_sourceType r = st \<and> le_sourceId r = si \<and>
           le_createdAt r = now e \<and> le_id r \<in> gen e ` {seq d..<n}))"

lemma post_appends:
  assumes "post e t (to_posting st si l) d = Inr d'"
  shows "appends e t st si [l] d d'"
proof -
  define p where "p = to_posting st si l"
  from assms have v: "valid_posting p"
    and d': "d' = d\<lparr>seq := seq d + 3, ledgerEntries := ledgerEntries d @ new_rows e t p d\<rparr>"
    by (auto simp: post_eq_Inr p_def)
  from v have "leg_currency (snd l) = leg_currency (fst l)" by (simp add: valid_posting_def p_def)
  then show ?thesis
    unfolding appends_def d'
    by (intro exI [of _ "seq d + 3"] exI [of _ "new_rows e t p d"])
       (auto simp: new_rows_def p_def entry_row_def leg_of_row_def strip_def)
qed

lemma appends_trans:
  assumes "appends e t st si xs d1 d2" "appends e t st si ys d2 d3"
  shows "appends e t st si (xs @ ys) d1 d3"
proof -
  from assms(1) obtain n rs where d2: "d2 = d1\<lparr>seq := n, ledgerEntries := ledgerEntries d1 @ rs\<rparr>"
    and 1: "seq d1 \<le> n" "map leg_of_row rs = map strip (pair_legs xs)"
      "map le_partyId rs = map partyId (pair_legs xs)"
      "\<forall>r\<in>set rs. le_tenantId r = t \<and> le_sourceType r = st \<and> le_sourceId r = si \<and>
           le_createdAt r = now e \<and> le_id r \<in> gen e ` {seq d1..<n}"
    unfolding appends_def by blast
  from assms(2) obtain m ss where d3: "d3 = d2\<lparr>seq := m, ledgerEntries := ledgerEntries d2 @ ss\<rparr>"
    and 2: "seq d2 \<le> m" "map leg_of_row ss = map strip (pair_legs ys)"
      "map le_partyId ss = map partyId (pair_legs ys)"
      "\<forall>r\<in>set ss. le_tenantId r = t \<and> le_sourceType r = st \<and> le_sourceId r = si \<and>
           le_createdAt r = now e \<and> le_id r \<in> gen e ` {seq d2..<m}"
    unfolding appends_def by blast
  have "gen e ` {seq d1..<n} \<subseteq> gen e ` {seq d1..<m}" "gen e ` {seq d2..<m} \<subseteq> gen e ` {seq d1..<m}"
    using 1(1) 2(1) by (auto simp: d2)
  with 1 2 show ?thesis
    unfolding appends_def
    by (intro exI [of _ m] exI [of _ "rs @ ss"]) (auto simp: d2 d3)
qed

lemma appends_refl: "appends e t st si [] d d"
  unfolding appends_def by (intro exI [of _ "seq d"] exI [of _ "[]"]) simp

lemma moves_appends: "moves e t st si ls d = Inr d' \<Longrightarrow> appends e t st si ls d d'"
proof (induction ls arbitrary: d)
  case Nil
  then show ?case by (simp add: moves_def appends_refl)
next
  case (Cons l ls)
  then obtain u where "post e t (to_posting st si l) d = Inr u" "moves e t st si ls u = Inr d'"
    by (auto simp: moves_def move_post)
  with Cons.IH [of u] post_appends [of e t st si l d u] show ?case
    using appends_trans [of e t st si "[l]" d u ls d'] by simp
qed

lemma moves_frame [frame_simps]:
  assumes "moves e t st si ls d = Inr d'"
  shows "tenants d' = tenants d" "feeSchedules d' = feeSchedules d" "settlementPolicies d' = settlementPolicies d"
    "payouts d' = payouts d" "payoutItems d' = payoutItems d" "disputes d' = disputes d"
    "recoveries d' = recoveries d" "splitParties d' = splitParties d" "splitRules d' = splitRules d"
    "splits d' = splits d" "wallets d' = wallets d" "walletTransactions d' = walletTransactions d"
    "financeConfigs d' = financeConfigs d" "reconciliationReports d' = reconciliationReports d" "reconciliationLines d' = reconciliationLines d"
    "statements d' = statements d" "statementItems d' = statementItems d" "onboardings d' = onboardings d"
    "riskDecisions d' = riskDecisions d" "paymentLinks d' = paymentLinks d" "paymentIntents d' = paymentIntents d"
    "providerConfigs d' = providerConfigs d" "providerTransactions d' = providerTransactions d" "refunds d' = refunds d"
    "webhookEvents d' = webhookEvents d" "subscriptions d' = subscriptions d" "billingEvents d' = billingEvents d"
    "installmentPlans d' = installmentPlans d" "installmentAgreements d' = installmentAgreements d" "installmentCharges d' = installmentCharges d"
    "outbox d' = outbox d" "auditLogs d' = auditLogs d"
  using moves_appends [OF assms] by (auto simp: appends_def)

lemma entries_of_update [simp]:
  "entries_of (d\<lparr>seq := v0\<rparr>) t = entries_of d t"
  "entries_of (d\<lparr>tenants := v1\<rparr>) t = entries_of d t"
  "entries_of (d\<lparr>feeSchedules := v2\<rparr>) t = entries_of d t"
  "entries_of (d\<lparr>settlementPolicies := v3\<rparr>) t = entries_of d t"
  "entries_of (d\<lparr>payouts := v4\<rparr>) t = entries_of d t"
  "entries_of (d\<lparr>payoutItems := v5\<rparr>) t = entries_of d t"
  "entries_of (d\<lparr>disputes := v6\<rparr>) t = entries_of d t"
  "entries_of (d\<lparr>recoveries := v7\<rparr>) t = entries_of d t"
  "entries_of (d\<lparr>splitParties := v8\<rparr>) t = entries_of d t"
  "entries_of (d\<lparr>splitRules := v9\<rparr>) t = entries_of d t"
  "entries_of (d\<lparr>splits := v10\<rparr>) t = entries_of d t"
  "entries_of (d\<lparr>wallets := v11\<rparr>) t = entries_of d t"
  "entries_of (d\<lparr>walletTransactions := v12\<rparr>) t = entries_of d t"
  "entries_of (d\<lparr>financeConfigs := v13\<rparr>) t = entries_of d t"
  "entries_of (d\<lparr>reconciliationReports := v14\<rparr>) t = entries_of d t"
  "entries_of (d\<lparr>reconciliationLines := v15\<rparr>) t = entries_of d t"
  "entries_of (d\<lparr>statements := v16\<rparr>) t = entries_of d t"
  "entries_of (d\<lparr>statementItems := v17\<rparr>) t = entries_of d t"
  "entries_of (d\<lparr>onboardings := v18\<rparr>) t = entries_of d t"
  "entries_of (d\<lparr>riskDecisions := v19\<rparr>) t = entries_of d t"
  "entries_of (d\<lparr>paymentLinks := v20\<rparr>) t = entries_of d t"
  "entries_of (d\<lparr>paymentIntents := v21\<rparr>) t = entries_of d t"
  "entries_of (d\<lparr>providerConfigs := v22\<rparr>) t = entries_of d t"
  "entries_of (d\<lparr>providerTransactions := v23\<rparr>) t = entries_of d t"
  "entries_of (d\<lparr>refunds := v24\<rparr>) t = entries_of d t"
  "entries_of (d\<lparr>webhookEvents := v25\<rparr>) t = entries_of d t"
  "entries_of (d\<lparr>subscriptions := v26\<rparr>) t = entries_of d t"
  "entries_of (d\<lparr>billingEvents := v27\<rparr>) t = entries_of d t"
  "entries_of (d\<lparr>installmentPlans := v28\<rparr>) t = entries_of d t"
  "entries_of (d\<lparr>installmentAgreements := v29\<rparr>) t = entries_of d t"
  "entries_of (d\<lparr>installmentCharges := v30\<rparr>) t = entries_of d t"
  "entries_of (d\<lparr>outbox := v31\<rparr>) t = entries_of d t"
  "entries_of (d\<lparr>auditLogs := v31x\<rparr>) t = entries_of d t"
  by (simp_all add: entries_of_def)

lemma tenant_legs_cong: "ledgerEntries d' = ledgerEntries d \<Longrightarrow> tenant_legs t d' = tenant_legs t d"
  by (simp add: tenant_legs_def entries_of_def)

lemma tenant_legs_update [simp]:
  "tenant_legs t (d\<lparr>seq := v0\<rparr>) = tenant_legs t d"
  "tenant_legs t (d\<lparr>tenants := v1\<rparr>) = tenant_legs t d"
  "tenant_legs t (d\<lparr>feeSchedules := v2\<rparr>) = tenant_legs t d"
  "tenant_legs t (d\<lparr>settlementPolicies := v3\<rparr>) = tenant_legs t d"
  "tenant_legs t (d\<lparr>payouts := v4\<rparr>) = tenant_legs t d"
  "tenant_legs t (d\<lparr>payoutItems := v5\<rparr>) = tenant_legs t d"
  "tenant_legs t (d\<lparr>disputes := v6\<rparr>) = tenant_legs t d"
  "tenant_legs t (d\<lparr>recoveries := v7\<rparr>) = tenant_legs t d"
  "tenant_legs t (d\<lparr>splitParties := v8\<rparr>) = tenant_legs t d"
  "tenant_legs t (d\<lparr>splitRules := v9\<rparr>) = tenant_legs t d"
  "tenant_legs t (d\<lparr>splits := v10\<rparr>) = tenant_legs t d"
  "tenant_legs t (d\<lparr>wallets := v11\<rparr>) = tenant_legs t d"
  "tenant_legs t (d\<lparr>walletTransactions := v12\<rparr>) = tenant_legs t d"
  "tenant_legs t (d\<lparr>financeConfigs := v13\<rparr>) = tenant_legs t d"
  "tenant_legs t (d\<lparr>reconciliationReports := v14\<rparr>) = tenant_legs t d"
  "tenant_legs t (d\<lparr>reconciliationLines := v15\<rparr>) = tenant_legs t d"
  "tenant_legs t (d\<lparr>statements := v16\<rparr>) = tenant_legs t d"
  "tenant_legs t (d\<lparr>statementItems := v17\<rparr>) = tenant_legs t d"
  "tenant_legs t (d\<lparr>onboardings := v18\<rparr>) = tenant_legs t d"
  "tenant_legs t (d\<lparr>riskDecisions := v19\<rparr>) = tenant_legs t d"
  "tenant_legs t (d\<lparr>paymentLinks := v20\<rparr>) = tenant_legs t d"
  "tenant_legs t (d\<lparr>paymentIntents := v21\<rparr>) = tenant_legs t d"
  "tenant_legs t (d\<lparr>providerConfigs := v22\<rparr>) = tenant_legs t d"
  "tenant_legs t (d\<lparr>providerTransactions := v23\<rparr>) = tenant_legs t d"
  "tenant_legs t (d\<lparr>refunds := v24\<rparr>) = tenant_legs t d"
  "tenant_legs t (d\<lparr>webhookEvents := v25\<rparr>) = tenant_legs t d"
  "tenant_legs t (d\<lparr>subscriptions := v26\<rparr>) = tenant_legs t d"
  "tenant_legs t (d\<lparr>billingEvents := v27\<rparr>) = tenant_legs t d"
  "tenant_legs t (d\<lparr>installmentPlans := v28\<rparr>) = tenant_legs t d"
  "tenant_legs t (d\<lparr>installmentAgreements := v29\<rparr>) = tenant_legs t d"
  "tenant_legs t (d\<lparr>installmentCharges := v30\<rparr>) = tenant_legs t d"
  "tenant_legs t (d\<lparr>outbox := v31\<rparr>) = tenant_legs t d"
  "tenant_legs t (d\<lparr>auditLogs := v31x\<rparr>) = tenant_legs t d"
  by (simp_all add: tenant_legs_def)

lemma accountBalanceCents_update [simp]:
  "accountBalanceCents (d\<lparr>seq := v0\<rparr>) t a c = accountBalanceCents d t a c"
  "accountBalanceCents (d\<lparr>tenants := v1\<rparr>) t a c = accountBalanceCents d t a c"
  "accountBalanceCents (d\<lparr>feeSchedules := v2\<rparr>) t a c = accountBalanceCents d t a c"
  "accountBalanceCents (d\<lparr>settlementPolicies := v3\<rparr>) t a c = accountBalanceCents d t a c"
  "accountBalanceCents (d\<lparr>payouts := v4\<rparr>) t a c = accountBalanceCents d t a c"
  "accountBalanceCents (d\<lparr>payoutItems := v5\<rparr>) t a c = accountBalanceCents d t a c"
  "accountBalanceCents (d\<lparr>disputes := v6\<rparr>) t a c = accountBalanceCents d t a c"
  "accountBalanceCents (d\<lparr>recoveries := v7\<rparr>) t a c = accountBalanceCents d t a c"
  "accountBalanceCents (d\<lparr>splitParties := v8\<rparr>) t a c = accountBalanceCents d t a c"
  "accountBalanceCents (d\<lparr>splitRules := v9\<rparr>) t a c = accountBalanceCents d t a c"
  "accountBalanceCents (d\<lparr>splits := v10\<rparr>) t a c = accountBalanceCents d t a c"
  "accountBalanceCents (d\<lparr>wallets := v11\<rparr>) t a c = accountBalanceCents d t a c"
  "accountBalanceCents (d\<lparr>walletTransactions := v12\<rparr>) t a c = accountBalanceCents d t a c"
  "accountBalanceCents (d\<lparr>financeConfigs := v13\<rparr>) t a c = accountBalanceCents d t a c"
  "accountBalanceCents (d\<lparr>reconciliationReports := v14\<rparr>) t a c = accountBalanceCents d t a c"
  "accountBalanceCents (d\<lparr>reconciliationLines := v15\<rparr>) t a c = accountBalanceCents d t a c"
  "accountBalanceCents (d\<lparr>statements := v16\<rparr>) t a c = accountBalanceCents d t a c"
  "accountBalanceCents (d\<lparr>statementItems := v17\<rparr>) t a c = accountBalanceCents d t a c"
  "accountBalanceCents (d\<lparr>onboardings := v18\<rparr>) t a c = accountBalanceCents d t a c"
  "accountBalanceCents (d\<lparr>riskDecisions := v19\<rparr>) t a c = accountBalanceCents d t a c"
  "accountBalanceCents (d\<lparr>paymentLinks := v20\<rparr>) t a c = accountBalanceCents d t a c"
  "accountBalanceCents (d\<lparr>paymentIntents := v21\<rparr>) t a c = accountBalanceCents d t a c"
  "accountBalanceCents (d\<lparr>providerConfigs := v22\<rparr>) t a c = accountBalanceCents d t a c"
  "accountBalanceCents (d\<lparr>providerTransactions := v23\<rparr>) t a c = accountBalanceCents d t a c"
  "accountBalanceCents (d\<lparr>refunds := v24\<rparr>) t a c = accountBalanceCents d t a c"
  "accountBalanceCents (d\<lparr>webhookEvents := v25\<rparr>) t a c = accountBalanceCents d t a c"
  "accountBalanceCents (d\<lparr>subscriptions := v26\<rparr>) t a c = accountBalanceCents d t a c"
  "accountBalanceCents (d\<lparr>billingEvents := v27\<rparr>) t a c = accountBalanceCents d t a c"
  "accountBalanceCents (d\<lparr>installmentPlans := v28\<rparr>) t a c = accountBalanceCents d t a c"
  "accountBalanceCents (d\<lparr>installmentAgreements := v29\<rparr>) t a c = accountBalanceCents d t a c"
  "accountBalanceCents (d\<lparr>installmentCharges := v30\<rparr>) t a c = accountBalanceCents d t a c"
  "accountBalanceCents (d\<lparr>outbox := v31\<rparr>) t a c = accountBalanceCents d t a c"
  "accountBalanceCents (d\<lparr>auditLogs := v31x\<rparr>) t a c = accountBalanceCents d t a c"
  by (simp_all add: accountBalanceCents_legs)

text \<open>
  The effect of an operation on the ledger: the legs it adds to the tenant's ledger, which
  cancel in every currency; no other tenant's ledger changes. Effects compose, and every
  operation of the modules built on the ledger is summarised by one.
\<close>

definition ledger_effect :: "string \<Rightarrow> ledger_leg list \<Rightarrow> db \<Rightarrow> db \<Rightarrow> bool" where
  "ledger_effect t legs d d' \<longleftrightarrow>
     (\<forall>u. tenant_legs u d' = tenant_legs u d @ (if u = t then map strip legs else [])) \<and>
     (\<forall>c. net legs c = 0)"

lemma effect_none: "ledgerEntries d' = ledgerEntries d \<Longrightarrow> ledger_effect t [] d d'"
  by (simp add: ledger_effect_def tenant_legs_cong [of d' d])

lemma effect_trans:
  "ledger_effect t xs d1 d2 \<Longrightarrow> ledger_effect t ys d2 d3 \<Longrightarrow> ledger_effect t (xs @ ys) d1 d3"
  by (simp add: ledger_effect_def)

lemma effect_then: "ledger_effect t xs d1 d2 \<Longrightarrow> ledgerEntries d3 = ledgerEntries d2 \<Longrightarrow> ledger_effect t xs d1 d3"
  using effect_trans [OF _ effect_none [of d3 d2]] by fastforce

lemma effect_after: "ledgerEntries d2 = ledgerEntries d1 \<Longrightarrow> ledger_effect t xs d2 d3 \<Longrightarrow> ledger_effect t xs d1 d3"
  using effect_trans [OF effect_none [of d2 d1]] by fastforce

lemma effect_moves: "moves e t st si ls d = Inr d' \<Longrightarrow> ledger_effect t (pair_legs ls) d d'"
proof -
  assume m: "moves e t st si ls d = Inr d'"
  then have "\<forall>p\<in>set (map (to_posting st si) ls). valid_posting p"
    unfolding moves_post by (rule ledger.efold_put_valid)
  then have "net (pair_legs ls) c = 0" for c
    by (induction ls) (auto dest: valid_posting_net [of _ c])
  with m show ?thesis
    unfolding ledger_effect_def moves_post using ledger.efold_put_legs [of e t] by fastforce
qed

lemma effect_move: "move e t st si l d = Inr d' \<Longrightarrow> ledger_effect t [fst l, snd l] d d'"
  using effect_moves [of e t st si "[l]" d d'] by (simp add: moves_def)

lemma effect_balance:
  "ledger_effect t legs d d' \<Longrightarrow>
     accountBalanceCents d' u a c = accountBalanceCents d u a c + (if u = t then balanceOf legs a c else 0)"
  by (simp add: ledger_effect_def accountBalanceCents_legs)

lemma effect_balanced: "ledger_effect t legs d d' \<Longrightarrow> isBalanced (tenant_legs u d) \<Longrightarrow> isBalanced (tenant_legs u d')"
  by (simp add: ledger_effect_def isBalanced_iff)

lemma effect_other: "ledger_effect t legs d d' \<Longrightarrow> u \<noteq> t \<Longrightarrow> tenant_legs u d' = tenant_legs u d"
  by (simp add: ledger_effect_def)

lemma move_frame:
  "move e t st si l d = Inr d' \<Longrightarrow> \<exists>n rows. d' = d\<lparr>seq := n, ledgerEntries := rows\<rparr>"
  using moves_appends [of e t st si "[l]" d d'] by (auto simp: moves_def appends_def)

text \<open>Primary keys: no two rows share an id, and every id in use was drawn before \<open>seq\<close>.\<close>

definition ids_ok :: "(nat \<Rightarrow> string) \<Rightarrow> db \<Rightarrow> bool" where
  "ids_ok g d \<longleftrightarrow> distinct (map le_id (ledgerEntries d)) \<and> le_id ` set (ledgerEntries d) \<subseteq> g ` {..<seq d}"

lemma ids_post:
  assumes "inj (gen e)" "ids_ok (gen e) d" "post e t p d = Inr d'"
  shows "ids_ok (gen e) d'"
proof -
  from assms(3) have d': "d' = d\<lparr>seq := seq d + 3, ledgerEntries := ledgerEntries d @ new_rows e t p d\<rparr>"
    by (simp add: post_eq_Inr)
  have new: "map le_id (new_rows e t p d) = [gen e (seq d + 1), gen e (seq d + 2)]"
    by (simp add: new_rows_def entry_row_def)
  have old: "x \<noteq> gen e (seq d + k)" if "x \<in> le_id ` set (ledgerEntries d)" for x k
    using that assms(1,2) by (auto simp: ids_ok_def dest!: subsetD injD [OF assms(1)])
  have "set (map le_id (new_rows e t p d)) \<inter> le_id ` set (ledgerEntries d) = {}"
    unfolding new using old [of _ 1] old [of _ 2] by auto
  moreover have "distinct (map le_id (new_rows e t p d))" unfolding new using injD [OF assms(1)] by fastforce
  moreover have "gen e ` {..<seq d} \<subseteq> gen e ` {..<seq d + 3}" by auto
  moreover have "set (map le_id (new_rows e t p d)) \<subseteq> gen e ` {..<seq d + 3}" unfolding new by auto
  ultimately show ?thesis using assms(2) unfolding ids_ok_def d' by auto
qed

lemma ids_moves:
  assumes "inj (gen e)" "ids_ok (gen e) d" "moves e t st si ls d = Inr d'"
  shows "ids_ok (gen e) d'"
  using efold_preserves [where P = "ids_ok (gen e)", OF _ assms(2) assms(3) [unfolded moves_post]] ids_post [OF assms(1)]
  by blast

lemma ids_update [simp]: "ids_ok g (d\<lparr>payouts := x\<rparr>) = ids_ok g d" "ids_ok g (d\<lparr>payoutItems := y\<rparr>) = ids_ok g d"
  by (simp_all add: ids_ok_def)

lemma ids_seq: "ids_ok g d \<Longrightarrow> seq d \<le> n \<Longrightarrow> ids_ok g (d\<lparr>seq := n\<rparr>)"
  unfolding ids_ok_def by (auto dest!: subsetD)

lemma moves_append: "moves e t st si (xs @ ys) d = ebind (moves e t st si xs d) (moves e t st si ys)"
  by (simp add: moves_def efold_append)

text \<open>The rows a sequence of postings adds.\<close>

lemma moves_rows:
  assumes "moves e t st si ls d = Inr d'"
  shows "\<exists>rows. ledgerEntries d' = ledgerEntries d @ rows \<and> map leg_of_row rows = map strip (pair_legs ls) \<and>
    (\<forall>r\<in>set rows. le_tenantId r = t \<and> le_sourceType r = st \<and> le_sourceId r = si \<and> le_createdAt r = now e \<and> 0 \<le> le_amount r)"
proof -
  from moves_appends [OF assms] obtain rows where rows: "ledgerEntries d' = ledgerEntries d @ rows"
    "map leg_of_row rows = map strip (pair_legs ls)"
    "\<forall>r\<in>set rows. le_tenantId r = t \<and> le_sourceType r = st \<and> le_sourceId r = si \<and> le_createdAt r = now e"
    unfolding appends_def by auto
  have "0 \<le> amountCents l" if "l \<in> set (pair_legs ls)" for l
    using that moves_valid [OF assms] by (fastforce simp: pair_legs_def valid_posting_def)
  then have "\<forall>l\<in>set (map leg_of_row rows). 0 \<le> amountCents l" unfolding rows(2) by auto
  then have "\<forall>r\<in>set rows. 0 \<le> le_amount r" by (auto simp: leg_of_row_def)
  with rows show ?thesis by blast
qed

text \<open>
  Legs booked under one source: the rows are appended, carry the source, and mirror the legs. It gives both the effect on
  the balances and the growth of the table.
\<close>

definition booked :: "string \<Rightarrow> string option \<Rightarrow> string option \<Rightarrow> ledger_leg list \<Rightarrow> db \<Rightarrow> db \<Rightarrow> bool" where
  "booked t st si legs d d' \<longleftrightarrow>
     (\<exists>rows. ledgerEntries d' = ledgerEntries d @ rows \<and> map leg_of_row rows = map strip legs \<and>
        (\<forall>r\<in>set rows. le_tenantId r = t \<and> le_sourceType r = st \<and> le_sourceId r = si)) \<and>
     (\<forall>c. net legs c = 0)"

lemma booked_none: "ledgerEntries d' = ledgerEntries d \<Longrightarrow> booked t st si [] d d'"
  by (simp add: booked_def)

lemma booked_trans: "booked t st si xs d1 d2 \<Longrightarrow> booked t st si ys d2 d3 \<Longrightarrow> booked t st si (xs @ ys) d1 d3"
  unfolding booked_def by (elim conjE exE) (intro conjI exI [where x = "_ @ _"], auto)

lemma booked_then: "booked t st si xs d1 d2 \<Longrightarrow> ledgerEntries d3 = ledgerEntries d2 \<Longrightarrow> booked t st si xs d1 d3"
  by (simp add: booked_def)

lemma booked_effect: "booked t st si legs d d' \<Longrightarrow> ledger_effect t legs d d'"
proof -
  assume b: "booked t st si legs d d'"
  then obtain rows where rows: "ledgerEntries d' = ledgerEntries d @ rows" "map leg_of_row rows = map strip legs"
    "\<forall>r\<in>set rows. le_tenantId r = t" unfolding booked_def by blast
  have "filter (\<lambda>r. le_tenantId r = u) rows = (if u = t then rows else [])" for u
    using rows(3) by (auto simp: filter_id_conv filter_empty_conv)
  with rows(1,2) b show ?thesis
    by (simp add: ledger_effect_def booked_def tenant_legs_def entries_of_def)
qed

lemma booked_moves: "moves e t st si ls d = Inr d' \<Longrightarrow> booked t st si (pair_legs ls) d d'"
  using moves_rows [of e t st si ls d d'] effect_moves [of e t st si ls d d']
  unfolding booked_def ledger_effect_def by blast

lemma booked_move: "move e t st si l d = Inr d' \<Longrightarrow> booked t st si [fst l, snd l] d d'"
  using booked_moves [of e t st si "[l]" d d'] by (simp add: moves_def)

text \<open>Rows of the ledger are never changed or removed.\<close>

definition grows :: "db \<Rightarrow> db \<Rightarrow> bool" where
  "grows d d' \<longleftrightarrow> (\<exists>rows. ledgerEntries d' = ledgerEntries d @ rows)"

lemma grows_same: "ledgerEntries d' = ledgerEntries d \<Longrightarrow> grows d d'"
  by (simp add: grows_def)

lemma grows_trans: "grows d1 d2 \<Longrightarrow> grows d2 d3 \<Longrightarrow> grows d1 d3"
  by (auto simp: grows_def)

lemma grows_set: "grows d d' \<Longrightarrow> r \<in> set (ledgerEntries d) \<Longrightarrow> r \<in> set (ledgerEntries d')"
  by (auto simp: grows_def)

lemma grows_booked: "booked t st si legs d d' \<Longrightarrow> grows d d'"
  by (auto simp: booked_def grows_def)

lemma grows_moves: "moves e t st si ls d = Inr d' \<Longrightarrow> grows d d'"
  by (drule moves_appends) (auto simp: appends_def grows_def)

lemma grows_move: "move e t st si l d = Inr d' \<Longrightarrow> grows d d'"
  using grows_moves [of e t st si "[l]" d d'] by (simp add: moves_def)

lemma move_rows:
  assumes "move e t st si l d = Inr d'"
  shows "\<exists>r r'. ledgerEntries d' = ledgerEntries d @ [r, r'] \<and> leg_of_row r = strip (fst l) \<and>
    leg_of_row r' = strip (snd l) \<and> le_partyId r = partyId (fst l) \<and> le_partyId r' = partyId (snd l) \<and>
    (\<forall>x\<in>{r, r'}. le_tenantId x = t \<and> le_sourceType x = st \<and> le_sourceId x = si \<and> le_createdAt x = now e)"
proof -
  from assms have "appends e t st si [l] d d'" using moves_appends [of e t st si "[l]" d d'] by (simp add: moves_def)
  then obtain n rows where "d' = d\<lparr>seq := n, ledgerEntries := ledgerEntries d @ rows\<rparr>"
    "map leg_of_row rows = [strip (fst l), strip (snd l)]" "map le_partyId rows = [partyId (fst l), partyId (snd l)]"
    "\<forall>r\<in>set rows. le_tenantId r = t \<and> le_sourceType r = st \<and> le_sourceId r = si \<and> le_createdAt r = now e"
    unfolding appends_def by auto
  moreover from this(2) obtain r r' where "rows = [r, r']" by (auto simp: map_eq_Cons_conv)
  ultimately show ?thesis by auto
qed

lemma leg_of_row_eq:
  "leg_of_row r = strip leg \<Longrightarrow> le_account r = account leg \<and> le_direction r = direction leg \<and>
     le_category r = category leg \<and> le_amount r = amountCents leg \<and> le_currency r = leg_currency leg"
  by (cases leg) (simp add: leg_of_row_def strip_def)

lemma postEntry_rows:
  assumes "postEntry e t p d = Inr ((pid, dr, cr), d')"
  shows "valid_posting p"
    "le_account dr = account (debit_leg p)" "le_account cr = account (credit_leg p)"
    "le_currency dr = leg_currency (debit_leg p)" "le_currency cr = leg_currency (debit_leg p)"
    "le_amount cr = amountCents (credit_leg p)"
    "le_balanceAfter dr = accountBalanceCents d t (account (debit_leg p)) (leg_currency (debit_leg p)) + delta (debit_leg p)"
    "le_balanceAfter cr = accountBalanceCents d t (account (credit_leg p)) (leg_currency (debit_leg p)) + delta (credit_leg p)"
    "accountBalanceCents d' t a c = accountBalanceCents d t a c + balanceOf [debit_leg p, credit_leg p] a c"
proof -
  from assms have put: "post e t p d = Inr d'" by (simp add: post_def)
  then show "valid_posting p" by (simp add: post_eq_Inr)
  have "efold (post e t) [p] d = Inr d'" using put by simp
  from ledger.efold_put_balance [OF this, of t]
  show "accountBalanceCents d' t a c = accountBalanceCents d t a c + balanceOf [debit_leg p, credit_leg p] a c"
    by (simp add: accountBalanceCents_legs)
qed (use assms in \<open>auto simp: postEntry_def Let_def entry_row_def\<close>)

text \<open>The columns refuse a posting only when its amount or one of its two new balances is out of their range.\<close>

lemma posting_again:
  "valid_posting p \<Longrightarrow> posting (debit_leg p) (credit_leg p) (post_sourceType p) (post_sourceId p) = Inr p"
  by (cases p) (simp add: posting_eq_Inr)

lemma columns_ok:
  "is_ok (postEntry_columns e t p d) \<longleftrightarrow> valid_posting p \<and> fits_column (amountCents (debit_leg p)) \<and>
     fits_column (accountBalanceCents d t (account (debit_leg p)) (leg_currency (debit_leg p)) - amountCents (debit_leg p)) \<and>
     fits_column (accountBalanceCents d t (account (credit_leg p)) (leg_currency (debit_leg p)) + amountCents (debit_leg p))"
proof (cases "valid_posting p")
  case True
  then have "delta (debit_leg p) = - amountCents (debit_leg p)" "delta (credit_leg p) = amountCents (debit_leg p)"
    "amountCents (credit_leg p) = amountCents (debit_leg p)" by (simp_all add: valid_posting_def delta_def)
  with True posting_again [OF True] show ?thesis
    by (simp add: postEntry_columns_def postEntry_def Let_def entry_row_def)
next
  case False
  from post_error [OF this, of e t d] have "\<not> is_ok (postEntry e t p d)" by (cases "postEntry e t p d") (auto simp: post_def)
  with False show ?thesis by (cases "postEntry e t p d") (simp_all add: postEntry_columns_def)
qed

lemma columns_in_range:
  assumes "is_ok (postEntry_columns e t p d)"
  shows "postEntry_columns e t p d = postEntry e t p d"
  using assms by (cases "postEntry e t p d") (auto simp: postEntry_columns_def split: prod.splits)

section \<open>Properties\<close>



text \<open>
  The authoritative view. The per-currency balances returned by \<open>getTenantLedger\<close>
  are the balances \<open>accountBalanceCents\<close> derives by SQL aggregation, its MAD projection is
  the MAD column of that table, and its \<open>balanced\<close> flag says that the balances of all
  accounts cancel in every currency.
\<close>

lemma getTenantLedger_views:
  "lv_balancesByCurrency (getTenantLedger d t) c a = accountBalanceCents d t a c \<and>
   lv_balances (getTenantLedger d t) a = accountBalanceCents d t a MAD \<and>
   (lv_balanced (getTenantLedger d t) \<longleftrightarrow> (\<forall>c. (\<Sum>a\<in>UNIV. accountBalanceCents d t a c) = 0))"
  by (simp add: getTenantLedger_def Let_def accountBalanceCents_legs tenant_legs_def
      balance_views_agree_sum isBalanced_iff net_eq_sum_accounts balanceOf_sorted)

text \<open>
  The audit snapshot. The \<open>balanceAfter\<close> of the two rows written by \<open>postEntry\<close> is
  the derived balance of the row's account after the posting, provided the two legs are on
  different accounts.
\<close>

lemma balanceAfter_snapshot:
  assumes "postEntry e t p d = Inr ((pid, dr, cr), d')"
    and "account (debit_leg p) \<noteq> account (credit_leg p)"
  shows "le_balanceAfter dr = accountBalanceCents d' t (le_account dr) (le_currency dr) \<and>
         le_balanceAfter cr = accountBalanceCents d' t (le_account cr) (le_currency cr)"
  using assms(2) postEntry_rows(1) [OF assms(1)]
  by (simp add: postEntry_rows(2-9) [OF assms(1)] valid_posting_def)

text \<open>
  The snapshot of a posting between two parties of one account, which \<open>posting\<close>
  allows: the account's balance does not change, and the credit row's \<open>balanceAfter\<close>
  overstates it by the amount moved.
\<close>

lemma balanceAfter_same_account:
  assumes "postEntry e t p d = Inr ((pid, dr, cr), d')"
    and "account (debit_leg p) = account (credit_leg p)"
  shows "accountBalanceCents d' t (le_account cr) (le_currency cr) =
           accountBalanceCents d t (le_account cr) (le_currency cr) \<and>
         le_balanceAfter cr = accountBalanceCents d' t (le_account cr) (le_currency cr) + le_amount cr"
  using assms(2) postEntry_rows(1) [OF assms(1)]
  by (simp add: postEntry_rows(2-9) [OF assms(1)] valid_posting_def delta_def)

end
