(* ===== verification/StatusMachine.thy ===== *)
theory StatusMachine
  imports Prelude
begin

text \<open>
  The contract behind the \<open>TRANSITIONS\<close> tables of the source. Payouts, disputes, splits,
  statements, reconciliation reports and onboardings each have a status column, a table of
  legal moves and an \<open>assertTransition\<close> guard. The first locale fixes what all of them
  promise (terminal statuses are stuck, the others can move); the second adds a rank that
  every move lowers, which holds for the tables without a way back. Each component
  interprets one of them on its own table.
\<close>

locale status_machine =
  fixes can :: "'s \<Rightarrow> 's \<Rightarrow> bool"
    and terminal :: "'s \<Rightarrow> bool"
  assumes terminal_stuck: "terminal s \<Longrightarrow> \<not> can s t"
    and live_moves: "\<not> terminal s \<Longrightarrow> \<exists>t. can s t"
begin

lemma terminal_iff_stuck: "terminal s \<longleftrightarrow> (\<forall>t. \<not> can s t)"
  using terminal_stuck live_moves by blast

lemma terminal_absorbing: "terminal s \<Longrightarrow> can\<^sup>*\<^sup>* s t \<Longrightarrow> t = s"
  by (erule converse_rtranclpE) (auto dest: terminal_stuck)

end

locale ranked_status_machine = status_machine +
  fixes rank :: "'s \<Rightarrow> nat"
  assumes rank_decreases: "can s t \<Longrightarrow> rank t < rank s"
begin

lemma rank_tranclp: "can\<^sup>+\<^sup>+ s t \<Longrightarrow> rank t < rank s"
  by (induction rule: tranclp.induct) (auto dest: rank_decreases)

lemma never_returns: "can\<^sup>+\<^sup>+ s t \<Longrightarrow> t \<noteq> s"
  by (auto dest: rank_tranclp)

lemma moves_bounded: "(can ^^ n) s t \<Longrightarrow> rank t + n \<le> rank s"
  by (induction n arbitrary: t) (fastforce dest: rank_decreases)+

lemma reaches_terminal: "\<exists>t. can\<^sup>*\<^sup>* s t \<and> terminal t"
proof (induction "rank s" arbitrary: s rule: less_induct)
  case less
  show ?case
  proof (cases "terminal s")
    case False
    then obtain u where u: "can s u" using live_moves by blast
    with less [OF rank_decreases] obtain t where "can\<^sup>*\<^sup>* u t" "terminal t" by blast
    with u show ?thesis by (meson converse_rtranclp_into_rtranclp)
  qed auto
qed

end

end
