(* ===== verification/Splits.thy ===== *)
theory Splits
  imports LedgerDb StatusMachine Fees
begin

text \<open>
  \<open>src/lib/splits.ts\<close>: dividing an amount among beneficiaries by basis points with the
  largest-remainder method. The exact quotas are doubles, as in the source; the array sort
  is a stable sort by the source's comparator, whose tie-break \<open>localeCompare\<close> belongs to the
  runtime's locale data and is a parameter \<open>lc\<close>. The loop that hands out the remaining
  centimes mutates the objects shared by \<open>parts\<close> and \<open>order\<close>; here \<open>order\<close> holds
  positions in \<open>parts\<close>.
\<close>

section \<open>Data\<close>

record share_allocation =
  alloc_partyId :: string
  alloc_amountCents :: centimes

record split_result =
  res_shares :: "share_allocation list"
  res_platformCents :: centimes

record share_part =
  part_partyId :: string
  part_floor :: int
  part_frac :: rat

section \<open>Status machine\<close>

fun split_TRANSITIONS :: "split_status \<Rightarrow> split_status list" where
  "split_TRANSITIONS SPLIT_PENDING = [SPLIT_SETTLED, SPLIT_REVERSED]"
| "split_TRANSITIONS SPLIT_SETTLED = []"
| "split_TRANSITIONS SPLIT_REVERSED = []"

definition split_canTransition :: "split_status \<Rightarrow> split_status \<Rightarrow> bool" where
  "split_canTransition from to = (to \<in> set (split_TRANSITIONS from))"

definition split_assertTransition :: "split_status \<Rightarrow> split_status \<Rightarrow> unit result" where
  "split_assertTransition from to =
     require (split_canTransition from to) (SplitError ''illegal split transition'')"

section \<open>Share computation\<close>

definition sourceAccountFor :: "split_trigger \<Rightarrow> ledger_account" where
  "sourceAccountFor trigger = (if trigger = AT_CAPTURE then COLLECTED else AVAILABLE)"

definition valid_share :: "share_spec \<Rightarrow> bool" where
  "valid_share s \<longleftrightarrow> \<not> (\<not> Number_isInteger (shareBps s) \<or> shareBps s \<le> 0 \<or> shareBps s > 10000)"

definition total_bps :: "share_spec list \<Rightarrow> rat" where
  "total_bps shares = (\<Sum>s\<leftarrow>shares. shareBps s)"

definition validateShares :: "share_spec list \<Rightarrow> unit result" where
  "validateShares shares =
     (if shares = [] then Inl (SplitError ''at least one beneficiary share is required'')
      else if \<not> list_all valid_share shares then Inl (SplitError ''invalid shareBps'')
      else if total_bps shares > 10000 then Inl (SplitError ''beneficiary shares sum to more than 10 000 bps'')
      else Inr ())"

definition share_order :: "(string \<Rightarrow> string \<Rightarrow> int) \<Rightarrow> share_part \<Rightarrow> share_part \<Rightarrow> bool" where
  "share_order lc a b \<longleftrightarrow>
     part_frac b - part_frac a < 0 \<or>
     part_frac b - part_frac a = 0 \<and> lc (part_partyId a) (part_partyId b) \<le> 0"

fun hand_out :: "nat \<Rightarrow> nat \<Rightarrow> nat list \<Rightarrow> int list \<Rightarrow> int list" where
  "hand_out 0 index order floors = floors"
| "hand_out (Suc remaining) index order floors =
     (let i = order ! (index mod length order)
      in hand_out remaining (Suc index) order (floors[i := floors ! i + 1]))"

definition share_parts :: "centimes \<Rightarrow> share_spec list \<Rightarrow> share_part list" where
  "share_parts totalCents shares =
     map (\<lambda>s. let exact = js_div (js_mul (of_int totalCents) (shareBps s)) (total_bps shares);
                  fl = Math_floor exact
              in \<lparr>part_partyId = share_partyId s, part_floor = fl, part_frac = js_sub exact (of_int fl)\<rparr>)
       shares"

definition computeShares ::
  "(string \<Rightarrow> string \<Rightarrow> int) \<Rightarrow> centimes \<Rightarrow> share_spec list \<Rightarrow> share_allocation list result" where
  "computeShares lc totalCents shares =
     (if totalCents < 0 then Inl (SplitError ''total must be non-negative'')
      else ebind (validateShares shares) (\<lambda>_.
        let parts = share_parts totalCents shares;
            floors = map part_floor parts;
            remaining = totalCents - sum_list floors;
            order = sort_by (\<lambda>i j. share_order lc (parts ! i) (parts ! j)) [0..<length parts];
            final = hand_out (nat remaining) 0 order floors
        in Inr (map (\<lambda>(p, n). \<lparr>alloc_partyId = part_partyId p, alloc_amountCents = n\<rparr>)
                  (zip parts final))))"

definition platformShareCents :: "centimes \<Rightarrow> share_allocation list \<Rightarrow> centimes" where
  "platformShareCents source allocations = source - (\<Sum>a\<leftarrow>allocations. alloc_amountCents a)"

definition split ::
  "(string \<Rightarrow> string \<Rightarrow> int) \<Rightarrow> centimes \<Rightarrow> share_spec list \<Rightarrow> split_result result" where
  "split lc source shares =
     (if source < 0 then Inl (SplitError ''source must be non-negative'')
      else ebind (validateShares shares) (\<lambda>_.
        let beneficiary = centimes (of_int (Math_round
              (js_div (js_mul (of_int source) (total_bps shares)) 10000)))
        in ebind (computeShares lc beneficiary shares) (\<lambda>allocations.
             Inr \<lparr>res_shares = allocations, res_platformCents = platformShareCents source allocations\<rparr>)))"

section \<open>Lemmas\<close>

interpretation split_sm: ranked_status_machine split_canTransition
  "\<lambda>s. s \<noteq> SPLIT_PENDING" "\<lambda>s. if s = SPLIT_PENDING then 1 else 0"
proof unfold_locales
  show "\<not> split_canTransition s t" if "s \<noteq> SPLIT_PENDING" for s t
    using that by (cases s) (auto simp: split_canTransition_def)
  show "\<exists>t. split_canTransition s t" if "\<not> s \<noteq> SPLIT_PENDING" for s
    using that by (auto simp: split_canTransition_def)
  show "(if t = SPLIT_PENDING then 1 else 0) < (if s = SPLIT_PENDING then 1 else (0::nat))"
    if "split_canTransition s t" for s t
    using that by (cases s; cases t) (auto simp: split_canTransition_def)
qed

lemma sort_by_indices:
  "distinct (sort_by le [0..<n])" "set (sort_by le [0..<n]) = {0..<n}" "length (sort_by le [0..<n]) = n"
proof -
  have m: "mset (sort_by le [0..<n]) = mset [0..<n]" by (rule mset_sort_by)
  show "set (sort_by le [0..<n]) = {0..<n}" using mset_eq_setD [OF m] by simp
  show "length (sort_by le [0..<n]) = n" using mset_eq_length [OF m] by simp
  show "distinct (sort_by le [0..<n])" using mset_eq_imp_distinct_iff [OF m] by simp
qed

text \<open>
  With at most one unit per position to hand out, the loop adds one to the positions it
  visits and nothing elsewhere.
\<close>

lemma length_hand_out [simp]: "length (hand_out r k order fs) = length fs"
  by (induction r k order fs rule: hand_out.induct) (auto simp: Let_def)

lemma hand_out_nth:
  assumes "distinct order" "set order \<subseteq> {0..<length fs}" "k + r \<le> length order" "i < length fs"
  shows "hand_out r k order fs ! i = fs ! i + (if i \<in> set (take r (drop k order)) then 1 else 0)"
  using assms
proof (induction r arbitrary: k fs)
  case (Suc r)
  define j where "j = order ! k"
  have k: "k < length order" using Suc.prems by simp
  have drop: "drop k order = j # drop (Suc k) order" using k by (simp add: j_def Cons_nth_drop_Suc)
  have j: "j < length fs" using k Suc.prems(2) by (auto simp: j_def dest: nth_mem)
  have notin: "j \<notin> set (take r (drop (Suc k) order))"
    using Suc.prems(1) drop by (metis distinct.simps(2) distinct_drop in_set_takeD)
  have "hand_out (Suc r) k order fs = hand_out r (Suc k) order (fs[j := fs ! j + 1])"
    using k by (simp add: j_def Let_def)
  with Suc.IH [of "fs[j := fs ! j + 1]" "Suc k"] Suc.prems j notin show ?case
    by (auto simp: drop nth_list_update)
qed simp

lemma hand_out_sum:
  assumes "set order \<subseteq> {0..<length fs}" "order \<noteq> []"
  shows "sum_list (hand_out r k order fs) = sum_list fs + int r"
  using assms
proof (induction r k order fs rule: hand_out.induct)
  case (2 r k order fs)
  then have "order ! (k mod length order) \<in> set order" by (intro nth_mem) simp
  then have "order ! (k mod length order) < length fs" using "2.prems"(1) by auto
  with 2 show ?case using sum_list_update_map [where f = id] by (simp add: Let_def)
qed simp

lemma valid_share_int:
  assumes "valid_share s"
  obtains b where "shareBps s = of_int b" "1 \<le> b" "b \<le> 10000"
proof
  from assms have i: "shareBps s = of_int \<lfloor>shareBps s\<rfloor>" and b: "0 < shareBps s" "shareBps s \<le> 10000"
    by (auto simp: valid_share_def Number_isInteger_def)
  show "shareBps s = of_int \<lfloor>shareBps s\<rfloor>" by (rule i)
  from b show "1 \<le> \<lfloor>shareBps s\<rfloor>" "\<lfloor>shareBps s\<rfloor> \<le> 10000" using i by linarith+
qed

definition bps :: "share_spec \<Rightarrow> int" where
  "bps s = \<lfloor>shareBps s\<rfloor>"

lemma valid_share_bps: "valid_share s \<Longrightarrow> shareBps s = of_int (bps s) \<and> 1 \<le> bps s \<and> bps s \<le> 10000"
  by (erule valid_share_int) (simp add: bps_def)

lemma total_bps_int: "list_all valid_share shares \<Longrightarrow> total_bps shares = of_int (\<Sum>s\<leftarrow>shares. bps s)"
  unfolding total_bps_def by (induction shares) (auto simp: valid_share_bps)

lemma total_bps_pos:
  "list_all valid_share shares \<Longrightarrow> shares \<noteq> [] \<Longrightarrow> 1 \<le> (\<Sum>s\<leftarrow>shares. bps s)"
  using sum_list_nonneg_map [of "tl shares" bps]
  by (cases shares) (force simp: list_all_iff dest: valid_share_bps)+

lemma validateShares_ok:
  "validateShares shares = Inr u \<longleftrightarrow>
     shares \<noteq> [] \<and> list_all valid_share shares \<and> (\<Sum>s\<leftarrow>shares. bps s) \<le> 10000"
  using total_bps_int [of shares] by (auto simp: validateShares_def)

text \<open>
  On amounts whose product with 10 000 stays below \<open>2 ^ 53\<close> the double quotas have the exact
  floors, so fewer centimes than beneficiaries remain and no beneficiary is served twice.
\<close>

definition quota :: "centimes \<Rightarrow> share_spec list \<Rightarrow> nat \<Rightarrow> int" where
  "quota totalCents shares i = totalCents * bps (shares ! i) div (\<Sum>s\<leftarrow>shares. bps s)"

lemma share_parts_floor:
  assumes "list_all valid_share shares" "0 \<le> totalCents" "totalCents * 10000 < 2 ^ 53" "i < length shares"
  shows "part_floor (share_parts totalCents shares ! i) = quota totalCents shares i"
proof -
  define b where "b = bps (shares ! i)"
  define B where "B = (\<Sum>s\<leftarrow>shares. bps s)"
  have v: "shareBps (shares ! i) = of_int b" "1 \<le> b" "b \<le> 10000"
    using valid_share_bps [of "shares ! i"] assms by (auto simp: b_def list_all_length)
  have B: "total_bps shares = of_int B" "1 \<le> B"
    using total_bps_int [OF assms(1)] total_bps_pos [OF assms(1)] assms(4)
    by (cases shares; simp add: B_def)+
  have "totalCents * b \<le> totalCents * 10000" using v assms(2) by (intro mult_left_mono) auto
  with assms(3) have lt: "totalCents * b < 2 ^ 53" by linarith
  have nn: "0 \<le> totalCents * b" using v assms(2) by simp
  have "js_mul (of_int totalCents) (of_int b) = of_int (totalCents * b)"
    using lt nn by (intro js_mul_int) simp
  moreover have "Math_floor (js_div (of_int (totalCents * b)) (of_int B)) = totalCents * b div B"
    using lt nn B(2) by (intro floor_quotient) auto
  ultimately show ?thesis
    using assms(4) by (simp add: share_parts_def Let_def v B quota_def b_def B_def)
qed

lemma length_share_parts [simp]: "length (share_parts n shares) = length shares"
  by (simp add: share_parts_def)

lemma share_parts_floors:
  assumes "list_all valid_share shares" "0 \<le> totalCents" "totalCents * 10000 < 2 ^ 53"
  shows "map part_floor (share_parts totalCents shares) = map (quota totalCents shares) [0..<length shares]"
  using share_parts_floor [OF assms] by (auto intro: nth_equalityI)

lemma quota_bounds:
  assumes "0 < (\<Sum>s\<leftarrow>shares. bps s)"
  shows "quota n shares i * (\<Sum>s\<leftarrow>shares. bps s) \<le> n * bps (shares ! i)"
    "n * bps (shares ! i) < (quota n shares i + 1) * (\<Sum>s\<leftarrow>shares. bps s)"
  using div_mult_le [OF assms, of "n * bps (shares ! i)"] div_mult_gt [OF assms, of "n * bps (shares ! i)"]
  by (simp_all only: quota_def)

lemma quota_sum_bounds:
  fixes n :: int and shares :: "share_spec list"
  assumes "0 < (\<Sum>s\<leftarrow>shares. bps s)"
  defines "Q \<equiv> sum_list (map (quota n shares) [0..<length shares])"
  shows "Q \<le> n \<and> n \<le> Q + int (length shares)"
proof -
  define B where "B = (\<Sum>s\<leftarrow>shares. bps s)"
  have pos: "0 < B" using assms(1) by (simp add: B_def)
  have sum: "(\<Sum>i\<leftarrow>[0..<length shares]. n * bps (shares ! i)) = n * B"
    unfolding B_def sum_list_const_mult [symmetric]
    by (subst (2) map_nth [of shares, symmetric]) (simp add: comp_def)
  have "(\<Sum>i\<leftarrow>[0..<length shares]. quota n shares i * B) \<le> n * B"
    unfolding sum [symmetric] using quota_bounds(1) [OF assms(1), folded B_def] by (intro sum_list_mono) auto
  then have "Q * B \<le> n * B" by (simp add: Q_def sum_list_mult_const)
  moreover have "n * B \<le> (\<Sum>i\<leftarrow>[0..<length shares]. (quota n shares i + 1) * B)"
    unfolding sum [symmetric]
    using quota_bounds(2) [OF assms(1), folded B_def] by (intro sum_list_mono) (auto intro: less_imp_le)
  then have "n * B \<le> (Q + int (length shares)) * B"
    by (simp add: Q_def sum_list_mult_const distrib_right sum_list_addf sum_list_triv)
  ultimately show ?thesis using pos by simp
qed

text \<open>The allocation in closed form: the quota, plus one for the beneficiaries served first.\<close>

definition served :: "(string \<Rightarrow> string \<Rightarrow> int) \<Rightarrow> centimes \<Rightarrow> share_spec list \<Rightarrow> nat list" where
  "served lc totalCents shares =
     (let parts = share_parts totalCents shares
      in take (nat (totalCents - sum_list (map part_floor parts)))
           (sort_by (\<lambda>i j. share_order lc (parts ! i) (parts ! j)) [0..<length parts]))"

lemma computeShares_closed:
  assumes "0 \<le> n" "n * 10000 < 2 ^ 53" "validateShares shares = Inr ()"
  shows "\<exists>as. computeShares lc n shares = Inr as \<and> length as = length shares \<and>
    (\<Sum>a\<leftarrow>as. alloc_amountCents a) = n \<and>
    (\<forall>i<length shares. as ! i = \<lparr>alloc_partyId = share_partyId (shares ! i),
       alloc_amountCents = quota n shares i + (if i \<in> set (served lc n shares) then 1 else 0)\<rparr>)"
proof -
  define parts where "parts = share_parts n shares"
  define fs where "fs = map part_floor parts"
  define order where "order = sort_by (\<lambda>i j. share_order lc (parts ! i) (parts ! j)) [0..<length parts]"
  define final where "final = hand_out (nat (n - sum_list fs)) 0 order fs"
  have v: "shares \<noteq> []" "list_all valid_share shares" using assms(3) by (auto simp: validateShares_ok)
  have len: "length parts = length shares" "length fs = length shares" by (simp_all add: parts_def fs_def)
  have fs: "fs = map (quota n shares) [0..<length shares]"
    unfolding fs_def parts_def by (rule share_parts_floors [OF v(2) assms(1,2)])
  have rem: "sum_list fs \<le> n" "n \<le> sum_list fs + int (length shares)"
    using quota_sum_bounds [of shares n] total_bps_pos [OF v(2,1)] by (simp_all add: fs)
  have order: "distinct order" "set order = {0..<length fs}" "length order = length fs"
    unfolding order_def len by (rule sort_by_indices)+
  have "order \<noteq> []" using order(3) len v(1) by auto
  then have sum: "sum_list final = n"
    unfolding final_def using hand_out_sum [of order fs] order rem by simp
  have nth: "final ! i = quota n shares i + (if i \<in> set (served lc n shares) then 1 else 0)"
    if "i < length shares" for i
    using hand_out_nth [of order fs 0 "nat (n - sum_list fs)" i] order rem that len
    unfolding final_def served_def Let_def order_def [symmetric] fs_def [symmetric] parts_def [symmetric]
    by (simp add: fs)
  define as where "as = map (\<lambda>(p, m). \<lparr>alloc_partyId = part_partyId p, alloc_amountCents = m\<rparr>) (zip parts final)"
  have "map alloc_amountCents as = final"
    by (rule nth_equalityI) (simp_all add: as_def final_def len)
  moreover have "computeShares lc n shares = Inr as"
    using assms(1,3) by (simp add: computeShares_def Let_def as_def final_def order_def fs_def parts_def)
  moreover have "part_partyId (parts ! i) = share_partyId (shares ! i)" if "i < length shares" for i
    using that by (simp add: parts_def share_parts_def Let_def)
  ultimately show ?thesis
    using sum nth by (intro exI [of _ as]) (auto simp: as_def len final_def)
qed

lemma split_closed:
  assumes "0 \<le> n" "n * 10000 < 2 ^ 53" "validateShares shares = Inr ()"
  shows "\<exists>as. computeShares lc (round_bps n (\<Sum>s\<leftarrow>shares. bps s)) shares = Inr as \<and>
    0 \<le> round_bps n (\<Sum>s\<leftarrow>shares. bps s) \<and> round_bps n (\<Sum>s\<leftarrow>shares. bps s) \<le> n \<and>
    (\<Sum>a\<leftarrow>as. alloc_amountCents a) = round_bps n (\<Sum>s\<leftarrow>shares. bps s) \<and>
    split lc n shares = Inr \<lparr>res_shares = as, res_platformCents = n - round_bps n (\<Sum>s\<leftarrow>shares. bps s)\<rparr>"
proof -
  define B where "B = (\<Sum>s\<leftarrow>shares. bps s)"
  from assms(3) have v: "shares \<noteq> []" "list_all valid_share shares" and B: "B \<le> 10000"
    by (auto simp: validateShares_ok B_def)
  have B0: "1 \<le> B" using total_bps_pos [OF v(2,1)] by (simp add: B_def)
  have r: "0 \<le> round_bps n B" "round_bps n B \<le> n"
    using assms(1) B B0 by (auto intro: round_bps_nonneg round_bps_le)
  have "n * B \<le> n * 10000" using assms(1) B by (intro mult_left_mono) auto
  then have "n * B < 2 ^ 53" "0 \<le> n * B" using assms(1,2) B0 by auto
  then have "Math_round (js_div (js_mul (of_int n) (of_int B)) 10000) = round_bps n B"
    using round_quotient [of "n * B" 10000] by (simp add: js_mul_int round_bps_def)
  moreover from computeShares_closed [OF r(1) _ assms(3)] obtain as
    where "computeShares lc (round_bps n B) shares = Inr as" "(\<Sum>a\<leftarrow>as. alloc_amountCents a) = round_bps n B"
    using r(2) assms(2) by fastforce
  ultimately show ?thesis
    using assms(1,3) r total_bps_int [OF v(2)]
    by (intro exI [of _ as]) (simp add: split_def platformShareCents_def B_def)
qed

lemma split_parts:
  assumes "0 \<le> n" "n * 10000 < 2 ^ 53" "validateShares shares = Inr ()"
  shows "\<exists>r. split lc n shares = Inr r \<and>
    (\<Sum>a\<leftarrow>res_shares r. alloc_amountCents a) + res_platformCents r = n \<and>
    0 \<le> res_platformCents r \<and> list_all (\<lambda>a. 0 \<le> alloc_amountCents a) (res_shares r) \<and>
    map alloc_partyId (res_shares r) = map share_partyId shares \<and>
    \<bar>10000 * of_int (\<Sum>a\<leftarrow>res_shares r. alloc_amountCents a) - of_int n * total_bps shares\<bar> \<le> 5000"
proof -
  define B where "B = (\<Sum>s\<leftarrow>shares. bps s)"
  obtain as where as: "computeShares lc (round_bps n B) shares = Inr as" "0 \<le> round_bps n B"
    "round_bps n B \<le> n" "(\<Sum>a\<leftarrow>as. alloc_amountCents a) = round_bps n B"
    "split lc n shares = Inr \<lparr>res_shares = as, res_platformCents = n - round_bps n B\<rparr>"
    using split_closed [OF assms, of lc] unfolding B_def by blast
  from assms(3) have v: "list_all valid_share shares" "shares \<noteq> []" by (auto simp: validateShares_ok)
  have B: "1 \<le> B" using total_bps_pos [OF v] by (simp add: B_def)
  obtain bs where bs: "computeShares lc (round_bps n B) shares = Inr bs" "length bs = length shares"
    "\<And>i. i < length shares \<Longrightarrow> bs ! i = \<lparr>alloc_partyId = share_partyId (shares ! i),
       alloc_amountCents = quota (round_bps n B) shares i
         + (if i \<in> set (served lc (round_bps n B) shares) then 1 else 0)\<rparr>"
    using computeShares_closed [OF as(2) _ assms(3), of lc] as(3) assms(2) by fastforce
  have "0 \<le> quota (round_bps n B) shares i" if "i < length shares" for i
    using that as(2) v B valid_share_bps [of "shares ! i"]
    by (simp add: quota_def B_def [symmetric] pos_imp_zdiv_nonneg_iff list_all_length)
  then have "list_all (\<lambda>a. 0 \<le> alloc_amountCents a) as" "map alloc_partyId as = map share_partyId shares"
    using as(1) bs by (auto simp: list_all_length intro: nth_equalityI)
  moreover have "\<bar>10000 * (of_int (round_bps n B) :: rat) - of_int n * of_int B\<bar> \<le> 5000"
    using round_bps_near [of n B]
    by (simp only: of_int_le_iff [where 'a = rat, symmetric] of_int_abs of_int_diff of_int_mult of_int_numeral)
  ultimately show ?thesis
    using as total_bps_int [OF v(1)] by (simp add: B_def)
qed

text \<open>Each beneficiary gets its part of the source, to a centime and a half.\<close>

lemma near_part:
  fixes n R B b q amt :: int
  assumes "0 < B" "0 \<le> b" "b \<le> B" "\<bar>10000 * R - n * B\<bar> \<le> 5000" "q * B \<le> R * b" "R * b < (q + 1) * B" "amt = q \<or> amt = q + 1"
  shows "\<bar>10000 * amt - n * b\<bar> \<le> 15000"
proof -
  define x where "x = amt * B - R * b"
  define y where "y = (10000 * R - n * B) * b"
  have "\<bar>x\<bar> \<le> B" using assms(5-7) by (auto simp: x_def algebra_simps)
  moreover have "\<bar>y\<bar> \<le> 5000 * b" unfolding y_def using mult_right_mono [OF assms(4,2)] assms(2) by (simp add: abs_mult)
  ultimately have "\<bar>10000 * x + y\<bar> \<le> 15000 * B" using assms(3) by arith
  moreover have "(10000 * amt - n * b) * B = 10000 * x + y" by (simp add: x_def y_def algebra_simps)
  ultimately have "\<bar>(10000 * amt - n * b) * B\<bar> \<le> 15000 * B" by simp
  then have "\<bar>10000 * amt - n * b\<bar> * B \<le> 15000 * B" using assms(1) by (simp add: abs_mult)
  then show ?thesis using assms(1) by (simp only: mult_le_cancel_right_pos)
qed

lemma split_each:
  assumes "0 \<le> n" "n * 10000 < 2 ^ 53" "validateShares shares = Inr ()" "split lc n shares = Inr r" "i < length shares"
  shows "\<bar>10000 * of_int (alloc_amountCents (res_shares r ! i)) - of_int n * shareBps (shares ! i)\<bar> \<le> 15000"
proof -
  define B where "B = (\<Sum>s\<leftarrow>shares. bps s)"
  from assms(3) have v: "list_all valid_share shares" "shares \<noteq> []" by (auto simp: validateShares_ok)
  have B: "0 < B" using total_bps_pos [OF v] by (simp add: B_def)
  have r: "computeShares lc (round_bps n B) shares = Inr (res_shares r)" "0 \<le> round_bps n B" "round_bps n B \<le> n"
    using split_closed [OF assms(1-3), of lc] assms(4) unfolding B_def by auto
  obtain as where as: "computeShares lc (round_bps n B) shares = Inr as"
    "\<And>i. i < length shares \<Longrightarrow> as ! i = \<lparr>alloc_partyId = share_partyId (shares ! i),
       alloc_amountCents = quota (round_bps n B) shares i + (if i \<in> set (served lc (round_bps n B) shares) then 1 else 0)\<rparr>"
    using computeShares_closed [OF r(2) _ assms(3), of lc] r(3) assms(2) by fastforce
  have b: "shareBps (shares ! i) = of_int (bps (shares ! i))" "1 \<le> bps (shares ! i)"
    using valid_share_bps [of "shares ! i"] v(1) assms(5) by (auto simp: list_all_length)
  have "bps (shares ! i) \<le> B"
    unfolding B_def using v(1) assms(5) valid_share_bps
    by (intro member_le_sum_list) (auto simp: list_all_iff, fastforce)
  then have "\<bar>10000 * alloc_amountCents (as ! i) - n * bps (shares ! i)\<bar> \<le> 15000"
    using as(2) [OF assms(5)] b(2) quota_bounds [of shares "round_bps n B" i] B round_bps_near [of n B]
    by (intro near_part [where B = B and R = "round_bps n B" and q = "quota (round_bps n B) shares i"]) (auto simp: B_def)
  then show ?thesis
    using as(1) r(1) b(1) by (simp only: of_int_le_iff [where 'a = rat, symmetric] of_int_abs of_int_diff of_int_mult of_int_numeral) simp
qed

section \<open>Properties\<close>

text \<open>
  C33. Largest remainder. For every validated share list and every amount below 900 billion
  centimes, \<open>computeShares\<close> returns one allocation per beneficiary, in order; the
  allocations add up to the amount, none is negative, and none is more than one centime away from the
  beneficiary's proportional part.
\<close>

theorem computeShares_exact:
  assumes "0 \<le> n" "n * 10000 < 2 ^ 53" "validateShares shares = Inr ()"
  shows "\<exists>as. computeShares lc n shares = Inr as \<and>
    map alloc_partyId as = map share_partyId shares \<and>
    (\<Sum>a\<leftarrow>as. alloc_amountCents a) = n \<and>
    (\<forall>i<length shares. 0 \<le> alloc_amountCents (as ! i) \<and>
       \<bar>of_int (alloc_amountCents (as ! i)) - of_int n * shareBps (shares ! i) / total_bps shares\<bar> \<le> 1)"
proof -
  define B where "B = (\<Sum>s\<leftarrow>shares. bps s)"
  from assms(3) have v: "shares \<noteq> []" "list_all valid_share shares" by (auto simp: validateShares_ok)
  have B: "0 < B" using total_bps_pos [OF v(2,1)] by (simp add: B_def)
  obtain as where as: "computeShares lc n shares = Inr as" "length as = length shares"
    "(\<Sum>a\<leftarrow>as. alloc_amountCents a) = n"
    "\<And>i. i < length shares \<Longrightarrow> as ! i = \<lparr>alloc_partyId = share_partyId (shares ! i),
       alloc_amountCents = quota n shares i + (if i \<in> set (served lc n shares) then 1 else 0)\<rparr>"
    using computeShares_closed [OF assms] by blast
  have "0 \<le> alloc_amountCents (as ! i) \<and>
      \<bar>of_int (alloc_amountCents (as ! i)) - of_int n * shareBps (shares ! i) / total_bps shares\<bar> \<le> 1"
    if i: "i < length shares" for i
  proof
    have b: "shareBps (shares ! i) = of_int (bps (shares ! i))" "1 \<le> bps (shares ! i)"
      using valid_share_bps [of "shares ! i"] v(2) i by (auto simp: list_all_length)
    have "0 \<le> quota n shares i" using assms(1) b B by (simp add: quota_def B_def pos_imp_zdiv_nonneg_iff)
    then show "0 \<le> alloc_amountCents (as ! i)" by (simp add: as(4) i)
    have q: "of_int (quota n shares i) \<le> of_int (n * bps (shares ! i)) / (of_int B :: rat)"
      "of_int (n * bps (shares ! i)) / of_int B < (of_int (quota n shares i + 1) :: rat)"
      using quota_bounds [of shares n i] B
      by (simp_all only: pos_le_divide_eq pos_divide_less_eq of_int_0_less_iff of_int_mult [symmetric]
          of_int_le_iff of_int_less_iff B_def)
    then show "\<bar>of_int (alloc_amountCents (as ! i)) - of_int n * shareBps (shares ! i) / total_bps shares\<bar> \<le> 1"
      by (simp add: as(4) i b total_bps_int [OF v(2)] B_def [symmetric])
  qed
  moreover have "map alloc_partyId as = map share_partyId shares"
    using as(2,4) by (auto intro: nth_equalityI)
  ultimately show ?thesis using as(1,3) by blast
qed

theorem computeShares_exact_witness:
  "\<exists>as. computeShares (\<lambda>a b. 0) 100
      [\<lparr>share_partyId = ''a'', shareBps = 3000\<rparr>, \<lparr>share_partyId = ''b'', shareBps = 3000\<rparr>,
       \<lparr>share_partyId = ''c'', shareBps = 3000\<rparr>] = Inr as \<and>
    (\<Sum>a\<leftarrow>as. alloc_amountCents a) = 100"
proof -
  have "validateShares [\<lparr>share_partyId = ''a'', shareBps = 3000\<rparr>, \<lparr>share_partyId = ''b'', shareBps = 3000\<rparr>,
       \<lparr>share_partyId = ''c'', shareBps = 3000\<rparr>] = Inr ()"
    by (simp add: validateShares_def valid_share_def total_bps_def Number_isInteger_def)
  from computeShares_exact [OF _ _ this, of 100 "\<lambda>a b. 0"] show ?thesis by auto
qed

text \<open>
  The split invariant. On validated shares \<open>split\<close> succeeds, and the
  beneficiaries' shares plus the platform's remainder are exactly the source amount, with no
  part negative; the beneficiaries together get the source times their total rate, rounded to the
  nearest centime.
\<close>

lemma split_conserves:
  assumes "0 \<le> n" "n * 10000 < 2 ^ 53" "validateShares shares = Inr ()"
  shows "\<exists>r. split lc n shares = Inr r \<and>
    (\<Sum>a\<leftarrow>res_shares r. alloc_amountCents a) + res_platformCents r = n \<and>
    0 \<le> res_platformCents r \<and> list_all (\<lambda>a. 0 \<le> alloc_amountCents a) (res_shares r) \<and>
    map alloc_partyId (res_shares r) = map share_partyId shares \<and>
    \<bar>10000 * of_int (\<Sum>a\<leftarrow>res_shares r. alloc_amountCents a) - of_int n * total_bps shares\<bar> \<le> 5000"
  by (rule split_parts [OF assms])

end
