(* ===== verification/SplitsDb.thy ===== *)
theory SplitsDb
  imports Splits
begin

text \<open>
  \<open>src/lib/splits-db.ts\<close>: beneficiaries, split rules, the execution of a split (one ledger
  posting and one \<open>Split\<close> row per beneficiary, then the platform's remainder) and the release
  of a held share. A throw anywhere inside \<open>$transaction\<close> discards the state.
\<close>

section \<open>Split parties and rules\<close>

definition createSplitParty ::
  "env \<Rightarrow> string \<Rightarrow> string \<Rightarrow> split_party_type option \<Rightarrow> db \<Rightarrow> (split_party \<times> db) result" where
  "createSplitParty e tenantId slug type d =
     (if \<exists>p\<in>set (splitParties d). pt_tenantId p = tenantId \<and> pt_slug p = slug then Inl (JsError ''P2002'')
      else let row = \<lparr>pt_id = fresh e d, pt_tenantId = tenantId, pt_slug = slug,
                      pt_type = coalesce type SUB_MERCHANT, pt_isActive = True\<rparr>
           in Inr (row, (bump d)\<lparr>splitParties := splitParties d @ [row]\<rparr>))"

definition getSplitParty :: "db \<Rightarrow> string \<Rightarrow> string \<Rightarrow> split_party option" where
  "getSplitParty d tenantId rid = find (\<lambda>p. pt_id p = rid \<and> pt_tenantId p = tenantId) (splitParties d)"

definition deactivateSplitParty :: "string \<Rightarrow> string \<Rightarrow> db \<Rightarrow> db result" where
  "deactivateSplitParty tenantId rid d =
     (case find (\<lambda>p. pt_id p = rid \<and> pt_tenantId p = tenantId) (splitParties d) of
        None \<Rightarrow> Inl (SplitError ''split party not found'')
      | Some _ \<Rightarrow> Inr (d\<lparr>splitParties :=
            map (\<lambda>p. if pt_id p = rid then p\<lparr>pt_isActive := False\<rparr> else p) (splitParties d)\<rparr>))"

definition createSplitRule ::
  "env \<Rightarrow> string \<Rightarrow> string \<Rightarrow> split_trigger option \<Rightarrow> share_spec list \<Rightarrow> db \<Rightarrow> (split_rule \<times> db) result" where
  "createSplitRule e tenantId name trigger shares d =
     ebind (validateShares shares) (\<lambda>_.
       let row = \<lparr>sr_id = fresh e d, sr_tenantId = tenantId, sr_name = name,
                  sr_trigger = coalesce trigger AT_CAPTURE, sr_shares = shares,
                  sr_isActive = True, sr_createdAt = now e\<rparr>
       in Inr (row, (bump d)\<lparr>splitRules := splitRules d @ [row]\<rparr>))"

definition getSplitRule :: "db \<Rightarrow> string \<Rightarrow> string \<Rightarrow> split_rule option" where
  "getSplitRule d tenantId rid = find (\<lambda>r. sr_id r = rid \<and> sr_tenantId r = tenantId) (splitRules d)"

definition deactivateSplitRule :: "string \<Rightarrow> string \<Rightarrow> db \<Rightarrow> db result" where
  "deactivateSplitRule tenantId rid d =
     (case find (\<lambda>r. sr_id r = rid \<and> sr_tenantId r = tenantId) (splitRules d) of
        None \<Rightarrow> Inl (SplitError ''split rule not found'')
      | Some _ \<Rightarrow> Inr (d\<lparr>splitRules :=
            map (\<lambda>r. if sr_id r = rid then r\<lparr>sr_isActive := False\<rparr> else r) (splitRules d)\<rparr>))"

section \<open>Execution\<close>

record execute_split_input =
  xs_sourceType :: string
  xs_sourceId :: string
  xs_sourceCents :: centimes
  xs_currency :: "currency option"
  xs_splitRuleId :: "string option"
  xs_trigger :: "split_trigger option"
  xs_shares :: "share_spec list option"
  xs_held :: "bool option"
  xs_heldUntil :: "int option"

definition resolveSplitRule ::
  "db \<Rightarrow> string \<Rightarrow> execute_split_input \<Rightarrow> (split_trigger \<times> share_spec list) result" where
  "resolveSplitRule d tenantId input =
     (case xs_splitRuleId input of
        Some (c # cs) \<Rightarrow>
          (case find (\<lambda>r. sr_id r = c # cs \<and> sr_tenantId r = tenantId) (splitRules d) of
             None \<Rightarrow> Inl (SplitError ''split rule not found'')
           | Some rule \<Rightarrow> Inr (sr_trigger rule, sr_shares rule))
      | _ \<Rightarrow> Inr (coalesce (xs_trigger input) AT_CAPTURE, coalesce (xs_shares input) []))"

definition split_legs ::
  "ledger_account \<Rightarrow> ledger_account \<Rightarrow> currency \<Rightarrow> share_allocation \<Rightarrow> ledger_leg \<times> ledger_leg" where
  "split_legs sourceAccount beneficiaryAccount c a =
     (debit sourceAccount (alloc_amountCents a) SPLIT None c,
      credit beneficiaryAccount (alloc_amountCents a) SPLIT (Some (alloc_partyId a)) c)"

text \<open>The foreign keys \<open>LedgerEntry.partyId\<close> and \<open>Split.partyId\<close>: the party exists, in whichever tenant.
  An empty \<open>splitRuleId\<close> names no rule when the shares are resolved, and violates the key \<open>Split.splitRuleId\<close> when the row is written.\<close>

definition known_party :: "db \<Rightarrow> string \<Rightarrow> bool" where
  "known_party d i \<longleftrightarrow> list_ex (\<lambda>p. pt_id p = i) (splitParties d)"

definition split_allocation ::
  "env \<Rightarrow> string \<Rightarrow> execute_split_input \<Rightarrow> ledger_account \<Rightarrow> bool \<Rightarrow> currency \<Rightarrow> share_allocation
    \<Rightarrow> split_row list \<times> db \<Rightarrow> (split_row list \<times> db) result" where
  "split_allocation e tenantId input sourceAccount held c a s =
     ebind (move e tenantId (Some (xs_sourceType input)) (Some (xs_sourceId input))
             (split_legs sourceAccount (if held then RESERVE else AVAILABLE) c a) (snd s)) (\<lambda>d.
     if \<not> known_party d (alloc_partyId a) \<or> xs_splitRuleId input = Some '''' then Inl (JsError ''P2003'')
     else
       let row = \<lparr>sl_id = fresh e d, sl_tenantId = tenantId, sl_splitRuleId = xs_splitRuleId input,
                  sl_sourceType = xs_sourceType input, sl_sourceId = xs_sourceId input,
                  sl_partyId = alloc_partyId a, sl_amount = alloc_amountCents a, sl_currency = c,
                  sl_status = (if held then SPLIT_PENDING else SPLIT_SETTLED),
                  sl_heldUntil = (if held then xs_heldUntil input else None)\<rparr>
       in Inr (fst s @ [row], (bump d)\<lparr>splits := splits d @ [row]\<rparr>))"

definition executeSplitInTx ::
  "(string \<Rightarrow> string \<Rightarrow> int) \<Rightarrow> env \<Rightarrow> string \<Rightarrow> execute_split_input \<Rightarrow> split_trigger \<Rightarrow> share_spec list
    \<Rightarrow> db \<Rightarrow> (split_row list \<times> db) result" where
  "executeSplitInTx lc e tenantId input trigger shares d =
     ebind (split lc (xs_sourceCents input) shares) (\<lambda>result.
       let sourceAccount = sourceAccountFor trigger;
           held = coalesce (xs_held input) False;
           c = coalesce (xs_currency input) MAD
       in ebind (efold (split_allocation e tenantId input sourceAccount held c) (res_shares result) ([], d)) (\<lambda>(created, d1).
            if trigger = AT_CAPTURE \<and> res_platformCents result > 0
            then ebind (move e tenantId (Some (xs_sourceType input)) (Some (xs_sourceId input))
                   (debit sourceAccount (res_platformCents result) SPLIT None c,
                    credit AVAILABLE (res_platformCents result) SPLIT None c) d1)
                   (\<lambda>d2. Inr (created, d2))
            else Inr (created, d1)))"

definition executeSplit ::
  "(string \<Rightarrow> string \<Rightarrow> int) \<Rightarrow> env \<Rightarrow> string \<Rightarrow> execute_split_input \<Rightarrow> db \<Rightarrow> (split_row list \<times> db) result" where
  "executeSplit lc e tenantId input d =
     ebind (resolveSplitRule d tenantId input) (\<lambda>(trigger, shares).
       executeSplitInTx lc e tenantId input trigger shares d)"

section \<open>Release\<close>

definition getSplit :: "db \<Rightarrow> string \<Rightarrow> string \<Rightarrow> split_row option" where
  "getSplit d tenantId rid = find (\<lambda>s. sl_id s = rid \<and> sl_tenantId s = tenantId) (splits d)"

definition releaseSplit :: "env \<Rightarrow> string \<Rightarrow> string \<Rightarrow> db \<Rightarrow> db result" where
  "releaseSplit e tenantId rid d =
     (case find (\<lambda>s. sl_id s = rid \<and> sl_tenantId s = tenantId) (splits d) of
        None \<Rightarrow> Inl (SplitError ''split not found'')
      | Some existing \<Rightarrow>
          ebind (split_assertTransition (sl_status existing) SPLIT_SETTLED) (\<lambda>_.
            let c = sl_currency existing; amount = sl_amount existing
            in ebind (move e tenantId (Some ''split'') (Some rid)
                   (debit RESERVE amount RESERVE_RELEASE (Some (sl_partyId existing)) c,
                    credit AVAILABLE amount RESERVE_RELEASE (Some (sl_partyId existing)) c) d) (\<lambda>d1.
                 Inr (d1\<lparr>splits := map (\<lambda>s. if sl_id s = rid
                        then s\<lparr>sl_status := SPLIT_SETTLED, sl_heldUntil := None\<rparr> else s) (splits d1)\<rparr>))))"

text \<open>
  The advisory lock of the tenant is taken by the posting, after the status was read. So a release is two steps, the read and the
  rest, and other requests may come between them; \<open>releaseSplit\<close> is a release that nothing interrupts.
\<close>

definition releaseSplit_read :: "string \<Rightarrow> string \<Rightarrow> db \<Rightarrow> split_row result" where
  "releaseSplit_read tenantId rid d =
     (case find (\<lambda>s. sl_id s = rid \<and> sl_tenantId s = tenantId) (splits d) of
        None \<Rightarrow> Inl (SplitError ''split not found'')
      | Some existing \<Rightarrow> ebind (split_assertTransition (sl_status existing) SPLIT_SETTLED) (\<lambda>_. Inr existing))"

definition releaseSplit_write :: "env \<Rightarrow> string \<Rightarrow> string \<Rightarrow> split_row \<Rightarrow> db \<Rightarrow> db result" where
  "releaseSplit_write e tenantId rid existing d =
     (let c = sl_currency existing; amount = sl_amount existing
      in ebind (move e tenantId (Some ''split'') (Some rid)
             (debit RESERVE amount RESERVE_RELEASE (Some (sl_partyId existing)) c,
              credit AVAILABLE amount RESERVE_RELEASE (Some (sl_partyId existing)) c) d) (\<lambda>d1.
           Inr (d1\<lparr>splits := map (\<lambda>s. if sl_id s = rid
                  then s\<lparr>sl_status := SPLIT_SETTLED, sl_heldUntil := None\<rparr> else s) (splits d1)\<rparr>)))"

section \<open>Lemmas\<close>

lemma split_legs_fields [simp]:
  "fst (split_legs a b c x) = debit a (alloc_amountCents x) SPLIT None c"
  "snd (split_legs a b c x) = credit b (alloc_amountCents x) SPLIT (Some (alloc_partyId x)) c"
  by (simp_all add: split_legs_def)

lemma balanceOf_split_legs:
  assumes "a \<noteq> b"
  shows "balanceOf (pair_legs (map (split_legs a b c) xs)) x c' =
    (if c' \<noteq> c then 0
     else (if x = b then (\<Sum>y\<leftarrow>xs. alloc_amountCents y) else 0)
        - (if x = a then (\<Sum>y\<leftarrow>xs. alloc_amountCents y) else 0))"
  using assms by (induction xs) auto

lemma balanceOf_split_legs_same: "balanceOf (pair_legs (map (split_legs a a c) xs)) x c' = 0"
  by (induction xs) auto

lemma balanceOf_split_legs_any:
  "balanceOf (pair_legs (map (split_legs a b c) xs)) x c' =
    (if c' \<noteq> c then 0
     else (if x = b then (\<Sum>y\<leftarrow>xs. alloc_amountCents y) else 0)
        - (if x = a then (\<Sum>y\<leftarrow>xs. alloc_amountCents y) else 0))"
  by (cases "a = b") (auto simp: balanceOf_split_legs balanceOf_split_legs_same)

text \<open>The allocation loop: one posting and one row per allocation.\<close>

definition split_created :: "bool \<Rightarrow> share_allocation list \<Rightarrow> split_row list \<Rightarrow> bool" where
  "split_created held xs rows \<longleftrightarrow>
     map (\<lambda>r. (sl_partyId r, sl_amount r)) rows = map (\<lambda>a. (alloc_partyId a, alloc_amountCents a)) xs \<and>
     (\<forall>r\<in>set rows. sl_status r = (if held then SPLIT_PENDING else SPLIT_SETTLED))"

text \<open>The database without what a split may change.\<close>

abbreviation but_splits :: "db \<Rightarrow> db" where
  "but_splits d \<equiv> d\<lparr>seq := 0, ledgerEntries := [], splits := []\<rparr>"

lemma split_allocation_step:
  assumes "split_allocation e t input a held c x (cr, d) = Inr (cr', d')"
  shows "\<exists>row. cr' = cr @ [row] \<and> splits d' = splits d @ [row] \<and> split_created held [x] [row] \<and> sl_tenantId row = t \<and>
    booked t (Some (xs_sourceType input)) (Some (xs_sourceId input)) (pair_legs [split_legs a (if held then RESERVE else AVAILABLE) c x]) d d' \<and>
    but_splits d' = but_splits d"
proof -
  from assms obtain d1 where m: "move e t (Some (xs_sourceType input)) (Some (xs_sourceId input))
      (split_legs a (if held then RESERVE else AVAILABLE) c x) d = Inr d1"
    by (auto simp: split_allocation_def)
  from move_frame [OF m] have sp: "splits d1 = splits d" by auto
  from booked_move [OF m] have "booked t (Some (xs_sourceType input)) (Some (xs_sourceId input)) (pair_legs [split_legs a (if held then RESERVE else AVAILABLE) c x]) d d1"
    by simp
  from booked_then [OF this, of d'] move_frame [OF m] assms m sp show ?thesis
    by (auto simp: split_allocation_def Let_def split_created_def bump_def split: if_splits)
qed

lemma split_loop:
  assumes "efold (split_allocation e t input a held c) xs (cr, d) = Inr (cr', d')"
  shows "\<exists>rows. cr' = cr @ rows \<and> splits d' = splits d @ rows \<and> split_created held xs rows \<and>
    (\<forall>r\<in>set rows. sl_tenantId r = t) \<and>
    booked t (Some (xs_sourceType input)) (Some (xs_sourceId input)) (pair_legs (map (split_legs a (if held then RESERVE else AVAILABLE) c) xs)) d d' \<and>
    but_splits d' = but_splits d"
  using assms
proof (induction xs arbitrary: cr d)
  case Nil
  then show ?case
    by (auto simp: split_created_def booked_none)
next
  case (Cons x xs)
  then obtain cr1 d1 where 1: "split_allocation e t input a held c x (cr, d) = Inr (cr1, d1)"
    and 2: "efold (split_allocation e t input a held c) xs (cr1, d1) = Inr (cr', d')" by auto
  from split_allocation_step [OF 1] obtain row where row: "cr1 = cr @ [row]" "splits d1 = splits d @ [row]"
    "split_created held [x] [row]" "sl_tenantId row = t"
    "booked t (Some (xs_sourceType input)) (Some (xs_sourceId input)) (pair_legs [split_legs a (if held then RESERVE else AVAILABLE) c x]) d d1"
    "but_splits d1 = but_splits d" by blast
  from Cons.IH [OF 2] obtain rows where rows: "cr' = cr1 @ rows" "splits d' = splits d1 @ rows"
    "split_created held xs rows" "\<forall>r\<in>set rows. sl_tenantId r = t"
    "booked t (Some (xs_sourceType input)) (Some (xs_sourceId input)) (pair_legs (map (split_legs a (if held then RESERVE else AVAILABLE) c) xs)) d1 d'"
    "but_splits d' = but_splits d1" by blast
  from booked_trans [OF row(5) rows(5)] row(6) rows(6) show ?case
    using row(1-4) rows(1-4) by (intro exI [of _ "row # rows"]) (auto simp: split_created_def)
qed

lemma split_move_ok:
  assumes "0 \<le> alloc_amountCents x"
  shows "\<exists>d1. move e t st si (split_legs a b c x) d = Inr d1"
  using assms moves_ok [of "[split_legs a b c x]" st si] by (auto simp: moves_def to_posting_def split_legs_def)

lemma split_loop_ok:
  assumes "\<forall>x\<in>set xs. 0 \<le> alloc_amountCents x \<and> known_party (snd cd) (alloc_partyId x)" "xs_splitRuleId input \<noteq> Some ''''"
  shows "\<exists>s. efold (split_allocation e t input a held c) xs cd = Inr s"
  using assms(1)
proof (induction xs arbitrary: cd)
  case (Cons x xs)
  obtain d1 where m: "move e t (Some (xs_sourceType input)) (Some (xs_sourceId input))
      (split_legs a (if held then RESERVE else AVAILABLE) c x) (snd cd) = Inr d1"
    using split_move_ok [of x e t "Some (xs_sourceType input)" "Some (xs_sourceId input)" a "if held then RESERVE else AVAILABLE" c "snd cd"] Cons.prems by force
  from move_frame [OF m] have same: "splitParties d1 = splitParties (snd cd)" by auto
  with m Cons.prems obtain s1 where s1: "split_allocation e t input a held c x cd = Inr s1" "splitParties (snd s1) = splitParties (snd cd)"
    using assms(2) by (auto simp: split_allocation_def Let_def known_party_def bump_def)
  then show ?case using Cons by (simp add: known_party_def)
qed simp

lemma split_loop_unknown:
  assumes "\<forall>x\<in>set xs. 0 \<le> alloc_amountCents x" "\<exists>x\<in>set xs. \<not> known_party (snd cd) (alloc_partyId x)"
  shows "efold (split_allocation e t input a held c) xs cd = Inl (JsError ''P2003'')"
  using assms
proof (induction xs arbitrary: cd)
  case (Cons x xs)
  obtain d1 where m: "move e t (Some (xs_sourceType input)) (Some (xs_sourceId input))
      (split_legs a (if held then RESERVE else AVAILABLE) c x) (snd cd) = Inr d1"
    using split_move_ok [of x e t "Some (xs_sourceType input)" "Some (xs_sourceId input)" a "if held then RESERVE else AVAILABLE" c "snd cd"] Cons.prems(1) by force
  from move_frame [OF m] have same: "splitParties d1 = splitParties (snd cd)" by auto
  show ?case
  proof (cases "known_party (snd cd) (alloc_partyId x) \<and> xs_splitRuleId input \<noteq> Some ''''")
    case True
    with m same obtain s1 where "split_allocation e t input a held c x cd = Inr s1" "splitParties (snd s1) = splitParties (snd cd)"
      by (auto simp: split_allocation_def Let_def known_party_def bump_def)
    then show ?thesis using Cons True by (auto simp: known_party_def)
  next
    case False
    with m same show ?thesis by (auto simp: split_allocation_def known_party_def)
  qed
qed simp

definition remainder_legs :: "split_trigger \<Rightarrow> currency \<Rightarrow> centimes \<Rightarrow> ledger_leg list" where
  "remainder_legs trigger c platform =
     (if trigger = AT_CAPTURE \<and> platform > 0
      then [debit (sourceAccountFor trigger) platform SPLIT None c, credit AVAILABLE platform SPLIT None c]
      else [])"

lemma executeSplitInTx_effect:
  assumes "executeSplitInTx lc e t input trigger shares d = Inr (rows, d')"
  defines "held \<equiv> coalesce (xs_held input) False" and "c \<equiv> coalesce (xs_currency input) MAD"
  shows "\<exists>r. split lc (xs_sourceCents input) shares = Inr r \<and> splits d' = splits d @ rows \<and>
    split_created held (res_shares r) rows \<and> (\<forall>x\<in>set rows. sl_tenantId x = t) \<and>
    booked t (Some (xs_sourceType input)) (Some (xs_sourceId input))
      (pair_legs (map (split_legs (sourceAccountFor trigger) (if held then RESERVE else AVAILABLE) c) (res_shares r))
         @ remainder_legs trigger c (res_platformCents r)) d d' \<and>
    but_splits d' = but_splits d"
proof -
  from assms(1) obtain r d1 where r: "split lc (xs_sourceCents input) shares = Inr r"
    and loop: "efold (split_allocation e t input (sourceAccountFor trigger) held c) (res_shares r) ([], d) = Inr (rows, d1)"
    and last: "d' = d1 \<and> \<not> (trigger = AT_CAPTURE \<and> res_platformCents r > 0) \<or>
      (trigger = AT_CAPTURE \<and> res_platformCents r > 0) \<and>
      move e t (Some (xs_sourceType input)) (Some (xs_sourceId input))
        (debit (sourceAccountFor trigger) (res_platformCents r) SPLIT None c,
         credit AVAILABLE (res_platformCents r) SPLIT None c) d1 = Inr d'"
    unfolding executeSplitInTx_def Let_def held_def [symmetric] c_def [symmetric]
    by (fastforce split: if_splits)
  from split_loop [OF loop] have l: "splits d1 = splits d @ rows" "split_created held (res_shares r) rows"
    "\<forall>x\<in>set rows. sl_tenantId x = t"
    "booked t (Some (xs_sourceType input)) (Some (xs_sourceId input)) (pair_legs (map (split_legs (sourceAccountFor trigger) (if held then RESERVE else AVAILABLE) c)
       (res_shares r))) d d1" "but_splits d1 = but_splits d" by auto
  from last have m: "booked t (Some (xs_sourceType input)) (Some (xs_sourceId input)) (remainder_legs trigger c (res_platformCents r)) d1 d'"
    "splits d' = splits d1" "but_splits d' = but_splits d1"
    by (auto simp: remainder_legs_def booked_none dest: booked_move move_frame)
  from booked_trans [OF l(4) m(1)] r l m show ?thesis by auto
qed

lemma executeSplitInTx_grows: "executeSplitInTx lc e t input trigger shares d = Inr (rows, d') \<Longrightarrow> grows d d'"
  by (drule executeSplitInTx_effect) (blast intro: grows_booked)

lemma executeSplitInTx_ok:
  assumes "validateShares shares = Inr ()" "0 \<le> xs_sourceCents input" "xs_sourceCents input * 10000 < 2 ^ 53"
    "\<forall>s\<in>set shares. known_party d (share_partyId s)" "xs_splitRuleId input \<noteq> Some ''''"
  shows "\<exists>rows d'. executeSplitInTx lc e t input trigger shares d = Inr (rows, d')"
proof -
  from split_parts [OF assms(2,3,1)] obtain r where r: "split lc (xs_sourceCents input) shares = Inr r"
    and nn: "list_all (\<lambda>a. 0 \<le> alloc_amountCents a) (res_shares r)" "map alloc_partyId (res_shares r) = map share_partyId shares" by blast
  from nn(2) have "alloc_partyId ` set (res_shares r) = share_partyId ` set shares" by (metis set_map)
  with assms(4) have known: "\<forall>a\<in>set (res_shares r). known_party d (alloc_partyId a)" by (metis (no_types, lifting) image_iff)
  define held where "held = coalesce (xs_held input) False"
  define c where "c = coalesce (xs_currency input) MAD"
  from nn(1) known obtain rows d1 where loop: "efold (split_allocation e t input (sourceAccountFor trigger) held c)
      (res_shares r) ([], d) = Inr (rows, d1)"
    using split_loop_ok [of "res_shares r" "([], d)" input e t _ held c] assms(5) by (force simp: list_all_iff)
  have "\<exists>d2. move e t (Some (xs_sourceType input)) (Some (xs_sourceId input))
      (debit (sourceAccountFor trigger) (res_platformCents r) SPLIT None c,
       credit AVAILABLE (res_platformCents r) SPLIT None c) d1 = Inr d2"
    if "trigger = AT_CAPTURE" "res_platformCents r > 0"
    using that moves_ok [of "[(debit (sourceAccountFor trigger) (res_platformCents r) SPLIT None c,
       credit AVAILABLE (res_platformCents r) SPLIT None c)]" "Some (xs_sourceType input)" "Some (xs_sourceId input)" e t d1]
    by (simp add: moves_def to_posting_def sourceAccountFor_def)
  with r loop show ?thesis
    unfolding executeSplitInTx_def Let_def held_def [symmetric] c_def [symmetric] by auto
qed

lemma executeSplitInTx_unknown:
  assumes "validateShares shares = Inr ()" "0 \<le> xs_sourceCents input" "xs_sourceCents input * 10000 < 2 ^ 53"
    "\<not> (\<forall>s\<in>set shares. known_party d (share_partyId s))"
  shows "executeSplitInTx lc e t input trigger shares d = Inl (JsError ''P2003'')"
proof -
  from split_parts [OF assms(2,3,1)] obtain r where r: "split lc (xs_sourceCents input) shares = Inr r"
    and nn: "list_all (\<lambda>a. 0 \<le> alloc_amountCents a) (res_shares r)" "map alloc_partyId (res_shares r) = map share_partyId shares" by blast
  from nn(2) have "alloc_partyId ` set (res_shares r) = share_partyId ` set shares" by (metis set_map)
  with assms(4) have "\<exists>a\<in>set (res_shares r). \<not> known_party (snd ([] :: split_row list, d)) (alloc_partyId a)"
    by (metis (no_types, lifting) image_iff snd_conv)
  with r nn(1) show ?thesis by (simp add: executeSplitInTx_def Let_def split_loop_unknown list_all_iff)
qed

lemma split_created_nth:
  assumes "split_created held xs rows" "i < length xs"
  shows "sl_amount (rows ! i) = alloc_amountCents (xs ! i)"
proof -
  from assms(1) have eq: "map (\<lambda>r. (sl_partyId r, sl_amount r)) rows = map (\<lambda>a. (alloc_partyId a, alloc_amountCents a)) xs"
    by (simp add: split_created_def)
  have len: "length rows = length xs" using arg_cong [OF eq, of length] by simp
  have "map (\<lambda>r. (sl_partyId r, sl_amount r)) rows ! i = map (\<lambda>a. (alloc_partyId a, alloc_amountCents a)) xs ! i" by (simp only: eq)
  then show ?thesis using len assms(2) by simp
qed

lemma split_created_sum:
  "split_created held xs rows \<Longrightarrow> (\<Sum>r\<leftarrow>rows. sl_amount r) = (\<Sum>a\<leftarrow>xs. alloc_amountCents a)"
proof -
  assume "split_created held xs rows"
  then have "map snd (map (\<lambda>r. (sl_partyId r, sl_amount r)) rows)
    = map snd (map (\<lambda>a. (alloc_partyId a, alloc_amountCents a)) xs)" by (simp only: split_created_def)
  then show ?thesis by (simp add: comp_def)
qed

lemma split_created_parties: "split_created held xs rows \<Longrightarrow> map sl_partyId rows = map alloc_partyId xs"
proof -
  assume "split_created held xs rows"
  then have "map fst (map (\<lambda>r. (sl_partyId r, sl_amount r)) rows)
    = map fst (map (\<lambda>a. (alloc_partyId a, alloc_amountCents a)) xs)" by (simp only: split_created_def)
  then show ?thesis by (simp add: comp_def)
qed

section \<open>Properties\<close>

text \<open>
  C32. Execution of a split. With valid shares of parties that exist, an amount in range and no empty text as the rule \<open>executeSplit\<close> succeeds. It
  writes one \<open>Split\<close> row per beneficiary with the share's part of the source, to within a centime and a half, and together the
  parts are the source times the total rate, rounded; each part moves from the
  trigger's source account to AVAILABLE (or RESERVE when held), the platform's remainder
  from COLLECTED to AVAILABLE for AT_CAPTURE only; every tenant's ledger stays balanced and the other
  tenants' ledgers are left alone. With a share of a party that does not exist nothing is booked.
\<close>

theorem executeSplit_correct:
  assumes "resolveSplitRule d t input = Inr (trigger, shares)" "validateShares shares = Inr ()"
    "0 \<le> xs_sourceCents input" "xs_sourceCents input * 10000 < 2 ^ 53" "xs_splitRuleId input \<noteq> Some ''''"
  defines "held \<equiv> coalesce (xs_held input) False" and "c \<equiv> coalesce (xs_currency input) MAD"
  shows "if \<forall>s\<in>set shares. known_party d (share_partyId s)
    then \<exists>rows d'. executeSplit lc e t input d = Inr (rows, d') \<and> splits d' = splits d @ rows \<and>
      map sl_partyId rows = map share_partyId shares \<and>
      (\<forall>i<length shares. 0 \<le> sl_amount (rows ! i) \<and>
         \<bar>10000 * of_int (sl_amount (rows ! i)) - of_int (xs_sourceCents input) * shareBps (shares ! i)\<bar> \<le> 15000) \<and>
      (let total = (\<Sum>r\<leftarrow>rows. sl_amount r); platform = xs_sourceCents input - total
       in 0 \<le> platform \<and> \<bar>10000 * of_int total - of_int (xs_sourceCents input) * total_bps shares\<bar> \<le> 5000 \<and>
          (\<forall>a. accountBalanceCents d' t a c = accountBalanceCents d t a c
             - (if a = sourceAccountFor trigger then total + (if trigger = AT_CAPTURE then platform else 0) else 0)
             + (if a = (if held then RESERVE else AVAILABLE) then total else 0)
             + (if a = AVAILABLE \<and> trigger = AT_CAPTURE then platform else 0))) \<and>
      (\<forall>u. isBalanced (tenant_legs u d) \<longrightarrow> isBalanced (tenant_legs u d')) \<and>
      (\<forall>u. u \<noteq> t \<longrightarrow> tenant_legs u d' = tenant_legs u d)
    else executeSplit lc e t input d = Inl (JsError ''P2003'')"
proof (cases "\<forall>s\<in>set shares. known_party d (share_partyId s)")
  case True
  obtain rows d' where run: "executeSplitInTx lc e t input trigger shares d = Inr (rows, d')"
    using executeSplitInTx_ok [OF assms(2,3,4) True assms(5)] by blast
  obtain r where r: "split lc (xs_sourceCents input) shares = Inr r" "splits d' = splits d @ rows"
    "split_created held (res_shares r) rows"
    "ledger_effect t
      (pair_legs (map (split_legs (sourceAccountFor trigger) (if held then RESERVE else AVAILABLE) c) (res_shares r))
         @ remainder_legs trigger c (res_platformCents r)) d d'"
    using executeSplitInTx_effect [OF run] booked_effect unfolding held_def c_def by blast
  from split_parts [OF assms(3,4,2), of lc] r(1)
  have p: "(\<Sum>a\<leftarrow>res_shares r. alloc_amountCents a) + res_platformCents r = xs_sourceCents input"
    "0 \<le> res_platformCents r" "map alloc_partyId (res_shares r) = map share_partyId shares"
    "list_all (\<lambda>a. 0 \<le> alloc_amountCents a) (res_shares r)"
    "\<bar>10000 * of_int (\<Sum>a\<leftarrow>res_shares r. alloc_amountCents a) - of_int (xs_sourceCents input) * total_bps shares\<bar> \<le> 5000" by auto
  have total: "(\<Sum>x\<leftarrow>rows. sl_amount x) = (\<Sum>a\<leftarrow>res_shares r. alloc_amountCents a)"
    by (rule split_created_sum [OF r(3)])
  have platform: "res_platformCents r = xs_sourceCents input - (\<Sum>x\<leftarrow>rows. sl_amount x)"
    using p(1) total by linarith
  have len: "length (res_shares r) = length shares" using p(3) by (metis length_map)
  have each: "0 \<le> sl_amount (rows ! i) \<and>
      \<bar>10000 * of_int (sl_amount (rows ! i)) - of_int (xs_sourceCents input) * shareBps (shares ! i)\<bar> \<le> 15000" if "i < length shares" for i
    using split_created_nth [OF r(3)] split_each [OF assms(3,4,2) r(1) that] p(4) that len by (simp add: list_all_length)
  have "executeSplit lc e t input d = Inr (rows, d')" using assms(1) run by (simp add: executeSplit_def)
  moreover have "map sl_partyId rows = map share_partyId shares"
    using split_created_parties [OF r(3)] p(3) by simp
  moreover have "accountBalanceCents d' t a c = accountBalanceCents d t a c
           - (if a = sourceAccountFor trigger then (\<Sum>x\<leftarrow>rows. sl_amount x) +
                (if trigger = AT_CAPTURE then res_platformCents r else 0) else 0)
           + (if a = (if held then RESERVE else AVAILABLE) then (\<Sum>x\<leftarrow>rows. sl_amount x) else 0)
           + (if a = AVAILABLE \<and> trigger = AT_CAPTURE then res_platformCents r else 0)" for a
    using p(2) by (simp add: effect_balance [OF r(4)] balanceOf_split_legs_any remainder_legs_def total sourceAccountFor_def)
  ultimately show ?thesis
    using True r(2) p(2,5) each effect_balanced [OF r(4)] effect_other [OF r(4)]
    by (simp add: Let_def platform total)
next
  case False
  then show ?thesis using executeSplitInTx_unknown [OF assms(2,3,4)] assms(1) by (simp only: if_False executeSplit_def) simp
qed

text \<open>A quarter of 10.01 for the party \<open>p1\<close>, held.\<close>

definition party_db :: db where
  "party_db = empty_db\<lparr>splitParties := [\<lparr>pt_id = ''p1'', pt_tenantId = ''t1'', pt_slug = ''host'', pt_type = SUB_MERCHANT, pt_isActive = True\<rparr>]\<rparr>"

theorem executeSplit_correct_witness:
  "\<exists>rows d'. executeSplit (\<lambda>a b. 0) demo_env ''t1''
      \<lparr>xs_sourceType = ''payment_intent'', xs_sourceId = ''i1'', xs_sourceCents = 1001, xs_currency = None,
       xs_splitRuleId = None, xs_trigger = None, xs_shares = Some [\<lparr>share_partyId = ''p1'', shareBps = 2500\<rparr>],
       xs_held = Some True, xs_heldUntil = None\<rparr> party_db = Inr (rows, d') \<and>
    map sl_partyId rows = [''p1''] \<and> \<bar>10000 * of_int (sl_amount (rows ! 0)) - 1001 * 2500\<bar> \<le> (15000 :: rat)"
proof -
  define input where "input =
      \<lparr>xs_sourceType = ''payment_intent'', xs_sourceId = ''i1'', xs_sourceCents = 1001, xs_currency = None,
       xs_splitRuleId = None, xs_trigger = None, xs_shares = Some [\<lparr>share_partyId = ''p1'', shareBps = 2500\<rparr>],
       xs_held = Some True, xs_heldUntil = None\<rparr>"
  let ?sh = "[\<lparr>share_partyId = ''p1'', shareBps = 2500\<rparr>]"
  have rule: "resolveSplitRule party_db ''t1'' input = Inr (AT_CAPTURE, ?sh)"
    by (simp add: resolveSplitRule_def input_def)
  have valid: "validateShares ?sh = Inr ()"
    by (simp add: validateShares_def valid_share_def total_bps_def Number_isInteger_def)
  have amount: "0 \<le> xs_sourceCents input" "xs_sourceCents input * 10000 < 2 ^ 53" "xs_splitRuleId input \<noteq> Some ''''" by (simp_all add: input_def)
  have known: "\<forall>s\<in>set ?sh. known_party party_db (share_partyId s)" by (simp add: known_party_def party_db_def)
  from executeSplit_correct [OF rule valid amount, where lc = "\<lambda>a b. 0" and e = demo_env, unfolded if_P [OF known]]
  obtain rows d' where run: "executeSplit (\<lambda>a b. 0) demo_env ''t1'' input party_db = Inr (rows, d')"
    "map sl_partyId rows = map share_partyId ?sh"
    "\<forall>i<length ?sh. \<bar>10000 * of_int (sl_amount (rows ! i)) - of_int (xs_sourceCents input) * shareBps (?sh ! i)\<bar> \<le> 15000"
    by (elim exE conjE) (rule that, assumption+, blast)
  have "xs_sourceCents input = 1001" by (simp add: input_def)
  with run(3) have "\<bar>10000 * of_int (sl_amount (rows ! 0)) - 1001 * 2500\<bar> \<le> (15000 :: rat)" by simp
  with run(1,2) show ?thesis unfolding input_def by auto
qed

text \<open>
  Release of a held share. A successful \<open>releaseSplit\<close> was on a PENDING split of the
  tenant; it moves exactly the split's amount from RESERVE to AVAILABLE in its currency, and a
  second release of the same split is refused.
\<close>

lemma releaseSplit_once:
  assumes "releaseSplit e t i d = Inr d'"
  shows "\<exists>s. getSplit d t i = Some s \<and> sl_status s = SPLIT_PENDING \<and>
    (\<forall>a. accountBalanceCents d' t a (sl_currency s) = accountBalanceCents d t a (sl_currency s)
       + (if a = AVAILABLE then sl_amount s else 0) - (if a = RESERVE then sl_amount s else 0)) \<and>
    (\<forall>u. isBalanced (tenant_legs u d) \<longrightarrow> isBalanced (tenant_legs u d')) \<and>
    (\<exists>msg. releaseSplit e' t i d' = Inl (SplitError msg))"
proof -
  from assms obtain s d1 where s: "getSplit d t i = Some s" "split_canTransition (sl_status s) SPLIT_SETTLED"
    and m: "move e t (Some ''split'') (Some i)
        (debit RESERVE (sl_amount s) RESERVE_RELEASE (Some (sl_partyId s)) (sl_currency s),
         credit AVAILABLE (sl_amount s) RESERVE_RELEASE (Some (sl_partyId s)) (sl_currency s)) d = Inr d1"
    and d': "d' = d1\<lparr>splits := map (\<lambda>s. if sl_id s = i
                        then s\<lparr>sl_status := SPLIT_SETTLED, sl_heldUntil := None\<rparr> else s) (splits d1)\<rparr>"
    by (auto simp: releaseSplit_def getSplit_def split_assertTransition_def Let_def split: option.splits)
  have pending: "sl_status s = SPLIT_PENDING"
    using s(2) by (cases "sl_status s") (auto simp: split_canTransition_def)
  have eff: "ledger_effect t [debit RESERVE (sl_amount s) RESERVE_RELEASE (Some (sl_partyId s)) (sl_currency s),
         credit AVAILABLE (sl_amount s) RESERVE_RELEASE (Some (sl_partyId s)) (sl_currency s)] d d'"
    using effect_then [OF effect_move [OF m], of d'] by (simp add: d')
  have "\<exists>msg. releaseSplit e' t i d' = Inl (SplitError msg)"
  proof (cases "find (\<lambda>s. sl_id s = i \<and> sl_tenantId s = t) (splits d')")
    case (Some x)
    from find_SomeD [OF this] have x: "x \<in> set (splits d')" "sl_id x = i" by simp_all
    have sp: "splits d' = map (\<lambda>s. if sl_id s = i
        then s\<lparr>sl_status := SPLIT_SETTLED, sl_heldUntil := None\<rparr> else s) (splits d1)" by (simp add: d')
    have "sl_status x = SPLIT_SETTLED" by (rule updated_row [OF x(1) [unfolded sp] x(2)]) simp
    with Some show ?thesis
      by (simp add: releaseSplit_def split_assertTransition_def split_canTransition_def require_def)
  qed (simp add: releaseSplit_def)
  moreover have "accountBalanceCents d' t a (sl_currency s) = accountBalanceCents d t a (sl_currency s)
       + (if a = AVAILABLE then sl_amount s else 0) - (if a = RESERVE then sl_amount s else 0)" for a
    by (simp add: effect_balance [OF eff])
  ultimately show ?thesis using s(1) pending effect_balanced [OF eff] by blast
qed

lemma releaseSplit_phases: "releaseSplit e t i d = ebind (releaseSplit_read t i d) (\<lambda>s. releaseSplit_write e t i s d)"
  by (simp add: releaseSplit_def releaseSplit_read_def releaseSplit_write_def Let_def split: option.split)
     (simp add: split_assertTransition_def require_def)

text \<open>Two releases of one share that both read it before either writes take its amount from RESERVE twice.\<close>

lemma concurrent_releases:
  assumes "releaseSplit_read t i d = Inr s" "releaseSplit_write e t i s d = Inr d1" "releaseSplit_write e' t i s d1 = Inr d2"
  shows "accountBalanceCents d2 t RESERVE (sl_currency s) = accountBalanceCents d t RESERVE (sl_currency s) - 2 * sl_amount s"
proof -
  have step: "accountBalanceCents y t RESERVE (sl_currency s) = accountBalanceCents x t RESERVE (sl_currency s) - sl_amount s"
    if w: "releaseSplit_write e x' i s x = Inr y" "x' = t" for e x x' y
  proof -
    from w obtain z where m: "move e t (Some ''split'') (Some i)
        (debit RESERVE (sl_amount s) RESERVE_RELEASE (Some (sl_partyId s)) (sl_currency s),
         credit AVAILABLE (sl_amount s) RESERVE_RELEASE (Some (sl_partyId s)) (sl_currency s)) x = Inr z"
      and y: "ledgerEntries y = ledgerEntries z" by (auto simp: releaseSplit_write_def Let_def)
    from effect_balance [OF effect_then [OF effect_move [OF m] y]] show ?thesis by simp
  qed
  from step [OF assms(2)] step [OF assms(3)] show ?thesis by simp
qed

end
