(* ===== verification/Settlement.thy ===== *)
theory Settlement
  imports SplitsDb ConfigDb
begin

text \<open>
  \<open>src/lib/settlement.ts\<close> and \<open>src/lib/settlement-db.ts\<close>: from a successful capture to the
  tenant's ledger. The plan divides the gross amount into fee, tax on the fee, reserve and net;
  \<open>settleCapture\<close> books it, unless it finds the intent settled, after splitting the gross among the
  beneficiaries when the tenant has an active AT_CAPTURE rule. Its reads and its bookings are also separate definitions,
  as nothing orders the reads of two settlements.
\<close>

section \<open>The plan\<close>

definition CAPTURE_SOURCE_TYPE :: string where
  "CAPTURE_SOURCE_TYPE = ''payment_intent''"

record capture_settlement_plan =
  feeCents :: centimes
  taxCents :: centimes
  reserveCents :: centimes
  netCents :: centimes

definition planCaptureSettlement ::
  "centimes \<Rightarrow> fee_schedule_spec \<Rightarrow> policy_spec \<Rightarrow> string option \<Rightarrow> tax_spec option \<Rightarrow> capture_settlement_plan result" where
  "planCaptureSettlement gross fee policy method tax =
     ebind (computeFee fee gross method) (\<lambda>feeC.
     ebind (computeTax feeC tax) (\<lambda>taxC.
     ebind (computeReserve policy gross) (\<lambda>reserveC.
       Inr \<lparr>feeCents = feeC, taxCents = taxC, reserveCents = reserveC,
            netCents = gross - feeC - taxC - reserveC\<rparr>)))"

text \<open>
  The charge of an intent: the link's amount converted from currency units, or the amount in the
  metadata, which is in minor units already.
\<close>

definition resolveIntentCharge ::
  "(rat \<times> currency) option \<Rightarrow> intent_metadata option \<Rightarrow> rat \<times> currency" where
  "resolveIntentCharge paymentLink metadata =
     (let metaCurrency = Option.bind metadata meta_currency;
          metaAmount = Option.bind metadata meta_amount;
          c = coalesce (or_else (map_option snd paymentLink) metaCurrency) MAD
      in (case paymentLink of
            Some link \<Rightarrow> of_int (toMinor (fst link) c)
          | None \<Rightarrow> coalesce metaAmount 0, c))"

section \<open>Booking\<close>

definition settlement_legs ::
  "ledger_account \<Rightarrow> bool \<Rightarrow> capture_settlement_plan \<Rightarrow> currency \<Rightarrow> (ledger_leg \<times> ledger_leg) list" where
  "settlement_legs feeFrom isSplit plan c =
     (if feeCents plan > 0
        then [(debit feeFrom (feeCents plan) FEE None c, credit FEES (feeCents plan) FEE None c)] else []) @
     (if taxCents plan > 0
        then [(debit feeFrom (taxCents plan) TAX None c, credit TAX_PAYABLE (taxCents plan) TAX None c)] else []) @
     (if reserveCents plan > 0
        then [(debit feeFrom (reserveCents plan) CAPTURE None c, credit RESERVE (reserveCents plan) CAPTURE None c)] else []) @
     (if \<not> isSplit \<and> netCents plan > 0
        then [(debit COLLECTED (netCents plan) CAPTURE None c, credit AVAILABLE (netCents plan) CAPTURE None c)] else [])"

definition alreadySettled :: "db \<Rightarrow> string \<Rightarrow> string \<Rightarrow> bool" where
  "alreadySettled d tenantId intentId \<longleftrightarrow>
     (\<exists>r\<in>set (ledgerEntries d). le_tenantId r = tenantId \<and> le_sourceType r = Some CAPTURE_SOURCE_TYPE \<and>
        le_sourceId r = Some intentId \<and> le_category r = CAPTURE \<and> le_account r = COLLECTED \<and>
        le_direction r = CREDIT)"

definition settlement_policy_of :: "db \<Rightarrow> string \<Rightarrow> policy_spec" where
  "settlement_policy_of d tenantId =
     (case find (\<lambda>r. sp_tenantId r = tenantId \<and> sp_isActive r) (settlementPolicies d) of
        Some row \<Rightarrow> policy_spec.truncate row
      | None \<Rightarrow> resolvePolicy DEFAULT_PRESET no_overrides)"

definition settlement_fee_of :: "db \<Rightarrow> string \<Rightarrow> fee_schedule_spec" where
  "settlement_fee_of d tenantId =
     resolveFeeSpec (find (\<lambda>r. fs_tenantId r = tenantId \<and> fs_isActive r) (feeSchedules d))
       (Option.bind (find (\<lambda>r. sp_tenantId r = tenantId \<and> sp_isActive r) (settlementPolicies d)) industry)"

definition settlement_tax_of :: "db \<Rightarrow> string \<Rightarrow> tax_spec" where
  "settlement_tax_of d tenantId =
     (case find (\<lambda>r. tn_id r = tenantId) (tenants d) of
        Some row \<Rightarrow> \<lparr>taxRateBps = tn_taxRateBps row, taxExempt = tn_taxExempt row\<rparr>
      | None \<Rightarrow> \<lparr>taxRateBps = 0, taxExempt = False\<rparr>)"

definition settlement_rule_of :: "db \<Rightarrow> string \<Rightarrow> split_rule option" where
  "settlement_rule_of d tenantId =
     (if splittingEnabled (settlement_policy_of d tenantId)
      then (case sort_key sr_createdAt
                   (filter (\<lambda>r. sr_tenantId r = tenantId \<and> sr_isActive r \<and> sr_trigger r = AT_CAPTURE) (splitRules d)) of
              [] \<Rightarrow> None | r # _ \<Rightarrow> Some r)
      else None)"

definition capture_split_input :: "string \<Rightarrow> centimes \<Rightarrow> currency \<Rightarrow> split_rule \<Rightarrow> execute_split_input" where
  "capture_split_input intentId gross c rule =
     \<lparr>xs_sourceType = CAPTURE_SOURCE_TYPE, xs_sourceId = intentId, xs_sourceCents = gross,
      xs_currency = Some c, xs_splitRuleId = Some (sr_id rule), xs_trigger = None, xs_shares = None,
      xs_held = None, xs_heldUntil = None\<rparr>"

definition settleCapture ::
  "(string \<Rightarrow> string \<Rightarrow> int) \<Rightarrow> env \<Rightarrow> string \<Rightarrow> string \<Rightarrow> rat \<Rightarrow> currency option \<Rightarrow> string option
    \<Rightarrow> db \<Rightarrow> (bool \<times> db) result" where
  "settleCapture lc e tenantId intentId amount cur method d =
     (let gross = centimes (of_int (Math_round amount)); c = coalesce cur MAD
      in if gross \<le> 0 then Inr (False, d)
         else if alreadySettled d tenantId intentId then Inr (False, d)
         else
           let fee = settlement_fee_of d tenantId;
               policy = settlement_policy_of d tenantId;
               tax = settlement_tax_of d tenantId;
               rule = settlement_rule_of d tenantId
           in ebind (case rule of None \<Rightarrow> Inr gross
                | Some r \<Rightarrow> ebind (split lc gross (sr_shares r)) (\<lambda>s. Inr (res_platformCents s))) (\<lambda>planBase.
              ebind (planCaptureSettlement planBase fee policy method (Some tax)) (\<lambda>plan.
              ebind (move e tenantId (Some CAPTURE_SOURCE_TYPE) (Some intentId)
                      (debit CASH gross CAPTURE None c, credit COLLECTED gross CAPTURE None c) d) (\<lambda>d1.
              ebind (case rule of None \<Rightarrow> Inr d1
                | Some r \<Rightarrow> ebind (executeSplitInTx lc e tenantId (capture_split_input intentId gross c r)
                                     AT_CAPTURE (sr_shares r) d1) (\<lambda>s. Inr (snd s))) (\<lambda>d2.
              ebind (moves e tenantId (Some CAPTURE_SOURCE_TYPE) (Some intentId)
                      (settlement_legs (if rule \<noteq> None then AVAILABLE else COLLECTED) (rule \<noteq> None) plan c) d2) (\<lambda>d3.
                Inr (True, d3)))))))"

text \<open>
  All reads of the transaction, and what is computed from them, come before the first posting, which takes the advisory lock of the
  tenant; at the isolation level READ COMMITTED, and without a unique index on the entries of a capture, nothing orders the reads
  of two settlements. So a settlement is two steps, the reads and the bookings, and \<open>settleCapture\<close> is one that nothing interrupts.
\<close>

definition settleCapture_read ::
  "(string \<Rightarrow> string \<Rightarrow> int) \<Rightarrow> string \<Rightarrow> string \<Rightarrow> rat \<Rightarrow> string option
    \<Rightarrow> db \<Rightarrow> (centimes \<times> split_rule option \<times> capture_settlement_plan) option result" where
  "settleCapture_read lc tenantId intentId amount method d =
     (let gross = centimes (of_int (Math_round amount))
      in if gross \<le> 0 then Inr None
         else if alreadySettled d tenantId intentId then Inr None
         else
           let fee = settlement_fee_of d tenantId;
               policy = settlement_policy_of d tenantId;
               tax = settlement_tax_of d tenantId;
               rule = settlement_rule_of d tenantId
           in ebind (case rule of None \<Rightarrow> Inr gross
                | Some r \<Rightarrow> ebind (split lc gross (sr_shares r)) (\<lambda>s. Inr (res_platformCents s))) (\<lambda>planBase.
              ebind (planCaptureSettlement planBase fee policy method (Some tax)) (\<lambda>plan.
                Inr (Some (gross, rule, plan)))))"

definition settleCapture_write ::
  "(string \<Rightarrow> string \<Rightarrow> int) \<Rightarrow> env \<Rightarrow> string \<Rightarrow> string \<Rightarrow> currency option
    \<Rightarrow> centimes \<times> split_rule option \<times> capture_settlement_plan \<Rightarrow> db \<Rightarrow> db result" where
  "settleCapture_write lc e tenantId intentId cur = (\<lambda>(gross, rule, plan) d.
     let c = coalesce cur MAD
     in ebind (move e tenantId (Some CAPTURE_SOURCE_TYPE) (Some intentId)
                (debit CASH gross CAPTURE None c, credit COLLECTED gross CAPTURE None c) d) (\<lambda>d1.
        ebind (case rule of None \<Rightarrow> Inr d1
          | Some r \<Rightarrow> ebind (executeSplitInTx lc e tenantId (capture_split_input intentId gross c r)
                               AT_CAPTURE (sr_shares r) d1) (\<lambda>s. Inr (snd s))) (\<lambda>d2.
        moves e tenantId (Some CAPTURE_SOURCE_TYPE) (Some intentId)
          (settlement_legs (if rule \<noteq> None then AVAILABLE else COLLECTED) (rule \<noteq> None) plan c) d2)))"

section \<open>Lemmas\<close>

lemma planCaptureSettlement_sum:
  "planCaptureSettlement gross fee policy method tax = Inr plan \<Longrightarrow>
     feeCents plan + taxCents plan + reserveCents plan + netCents plan = gross"
  by (auto simp: planCaptureSettlement_def)

definition settle_ready :: "db \<Rightarrow> string \<Rightarrow> centimes \<Rightarrow> bool" where
  "settle_ready d t gross \<longleftrightarrow>
     wf_schedule (settlement_fee_of d t) \<and> 0 \<le> taxRateBps (settlement_tax_of d t) \<and>
     (\<forall>r. settlement_rule_of d t = Some r \<longrightarrow> sr_id r \<noteq> '''' \<and> validateShares (sr_shares r) = Inr () \<and>
        (\<forall>s\<in>set (sr_shares r). known_party d (share_partyId s))) \<and>
     (\<forall>b. reservePercentageBps (settlement_policy_of d t) = Some b \<longrightarrow> 0 \<le> b \<and> b \<le> 10000) \<and>
     (\<forall>n. reserveFixedCents (settlement_policy_of d t) = Some n \<longrightarrow> 0 \<le> n) \<and>
     (\<forall>b\<in>set (rates (settlement_fee_of d t)). gross * b < 2 ^ 53) \<and> gross * 10000 < 2 ^ 53"

lemma move_ok:
  "valid_posting (mk_posting x y st si) \<Longrightarrow> \<exists>d'. move e t st si (x, y) d = Inr d'"
  using moves_ok [of "[(x, y)]" st si e t d] by (auto simp: moves_def to_posting_def)

lemma settlement_legs_valid:
  "feeFrom = AVAILABLE \<or> feeFrom = COLLECTED \<Longrightarrow>
     l \<in> set (settlement_legs feeFrom s plan c) \<Longrightarrow> valid_posting (to_posting st si l)"
  by (auto simp: settlement_legs_def to_posting_def split: if_splits)

lemma balanceOf_settlement_legs:
  assumes "feeFrom = AVAILABLE \<or> feeFrom = COLLECTED"
    "0 \<le> feeCents plan" "0 \<le> taxCents plan" "0 \<le> reserveCents plan"
  shows "balanceOf (pair_legs (settlement_legs feeFrom s plan c)) a c =
    (if a = FEES then feeCents plan else 0) + (if a = TAX_PAYABLE then taxCents plan else 0)
    + (if a = RESERVE then reserveCents plan else 0)
    + (if a = AVAILABLE \<and> \<not> s then max 0 (netCents plan) else 0)
    - (if a = feeFrom then feeCents plan + taxCents plan + reserveCents plan else 0)
    - (if a = COLLECTED \<and> \<not> s then max 0 (netCents plan) else 0)"
  using assms by (elim disjE) (auto simp: settlement_legs_def)

text \<open>A successful settlement, step by step.\<close>

lemma settleCapture_run:
  assumes "settleCapture lc e t i amount cur m d = Inr (True, d')"
  shows "\<exists>base plan d1 d2.
    (case settlement_rule_of d t of None \<Rightarrow> base = Math_round amount
       | Some r \<Rightarrow> \<exists>s. split lc (Math_round amount) (sr_shares r) = Inr s \<and> base = res_platformCents s) \<and>
    planCaptureSettlement base (settlement_fee_of d t) (settlement_policy_of d t) m (Some (settlement_tax_of d t)) = Inr plan \<and>
    move e t (Some CAPTURE_SOURCE_TYPE) (Some i) (debit CASH (Math_round amount) CAPTURE None (coalesce cur MAD),
       credit COLLECTED (Math_round amount) CAPTURE None (coalesce cur MAD)) d = Inr d1 \<and>
    (case settlement_rule_of d t of None \<Rightarrow> d2 = d1
       | Some r \<Rightarrow> \<exists>rows. executeSplitInTx lc e t (capture_split_input i (Math_round amount) (coalesce cur MAD) r)
           AT_CAPTURE (sr_shares r) d1 = Inr (rows, d2)) \<and>
    moves e t (Some CAPTURE_SOURCE_TYPE) (Some i)
       (settlement_legs (if settlement_rule_of d t \<noteq> None then AVAILABLE else COLLECTED)
         (settlement_rule_of d t \<noteq> None) plan (coalesce cur MAD)) d2 = Inr d'"
  using assms
  by (cases "settlement_rule_of d t") (fastforce simp: settleCapture_def Let_def split: if_splits)+

lemma split_effect_zero:
  assumes "split lc gross shares = Inr s" "0 \<le> res_platformCents s"
  shows "balanceOf (pair_legs (map (split_legs COLLECTED AVAILABLE c) (res_shares s))
      @ remainder_legs AT_CAPTURE c (res_platformCents s)) a c
    = (if a = AVAILABLE then gross else 0) - (if a = COLLECTED then gross else 0)"
proof -
  have "(\<Sum>x\<leftarrow>res_shares s. alloc_amountCents x) + res_platformCents s = gross"
    using assms(1) by (auto simp: split_def platformShareCents_def Let_def split: if_splits)
  with assms(2) show ?thesis
    by (simp add: balanceOf_split_legs_any remainder_legs_def sourceAccountFor_def)
qed

lemma plan_ok:
  assumes "settle_ready d t gross" "0 \<le> base" "base \<le> gross"
  shows "\<exists>plan. planCaptureSettlement base (settlement_fee_of d t) (settlement_policy_of d t) m
           (Some (settlement_tax_of d t)) = Inr plan \<and>
    0 \<le> feeCents plan \<and> 0 \<le> taxCents plan \<and> 0 \<le> reserveCents plan \<and> reserveCents plan \<le> base"
proof -
  let ?fee = "settlement_fee_of d t" and ?tax = "settlement_tax_of d t" and ?policy = "settlement_policy_of d t"
  have wf: "wf_schedule ?fee" using assms(1) by (simp add: settle_ready_def)
  have "base * b < 2 ^ 53" if "b \<in> set (rates ?fee)" for b
    using that assms wf mult_right_mono [of base gross b] by (fastforce simp: settle_ready_def wf_schedule_def)
  then have safe: "safe_rates ?fee base" by (simp add: safe_rates_def)
  obtain fee where fee: "computeFee ?fee base m = Inr fee" using computeFee_spec [OF wf safe assms(2)] by blast
  have fee0: "0 \<le> fee" by (rule computeFee_nonneg [OF wf safe fee])
  obtain tx where tx: "computeTax fee (Some ?tax) = Inr tx" "0 \<le> tx"
    using computeTax_ok [OF fee0, of ?tax] assms(1) by (auto simp: settle_ready_def)
  have "base * b < 2 ^ 53" if "reservePercentageBps ?policy = Some b" for b
  proof -
    have "base * b \<le> gross * 10000"
      using that assms by (intro mult_mono) (auto simp: settle_ready_def)
    with assms(1) show ?thesis by (auto simp: settle_ready_def)
  qed
  then have "safe_reserve ?policy base" using assms(1) by (auto simp: settle_ready_def safe_reserve_def)
  then obtain rs where "computeReserve ?policy base = Inr rs" "0 \<le> rs" "rs \<le> base"
    using computeReserve_bounds assms(2) by blast
  with fee fee0 tx show ?thesis by (auto simp: planCaptureSettlement_def)
qed

lemma settleCapture_phases:
  "settleCapture lc e t i amount cur m d = ebind (settleCapture_read lc t i amount m d)
     (\<lambda>r. case r of None \<Rightarrow> Inr (False, d) | Some p \<Rightarrow> ebind (settleCapture_write lc e t i cur p d) (\<lambda>d'. Inr (True, d')))"
  by (simp add: settleCapture_def settleCapture_read_def settleCapture_write_def Let_def ebind_assoc split: option.split)

lemma settle_base:
  assumes "settle_ready d t gross" "0 \<le> gross"
  shows "\<exists>base. (case settlement_rule_of d t of None \<Rightarrow> Inr gross
      | Some r \<Rightarrow> ebind (split lc gross (sr_shares r)) (\<lambda>s. Inr (res_platformCents s))) = Inr base \<and> 0 \<le> base \<and> base \<le> gross"
proof (cases "settlement_rule_of d t")
  case (Some r)
  then have v: "gross * 10000 < 2 ^ 53" "validateShares (sr_shares r) = Inr ()" using assms(1) by (auto simp: settle_ready_def)
  from split_parts [OF assms(2) v, of lc] obtain s where "split lc gross (sr_shares r) = Inr s"
    "(\<Sum>a\<leftarrow>res_shares s. alloc_amountCents a) + res_platformCents s = gross" "0 \<le> res_platformCents s"
    "list_all (\<lambda>a. 0 \<le> alloc_amountCents a) (res_shares s)" by fastforce
  moreover from this(4) have "0 \<le> (\<Sum>a\<leftarrow>res_shares s. alloc_amountCents a)"
    by (intro sum_list_nonneg_map) (auto simp: list_all_iff)
  ultimately show ?thesis using Some by simp
qed (use assms(2) in simp)

lemma settleCapture_reads:
  assumes "settle_ready d t (Math_round amount)" "0 < Math_round amount" "\<not> alreadySettled d t i"
  shows "\<exists>plan. settleCapture_read lc t i amount m d = Inr (Some (Math_round amount, settlement_rule_of d t, plan))"
proof -
  obtain base where base: "(case settlement_rule_of d t of None \<Rightarrow> Inr (Math_round amount)
      | Some r \<Rightarrow> ebind (split lc (Math_round amount) (sr_shares r)) (\<lambda>s. Inr (res_platformCents s))) = Inr base"
      "0 \<le> base" "base \<le> Math_round amount"
    using settle_base [OF assms(1), of lc] assms(2) by auto
  from plan_ok [OF assms(1) base(2,3), of m] base(1) assms(2,3) show ?thesis
    by (auto simp: settleCapture_read_def Let_def)
qed

lemma settleCapture_writes:
  assumes "\<forall>r. rule = Some r \<longrightarrow> sr_id r \<noteq> '''' \<and> validateShares (sr_shares r) = Inr () \<and> (\<forall>s\<in>set (sr_shares r). known_party x (share_partyId s))"
    "0 < gross" "gross * 10000 < 2 ^ 53"
  shows "\<exists>y. settleCapture_write lc e t i cur (gross, rule, plan) x = Inr y"
proof -
  define c where "c = coalesce cur MAD"
  obtain d1 where d1: "move e t (Some CAPTURE_SOURCE_TYPE) (Some i)
      (debit CASH gross CAPTURE None c, credit COLLECTED gross CAPTURE None c) x = Inr d1"
    using move_ok [of "debit CASH gross CAPTURE None c" "credit COLLECTED gross CAPTURE None c"] assms(2) by fastforce
  from move_frame [OF d1] have same: "splitParties d1 = splitParties x" by auto
  have legs: "\<exists>d3. moves e t (Some CAPTURE_SOURCE_TYPE) (Some i)
      (settlement_legs (if rule \<noteq> None then AVAILABLE else COLLECTED) s plan c) d2 = Inr d3" for s d2
    by (intro moves_ok ballI settlement_legs_valid) auto
  show ?thesis
  proof (cases rule)
    case None
    with d1 legs [of False d1] show ?thesis by (simp add: settleCapture_write_def c_def [symmetric] Let_def)
  next
    case (Some r)
    have "\<forall>s\<in>set (sr_shares r). known_party d1 (share_partyId s)" using Some assms(1) same by (simp add: known_party_def)
    then obtain rows d2 where "executeSplitInTx lc e t (capture_split_input i gross c r) AT_CAPTURE (sr_shares r) d1 = Inr (rows, d2)"
      using executeSplitInTx_ok [of "sr_shares r" "capture_split_input i gross c r" d1] Some assms
      by (fastforce simp: capture_split_input_def)
    with Some d1 legs [of True d2] show ?thesis by (simp add: settleCapture_write_def c_def [symmetric] Let_def)
  qed
qed

lemma settleCapture_succeeds:
  assumes "settle_ready d t (Math_round amount)" "0 < Math_round amount" "\<not> alreadySettled d t i"
  shows "\<exists>d'. settleCapture lc e t i amount cur m d = Inr (True, d')"
proof -
  obtain plan where "settleCapture_read lc t i amount m d = Inr (Some (Math_round amount, settlement_rule_of d t, plan))"
    using settleCapture_reads [OF assms] by blast
  moreover obtain y where "settleCapture_write lc e t i cur (Math_round amount, settlement_rule_of d t, plan) d = Inr y"
    using settleCapture_writes [of "settlement_rule_of d t" d "Math_round amount"] assms by (fastforce simp: settle_ready_def)
  ultimately show ?thesis by (simp add: settleCapture_phases)
qed

text \<open>Bookings take the gross from CASH and keep the parties.\<close>

lemma settleCapture_write_cash:
  assumes "settleCapture_write lc e t i cur (gross, rule, plan) x = Inr y"
  shows "accountBalanceCents y t CASH (coalesce cur MAD) = accountBalanceCents x t CASH (coalesce cur MAD) - gross"
    "splitParties y = splitParties x"
proof -
  define c where "c = coalesce cur MAD"
  from assms obtain d1 d2 where d1: "move e t (Some CAPTURE_SOURCE_TYPE) (Some i)
      (debit CASH gross CAPTURE None c, credit COLLECTED gross CAPTURE None c) x = Inr d1"
    and d2: "(case rule of None \<Rightarrow> Inr d1 | Some r \<Rightarrow> ebind (executeSplitInTx lc e t (capture_split_input i gross c r)
       AT_CAPTURE (sr_shares r) d1) (\<lambda>s. Inr (snd s))) = Inr d2"
    and d3: "moves e t (Some CAPTURE_SOURCE_TYPE) (Some i)
       (settlement_legs (if rule \<noteq> None then AVAILABLE else COLLECTED) (rule \<noteq> None) plan c) d2 = Inr y"
    by (auto simp: settleCapture_write_def c_def [symmetric] Let_def)
  have mid: "accountBalanceCents d2 t CASH c = accountBalanceCents d1 t CASH c \<and> splitParties d2 = splitParties d1"
  proof (cases rule)
    case (Some r)
    with d2 obtain rows where "executeSplitInTx lc e t (capture_split_input i gross c r) AT_CAPTURE (sr_shares r) d1 = Inr (rows, d2)"
      by auto
    from executeSplitInTx_effect [OF this] show ?thesis
      by (auto simp: capture_split_input_def effect_balance [OF booked_effect] balanceOf_split_legs_any remainder_legs_def sourceAccountFor_def
          dest!: arg_cong [of "but_splits d2" _ splitParties])
  qed (use d2 in simp)
  have last: "accountBalanceCents y t CASH c = accountBalanceCents d2 t CASH c"
    using effect_balance [OF effect_moves [OF d3]] by (auto simp: settlement_legs_def)
  have first: "accountBalanceCents d1 t CASH c = accountBalanceCents x t CASH c - gross"
    using effect_balance [OF effect_move [OF d1]] by simp
  show "accountBalanceCents y t CASH (coalesce cur MAD) = accountBalanceCents x t CASH (coalesce cur MAD) - gross"
    using first mid last by (simp add: c_def)
  show "splitParties y = splitParties x" using mid move_frame [OF d1] moves_frame [OF d3] by auto
qed

lemma split_booking:
  assumes "settle_ready d t (Math_round amount)" "0 < Math_round amount"
    and "case settlement_rule_of d t of None \<Rightarrow> base = Math_round amount
       | Some r \<Rightarrow> \<exists>s. split lc (Math_round amount) (sr_shares r) = Inr s \<and> base = res_platformCents s"
    and "case settlement_rule_of d t of None \<Rightarrow> d2 = d1
       | Some r \<Rightarrow> \<exists>rows. executeSplitInTx lc e t (capture_split_input i (Math_round amount) c r)
            AT_CAPTURE (sr_shares r) d1 = Inr (rows, d2)"
  shows "\<exists>legs. booked t (Some CAPTURE_SOURCE_TYPE) (Some i) legs d1 d2 \<and> 0 \<le> base \<and> base \<le> Math_round amount \<and>
    (\<forall>a. balanceOf legs a c = (if settlement_rule_of d t \<noteq> None
       then (if a = AVAILABLE then Math_round amount else 0) - (if a = COLLECTED then Math_round amount else 0) else 0))"
proof (cases "settlement_rule_of d t")
  case None
  with assms show ?thesis by (intro exI [of _ "[]"]) (simp add: booked_none)
next
  case (Some r)
  with assms(3,4) obtain s rows where s: "split lc (Math_round amount) (sr_shares r) = Inr s" "base = res_platformCents s"
    and x: "executeSplitInTx lc e t (capture_split_input i (Math_round amount) c r) AT_CAPTURE (sr_shares r) d1 = Inr (rows, d2)"
    by auto
  have "validateShares (sr_shares r) = Inr ()" "Math_round amount * 10000 < 2 ^ 53"
    using Some assms(1) by (auto simp: settle_ready_def)
  from split_parts [OF _ this(2,1), of lc] assms(2) s have b: "0 \<le> base"
    "(\<Sum>a\<leftarrow>res_shares s. alloc_amountCents a) + base = Math_round amount"
    "list_all (\<lambda>a. 0 \<le> alloc_amountCents a) (res_shares s)" by auto
  from b(3) have "0 \<le> (\<Sum>a\<leftarrow>res_shares s. alloc_amountCents a)"
    by (intro sum_list_nonneg_map) (auto simp: list_all_iff)
  with b(2) have "base \<le> Math_round amount" by simp
  moreover from executeSplitInTx_effect [OF x] s(1)
  have "booked t (Some CAPTURE_SOURCE_TYPE) (Some i) (pair_legs (map (split_legs COLLECTED AVAILABLE c) (res_shares s))
      @ remainder_legs AT_CAPTURE c (res_platformCents s)) d1 d2"
    by (auto simp: capture_split_input_def sourceAccountFor_def)
  ultimately show ?thesis
    using split_effect_zero [OF s(1)] b(1) Some s(2) by (intro exI conjI) (assumption | simp)+
qed

lemma settled_row:
  assumes "move e t (Some CAPTURE_SOURCE_TYPE) (Some i)
    (debit CASH n CAPTURE None c, credit COLLECTED n CAPTURE None c) d = Inr d1" "grows d1 d'"
  shows "alreadySettled d' t i"
proof -
  from move_rows [OF assms(1)] obtain r where r: "r \<in> set (ledgerEntries d1)"
    "leg_of_row r = strip (credit COLLECTED n CAPTURE None c)" "le_tenantId r = t"
    "le_sourceType r = Some CAPTURE_SOURCE_TYPE" "le_sourceId r = Some i" by fastforce
  with leg_of_row_eq [OF r(2)] grows_set [OF assms(2) r(1)] show ?thesis
    by (auto simp: alreadySettled_def)
qed

section \<open>Properties\<close>

text \<open>
  C27. Settlement of a capture. For a tenant with a sound configuration, an unsettled intent and a
  positive amount, a settlement that nothing interrupts succeeds and books exactly this in the capture's currency. The base is the
  gross, or what the active rule leaves to the platform when the capture is split. On it the fee is that of the tenant's schedule and the
  reserve that of its policy; the tax is that of the tenant on the fee. The gross enters CASH;
  fee, tax and reserve are credited to FEES, TAX_PAYABLE and RESERVE; AVAILABLE receives what is left of the base (with a split, the
  gross less fee, tax and reserve), and COLLECTED ends where it started, except that a negative rest stays on it.
  Every ledger stays balanced and no other tenant's ledger changes.
\<close>

theorem settleCapture_books:
  fixes cur :: "currency option"
  assumes "settle_ready d t (Math_round amount)" "0 < Math_round amount" "\<not> alreadySettled d t i"
  defines "gross \<equiv> Math_round amount" and "c \<equiv> coalesce cur MAD" and "rule \<equiv> settlement_rule_of d t"
  shows "\<exists>base fee tax reserve d'. settleCapture lc e t i amount cur m d = Inr (True, d') \<and>
    (case rule of None \<Rightarrow> base = gross | Some r \<Rightarrow> \<exists>s. split lc gross (sr_shares r) = Inr s \<and> base = res_platformCents s) \<and>
    computeFee (settlement_fee_of d t) base m = Inr fee \<and> computeTax fee (Some (settlement_tax_of d t)) = Inr tax \<and>
    computeReserve (settlement_policy_of d t) base = Inr reserve \<and>
    0 \<le> fee \<and> 0 \<le> tax \<and> 0 \<le> reserve \<and> 0 \<le> base \<and> base \<le> gross \<and>
    (\<forall>a. accountBalanceCents d' t a c = accountBalanceCents d t a c
       + (case a of CASH \<Rightarrow> - gross | FEES \<Rightarrow> fee | TAX_PAYABLE \<Rightarrow> tax | RESERVE \<Rightarrow> reserve
          | AVAILABLE \<Rightarrow> if rule \<noteq> None then gross - (fee + tax + reserve) else max 0 (base - (fee + tax + reserve))
          | COLLECTED \<Rightarrow> if rule \<noteq> None then 0 else min 0 (base - (fee + tax + reserve))
          | _ \<Rightarrow> 0)) \<and>
    (\<forall>u. isBalanced (tenant_legs u d) \<longrightarrow> isBalanced (tenant_legs u d')) \<and>
    (\<forall>u. u \<noteq> t \<longrightarrow> tenant_legs u d' = tenant_legs u d)"
proof -
  define isSplit where "isSplit \<longleftrightarrow> rule \<noteq> None"
  obtain d' where run: "settleCapture lc e t i amount cur m d = Inr (True, d')"
    using settleCapture_succeeds [OF assms(1-3)] by blast
  obtain base plan d1 d2 where
    base: "case rule of None \<Rightarrow> base = gross
       | Some r \<Rightarrow> \<exists>s. split lc gross (sr_shares r) = Inr s \<and> base = res_platformCents s"
    and plan: "planCaptureSettlement base (settlement_fee_of d t) (settlement_policy_of d t) m
        (Some (settlement_tax_of d t)) = Inr plan"
    and d1: "move e t (Some CAPTURE_SOURCE_TYPE) (Some i)
       (debit CASH gross CAPTURE None c, credit COLLECTED gross CAPTURE None c) d = Inr d1"
    and d2: "case rule of None \<Rightarrow> d2 = d1
       | Some r \<Rightarrow> \<exists>rows. executeSplitInTx lc e t (capture_split_input i gross c r) AT_CAPTURE (sr_shares r) d1 = Inr (rows, d2)"
    and d3: "moves e t (Some CAPTURE_SOURCE_TYPE) (Some i)
       (settlement_legs (if rule \<noteq> None then AVAILABLE else COLLECTED) (rule \<noteq> None) plan c) d2 = Inr d'"
    using settleCapture_run [OF run, folded gross_def c_def rule_def] by (elim exE conjE) (rule that)
  obtain legs where mid: "booked t (Some CAPTURE_SOURCE_TYPE) (Some i) legs d1 d2" and bounds: "0 \<le> base" "base \<le> gross"
    and legs: "\<And>a. balanceOf legs a c = (if isSplit then (if a = AVAILABLE then gross else 0)
                 - (if a = COLLECTED then gross else 0) else 0)"
    using split_booking [OF assms(1,2) base [unfolded gross_def rule_def] d2 [unfolded gross_def rule_def]]
    unfolding gross_def c_def isSplit_def rule_def by blast
  have p: "0 \<le> feeCents plan" "0 \<le> taxCents plan" "0 \<le> reserveCents plan"
    using plan_ok [OF assms(1), of base m] bounds plan by (auto simp: gross_def)
  have parts: "computeFee (settlement_fee_of d t) base m = Inr (feeCents plan)"
    "computeTax (feeCents plan) (Some (settlement_tax_of d t)) = Inr (taxCents plan)"
    "computeReserve (settlement_policy_of d t) base = Inr (reserveCents plan)"
    "netCents plan = base - (feeCents plan + taxCents plan + reserveCents plan)"
    using plan by (auto simp: planCaptureSettlement_def)
  have eff: "ledger_effect t ([debit CASH gross CAPTURE None c, credit COLLECTED gross CAPTURE None c] @ legs
      @ pair_legs (settlement_legs (if isSplit then AVAILABLE else COLLECTED) isSplit plan c)) d d'"
    unfolding isSplit_def using effect_trans [OF effect_move [OF d1] effect_trans [OF booked_effect [OF mid] effect_moves [OF d3]]] by simp
  have nosplit: "base = gross" if "\<not> isSplit" using base that by (simp add: isSplit_def)
  have bal: "accountBalanceCents d' t a c = accountBalanceCents d t a c
       + (case a of CASH \<Rightarrow> - gross | FEES \<Rightarrow> feeCents plan | TAX_PAYABLE \<Rightarrow> taxCents plan | RESERVE \<Rightarrow> reserveCents plan
          | AVAILABLE \<Rightarrow> if isSplit then gross - (feeCents plan + taxCents plan + reserveCents plan) else max 0 (netCents plan)
          | COLLECTED \<Rightarrow> if isSplit then 0 else min 0 (netCents plan)
          | _ \<Rightarrow> 0)" for a
    using p parts(4) nosplit
    by (cases a; cases isSplit)
       (auto simp: effect_balance [OF eff] legs balanceOf_settlement_legs max_def min_def)
  show ?thesis
    by (rule exI [of _ base], rule exI [of _ "feeCents plan"], rule exI [of _ "taxCents plan"], rule exI [of _ "reserveCents plan"],
        rule exI [of _ d'], intro conjI allI impI)
       (simp_all add: run base parts p bounds bal [unfolded isSplit_def parts(4)] effect_balanced [OF eff] effect_other [OF eff])
qed

text \<open>A tenant with the default policy and fee, no tax and an empty ledger.\<close>

definition demo_db :: db where
  "demo_db = empty_db\<lparr>tenants := [\<lparr>tn_id = ''t1'', tn_status = TENANT_ACTIVE, tn_settlementCurrency = MAD, tn_taxRateBps = 2000, tn_taxExempt = False\<rparr>]\<rparr>"

lemma demo_db_ready: "gross = 10000 \<Longrightarrow> settle_ready demo_db ''t1'' gross"
  by (simp add: settle_ready_def demo_db_def empty_db_def settlement_fee_of_def settlement_tax_of_def
      settlement_rule_of_def settlement_policy_of_def resolveFeeSpec_def presetForIndustry_def DEFAULT_PRESET_def
      resolvePolicy_def no_overrides_def wf_schedule_def rates_def percentage_fee_def)

lemma demo_db_unsettled: "\<not> alreadySettled demo_db t i"
  by (simp add: alreadySettled_def demo_db_def empty_db_def)

theorem settleCapture_books_witness:
  "\<exists>fee tax reserve d'. settleCapture (\<lambda>a b. 0) demo_env ''t1'' ''i1'' 10000 None None demo_db = Inr (True, d') \<and>
     computeFee (settlement_fee_of demo_db ''t1'') 10000 None = Inr fee \<and>
     accountBalanceCents d' ''t1'' CASH MAD = - 10000 \<and> accountBalanceCents d' ''t1'' FEES MAD = fee \<and>
     accountBalanceCents d' ''t1'' AVAILABLE MAD = max 0 (10000 - (fee + tax + reserve))"
proof -
  have m: "Math_round 10000 = 10000" using Math_round_of_int [of 10000] by simp
  then have "settle_ready demo_db ''t1'' (Math_round 10000)" "0 < Math_round 10000" "\<not> alreadySettled demo_db ''t1'' ''i1''"
    by (simp_all add: demo_db_ready demo_db_unsettled)
  note books = settleCapture_books [OF this, where lc = "\<lambda>a b. 0" and e = demo_env and cur = None and m = None]
  have rule: "settlement_rule_of demo_db ''t1'' = None"
    by (simp add: settlement_rule_of_def settlement_policy_of_def demo_db_def empty_db_def DEFAULT_PRESET_def resolvePolicy_def no_overrides_def)
  have zero: "accountBalanceCents demo_db ''t1'' a MAD = 0" for a by (simp add: accountBalanceCents_def demo_db_def empty_db_def)
  from books obtain base fee tax reserve d' where
    b: "settleCapture (\<lambda>a b. 0) demo_env ''t1'' ''i1'' 10000 None None demo_db = Inr (True, d')"
      "case settlement_rule_of demo_db ''t1'' of None \<Rightarrow> base = Math_round 10000
        | Some r \<Rightarrow> \<exists>s. split (\<lambda>a b. 0) (Math_round 10000) (sr_shares r) = Inr s \<and> base = res_platformCents s"
      "computeFee (settlement_fee_of demo_db ''t1'') base None = Inr fee"
      "\<forall>a. accountBalanceCents d' ''t1'' a (coalesce None MAD) = accountBalanceCents demo_db ''t1'' a (coalesce None MAD)
       + (case a of CASH \<Rightarrow> - Math_round 10000 | FEES \<Rightarrow> fee | TAX_PAYABLE \<Rightarrow> tax | RESERVE \<Rightarrow> reserve
          | AVAILABLE \<Rightarrow> if settlement_rule_of demo_db ''t1'' \<noteq> None then Math_round 10000 - (fee + tax + reserve)
             else max 0 (base - (fee + tax + reserve))
          | COLLECTED \<Rightarrow> if settlement_rule_of demo_db ''t1'' \<noteq> None then 0 else min 0 (base - (fee + tax + reserve))
          | _ \<Rightarrow> 0)"
    by (elim exE conjE) (rule that)
  from b(2) have base: "base = 10000" by (simp add: rule m)
  from spec [OF b(4), of CASH] spec [OF b(4), of FEES] spec [OF b(4), of AVAILABLE] b(1,3)
  have "settleCapture (\<lambda>a b. 0) demo_env ''t1'' ''i1'' 10000 None None demo_db = Inr (True, d') \<and>
     computeFee (settlement_fee_of demo_db ''t1'') 10000 None = Inr fee \<and>
     accountBalanceCents d' ''t1'' CASH MAD = - 10000 \<and> accountBalanceCents d' ''t1'' FEES MAD = fee \<and>
     accountBalanceCents d' ''t1'' AVAILABLE MAD = max 0 (10000 - (fee + tax + reserve))"
    by (simp add: rule m zero base)
  then show ?thesis by (intro exI)
qed

lemma settleCapture_marks:
  assumes "settleCapture lc e t i amount cur m d = Inr (True, d')"
  shows "alreadySettled d' t i"
proof -
  from settleCapture_run [OF assms] obtain d1 d2 plan where
    d1: "move e t (Some CAPTURE_SOURCE_TYPE) (Some i) (debit CASH (Math_round amount) CAPTURE None (coalesce cur MAD),
       credit COLLECTED (Math_round amount) CAPTURE None (coalesce cur MAD)) d = Inr d1"
    and d2: "case settlement_rule_of d t of None \<Rightarrow> d2 = d1
       | Some r \<Rightarrow> \<exists>rows. executeSplitInTx lc e t (capture_split_input i (Math_round amount) (coalesce cur MAD) r)
           AT_CAPTURE (sr_shares r) d1 = Inr (rows, d2)"
    and d3: "moves e t (Some CAPTURE_SOURCE_TYPE) (Some i)
       (settlement_legs (if settlement_rule_of d t \<noteq> None then AVAILABLE else COLLECTED)
          (settlement_rule_of d t \<noteq> None) plan (coalesce cur MAD)) d2 = Inr d'"
    by (elim exE conjE) (rule that)
  have "grows d1 d2"
    using d2 by (auto intro: grows_same dest: executeSplitInTx_grows split: option.splits)
  with grows_moves [OF d3] have "grows d1 d'" by (rule grows_trans [rotated])
  then show ?thesis by (rule settled_row [OF d1])
qed

text \<open>
  C28. When a capture is settled once. For a tenant with a sound configuration, an unsettled intent and a positive amount, every call for
  the same tenant and intent that starts after a settlement was booked, with any amount, currency or method, returns \<open>settled: false\<close>
  and changes nothing. But a call that has made its reads before the bookings of another one is not stopped: its bookings succeed
  too, and the gross has entered CASH twice.
\<close>

theorem settleCapture_once_serially:
  assumes "settle_ready d t (Math_round amount)" "0 < Math_round amount" "\<not> alreadySettled d t i"
  shows "\<exists>p d1 d2. settleCapture_read lc t i amount m d = Inr (Some p) \<and> settleCapture_write lc e t i cur p d = Inr d1 \<and>
    settleCapture lc e t i amount cur m d = Inr (True, d1) \<and>
    (\<forall>lc' e' amount' cur' m'. settleCapture lc' e' t i amount' cur' m' d1 = Inr (False, d1)) \<and>
    settleCapture_write lc e2 t i cur p d1 = Inr d2 \<and>
    accountBalanceCents d2 t CASH (coalesce cur MAD) = accountBalanceCents d t CASH (coalesce cur MAD) - 2 * Math_round amount"
proof -
  obtain plan where r: "settleCapture_read lc t i amount m d = Inr (Some (Math_round amount, settlement_rule_of d t, plan))"
    using settleCapture_reads [OF assms] by blast
  have rule: "\<forall>r. settlement_rule_of d t = Some r \<longrightarrow> sr_id r \<noteq> '''' \<and> validateShares (sr_shares r) = Inr () \<and> (\<forall>s\<in>set (sr_shares r). known_party d (share_partyId s))"
    "Math_round amount * 10000 < 2 ^ 53" using assms(1) by (auto simp: settle_ready_def)
  obtain d1 where d1: "settleCapture_write lc e t i cur (Math_round amount, settlement_rule_of d t, plan) d = Inr d1"
    using settleCapture_writes [OF rule(1) assms(2) rule(2)] by blast
  note c1 = settleCapture_write_cash [OF d1]
  have known1: "\<forall>r. settlement_rule_of d t = Some r \<longrightarrow> sr_id r \<noteq> '''' \<and> validateShares (sr_shares r) = Inr () \<and> (\<forall>s\<in>set (sr_shares r). known_party d1 (share_partyId s))"
    using rule(1) c1(2) by (simp add: known_party_def)
  obtain d2 where d2: "settleCapture_write lc e2 t i cur (Math_round amount, settlement_rule_of d t, plan) d1 = Inr d2"
    using settleCapture_writes [OF known1 assms(2) rule(2)] by blast
  have run: "settleCapture lc e t i amount cur m d = Inr (True, d1)" using r d1 by (simp add: settleCapture_phases)
  have "settleCapture lc' e' t i amount' cur' m' d1 = Inr (False, d1)" for lc' e' amount' cur' m'
    using settleCapture_marks [OF run] by (simp add: settleCapture_def Let_def)
  with r d1 d2 run c1(1) settleCapture_write_cash(1) [OF d2] show ?thesis by (intro exI conjI) (assumption | simp)+
qed

theorem settleCapture_once_serially_witness:
  "\<exists>p d1 d2. settleCapture_read (\<lambda>a b. 0) ''t1'' ''i1'' 10000 None demo_db = Inr (Some p) \<and>
     settleCapture_write (\<lambda>a b. 0) demo_env ''t1'' ''i1'' None p demo_db = Inr d1 \<and>
     settleCapture (\<lambda>a b. 0) demo_env ''t1'' ''i1'' 500 None None d1 = Inr (False, d1) \<and>
     settleCapture_write (\<lambda>a b. 0) demo_env ''t1'' ''i1'' None p d1 = Inr d2 \<and> accountBalanceCents d2 ''t1'' CASH MAD = - 20000"
proof -
  have m: "Math_round 10000 = 10000" using Math_round_of_int [of 10000] by simp
  then have "settle_ready demo_db ''t1'' (Math_round 10000)" "0 < Math_round 10000" "\<not> alreadySettled demo_db ''t1'' ''i1''"
    by (simp_all add: demo_db_ready demo_db_unsettled)
  note once = settleCapture_once_serially [OF this, where lc = "\<lambda>a b. 0" and e = demo_env and ?e2.0 = demo_env and cur = None and m = None]
  have "accountBalanceCents demo_db ''t1'' CASH MAD = 0" by (simp add: accountBalanceCents_def demo_db_def empty_db_def)
  with once show ?thesis by (simp add: m) blast
qed

text \<open>
  The charge of an intent is its amount in minor units whichever way it is stored: an amount of
  \<open>m\<close> minor units kept on the payment link as currency units and the same amount kept directly in the metadata
  resolve to the same charge.
\<close>

lemma resolveIntentCharge_units:
  assumes "\<bar>m\<bar> \<le> 2 ^ 50"
  shows "resolveIntentCharge (Some (fromMinor m c, c)) meta = (of_int m, c) \<and>
    resolveIntentCharge None (Some (meta'\<lparr>meta_amount := Some (of_int m), meta_currency := Some c\<rparr>)) = (of_int m, c)"
  using toMinor_of_fromMinor [OF assms] by (simp add: resolveIntentCharge_def)

end
