(* ===== verification/JsDate.thy ===== *)
theory JsDate
  imports Money
begin

text \<open>
  The part of the \<open>Date\<close> object the billing code uses, in UTC: the calendar functions of the ECMAScript standard on instants in
  milliseconds since 1970, \<open>setUTCDate\<close>, \<open>setUTCMonth\<close>, \<open>setUTCFullYear\<close> and \<open>toISOString\<close>. Months are counted from 0.
  A setter that leaves the range of representable instants makes an invalid date, \<open>None\<close>.
\<close>

section \<open>Days and years\<close>

definition msPerDay :: int where
  "msPerDay = 86400000"

definition Day :: "int \<Rightarrow> int" where
  "Day t = t div msPerDay"

definition TimeWithinDay :: "int \<Rightarrow> int" where
  "TimeWithinDay t = t mod msPerDay"

definition DayFromYear :: "int \<Rightarrow> int" where
  "DayFromYear y = 365 * (y - 1970) + (y - 1969) div 4 - (y - 1901) div 100 + (y - 1601) div 400"

definition leap :: "int \<Rightarrow> bool" where
  "leap y \<longleftrightarrow> (4 dvd y \<and> \<not> 100 dvd y) \<or> 400 dvd y"

text \<open>The year of a day: the mean length of a year gives it up to one.\<close>

definition year_of_day :: "int \<Rightarrow> int" where
  "year_of_day n =
     (let y = 1970 + 400 * n div 146097
      in if n < DayFromYear y then y - 1 else if DayFromYear (y + 1) \<le> n then y + 1 else y)"

section \<open>Months\<close>

definition month_start :: "int \<Rightarrow> int \<Rightarrow> int" where
  "month_start y m =
     [0, 31, 59, 90, 120, 151, 181, 212, 243, 273, 304, 334] ! nat m + (if leap y \<and> 2 \<le> m then 1 else 0)"

definition month_of_day :: "int \<Rightarrow> int" where
  "month_of_day n =
     (let y = year_of_day n
      in int (length (filter (\<lambda>m. DayFromYear y + month_start y m \<le> n) [1, 2, 3, 4, 5, 6, 7, 8, 9, 10, 11])))"

text \<open>The first day of a month, the months numbered from the year 0 on.\<close>

definition first_of_month :: "int \<Rightarrow> int" where
  "first_of_month k = DayFromYear (k div 12) + month_start (k div 12) (k mod 12)"

definition month_index :: "int \<Rightarrow> int" where
  "month_index n = 12 * year_of_day n + month_of_day n"

definition days_in_month :: "int \<Rightarrow> int" where
  "days_in_month k = first_of_month (k + 1) - first_of_month k"

section \<open>Date objects\<close>

definition getUTCFullYear :: "int \<Rightarrow> int" where
  "getUTCFullYear t = year_of_day (Day t)"

definition getUTCMonth :: "int \<Rightarrow> int" where
  "getUTCMonth t = month_of_day (Day t)"

definition getUTCDate :: "int \<Rightarrow> int" where
  "getUTCDate t = Day t - first_of_month (month_index (Day t)) + 1"

definition MakeDay :: "int \<Rightarrow> int \<Rightarrow> int \<Rightarrow> int" where
  "MakeDay year month date = first_of_month (12 * year + month) + date - 1"

definition TimeClip :: "int \<Rightarrow> int option" where
  "TimeClip t = (if \<bar>t\<bar> \<le> 8640000000000000 then Some t else None)"

definition make_date :: "int \<Rightarrow> int \<Rightarrow> int option" where
  "make_date day time = TimeClip (day * msPerDay + time)"

definition setUTCDate :: "int \<Rightarrow> int \<Rightarrow> int option" where
  "setUTCDate t date = make_date (MakeDay (getUTCFullYear t) (getUTCMonth t) date) (TimeWithinDay t)"

definition setUTCMonth :: "int \<Rightarrow> int \<Rightarrow> int option" where
  "setUTCMonth t month = make_date (MakeDay (getUTCFullYear t) month (getUTCDate t)) (TimeWithinDay t)"

definition setUTCFullYear :: "int \<Rightarrow> int \<Rightarrow> int option" where
  "setUTCFullYear t year = make_date (MakeDay year (getUTCMonth t) (getUTCDate t)) (TimeWithinDay t)"

definition pad :: "nat \<Rightarrow> int \<Rightarrow> string" where
  "pad w n = (let s = show_nat (nat n) in replicate (w - length s) (CHR ''0'') @ s)"

definition iso_year :: "int \<Rightarrow> string" where
  "iso_year y = (if 0 \<le> y \<and> y \<le> 9999 then pad 4 y else if 0 \<le> y then CHR ''+'' # pad 6 y else CHR ''-'' # pad 6 (- y))"

definition toISOString :: "int \<Rightarrow> string" where
  "toISOString t =
     (let r = TimeWithinDay t
      in iso_year (getUTCFullYear t) @ ''-'' @ pad 2 (getUTCMonth t + 1) @ ''-'' @ pad 2 (getUTCDate t) @
         ''T'' @ pad 2 (r div 3600000) @ '':'' @ pad 2 (r div 60000 mod 60) @ '':'' @ pad 2 (r div 1000 mod 60) @
         ''.'' @ pad 3 (r mod 1000) @ ''Z'')"

section \<open>The calendar\<close>

lemma div_within:
  assumes "0 < (b :: int)"
  shows "b * (a div b) \<le> a" "a \<le> b * (a div b) + b - 1"
  using div_mult_le [OF assms, of a] div_mult_gt [OF assms, of a] by (simp_all add: algebra_simps)

lemma div_next:
  assumes "0 < (b :: int)"
  shows "(a + 1) div b = a div b + (if b dvd a + 1 then 1 else 0)"
proof (cases "b dvd a + 1")
  case True
  then obtain c where c: "a + 1 = b * c" by (elim dvdE)
  have "a div b = c - 1"
  proof (rule int_div_pos_eq [of a b "c - 1" "b - 1"])
    show "a = b * (c - 1) + (b - 1)" using c by (simp add: algebra_simps)
  qed (use assms in simp_all)
  with assms True c show ?thesis by simp
next
  case False
  have "a mod b + 1 \<noteq> b"
  proof
    assume "a mod b + 1 = b"
    moreover have "a + 1 = b * (a div b) + (a mod b + 1)" by (simp add: algebra_simps)
    ultimately have "a + 1 = b * (a div b + 1)" by (simp add: algebra_simps)
    with False show False by simp
  qed
  then have "a mod b + 1 < b" using pos_mod_bound [OF assms, of a] by linarith
  then have "(a + 1) div b = a div b"
    using assms by (intro int_div_pos_eq [of "a + 1" b "a div b" "a mod b + 1"]) (simp_all add: algebra_simps)
  with False show ?thesis by simp
qed

lemma DayFromYear_bounds:
  "146097 * (y - 1970) - 506 \<le> 400 * DayFromYear y" "400 * DayFromYear y \<le> 146097 * (y - 1970) + 589"
proof -
  have "4 * ((y - 1969) div 4) \<le> y - 1969" "y - 1969 \<le> 4 * ((y - 1969) div 4) + 4 - 1"
    "100 * ((y - 1901) div 100) \<le> y - 1901" "y - 1901 \<le> 100 * ((y - 1901) div 100) + 100 - 1"
    "400 * ((y - 1601) div 400) \<le> y - 1601" "y - 1601 \<le> 400 * ((y - 1601) div 400) + 400 - 1"
    by (rule div_within, simp)+
  then show "146097 * (y - 1970) - 506 \<le> 400 * DayFromYear y" "400 * DayFromYear y \<le> 146097 * (y - 1970) + 589"
    unfolding DayFromYear_def by (simp_all add: algebra_simps)
qed

lemma century_dvd: "(400 :: int) dvd y \<Longrightarrow> 100 dvd y" "(100 :: int) dvd y \<Longrightarrow> 4 dvd y"
  by (rule dvd_trans [of _ 400], simp_all) (rule dvd_trans [of _ 100], simp_all)

lemma DayFromYear_step: "DayFromYear (y + 1) = DayFromYear y + 365 + (if leap y then 1 else 0)"
proof -
  have "4 dvd y - 1968 \<longleftrightarrow> 4 dvd y" "100 dvd y - 1900 \<longleftrightarrow> 100 dvd y" "400 dvd y - 1600 \<longleftrightarrow> 400 dvd y"
    by (rule dvd_diff_left_iff; simp)+
  then have next_div: "(y - 1968) div 4 = (y - 1969) div 4 + (if 4 dvd y then 1 else 0)"
    "(y - 1900) div 100 = (y - 1901) div 100 + (if 100 dvd y then 1 else 0)"
    "(y - 1600) div 400 = (y - 1601) div 400 + (if 400 dvd y then 1 else 0)"
    using div_next [of 4 "y - 1969"] div_next [of 100 "y - 1901"] div_next [of 400 "y - 1601"] by simp_all
  have "365 * (y + 1 - 1970) = 365 * (y - 1970) + 365" "y + 1 - 1969 = y - 1968" "y + 1 - 1901 = y - 1900" "y + 1 - 1601 = y - 1600" by simp_all
  note shift = this
  have "DayFromYear (y + 1) = DayFromYear y + (365 + (if 4 dvd y then 1 else 0) - (if 100 dvd y then 1 else 0) + (if 400 dvd y then 1 else 0))"
    unfolding DayFromYear_def shift next_div by (simp only: add_diff_eq diff_add_eq diff_diff_eq2 diff_diff_eq ac_simps)
  also have "365 + (if 4 dvd y then 1 else 0) - (if 100 dvd y then 1 else 0) + (if 400 dvd y then 1 else 0) = 365 + (if leap y then 1 else (0 :: int))"
    using century_dvd [of y] by (auto simp: leap_def)
  finally show ?thesis by (simp only: add.assoc)
qed

lemma DayFromYear_less: "y < z \<Longrightarrow> DayFromYear y < DayFromYear z"
proof (induction z rule: int_gr_induct [where k = y])
  case base
  then show ?case by (simp add: DayFromYear_step)
next
  case (step i)
  then show ?case using DayFromYear_step [of i] by (simp split: if_splits)
qed

lemma DayFromYear_mono: "y \<le> z \<Longrightarrow> DayFromYear y \<le> DayFromYear z"
  using DayFromYear_less [of y z] by (cases "y = z") auto

lemma year_of_day_bounds: "DayFromYear (year_of_day n) \<le> n" "n < DayFromYear (year_of_day n + 1)"
proof -
  define y where "y = 1970 + 400 * n div 146097"
  have "146097 * (y - 1970) \<le> 400 * n" "400 * n < 146097 * (y - 1969)"
    using div_within [of 146097 "400 * n"] by (simp_all add: y_def)
  then have "DayFromYear (y - 1) \<le> n" "n < DayFromYear (y + 2)"
    using DayFromYear_bounds(2) [of "y - 1"] DayFromYear_bounds(1) [of "y + 2"] by (simp_all add: algebra_simps)
  then show "DayFromYear (year_of_day n) \<le> n" "n < DayFromYear (year_of_day n + 1)"
    unfolding year_of_day_def y_def [symmetric] Let_def by (simp_all add: add.commute split: if_splits)
qed

lemma year_of_day_unique: "DayFromYear y \<le> n \<Longrightarrow> n < DayFromYear (y + 1) \<Longrightarrow> year_of_day n = y"
  using year_of_day_bounds [of n] DayFromYear_mono [of "y + 1" "year_of_day n"] DayFromYear_mono [of "year_of_day n + 1" y]
  by linarith

lemma month_cases:
  fixes m :: int
  assumes "0 \<le> m" "m < 12"
  obtains "m = 0" | "m = 1" | "m = 2" | "m = 3" | "m = 4" | "m = 5" | "m = 6" | "m = 7" | "m = 8" | "m = 9" | "m = 10" | "m = 11"
proof -
  have "m = 0 \<or> m = 1 \<or> m = 2 \<or> m = 3 \<or> m = 4 \<or> m = 5 \<or> m = 6 \<or> m = 7 \<or> m = 8 \<or> m = 9 \<or> m = 10 \<or> m = 11"
    using assms by presburger
  then show thesis using that by (elim disjE)
qed

lemma days_in_month_table:
  assumes "0 \<le> m" "m < 12"
  shows "days_in_month (12 * y + m) = [31, if leap y then 29 else 28, 31, 30, 31, 30, 31, 31, 30, 31, 30, 31] ! nat m"
proof (cases rule: month_cases [OF assms])
  case 12
  have "(12 * y + 12) div 12 = y + 1" "(12 * y + 12) mod 12 = 0" "(12 * y + 11) div 12 = y" "(12 * y + 11) mod 12 = 11" by presburger+
  with 12 show ?thesis by (simp add: days_in_month_def first_of_month_def month_start_def DayFromYear_step add.commute [of 1])
qed (simp_all add: days_in_month_def first_of_month_def month_start_def)

lemma days_in_month_bounds: "28 \<le> days_in_month k" "days_in_month k \<le> 31"
proof -
  have m: "0 \<le> k mod 12" "k mod 12 < 12" by simp_all
  have "28 \<le> days_in_month (12 * (k div 12) + k mod 12) \<and> days_in_month (12 * (k div 12) + k mod 12) \<le> 31"
    unfolding days_in_month_table [OF m] by (rule month_cases [OF m]) simp_all
  then show "28 \<le> days_in_month k" "days_in_month k \<le> 31" by simp_all
qed

lemma months_apart:
  "first_of_month k + 28 * int n \<le> first_of_month (k + int n)" "first_of_month (k + int n) \<le> first_of_month k + 31 * int n"
proof (induction n)
  case (Suc n)
  { case 1 show ?case using Suc days_in_month_bounds [of "k + int n"] by (simp add: days_in_month_def ac_simps) }
  { case 2 show ?case using Suc days_in_month_bounds [of "k + int n"] by (simp add: days_in_month_def ac_simps) }
qed simp_all

text \<open>A day within a month has that month and year, and its position in it as date.\<close>

lemma month_index_unique:
  assumes "first_of_month k \<le> n" "n < first_of_month (k + 1)"
  shows "month_index n = k"
proof -
  define y m where "y = k div 12" and "m = k mod 12"
  have k: "k = 12 * y + m" and m: "0 \<le> m" "m < 12" by (simp_all add: y_def m_def)
  have b: "DayFromYear y + month_start y m \<le> n" "n < DayFromYear y + month_start y m + days_in_month (12 * y + m)"
    using assms m by (simp_all add: k days_in_month_def first_of_month_def)
  have "DayFromYear y \<le> n \<and> n < DayFromYear (y + 1)"
    using b unfolding days_in_month_table [OF m] DayFromYear_step month_start_def by (cases "leap y"; cases rule: month_cases [OF m]; simp)
  then have year: "year_of_day n = y" using year_of_day_unique by blast
  have "month_of_day n = m"
    using b unfolding month_of_day_def year Let_def days_in_month_table [OF m] month_start_def
    by (cases "leap y"; cases rule: month_cases [OF m]; simp)
  with year k show ?thesis by (simp add: month_index_def)
qed

end
