(* ===== verification/Billing.thy ===== *)
theory Billing
  imports JsDate Schema
begin

text \<open>
  \<open>src/lib/billing.ts\<close>: the amount of an installment, the next date of a billing cycle and the key that names a cycle. The
  power \<open>(1 + r) ** n\<close> is left to the engine by the language standard: it is the argument \<open>pow\<close>.
\<close>

section \<open>Installments\<close>

definition computeInstallmentAmount :: "(rat \<Rightarrow> rat \<Rightarrow> rat) \<Rightarrow> rat \<Rightarrow> rat \<Rightarrow> int \<Rightarrow> rat result" where
  "computeInstallmentAmount pow amount annualRatePct n =
     (if n \<le> 0 then Inl (JsError ''n must be positive'')
      else if amount \<le> 0 then Inr 0
      else if annualRatePct = 0
        then Inr (js_div (of_int (Math_round (js_mul (js_div amount (of_int n)) 100))) 100)
      else let r = js_div (js_div annualRatePct 100) 12;
               factor = pow (js_add 1 r) (of_int n)
           in if factor = 1
              then Inr (js_div (of_int (Math_round (js_mul (js_div amount (of_int n)) 100))) 100)
              else let payment = js_div (js_mul amount (js_mul r factor)) (js_sub factor 1)
                   in Inr (js_div (of_int (Math_ceil (js_mul payment 100))) 100))"

definition totalInterest :: "(rat \<Rightarrow> rat \<Rightarrow> rat) \<Rightarrow> rat \<Rightarrow> rat \<Rightarrow> int \<Rightarrow> rat result" where
  "totalInterest pow amount annualRatePct n =
     (if annualRatePct = 0 then Inr 0
      else ebind (computeInstallmentAmount pow amount annualRatePct n) (\<lambda>monthly.
        Inr (js_div (of_int (Math_round (js_mul (js_sub (js_mul monthly (of_int n)) amount) 100))) 100)))"

section \<open>Cycles\<close>

definition computeNextBillingDate :: "int \<Rightarrow> billing_interval \<Rightarrow> int \<Rightarrow> int option" where
  "computeNextBillingDate t intervalType intervalValue =
     (case intervalType of
        DAILY \<Rightarrow> setUTCDate t (getUTCDate t + intervalValue)
      | WEEKLY \<Rightarrow> setUTCDate t (getUTCDate t + intervalValue * 7)
      | MONTHLY \<Rightarrow> setUTCMonth t (getUTCMonth t + intervalValue)
      | QUARTERLY \<Rightarrow> setUTCMonth t (getUTCMonth t + intervalValue * 3)
      | ANNUAL \<Rightarrow> setUTCFullYear t (getUTCFullYear t + intervalValue)
      | CUSTOM \<Rightarrow> setUTCDate t (getUTCDate t + intervalValue))"

definition billingIdempotencyKey :: "string \<Rightarrow> int \<Rightarrow> string" where
  "billingIdempotencyKey subscriptionId date = subscriptionId @ ''-'' @ take 10 (toISOString date)"

section \<open>Lemmas on dates\<close>

text \<open>How far a cycle goes, in days or in months.\<close>

definition cycle_days :: "billing_interval \<Rightarrow> int \<Rightarrow> int option" where
  "cycle_days i v = (case i of DAILY \<Rightarrow> Some v | WEEKLY \<Rightarrow> Some (v * 7) | CUSTOM \<Rightarrow> Some v | _ \<Rightarrow> None)"

definition cycle_months :: "billing_interval \<Rightarrow> int \<Rightarrow> int" where
  "cycle_months i v = (case i of MONTHLY \<Rightarrow> v | QUARTERLY \<Rightarrow> v * 3 | ANNUAL \<Rightarrow> v * 12 | _ \<Rightarrow> 0)"

lemma day_split: "Day t * msPerDay + TimeWithinDay t = t"
  by (simp add: Day_def TimeWithinDay_def)

lemma within_day: "0 \<le> TimeWithinDay t" "TimeWithinDay t < msPerDay"
  by (simp_all add: TimeWithinDay_def msPerDay_def)

lemma Day_make: "Day (n * msPerDay + TimeWithinDay t) = n" "TimeWithinDay (n * msPerDay + TimeWithinDay t) = TimeWithinDay t"
  using within_day [of t] by (simp_all add: Day_def TimeWithinDay_def msPerDay_def)

lemma next_date_days:
  assumes "cycle_days i v = Some n"
  shows "computeNextBillingDate t i v = TimeClip (t + n * msPerDay)"
proof -
  have "MakeDay (getUTCFullYear t) (getUTCMonth t) (getUTCDate t + m) = Day t + m" for m
    by (simp add: MakeDay_def getUTCDate_def getUTCFullYear_def getUTCMonth_def month_index_def)
  moreover have "(Day t + m) * msPerDay + TimeWithinDay t = t + m * msPerDay" for m
    using day_split [of t] by (simp add: distrib_right)
  ultimately show ?thesis using assms
    by (auto simp: computeNextBillingDate_def cycle_days_def setUTCDate_def make_date_def split: billing_interval.splits)
qed

lemma next_date_months:
  assumes "cycle_days i v = None"
  shows "computeNextBillingDate t i v =
    TimeClip ((first_of_month (month_index (Day t) + cycle_months i v) + getUTCDate t - 1) * msPerDay + TimeWithinDay t)"
proof -
  have "MakeDay (getUTCFullYear t) (getUTCMonth t + m) e = first_of_month (month_index (Day t) + m) + e - 1"
    "MakeDay (getUTCFullYear t + m) (getUTCMonth t) e = first_of_month (month_index (Day t) + m * 12) + e - 1" for m e
    by (simp_all add: MakeDay_def getUTCFullYear_def getUTCMonth_def month_index_def algebra_simps)
  then show ?thesis using assms
    by (auto simp: computeNextBillingDate_def cycle_days_def cycle_months_def setUTCMonth_def setUTCFullYear_def make_date_def
        split: billing_interval.splits)
qed

lemma month_index_bounds: "first_of_month (month_index n) \<le> n" "n < first_of_month (month_index n + 1)"
proof -
  define y where "y = year_of_day n"
  have y: "DayFromYear y \<le> n" "n < DayFromYear (y + 1)" using year_of_day_bounds by (simp_all add: y_def)
  have "\<exists>m. 0 \<le> m \<and> m < 12 \<and> first_of_month (12 * y + m) \<le> n \<and> n < first_of_month (12 * y + m + 1)"
  proof -
    have start: "first_of_month (12 * y) = DayFromYear y" "first_of_month (12 * y + 12) = DayFromYear (y + 1)"
      by (simp_all add: first_of_month_def month_start_def)
    define P where "P j = (n < first_of_month (12 * y + int j))" for j
    have "P 12" "\<not> P 0" using y start by (simp_all add: P_def)
    then obtain j where j: "j < 12" "\<not> P j" "P (Suc j)" using ex_least_nat_less [of P 12] by blast
    then show ?thesis by (intro exI [of _ "int j"]) (simp add: P_def algebra_simps)
  qed
  then obtain m where "first_of_month (12 * y + m) \<le> n" "n < first_of_month (12 * y + m + 1)" by blast
  then show "first_of_month (month_index n) \<le> n" "n < first_of_month (month_index n + 1)"
    using month_index_unique [of "12 * y + m" n] by simp_all
qed

lemma getUTCDate_bounds: "1 \<le> getUTCDate t" "getUTCDate t \<le> days_in_month (month_index (Day t))"
  using month_index_bounds [of "Day t"] by (simp_all add: getUTCDate_def days_in_month_def)

text \<open>The month and the date of a day given as the \<open>e\<close>-th of a month, when that day may lie beyond the month's end.\<close>

lemma overflow_date:
  assumes "1 \<le> e" "e \<le> 31"
  shows "month_index (first_of_month k + e - 1) = (if e \<le> days_in_month k then k else k + 1)"
proof (cases "e \<le> days_in_month k")
  case True
  with assms show ?thesis by (simp add: days_in_month_def month_index_unique)
next
  case False
  have "first_of_month (k + 1) + 28 \<le> first_of_month (k + 2)"
    using days_in_month_bounds(1) [of "k + 1"] by (simp add: days_in_month_def algebra_simps)
  moreover have "first_of_month k + 28 \<le> first_of_month (k + 1)"
    using days_in_month_bounds(1) [of k] by (simp add: days_in_month_def)
  ultimately have "month_index (first_of_month k + e - 1) = k + 1"
    using assms False by (intro month_index_unique) (simp_all add: days_in_month_def algebra_simps)
  with False show ?thesis by simp
qed

section \<open>Lemmas on keys\<close>

lemma show_nat_length: "n < 10 ^ w \<Longrightarrow> 0 < w \<Longrightarrow> length (show_nat n) \<le> w"
proof (induction n arbitrary: w rule: show_nat.induct)
  case (1 n)
  show ?case
  proof (cases "n < 10")
    case False
    with "1.prems" obtain v where w: "w = Suc v" "0 < v" by (cases w; cases "w - 1") auto
    have "n div 10 < 10 ^ v" using "1.prems" w by (simp add: less_mult_imp_div_less mult.commute)
    then have "length (show_nat (n div 10)) \<le> v" using "1.IH" False w by blast
    with False w show ?thesis by (subst show_nat.simps) simp
  qed (use "1.prems" in \<open>subst show_nat.simps, simp\<close>)
qed

lemma pad_length: "0 \<le> n \<Longrightarrow> n < 10 ^ w \<Longrightarrow> 0 < w \<Longrightarrow> length (pad w n) = w"
  using show_nat_length [of "nat n" w] by (simp add: pad_def Let_def nat_less_iff)

lemma pad_value: "0 \<le> n \<Longrightarrow> int (digits_value (pad w n)) = n"
  by (simp add: pad_def Let_def digits_value_zeros digits_value_show)

lemma pad_inj: "pad w n = pad w n' \<Longrightarrow> 0 \<le> n \<Longrightarrow> 0 \<le> n' \<Longrightarrow> n = n'"
  using pad_value by metis

lemma month_bounds: "0 \<le> month_of_day n" "month_of_day n \<le> 11"
proof -
  show "0 \<le> month_of_day n" by (simp add: month_of_day_def Let_def)
  have "length (filter P [1, 2, 3, 4, 5, 6, 7, 8, 9, 10, 11 :: int]) \<le> 11" for P
    using length_filter_le [of P "[1, 2, 3, 4, 5, 6, 7, 8, 9, 10, 11]"] by simp
  then show "month_of_day n \<le> 11" by (simp add: month_of_day_def Let_def)
qed

lemma iso_date:
  assumes "0 \<le> getUTCFullYear t" "getUTCFullYear t \<le> 9999"
  shows "take 10 (toISOString t) = pad 4 (getUTCFullYear t) @ ''-'' @ pad 2 (getUTCMonth t + 1) @ ''-'' @ pad 2 (getUTCDate t)"
proof -
  have "getUTCDate t < 100" using getUTCDate_bounds(2) [of t] days_in_month_bounds(2) [of "month_index (Day t)"] by linarith
  then have "length (pad 4 (getUTCFullYear t)) = 4" "length (pad 2 (getUTCMonth t + 1)) = 2" "length (pad 2 (getUTCDate t)) = 2"
    using assms month_bounds [of "Day t"] getUTCDate_bounds(1) [of t] by (simp_all add: pad_length getUTCMonth_def)
  then show ?thesis using assms by (simp add: toISOString_def Let_def iso_year_def)
qed

lemma fields_day: "first_of_month (12 * getUTCFullYear t + getUTCMonth t) + getUTCDate t - 1 = Day t"
  by (simp add: getUTCDate_def getUTCFullYear_def getUTCMonth_def month_index_def)

section \<open>Lemmas on installments\<close>

lemma three_roundings:
  fixes u v w y :: rat
  assumes "0 < u" "\<bar>v - u\<bar> \<le> \<bar>u\<bar> / 2 ^ 53" "\<bar>w - v\<bar> \<le> \<bar>v\<bar> / 2 ^ 53" "\<bar>y - w\<bar> \<le> \<bar>w\<bar> / 2 ^ 53"
  shows "\<bar>y - u\<bar> \<le> u / 2 ^ 51"
  using assms by (auto simp: abs_if split: if_splits)

lemma rnd_pos: "0 < u \<Longrightarrow> 0 < rnd u"
  using rnd_error [of u] by (auto simp: abs_if split: if_splits)

lemma zero_rate_error:
  assumes "0 < p" "p \<le> 2 ^ 49" "0 < n"
  shows "\<bar>js_mul (js_div (rnd (of_int p / 100)) (of_int n)) 100 - of_int p / of_int n\<bar> < 1 / (2 * of_int n)"
proof -
  define P where "P = rnd (of_int p / 100)"
  define x where "x = rnd (P / of_int n)"
  let ?u = "of_int p / of_int n :: rat" and ?n = "of_int n :: rat"
  have n: "0 < ?n" using assms by simp
  have "\<bar>P - of_int p / 100\<bar> \<le> \<bar>of_int p / 100\<bar> / 2 ^ 53" unfolding P_def by (rule rnd_error)
  then have "\<bar>P - of_int p / 100\<bar> * (100 / ?n) \<le> \<bar>of_int p / 100\<bar> / 2 ^ 53 * (100 / ?n)"
    using n by (intro mult_right_mono) simp_all
  also have "\<bar>P - of_int p / 100\<bar> * (100 / ?n) = \<bar>(P - of_int p / 100) * (100 / ?n)\<bar>"
    using n by (simp only: abs_mult abs_of_pos [OF divide_pos_pos] zero_less_numeral)
  also have "(P - of_int p / 100) * (100 / ?n) = 100 * P / ?n - ?u" by (simp add: diff_divide_distrib mult.commute)
  also have "\<bar>of_int p / 100\<bar> / 2 ^ 53 * (100 / ?n) = \<bar>?u\<bar> / 2 ^ 53" using n by simp
  finally have e1: "\<bar>100 * P / ?n - ?u\<bar> \<le> \<bar>?u\<bar> / 2 ^ 53" .
  have "\<bar>x - P / ?n\<bar> \<le> \<bar>P / ?n\<bar> / 2 ^ 53" unfolding x_def by (rule rnd_error)
  then have e2: "\<bar>x * 100 - 100 * P / ?n\<bar> \<le> \<bar>100 * P / ?n\<bar> / 2 ^ 53" by (simp add: abs_if split: if_splits)
  have e3: "\<bar>rnd (x * 100) - x * 100\<bar> \<le> \<bar>x * 100\<bar> / 2 ^ 53" by (rule rnd_error)
  have "\<bar>rnd (x * 100) - ?u\<bar> \<le> ?u / 2 ^ 51" by (rule three_roundings [OF _ e1 e2 e3]) (use assms in simp)
  also have "of_int p \<le> (2 ^ 49 :: rat)" using assms(2) by (metis of_int_le_iff of_int_numeral of_int_power)
  then have "?u / 2 ^ 51 < 1 / (2 * ?n)" using n by (simp add: divide_simps)
  finally show ?thesis by (simp add: js_mul_def js_div_def P_def x_def)
qed

lemma Math_round_near:
  assumes "\<bar>y - of_int p / of_int n\<bar> < 1 / (2 * of_int n)" "0 < n"
  shows "2 * (p mod n) < n \<Longrightarrow> Math_round y = p div n" "n < 2 * (p mod n) \<Longrightarrow> Math_round y = p div n + 1"
    and "Math_round y \<in> {p div n, p div n + 1}"
proof -
  let ?q = "p div n" and ?r = "p mod n" and ?n = "of_int n :: rat"
  define w z where "w = of_int ?r / ?n" and "z = 1 / ?n"
  have n: "0 < ?n" using assms(2) by simp
  have z: "0 < z" "z \<le> 1" using assms(2) by (simp_all add: z_def)
  have scale: "a \<le> b \<Longrightarrow> of_int a / ?n \<le> of_int b / ?n" for a b using n by (simp add: divide_right_mono)
  have "(of_int p :: rat) = of_int (?q * n + ?r)" by simp
  then have u: "of_int p / ?n = of_int ?q + w" using n by (simp only: of_int_add of_int_mult w_def) (simp add: add_divide_distrib)
  have near: "of_int ?q + w - z / 2 < y" "y < of_int ?q + w + z / 2"
    using assms(1) unfolding u by (auto simp: z_def abs_if split: if_splits)
  have w: "0 \<le> w" "w \<le> 1 - z"
    using scale [of ?r "n - 1"] pos_mod_bound [OF assms(2), of p] pos_mod_sign [OF assms(2), of p] n
    by (simp_all add: w_def z_def diff_divide_distrib)
  { assume "2 * ?r < n"
    then have "2 * w \<le> 1 - z" using scale [of "2 * ?r" "n - 1"] n by (simp add: w_def z_def diff_divide_distrib)
    then show "Math_round y = ?q" using near z w unfolding Math_round_def by (intro floor_unique) linarith+ }
  { assume "n < 2 * ?r"
    then have "1 + z \<le> 2 * w" using scale [of "n + 1" "2 * ?r"] n by (simp add: w_def z_def add_divide_distrib)
    then show "Math_round y = ?q + 1" using near z w unfolding Math_round_def by (intro floor_unique) simp_all }
  have "of_int ?q \<le> y + 1/2" "y + 1/2 < of_int (?q + 2)" using near z w by simp_all
  then have "?q \<le> Math_round y" "Math_round y < ?q + 2"
    unfolding Math_round_def le_floor_iff floor_less_iff by simp_all
  then show "Math_round y \<in> {?q, ?q + 1}" by auto
qed

section \<open>Properties\<close>

text \<open>
  The next date of a cycle. For every positive interval the next date is later than the given one at the same time of
  day (invalid only beyond the range of dates); intervals in days add exactly those days; intervals of \<open>m\<close> months add
  between \<open>28 m\<close> and \<open>31 m\<close> days and keep the day of the month when the target month has it, and otherwise run over into
  the month after it, so that a monthly cycle on the 31st of January skips February.
\<close>

lemma computeNextBillingDate_correct:
  assumes "1 \<le> v"
  shows "\<exists>t'. computeNextBillingDate t i v = TimeClip t' \<and> t < t' \<and> TimeWithinDay t' = TimeWithinDay t \<and>
    (case cycle_days i v of
       Some n \<Rightarrow> t' = t + n * msPerDay
     | None \<Rightarrow>
         let m = cycle_months i v; k = month_index (Day t) + m
         in Day t + 28 * m \<le> Day t' \<and> Day t' \<le> Day t + 31 * m \<and>
            (if getUTCDate t \<le> days_in_month k then month_index (Day t') = k \<and> getUTCDate t' = getUTCDate t
             else month_index (Day t') = k + 1 \<and> getUTCDate t' = getUTCDate t - days_in_month k))"
proof (cases "cycle_days i v")
  case (Some n)
  then have "1 \<le> n" using assms by (auto simp: cycle_days_def split: billing_interval.splits)
  moreover have "TimeWithinDay (t + n * msPerDay) = TimeWithinDay t" by (simp add: TimeWithinDay_def)
  ultimately show ?thesis
    using Some next_date_days [OF Some, of t] by (intro exI [of _ "t + n * msPerDay"]) (simp add: msPerDay_def)
next
  case None
  define m where "m = cycle_months i v"
  have m: "1 \<le> m" using None assms by (auto simp: m_def cycle_days_def cycle_months_def split: billing_interval.splits)
  define k where "k = month_index (Day t) + m"
  define n where "n = first_of_month k + getUTCDate t - 1"
  define t' where "t' = n * msPerDay + TimeWithinDay t"
  have run: "computeNextBillingDate t i v = TimeClip t'"
    unfolding next_date_months [OF None] by (simp add: t'_def n_def k_def m_def)
  have day: "Day t' = n" "TimeWithinDay t' = TimeWithinDay t" by (simp_all add: t'_def Day_make)
  have apart: "Day t + 28 * m \<le> n \<and> n \<le> Day t + 31 * m"
    using months_apart [of "month_index (Day t)" "nat m"] m by (simp add: n_def k_def getUTCDate_def)
  have "t < t'"
  proof -
    have "(Day t + 1) * msPerDay \<le> n * msPerDay" using apart m by (intro mult_right_mono) (simp_all add: msPerDay_def)
    then show ?thesis using day_split [of t] within_day [of t] by (simp add: t'_def msPerDay_def)
  qed
  moreover have "getUTCDate t \<le> 31" using getUTCDate_bounds(2) [of t] days_in_month_bounds(2) [of "month_index (Day t)"] by linarith
  then have "month_index n = (if getUTCDate t \<le> days_in_month k then k else k + 1)"
    using getUTCDate_bounds(1) [of t] overflow_date [of "getUTCDate t" k] by (simp add: n_def)
  then have "if getUTCDate t \<le> days_in_month k then month_index n = k \<and> getUTCDate t' = getUTCDate t
      else month_index n = k + 1 \<and> getUTCDate t' = getUTCDate t - days_in_month k"
    by (simp add: getUTCDate_def [of t'] day) (simp add: n_def days_in_month_def)
  ultimately show ?thesis
    using run day apart None by (intro exI [of _ t']) (simp add: m_def [symmetric] k_def [symmetric] Let_def)
qed

text \<open>The 31st of January 2023 at midnight, a month later.\<close>

text \<open>
  The key of a cycle. For dates of the years 0 to 9999, two keys of a subscription are equal exactly when the dates fall
  on the same UTC day: repeating a cycle reuses its key, and no two cycles share one.
\<close>

lemma billingIdempotencyKey_day:
  assumes "0 \<le> getUTCFullYear t" "getUTCFullYear t \<le> 9999" "0 \<le> getUTCFullYear t'" "getUTCFullYear t' \<le> 9999"
  shows "billingIdempotencyKey s t = billingIdempotencyKey s t' \<longleftrightarrow> Day t = Day t'"
proof
  assume "billingIdempotencyKey s t = billingIdempotencyKey s t'"
  then have "pad 4 (getUTCFullYear t) @ ''-'' @ pad 2 (getUTCMonth t + 1) @ ''-'' @ pad 2 (getUTCDate t) =
      pad 4 (getUTCFullYear t') @ ''-'' @ pad 2 (getUTCMonth t' + 1) @ ''-'' @ pad 2 (getUTCDate t')"
    using assms by (simp add: billingIdempotencyKey_def iso_date)
  moreover have "length (pad 4 (getUTCFullYear t)) = length (pad 4 (getUTCFullYear t'))"
    "length (pad 2 (getUTCMonth t + 1)) = length (pad 2 (getUTCMonth t' + 1))"
    using assms month_bounds [of "Day t"] month_bounds [of "Day t'"] by (simp_all add: pad_length getUTCMonth_def)
  ultimately have "pad 4 (getUTCFullYear t) = pad 4 (getUTCFullYear t')" "pad 2 (getUTCMonth t + 1) = pad 2 (getUTCMonth t' + 1)"
    "pad 2 (getUTCDate t) = pad 2 (getUTCDate t')" by simp_all
  then have "getUTCFullYear t = getUTCFullYear t'" "getUTCMonth t = getUTCMonth t'" "getUTCDate t = getUTCDate t'"
    using assms month_bounds [of "Day t"] month_bounds [of "Day t'"] getUTCDate_bounds(1) [of t] getUTCDate_bounds(1) [of t']
    by (auto dest!: pad_inj simp: getUTCMonth_def)
  then show "Day t = Day t'" by (metis fields_day)
next
  assume "Day t = Day t'"
  then show "billingIdempotencyKey s t = billingIdempotencyKey s t'"
    using assms by (simp add: billingIdempotencyKey_def iso_date) (simp add: getUTCFullYear_def getUTCMonth_def getUTCDate_def)
qed

text \<open>
  Equal installments without interest. For a price of \<open>p\<close> centimes over \<open>n\<close> months at 0 per cent, the installment is
  \<open>p / n\<close> rounded to the nearest centime (either neighbour at a tie), whatever the power function. So the \<open>n\<close> installments
  fall short of the price by \<open>p mod n\<close> centimes whenever that remainder is below \<open>n / 2\<close>: the amount is not rounded up.
\<close>

lemma zero_rate_installments:
  assumes "0 < p" "p \<le> 2 ^ 49" "0 < n"
  shows "\<exists>a. computeInstallmentAmount pow (fromMinor p MAD) 0 n = Inr (fromMinor a MAD) \<and> a \<in> {p div n, p div n + 1} \<and>
    (2 * (p mod n) < n \<longrightarrow> n * a = p - p mod n) \<and> (n < 2 * (p mod n) \<longrightarrow> n * a = p + (n - p mod n))"
proof -
  define a where "a = Math_round (js_mul (js_div (rnd (of_int p / 100)) (of_int n)) 100)"
  note near = Math_round_near [OF zero_rate_error [OF assms] assms(3), folded a_def]
  have P: "fromMinor p MAD = rnd (of_int p / 100)" using assms by (simp add: fromMinor_def')
  have "0 < rnd (of_int p / 100)" using assms by (intro rnd_pos) simp
  moreover have "p div n \<le> p" using assms zdiv_mono2 [of p 1 n] by simp
  moreover have "0 \<le> p div n" using assms by (simp add: pos_imp_zdiv_nonneg_iff)
  ultimately have "0 < rnd (of_int p / 100)" "\<bar>a\<bar> \<le> 2 ^ 50" using near(3) assms(2) by auto
  then have "computeInstallmentAmount pow (fromMinor p MAD) 0 n = Inr (fromMinor a MAD)"
    using assms by (simp add: computeInstallmentAmount_def P fromMinor_def' a_def [symmetric] js_div_def)
       (simp add: a_def js_div_def)
  moreover have "n * (p div n) = p - p mod n" by (simp add: minus_mod_eq_mult_div)
  ultimately show ?thesis using near by (intro exI [of _ a]) (auto simp: distrib_left)
qed

end
