(* ===== verification/Adapters.thy ===== *)
theory Adapters
  imports Schema
begin

text \<open>
  \<open>src/lib/status-maps.ts\<close>, the operations of \<open>src/adapters/types.ts\<close> that the modelled jobs call, and the VPS and NAPS
  adapters. The signed HTTP exchange with the provider is an argument of the adapters: it takes the content of a request and gives the
  response, or the failure of \<open>fetch\<close>. The keyed hash of the \<open>crypto\<close> module is an argument too.
\<close>

section \<open>Status maps\<close>

definition VPS_STATUS_MAP :: "(string \<times> payment_intent_status) list" where
  "VPS_STATUS_MAP =
     [(''AUTHORISED'', INTENT_AUTHORIZED), (''AUTHORIZED'', INTENT_AUTHORIZED), (''AUTHORIZATION'', INTENT_AUTHORIZED),
      (''PREAUTHORIZED'', INTENT_AUTHORIZED), (''PRE_AUTHORIZED'', INTENT_AUTHORIZED),
      (''REDIRECTED'', INTENT_REQUIRES_ACTION), (''AUTHORIZE_PENDING'', INTENT_REQUIRES_ACTION),
      (''AUTHORIZATION_PENDING'', INTENT_REQUIRES_ACTION), (''CHALLENGE_REQUIRED'', INTENT_REQUIRES_ACTION),
      (''CHALLENGED'', INTENT_REQUIRES_ACTION), (''PENDING_3DS'', INTENT_REQUIRES_ACTION),
      (''THREE_DS_PENDING'', INTENT_REQUIRES_ACTION),
      (''CHARGED'', INTENT_SUCCEEDED), (''CAPTURED'', INTENT_SUCCEEDED), (''PAID'', INTENT_SUCCEEDED),
      (''SETTLED'', INTENT_SUCCEEDED), (''SETTLEMENT'', INTENT_SUCCEEDED), (''COMPLETED'', INTENT_SUCCEEDED),
      (''REFUSED'', INTENT_FAILED), (''DECLINED'', INTENT_FAILED), (''FAILED'', INTENT_FAILED), (''ERROR'', INTENT_FAILED),
      (''CANCELLED'', INTENT_CANCELED), (''CANCELED'', INTENT_CANCELED), (''AUTH_REVERSED'', INTENT_CANCELED),
      (''VOIDED'', INTENT_CANCELED),
      (''PENDING'', INTENT_PROCESSING), (''IN_PROGRESS'', INTENT_PROCESSING), (''PROCESSING'', INTENT_PROCESSING),
      (''SETTLEMENT_PROCESSING'', INTENT_PROCESSING),
      (''REFUNDED'', INTENT_REFUNDED)]"

definition STRIPE_STATUS_MAP :: "(string \<times> payment_intent_status) list" where
  "STRIPE_STATUS_MAP =
     [(''succeeded'', INTENT_SUCCEEDED), (''requires_action'', INTENT_REQUIRES_ACTION),
      (''requires_source_action'', INTENT_REQUIRES_ACTION), (''requires_payment_method'', INTENT_REQUIRES_ACTION),
      (''requires_source'', INTENT_REQUIRES_ACTION), (''processing'', INTENT_PROCESSING),
      (''requires_capture'', INTENT_AUTHORIZED), (''requires_confirmation'', INTENT_PROCESSING),
      (''canceled'', INTENT_CANCELED), (''cancelled'', INTENT_CANCELED)]"

definition STRIPE_SESSION_STATUS_MAP :: "(string \<times> payment_intent_status) list" where
  "STRIPE_SESSION_STATUS_MAP =
     [(''paid'', INTENT_SUCCEEDED), (''unpaid'', INTENT_REQUIRES_ACTION), (''no_payment_required'', INTENT_SUCCEEDED),
      (''expired'', INTENT_FAILED)]"

definition NAPS_STATUS_MAP :: "(string \<times> payment_intent_status) list" where
  "NAPS_STATUS_MAP =
     [(''APPROVED'', INTENT_SUCCEEDED), (''CAPTURED'', INTENT_SUCCEEDED), (''DECLINED'', INTENT_FAILED),
      (''REFUSED'', INTENT_FAILED), (''EXPIRED'', INTENT_FAILED), (''CANCELLED'', INTENT_CANCELED),
      (''CANCELED'', INTENT_CANCELED), (''PENDING'', INTENT_PROCESSING), (''INPROGRESS'', INTENT_PROCESSING),
      (''INITIATED'', INTENT_REQUIRES_ACTION), (''REFUNDED'', INTENT_REFUNDED), (''PARTIALLREFUNDED'', INTENT_REFUNDED)]"

definition mapStripeStatus :: "string \<Rightarrow> payment_intent_status" where
  "mapStripeStatus s =
     coalesce (or_else (map_of STRIPE_STATUS_MAP s) (map_of STRIPE_SESSION_STATUS_MAP s)) INTENT_PROCESSING"

section \<open>The adapter interface\<close>

record charge_renewal_result =
  cr_success :: bool
  cr_providerTransactionId :: "string option"
  cr_rawResponse :: json

record action_result =
  ar_success :: bool
  ar_status :: "payment_intent_status option"
  ar_rawResponse :: json

record refund_result =
  fr_success :: bool
  fr_providerRefundRef :: "string option"
  fr_rawResponse :: json

record query_status_result =
  qs_status :: payment_intent_status
  qs_providerTransactionId :: "string option"
  qs_rawResponse :: json

record provider_adapter =
  ad_capturePayment :: "string \<Rightarrow> rat \<Rightarrow> currency \<Rightarrow> action_result result"
  ad_cancelPayment :: "string \<Rightarrow> rat \<Rightarrow> currency \<Rightarrow> action_result result"
  ad_queryTransactionStatus :: "string \<Rightarrow> query_status_result result"
  ad_refund :: "string \<Rightarrow> rat \<Rightarrow> currency \<Rightarrow> refund_result result"
  ad_verifyWebhookSignature :: "string \<Rightarrow> headers \<Rightarrow> bool"
  ad_mapStatusToInternal :: "string \<Rightarrow> payment_intent_status"

section \<open>HTTP\<close>

text \<open>\<open>rp_body\<close> is \<open>None\<close> when the body is not JSON, on which \<open>response.json()\<close> throws.\<close>

record http_response =
  rp_status :: int
  rp_body :: "json option"

definition response_ok :: "http_response \<Rightarrow> bool" where
  "response_ok r \<longleftrightarrow> 200 \<le> rp_status r \<and> rp_status r \<le> 299"

definition response_json :: "http_response \<Rightarrow> json result" where
  "response_json r = (case rp_body r of None \<Rightarrow> Inl (JsError ''SyntaxError'') | Some j \<Rightarrow> Inr j)"

text \<open>\<open>raw[key]\<close> on a parsed body: only \<open>null\<close> has no properties at all.\<close>

definition json_get :: "json \<Rightarrow> string \<Rightarrow> json option result" where
  "json_get j k = (if j = JNull then Inl (JsError ''TypeError'') else Inr (json_field j k))"

text \<open>\<open>((v as string) ?? dflt).toUpperCase()\<close>\<close>

definition upper_or :: "json option \<Rightarrow> string \<Rightarrow> string result" where
  "upper_or v dflt =
     (case v of None \<Rightarrow> Inr (toUpperCase dflt) | Some (JStr s) \<Rightarrow> Inr (toUpperCase s) | _ \<Rightarrow> Inl (JsError ''TypeError''))"

text \<open>\<open>parseFloat((amount / 100).toFixed(2))\<close>\<close>

definition wire_amount :: "rat \<Rightarrow> rat" where
  "wire_amount amount = rnd (literal_value (toFixed (js_div amount 100) 2))"

section \<open>VPS\<close>

datatype vps_request =
    VpsCharge string string rat currency string
  | VpsCommand string rat string
  | VpsGetCharge string

type_synonym vps_http = "vps_request \<Rightarrow> http_response result"

record vps_credentials =
  vc_notificationKey :: "string option"
  vc_callbackTestMode :: "bool option"

definition vps_mapStatusToInternal :: "string \<Rightarrow> payment_intent_status" where
  "vps_mapStatusToInternal providerStatus = coalesce (map_of VPS_STATUS_MAP (toUpperCase providerStatus)) INTENT_PROCESSING"

definition chargeRenewal :: "vps_http \<Rightarrow> string \<Rightarrow> rat \<Rightarrow> currency \<Rightarrow> string \<Rightarrow> string \<Rightarrow> charge_renewal_result result" where
  "chargeRenewal http storedPaymentProfileId amount c chargeId idempotencyId =
     ebind (http (VpsCharge chargeId storedPaymentProfileId (wire_amount amount) c idempotencyId)) (\<lambda>response.
     ebind (response_json response) (\<lambda>raw.
     ebind (json_get raw ''status'') (\<lambda>v.
     ebind (upper_or v ''ERROR'') (\<lambda>status.
       Inr \<lparr>cr_success = (status = ''CHARGED''), cr_providerTransactionId = json_string (json_field raw ''id''),
            cr_rawResponse = raw\<rparr>))))"

definition runCommand :: "vps_http \<Rightarrow> string \<Rightarrow> rat \<Rightarrow> string \<Rightarrow> json result" where
  "runCommand http chargeId amount command =
     ebind (http (VpsCommand chargeId (wire_amount amount) command)) (\<lambda>response.
     ebind (response_json response) (\<lambda>raw.
       if response_ok response then Inr raw else Inl (JsError ''VPS command '')))"

definition SETTLE_SUCCESS :: "string list" where
  "SETTLE_SUCCESS = [''CHARGED'', ''CAPTURED'', ''PAID'', ''SETTLED'', ''SETTLEMENT'', ''COMPLETED'']"

definition vps_capturePayment :: "vps_http \<Rightarrow> string \<Rightarrow> rat \<Rightarrow> currency \<Rightarrow> action_result result" where
  "vps_capturePayment http providerRef amount c =
     ebind (runCommand http providerRef amount ''SETTLE'') (\<lambda>raw.
     ebind (json_get raw ''status'') (\<lambda>v.
     ebind (upper_or v '''') (\<lambda>status.
       Inr \<lparr>ar_success = (status \<in> set SETTLE_SUCCESS),
            ar_status = Some (vps_mapStatusToInternal (coalesce (json_string v) ''UNKNOWN'')), ar_rawResponse = raw\<rparr>)))"

definition vps_cancelPayment :: "vps_http \<Rightarrow> string \<Rightarrow> rat \<Rightarrow> currency \<Rightarrow> action_result result" where
  "vps_cancelPayment http providerRef amount c =
     ebind (runCommand http providerRef amount ''AUTH_REVERSAL'') (\<lambda>raw.
     ebind (json_get raw ''status'') (\<lambda>v.
     ebind (upper_or v '''') (\<lambda>status.
       Inr \<lparr>ar_success = (status = ''AUTH_REVERSED''),
            ar_status = Some (vps_mapStatusToInternal (coalesce (json_string v) ''UNKNOWN'')), ar_rawResponse = raw\<rparr>)))"

definition vps_refund :: "vps_http \<Rightarrow> string \<Rightarrow> rat \<Rightarrow> currency \<Rightarrow> refund_result result" where
  "vps_refund http providerRef amount c =
     ebind (runCommand http providerRef amount ''REFUND'') (\<lambda>raw.
     ebind (json_get raw ''status'') (\<lambda>v.
       Inr \<lparr>fr_success = (v = Some (JStr ''REFUNDED'')),
            fr_providerRefundRef = or_else (json_string (json_field raw ''chargeId'')) (Some providerRef), fr_rawResponse = raw\<rparr>))"

definition vps_queryTransactionStatus :: "vps_http \<Rightarrow> string \<Rightarrow> query_status_result result" where
  "vps_queryTransactionStatus http providerRef =
     ebind (http (VpsGetCharge providerRef)) (\<lambda>response.
       let raw = coalesce (rp_body response) (JObj [])
       in if \<not> response_ok response
          then (if rp_status response = 404 \<and> json_field raw ''errorCode'' = Some (JStr ''entity_not_found_error'')
                then Inr \<lparr>qs_status = INTENT_REQUIRES_ACTION, qs_providerTransactionId = None, qs_rawResponse = raw\<rparr>
                else Inl (JsError ''VPS GET HTTP ''))
          else ebind (json_get raw ''charge'') (\<lambda>charge.
               let chargeData = coalesce charge raw
               in ebind (upper_or (json_field chargeData ''status'') ''UNKNOWN'') (\<lambda>providerStatus.
                  Inr \<lparr>qs_status = vps_mapStatusToInternal providerStatus,
                       qs_providerTransactionId =
                         or_else (json_string (json_field chargeData ''id'')) (json_string (json_field chargeData ''transactionId'')),
                       qs_rawResponse = raw\<rparr>)))"

definition timingSafeCompare :: "string \<Rightarrow> string \<Rightarrow> bool" where
  "timingSafeCompare a b = (if length a \<noteq> length b then False else a = b)"

definition vps_verifyWebhookSignature :: "(string \<Rightarrow> string \<Rightarrow> string) \<Rightarrow> vps_credentials \<Rightarrow> string \<Rightarrow> headers \<Rightarrow> bool" where
  "vps_verifyWebhookSignature hmac c rawBody h =
     (if vc_callbackTestMode c = Some True then True
      else case vc_notificationKey c of
        None \<Rightarrow> False
      | Some notificationKey \<Rightarrow>
          if notificationKey = '''' then False
          else let sig = coalesce (or_else (or_else (or_else (h ''x-callback-signature'') (h ''x-payzone-signature''))
                                     (h ''x-vps-signature'')) (h ''x-signature'')) ''''
               in if sig = '''' then False
                  else timingSafeCompare (toLowerCase sig) (toLowerCase (hmac notificationKey rawBody)))"

definition VpsAdapter :: "(string \<Rightarrow> string \<Rightarrow> string) \<Rightarrow> vps_credentials \<Rightarrow> vps_http \<Rightarrow> provider_adapter" where
  "VpsAdapter hmac c http =
     \<lparr>ad_capturePayment = vps_capturePayment http, ad_cancelPayment = vps_cancelPayment http,
      ad_queryTransactionStatus = vps_queryTransactionStatus http, ad_refund = vps_refund http,
      ad_verifyWebhookSignature = vps_verifyWebhookSignature hmac c, ad_mapStatusToInternal = vps_mapStatusToInternal\<rparr>"

section \<open>NAPS\<close>

datatype naps_request = NapsStatus string | NapsRefund string string currency

type_synonym naps_http = "naps_request \<Rightarrow> http_response result"

definition naps_mapStatusToInternal :: "string \<Rightarrow> payment_intent_status" where
  "naps_mapStatusToInternal providerStatus = coalesce (map_of NAPS_STATUS_MAP (toUpperCase providerStatus)) INTENT_PROCESSING"

definition naps_capturePayment :: "string \<Rightarrow> rat \<Rightarrow> currency \<Rightarrow> action_result result" where
  "naps_capturePayment providerRef amount c = Inl (JsError ''NAPS does not support pre-authorisation / capture flow'')"

definition naps_cancelPayment :: "string \<Rightarrow> rat \<Rightarrow> currency \<Rightarrow> action_result result" where
  "naps_cancelPayment providerRef amount c = Inl (JsError ''NAPS does not support pre-authorisation / void flow'')"

definition naps_queryTransactionStatus :: "naps_http \<Rightarrow> string \<Rightarrow> query_status_result result" where
  "naps_queryTransactionStatus http providerRef =
     ebind (http (NapsStatus providerRef)) (\<lambda>response.
     ebind (response_json response) (\<lambda>raw.
     ebind (json_get raw ''Status'') (\<lambda>v.
     ebind (upper_or v ''UNKNOWN'') (\<lambda>providerStatus.
       Inr \<lparr>qs_status = naps_mapStatusToInternal providerStatus,
            qs_providerTransactionId = json_string (json_field raw ''TransactionID''), qs_rawResponse = raw\<rparr>))))"

definition naps_refund :: "naps_http \<Rightarrow> string \<Rightarrow> rat \<Rightarrow> currency \<Rightarrow> refund_result result" where
  "naps_refund http providerRef amount c =
     ebind (http (NapsRefund providerRef (toFixed (js_div amount 100) 2) c)) (\<lambda>response.
     ebind (response_json response) (\<lambda>raw.
     ebind (json_get raw ''Status'') (\<lambda>v.
     ebind (upper_or v '''') (\<lambda>status.
       Inr \<lparr>fr_success = (status = ''APPROVED'' \<or> json_field raw ''ResponseCode'' = Some (JStr ''00'')),
            fr_providerRefundRef = json_string (json_field raw ''RefundID''), fr_rawResponse = raw\<rparr>))))"

definition naps_verifyWebhookSignature :: "(string \<Rightarrow> string \<Rightarrow> string) \<Rightarrow> string \<Rightarrow> string \<Rightarrow> headers \<Rightarrow> bool" where
  "naps_verifyWebhookSignature hmac secretKey rawBody h =
     (let receivedSig = coalesce (or_else (h ''x-naps-signature'') (h ''X-Naps-Signature'')) ''''
      in if receivedSig = '''' then False else toUpperCase receivedSig = toUpperCase (hmac secretKey rawBody))"

definition NapsAdapter :: "(string \<Rightarrow> string \<Rightarrow> string) \<Rightarrow> string \<Rightarrow> naps_http \<Rightarrow> provider_adapter" where
  "NapsAdapter hmac secretKey http =
     \<lparr>ad_capturePayment = naps_capturePayment, ad_cancelPayment = naps_cancelPayment,
      ad_queryTransactionStatus = naps_queryTransactionStatus http, ad_refund = naps_refund http,
      ad_verifyWebhookSignature = naps_verifyWebhookSignature hmac secretKey, ad_mapStatusToInternal = naps_mapStatusToInternal\<rparr>"

section \<open>Lemmas\<close>

text \<open>The amount on the wire is the amount in currency units, to the centime.\<close>

lemma wire_amount_exact:
  assumes "\<bar>m\<bar> \<le> 2 ^ 50"
  shows "wire_amount (of_int m) = fromMinor m MAD"
proof -
  have f: "js_div (of_int m) 100 = fromMinor m MAD" using assms by (simp add: fromMinor_def' js_div_def)
  have "literal_value (toFixed (fromMinor m MAD) 2) = of_int m / 100"
    using toMinorString_value [OF assms, of MAD] by (simp add: toMinorString_def)
  then show ?thesis unfolding wire_amount_def f by (simp only: fromMinor_def' [OF assms, symmetric])
qed

lemma toUpperCase_idem: "toUpperCase (toUpperCase s) = toUpperCase s"
proof -
  have "upper_char (upper_char c) = upper_char c" for c
    by (auto simp: upper_char_def Let_def)
  then show ?thesis by (simp add: toUpperCase_def)
qed

lemma toUpperCase_Nil [simp]: "toUpperCase [] = []"
  by (simp add: toUpperCase_def)

lemma upper_or_eq_Inr [simp]:
  "upper_or v dflt = Inr s \<longleftrightarrow> v = None \<and> s = toUpperCase dflt \<or> (\<exists>t. v = Some (JStr t) \<and> s = toUpperCase t)"
  by (auto simp: upper_or_def split: option.splits json.splits)

lemma auth_reversed_maps: "toUpperCase s = ''AUTH_REVERSED'' \<Longrightarrow> vps_mapStatusToInternal s = INTENT_CANCELED"
  by (simp add: vps_mapStatusToInternal_def VPS_STATUS_MAP_def)

lemma settle_success_maps:
  assumes "toUpperCase s \<in> set SETTLE_SUCCESS"
  shows "vps_mapStatusToInternal s = INTENT_SUCCEEDED"
  using assms by (auto simp: SETTLE_SUCCESS_def vps_mapStatusToInternal_def VPS_STATUS_MAP_def)

section \<open>Property\<close>

text \<open>
  Commands to the provider. Whatever the provider answers, a capture that VPS reports as successful carries the status
  SUCCEEDED and a void that it reports as successful carries CANCELED; an answer with an HTTP error is never a success; and
  the amount sent with the command is the charge in currency units, to the centime.
\<close>

lemma vps_commands_consistent:
  assumes "\<bar>m\<bar> \<le> 2 ^ 50"
  shows "(\<forall>r. vps_capturePayment http ref (of_int m) c = Inr r \<longrightarrow> ar_success r \<longrightarrow> ar_status r = Some INTENT_SUCCEEDED) \<and>
    (\<forall>r. vps_cancelPayment http ref (of_int m) c = Inr r \<longrightarrow> ar_success r \<longrightarrow> ar_status r = Some INTENT_CANCELED) \<and>
    (\<forall>cmd response. http (VpsCommand ref (fromMinor m MAD) cmd) = Inr response \<longrightarrow> \<not> response_ok response \<longrightarrow>
       \<not> is_ok (runCommand http ref (of_int m) cmd))"
proof (intro conjI allI impI)
  fix r assume "vps_capturePayment http ref (of_int m) c = Inr r" "ar_success r"
  then obtain t where "toUpperCase t \<in> set SETTLE_SUCCESS" "ar_status r = Some (vps_mapStatusToInternal t)"
    by (auto simp: vps_capturePayment_def json_string_def) (simp add: SETTLE_SUCCESS_def)
  then show "ar_status r = Some INTENT_SUCCEEDED" by (simp add: settle_success_maps)
next
  fix r assume "vps_cancelPayment http ref (of_int m) c = Inr r" "ar_success r"
  then obtain t where "toUpperCase t = ''AUTH_REVERSED''" "ar_status r = Some (vps_mapStatusToInternal t)"
    by (auto simp: vps_cancelPayment_def json_string_def)
  then show "ar_status r = Some INTENT_CANCELED" by (simp add: auth_reversed_maps)
next
  fix cmd response
  assume "http (VpsCommand ref (fromMinor m MAD) cmd) = Inr response" "\<not> response_ok response"
  then show "\<not> is_ok (runCommand http ref (of_int m) cmd)"
    using wire_amount_exact [OF assms] by (auto simp: runCommand_def response_json_def split: option.splits)
qed

end
