(* ===== verification/Dunning.thy ===== *)
theory Dunning
  imports Billing Adapters "HOL-Library.Sublist"
begin

text \<open>
  \<open>src/lib/dunning.ts\<close> and the billing jobs \<open>billingRenewal\<close>, \<open>installmentCharge\<close>, \<open>subscriptionActivated\<close> and
  \<open>billingDailySweep\<close> of \<open>src/jobs/\<close>. A job is not a transaction: each step keeps what it wrote when a later one throws, so a
  step returns a result together with the database. While a job sleeps other requests run; what they do to the database is the
  argument \<open>other\<close>, and each attempt has its own instant. \<open>vps\<close> stands for \<open>getAdapter\<close> on the stored credentials and
  \<open>decrypt\<close> for the decryption of a stored profile; both may throw.
\<close>

section \<open>Steps\<close>

type_synonym 'a job_step = "db \<Rightarrow> 'a result \<times> db"

definition sbind :: "'a result \<times> 's \<Rightarrow> ('a \<Rightarrow> 's \<Rightarrow> 'b result \<times> 's) \<Rightarrow> 'b result \<times> 's" where
  "sbind m f = (case m of (Inl e, s) \<Rightarrow> (Inl e, s) | (Inr x, s) \<Rightarrow> f x s)"

lemma sbind_simps [simp]: "sbind (Inl e, s) f = (Inl e, s)" "sbind (Inr x, s) f = f x s"
  by (simp_all add: sbind_def)

section \<open>One charge\<close>

record charge_attempt_result =
  at_success :: bool
  at_vpsTransactionId :: "string option"
  at_errorMessage :: "string option"
  at_raw :: json

record charge_subscription_params =
  cs_subscriptionId :: string
  cs_tenantId :: string
  cs_chargeId :: string
  cs_idempotencyId :: string
  cs_amountCentimes :: centimes
  cs_currency :: currency
  cs_attemptNumber :: int
  cs_upsert :: bool

definition not_charged :: "string \<Rightarrow> charge_attempt_result" where
  "not_charged msg = \<lparr>at_success = False, at_vpsTransactionId = None, at_errorMessage = Some msg, at_raw = JObj []\<rparr>"

definition vps_config :: "db \<Rightarrow> string \<Rightarrow> provider_config option" where
  "vps_config d tenantId =
     find (\<lambda>c. pc_tenantId c = tenantId \<and> pc_provider c = VPS \<and> pc_status c = CONFIG_CONNECTED) (providerConfigs d)"

definition show_int :: "int \<Rightarrow> string" where
  "show_int n = (if n < 0 then CHR ''-'' # show_nat (nat (- n)) else show_nat (nat n))"

definition billing_event_id :: "charge_subscription_params \<Rightarrow> string" where
  "billing_event_id p =
     take 25 (cs_subscriptionId p @ ''-'' @ cs_idempotencyId p @ ''-'' @ show_int (cs_attemptNumber p))"

definition record_billing_event ::
  "env \<Rightarrow> charge_subscription_params \<Rightarrow> charge_renewal_result \<Rightarrow> string option \<Rightarrow> db \<Rightarrow> db" where
  "record_billing_event e p r errorMessage d =
     (let i = (if cs_upsert p then billing_event_id p else fresh e d);
          row = \<lparr>be_id = i, be_subscriptionId = cs_subscriptionId p, be_chargeId = cs_chargeId p,
            be_vpsTransactionId = cr_providerTransactionId r, be_amount = cs_amountCentimes p, be_currency = cs_currency p,
            be_status = (if cr_success r then ''CHARGED'' else ''DECLINED''), be_attemptNumber = cs_attemptNumber p,
            be_billingPeriodStart = None, be_billingPeriodEnd = None, be_processedAt = Some (now e), be_errorMessage = errorMessage\<rparr>
      in if cs_upsert p \<and> find (\<lambda>b. be_id b = i) (billingEvents d) \<noteq> None
         then d\<lparr>billingEvents := map (\<lambda>b. if be_id b = i
                then b\<lparr>be_vpsTransactionId := or_else (be_vpsTransactionId row) (be_vpsTransactionId b),
                       be_status := be_status row, be_processedAt := be_processedAt row, be_errorMessage := be_errorMessage row\<rparr>
                else b) (billingEvents d)\<rparr>
         else (bump d)\<lparr>billingEvents := billingEvents d @ [row]\<rparr>)"

definition chargeSubscription ::
  "(string \<Rightarrow> vps_http result) \<Rightarrow> (string \<Rightarrow> string result) \<Rightarrow> env \<Rightarrow> charge_subscription_params \<Rightarrow> charge_attempt_result job_step" where
  "chargeSubscription vps decrypt e p d =
     (case find (\<lambda>s. su_id s = cs_subscriptionId p) (subscriptions d) of
        None \<Rightarrow> (Inl (JsError ''P2025''), d)
      | Some subscription \<Rightarrow>
          if su_status subscription \<in> {SUB_CANCELLED, SUB_EXPIRED} then (Inr (not_charged ''Subscription is ''), d)
          else (case vps_config d (cs_tenantId p) of
            None \<Rightarrow> (Inr (not_charged ''VPS provider config not found or disconnected''), d)
          | Some config \<Rightarrow>
              (case ebind (vps (pc_encryptedCredentials config)) (\<lambda>http.
                    ebind (decrypt (su_encryptedStoredProfileId subscription)) (\<lambda>profileId.
                      chargeRenewal http profileId (of_int (cs_amountCentimes p)) (cs_currency p) (cs_chargeId p)
                        (cs_idempotencyId p))) of
                 Inl x \<Rightarrow> (Inl x, d)
               | Inr r \<Rightarrow>
                   let failureMessage = coalesce (json_string (json_field (cr_rawResponse r) ''message'')) ''Charge declined'';
                       errorMessage = (if cr_success r then None else Some failureMessage)
                   in (Inr \<lparr>at_success = cr_success r, at_vpsTransactionId = cr_providerTransactionId r,
                         at_errorMessage = errorMessage, at_raw = maskObject (cr_rawResponse r) 0\<rparr>,
                       record_billing_event e p r errorMessage d))))"

record charge_installment_params =
  ci_agreementId :: string
  ci_tenantId :: string
  ci_chargeId :: string
  ci_idempotencyId :: string
  ci_installmentNumber :: int
  ci_attemptNumber :: int

definition record_installment_charge ::
  "env \<Rightarrow> charge_installment_params \<Rightarrow> installment_agreement \<Rightarrow> charge_renewal_result \<Rightarrow> string option \<Rightarrow> db \<Rightarrow> db" where
  "record_installment_charge e p agreement r errorMessage d =
     (let st = (if cr_success r then ''CHARGED'' else ''DECLINED'')
      in case find (\<lambda>c. ic_agreementId c = ci_agreementId p \<and> ic_installmentNumber c = ci_installmentNumber p) (installmentCharges d) of
           Some existing \<Rightarrow>
             d\<lparr>installmentCharges := map (\<lambda>c. if ic_id c = ic_id existing
                then c\<lparr>ic_status := st, ic_vpsTransactionId := cr_providerTransactionId r, ic_attemptNumber := ci_attemptNumber p,
                       ic_processedAt := Some (now e), ic_errorMessage := errorMessage\<rparr>
                else c) (installmentCharges d)\<rparr>
         | None \<Rightarrow>
             (bump d)\<lparr>installmentCharges := installmentCharges d @
               [\<lparr>ic_id = fresh e d, ic_agreementId = ci_agreementId p, ic_installmentNumber = ci_installmentNumber p,
                 ic_dueDate = now e, ic_amount = ia_installmentAmount agreement, ic_currency = ia_currency agreement,
                 ic_status = st, ic_chargeId = ci_chargeId p, ic_vpsTransactionId = cr_providerTransactionId r,
                 ic_attemptNumber = ci_attemptNumber p, ic_processedAt = Some (now e), ic_errorMessage = errorMessage\<rparr>]\<rparr>)"

definition chargeInstallment ::
  "(string \<Rightarrow> vps_http result) \<Rightarrow> (string \<Rightarrow> string result) \<Rightarrow> env \<Rightarrow> charge_installment_params \<Rightarrow> charge_attempt_result job_step" where
  "chargeInstallment vps decrypt e p d =
     (case find (\<lambda>a. ia_id a = ci_agreementId p) (installmentAgreements d) of
        None \<Rightarrow> (Inl (JsError ''P2025''), d)
      | Some agreement \<Rightarrow>
          if ia_status agreement \<in> {AGREEMENT_CANCELLED, AGREEMENT_COMPLETED, AGREEMENT_DEFAULTED}
          then (Inr (not_charged ''Agreement is ''), d)
          else (case vps_config d (ci_tenantId p) of
            None \<Rightarrow> (Inr (not_charged ''VPS provider config not found or disconnected''), d)
          | Some config \<Rightarrow>
              let amountCentimes = Math_round (js_mul (Number (of_int (ia_installmentAmount agreement) / 100)) 100)
              in (case ebind (vps (pc_encryptedCredentials config)) (\<lambda>http.
                       ebind (decrypt (ia_encryptedStoredProfileId agreement)) (\<lambda>profileId.
                         chargeRenewal http profileId (of_int amountCentimes) (ia_currency agreement) (ci_chargeId p)
                           (ci_idempotencyId p))) of
                    Inl x \<Rightarrow> (Inl x, d)
                  | Inr r \<Rightarrow>
                      let errorMessage = (if cr_success r then None
                            else Some (coalesce (json_string (json_field (cr_rawResponse r) ''message'')) ''Charge declined''))
                      in (Inr \<lparr>at_success = cr_success r, at_vpsTransactionId = cr_providerTransactionId r,
                            at_errorMessage = errorMessage, at_raw = JObj []\<rparr>,
                          record_installment_charge e p agreement r errorMessage d))))"

section \<open>The ladder\<close>

text \<open>
  \<open>DunningLadderConfig\<close>. \<open>lc_sleep n delay\<close> is what happens to the database while the job sleeps before attempt \<open>n\<close>;
  \<open>lc_shouldStop\<close> gives the reason when the run must stop.
\<close>

record ('s, 'a, 'r) dunning_ladder_config =
  lc_maxAttempts :: nat
  lc_delays :: "string list"
  lc_success :: "'a \<Rightarrow> bool"
  lc_attempt :: "nat \<Rightarrow> 's \<Rightarrow> 'a result \<times> 's"
  lc_sleep :: "nat \<Rightarrow> string option \<Rightarrow> 's \<Rightarrow> 's"
  lc_shouldStop :: "nat \<Rightarrow> 's \<Rightarrow> string option"
  lc_onSuccess :: "nat \<Rightarrow> 'a \<Rightarrow> 's \<Rightarrow> 'r result \<times> 's"
  lc_onFailure :: "nat \<Rightarrow> 'a \<Rightarrow> 's \<Rightarrow> unit result \<times> 's"
  lc_onExhausted :: "'s \<Rightarrow> 'r result \<times> 's"

datatype 'r ladder_outcome = Done 'r | Skipped string

definition nth_delay :: "string list \<Rightarrow> nat \<Rightarrow> string option" where
  "nth_delay ds n = (if 1 \<le> n \<and> n \<le> length ds then Some (ds ! (n - 1)) else None)"

text \<open>The loop from attempt \<open>n\<close> on.\<close>

function dunning_loop :: "('s, 'a, 'r) dunning_ladder_config \<Rightarrow> nat \<Rightarrow> 's \<Rightarrow> 'r ladder_outcome result \<times> 's" where
  "dunning_loop cfg n s =
     (if n > lc_maxAttempts cfg then sbind (lc_onExhausted cfg s) (\<lambda>r s. (Inr (Done r), s))
      else sbind (lc_attempt cfg n s) (\<lambda>a s1.
        if lc_success cfg a then sbind (lc_onSuccess cfg n a s1) (\<lambda>r s. (Inr (Done r), s))
        else if n < lc_maxAttempts cfg
        then sbind (lc_onFailure cfg n a s1) (\<lambda>_ s2.
               let s3 = lc_sleep cfg (n + 1) (nth_delay (lc_delays cfg) n) s2
               in case lc_shouldStop cfg (n + 1) s3 of
                    Some reason \<Rightarrow> (Inr (Skipped reason), s3)
                  | None \<Rightarrow> dunning_loop cfg (n + 1) s3)
        else dunning_loop cfg (n + 1) s1))"
  by pat_completeness auto
termination by (relation "measure (\<lambda>(cfg, n, s). Suc (lc_maxAttempts cfg) - n)") auto

declare dunning_loop.simps [simp del]

definition runDunningLadder :: "('s, 'a, 'r) dunning_ladder_config \<Rightarrow> 's \<Rightarrow> 'r ladder_outcome result \<times> 's" where
  "runDunningLadder cfg s = dunning_loop cfg 1 s"

section \<open>Renewals\<close>

definition update_subscription :: "string \<Rightarrow> (subscription \<Rightarrow> subscription) \<Rightarrow> subscription job_step" where
  "update_subscription i f d =
     (case find (\<lambda>s. su_id s = i) (subscriptions d) of
        None \<Rightarrow> (Inl (JsError ''P2025''), d)
      | Some s \<Rightarrow> (Inr (f s), d\<lparr>subscriptions := map (\<lambda>s. if su_id s = i then f s else s) (subscriptions d)\<rparr>))"

definition send_event :: "job_event \<Rightarrow> db \<Rightarrow> db" where
  "send_event ev d = d\<lparr>outbox := outbox d @ [ev]\<rparr>"

datatype renewal_result = Advanced int | Cancelled

definition advanceBillingCycle :: "env \<Rightarrow> renewal_due \<Rightarrow> renewal_result job_step" where
  "advanceBillingCycle e p d =
     (case computeNextBillingDate (now e) (rn_intervalType p) (rn_intervalValue p) of
        None \<Rightarrow> (Inl (JsError ''Invalid Date''), d)
      | Some nextBilling \<Rightarrow>
          sbind (update_subscription (rn_subscriptionId p) (\<lambda>s. s\<lparr>su_status := SUB_ACTIVE, su_retryCount := 0,
                   su_currentPeriodStart := Some (now e), su_currentPeriodEnd := Some nextBilling,
                   su_nextBillingDate := Some nextBilling\<rparr>) d) (\<lambda>_ d1.
            let nextKey = billingIdempotencyKey (rn_subscriptionId p) nextBilling
            in (Inr (Advanced nextBilling),
                send_event (RenewalDue nextKey (p\<lparr>rn_chargeId := ''renewal-'' @ nextKey, rn_idempotencyId := nextKey,
                              rn_attemptNumber := 1\<rparr>)) d1)))"

definition retry_suffix :: "nat \<Rightarrow> string \<Rightarrow> string" where
  "retry_suffix n s = (if n = 1 then s else s @ ''-r'' @ show_nat n)"

definition renewal_ladder ::
  "(string \<Rightarrow> vps_http result) \<Rightarrow> (string \<Rightarrow> string result) \<Rightarrow> (nat \<Rightarrow> env) \<Rightarrow> (nat \<Rightarrow> db \<Rightarrow> db) \<Rightarrow> renewal_due
    \<Rightarrow> (db, charge_attempt_result, renewal_result) dunning_ladder_config" where
  "renewal_ladder vps decrypt es other p =
     \<lparr>lc_maxAttempts = 4, lc_delays = [''1d'', ''2d'', ''4d''], lc_success = at_success,
      lc_attempt = (\<lambda>n. chargeSubscription vps decrypt (es n)
         \<lparr>cs_subscriptionId = rn_subscriptionId p, cs_tenantId = rn_tenantId p, cs_chargeId = retry_suffix n (rn_chargeId p),
          cs_idempotencyId = retry_suffix n (rn_idempotencyId p), cs_amountCentimes = rn_amount p, cs_currency = rn_currency p,
          cs_attemptNumber = int n, cs_upsert = True\<rparr>),
      lc_sleep = (\<lambda>n delay. other n),
      lc_shouldStop = (\<lambda>n d. case find (\<lambda>s. su_id s = rn_subscriptionId p) (subscriptions d) of
         Some s \<Rightarrow> if su_status s \<in> {SUB_CANCELLED, SUB_PAUSED} then Some ''Subscription '' else None
       | None \<Rightarrow> None),
      lc_onSuccess = (\<lambda>n a. advanceBillingCycle (es n) p),
      lc_onFailure = (\<lambda>n a d. if n = 1
         then sbind (update_subscription (rn_subscriptionId p) (\<lambda>s. s\<lparr>su_status := SUB_PAST_DUE, su_retryCount := 1\<rparr>) d)
                (\<lambda>_ d. (Inr (), d))
         else (Inr (), d)),
      lc_onExhausted = (\<lambda>d.
         sbind (update_subscription (rn_subscriptionId p) (\<lambda>s. s\<lparr>su_status := SUB_CANCELLED, su_inngestRunId := None\<rparr>) d)
           (\<lambda>_ d. (Inr Cancelled, d)))\<rparr>"

definition billingRenewal ::
  "(string \<Rightarrow> vps_http result) \<Rightarrow> (string \<Rightarrow> string result) \<Rightarrow> (nat \<Rightarrow> env) \<Rightarrow> (nat \<Rightarrow> db \<Rightarrow> db) \<Rightarrow> string \<Rightarrow> renewal_due
    \<Rightarrow> renewal_result ladder_outcome job_step" where
  "billingRenewal vps decrypt es other runId p d =
     (case find (\<lambda>s. su_id s = rn_subscriptionId p) (subscriptions d) of
        None \<Rightarrow> (Inl (JsError ''P2025''), d)
      | Some subscription \<Rightarrow>
          if su_status subscription \<in> {SUB_CANCELLED, SUB_EXPIRED, SUB_PAUSED} then (Inr (Skipped ''Subscription is ''), d)
          else sbind (update_subscription (rn_subscriptionId p) (\<lambda>s. s\<lparr>su_inngestRunId := Some runId\<rparr>) d) (\<lambda>_ d1.
                 runDunningLadder (renewal_ladder vps decrypt es other p) d1))"

section \<open>Activation and the daily sweep\<close>

text \<open>\<open>trial\<close> is what happens to the database during the sleep through the trial period.\<close>

definition onSubscriptionCreated :: "env \<Rightarrow> (db \<Rightarrow> db) \<Rightarrow> subscription_activated \<Rightarrow> unit job_step" where
  "onSubscriptionCreated e trial p d =
     (case computeNextBillingDate (now e) (sa_intervalType p) (sa_intervalValue p) of
        None \<Rightarrow> (Inl (JsError ''Invalid Date''), d)
      | Some nextBilling \<Rightarrow>
          sbind (update_subscription (sa_subscriptionId p) (\<lambda>s. s\<lparr>su_status := SUB_ACTIVE, su_currentPeriodStart := Some (now e),
                   su_currentPeriodEnd := Some nextBilling, su_nextBillingDate := Some nextBilling\<rparr>) d) (\<lambda>_ d1.
            let d2 = (case sa_trialDays p of Some n \<Rightarrow> if n > 0 then trial d1 else d1 | None \<Rightarrow> d1);
                dueKey = billingIdempotencyKey (sa_subscriptionId p) nextBilling
            in (Inr (), send_event (RenewalDue dueKey
                 \<lparr>rn_subscriptionId = sa_subscriptionId p, rn_tenantId = sa_tenantId p, rn_customerId = sa_customerId p,
                  rn_amount = sa_amount p, rn_currency = sa_currency p, rn_intervalType = sa_intervalType p,
                  rn_intervalValue = sa_intervalValue p, rn_chargeId = ''renewal-'' @ dueKey, rn_idempotencyId = dueKey,
                  rn_attemptNumber = 1\<rparr>) d2)))"

definition subscription_due :: "int \<Rightarrow> subscription \<Rightarrow> bool" where
  "subscription_due t s \<longleftrightarrow>
     su_status s \<in> {SUB_ACTIVE, SUB_PAST_DUE} \<and> (case su_nextBillingDate s of None \<Rightarrow> False | Some n \<Rightarrow> n \<le> t)"

definition sweep_event :: "env \<Rightarrow> subscription \<Rightarrow> job_event" where
  "sweep_event e s =
     (let idemKey = billingIdempotencyKey (su_id s) (coalesce (su_nextBillingDate s) (now e))
      in RenewalDue idemKey
           \<lparr>rn_subscriptionId = su_id s, rn_tenantId = su_tenantId s, rn_customerId = su_customerId s,
            rn_amount = madToCentimes (of_int (su_amount s) / 100), rn_currency = su_currency s,
            rn_intervalType = su_intervalType s, rn_intervalValue = su_intervalValue s, rn_chargeId = ''renewal-'' @ idemKey,
            rn_idempotencyId = idemKey, rn_attemptNumber = 1\<rparr>)"

definition billingDailySweep :: "env \<Rightarrow> db \<Rightarrow> nat \<times> db" where
  "billingDailySweep e d =
     (let due = filter (subscription_due (now e)) (subscriptions d)
      in (length due, d\<lparr>outbox := outbox d @ map (sweep_event e) due\<rparr>))"

section \<open>Installments\<close>

definition update_agreement :: "string \<Rightarrow> (installment_agreement \<Rightarrow> installment_agreement) \<Rightarrow> installment_agreement job_step" where
  "update_agreement i f d =
     (case find (\<lambda>a. ia_id a = i) (installmentAgreements d) of
        None \<Rightarrow> (Inl (JsError ''P2025''), d)
      | Some a \<Rightarrow> (Inr (f a), d\<lparr>installmentAgreements := map (\<lambda>a. if ia_id a = i then f a else a) (installmentAgreements d)\<rparr>))"

datatype installment_result = AgreementComplete | NextInstallment int int | Defaulted

definition onInstallmentSuccess :: "env \<Rightarrow> string \<Rightarrow> int \<Rightarrow> installment_result job_step" where
  "onInstallmentSuccess e agreementId installmentNumber d =
     (case find (\<lambda>a. ia_id a = agreementId) (installmentAgreements d) of
        None \<Rightarrow> (Inl (JsError ''P2025''), d)
      | Some agreement \<Rightarrow>
          let newPaidCount = ia_paidCount agreement + 1
          in if newPaidCount \<ge> ia_totalInstallments agreement
             then sbind (update_agreement agreementId (\<lambda>a. a\<lparr>ia_paidCount := newPaidCount, ia_status := AGREEMENT_COMPLETED,
                          ia_inngestRunId := None, ia_nextChargeDate := None\<rparr>) d) (\<lambda>_ d. (Inr AgreementComplete, d))
             else (case setUTCMonth (now e) (getUTCMonth (now e) + 1) of
                None \<Rightarrow> (Inl (JsError ''Invalid Date''), d)
              | Some nextChargeDate \<Rightarrow>
                  sbind (update_agreement agreementId (\<lambda>a. a\<lparr>ia_paidCount := newPaidCount,
                           ia_nextChargeDate := Some nextChargeDate, ia_inngestRunId := None\<rparr>) d) (\<lambda>_ d1.
                    let nextNumber = installmentNumber + 1;
                        nextChargeId = ''inst-'' @ drop (length agreementId - 8) agreementId @ ''-'' @ show_int nextNumber;
                        nextIdem = agreementId @ ''-inst-'' @ show_int nextNumber
                    in (Inr (NextInstallment nextNumber nextChargeDate),
                        send_event (InstallmentChargeDue nextIdem
                          \<lparr>du_agreementId = agreementId, du_installmentNumber = nextNumber, du_tenantId = ia_tenantId agreement,
                           du_chargeId = nextChargeId, du_idempotencyId = nextIdem\<rparr>) d1))))"

definition installment_ladder ::
  "(string \<Rightarrow> vps_http result) \<Rightarrow> (string \<Rightarrow> string result) \<Rightarrow> (nat \<Rightarrow> env) \<Rightarrow> (nat \<Rightarrow> db \<Rightarrow> db) \<Rightarrow> installment_due
    \<Rightarrow> (db, charge_attempt_result, installment_result) dunning_ladder_config" where
  "installment_ladder vps decrypt es other p =
     \<lparr>lc_maxAttempts = 4, lc_delays = [''1d'', ''2d'', ''4d''], lc_success = at_success,
      lc_attempt = (\<lambda>n. chargeInstallment vps decrypt (es n)
         \<lparr>ci_agreementId = du_agreementId p, ci_tenantId = du_tenantId p, ci_chargeId = retry_suffix n (du_chargeId p),
          ci_idempotencyId = retry_suffix n (du_idempotencyId p), ci_installmentNumber = du_installmentNumber p,
          ci_attemptNumber = int n\<rparr>),
      lc_sleep = (\<lambda>n delay. other n),
      lc_shouldStop = (\<lambda>n d. case find (\<lambda>a. ia_id a = du_agreementId p) (installmentAgreements d) of
         Some a \<Rightarrow> if ia_status a = AGREEMENT_CANCELLED then Some ''Cancelled before retry '' else None
       | None \<Rightarrow> None),
      lc_onSuccess = (\<lambda>n a. onInstallmentSuccess (es n) (du_agreementId p) (du_installmentNumber p)),
      lc_onFailure = (\<lambda>n a d. (Inr (), d)),
      lc_onExhausted = (\<lambda>d.
         sbind (update_agreement (du_agreementId p) (\<lambda>a. a\<lparr>ia_status := AGREEMENT_DEFAULTED, ia_inngestRunId := None\<rparr>) d)
           (\<lambda>_ d. (Inr Defaulted, d)))\<rparr>"

definition installmentCharge ::
  "(string \<Rightarrow> vps_http result) \<Rightarrow> (string \<Rightarrow> string result) \<Rightarrow> (nat \<Rightarrow> env) \<Rightarrow> (nat \<Rightarrow> db \<Rightarrow> db) \<Rightarrow> string \<Rightarrow> installment_due
    \<Rightarrow> installment_result ladder_outcome job_step" where
  "installmentCharge vps decrypt es other runId p d =
     (case find (\<lambda>a. ia_id a = du_agreementId p) (installmentAgreements d) of
        None \<Rightarrow> (Inl (JsError ''P2025''), d)
      | Some agreement \<Rightarrow>
          if ia_status agreement \<in> {AGREEMENT_CANCELLED, AGREEMENT_COMPLETED, AGREEMENT_DEFAULTED}
          then (Inr (Skipped ''Agreement is ''), d)
          else sbind (update_agreement (du_agreementId p) (\<lambda>a. a\<lparr>ia_inngestRunId := Some runId\<rparr>) d) (\<lambda>_ d1.
                 runDunningLadder (installment_ladder vps decrypt es other p) d1))"

section \<open>The schedule of a ladder\<close>

datatype ladder_entry = Tried nat | Slept nat "string option" | GaveUp

text \<open>The ladder with a journal of its attempts and sleeps.\<close>

definition journal :: "('s, 'a, 'r) dunning_ladder_config \<Rightarrow> ('s \<times> ladder_entry list, 'a, 'r) dunning_ladder_config" where
  "journal cfg =
     \<lparr>lc_maxAttempts = lc_maxAttempts cfg, lc_delays = lc_delays cfg, lc_success = lc_success cfg,
      lc_attempt = (\<lambda>n (s, j). case lc_attempt cfg n s of (a, s') \<Rightarrow> (a, (s', j @ [Tried n]))),
      lc_sleep = (\<lambda>n delay (s, j). (lc_sleep cfg n delay s, j @ [Slept n delay])),
      lc_shouldStop = (\<lambda>n (s, j). lc_shouldStop cfg n s),
      lc_onSuccess = (\<lambda>n a (s, j). case lc_onSuccess cfg n a s of (r, s') \<Rightarrow> (r, (s', j))),
      lc_onFailure = (\<lambda>n a (s, j). case lc_onFailure cfg n a s of (r, s') \<Rightarrow> (r, (s', j))),
      lc_onExhausted = (\<lambda>(s, j). case lc_onExhausted cfg s of (r, s') \<Rightarrow> (r, (s', j @ [GaveUp])))\<rparr>"

function schedule :: "nat \<Rightarrow> string list \<Rightarrow> nat \<Rightarrow> ladder_entry list" where
  "schedule m ds n =
     (if n > m then [GaveUp]
      else Tried n # (if n < m then [Slept (n + 1) (nth_delay ds n)] else []) @ schedule m ds (n + 1))"
  by pat_completeness auto
termination by (relation "measure (\<lambda>(m, ds, n). Suc m - n)") auto

declare schedule.simps [simp del]

lemma journal_simps [simp]:
  "lc_maxAttempts (journal cfg) = lc_maxAttempts cfg" "lc_delays (journal cfg) = lc_delays cfg"
  "lc_success (journal cfg) = lc_success cfg" "lc_shouldStop (journal cfg) n (s, j) = lc_shouldStop cfg n s"
  "lc_attempt (journal cfg) n (s, j) = (case lc_attempt cfg n s of (a, s') \<Rightarrow> (a, s', j @ [Tried n]))"
  "lc_sleep (journal cfg) n dl (s, j) = (lc_sleep cfg n dl s, j @ [Slept n dl])"
  "lc_onSuccess (journal cfg) n a (s, j) = (case lc_onSuccess cfg n a s of (r, s') \<Rightarrow> (r, s', j))"
  "lc_onFailure (journal cfg) n a (s, j) = (case lc_onFailure cfg n a s of (r, s') \<Rightarrow> (r, s', j))"
  "lc_onExhausted (journal cfg) (s, j) = (case lc_onExhausted cfg s of (r, s') \<Rightarrow> (r, s', j @ [GaveUp]))"
  by (simp_all add: journal_def)

lemma step_cases:
  obtains (Inl) e s' where "m = (Inl e, s')" | (Inr) a s' where "m = (Inr a, s')"
  by (cases m; cases "fst m") auto

text \<open>The ways one round of the loop can go.\<close>

lemma round_cases:
  obtains (over) "n > lc_maxAttempts cfg"
    | (threw) e s1 where "n \<le> lc_maxAttempts cfg" "lc_attempt cfg n s = (Inl e, s1)"
    | (charged) a s1 where "n \<le> lc_maxAttempts cfg" "lc_attempt cfg n s = (Inr a, s1)" "lc_success cfg a"
    | (final) a s1 where "n \<le> lc_maxAttempts cfg" "\<not> n < lc_maxAttempts cfg" "lc_attempt cfg n s = (Inr a, s1)" "\<not> lc_success cfg a"
    | (failed) a s1 e s2 where "n < lc_maxAttempts cfg" "lc_attempt cfg n s = (Inr a, s1)" "\<not> lc_success cfg a"
        "lc_onFailure cfg n a s1 = (Inl e, s2)"
    | (stopped) a s1 s2 s3 reason where "n < lc_maxAttempts cfg" "lc_attempt cfg n s = (Inr a, s1)" "\<not> lc_success cfg a"
        "lc_onFailure cfg n a s1 = (Inr (), s2)" "lc_sleep cfg (Suc n) (nth_delay (lc_delays cfg) n) s2 = s3"
        "lc_shouldStop cfg (Suc n) s3 = Some reason"
    | (retried) a s1 s2 s3 where "n < lc_maxAttempts cfg" "lc_attempt cfg n s = (Inr a, s1)" "\<not> lc_success cfg a"
        "lc_onFailure cfg n a s1 = (Inr (), s2)" "lc_sleep cfg (Suc n) (nth_delay (lc_delays cfg) n) s2 = s3"
        "lc_shouldStop cfg (Suc n) s3 = None"
proof (cases "lc_attempt cfg n s" rule: step_cases)
  case att: (Inr a s1)
  show ?thesis
  proof (cases "lc_onFailure cfg n a s1" rule: step_cases)
    case (Inr u s2)
    then show ?thesis using att that
      by (cases "lc_shouldStop cfg (Suc n) (lc_sleep cfg (Suc n) (nth_delay (lc_delays cfg) n) s2)"; force)
  qed (use att that in force)
qed (use that in force)

lemma journal_loop:
  "\<exists>out s' j. dunning_loop (journal cfg) n (s, j0) = (out, s', j0 @ j) \<and> dunning_loop cfg n s = (out, s') \<and>
     prefix j (schedule (lc_maxAttempts cfg) (lc_delays cfg) n)"
proof (induction "Suc (lc_maxAttempts cfg) - n" arbitrary: n s j0)
  case 0
  then have "n > lc_maxAttempts cfg" by simp
  then show ?case by (cases "lc_onExhausted cfg s" rule: step_cases)
    (simp_all add: dunning_loop.simps [of _ n] schedule.simps [of _ _ n])
next
  case (Suc k)
  note unfold = dunning_loop.simps [of _ n] schedule.simps [of _ _ n]
  note IH = Suc.hyps(1) [of "Suc n"]
  show ?case
  proof (cases rule: round_cases [where cfg = cfg and n = n and s = s])
    case (charged a s1)
    then show ?thesis by (cases "lc_onSuccess cfg n a s1" rule: step_cases) (simp_all add: unfold)
  next
    case (final a s1)
    obtain out s' j where "dunning_loop (journal cfg) (Suc n) (s1, j0 @ [Tried n]) = (out, s', (j0 @ [Tried n]) @ j)"
      "dunning_loop cfg (Suc n) s1 = (out, s')" "prefix j (schedule (lc_maxAttempts cfg) (lc_delays cfg) (Suc n))"
      using IH Suc.hyps(2) by fastforce
    with final show ?thesis unfolding unfold
      by (intro exI [of _ out] exI [of _ s'] exI [of _ "Tried n # j"]) simp
  next
    case (retried a s1 s2 s3)
    let ?w = "[Tried n, Slept (Suc n) (nth_delay (lc_delays cfg) n)]"
    obtain out s' j where "dunning_loop (journal cfg) (Suc n) (s3, j0 @ ?w) = (out, s', (j0 @ ?w) @ j)"
      "dunning_loop cfg (Suc n) s3 = (out, s')" "prefix j (schedule (lc_maxAttempts cfg) (lc_delays cfg) (Suc n))"
      using IH Suc.hyps(2) by fastforce
    with retried show ?thesis by (intro exI [of _ out] exI [of _ s'] exI [of _ "?w @ j"]) (simp add: unfold Let_def)
  qed (use Suc.hyps(2) in \<open>simp_all add: unfold Let_def\<close>)
qed

lemma four_steps: "schedule 4 [''1d'', ''2d'', ''4d''] 1 =
  [Tried 1, Slept 2 (Some ''1d''), Tried 2, Slept 3 (Some ''2d''), Tried 3, Slept 4 (Some ''4d''), Tried 4, GaveUp]"
  by (simp add: schedule.simps nth_delay_def)

section \<open>Lemmas on the jobs\<close>

text \<open>A provider that approves, or declines, every charge.\<close>

definition always :: "bool \<Rightarrow> vps_http \<Rightarrow> bool" where
  "always ok http \<longleftrightarrow>
     (\<forall>prof a c cid idem. \<exists>r. chargeRenewal http prof a c cid idem = Inr r \<and> cr_success r = ok)"

definition answer :: "string \<Rightarrow> vps_http" where
  "answer st q = Inr \<lparr>rp_status = 200, rp_body = Some (JObj [(''status'', JStr st), (''id'', JStr ''vps-1'')])\<rparr>"

lemma answer_always: "always (toUpperCase st = ''CHARGED'') (answer st)"
  by (simp add: always_def chargeRenewal_def answer_def response_json_def json_get_def json_field_def upper_or_def)

text \<open>The subscription is there and can be charged.\<close>

definition chargeable :: "(string \<Rightarrow> vps_http result) \<Rightarrow> (string \<Rightarrow> string result) \<Rightarrow> bool \<Rightarrow> string \<Rightarrow> string \<Rightarrow> db \<Rightarrow> bool" where
  "chargeable vps decrypt ok i t d \<longleftrightarrow>
     (\<exists>s c http prof. find (\<lambda>s. su_id s = i) (subscriptions d) = Some s \<and>
        su_status s \<notin> {SUB_CANCELLED, SUB_EXPIRED, SUB_PAUSED} \<and> vps_config d t = Some c \<and>
        vps (pc_encryptedCredentials c) = Inr http \<and> decrypt (su_encryptedStoredProfileId s) = Inr prof \<and> always ok http)"

lemma record_billing_event_frame [frame_simps]:
  "subscriptions (record_billing_event e p r m d) = subscriptions d" "outbox (record_billing_event e p r m d) = outbox d"
  "vps_config (record_billing_event e p r m d) = vps_config d"
  by (auto simp: record_billing_event_def Let_def vps_config_def bump_def fun_eq_iff)

lemma chargeSubscription_answer:
  assumes "chargeable vps decrypt ok (cs_subscriptionId p) (cs_tenantId p) d"
  obtains a d' where "chargeSubscription vps decrypt e p d = (Inr a, d')" "at_success a = ok"
    "subscriptions d' = subscriptions d" "vps_config d' = vps_config d" "outbox d' = outbox d"
proof -
  from assms obtain s c http prof where f: "find (\<lambda>s. su_id s = cs_subscriptionId p) (subscriptions d) = Some s"
    "su_status s \<notin> {SUB_CANCELLED, SUB_EXPIRED, SUB_PAUSED}" "vps_config d (cs_tenantId p) = Some c"
    "vps (pc_encryptedCredentials c) = Inr http" "decrypt (su_encryptedStoredProfileId s) = Inr prof" "always ok http"
    unfolding chargeable_def by blast
  then obtain r where "chargeRenewal http prof (of_int (cs_amountCentimes p)) (cs_currency p) (cs_chargeId p) (cs_idempotencyId p) = Inr r"
    "cr_success r = ok" unfolding always_def by blast
  moreover define m where "m = (if cr_success r then None
    else Some (coalesce (json_string (json_field (cr_rawResponse r) ''message'')) ''Charge declined''))"
  ultimately have "chargeSubscription vps decrypt e p d = (Inr \<lparr>at_success = ok, at_vpsTransactionId = cr_providerTransactionId r,
      at_errorMessage = m, at_raw = maskObject (cr_rawResponse r) 0\<rparr>, record_billing_event e p r m d)"
    using f(1-5) by (simp add: chargeSubscription_def Let_def)
  then show ?thesis by (rule that) (simp_all add: frame_simps)
qed

lemma chargeable_cong:
  "subscriptions d' = subscriptions d \<Longrightarrow> vps_config d' = vps_config d \<Longrightarrow>
     chargeable vps decrypt ok i t d' = chargeable vps decrypt ok i t d"
  by (simp add: chargeable_def)

text \<open>Updates of the subscription that keep it chargeable.\<close>

lemma update_subscription_run:
  assumes "find (\<lambda>s. su_id s = i) (subscriptions d) = Some s" "\<And>r. su_id (f r) = su_id r"
  obtains d' where "update_subscription i f d = (Inr (f s), d')" "find (\<lambda>s. su_id s = i) (subscriptions d') = Some (f s)"
    "vps_config d' = vps_config d" "outbox d' = outbox d" "subscriptions d' = map (\<lambda>s. if su_id s = i then f s else s) (subscriptions d)"
    "billingEvents d' = billingEvents d"
proof (rule that)
  let ?d = "d\<lparr>subscriptions := map (\<lambda>s. if su_id s = i then f s else s) (subscriptions d)\<rparr>"
  show "update_subscription i f d = (Inr (f s), ?d)" using assms(1) by (simp add: update_subscription_def)
  show "find (\<lambda>s. su_id s = i) (subscriptions ?d) = Some (f s)"
    using find_update_key [of su_id f i i "subscriptions d"] assms by simp
qed (simp_all add: vps_config_def fun_eq_iff)

lemma chargeable_update:
  assumes "chargeable vps decrypt ok i t d" "\<And>r. su_id (f r) = su_id r"
    "\<And>r. su_encryptedStoredProfileId (f r) = su_encryptedStoredProfileId r"
    "\<And>r. su_status r \<notin> {SUB_CANCELLED, SUB_EXPIRED, SUB_PAUSED} \<Longrightarrow> su_status (f r) \<notin> {SUB_CANCELLED, SUB_EXPIRED, SUB_PAUSED}"
  obtains r d' where "update_subscription i f d = (Inr r, d')" "chargeable vps decrypt ok i t d'"
    "outbox d' = outbox d" "subscriptions d' = map (\<lambda>s. if su_id s = i then f s else s) (subscriptions d)"
proof -
  from assms(1) obtain s c http prof where f: "find (\<lambda>s. su_id s = i) (subscriptions d) = Some s"
    "su_status s \<notin> {SUB_CANCELLED, SUB_EXPIRED, SUB_PAUSED}" "vps_config d t = Some c"
    "vps (pc_encryptedCredentials c) = Inr http" "decrypt (su_encryptedStoredProfileId s) = Inr prof" "always ok http"
    unfolding chargeable_def by blast
  from update_subscription_run [OF f(1) assms(2)] obtain d' where d': "update_subscription i f d = (Inr (f s), d')"
    "find (\<lambda>s. su_id s = i) (subscriptions d') = Some (f s)" "vps_config d' = vps_config d" "outbox d' = outbox d"
    "subscriptions d' = map (\<lambda>s. if su_id s = i then f s else s) (subscriptions d)" by blast
  moreover have "chargeable vps decrypt ok i t d'"
    unfolding chargeable_def using f d' assms(3,4) by (intro exI [of _ "f s"] exI [of _ c] exI [of _ http] exI [of _ prof]) simp
  ultimately show ?thesis using that by blast
qed

lemma renewal_ladder_simps [simp]:
  "lc_maxAttempts (renewal_ladder vps decrypt es other p) = 4" "lc_success (renewal_ladder vps decrypt es other p) = at_success"
  "lc_sleep (renewal_ladder vps decrypt es other p) n dl d = other n d"
  "lc_delays (renewal_ladder vps decrypt es other p) = [''1d'', ''2d'', ''4d'']"
  by (simp_all add: renewal_ladder_def)

lemma advance_run:
  assumes "find (\<lambda>s. su_id s = rn_subscriptionId p) (subscriptions d) = Some s"
    "computeNextBillingDate (now e) (rn_intervalType p) (rn_intervalValue p) = Some next"
  defines "key \<equiv> billingIdempotencyKey (rn_subscriptionId p) next"
  defines "adv \<equiv> \<lambda>s. s\<lparr>su_status := SUB_ACTIVE, su_retryCount := 0, su_currentPeriodStart := Some (now e),
    su_currentPeriodEnd := Some next, su_nextBillingDate := Some next\<rparr>"
  obtains d' where "advanceBillingCycle e p d = (Inr (Advanced next), d')"
    "find (\<lambda>s. su_id s = rn_subscriptionId p) (subscriptions d') = Some (adv s)" "vps_config d' = vps_config d"
    "outbox d' = outbox d @ [RenewalDue key (p\<lparr>rn_chargeId := ''renewal-'' @ key, rn_idempotencyId := key, rn_attemptNumber := 1\<rparr>)]"
proof -
  have id: "su_id (adv r) = su_id r" for r by (simp add: adv_def)
  obtain d1 where d1: "update_subscription (rn_subscriptionId p) adv d = (Inr (adv s), d1)"
    "find (\<lambda>s. su_id s = rn_subscriptionId p) (subscriptions d1) = Some (adv s)" "vps_config d1 = vps_config d" "outbox d1 = outbox d"
    by (rule update_subscription_run [OF assms(1) id])
  show ?thesis
    by (rule that [of "send_event (RenewalDue key (p\<lparr>rn_chargeId := ''renewal-'' @ key, rn_idempotencyId := key, rn_attemptNumber := 1\<rparr>)) d1"])
       (use d1 assms(2) in \<open>simp_all add: advanceBillingCycle_def send_event_def Let_def vps_config_def fun_eq_iff
          key_def adv_def [symmetric]\<close>)
qed

text \<open>A renewal approved at the first attempt.\<close>

lemma renewal_approved:
  assumes "chargeable vps decrypt True (rn_subscriptionId p) (rn_tenantId p) d"
    "computeNextBillingDate (now (es 1)) (rn_intervalType p) (rn_intervalValue p) = Some next"
  defines "key \<equiv> billingIdempotencyKey (rn_subscriptionId p) next"
  obtains d' s where "billingRenewal vps decrypt es other runId p d = (Inr (Done (Advanced next)), d')"
    "find (\<lambda>s. su_id s = rn_subscriptionId p) (subscriptions d') = Some s" "su_status s = SUB_ACTIVE"
    "su_nextBillingDate s = Some next" "chargeable vps decrypt True (rn_subscriptionId p) (rn_tenantId p) d'"
    "outbox d' = outbox d @ [RenewalDue key (p\<lparr>rn_chargeId := ''renewal-'' @ key, rn_idempotencyId := key, rn_attemptNumber := 1\<rparr>)]"
proof -
  let ?i = "rn_subscriptionId p"
  obtain r d1 where d1: "update_subscription ?i (\<lambda>s. s\<lparr>su_inngestRunId := Some runId\<rparr>) d = (Inr r, d1)"
      "chargeable vps decrypt True ?i (rn_tenantId p) d1" "outbox d1 = outbox d"
    by (rule chargeable_update [OF assms(1), of "\<lambda>s. s\<lparr>su_inngestRunId := Some runId\<rparr>"]) (simp, simp, simp, rule that)
  define q where "q = \<lparr>cs_subscriptionId = ?i, cs_tenantId = rn_tenantId p, cs_chargeId = retry_suffix 1 (rn_chargeId p),
    cs_idempotencyId = retry_suffix 1 (rn_idempotencyId p), cs_amountCentimes = rn_amount p, cs_currency = rn_currency p,
    cs_attemptNumber = int 1, cs_upsert = True\<rparr>"
  obtain a d2 where d2: "chargeSubscription vps decrypt (es 1) q d1 = (Inr a, d2)" "at_success a"
    "subscriptions d2 = subscriptions d1" "vps_config d2 = vps_config d1" "outbox d2 = outbox d1"
    by (rule chargeSubscription_answer [of vps decrypt True q d1 "es 1"]) (use d1(2) that in \<open>simp_all add: q_def\<close>)
  from d1(2) obtain s c http prof where s: "find (\<lambda>s. su_id s = ?i) (subscriptions d1) = Some s" "vps_config d1 (rn_tenantId p) = Some c"
    "vps (pc_encryptedCredentials c) = Inr http" "decrypt (su_encryptedStoredProfileId s) = Inr prof" "always True http"
    unfolding chargeable_def by blast
  have f2: "find (\<lambda>s. su_id s = ?i) (subscriptions d2) = Some s" using s(1) d2(3) by simp
  define s' where "s' = s\<lparr>su_status := SUB_ACTIVE, su_retryCount := 0, su_currentPeriodStart := Some (now (es 1)),
    su_currentPeriodEnd := Some next, su_nextBillingDate := Some next\<rparr>"
  obtain d3 where d3: "advanceBillingCycle (es 1) p d2 = (Inr (Advanced next), d3)"
    "find (\<lambda>s. su_id s = ?i) (subscriptions d3) = Some s'" "vps_config d3 = vps_config d2"
    "outbox d3 = outbox d2 @ [RenewalDue key (p\<lparr>rn_chargeId := ''renewal-'' @ key, rn_idempotencyId := key, rn_attemptNumber := 1\<rparr>)]"
    by (rule advance_run [OF f2 assms(2), folded s'_def key_def]) (rule that)
  have s': "su_status s' = SUB_ACTIVE" "su_nextBillingDate s' = Some next"
    "su_encryptedStoredProfileId s' = su_encryptedStoredProfileId s" by (simp_all add: s'_def)
  have "lc_attempt (renewal_ladder vps decrypt es other p) 1 d1 = (Inr a, d2)"
    "lc_onSuccess (renewal_ladder vps decrypt es other p) 1 a d2 = (Inr (Advanced next), d3)"
    using d2(1) d3(1) by (simp_all add: renewal_ladder_def q_def)
  then have "runDunningLadder (renewal_ladder vps decrypt es other p) d1 = (Inr (Done (Advanced next)), d3)"
    using d2(2) by (simp add: runDunningLadder_def dunning_loop.simps [of _ "Suc 0"])
  moreover from assms(1) obtain s0 where "find (\<lambda>s. su_id s = ?i) (subscriptions d) = Some s0"
    "su_status s0 \<notin> {SUB_CANCELLED, SUB_EXPIRED, SUB_PAUSED}" unfolding chargeable_def by blast
  ultimately have "billingRenewal vps decrypt es other runId p d = (Inr (Done (Advanced next)), d3)"
    using d1(1) by (simp add: billingRenewal_def)
  moreover have "chargeable vps decrypt True ?i (rn_tenantId p) d3"
    unfolding chargeable_def using s d2 d3 s' by (intro exI [of _ s'] exI [of _ c] exI [of _ http] exI [of _ prof]) simp
  ultimately show ?thesis using that d3 d2 d1 s' by simp
qed

text \<open>A run of declined charges while nobody else touches the subscription.\<close>

definition others :: "string \<Rightarrow> db \<Rightarrow> subscription list" where
  "others i d = filter (\<lambda>s. su_id s \<noteq> i) (subscriptions d)"

lemma others_update:
  "(\<And>r. su_id (f r) = su_id r) \<Longrightarrow> filter (\<lambda>s. su_id s \<noteq> i) (map (\<lambda>s. if su_id s = i then f s else s) xs) = filter (\<lambda>s. su_id s \<noteq> i) xs"
  by (induction xs) auto

lemma declined_attempt:
  assumes "chargeable vps decrypt False (rn_subscriptionId p) (rn_tenantId p) d"
  obtains a d' where "lc_attempt (renewal_ladder vps decrypt es other p) n d = (Inr a, d')" "\<not> at_success a"
    "chargeable vps decrypt False (rn_subscriptionId p) (rn_tenantId p) d'" "subscriptions d' = subscriptions d"
proof -
  define q where "q = \<lparr>cs_subscriptionId = rn_subscriptionId p, cs_tenantId = rn_tenantId p, cs_chargeId = retry_suffix n (rn_chargeId p),
    cs_idempotencyId = retry_suffix n (rn_idempotencyId p), cs_amountCentimes = rn_amount p, cs_currency = rn_currency p,
    cs_attemptNumber = int n, cs_upsert = True\<rparr>"
  obtain a d' where "chargeSubscription vps decrypt (es n) q d = (Inr a, d')" "\<not> at_success a" "subscriptions d' = subscriptions d"
    "vps_config d' = vps_config d"
    by (rule chargeSubscription_answer [of vps decrypt False q d "es n"]) (use assms that in \<open>simp_all add: q_def\<close>)
  moreover from this have "chargeable vps decrypt False (rn_subscriptionId p) (rn_tenantId p) d'"
    using assms by (subst chargeable_cong [of _ d])
  ultimately show ?thesis by (intro that [of a d']) (simp_all add: renewal_ladder_def q_def)
qed

lemma failure_step:
  assumes "chargeable vps decrypt False (rn_subscriptionId p) (rn_tenantId p) d"
  obtains d' where "lc_onFailure (renewal_ladder vps decrypt es other p) n a d = (Inr (), d')"
    "chargeable vps decrypt False (rn_subscriptionId p) (rn_tenantId p) d'"
    "others (rn_subscriptionId p) d' = others (rn_subscriptionId p) d"
proof (cases "n = 1")
  case True
  let ?f = "\<lambda>s. s\<lparr>su_status := SUB_PAST_DUE, su_retryCount := 1\<rparr>"
  obtain r d' where "update_subscription (rn_subscriptionId p) ?f d = (Inr r, d')"
    "chargeable vps decrypt False (rn_subscriptionId p) (rn_tenantId p) d'"
    "subscriptions d' = map (\<lambda>s. if su_id s = rn_subscriptionId p then ?f s else s) (subscriptions d)"
    by (rule chargeable_update [OF assms, of ?f]) (simp, simp, simp, rule that)
  with True show ?thesis by (intro that [of d']) (simp_all add: renewal_ladder_def others_def others_update)
qed (use assms that in \<open>simp add: renewal_ladder_def\<close>)

lemma not_stopped:
  "chargeable vps decrypt ok (rn_subscriptionId p) (rn_tenantId p) d \<Longrightarrow>
     lc_shouldStop (renewal_ladder vps decrypt es other p) n d = None"
  by (auto simp: chargeable_def renewal_ladder_def)

lemma exhausted_step:
  assumes "chargeable vps decrypt ok (rn_subscriptionId p) (rn_tenantId p) d"
  obtains d' s where "lc_onExhausted (renewal_ladder vps decrypt es other p) d = (Inr Cancelled, d')"
    "find (\<lambda>s. su_id s = rn_subscriptionId p) (subscriptions d') = Some s" "su_status s = SUB_CANCELLED"
    "others (rn_subscriptionId p) d' = others (rn_subscriptionId p) d"
proof -
  let ?f = "\<lambda>s. s\<lparr>su_status := SUB_CANCELLED, su_inngestRunId := None\<rparr>"
  from assms obtain s where s: "find (\<lambda>s. su_id s = rn_subscriptionId p) (subscriptions d) = Some s" unfolding chargeable_def by blast
  obtain d' where "update_subscription (rn_subscriptionId p) ?f d = (Inr (?f s), d')"
    "find (\<lambda>s. su_id s = rn_subscriptionId p) (subscriptions d') = Some (?f s)"
    "subscriptions d' = map (\<lambda>s. if su_id s = rn_subscriptionId p then ?f s else s) (subscriptions d)"
    by (rule update_subscription_run [OF s, of ?f]) (simp, rule that)
  then show ?thesis by (intro that [of d' "?f s"]) (simp_all add: renewal_ladder_def others_def others_update)
qed

lemma declined_loop:
  assumes other: "\<And>n d. subscriptions (other n d) = subscriptions d \<and> providerConfigs (other n d) = providerConfigs d"
    and "chargeable vps decrypt False (rn_subscriptionId p) (rn_tenantId p) d" "n \<le> 4"
  shows "\<exists>d' s. dunning_loop (renewal_ladder vps decrypt es other p) n d = (Inr (Done Cancelled), d') \<and>
    find (\<lambda>s. su_id s = rn_subscriptionId p) (subscriptions d') = Some s \<and> su_status s = SUB_CANCELLED \<and>
    others (rn_subscriptionId p) d' = others (rn_subscriptionId p) d"
  using assms(2,3)
proof (induction "4 - n" arbitrary: n d)
  case 0
  obtain a d1 where d1: "lc_attempt (renewal_ladder vps decrypt es other p) n d = (Inr a, d1)" "\<not> at_success a"
    "chargeable vps decrypt False (rn_subscriptionId p) (rn_tenantId p) d1" "subscriptions d1 = subscriptions d"
    by (rule declined_attempt [OF "0.prems"(1)])
  obtain d' s where "lc_onExhausted (renewal_ladder vps decrypt es other p) d1 = (Inr Cancelled, d')"
    "find (\<lambda>s. su_id s = rn_subscriptionId p) (subscriptions d') = Some s" "su_status s = SUB_CANCELLED"
    "others (rn_subscriptionId p) d' = others (rn_subscriptionId p) d1" by (rule exhausted_step [OF d1(3)])
  moreover have "n = 4" using "0.hyps" "0.prems"(2) by simp
  ultimately show ?case using d1 by (simp add: dunning_loop.simps [of _ 4] dunning_loop.simps [of _ 5] others_def)
next
  case (Suc k)
  obtain a d1 where d1: "lc_attempt (renewal_ladder vps decrypt es other p) n d = (Inr a, d1)" "\<not> at_success a"
    "chargeable vps decrypt False (rn_subscriptionId p) (rn_tenantId p) d1" "subscriptions d1 = subscriptions d"
    by (rule declined_attempt [OF Suc.prems(1)])
  obtain d2 where d2: "lc_onFailure (renewal_ladder vps decrypt es other p) n a d1 = (Inr (), d2)"
    "chargeable vps decrypt False (rn_subscriptionId p) (rn_tenantId p) d2"
    "others (rn_subscriptionId p) d2 = others (rn_subscriptionId p) d1" by (rule failure_step [OF d1(3)])
  define d3 where "d3 = other (Suc n) d2"
  have c3: "chargeable vps decrypt False (rn_subscriptionId p) (rn_tenantId p) d3"
    using d2(2) other by (subst chargeable_cong [of _ d2]) (simp_all add: d3_def vps_config_def fun_eq_iff)
  have "others (rn_subscriptionId p) d3 = others (rn_subscriptionId p) d"
    using d2(3) d1(4) other by (simp add: d3_def others_def)
  moreover have "n < 4" using Suc.hyps(2) by simp
  then have "dunning_loop (renewal_ladder vps decrypt es other p) n d = dunning_loop (renewal_ladder vps decrypt es other p) (Suc n) d3"
    using d1 d2 not_stopped [OF c3] by (subst dunning_loop.simps) (simp add: d3_def [symmetric] Let_def)
  ultimately show ?case using Suc.hyps(1) [of "Suc n" d3] Suc.hyps(2) c3 by simp
qed

section \<open>Lemmas on installments\<close>

text \<open>The agreement is there and every charge is approved.\<close>

definition payable :: "(string \<Rightarrow> vps_http result) \<Rightarrow> (string \<Rightarrow> string result) \<Rightarrow> installment_agreement \<Rightarrow> db \<Rightarrow> bool" where
  "payable vps decrypt a d \<longleftrightarrow>
     find (\<lambda>x. ia_id x = ia_id a) (installmentAgreements d) = Some a \<and>
     ia_status a \<notin> {AGREEMENT_CANCELLED, AGREEMENT_COMPLETED, AGREEMENT_DEFAULTED} \<and>
     (\<exists>c http prof. vps_config d (ia_tenantId a) = Some c \<and> vps (pc_encryptedCredentials c) = Inr http \<and>
        decrypt (ia_encryptedStoredProfileId a) = Inr prof \<and> always True http)"

lemma record_installment_charge_frame [frame_simps]:
  "installmentAgreements (record_installment_charge e p g r m d) = installmentAgreements d"
  "outbox (record_installment_charge e p g r m d) = outbox d" "vps_config (record_installment_charge e p g r m d) = vps_config d"
  by (auto simp: record_installment_charge_def Let_def vps_config_def bump_def fun_eq_iff split: option.splits)

lemma chargeInstallment_approved:
  assumes "payable vps decrypt a d" "ci_agreementId p = ia_id a" "ci_tenantId p = ia_tenantId a"
  obtains r d' where "chargeInstallment vps decrypt e p d = (Inr r, d')" "at_success r"
    "installmentAgreements d' = installmentAgreements d" "vps_config d' = vps_config d" "outbox d' = outbox d"
proof -
  define n where "n = Math_round (js_mul (Number (of_int (ia_installmentAmount a) / 100)) 100)"
  from assms(1) obtain c http prof where f: "vps_config d (ia_tenantId a) = Some c"
    "vps (pc_encryptedCredentials c) = Inr http" "decrypt (ia_encryptedStoredProfileId a) = Inr prof" "always True http"
    "find (\<lambda>x. ia_id x = ia_id a) (installmentAgreements d) = Some a"
    "ia_status a \<notin> {AGREEMENT_CANCELLED, AGREEMENT_COMPLETED, AGREEMENT_DEFAULTED}"
    unfolding payable_def by blast
  then obtain r where "chargeRenewal http prof (of_int n) (ia_currency a) (ci_chargeId p) (ci_idempotencyId p) = Inr r" "cr_success r"
    unfolding always_def by blast
  then have "chargeInstallment vps decrypt e p d = (Inr \<lparr>at_success = True, at_vpsTransactionId = cr_providerTransactionId r,
      at_errorMessage = None, at_raw = JObj []\<rparr>, record_installment_charge e p a r None d)"
    using f assms(2,3) by (simp add: chargeInstallment_def Let_def n_def)
  then show ?thesis by (rule that) (simp_all add: frame_simps)
qed

lemma update_agreement_run:
  assumes "find (\<lambda>x. ia_id x = i) (installmentAgreements d) = Some a" "\<And>r. ia_id (f r) = ia_id r"
  obtains d' where "update_agreement i f d = (Inr (f a), d')" "find (\<lambda>x. ia_id x = i) (installmentAgreements d') = Some (f a)"
    "vps_config d' = vps_config d" "outbox d' = outbox d"
proof (rule that)
  let ?d = "d\<lparr>installmentAgreements := map (\<lambda>x. if ia_id x = i then f x else x) (installmentAgreements d)\<rparr>"
  show "update_agreement i f d = (Inr (f a), ?d)" using assms(1) by (simp add: update_agreement_def)
  show "find (\<lambda>x. ia_id x = i) (installmentAgreements ?d) = Some (f a)"
    using find_update_key [of ia_id f i i "installmentAgreements d"] assms by simp
qed (simp_all add: vps_config_def fun_eq_iff)

text \<open>What an approved charge makes of the agreement.\<close>

definition after_charge :: "int \<Rightarrow> installment_agreement \<Rightarrow> installment_agreement" where
  "after_charge nextDate a =
     (if ia_paidCount a + 1 \<ge> ia_totalInstallments a
      then a\<lparr>ia_paidCount := ia_paidCount a + 1, ia_status := AGREEMENT_COMPLETED, ia_inngestRunId := None, ia_nextChargeDate := None\<rparr>
      else a\<lparr>ia_paidCount := ia_paidCount a + 1, ia_nextChargeDate := Some nextDate, ia_inngestRunId := None\<rparr>)"

definition next_due :: "installment_agreement \<Rightarrow> int \<Rightarrow> installment_due" where
  "next_due a n =
     \<lparr>du_agreementId = ia_id a, du_installmentNumber = n, du_tenantId = ia_tenantId a,
      du_chargeId = ''inst-'' @ drop (length (ia_id a) - 8) (ia_id a) @ ''-'' @ show_int n,
      du_idempotencyId = ia_id a @ ''-inst-'' @ show_int n\<rparr>"

definition due_event :: "installment_due \<Rightarrow> job_event" where
  "due_event p = InstallmentChargeDue (du_idempotencyId p) p"

lemma installment_success_run:
  assumes "find (\<lambda>x. ia_id x = ia_id a) (installmentAgreements d) = Some a"
    "setUTCMonth (now e) (getUTCMonth (now e) + 1) = Some nextDate"
  obtains r d' where "onInstallmentSuccess e (ia_id a) n d = (Inr r, d')"
    "find (\<lambda>x. ia_id x = ia_id a) (installmentAgreements d') = Some (after_charge nextDate a)" "vps_config d' = vps_config d"
    "outbox d' = outbox d @ (if ia_paidCount a + 1 \<ge> ia_totalInstallments a then [] else [due_event (next_due a (n + 1))])"
proof (cases "ia_paidCount a + 1 \<ge> ia_totalInstallments a")
  case True
  let ?f = "\<lambda>x. x\<lparr>ia_paidCount := ia_paidCount a + 1, ia_status := AGREEMENT_COMPLETED, ia_inngestRunId := None, ia_nextChargeDate := None\<rparr>"
  obtain d' where "update_agreement (ia_id a) ?f d = (Inr (?f a), d')" "find (\<lambda>x. ia_id x = ia_id a) (installmentAgreements d') = Some (?f a)"
    "vps_config d' = vps_config d" "outbox d' = outbox d"
    by (rule update_agreement_run [OF assms(1), of ?f]) (simp, rule that)
  with True show ?thesis using assms(1)
    by (intro that [of AgreementComplete d']) (simp_all add: onInstallmentSuccess_def after_charge_def)
next
  case False
  let ?f = "\<lambda>x. x\<lparr>ia_paidCount := ia_paidCount a + 1, ia_nextChargeDate := Some nextDate, ia_inngestRunId := None\<rparr>"
  obtain d' where "update_agreement (ia_id a) ?f d = (Inr (?f a), d')" "find (\<lambda>x. ia_id x = ia_id a) (installmentAgreements d') = Some (?f a)"
    "vps_config d' = vps_config d" "outbox d' = outbox d"
    by (rule update_agreement_run [OF assms(1), of ?f]) (simp, rule that)
  with False assms show ?thesis
    by (intro that [of "NextInstallment (n + 1) nextDate" "send_event (due_event (next_due a (n + 1))) d'"])
       (simp_all add: onInstallmentSuccess_def after_charge_def Let_def send_event_def due_event_def next_due_def vps_config_def fun_eq_iff)
qed

lemma installment_approved:
  fixes runId :: string
  assumes "payable vps decrypt a d" "du_agreementId p = ia_id a" "du_tenantId p = ia_tenantId a"
    "setUTCMonth (now (es 1)) (getUTCMonth (now (es 1)) + 1) = Some nextDate"
  defines "b \<equiv> after_charge nextDate (a\<lparr>ia_inngestRunId := Some runId\<rparr>)"
  obtains r d' where "installmentCharge vps decrypt es other runId p d = (Inr (Done r), d')"
    "find (\<lambda>x. ia_id x = ia_id a) (installmentAgreements d') = Some b" "vps_config d' = vps_config d"
    "outbox d' = outbox d @ (if ia_paidCount a + 1 \<ge> ia_totalInstallments a then []
       else [due_event (next_due a (du_installmentNumber p + 1))])"
proof -
  let ?f = "\<lambda>x. x\<lparr>ia_inngestRunId := Some runId\<rparr>"
  define a1 where "a1 = ?f a"
  have same: "ia_id a1 = ia_id a" "ia_tenantId a1 = ia_tenantId a" "ia_paidCount a1 = ia_paidCount a"
    "ia_totalInstallments a1 = ia_totalInstallments a" "next_due a1 k = next_due a k" for k
    by (simp_all add: a1_def next_due_def)
  have fa: "find (\<lambda>x. ia_id x = ia_id a) (installmentAgreements d) = Some a" using assms(1) by (simp add: payable_def)
  obtain d1 where d1: "update_agreement (ia_id a) ?f d = (Inr a1, d1)" "find (\<lambda>x. ia_id x = ia_id a) (installmentAgreements d1) = Some a1"
    "vps_config d1 = vps_config d" "outbox d1 = outbox d"
    by (rule update_agreement_run [OF fa, of ?f]) (simp, simp add: a1_def that)
  have p1: "payable vps decrypt a1 d1" using assms(1) d1 by (simp add: payable_def a1_def)
  define q where "q = \<lparr>ci_agreementId = du_agreementId p, ci_tenantId = du_tenantId p, ci_chargeId = retry_suffix 1 (du_chargeId p),
    ci_idempotencyId = retry_suffix 1 (du_idempotencyId p), ci_installmentNumber = du_installmentNumber p, ci_attemptNumber = int 1\<rparr>"
  obtain r d2 where d2: "chargeInstallment vps decrypt (es 1) q d1 = (Inr r, d2)" "at_success r"
    "installmentAgreements d2 = installmentAgreements d1" "vps_config d2 = vps_config d1" "outbox d2 = outbox d1"
    by (rule chargeInstallment_approved [OF p1, of q "es 1"]) (use assms same that in \<open>simp_all add: q_def\<close>)
  have f2: "find (\<lambda>x. ia_id x = ia_id a1) (installmentAgreements d2) = Some a1" using d1(2) d2(3) same by simp
  obtain out d3 where d3: "onInstallmentSuccess (es 1) (ia_id a1) (du_installmentNumber p) d2 = (Inr out, d3)"
    "find (\<lambda>x. ia_id x = ia_id a1) (installmentAgreements d3) = Some (after_charge nextDate a1)" "vps_config d3 = vps_config d2"
    "outbox d3 = outbox d2 @ (if ia_paidCount a1 + 1 \<ge> ia_totalInstallments a1 then [] else [due_event (next_due a1 (du_installmentNumber p + 1))])"
    by (rule installment_success_run [OF f2 assms(4)])
  have "lc_attempt (installment_ladder vps decrypt es other p) 1 d1 = (Inr r, d2)"
    "lc_onSuccess (installment_ladder vps decrypt es other p) 1 r d2 = (Inr out, d3)"
    using d2(1) d3(1) same assms(2) by (simp_all add: installment_ladder_def q_def)
  then have "runDunningLadder (installment_ladder vps decrypt es other p) d1 = (Inr (Done out), d3)"
    using d2(2) by (simp add: runDunningLadder_def dunning_loop.simps [of _ "Suc 0"] installment_ladder_def)
  then have "installmentCharge vps decrypt es other runId p d = (Inr (Done out), d3)"
    using d1(1) fa assms(1,2) by (simp add: installmentCharge_def payable_def)
  then show ?thesis by (rule that) (use d3 d2 d1 same in \<open>simp_all add: b_def a1_def [symmetric]\<close>)
qed

text \<open>The job runner delivering the event each run of the job sends, at most \<open>k\<close> times.\<close>

fun deliver_installments :: "nat \<Rightarrow> (installment_due \<Rightarrow> installment_result ladder_outcome job_step) \<Rightarrow> installment_due \<Rightarrow> db \<Rightarrow> db" where
  "deliver_installments 0 job p d = d"
| "deliver_installments (Suc k) job p d =
     (let d1 = snd (job p d)
      in case drop (length (outbox d)) (outbox d1) of
           [InstallmentChargeDue _ p'] \<Rightarrow> deliver_installments k job p' d1
         | _ \<Rightarrow> d1)"

lemma installments_delivered:
  assumes "payable vps decrypt a d" "ia_paidCount a < ia_totalInstallments a"
    "ia_totalInstallments a - ia_paidCount a \<le> int k" "du_agreementId p = ia_id a" "du_tenantId p = ia_tenantId a"
    "setUTCMonth (now (es 1)) (getUTCMonth (now (es 1)) + 1) = Some nextDate"
  shows "\<exists>b. find (\<lambda>x. ia_id x = ia_id a) (installmentAgreements (deliver_installments k (installmentCharge vps decrypt es other runId) p d)) = Some b \<and>
    ia_status b = AGREEMENT_COMPLETED \<and> ia_paidCount b = ia_totalInstallments a"
  using assms(1-5)
proof (induction k arbitrary: a p d)
  case (Suc k)
  define b where "b = after_charge nextDate (a\<lparr>ia_inngestRunId := Some runId\<rparr>)"
  obtain r d1 where run: "installmentCharge vps decrypt es other runId p d = (Inr (Done r), d1)"
    "find (\<lambda>x. ia_id x = ia_id a) (installmentAgreements d1) = Some b" "vps_config d1 = vps_config d"
    "outbox d1 = outbox d @ (if ia_paidCount a + 1 \<ge> ia_totalInstallments a then [] else [due_event (next_due a (du_installmentNumber p + 1))])"
    unfolding b_def by (rule installment_approved [where es = es, OF Suc.prems(1,4,5) assms(6)])
  show ?case
  proof (cases "ia_paidCount a + 1 \<ge> ia_totalInstallments a")
    case True
    then show ?thesis using run Suc.prems(2) by (simp add: b_def after_charge_def)
  next
    case False
    have b: "ia_id b = ia_id a" "ia_tenantId b = ia_tenantId a" "ia_totalInstallments b = ia_totalInstallments a"
      "ia_paidCount b = ia_paidCount a + 1" "payable vps decrypt b d1"
      using False run(2,3) Suc.prems(1) by (auto simp: b_def after_charge_def payable_def)
    let ?p = "next_due a (du_installmentNumber p + 1)"
    have "du_agreementId ?p = ia_id b" "du_tenantId ?p = ia_tenantId b" using b by (simp_all add: next_due_def)
    from Suc.IH [OF b(5) _ _ this] show ?thesis
      using False Suc.prems(2,3) run b by (simp add: due_event_def)
  qed
qed simp

section \<open>An example\<close>

text \<open>A tenant with a connected provider, an active monthly subscription and an agreement of three installments, one paid.\<close>

definition demo_subscription :: subscription where
  "demo_subscription =
     \<lparr>su_id = ''subscription-abcdefghijkl'', su_tenantId = ''t1'', su_customerId = ''c1'', su_encryptedStoredProfileId = ''p'',
      su_initialPaymentIntentId = ''i1'', su_paymentLinkId = None, su_inngestRunId = None, su_status = SUB_ACTIVE, su_amount = 5000,
      su_currency = MAD, su_intervalType = MONTHLY, su_intervalValue = 1, su_nextBillingDate = Some 0, su_currentPeriodStart = None,
      su_currentPeriodEnd = None, su_retryCount = 0, su_maxRetries = 3\<rparr>"

definition demo_agreement :: installment_agreement where
  "demo_agreement =
     \<lparr>ia_id = ''agreement-1'', ia_tenantId = ''t1'', ia_customerId = ''c1'', ia_planId = ''pl'', ia_paymentLinkId = None,
      ia_initialPaymentIntentId = ''i1'', ia_encryptedStoredProfileId = ''p'', ia_status = AGREEMENT_ACTIVE, ia_principalAmount = 30000,
      ia_downPayment = 10000, ia_installmentAmount = 10000, ia_totalInstallments = 3, ia_paidCount = 1, ia_currency = MAD,
      ia_nextChargeDate = None, ia_inngestRunId = None\<rparr>"

definition demo_billing_db :: db where
  "demo_billing_db = empty_db\<lparr>subscriptions := [demo_subscription], installmentAgreements := [demo_agreement],
     providerConfigs := [\<lparr>pc_id = ''c'', pc_tenantId = ''t1'', pc_provider = VPS, pc_encryptedCredentials = ''k'', pc_status = CONFIG_CONNECTED\<rparr>]\<rparr>"

definition demo_renewal :: renewal_due where
  "demo_renewal =
     \<lparr>rn_subscriptionId = su_id demo_subscription, rn_tenantId = ''t1'', rn_customerId = ''c1'', rn_amount = 5000, rn_currency = MAD,
      rn_intervalType = MONTHLY, rn_intervalValue = 1, rn_chargeId = ''renewal-1'', rn_idempotencyId = ''k1'', rn_attemptNumber = 1\<rparr>"

lemma demo_approves: "always True (answer ''CHARGED'')"
proof -
  have "toUpperCase ''CHARGED'' = ''CHARGED''" by code_simp
  then show ?thesis using answer_always [of "''CHARGED''"] by simp
qed

lemma demo_declines: "always False (answer ''DECLINED'')"
proof -
  have "toUpperCase ''DECLINED'' \<noteq> ''CHARGED''" by code_simp
  then show ?thesis using answer_always [of "''DECLINED''"] by simp
qed

lemma demo_chargeable:
  "always ok http \<Longrightarrow> chargeable (\<lambda>c. Inr http) Inr ok (rn_subscriptionId demo_renewal) (rn_tenantId demo_renewal) demo_billing_db"
  by (simp add: chargeable_def demo_billing_db_def demo_subscription_def demo_renewal_def vps_config_def)

lemma demo_month: "computeNextBillingDate 0 MONTHLY 1 = Some 2678400000" "setUTCMonth 0 (getUTCMonth 0 + 1) = Some 2678400000"
  by code_simp+

section \<open>Properties\<close>

text \<open>
  C38. The retry ladder. Every run ends, for whatever the attempts, the callbacks and the other requests do, and what it does is
  an initial part of its schedule: the attempts in order, one delay between two attempts in the order of the list, no attempt
  after the last, and the exhaustion handler only after all of them. The journal that records this does not change the
  outcome. The renewal and the installment jobs make at most four attempts, after one, two and four days.
\<close>

theorem dunning_schedule:
  "(\<exists>out s' j. runDunningLadder (journal cfg) (s, []) = (out, s', j) \<and> runDunningLadder cfg s = (out, s') \<and>
      prefix j (schedule (lc_maxAttempts cfg) (lc_delays cfg) 1)) \<and>
   schedule (lc_maxAttempts (renewal_ladder vps decrypt es other p)) (lc_delays (renewal_ladder vps decrypt es other p)) 1 =
     [Tried 1, Slept 2 (Some ''1d''), Tried 2, Slept 3 (Some ''2d''), Tried 3, Slept 4 (Some ''4d''), Tried 4, GaveUp] \<and>
   schedule (lc_maxAttempts (installment_ladder vps decrypt es other p')) (lc_delays (installment_ladder vps decrypt es other p')) 1 =
     [Tried 1, Slept 2 (Some ''1d''), Tried 2, Slept 3 (Some ''2d''), Tried 3, Slept 4 (Some ''4d''), Tried 4, GaveUp]"
  using journal_loop [of cfg 1 s "[]"] four_steps by (simp add: runDunningLadder_def installment_ladder_def)

text \<open>
  A subscription that cannot be charged is cancelled. When the provider declines every charge and nobody else touches
  the subscriptions and provider configurations meanwhile, the renewal job ends with the subscription cancelled, and the
  other subscriptions are as before.
\<close>

lemma renewal_gives_up:
  assumes "\<And>n d. subscriptions (other n d) = subscriptions d \<and> providerConfigs (other n d) = providerConfigs d"
    "chargeable vps decrypt False (rn_subscriptionId p) (rn_tenantId p) d"
  shows "\<exists>d' s. billingRenewal vps decrypt es other runId p d = (Inr (Done Cancelled), d') \<and>
    find (\<lambda>s. su_id s = rn_subscriptionId p) (subscriptions d') = Some s \<and> su_status s = SUB_CANCELLED \<and>
    others (rn_subscriptionId p) d' = others (rn_subscriptionId p) d"
proof -
  let ?f = "\<lambda>s. s\<lparr>su_inngestRunId := Some runId\<rparr>"
  obtain r d1 where d1: "update_subscription (rn_subscriptionId p) ?f d = (Inr r, d1)"
      "chargeable vps decrypt False (rn_subscriptionId p) (rn_tenantId p) d1"
      "subscriptions d1 = map (\<lambda>s. if su_id s = rn_subscriptionId p then ?f s else s) (subscriptions d)"
    by (rule chargeable_update [OF assms(2), of ?f]) (simp, simp, simp, rule that)
  from assms(2) obtain s0 where "find (\<lambda>s. su_id s = rn_subscriptionId p) (subscriptions d) = Some s0"
    "su_status s0 \<notin> {SUB_CANCELLED, SUB_EXPIRED, SUB_PAUSED}" unfolding chargeable_def by blast
  then have "billingRenewal vps decrypt es other runId p d = runDunningLadder (renewal_ladder vps decrypt es other p) d1"
    using d1(1) by (simp add: billingRenewal_def)
  moreover have "others (rn_subscriptionId p) d1 = others (rn_subscriptionId p) d" using d1(3) by (simp add: others_def others_update)
  ultimately show ?thesis using declined_loop [OF assms(1) d1(2), of 1 es] by (simp add: runDunningLadder_def)
qed

text \<open>
  A successful renewal and the one it triggers. When the provider approves the charge, the subscription becomes active with
  the next billing date of its cycle and the event of the next renewal is sent. The job does not look at that date: delivered
  at once, the event charges the subscription again.
\<close>

lemma renewal_charged_twice:
  assumes "chargeable vps decrypt True (rn_subscriptionId p) (rn_tenantId p) d"
    "computeNextBillingDate (now (es 1)) (rn_intervalType p) (rn_intervalValue p) = Some next"
  shows "\<exists>d1 s p' d2. billingRenewal vps decrypt es other runId p d = (Inr (Done (Advanced next)), d1) \<and>
    find (\<lambda>s. su_id s = rn_subscriptionId p) (subscriptions d1) = Some s \<and> su_status s = SUB_ACTIVE \<and> su_nextBillingDate s = Some next \<and>
    outbox d1 = outbox d @ [RenewalDue (billingIdempotencyKey (rn_subscriptionId p) next) p'] \<and> rn_amount p' = rn_amount p \<and>
    billingRenewal vps decrypt es other runId' p' d1 = (Inr (Done (Advanced next)), d2)"
proof -
  define key where "key = billingIdempotencyKey (rn_subscriptionId p) next"
  define p' where "p' = p\<lparr>rn_chargeId := ''renewal-'' @ key, rn_idempotencyId := key, rn_attemptNumber := 1\<rparr>"
  obtain d1 s where d1: "billingRenewal vps decrypt es other runId p d = (Inr (Done (Advanced next)), d1)"
    "find (\<lambda>s. su_id s = rn_subscriptionId p) (subscriptions d1) = Some s" "su_status s = SUB_ACTIVE"
    "su_nextBillingDate s = Some next" "chargeable vps decrypt True (rn_subscriptionId p) (rn_tenantId p) d1"
    "outbox d1 = outbox d @ [RenewalDue key p']"
    by (rule renewal_approved [where es = es, OF assms, folded key_def, folded p'_def]) (rule that)
  have "chargeable vps decrypt True (rn_subscriptionId p') (rn_tenantId p') d1" using d1(5) by (simp add: p'_def)
  then obtain d2 where "billingRenewal vps decrypt es other runId' p' d1 = (Inr (Done (Advanced next)), d2)"
    by (rule renewal_approved [where es = es]) (use assms(2) that in \<open>simp_all add: p'_def\<close>)
  with d1 show ?thesis by (intro exI [of _ d1] exI [of _ s] exI [of _ p'] exI [of _ d2]) (simp add: key_def p'_def)
qed

text \<open>
  An agreement is paid to the end, and at once. When the provider approves every charge, delivering the event that each
  run of the installment job sends completes the agreement after exactly its remaining installments. The deliveries need no
  time to pass: all of them can run at the instant of the first.
\<close>

lemma installments_all_charged:
  assumes "payable vps decrypt a d" "ia_paidCount a < ia_totalInstallments a" "du_agreementId p = ia_id a"
    "du_tenantId p = ia_tenantId a" "setUTCMonth (now e) (getUTCMonth (now e) + 1) = Some nextDate"
  shows "\<exists>b. find (\<lambda>x. ia_id x = ia_id a) (installmentAgreements
      (deliver_installments (nat (ia_totalInstallments a - ia_paidCount a)) (installmentCharge vps decrypt (\<lambda>n. e) other runId) p d)) = Some b \<and>
    ia_status b = AGREEMENT_COMPLETED \<and> ia_paidCount b = ia_totalInstallments a"
  using assms by (intro installments_delivered [where nextDate = nextDate]) simp_all

text \<open>
  Charges share one record. For a subscription id of 25 characters, the length of a generated id, two successful charges
  of the subscription leave a single billing event: the second, of whatever cycle, overwrites the first and its own charge
  id is not recorded.
\<close>

lemma billing_events_collide:
  assumes "chargeSubscription vps decrypt e p d = (Inr a, d1)" "at_success a" "cs_upsert p"
    "chargeSubscription vps' decrypt' e' p' d1 = (Inr a', d2)" "at_success a'" "cs_upsert p'"
    "cs_subscriptionId p' = cs_subscriptionId p" "length (cs_subscriptionId p) = 25"
  shows "map be_id (billingEvents d2) = map be_id (billingEvents d1) \<and>
    map be_chargeId (billingEvents d2) = map be_chargeId (billingEvents d1)"
proof -
  have ids: "billing_event_id p = cs_subscriptionId p" "billing_event_id p' = cs_subscriptionId p"
    using assms(7,8) by (simp_all add: billing_event_id_def)
  have run: "\<exists>r m. d'' = record_billing_event e q r m d'"
    if "chargeSubscription vps decrypt e q d' = (Inr b, d'')" "at_success b" for vps decrypt e q d' b d''
    using that by (auto simp: chargeSubscription_def not_charged_def Let_def split: option.splits sum.splits if_splits)
  obtain r m where "d1 = record_billing_event e p r m d" using run [OF assms(1,2)] by blast
  then have "find (\<lambda>b. be_id b = cs_subscriptionId p) (billingEvents d1) \<noteq> None"
    using assms(3) ids find_update_key [of be_id _ "cs_subscriptionId p" "cs_subscriptionId p" "billingEvents d"]
    by (auto simp: record_billing_event_def Let_def find_append split: option.splits)
  moreover obtain r' m' where "d2 = record_billing_event e' p' r' m' d1" using run [OF assms(4,5)] by blast
  ultimately show ?thesis using assms(6) ids by (simp add: record_billing_event_def Let_def comp_def if_distrib cong: if_cong)
qed

end
