(* ===== verification/Risk.thy ===== *)
theory Risk
  imports Schema
begin

text \<open>
  \<open>src/lib/risk.ts\<close>, \<open>risk-scorer.ts\<close>, \<open>risk-db.ts\<close> and \<open>src/jobs/riskEvaluate.inngest.ts\<close>: the amount and velocity rules,
  the in-memory sliding window, the database-backed counters and the job that records a decision per payment.
\<close>

section \<open>The rules\<close>

definition RISK_VERDICTS :: "risk_verdict list" where
  "RISK_VERDICTS = [ALLOW, REVIEW, BLOCK]"

definition RISK_REASONS :: "string list" where
  "RISK_REASONS = [''amount_exceeds_threshold'', ''velocity_exceeds_threshold'']"

record risk_thresholds =
  maxAmountCents :: centimes
  maxPerWindow :: int

definition DEFAULT_RISK_THRESHOLDS :: risk_thresholds where
  "DEFAULT_RISK_THRESHOLDS = \<lparr>maxAmountCents = 1000000, maxPerWindow = 10\<rparr>"

definition DEFAULT_VELOCITY_WINDOW_SECONDS :: int where
  "DEFAULT_VELOCITY_WINDOW_SECONDS = 3600"

record risk_event =
  ev_id :: string
  ev_tenantId :: string
  ev_amountCents :: centimes
  ev_occurredAt :: int

type_synonym risk_outcome = "risk_verdict \<times> int \<times> string list"

definition evaluateRisk :: "centimes \<Rightarrow> int \<Rightarrow> risk_thresholds \<Rightarrow> risk_outcome" where
  "evaluateRisk amount velocityCount thresholds =
     (if amount > maxAmountCents thresholds then (BLOCK, velocityCount, [''amount_exceeds_threshold''])
      else if velocityCount \<ge> maxPerWindow thresholds then (REVIEW, velocityCount, [''velocity_exceeds_threshold''])
      else (ALLOW, velocityCount, []))"

section \<open>The in-memory window\<close>

text \<open>The private map of \<open>MemoryVelocityStore\<close>: one list of instants (milliseconds) per key.\<close>

type_synonym velocity_store = "string \<rightharpoonup> int list"

definition prune :: "string \<Rightarrow> int \<Rightarrow> int \<Rightarrow> velocity_store \<Rightarrow> velocity_store" where
  "prune key tm windowSeconds events =
     (case events key of
        None \<Rightarrow> events
      | Some ts \<Rightarrow> events(key \<mapsto> filter (\<lambda>t. t \<ge> tm - windowSeconds * 1000) ts))"

definition store_add :: "string \<Rightarrow> int \<Rightarrow> int \<Rightarrow> velocity_store \<Rightarrow> velocity_store" where
  "store_add key tm windowSeconds events =
     (let pruned = prune key tm windowSeconds events
      in pruned(key \<mapsto> coalesce (pruned key) [] @ [tm]))"

definition store_count :: "string \<Rightarrow> int \<Rightarrow> int \<Rightarrow> velocity_store \<Rightarrow> int \<times> velocity_store" where
  "store_count key tm windowSeconds events =
     (let pruned = prune key tm windowSeconds events
      in (int (length (coalesce (pruned key) [])), pruned))"

text \<open>\<open>Evaluator.evaluate\<close>: the count is taken before the event is recorded.\<close>

definition evaluate :: "risk_thresholds \<Rightarrow> int \<Rightarrow> risk_event \<Rightarrow> velocity_store \<Rightarrow> risk_outcome \<times> velocity_store" where
  "evaluate thresholds windowSeconds ev events =
     (let (n, events1) = store_count (ev_tenantId ev) (ev_occurredAt ev) windowSeconds events;
          events2 = store_add (ev_tenantId ev) (ev_occurredAt ev) windowSeconds events1
      in (evaluateRisk (ev_amountCents ev) n thresholds, events2))"

fun evaluate_all :: "risk_thresholds \<Rightarrow> int \<Rightarrow> risk_event list \<Rightarrow> velocity_store \<Rightarrow> risk_outcome list" where
  "evaluate_all th w [] events = []"
| "evaluate_all th w (ev # evs) events =
     (let (r, events') = evaluate th w ev events in r # evaluate_all th w evs events')"

section \<open>The scorer of payment intents\<close>

fun RISK_TIER_THRESHOLDS :: "risk_tier \<Rightarrow> risk_thresholds" where
  "RISK_TIER_THRESHOLDS TIER_LOW = \<lparr>maxAmountCents = 10000000, maxPerWindow = 200\<rparr>"
| "RISK_TIER_THRESHOLDS TIER_MEDIUM = DEFAULT_RISK_THRESHOLDS"
| "RISK_TIER_THRESHOLDS TIER_HIGH = \<lparr>maxAmountCents = 100000, maxPerWindow = 5\<rparr>"

definition thresholdsForTier :: "risk_tier option \<Rightarrow> risk_thresholds" where
  "thresholdsForTier tier = RISK_TIER_THRESHOLDS (coalesce tier TIER_MEDIUM)"

definition defaultRiskScorer :: "db \<Rightarrow> string \<Rightarrow> centimes \<Rightarrow> int \<Rightarrow> risk_outcome" where
  "defaultRiskScorer d tenantId amount occurredAt =
     (let cutoff = occurredAt - DEFAULT_VELOCITY_WINDOW_SECONDS * 1000;
          tier = map_option ob_riskTier (find (\<lambda>r. ob_tenantId r = tenantId) (onboardings d));
          velocityCount = int (length (filter (\<lambda>i. in_tenantId i = tenantId \<and> in_createdAt i \<ge> cutoff) (paymentIntents d)))
      in evaluateRisk amount velocityCount (thresholdsForTier tier))"

text \<open>\<open>scorer\<close> is the module variable that \<open>setRiskScorer\<close> and \<open>resetRiskScorer\<close> assign.\<close>

definition scoreRisk ::
  "(string \<Rightarrow> centimes \<Rightarrow> int \<Rightarrow> risk_outcome) option \<Rightarrow> db \<Rightarrow> string \<Rightarrow> centimes \<Rightarrow> int \<Rightarrow> risk_outcome" where
  "scoreRisk scorer d tenantId amount occurredAt =
     (case scorer of None \<Rightarrow> defaultRiskScorer d tenantId amount occurredAt | Some f \<Rightarrow> f tenantId amount occurredAt)"

section \<open>Recorded decisions\<close>

definition countRecentRiskDecisions :: "db \<Rightarrow> string \<Rightarrow> int \<Rightarrow> int \<Rightarrow> int" where
  "countRecentRiskDecisions d tenantId tm windowSeconds =
     (let cutoff = tm - windowSeconds * 1000
      in int (length (filter (\<lambda>r. rd_tenantId r = tenantId \<and> rd_createdAt r \<ge> cutoff) (riskDecisions d))))"

definition evaluateAndRecordRisk ::
  "env \<Rightarrow> string \<Rightarrow> string \<Rightarrow> centimes \<Rightarrow> int \<Rightarrow> risk_thresholds option \<Rightarrow> db \<Rightarrow> risk_outcome \<times> db" where
  "evaluateAndRecordRisk e eventId tenantId amount occurredAt thresholds d =
     (let th = coalesce thresholds DEFAULT_RISK_THRESHOLDS;
          velocityCount = countRecentRiskDecisions d tenantId occurredAt DEFAULT_VELOCITY_WINDOW_SECONDS;
          (verdict, score, reasons) = evaluateRisk amount velocityCount th
      in ((verdict, score, reasons),
          if find (\<lambda>r. rd_eventId r = eventId) (riskDecisions d) = None
          then (bump d)\<lparr>riskDecisions := riskDecisions d @
                 [\<lparr>rd_id = fresh e d, rd_tenantId = tenantId, rd_eventId = eventId, rd_verdict = verdict, rd_score = score,
                   rd_reasons = reasons, rd_createdAt = now e\<rparr>]\<rparr>
          else d\<lparr>riskDecisions := map (\<lambda>r. if rd_eventId r = eventId
                 then r\<lparr>rd_verdict := verdict, rd_score := score, rd_reasons := reasons\<rparr> else r) (riskDecisions d)\<rparr>))"

definition find_link :: "db \<Rightarrow> string option \<Rightarrow> payment_link option" where
  "find_link d i = Option.bind i (\<lambda>i. find (\<lambda>l. pl_id l = i) (paymentLinks d))"

text \<open>The job: the amount is the link's in centimes, or the one in the metadata; without one the event is skipped.\<close>

definition riskEvaluate :: "env \<Rightarrow> string \<Rightarrow> string \<Rightarrow> db \<Rightarrow> risk_outcome option \<times> db" where
  "riskEvaluate e intentId tenantId d =
     (case find (\<lambda>i. in_id i = intentId) (paymentIntents d) of
        None \<Rightarrow> (None, d)
      | Some intent \<Rightarrow>
          let rawAmount = (case find_link d (in_paymentLinkId intent) of
                             Some link \<Rightarrow> Some (of_int (madToCentimes (fromMinor (pl_amount link) MAD)))
                           | None \<Rightarrow> Option.bind (in_metadata intent) meta_amount)
          in case rawAmount of
               None \<Rightarrow> (None, d)
             | Some n \<Rightarrow> let (r, d') = evaluateAndRecordRisk e intentId tenantId (centimes n) (now e) None d in (Some r, d'))"

section \<open>Lemmas\<close>

definition past :: "risk_event list \<Rightarrow> string \<Rightarrow> int list" where
  "past evs t = map ev_occurredAt (filter (\<lambda>ev. ev_tenantId ev = t) evs)"

definition seen_in_window :: "risk_event list \<Rightarrow> risk_event \<Rightarrow> int \<Rightarrow> int" where
  "seen_in_window before ev w =
     int (length (filter (\<lambda>x. ev_tenantId x = ev_tenantId ev \<and> ev_occurredAt x \<ge> ev_occurredAt ev - w * 1000) before))"

text \<open>From the last cutoff on, the store agrees with the full history.\<close>

definition window_ok :: "int \<Rightarrow> risk_event list \<Rightarrow> velocity_store \<Rightarrow> bool" where
  "window_ok cutoff before events \<longleftrightarrow>
     (\<forall>t c. cutoff \<le> c \<longrightarrow> filter (\<lambda>x. c \<le> x) (coalesce (events t) []) = filter (\<lambda>x. c \<le> x) (past before t))"

lemma prune_at: "coalesce (prune k tm w m t) [] = (if t = k then filter (\<lambda>x. tm - w * 1000 \<le> x) (coalesce (m t) []) else coalesce (m t) [])"
  by (cases "m k") (auto simp: prune_def)

lemma evaluate_step:
  assumes "window_ok c before m" "c \<le> ev_occurredAt ev - w * 1000"
  shows "\<exists>m'. evaluate th w ev m = (evaluateRisk (ev_amountCents ev) (seen_in_window before ev w) th, m') \<and>
    window_ok (ev_occurredAt ev - w * 1000) (before @ [ev]) m'"
proof -
  let ?k = "ev_tenantId ev" and ?now = "ev_occurredAt ev"
  let ?cut = "?now - w * 1000"
  let ?m1 = "prune ?k ?now w m"
  let ?m' = "store_add ?k ?now w ?m1"
  have len: "length (filter (\<lambda>x. ?cut \<le> x) (past before ?k)) =
      length (filter (\<lambda>x. ev_tenantId x = ?k \<and> ?cut \<le> ev_occurredAt x) before)"
    by (simp add: past_def filter_map comp_def conj_commute)
  have "coalesce (?m1 ?k) [] = filter (\<lambda>x. ?cut \<le> x) (past before ?k)"
    using assms by (simp add: prune_at window_ok_def)
  then have "fst (store_count ?k ?now w m) = seen_in_window before ev w"
    by (simp add: store_count_def Let_def seen_in_window_def len)
  then have run: "evaluate th w ev m = (evaluateRisk (ev_amountCents ev) (seen_in_window before ev w) th, ?m')"
    by (simp add: evaluate_def store_count_def Let_def)
  have look: "coalesce (?m' t) [] = (if t = ?k then filter (\<lambda>x. ?cut \<le> x) (coalesce (m t) []) @ [?now] else coalesce (m t) [])" for t
    by (simp add: store_add_def Let_def prune_at)
  have "filter (\<lambda>x. c' \<le> x) (coalesce (?m' t) []) = filter (\<lambda>x. c' \<le> x) (past (before @ [ev]) t)" if "?cut \<le> c'" for t c'
  proof -
    have "filter (\<lambda>x. c' \<le> x) (coalesce (m t) []) = filter (\<lambda>x. c' \<le> x) (past before t)"
      using assms that by (auto simp: window_ok_def)
    moreover have "filter (\<lambda>x. c' \<le> x) (filter (\<lambda>x. ?cut \<le> x) xs) = filter (\<lambda>x. c' \<le> x) xs" for xs
      using that by (induction xs) auto
    ultimately show ?thesis by (cases "t = ?k") (simp_all add: look past_def)
  qed
  with run show ?thesis by (auto simp: window_ok_def)
qed

fun reference_decisions :: "risk_thresholds \<Rightarrow> int \<Rightarrow> risk_event list \<Rightarrow> risk_event list \<Rightarrow> risk_outcome list" where
  "reference_decisions th w before [] = []"
| "reference_decisions th w before (ev # evs) =
     evaluateRisk (ev_amountCents ev) (seen_in_window before ev w) th # reference_decisions th w (before @ [ev]) evs"

lemma evaluate_all_reference:
  assumes "window_ok c before m" "\<forall>ev\<in>set evs. c \<le> ev_occurredAt ev - w * 1000" "sorted (map ev_occurredAt evs)"
  shows "evaluate_all th w evs m = reference_decisions th w before evs"
  using assms
proof (induction evs arbitrary: c before m)
  case (Cons ev evs)
  from Cons.prems obtain m' where "evaluate th w ev m = (evaluateRisk (ev_amountCents ev) (seen_in_window before ev w) th, m')"
    "window_ok (ev_occurredAt ev - w * 1000) (before @ [ev]) m'" using evaluate_step [of c before m ev w th] by auto
  moreover from Cons.prems(3) have "\<forall>x\<in>set evs. ev_occurredAt ev - w * 1000 \<le> ev_occurredAt x - w * 1000" by auto
  ultimately show ?case using Cons.IH Cons.prems(3) by simp
qed simp

section \<open>Properties\<close>

text \<open>
  C37. The sliding window. For events in order of time, the evaluator with its pruned in-memory store decides each event
  exactly as the rules applied to the full history: the score is the number of earlier events of the same tenant no older
  than the window, and pruning never changes a decision.
\<close>

theorem evaluator_sliding_window:
  assumes "sorted (map ev_occurredAt evs)"
  shows "evaluate_all th w evs Map.empty = reference_decisions th w [] evs"
proof (cases evs)
  case (Cons ev rest)
  with assms have "\<forall>x\<in>set evs. ev_occurredAt ev - w * 1000 \<le> ev_occurredAt x - w * 1000" by auto
  moreover have "window_ok (ev_occurredAt ev - w * 1000) [] Map.empty" by (simp add: window_ok_def past_def)
  ultimately show ?thesis using evaluate_all_reference assms by blast
qed simp

theorem evaluator_sliding_window_witness:
  "evaluate_all DEFAULT_RISK_THRESHOLDS 1
     [\<lparr>ev_id = ''a'', ev_tenantId = ''t'', ev_amountCents = 5, ev_occurredAt = 0\<rparr>,
      \<lparr>ev_id = ''b'', ev_tenantId = ''t'', ev_amountCents = 5, ev_occurredAt = 1000\<rparr>,
      \<lparr>ev_id = ''c'', ev_tenantId = ''t'', ev_amountCents = 5, ev_occurredAt = 1001\<rparr>] Map.empty =
   [(ALLOW, 0, []), (ALLOW, 1, []), (ALLOW, 1, [])]"
  by (subst evaluator_sliding_window) (simp_all add: seen_in_window_def evaluateRisk_def DEFAULT_RISK_THRESHOLDS_def)

text \<open>
  Recording is not idempotent. When the recorded evaluation of an event runs again at the same instant, as a retried
  job does, the decision of the first run is counted by the second: with the thresholds of the default tier and nine
  earlier decisions in the window, the first run allows the payment and the second puts it under review.
\<close>

lemma risk_retry_counts_itself:
  assumes "find (\<lambda>r. rd_eventId r = i) (riskDecisions d) = None" "now e = tm" "amount \<le> 1000000"
    and "countRecentRiskDecisions d t tm 3600 = 9"
  shows "\<exists>d1 d2. evaluateAndRecordRisk e i t amount tm None d = ((ALLOW, 9, []), d1) \<and>
    evaluateAndRecordRisk e i t amount tm None d1 = ((REVIEW, 10, [''velocity_exceeds_threshold'']), d2)"
proof -
  obtain r d1 where r: "evaluateAndRecordRisk e i t amount tm None d = (r, d1)" by (rule prod.exhaust)
  with assms have one: "r = (ALLOW, 9, [])"
    and d1: "riskDecisions d1 = riskDecisions d @ [\<lparr>rd_id = fresh e d, rd_tenantId = t, rd_eventId = i, rd_verdict = ALLOW, rd_score = 9,
      rd_reasons = [], rd_createdAt = tm\<rparr>]"
    by (auto simp: evaluateAndRecordRisk_def evaluateRisk_def DEFAULT_RISK_THRESHOLDS_def DEFAULT_VELOCITY_WINDOW_SECONDS_def Let_def)
  have "countRecentRiskDecisions d1 t tm 3600 = 10"
    using assms(4) by (simp add: countRecentRiskDecisions_def d1)
  then have "fst (evaluateAndRecordRisk e i t amount tm None d1) = (REVIEW, 10, [''velocity_exceeds_threshold''])"
    using assms(3) by (simp add: evaluateAndRecordRisk_def evaluateRisk_def DEFAULT_RISK_THRESHOLDS_def
        DEFAULT_VELOCITY_WINDOW_SECONDS_def Let_def)
  then show ?thesis using r one by (metis prod.collapse)
qed

end
