(* ===== verification/Intents.thy ===== *)
theory Intents
  imports Settlement Dunning Risk
begin

text \<open>
  \<open>src/lib/intent-actions.ts\<close>: capture and void of a pre-authorised payment intent. Neither is a transaction as a whole: what is
  written before a later step throws stays written. \<open>getAdapter\<close> of \<open>src/adapters/registry.ts\<close> decrypts the stored credentials; it
  is an argument, as is \<open>lc\<close>, the locale comparison the split of a capture sorts with.
\<close>

section \<open>Definitions\<close>

definition in_scope :: "string option \<Rightarrow> payment_intent \<Rightarrow> bool" where
  "in_scope tenantId r = (case tenantId of None \<Rightarrow> True | Some t \<Rightarrow> t = '''' \<or> in_tenantId r = t)"

definition resolveCharge :: "db \<Rightarrow> payment_intent \<Rightarrow> rat \<times> currency" where
  "resolveCharge d intent =
     (let link = find_link d (in_paymentLinkId intent)
      in (case link of
            Some l \<Rightarrow> of_int (madToCentimes (fromMinor (pl_amount l) MAD))
          | None \<Rightarrow> coalesce (Option.bind (in_metadata intent) meta_amount) 0,
          coalesce (or_else (map_option pl_currency link) (Option.bind (in_metadata intent) meta_currency)) MAD))"

definition loadIntent :: "db \<Rightarrow> string \<Rightarrow> string option \<Rightarrow> payment_intent result" where
  "loadIntent d intentId tenantId =
     (case find (\<lambda>r. in_id r = intentId \<and> in_scope tenantId r) (paymentIntents d) of
        None \<Rightarrow> Inl (AppError 404 ''INTENT_NOT_FOUND'')
      | Some intent \<Rightarrow> Inr intent)"

definition set_intent_status :: "string \<Rightarrow> payment_intent_status \<Rightarrow> db \<Rightarrow> db" where
  "set_intent_status intentId s d =
     d\<lparr>paymentIntents := map (\<lambda>r. if in_id r = intentId then r\<lparr>in_status := s\<rparr> else r) (paymentIntents d)\<rparr>"

definition revertLock :: "string \<Rightarrow> db \<Rightarrow> db" where
  "revertLock intentId d = set_intent_status intentId INTENT_AUTHORIZED d"

text \<open>The compare-and-set that both actions start with: the number of rows changed and the new table.\<close>

definition lockable :: "string \<Rightarrow> string option \<Rightarrow> payment_intent \<Rightarrow> bool" where
  "lockable intentId tenantId r \<longleftrightarrow> in_id r = intentId \<and> in_status r = INTENT_AUTHORIZED \<and> in_scope tenantId r"

definition lock_intent :: "string \<Rightarrow> string option \<Rightarrow> db \<Rightarrow> nat \<times> db" where
  "lock_intent intentId tenantId d =
     (length (filter (lockable intentId tenantId) (paymentIntents d)),
      d\<lparr>paymentIntents := map (\<lambda>r. if lockable intentId tenantId r then r\<lparr>in_status := INTENT_PROCESSING\<rparr> else r) (paymentIntents d)\<rparr>)"

definition not_locked :: "db \<Rightarrow> string \<Rightarrow> string option \<Rightarrow> exn" where
  "not_locked d intentId tenantId =
     (case find (\<lambda>r. in_id r = intentId \<and> in_scope tenantId r) (paymentIntents d) of
        None \<Rightarrow> AppError 404 ''INTENT_NOT_FOUND''
      | Some existing \<Rightarrow> AppError 409 ''INVALID_STATE'')"

text \<open>The transaction at the end of both actions.\<close>

definition commit_status :: "env \<Rightarrow> payment_intent \<Rightarrow> payment_intent_status \<Rightarrow> db \<Rightarrow> db" where
  "commit_status e intent s d =
     (let d1 = set_intent_status (in_id intent) s d
      in (bump d1)\<lparr>providerTransactions := providerTransactions d1 @
           [\<lparr>px_id = fresh e d1, px_paymentIntentId = in_id intent, px_provider = in_provider intent, px_providerTransactionId = None\<rparr>]\<rparr>)"

definition intent_config :: "db \<Rightarrow> payment_intent \<Rightarrow> provider_config option" where
  "intent_config d intent =
     find (\<lambda>c. pc_provider c = in_provider intent \<and> pc_tenantId c = in_tenantId intent) (providerConfigs d)"

definition captureIntent ::
  "(string \<Rightarrow> string \<Rightarrow> int) \<Rightarrow> (provider \<Rightarrow> string \<Rightarrow> provider_adapter result) \<Rightarrow> env \<Rightarrow> string \<Rightarrow> string option
    \<Rightarrow> (string \<times> payment_intent_status) job_step" where
  "captureIntent lc getAdapter e intentId tenantId d =
     (let (count, d1) = lock_intent intentId tenantId d
      in if count = 0 then (Inl (not_locked d intentId tenantId), d)
         else sbind (loadIntent d1 intentId tenantId, d1) (\<lambda>intent d1.
           case in_providerRef intent of
             None \<Rightarrow> (Inl (AppError 400 ''MISSING_PROVIDER_REF''), revertLock intentId d1)
           | Some providerRef \<Rightarrow>
               if providerRef = '''' then (Inl (AppError 400 ''MISSING_PROVIDER_REF''), revertLock intentId d1)
               else (case intent_config d1 intent of
                 None \<Rightarrow> (Inl (AppError 400 ''PROVIDER_NOT_CONFIGURED''), d1)
               | Some config \<Rightarrow>
                   sbind (getAdapter (in_provider intent) (pc_encryptedCredentials config), d1) (\<lambda>adapter d1.
                   let (amountCents, c) = resolveCharge d1 intent
                   in if amountCents = 0 then (Inl (AppError 400 ''MISSING_AMOUNT''), revertLock intentId d1)
                      else sbind (ad_capturePayment adapter providerRef amountCents c, d1) (\<lambda>r d1.
                        if \<not> ar_success r then (Inl (AppError 502 ''CAPTURE_FAILED''), revertLock intentId d1)
                        else
                          let status = coalesce (ar_status r) INTENT_SUCCEEDED;
                              d2 = commit_status e intent status d1
                          in sbind (if status = INTENT_SUCCEEDED
                                    then (case settleCapture lc e (in_tenantId intent) intentId amountCents (Some c) None d2 of
                                            Inl x \<Rightarrow> (Inl x, d2) | Inr (_, d3) \<Rightarrow> (Inr (), d3))
                                    else (Inr (), d2)) (\<lambda>_ d3.
                               (Inr (intentId, status), send_event (RiskEvaluate intentId (in_tenantId intent)) d3)))))))"

definition voidIntent ::
  "(provider \<Rightarrow> string \<Rightarrow> provider_adapter result) \<Rightarrow> env \<Rightarrow> string \<Rightarrow> string option \<Rightarrow> (string \<times> payment_intent_status) job_step" where
  "voidIntent getAdapter e intentId tenantId d =
     (let (count, d1) = lock_intent intentId tenantId d
      in if count = 0 then (Inl (not_locked d intentId tenantId), d)
         else sbind (loadIntent d1 intentId tenantId, d1) (\<lambda>intent d1.
           case in_providerRef intent of
             None \<Rightarrow> (Inl (AppError 400 ''MISSING_PROVIDER_REF''), revertLock intentId d1)
           | Some providerRef \<Rightarrow>
               if providerRef = '''' then (Inl (AppError 400 ''MISSING_PROVIDER_REF''), revertLock intentId d1)
               else (case intent_config d1 intent of
                 None \<Rightarrow> (Inl (AppError 400 ''PROVIDER_NOT_CONFIGURED''), d1)
               | Some config \<Rightarrow>
                   sbind (getAdapter (in_provider intent) (pc_encryptedCredentials config), d1) (\<lambda>adapter d1.
                   let (amountCents, c) = resolveCharge d1 intent
                   in sbind (ad_cancelPayment adapter providerRef amountCents c, d1) (\<lambda>r d1.
                        if \<not> ar_success r then (Inl (AppError 502 ''CANCEL_FAILED''), revertLock intentId d1)
                        else let status = coalesce (ar_status r) INTENT_CANCELED
                             in (Inr (intentId, status), commit_status e intent status d1))))))"

section \<open>Lemmas\<close>

text \<open>An intent with its id unique in the table, as a primary key is.\<close>

definition the_intent :: "db \<Rightarrow> string \<Rightarrow> payment_intent \<Rightarrow> bool" where
  "the_intent d i r \<longleftrightarrow> r \<in> set (paymentIntents d) \<and> in_id r = i \<and> (\<forall>x\<in>set (paymentIntents d). in_id x = i \<longrightarrow> x = r)"

lemma find_unique:
  assumes "r \<in> set xs" "P r" "\<And>x. x \<in> set xs \<Longrightarrow> P x \<Longrightarrow> x = r"
  shows "find P xs = Some r"
proof -
  obtain y where y: "find P xs = Some y" using find_Some_ex assms(1,2) by metis
  with assms(3) [of y] find_SomeD [OF y] show ?thesis by simp
qed

lemma the_intent_find: "the_intent d i r \<Longrightarrow> in_scope t r \<Longrightarrow> find (\<lambda>r. in_id r = i \<and> in_scope t r) (paymentIntents d) = Some r"
  by (rule find_unique) (auto simp: the_intent_def)

lemma not_lockable_count:
  assumes "the_intent d i r" "in_status r \<noteq> INTENT_AUTHORIZED \<or> \<not> in_scope t r"
  shows "fst (lock_intent i t d) = 0"
proof -
  have "filter (lockable i t) (paymentIntents d) = []"
    using assms by (auto simp: filter_empty_conv the_intent_def lockable_def)
  then show ?thesis by (simp add: lock_intent_def)
qed

lemma locked:
  assumes "the_intent d i r" "in_status r = INTENT_AUTHORIZED" "in_scope t r"
  shows "lock_intent i t d = (length (filter (lockable i t) (paymentIntents d)), set_intent_status i INTENT_PROCESSING d)"
    "fst (lock_intent i t d) \<noteq> 0"
proof -
  have "lockable i t x \<longleftrightarrow> in_id x = i" if "x \<in> set (paymentIntents d)" for x
    using assms that by (auto simp: the_intent_def lockable_def)
  then have "map (\<lambda>r. if lockable i t r then r\<lparr>in_status := INTENT_PROCESSING\<rparr> else r) (paymentIntents d) =
      map (\<lambda>r. if in_id r = i then r\<lparr>in_status := INTENT_PROCESSING\<rparr> else r) (paymentIntents d)" by (intro map_cong) auto
  then show "lock_intent i t d = (length (filter (lockable i t) (paymentIntents d)), set_intent_status i INTENT_PROCESSING d)"
    by (simp add: lock_intent_def set_intent_status_def)
  have "r \<in> set (filter (lockable i t) (paymentIntents d))" using assms by (simp add: the_intent_def lockable_def)
  then show "fst (lock_intent i t d) \<noteq> 0" by (auto simp: lock_intent_def filter_empty_conv)
qed

lemma the_intent_set:
  assumes "the_intent d i r"
  shows "the_intent (set_intent_status i s d) i (r\<lparr>in_status := s\<rparr>)"
  using assms by (force simp: the_intent_def set_intent_status_def)

lemma the_intent_cong: "paymentIntents d' = paymentIntents d \<Longrightarrow> the_intent d' i r = the_intent d i r"
  by (simp add: the_intent_def)

lemma set_status_twice: "set_intent_status i s' (set_intent_status i s d) = set_intent_status i s' d"
proof -
  have "map (\<lambda>r. if in_id r = i then r\<lparr>in_status := s'\<rparr> else r) (map (\<lambda>r. if in_id r = i then r\<lparr>in_status := s\<rparr> else r) xs) =
      map (\<lambda>r. if in_id r = i then r\<lparr>in_status := s'\<rparr> else r) xs" for xs by (induction xs) auto
  then show ?thesis by (simp only: set_intent_status_def) simp
qed

lemma revert_locked:
  assumes "the_intent d i r" "in_status r = INTENT_AUTHORIZED"
  shows "revertLock i (set_intent_status i INTENT_PROCESSING d) = d"
proof -
  have same: "in_status x = s \<Longrightarrow> x\<lparr>in_status := s\<rparr> = x" for x :: payment_intent and s by (cases x) simp
  have "(if in_id x = i then x\<lparr>in_status := INTENT_AUTHORIZED\<rparr> else x) = x" if "x \<in> set (paymentIntents d)" for x
    using assms that same [of r] by (auto simp: the_intent_def)
  then have "map (\<lambda>x. if in_id x = i then x\<lparr>in_status := INTENT_AUTHORIZED\<rparr> else x) (paymentIntents d) = paymentIntents d"
    by (intro map_idI) auto
  then show ?thesis by (simp add: revertLock_def set_status_twice) (simp add: set_intent_status_def)
qed

text \<open>Once the intent is not authorized, both actions refuse without a change and without a call to the provider.\<close>

lemma refused:
  assumes "the_intent d i r" "in_status r \<noteq> INTENT_AUTHORIZED" "in_scope t r"
  shows "captureIntent lc getAdapter e i t d = (Inl (AppError 409 ''INVALID_STATE''), d)"
    "voidIntent getAdapter e i t d = (Inl (AppError 409 ''INVALID_STATE''), d)"
proof -
  obtain d1 where "lock_intent i t d = (0, d1)"
    using not_lockable_count [OF assms(1), of t] assms(2) by (cases "lock_intent i t d") auto
  then show "captureIntent lc getAdapter e i t d = (Inl (AppError 409 ''INVALID_STATE''), d)"
    "voidIntent getAdapter e i t d = (Inl (AppError 409 ''INVALID_STATE''), d)"
    using the_intent_find [OF assms(1,3)] by (simp_all add: captureIntent_def voidIntent_def not_locked_def)
qed

text \<open>Settlement writes the ledger and the splits, and leaves the intents alone.\<close>

lemma move_intents: "move e t st si l d = Inr d' \<Longrightarrow> paymentIntents d' = paymentIntents d \<and> outbox d' = outbox d \<and> webhookEvents d' = webhookEvents d"
  using moves_frame [of e t st si "[l]" d d'] by (simp add: moves_def)

lemma executeSplitInTx_intents:
  assumes "executeSplitInTx lc e t input trigger shares d = Inr (rows, d')"
  shows "paymentIntents d' = paymentIntents d \<and> outbox d' = outbox d \<and> webhookEvents d' = webhookEvents d"
proof -
  have "(paymentIntents (snd s'), outbox (snd s'), webhookEvents (snd s')) = (paymentIntents (snd s), outbox (snd s), webhookEvents (snd s))"
    if "efold (split_allocation e t input acc held c) xs s = Inr s'" for acc held c xs s s'
    using that by (rule efold_invariant_value [rotated]) (auto simp: split_allocation_def Let_def bump_def dest: move_intents split: if_splits)
  from this [of _ _ _ _ "([], d)"] assms show ?thesis
    by (auto simp: executeSplitInTx_def Let_def dest!: move_intents split: if_splits)
qed

lemma settleCapture_intents:
  assumes "settleCapture lc e t i amount cur m d = Inr (b, d')"
  shows "paymentIntents d' = paymentIntents d \<and> outbox d' = outbox d \<and> webhookEvents d' = webhookEvents d"
proof (cases b)
  case True
  with assms have "settleCapture lc e t i amount cur m d = Inr (True, d')" by simp
  from settleCapture_run [OF this] obtain d1 d2 plan where
    "move e t (Some CAPTURE_SOURCE_TYPE) (Some i) (debit CASH (Math_round amount) CAPTURE None (coalesce cur MAD),
       credit COLLECTED (Math_round amount) CAPTURE None (coalesce cur MAD)) d = Inr d1"
    and d2: "case settlement_rule_of d t of None \<Rightarrow> d2 = d1
       | Some r \<Rightarrow> \<exists>rows. executeSplitInTx lc e t (capture_split_input i (Math_round amount) (coalesce cur MAD) r)
           AT_CAPTURE (sr_shares r) d1 = Inr (rows, d2)"
    and "moves e t (Some CAPTURE_SOURCE_TYPE) (Some i)
       (settlement_legs (if settlement_rule_of d t \<noteq> None then AVAILABLE else COLLECTED)
          (settlement_rule_of d t \<noteq> None) plan (coalesce cur MAD)) d2 = Inr d'"
    by (elim exE conjE) (rule that)
  moreover from d2 have "paymentIntents d2 = paymentIntents d1 \<and> outbox d2 = outbox d1 \<and> webhookEvents d2 = webhookEvents d1"
    by (auto dest: executeSplitInTx_intents split: option.splits)
  ultimately show ?thesis by (auto dest!: move_intents simp: moves_frame)
next
  case False
  with assms show ?thesis by (auto simp: settleCapture_def Let_def split: if_splits option.splits)
qed

text \<open>The intent stays in a state that both actions refuse.\<close>

definition closed_to_actions :: "db \<Rightarrow> string \<Rightarrow> string option \<Rightarrow> bool" where
  "closed_to_actions d i t \<longleftrightarrow>
     (\<forall>lc getAdapter e. captureIntent lc getAdapter e i t d = (Inl (AppError 409 ''INVALID_STATE''), d) \<and>
        voidIntent getAdapter e i t d = (Inl (AppError 409 ''INVALID_STATE''), d))"

lemma closed:
  assumes "the_intent d i r" "in_status r \<noteq> INTENT_AUTHORIZED" "in_scope t r"
  shows "closed_to_actions d i t"
  unfolding closed_to_actions_def using refused [OF assms] by simp

text \<open>An authorized intent that the provider can be asked about.\<close>

definition capturable ::
  "(provider \<Rightarrow> string \<Rightarrow> provider_adapter result) \<Rightarrow> db \<Rightarrow> string \<Rightarrow> string option \<Rightarrow> payment_intent \<Rightarrow> provider_adapter
    \<Rightarrow> string \<Rightarrow> rat \<Rightarrow> currency \<Rightarrow> bool" where
  "capturable getAdapter d i t r ad ref amt c \<longleftrightarrow>
     the_intent d i r \<and> in_status r = INTENT_AUTHORIZED \<and> in_scope t r \<and> in_providerRef r = Some ref \<and> ref \<noteq> [] \<and>
     (\<exists>cfg. intent_config d r = Some cfg \<and> getAdapter (in_provider r) (pc_encryptedCredentials cfg) = Inr ad) \<and>
     resolveCharge d r = (amt, c) \<and> amt \<noteq> 0"

lemma capture_asks:
  assumes "capturable getAdapter d i t r ad ref amt c"
  defines "d1 \<equiv> set_intent_status i INTENT_PROCESSING d" and "r1 \<equiv> r\<lparr>in_status := INTENT_PROCESSING\<rparr>"
  shows "captureIntent lc getAdapter e i t d =
    (case ad_capturePayment ad ref amt c of
       Inl x \<Rightarrow> (Inl x, d1)
     | Inr a \<Rightarrow>
         if \<not> ar_success a then (Inl (AppError 502 ''CAPTURE_FAILED''), d)
         else let status = coalesce (ar_status a) INTENT_SUCCEEDED; d2 = commit_status e r1 status d1
              in sbind (if status = INTENT_SUCCEEDED
                        then (case settleCapture lc e (in_tenantId r) i amt (Some c) None d2 of
                                Inl x \<Rightarrow> (Inl x, d2) | Inr (_, d3) \<Rightarrow> (Inr (), d3))
                        else (Inr (), d2)) (\<lambda>_ d3. (Inr (i, status), send_event (RiskEvaluate i (in_tenantId r)) d3)))"
proof -
  from assms(1) have r: "the_intent d i r" "in_status r = INTENT_AUTHORIZED" "in_scope t r" "in_providerRef r = Some ref" "ref \<noteq> []"
    "resolveCharge d r = (amt, c)" "amt \<noteq> 0" unfolding capturable_def by blast+
  from assms(1) obtain cfg where cfg: "intent_config d r = Some cfg" "getAdapter (in_provider r) (pc_encryptedCredentials cfg) = Inr ad"
    unfolding capturable_def by blast
  have "in_scope t r1" using r(3) by (simp add: r1_def in_scope_def split: option.splits)
  then have load: "loadIntent d1 i t = Inr r1"
    using the_intent_find [OF the_intent_set [OF r(1), of INTENT_PROCESSING]] by (simp add: loadIntent_def d1_def r1_def)
  have same: "intent_config d1 r1 = Some cfg" "resolveCharge d1 r1 = (amt, c)" "revertLock i d1 = d"
    using cfg r revert_locked [OF r(1,2)]
    by (simp_all add: d1_def r1_def intent_config_def resolveCharge_def find_link_def set_intent_status_def Let_def cong: option.case_cong)
  show ?thesis
    using locked [OF r(1-3)] load same cfg(2) r(4,5,7)
    by (simp add: captureIntent_def d1_def [symmetric] r1_def Let_def split: sum.split)
qed

lemma commit_intents: "paymentIntents (commit_status e r s d) = paymentIntents (set_intent_status (in_id r) s d)"
  by (simp add: commit_status_def Let_def bump_def)

lemma status_committed:
  assumes "the_intent d i r"
  shows "the_intent (commit_status e (r\<lparr>in_status := s\<rparr>) s' (set_intent_status i s d)) i (r\<lparr>in_status := s'\<rparr>)"
proof -
  have "in_id (r\<lparr>in_status := s\<rparr>) = i" using assms by (simp add: the_intent_def)
  moreover have "the_intent (set_intent_status i s' (set_intent_status i s d)) i ((r\<lparr>in_status := s\<rparr>)\<lparr>in_status := s'\<rparr>)"
    by (rule the_intent_set [OF the_intent_set [OF assms]])
  ultimately show ?thesis using the_intent_cong [OF commit_intents] by simp
qed

lemma settled_send [simp]: "alreadySettled (send_event ev d) u j = alreadySettled d u j"
  "paymentIntents (send_event ev d) = paymentIntents d"
  by (simp_all add: alreadySettled_def send_event_def)

lemma settleCapture_ready:
  assumes "settle_ready d u (Math_round amt)" "0 < Math_round amt"
  obtains b d' where "settleCapture lc e u i amt cur m d = Inr (b, d')" "alreadySettled d' u i"
proof (cases "alreadySettled d u i")
  case True
  then show ?thesis using assms(2) by (intro that [of False d]) (simp_all add: settleCapture_def Let_def)
next
  case False
  then show ?thesis using settleCapture_succeeds [OF assms, of i lc e cur m] settleCapture_marks that by blast
qed

lemma capture_tail:
  obtains res d' where "sbind (if s = INTENT_SUCCEEDED
        then (case settleCapture lc e u i amt cur None d2 of Inl x \<Rightarrow> (Inl x, d2) | Inr (_, d3) \<Rightarrow> (Inr (), d3))
        else (Inr (), d2)) (\<lambda>_ d3. (Inr (i, s), send_event ev d3)) = (res, d')"
    "paymentIntents d' = paymentIntents d2"
    "s = INTENT_SUCCEEDED \<Longrightarrow> settle_ready d2 u (Math_round amt) \<Longrightarrow> 0 < Math_round amt \<Longrightarrow> res = Inr (i, s) \<and> alreadySettled d' u i"
proof (cases "s = INTENT_SUCCEEDED")
  case True
  show ?thesis
  proof (cases "settleCapture lc e u i amt cur None d2")
    case (Inl x)
    have "\<not> (settle_ready d2 u (Math_round amt) \<and> 0 < Math_round amt)"
      using Inl settleCapture_ready [of d2 u amt lc e i cur None] by fastforce
    then show ?thesis using True Inl by (intro that [of "Inl x" d2]) auto
  next
    case (Inr y)
    obtain b d3 where y: "y = (b, d3)" by (cases y)
    have "alreadySettled d3 u i" if "settle_ready d2 u (Math_round amt)" "0 < Math_round amt"
      using Inr y settleCapture_ready [OF that, of lc e i cur None] by fastforce
    then show ?thesis using True Inr y settleCapture_intents [of lc e u i amt cur None d2 b d3]
      by (intro that [of "Inr (i, s)" "send_event ev d3"]) auto
  qed
qed (use that in auto)

lemma capturable_locked:
  assumes "capturable getAdapter d i t r ad ref amt c"
  shows "snd (lock_intent i t d) = set_intent_status i INTENT_PROCESSING d" "closed_to_actions (set_intent_status i INTENT_PROCESSING d) i t"
proof -
  from assms have r: "the_intent d i r" "in_status r = INTENT_AUTHORIZED" "in_scope t r" unfolding capturable_def by blast+
  show "snd (lock_intent i t d) = set_intent_status i INTENT_PROCESSING d" using locked(1) [OF r] by simp
  have "in_scope t (r\<lparr>in_status := INTENT_PROCESSING\<rparr>)" using r(3) by (simp add: in_scope_def split: option.splits)
  then show "closed_to_actions (set_intent_status i INTENT_PROCESSING d) i t"
    by (intro closed [OF the_intent_set [OF r(1)]]) simp_all
qed

section \<open>Property\<close>

text \<open>
  C39. The outcomes of a capture. Take an authorized intent that the provider can be asked about. As soon as the capture holds its
  lock, and while it waits for the provider, every other capture or void of the intent is refused without a change. A rejected capture
  leaves the database as it was. An approved one gives the intent the status the provider reports, and when that is SUCCEEDED
  and the tenant's configuration is sound the ledger has the settlement; captures and voids are then refused, unless the provider
  reported AUTHORIZED. When the call to the provider fails without an answer, nothing releases the lock: both actions are refused
  in the state that is left, until something writes AUTHORIZED over it, which gives exactly the database before the capture, where a
  second capture asks the provider again. These are the outcomes of a run between whose steps nothing else writes the intent.
\<close>

theorem captureIntent_outcomes:
  assumes "capturable getAdapter d i t r ad ref amt c"
  shows "closed_to_actions (snd (lock_intent i t d)) i t \<and> (case ad_capturePayment ad ref amt c of
      Inl x \<Rightarrow> \<exists>d'. captureIntent lc getAdapter e i t d = (Inl x, d') \<and> closed_to_actions d' i t \<and>
        set_intent_status i INTENT_AUTHORIZED d' = d
    | Inr a \<Rightarrow>
        if \<not> ar_success a then captureIntent lc getAdapter e i t d = (Inl (AppError 502 ''CAPTURE_FAILED''), d)
        else let s = coalesce (ar_status a) INTENT_SUCCEEDED
             in \<exists>res d' r'. captureIntent lc getAdapter e i t d = (res, d') \<and> the_intent d' i r' \<and> in_status r' = s \<and>
                  (s \<noteq> INTENT_AUTHORIZED \<longrightarrow> closed_to_actions d' i t) \<and>
                  (s = INTENT_SUCCEEDED \<and> settle_ready d (in_tenantId r) (Math_round amt) \<and> 0 < Math_round amt \<longrightarrow>
                     res = Inr (i, s) \<and> alreadySettled d' (in_tenantId r) i))"
proof (rule conjI)
  show "closed_to_actions (snd (lock_intent i t d)) i t"
    using capturable_locked [OF assms] by simp
  define d1 where "d1 = set_intent_status i INTENT_PROCESSING d"
  define r1 where "r1 = r\<lparr>in_status := INTENT_PROCESSING\<rparr>"
  from assms have r: "the_intent d i r" "in_scope t r" unfolding capturable_def by blast+
  have scope: "in_scope t (r\<lparr>in_status := s\<rparr>)" for s using r(2) by (simp add: in_scope_def split: option.splits)
  have stuck: "closed_to_actions d1 i t"
    unfolding d1_def by (rule closed [OF the_intent_set [OF r(1)] _ scope]) simp
  have reopen: "set_intent_status i INTENT_AUTHORIZED d1 = d"
    using revert_locked [OF r(1)] assms by (simp add: d1_def revertLock_def capturable_def)
  note run = capture_asks [OF assms, of lc e, folded d1_def r1_def]
  show "case ad_capturePayment ad ref amt c of
      Inl x \<Rightarrow> \<exists>d'. captureIntent lc getAdapter e i t d = (Inl x, d') \<and> closed_to_actions d' i t \<and>
        set_intent_status i INTENT_AUTHORIZED d' = d
    | Inr a \<Rightarrow>
        if \<not> ar_success a then captureIntent lc getAdapter e i t d = (Inl (AppError 502 ''CAPTURE_FAILED''), d)
        else let s = coalesce (ar_status a) INTENT_SUCCEEDED
             in \<exists>res d' r'. captureIntent lc getAdapter e i t d = (res, d') \<and> the_intent d' i r' \<and> in_status r' = s \<and>
                  (s \<noteq> INTENT_AUTHORIZED \<longrightarrow> closed_to_actions d' i t) \<and>
                  (s = INTENT_SUCCEEDED \<and> settle_ready d (in_tenantId r) (Math_round amt) \<and> 0 < Math_round amt \<longrightarrow>
                     res = Inr (i, s) \<and> alreadySettled d' (in_tenantId r) i)" (is ?outcome)
  proof (cases "ad_capturePayment ad ref amt c")
    case (Inl x)
    then show ?outcome using run stuck reopen by simp
  next
    case (Inr a)
    define s where "s = coalesce (ar_status a) INTENT_SUCCEEDED"
    define d2 where "d2 = commit_status e r1 s d1"
    have r2: "the_intent d2 i (r\<lparr>in_status := s\<rparr>)" unfolding d2_def d1_def r1_def by (rule status_committed [OF r(1)])
    have tables: "settle_ready d2 u g = settle_ready d u g" "alreadySettled d2 u j = alreadySettled d u j" for u g j
      by (simp_all add: d2_def d1_def commit_status_def set_intent_status_def bump_def Let_def settle_ready_def known_party_def alreadySettled_def
          settlement_fee_of_def settlement_policy_of_def settlement_tax_of_def settlement_rule_of_def)
    show ?outcome
    proof (cases "ar_success a")
      case True
      have eq: "captureIntent lc getAdapter e i t d = sbind (if s = INTENT_SUCCEEDED
          then (case settleCapture lc e (in_tenantId r) i amt (Some c) None d2 of Inl x \<Rightarrow> (Inl x, d2) | Inr (_, d3) \<Rightarrow> (Inr (), d3))
          else (Inr (), d2)) (\<lambda>_ d3. (Inr (i, s), send_event (RiskEvaluate i (in_tenantId r)) d3))"
        by (simp only: run Inr sum.case True not_True_eq_False if_False Let_def s_def d2_def)
      obtain res d' where out: "captureIntent lc getAdapter e i t d = (res, d')" "paymentIntents d' = paymentIntents d2"
        "s = INTENT_SUCCEEDED \<Longrightarrow> settle_ready d2 (in_tenantId r) (Math_round amt) \<Longrightarrow> 0 < Math_round amt \<Longrightarrow>
           res = Inr (i, s) \<and> alreadySettled d' (in_tenantId r) i"
        by (rule capture_tail [where s = s and lc = lc and e = e and u = "in_tenantId r" and i = i and amt = amt and cur = "Some c"
              and ?d2.0 = d2 and ev = "RiskEvaluate i (in_tenantId r)", folded eq]) (rule that)
      have ti: "the_intent d' i (r\<lparr>in_status := s\<rparr>)" using r2 by (simp add: the_intent_cong [OF out(2)])
      have "s \<noteq> INTENT_AUTHORIZED \<Longrightarrow> closed_to_actions d' i t" by (rule closed [OF ti _ scope]) simp
      with out(1) out(3) [unfolded tables] Inr True ti show ?outcome
        unfolding Inr sum.case s_def [symmetric] Let_def
        by simp (intro exI [of _ res] exI [of _ d'] exI [of _ "r\<lparr>in_status := s\<rparr>"], simp)
    qed (use Inr run in simp)
  qed
qed

definition demo_intent :: payment_intent where
  "demo_intent =
     \<lparr>in_id = ''i1'', in_tenantId = ''t1'', in_paymentLinkId = None, in_status = INTENT_AUTHORIZED, in_provider = VPS,
      in_providerRef = Some ''ref'', in_correlationId = ''corr'', in_providerData = None,
      in_metadata = Some \<lparr>meta_amount = Some 500, meta_currency = None, meta_reference = None, meta_isPreauth = Some True,
        meta_installmentAgreementId = None\<rparr>,
      in_riskVerdict = None, in_createdAt = 0, in_fxRate = None, in_fxCurrencyPair = None, in_fxExpiresAt = None\<rparr>"

definition demo_intent_db :: db where
  "demo_intent_db = empty_db\<lparr>paymentIntents := [demo_intent],
     providerConfigs := [\<lparr>pc_id = ''c'', pc_tenantId = ''t1'', pc_provider = VPS, pc_encryptedCredentials = ''k'', pc_status = CONFIG_CONNECTED\<rparr>]\<rparr>"

theorem captureIntent_outcomes_witness:
  "\<exists>d'. captureIntent (\<lambda>a b. 0) (\<lambda>p k. Inr (VpsAdapter (\<lambda>k b. b) \<lparr>vc_notificationKey = None, vc_callbackTestMode = None\<rparr> (\<lambda>q. Inl (JsError ''TimeoutError''))))
       demo_env ''i1'' (Some ''t1'') demo_intent_db = (Inl (JsError ''TimeoutError''), d') \<and> closed_to_actions d' ''i1'' (Some ''t1'') \<and>
       set_intent_status ''i1'' INTENT_AUTHORIZED d' = demo_intent_db"
proof -
  let ?ad = "VpsAdapter (\<lambda>k b. b) \<lparr>vc_notificationKey = None, vc_callbackTestMode = None\<rparr> (\<lambda>q. Inl (JsError ''TimeoutError''))"
  have "capturable (\<lambda>p k. Inr ?ad) demo_intent_db ''i1'' (Some ''t1'') demo_intent ?ad ''ref'' 500 MAD"
    by (simp add: capturable_def the_intent_def demo_intent_db_def demo_intent_def in_scope_def intent_config_def resolveCharge_def find_link_def)
  moreover have "ad_capturePayment ?ad ''ref'' 500 MAD = Inl (JsError ''TimeoutError'')"
    by (simp add: VpsAdapter_def vps_capturePayment_def runCommand_def)
  ultimately show ?thesis using captureIntent_outcomes [of "\<lambda>p k. Inr ?ad" demo_intent_db "''i1''" "Some ''t1''" demo_intent ?ad "''ref''" 500 MAD "\<lambda>a b. 0" demo_env]
    by simp
qed

end
