(* ===== verification/Webhooks.thy ===== *)
theory Webhooks
  imports Intents
begin

text \<open>
  \<open>src/lib/webhook-verify.ts\<close>, \<open>src/routes/webhooks.ts\<close> and the jobs \<open>webhookProcessor\<close> and \<open>stripeWebhookProcessor\<close> of
  \<open>src/jobs/\<close>: from a provider's notification to the intent, the ledger, the subscription and the installment agreement. The
  parsed body (\<open>parse\<close>), the hash of the body (\<open>sha256\<close>), \<open>encrypt\<close> and \<open>getAdapter\<close> are arguments.
\<close>

section \<open>Reading a payload\<close>

fun truthy :: "json \<Rightarrow> bool" where
  "truthy JNull = False"
| "truthy (JBool b) = b"
| "truthy (JNum x) = (x \<noteq> 0)"
| "truthy (JStr s) = (s \<noteq> [])"
| "truthy _ = True"

text \<open>\<open>payload[k1] ?? payload[k2] ?? \<dots>\<close>\<close>

fun first_field :: "json \<Rightarrow> string list \<Rightarrow> json option" where
  "first_field j [] = None"
| "first_field j (k # ks) = or_else (json_field j k) (first_field j ks)"

definition truthy_string :: "json option \<Rightarrow> string option" where
  "truthy_string v = (case v of Some (JStr s) \<Rightarrow> if s = [] then None else Some s | _ \<Rightarrow> None)"

definition intent_by_correlation :: "db \<Rightarrow> provider \<Rightarrow> string \<Rightarrow> payment_intent option" where
  "intent_by_correlation d p c = find (\<lambda>r. in_correlationId r = c \<and> in_provider r = p) (paymentIntents d)"

definition intent_by_reference :: "db \<Rightarrow> provider \<Rightarrow> string \<Rightarrow> payment_intent option" where
  "intent_by_reference d p s =
     (case sort_key (\<lambda>r. - in_createdAt r)
             (filter (\<lambda>r. in_provider r = p \<and> Option.bind (in_metadata r) meta_reference = Some s) (paymentIntents d)) of
        [] \<Rightarrow> None | r # _ \<Rightarrow> Some r)"

section \<open>Verification\<close>

datatype verify_webhook_result = Verified json string | Rejected string

definition verify_tenant :: "db \<Rightarrow> provider \<Rightarrow> json \<Rightarrow> string + string" where
  "verify_tenant d provider body =
     (if provider = STRIPE
      then (let eventData = coalesce (json_field body ''data'') (JObj []);
                object = coalesce (json_field eventData ''object'') (JObj []);
                metadata = coalesce (json_field object ''metadata'') (JObj [])
            in case truthy_string (first_field metadata [''correlationId'', ''corpopayRef'']) of
                 None \<Rightarrow> Inl ''no_correlation_id''
               | Some correlationId \<Rightarrow>
                   (case intent_by_correlation d provider correlationId of
                      None \<Rightarrow> Inl ''intent_not_found''
                    | Some intent \<Rightarrow> Inr (in_tenantId intent)))
      else (case first_field body [''chargeId'', ''customerId'', ''orderId''] of
              None \<Rightarrow> Inl ''no_charge_id''
            | Some v \<Rightarrow>
                if \<not> truthy v then Inl ''no_charge_id''
                else (case v of
                  JStr chargeId \<Rightarrow>
                    (case or_else (intent_by_correlation d provider chargeId) (intent_by_reference d provider chargeId) of
                       None \<Rightarrow> Inl ''intent_not_found''
                     | Some intent \<Rightarrow> Inr (in_tenantId intent))
                | _ \<Rightarrow> Inl ''exception'')))"

definition provider_config_of :: "db \<Rightarrow> string \<Rightarrow> provider \<Rightarrow> provider_config option" where
  "provider_config_of d tenantId provider =
     find (\<lambda>c. pc_tenantId c = tenantId \<and> pc_provider c = provider) (providerConfigs d)"

definition verifyWebhook ::
  "(string \<Rightarrow> json option) \<Rightarrow> (provider \<Rightarrow> string \<Rightarrow> provider_adapter result) \<Rightarrow> db \<Rightarrow> provider \<Rightarrow> string \<Rightarrow> headers
    \<Rightarrow> verify_webhook_result" where
  "verifyWebhook parse getAdapter d provider rawBody h =
     (case parse rawBody of
        None \<Rightarrow> Rejected ''invalid_json''
      | Some body \<Rightarrow>
          if body = JNull then Rejected ''exception''
          else (case verify_tenant d provider body of
            Inl reason \<Rightarrow> Rejected reason
          | Inr tenantId \<Rightarrow>
              (case provider_config_of d tenantId provider of
                 None \<Rightarrow> Rejected ''provider_config_not_found''
               | Some config \<Rightarrow>
                   (case getAdapter provider (pc_encryptedCredentials config) of
                      Inl x \<Rightarrow> Rejected ''exception''
                    | Inr adapter \<Rightarrow>
                        if ad_verifyWebhookSignature adapter rawBody h then Verified body tenantId
                        else Rejected ''signature_mismatch''))))"

section \<open>The routes\<close>

text \<open>The response: the HTTP status and whether the notification was a duplicate.\<close>

definition rejectInvalidVerification :: "string \<Rightarrow> int" where
  "rejectInvalidVerification failReason = (if failReason = ''invalid_json'' then 400 else 401)"

definition provider_name :: "provider \<Rightarrow> string" where
  "provider_name p = (case p of NAPS \<Rightarrow> ''NAPS'' | VPS \<Rightarrow> ''VPS'' | STRIPE \<Rightarrow> ''STRIPE'' | PAYPAL \<Rightarrow> ''PAYPAL'' | ADYEN \<Rightarrow> ''ADYEN'')"

definition seen_event :: "db \<Rightarrow> string \<Rightarrow> bool" where
  "seen_event d key \<longleftrightarrow> (\<exists>w\<in>set (webhookEvents d). we_idempotencyKey w = Some key)"

definition handleProviderWebhook ::
  "(string \<Rightarrow> json option) \<Rightarrow> (string \<Rightarrow> string) \<Rightarrow> (provider \<Rightarrow> string \<Rightarrow> provider_adapter result) \<Rightarrow> provider \<Rightarrow> string \<Rightarrow> headers
    \<Rightarrow> db \<Rightarrow> (int \<times> bool) \<times> db" where
  "handleProviderWebhook parse sha256 getAdapter provider rawBody h d =
     (case verifyWebhook parse getAdapter d provider rawBody h of
        Rejected reason \<Rightarrow> ((rejectInvalidVerification reason, False), d)
      | Verified body tenantId \<Rightarrow>
          let idempotencyKey = coalesce (json_string (first_field body [''eventId'', ''webhookId'', ''notification_id''])) (sha256 rawBody)
          in if seen_event d idempotencyKey then ((200, True), d)
             else ((200, False), send_event (WebhookProcess (provider_name provider @ '':'' @ idempotencyKey) provider body rawBody h
                     idempotencyKey) d))"

definition handleStripeWebhook ::
  "(string \<Rightarrow> json option) \<Rightarrow> (provider \<Rightarrow> string \<Rightarrow> provider_adapter result) \<Rightarrow> string \<Rightarrow> headers \<Rightarrow> db \<Rightarrow> (int \<times> bool) \<times> db" where
  "handleStripeWebhook parse getAdapter rawBody h d =
     (case verifyWebhook parse getAdapter d STRIPE rawBody h of
        Rejected reason \<Rightarrow> ((rejectInvalidVerification reason, False), d)
      | Verified body tenantId \<Rightarrow>
          (case json_string (json_field body ''id'') of
             None \<Rightarrow> ((500, False), d)
           | Some idempotencyKey \<Rightarrow>
               if seen_event d idempotencyKey then ((200, True), d)
               else ((200, False), send_event (StripeWebhookProcess (''STRIPE:'' @ idempotencyKey) body idempotencyKey) d)))"

section \<open>The processor of NAPS and VPS notifications\<close>

definition find_webhook_intent :: "db \<Rightarrow> provider \<Rightarrow> json \<Rightarrow> payment_intent option" where
  "find_webhook_intent d provider body =
     (let orderId = truthy_string (first_field body [''orderId'', ''OrderID'', ''paymentId'']);
          correlationId = truthy_string (json_field body ''customerId'')
      in or_else (Option.bind correlationId (intent_by_correlation d provider))
           (Option.bind orderId (\<lambda>i. or_else (find (\<lambda>r. in_providerRef r = Some i \<and> in_provider r = provider) (paymentIntents d))
              (intent_by_reference d provider i))))"

definition verify_signature :: "(provider \<Rightarrow> string \<Rightarrow> provider_adapter result) \<Rightarrow> db \<Rightarrow> provider \<Rightarrow> string option \<Rightarrow> string \<Rightarrow> headers \<Rightarrow> bool" where
  "verify_signature getAdapter d provider tenantId rawBody h =
     (case tenantId of
        None \<Rightarrow> False
      | Some t \<Rightarrow>
          (case provider_config_of d t provider of
             None \<Rightarrow> False
           | Some config \<Rightarrow>
               (case getAdapter provider (pc_encryptedCredentials config) of
                  Inl x \<Rightarrow> False
                | Inr adapter \<Rightarrow> ad_verifyWebhookSignature adapter rawBody h)))"

definition TERMINAL_STATUSES :: "payment_intent_status set" where
  "TERMINAL_STATUSES = {INTENT_SUCCEEDED, INTENT_FAILED, INTENT_CANCELED, INTENT_REFUNDED}"

record update_outcome =
  uo_mappedStatus :: "payment_intent_status option"
  uo_processingError :: "string option"
  uo_processed :: bool

definition update_failed :: "string \<Rightarrow> update_outcome" where
  "update_failed msg = \<lparr>uo_mappedStatus = None, uo_processingError = Some msg, uo_processed = False\<rparr>"

definition set_provider_transaction :: "string \<Rightarrow> string \<Rightarrow> db \<Rightarrow> db" where
  "set_provider_transaction intentId txId d =
     (case find (\<lambda>x. px_paymentIntentId x = intentId) (providerTransactions d) of
        None \<Rightarrow> d
      | Some existing \<Rightarrow> d\<lparr>providerTransactions := map (\<lambda>x. if px_id x = px_id existing
            then x\<lparr>px_providerTransactionId := Some txId\<rparr> else x) (providerTransactions d)\<rparr>)"

definition mark_link_paid :: "string option \<Rightarrow> db \<Rightarrow> db" where
  "mark_link_paid linkId d =
     (case linkId of
        None \<Rightarrow> d
      | Some i \<Rightarrow> d\<lparr>paymentLinks := map (\<lambda>l. if pl_id l = i then l\<lparr>pl_status := LINK_PAID\<rparr> else l) (paymentLinks d)\<rparr>)"

definition update_intent_status ::
  "(provider \<Rightarrow> string \<Rightarrow> provider_adapter result) \<Rightarrow> provider \<Rightarrow> json \<Rightarrow> payment_intent \<Rightarrow> json \<Rightarrow> db \<Rightarrow> update_outcome \<times> db" where
  "update_intent_status getAdapter provider body intent providerStatus d =
     (case provider_config_of d (in_tenantId intent) provider of
        None \<Rightarrow> (update_failed ''No provider config'', d)
      | Some config \<Rightarrow>
          (case getAdapter provider (pc_encryptedCredentials config) of
             Inl x \<Rightarrow> (update_failed ''exception'', d)
           | Inr adapter \<Rightarrow>
               (case providerStatus of
                  JStr st \<Rightarrow>
                    let internalStatus = ad_mapStatusToInternal adapter st;
                        d1 = (if in_status intent \<in> TERMINAL_STATUSES then d else set_intent_status (in_id intent) internalStatus d);
                        d2 = (case truthy_string (first_field body [''transactionId'', ''TransactionID'', ''id'', ''internalId'']) of
                                None \<Rightarrow> d1 | Some tx \<Rightarrow> set_provider_transaction (in_id intent) tx d1);
                        d3 = (if internalStatus = INTENT_SUCCEEDED then mark_link_paid (in_paymentLinkId intent) d2 else d2)
                    in (\<lparr>uo_mappedStatus = Some internalStatus, uo_processingError = None, uo_processed = True\<rparr>, d3)
                | _ \<Rightarrow> (update_failed ''TypeError'', d))))"

definition link_charge :: "db \<Rightarrow> payment_intent \<Rightarrow> rat \<times> currency" where
  "link_charge d intent =
     resolveIntentCharge (map_option (\<lambda>l. (fromMinor (pl_amount l) (pl_currency l), pl_currency l)) (find_link d (in_paymentLinkId intent)))
       (in_metadata intent)"

definition stored_profile :: "json \<Rightarrow> string option" where
  "stored_profile body = truthy_string (first_field body [''storedPaymentProfileId'', ''paymentProfileId'', ''profileId''])"

definition bootstrap_subscription :: "(string \<Rightarrow> string result) \<Rightarrow> env \<Rightarrow> json \<Rightarrow> payment_intent \<Rightarrow> unit job_step" where
  "bootstrap_subscription encrypt e body intent d =
     (case find_link d (in_paymentLinkId intent) of
        None \<Rightarrow> (Inr (), d)
      | Some link \<Rightarrow>
          if \<not> pl_isRecurring link then (Inr (), d)
          else (case stored_profile body of
            None \<Rightarrow> (Inr (), d)
          | Some storedProfileId \<Rightarrow>
              if find (\<lambda>s. su_initialPaymentIntentId s = in_id intent) (subscriptions d) \<noteq> None then (Inr (), d)
              else (case (encrypt storedProfileId, pl_billingInterval link) of
                (Inl x, _) \<Rightarrow> (Inl x, d)
              | (_, None) \<Rightarrow> (Inl (JsError ''PrismaClientValidationError''), d)
              | (Inr encryptedProfileId, Some interval) \<Rightarrow>
                  let row = \<lparr>su_id = fresh e d, su_tenantId = in_tenantId intent,
                        su_customerId = coalesce (json_string (json_field body ''customerId'')) (in_correlationId intent),
                        su_encryptedStoredProfileId = encryptedProfileId, su_initialPaymentIntentId = in_id intent,
                        su_paymentLinkId = Some (pl_id link), su_inngestRunId = None, su_status = SUB_PENDING, su_amount = pl_amount link,
                        su_currency = pl_currency link, su_intervalType = interval, su_intervalValue = coalesce (pl_intervalValue link) 1,
                        su_nextBillingDate = None, su_currentPeriodStart = None, su_currentPeriodEnd = None, su_retryCount = 0,
                        su_maxRetries = pl_maxRetries link\<rparr>
                  in (Inr (), send_event (SubscriptionActivated (''sub-activated-'' @ su_id row)
                        \<lparr>sa_subscriptionId = su_id row, sa_tenantId = in_tenantId intent, sa_customerId = su_customerId row,
                         sa_amount = madToCentimes (fromMinor (pl_amount link) MAD), sa_currency = pl_currency link,
                         sa_intervalType = interval, sa_intervalValue = coalesce (pl_intervalValue link) 1, sa_trialDays = None\<rparr>)
                      ((bump d)\<lparr>subscriptions := subscriptions d @ [row]\<rparr>)))))"

definition bootstrap_installments :: "(string \<Rightarrow> string result) \<Rightarrow> env \<Rightarrow> json \<Rightarrow> string \<Rightarrow> unit job_step" where
  "bootstrap_installments encrypt e body agreementId d =
     (case (stored_profile body, find (\<lambda>a. ia_id a = agreementId) (installmentAgreements d)) of
        (Some storedProfileId, Some agreement) \<Rightarrow>
          if ia_status agreement \<noteq> AGREEMENT_PENDING_CHECKOUT then (Inr (), d)
          else (case (encrypt storedProfileId, setUTCMonth (now e) (getUTCMonth (now e) + 1)) of
            (Inl x, _) \<Rightarrow> (Inl x, d)
          | (_, None) \<Rightarrow> (Inl (JsError ''Invalid Date''), d)
          | (Inr encryptedProfileId, Some nextChargeDate) \<Rightarrow>
              sbind (update_agreement agreementId (\<lambda>a. a\<lparr>ia_encryptedStoredProfileId := encryptedProfileId, ia_status := AGREEMENT_ACTIVE,
                       ia_paidCount := 1, ia_nextChargeDate := Some nextChargeDate\<rparr>) d) (\<lambda>_ d1.
                let d2 = (bump d1)\<lparr>installmentCharges := installmentCharges d1 @
                      [\<lparr>ic_id = fresh e d1, ic_agreementId = agreementId, ic_installmentNumber = 1, ic_dueDate = now e,
                        ic_amount = ia_downPayment agreement, ic_currency = ia_currency agreement, ic_status = ''CHARGED'',
                        ic_chargeId = ''down-'' @ agreementId, ic_vpsTransactionId = None, ic_attemptNumber = 1,
                        ic_processedAt = Some (now e), ic_errorMessage = None\<rparr>]\<rparr>
                in if ia_totalInstallments agreement > 1
                   then (Inr (), send_event (due_event (next_due agreement 2)) d2)
                   else sbind (update_agreement agreementId (\<lambda>a. a\<lparr>ia_status := AGREEMENT_COMPLETED, ia_nextChargeDate := None\<rparr>) d2)
                          (\<lambda>_ d3. (Inr (), d3))))
      | _ \<Rightarrow> (Inr (), d))"

text \<open>\<open>notifiableStatuses\<close>; its member \<open>CANCELLED\<close> is the name of no status (the enumeration has \<open>CANCELED\<close>).\<close>

definition notifiableStatuses :: "payment_intent_status set" where
  "notifiableStatuses = {INTENT_AUTHORIZED, INTENT_SUCCEEDED, INTENT_FAILED, INTENT_REFUNDED}"

definition store_webhook_event ::
  "env \<Rightarrow> provider \<Rightarrow> payment_intent option \<Rightarrow> bool \<Rightarrow> update_outcome \<Rightarrow> string \<Rightarrow> string job_step" where
  "store_webhook_event e provider intent signatureVerified uo idempotencyKey d =
     (if seen_event d idempotencyKey then (Inl (JsError ''P2002''), d)
      else (Inr (fresh e d), (bump d)\<lparr>webhookEvents := webhookEvents d @
             [\<lparr>we_id = fresh e d, we_provider = provider, we_tenantId = map_option in_tenantId intent,
               we_paymentIntentId = map_option in_id intent, we_signatureVerified = signatureVerified, we_processed = uo_processed uo,
               we_processingError = uo_processingError uo, we_mappedStatus = uo_mappedStatus uo,
               we_idempotencyKey = Some idempotencyKey\<rparr>]\<rparr>))"

text \<open>What follows a stored notification: the notification to the merchant, the risk evaluation, and the subscription or the
  installment agreement a first payment sets up.\<close>

definition webhook_follow_up ::
  "(string \<Rightarrow> string result) \<Rightarrow> env \<Rightarrow> provider \<Rightarrow> json \<Rightarrow> payment_intent \<Rightarrow> update_outcome \<Rightarrow> string \<Rightarrow> unit job_step" where
  "webhook_follow_up encrypt e provider body i uo eventId d =
     (let succeeded = (uo_processed uo \<and> uo_mappedStatus uo = Some INTENT_SUCCEEDED);
          d1 = (case uo_mappedStatus uo of
                  Some s \<Rightarrow> if uo_processed uo \<and> s \<in> notifiableStatuses
                            then send_event (PaymentNotify (in_id i) (in_tenantId i) s (Some eventId)) d else d
                | None \<Rightarrow> d);
          d2 = (if succeeded then send_event (RiskEvaluate (in_id i) (in_tenantId i)) d1 else d1)
      in sbind (if provider = VPS \<and> succeeded \<and> in_paymentLinkId i \<noteq> None then bootstrap_subscription encrypt e body i d2
                else (Inr (), d2)) (\<lambda>_ d3.
         case Option.bind (in_metadata i) meta_installmentAgreementId of
           Some agreementId \<Rightarrow>
             if provider = VPS \<and> succeeded \<and> agreementId \<noteq> [] then bootstrap_installments encrypt e body agreementId d3
             else (Inr (), d3)
         | None \<Rightarrow> (Inr (), d3)))"

definition webhookProcessor ::
  "(string \<Rightarrow> string \<Rightarrow> int) \<Rightarrow> (provider \<Rightarrow> string \<Rightarrow> provider_adapter result) \<Rightarrow> (string \<Rightarrow> string result) \<Rightarrow> env \<Rightarrow> provider \<Rightarrow> json
    \<Rightarrow> string \<Rightarrow> headers \<Rightarrow> string \<Rightarrow> (string \<times> update_outcome) job_step" where
  "webhookProcessor lc getAdapter encrypt e provider body rawBody h idempotencyKey d =
     (let intent = find_webhook_intent d provider body;
          signatureVerified = verify_signature getAdapter d provider (map_option in_tenantId intent) rawBody h;
          (uo, d1) = (case (first_field body [''Status'', ''status'', ''transactionStatus''], intent) of
             (Some st, Some i) \<Rightarrow>
               if truthy st then update_intent_status getAdapter provider body i st d
               else (\<lparr>uo_mappedStatus = None, uo_processingError = None, uo_processed = False\<rparr>, d)
           | _ \<Rightarrow> (\<lparr>uo_mappedStatus = None, uo_processingError = None, uo_processed = False\<rparr>, d));
          succeeded = (uo_processed uo \<and> uo_mappedStatus uo = Some INTENT_SUCCEEDED)
      in sbind (case intent of
                  Some i \<Rightarrow>
                    if succeeded
                    then (case settleCapture lc e (in_tenantId i) (in_id i) (fst (link_charge d i)) (Some (snd (link_charge d i))) None d1 of
                            Inl x \<Rightarrow> (Inl x, d1) | Inr (_, d2) \<Rightarrow> (Inr (), d2))
                    else (Inr (), d1)
                | None \<Rightarrow> (Inr (), d1)) (\<lambda>_ d2.
         sbind (store_webhook_event e provider intent signatureVerified uo idempotencyKey d2) (\<lambda>eventId d3.
         sbind (case intent of None \<Rightarrow> (Inr (), d3) | Some i \<Rightarrow> webhook_follow_up encrypt e provider body i uo eventId d3)
           (\<lambda>_ d4. (Inr (eventId, uo), d4)))))"

section \<open>The processor of Stripe events\<close>

definition extractPaymentIntent :: "json \<Rightarrow> json option" where
  "extractPaymentIntent obj =
     (if json_field obj ''object'' = Some (JStr ''payment_intent'') then Some obj
      else if json_field obj ''object'' = Some (JStr ''checkout.session'')
      then (case json_field obj ''payment_intent'' of
              Some (JObj kvs) \<Rightarrow> Some (JObj kvs) | Some (JArr xs) \<Rightarrow> Some (JArr xs) | _ \<Rightarrow> None)
      else None)"

definition extractCorrelationId :: "json \<Rightarrow> string option" where
  "extractCorrelationId obj =
     json_string (first_field (coalesce (json_field obj ''metadata'') (JObj [])) [''correlationId'', ''corpopayRef''])"

definition find_stripe_intent :: "db \<Rightarrow> json \<Rightarrow> payment_intent option" where
  "find_stripe_intent d obj =
     (let correlationId = extractCorrelationId obj;
          piId = (if json_field obj ''object'' = Some (JStr ''payment_intent'') then truthy_string (json_field obj ''id'')
                  else truthy_string (json_field obj ''payment_intent''))
      in or_else (Option.bind correlationId (\<lambda>c. if c = [] then None else intent_by_correlation d STRIPE c))
           (Option.bind piId (\<lambda>i. find (\<lambda>r. in_providerRef r = Some i \<and> in_provider r = STRIPE) (paymentIntents d))))"

text \<open>The status an event asks for and the charge id it carries; \<open>None\<close> for an event type that is not handled.\<close>

definition route_stripe_event :: "string \<Rightarrow> json \<Rightarrow> (payment_intent_status \<times> string option) option" where
  "route_stripe_event eventType obj =
     (let latest_charge = Option.bind (extractPaymentIntent obj) (\<lambda>p. json_string (json_field p ''latest_charge''))
      in if eventType \<in> {''checkout.session.completed'', ''payment_intent.succeeded''} then Some (INTENT_SUCCEEDED, latest_charge)
         else if eventType = ''payment_intent.amount_capturable_updated'' then Some (INTENT_AUTHORIZED, latest_charge)
         else if eventType = ''payment_intent.payment_failed'' then Some (INTENT_FAILED, None)
         else if eventType = ''payment_intent.canceled'' then Some (INTENT_CANCELED, None)
         else if eventType = ''charge.refunded'' then Some (INTENT_REFUNDED, json_string (json_field obj ''id''))
         else None)"

definition stripe_update_status :: "string \<Rightarrow> payment_intent_status \<Rightarrow> db \<Rightarrow> payment_intent_status option \<times> db" where
  "stripe_update_status intentId newStatus d =
     (case find (\<lambda>r. in_id r = intentId) (paymentIntents d) of
        None \<Rightarrow> (None, d)
      | Some r \<Rightarrow>
          let alreadyTerminal = in_status r \<in> TERMINAL_STATUSES; incomingTerminal = newStatus \<in> TERMINAL_STATUSES
          in if alreadyTerminal \<and> in_status r = newStatus then (None, d)
             else if alreadyTerminal \<and> in_status r \<noteq> INTENT_SUCCEEDED \<and> newStatus = INTENT_REFUNDED then (None, d)
             else if alreadyTerminal \<and> \<not> incomingTerminal then (None, d)
             else (Some newStatus, set_intent_status intentId newStatus d))"

definition upsert_provider_transaction :: "env \<Rightarrow> string \<Rightarrow> string option \<Rightarrow> db \<Rightarrow> db" where
  "upsert_provider_transaction e intentId txId d =
     (case find (\<lambda>x. px_paymentIntentId x = intentId) (providerTransactions d) of
        Some existing \<Rightarrow> d\<lparr>providerTransactions := map (\<lambda>x. if px_id x = px_id existing
            then x\<lparr>px_providerTransactionId := or_else (truthy_string (map_option JStr txId)) (px_providerTransactionId x)\<rparr> else x)
            (providerTransactions d)\<rparr>
      | None \<Rightarrow> (bump d)\<lparr>providerTransactions := providerTransactions d @
            [\<lparr>px_id = fresh e d, px_paymentIntentId = intentId, px_provider = STRIPE, px_providerTransactionId = txId\<rparr>]\<rparr>)"

definition stripeWebhookProcessor ::
  "(string \<Rightarrow> string \<Rightarrow> int) \<Rightarrow> env \<Rightarrow> json \<Rightarrow> string \<Rightarrow> payment_intent_status option job_step" where
  "stripeWebhookProcessor lc e body idempotencyKey d =
     (let eventType = coalesce (json_string (json_field body ''type'')) [];
          obj = coalesce (json_field (coalesce (json_field body ''data'') (JObj [])) ''object'') (JObj [])
      in case find_stripe_intent d obj of
           None \<Rightarrow> (Inr None, d)
         | Some intent \<Rightarrow>
             (case route_stripe_event eventType obj of
                None \<Rightarrow> (Inr None, d)
              | Some (newStatus, txId) \<Rightarrow>
                  let (updated, d1) = stripe_update_status (in_id intent) newStatus d
                  in sbind (if updated = Some INTENT_SUCCEEDED
                            then (case settleCapture lc e (in_tenantId intent) (in_id intent) (fst (link_charge d1 intent))
                                         (Some (snd (link_charge d1 intent))) None d1 of
                                    Inl x \<Rightarrow> (Inl x, d1) | Inr (_, d2) \<Rightarrow> (Inr (), d2))
                            else (Inr (), d1)) (\<lambda>_ d2.
                     let d3 = upsert_provider_transaction e (in_id intent) txId d2;
                         d4 = (if newStatus = INTENT_SUCCEEDED then mark_link_paid (in_paymentLinkId intent) d3 else d3)
                     in sbind (store_webhook_event e STRIPE (Some intent) True
                                 \<lparr>uo_mappedStatus = Some newStatus, uo_processingError = None, uo_processed = (updated \<noteq> None)\<rparr>
                                 idempotencyKey d4) (\<lambda>eventId d5.
                        let d6 = (if updated \<noteq> None
                                  then send_event (PaymentNotify (in_id intent) (in_tenantId intent) newStatus (Some eventId)) d5 else d5);
                            d7 = (if updated \<noteq> None \<and> newStatus = INTENT_SUCCEEDED
                                  then send_event (RiskEvaluate (in_id intent) (in_tenantId intent)) d6 else d6)
                        in (Inr updated, d7)))))"

section \<open>Lemmas\<close>

lemma seen_event_cong: "webhookEvents d' = webhookEvents d \<Longrightarrow> seen_event d' key = seen_event d key"
  by (simp add: seen_event_def)

lemma send_event_frame [simp]:
  "webhookEvents (send_event ev d) = webhookEvents d" "providerConfigs (send_event ev d) = providerConfigs d"
  "ledgerEntries (send_event ev d) = ledgerEntries d" "subscriptions (send_event ev d) = subscriptions d"
  by (simp_all add: send_event_def)

text \<open>The tables a status update leaves alone.\<close>

definition same_money :: "db \<Rightarrow> db \<Rightarrow> bool" where
  "same_money d d' \<longleftrightarrow>
     ledgerEntries d' = ledgerEntries d \<and> feeSchedules d' = feeSchedules d \<and> settlementPolicies d' = settlementPolicies d \<and>
     tenants d' = tenants d \<and> splitRules d' = splitRules d \<and> splitParties d' = splitParties d \<and> webhookEvents d' = webhookEvents d"

lemma same_money_settle:
  assumes "same_money d d'"
  shows "settle_ready d' u g = settle_ready d u g" "alreadySettled d' u i = alreadySettled d u i" "seen_event d' k = seen_event d k"
  using assms by (simp_all add: same_money_def settle_ready_def known_party_def alreadySettled_def settlement_fee_of_def settlement_policy_of_def
      settlement_tax_of_def settlement_rule_of_def seen_event_def)

lemma update_run:
  assumes "provider_config_of d (in_tenantId b) p = Some cfg" "getAdapter p (pc_encryptedCredentials cfg) = Inr ad"
    "in_status b \<notin> TERMINAL_STATUSES" "in_paymentLinkId b = None"
  obtains d1 where "update_intent_status getAdapter p body b (JStr st) d =
      (\<lparr>uo_mappedStatus = Some (ad_mapStatusToInternal ad st), uo_processingError = None, uo_processed = True\<rparr>, d1)"
    "paymentIntents d1 = paymentIntents (set_intent_status (in_id b) (ad_mapStatusToInternal ad st) d)" "same_money d d1"
proof -
  define d0 where "d0 = set_intent_status (in_id b) (ad_mapStatusToInternal ad st) d"
  define d1 where "d1 = (case truthy_string (first_field body [''transactionId'', ''TransactionID'', ''id'', ''internalId'']) of
      None \<Rightarrow> d0 | Some tx \<Rightarrow> set_provider_transaction (in_id b) tx d0)"
  have "update_intent_status getAdapter p body b (JStr st) d =
      (\<lparr>uo_mappedStatus = Some (ad_mapStatusToInternal ad st), uo_processingError = None, uo_processed = True\<rparr>, d1)"
    unfolding d1_def d0_def using assms by (simp add: update_intent_status_def Let_def mark_link_paid_def del: first_field.simps)
  moreover have "paymentIntents d1 = paymentIntents d0" "same_money d d1"
    by (auto simp: d1_def d0_def set_provider_transaction_def same_money_def set_intent_status_def split: option.splits)
  ultimately show ?thesis using that by (simp add: d0_def)
qed

text \<open>A success notification for an intent without a link.\<close>

lemma processor_success:
  assumes b: "find_webhook_intent d p body = Some b" "the_intent d (in_id b) b" "in_status b \<notin> TERMINAL_STATUSES"
      "in_paymentLinkId b = None" "Option.bind (in_metadata b) meta_installmentAgreementId = None"
    and st: "first_field body [''Status'', ''status'', ''transactionStatus''] = Some (JStr st)" "st \<noteq> []"
    and cfg: "provider_config_of d (in_tenantId b) p = Some cfg" "getAdapter p (pc_encryptedCredentials cfg) = Inr ad"
      "ad_mapStatusToInternal ad st = INTENT_SUCCEEDED"
    and ready: "settle_ready d (in_tenantId b) (Math_round (fst (link_charge d b)))" "0 < Math_round (fst (link_charge d b))"
    and new: "\<not> seen_event d key"
  obtains ev uo d' r w where "webhookProcessor lc getAdapter encrypt e p body raw h key d = (Inr (ev, uo), d')"
    "the_intent d' (in_id b) r" "in_status r = INTENT_SUCCEEDED" "alreadySettled d' (in_tenantId b) (in_id b)"
    "w \<in> set (webhookEvents d')" "we_paymentIntentId w = Some (in_id b)" "we_idempotencyKey w = Some key"
    "we_signatureVerified w = ad_verifyWebhookSignature ad raw h"
proof -
  define uo where "uo = \<lparr>uo_mappedStatus = Some INTENT_SUCCEEDED, uo_processingError = None, uo_processed = True\<rparr>"
  obtain d1 where d1: "update_intent_status getAdapter p body b (JStr st) d = (uo, d1)"
    "paymentIntents d1 = paymentIntents (set_intent_status (in_id b) INTENT_SUCCEEDED d)" "same_money d d1"
    by (rule update_run [where getAdapter = getAdapter and st = st and body = body, OF cfg(1,2) b(3,4)]) (use cfg(3) that in \<open>simp add: uo_def\<close>)
  have ready1: "settle_ready d1 (in_tenantId b) (Math_round (fst (link_charge d b)))" using ready(1) same_money_settle [OF d1(3)] by simp
  obtain x d2 where d2: "settleCapture lc e (in_tenantId b) (in_id b) (fst (link_charge d b)) (Some (snd (link_charge d b))) None d1 = Inr (x, d2)"
    "alreadySettled d2 (in_tenantId b) (in_id b)"
    by (rule settleCapture_ready [OF ready1 ready(2)])
  have frame: "paymentIntents d2 = paymentIntents d1" "webhookEvents d2 = webhookEvents d"
    using settleCapture_intents [OF d2(1)] d1(3) by (simp_all add: same_money_def)
  have sig: "verify_signature getAdapter d p (Some (in_tenantId b)) raw h = ad_verifyWebhookSignature ad raw h"
    using cfg by (simp add: verify_signature_def)
  define w where "w = \<lparr>we_id = fresh e d2, we_provider = p, we_tenantId = Some (in_tenantId b), we_paymentIntentId = Some (in_id b),
    we_signatureVerified = ad_verifyWebhookSignature ad raw h, we_processed = True, we_processingError = None,
    we_mappedStatus = Some INTENT_SUCCEEDED, we_idempotencyKey = Some key\<rparr>"
  define d3 where "d3 = (bump d2)\<lparr>webhookEvents := webhookEvents d2 @ [w]\<rparr>"
  have store: "store_webhook_event e p (Some b) (ad_verifyWebhookSignature ad raw h) uo key d2 = (Inr (fresh e d2), d3)"
    using new frame(2) by (simp add: store_webhook_event_def seen_event_cong [OF frame(2)] d3_def w_def uo_def)
  define d' where "d' = send_event (RiskEvaluate (in_id b) (in_tenantId b))
    (send_event (PaymentNotify (in_id b) (in_tenantId b) INTENT_SUCCEEDED (Some (fresh e d2))) d3)"
  have run: "webhookProcessor lc getAdapter encrypt e p body raw h key d = (Inr (fresh e d2, uo), d')"
    using b(4,5) st d2(1) store
    by (simp add: webhookProcessor_def b(1) sig d1(1)) (simp add: uo_def d'_def notifiableStatuses_def webhook_follow_up_def)
  have "the_intent d' (in_id b) (b\<lparr>in_status := INTENT_SUCCEEDED\<rparr>)"
    using the_intent_set [OF b(2), of INTENT_SUCCEEDED] by (simp add: the_intent_def d'_def d3_def bump_def frame(1) d1(2))
  moreover have "alreadySettled d' (in_tenantId b) (in_id b)" using d2(2) by (simp add: d'_def d3_def alreadySettled_def bump_def)
  moreover have "w \<in> set (webhookEvents d')" by (simp add: d'_def d3_def)
  ultimately show ?thesis using that [OF run] by (simp add: w_def)
qed

section \<open>Properties\<close>

text \<open>
  C40. A notification of one tenant settles the payment of another. The route checks the signature with the key of the tenant
  whose intent \<open>chargeId\<close> names, and the processor acts on the intent that \<open>customerId\<close> names. So a success notification signed
  by tenant \<open>A\<close>, with the correlation id of an open direct payment of tenant \<open>B\<close> as \<open>customerId\<close>, is accepted, and the payment
  of \<open>B\<close> is marked SUCCEEDED and settled into \<open>B\<close>'s ledger, although the processor itself records that the signature is not
  valid for \<open>B\<close>.
\<close>

theorem webhook_cross_tenant:
  assumes p: "p \<noteq> STRIPE" "parse raw = Some body" "json_field body ''chargeId'' = Some (JStr (in_correlationId a))"
      "json_field body ''customerId'' = Some (JStr (in_correlationId b))" "in_correlationId a \<noteq> []" "in_correlationId b \<noteq> []"
    and a: "intent_by_correlation d p (in_correlationId a) = Some a" "provider_config_of d (in_tenantId a) p = Some cfgA"
      "getAdapter p (pc_encryptedCredentials cfgA) = Inr adA" "ad_verifyWebhookSignature adA raw h"
    and b: "intent_by_correlation d p (in_correlationId b) = Some b" "the_intent d (in_id b) b" "in_status b \<notin> TERMINAL_STATUSES"
      "in_paymentLinkId b = None" "Option.bind (in_metadata b) meta_installmentAgreementId = None"
    and cfg: "provider_config_of d (in_tenantId b) p = Some cfgB" "getAdapter p (pc_encryptedCredentials cfgB) = Inr adB"
      "ad_mapStatusToInternal adB st = INTENT_SUCCEEDED" "\<not> ad_verifyWebhookSignature adB raw h"
    and st: "first_field body [''Status'', ''status'', ''transactionStatus''] = Some (JStr st)" "st \<noteq> []"
    and ready: "settle_ready d (in_tenantId b) (Math_round (fst (link_charge d b)))" "0 < Math_round (fst (link_charge d b))"
    and new: "\<forall>key. \<not> seen_event d key"
  shows "\<exists>ident key ev uo d' r w.
    handleProviderWebhook parse sha256 getAdapter p raw h d = ((200, False), send_event (WebhookProcess ident p body raw h key) d) \<and>
    webhookProcessor lc getAdapter encrypt e p body raw h key d = (Inr (ev, uo), d') \<and>
    the_intent d' (in_id b) r \<and> in_status r = INTENT_SUCCEEDED \<and> alreadySettled d' (in_tenantId b) (in_id b) \<and>
    w \<in> set (webhookEvents d') \<and> we_paymentIntentId w = Some (in_id b) \<and> \<not> we_signatureVerified w"
proof -
  have "verifyWebhook parse getAdapter d p raw h = Verified body (in_tenantId a)"
    using p a by (auto simp: verifyWebhook_def verify_tenant_def json_field_def)
  then obtain ident key where "handleProviderWebhook parse sha256 getAdapter p raw h d =
      ((200, False), send_event (WebhookProcess ident p body raw h key) d)"
    using new by (simp add: handleProviderWebhook_def Let_def)
  moreover have "find_webhook_intent d p body = Some b"
    using p b(1) by (simp add: find_webhook_intent_def truthy_string_def)
  then obtain ev uo d' r w where "webhookProcessor lc getAdapter encrypt e p body raw h key d = (Inr (ev, uo), d')"
    "the_intent d' (in_id b) r" "in_status r = INTENT_SUCCEEDED" "alreadySettled d' (in_tenantId b) (in_id b)"
    "w \<in> set (webhookEvents d')" "we_paymentIntentId w = Some (in_id b)" "we_signatureVerified w = ad_verifyWebhookSignature adB raw h"
    by (rule processor_success [where getAdapter = getAdapter and st = st and lc = lc and encrypt = encrypt and e = e and raw = raw
          and h = h and key = key, OF _ b(2-5) st cfg(1-3) ready]) (simp_all add: new that)
  ultimately show ?thesis using cfg(4) by blast
qed

definition demo_other_intent :: payment_intent where
  "demo_other_intent = demo_intent\<lparr>in_id := ''i2'', in_tenantId := ''t2'', in_correlationId := ''corr2''\<rparr>"

definition demo_webhook_db :: db where
  "demo_webhook_db = demo_intent_db\<lparr>paymentIntents := [demo_intent, demo_other_intent],
     providerConfigs := providerConfigs demo_intent_db @
       [\<lparr>pc_id = ''c2'', pc_tenantId = ''t2'', pc_provider = VPS, pc_encryptedCredentials = ''k2'', pc_status = CONFIG_CONNECTED\<rparr>]\<rparr>"

definition demo_body :: json where
  "demo_body = JObj [(''chargeId'', JStr ''corr2''), (''customerId'', JStr ''corr''), (''status'', JStr ''PAID'')]"

definition demo_adapter :: "provider \<Rightarrow> string \<Rightarrow> provider_adapter result" where
  "demo_adapter p k = Inr (VpsAdapter (\<lambda>k b. k) \<lparr>vc_notificationKey = Some k, vc_callbackTestMode = None\<rparr> (\<lambda>q. Inl (JsError ''TimeoutError'')))"

lemma demo_signatures:
  "vps_verifyWebhookSignature (\<lambda>k b. k) \<lparr>vc_notificationKey = Some ''k2'', vc_callbackTestMode = None\<rparr> raw (\<lambda>x. Some ''k2'')"
  "\<not> vps_verifyWebhookSignature (\<lambda>k b. k) \<lparr>vc_notificationKey = Some ''k'', vc_callbackTestMode = None\<rparr> raw (\<lambda>x. Some ''k2'')"
  "vps_mapStatusToInternal ''PAID'' = INTENT_SUCCEEDED"
  by code_simp+

lemma demo_webhook_ready: "settle_ready demo_webhook_db ''t1'' 500"
  by (simp add: settle_ready_def demo_webhook_db_def demo_intent_db_def empty_db_def settlement_fee_of_def settlement_tax_of_def
      settlement_rule_of_def settlement_policy_of_def resolveFeeSpec_def presetForIndustry_def DEFAULT_PRESET_def
      resolvePolicy_def no_overrides_def wf_schedule_def rates_def percentage_fee_def)

lemmas demo_webhook = demo_webhook_db_def demo_intent_db_def demo_intent_def demo_other_intent_def empty_db_def intent_by_correlation_def
  provider_config_of_def the_intent_def seen_event_def

theorem webhook_cross_tenant_witness:
  "\<exists>ident key ev uo d' r w.
    handleProviderWebhook (\<lambda>s. Some demo_body) id demo_adapter VPS ''raw'' (\<lambda>x. Some ''k2'') demo_webhook_db =
      ((200, False), send_event (WebhookProcess ident VPS demo_body ''raw'' (\<lambda>x. Some ''k2'') key) demo_webhook_db) \<and>
    webhookProcessor (\<lambda>a b. 0) demo_adapter Inr demo_env VPS demo_body ''raw'' (\<lambda>x. Some ''k2'') key demo_webhook_db = (Inr (ev, uo), d') \<and>
    the_intent d' ''i1'' r \<and> in_status r = INTENT_SUCCEEDED \<and> alreadySettled d' ''t1'' ''i1'' \<and>
    w \<in> set (webhookEvents d') \<and> we_paymentIntentId w = Some ''i1'' \<and> \<not> we_signatureVerified w"
proof -
  have ids: "in_id demo_intent = ''i1''" "in_tenantId demo_intent = ''t1''" by (simp_all add: demo_intent_def)
  have "fst (link_charge demo_webhook_db demo_intent) = 500"
    by (simp add: link_charge_def resolveIntentCharge_def find_link_def demo_webhook)
  with Math_round_of_int [of 500] have ready: "settle_ready demo_webhook_db ''t1'' (Math_round (fst (link_charge demo_webhook_db demo_intent)))"
    "0 < Math_round (fst (link_charge demo_webhook_db demo_intent))"
    using demo_webhook_ready by simp_all
  have st: "first_field demo_body [''Status'', ''status'', ''transactionStatus''] = Some (JStr ''PAID'')" "''PAID'' \<noteq> []"
    by (simp_all add: demo_body_def json_field_def)
  have a: "intent_by_correlation demo_webhook_db VPS (in_correlationId demo_other_intent) = Some demo_other_intent"
    "provider_config_of demo_webhook_db (in_tenantId demo_other_intent) VPS = Some (providerConfigs demo_webhook_db ! 1)"
    "intent_by_correlation demo_webhook_db VPS (in_correlationId demo_intent) = Some demo_intent"
    "the_intent demo_webhook_db (in_id demo_intent) demo_intent"
    "provider_config_of demo_webhook_db (in_tenantId demo_intent) VPS = Some (providerConfigs demo_webhook_db ! 0)"
    "\<forall>key. \<not> seen_event demo_webhook_db key"
    by (simp_all add: demo_webhook)
  have sig: "ad_verifyWebhookSignature (projr (demo_adapter VPS ''k2'')) ''raw'' (\<lambda>x. Some ''k2'')"
    "\<not> ad_verifyWebhookSignature (projr (demo_adapter VPS ''k'')) ''raw'' (\<lambda>x. Some ''k2'')"
    "ad_mapStatusToInternal (projr (demo_adapter VPS ''k'')) ''PAID'' = INTENT_SUCCEEDED"
    using demo_signatures by (simp_all add: demo_adapter_def VpsAdapter_def)
  show ?thesis
    by (rule webhook_cross_tenant [where a = demo_other_intent and b = demo_intent and st = "''PAID''"
          and adA = "projr (demo_adapter VPS ''k2'')" and adB = "projr (demo_adapter VPS ''k'')", unfolded ids,
          OF _ refl _ _ _ _ a(1,2) _ sig(1) a(3) a(4) [unfolded ids] _ _ _ a(5) [unfolded ids] _ sig(3,2) st ready a(6)])
      (simp_all add: demo_body_def json_field_def demo_webhook TERMINAL_STATUSES_def demo_adapter_def)
qed

text \<open>
  Out-of-order Stripe events. The guard of the status update lets a success event through in every terminal state but
  SUCCEEDED itself: a payment that was refunded, failed or canceled is put back to SUCCEEDED by a late success event, while
  a late refund event is ignored unless the payment has succeeded.
\<close>

lemma stripe_late_success:
  assumes "the_intent d i r" "in_status r \<in> {INTENT_REFUNDED, INTENT_FAILED, INTENT_CANCELED}"
  shows "\<exists>d' r'. stripe_update_status i INTENT_SUCCEEDED d = (Some INTENT_SUCCEEDED, d') \<and> the_intent d' i r' \<and> in_status r' = INTENT_SUCCEEDED \<and>
    stripe_update_status i INTENT_REFUNDED d = (None, d)"
proof -
  have "find (\<lambda>r. in_id r = i) (paymentIntents d) = Some r" using assms(1) by (intro find_unique) (auto simp: the_intent_def)
  then have "stripe_update_status i INTENT_SUCCEEDED d = (Some INTENT_SUCCEEDED, set_intent_status i INTENT_SUCCEEDED d)"
    "stripe_update_status i INTENT_REFUNDED d = (None, d)"
    using assms(2) by (auto simp: stripe_update_status_def TERMINAL_STATUSES_def)
  then show ?thesis using the_intent_set [OF assms(1), of INTENT_SUCCEEDED]
    by (intro exI [of _ "set_intent_status i INTENT_SUCCEEDED d"] exI [of _ "r\<lparr>in_status := INTENT_SUCCEEDED\<rparr>"]) simp
qed

end
