(* ===== verification/Refund.thy ===== *)
theory Refund
  imports Settlement
begin

text \<open>
  \<open>src/lib/refund-db.ts\<close>: the ledger side of a full refund. It debits, account by account, the credits the capture's
  settlement left on AVAILABLE, FEES and RESERVE, against CASH, once per refund.
\<close>

definition REFUNDED_ACCOUNTS :: "ledger_account list" where
  "REFUNDED_ACCOUNTS = [AVAILABLE, FEES, RESERVE]"

definition refund_exists :: "db \<Rightarrow> string \<Rightarrow> string \<Rightarrow> bool" where
  "refund_exists d tenantId refundId \<longleftrightarrow>
     (\<exists>r\<in>set (ledgerEntries d). le_tenantId r = tenantId \<and> le_sourceType r = Some ''refund'' \<and> le_sourceId r = Some refundId)"

definition refund_credits :: "db \<Rightarrow> string \<Rightarrow> string \<Rightarrow> ledger_entry list" where
  "refund_credits d tenantId intentId =
     filter (\<lambda>r. le_tenantId r = tenantId \<and> le_sourceType r = Some ''payment_intent'' \<and> le_sourceId r = Some intentId \<and>
        le_direction r = CREDIT \<and> le_account r \<in> set REFUNDED_ACCOUNTS) (ledgerEntries d)"

definition refund_legs :: "ledger_entry list \<Rightarrow> currency \<Rightarrow> (ledger_leg \<times> ledger_leg) list" where
  "refund_legs credits c =
     map (\<lambda>r. (debit (le_account r) (le_amount r) REFUND None c, credit CASH (le_amount r) REFUND None c))
       (filter (\<lambda>r. \<not> le_amount r \<le> 0) credits)"

definition settleRefund :: "env \<Rightarrow> string \<Rightarrow> string \<Rightarrow> string \<Rightarrow> db \<Rightarrow> (bool \<times> db) result" where
  "settleRefund e tenantId intentId refundId d =
     (if refund_exists d tenantId refundId then Inr (False, d)
      else case refund_credits d tenantId intentId of
        [] \<Rightarrow> Inr (False, d)
      | first # rest \<Rightarrow>
          let credits = first # rest;
              c = le_currency first;
              availableBalance = accountBalanceCents d tenantId AVAILABLE c;
              netCents = (case find (\<lambda>r. le_account r = AVAILABLE) credits of Some r \<Rightarrow> le_amount r | None \<Rightarrow> 0)
          in if netCents > availableBalance then Inl (AppError 409 ''REFUND_AFTER_PAYOUT'')
             else ebind (moves e tenantId (Some ''refund'') (Some refundId) (refund_legs credits c) d) (\<lambda>d1. Inr (True, d1)))"

section \<open>Lemmas\<close>

definition credited :: "ledger_entry list \<Rightarrow> ledger_account \<Rightarrow> centimes" where
  "credited rows a = (\<Sum>r\<leftarrow>filter (\<lambda>r. le_account r = a) rows. max 0 (le_amount r))"

lemma balanceOf_refund_legs:
  assumes "\<forall>r\<in>set rows. le_account r \<noteq> CASH"
  shows "balanceOf (pair_legs (refund_legs rows c)) a c =
    (if a = CASH then (\<Sum>r\<leftarrow>rows. max 0 (le_amount r)) else - credited rows a)"
  using assms unfolding refund_legs_def credited_def
  by (induction rows) (auto simp: max_def)

lemma refund_credits_accounts: "r \<in> set (refund_credits d t i) \<Longrightarrow> le_account r \<in> {AVAILABLE, FEES, RESERVE}"
  by (auto simp: refund_credits_def REFUNDED_ACCOUNTS_def)

lemma refund_legs_ok: "\<exists>d'. moves e t st si (refund_legs (refund_credits d t' i) c) d0 = Inr d'"
  by (rule moves_ok) (auto simp: refund_legs_def to_posting_def dest!: refund_credits_accounts)

lemma settleRefund_run:
  assumes "settleRefund e t i rid d = Inr (True, d')"
  shows "\<exists>c. \<not> refund_exists d t rid \<and> refund_credits d t i \<noteq> [] \<and> c = le_currency (hd (refund_credits d t i)) \<and>
    moves e t (Some ''refund'') (Some rid) (refund_legs (refund_credits d t i) c) d = Inr d'"
  using assms by (auto simp: settleRefund_def Let_def split: if_splits list.splits)

text \<open>The credits found for an intent whose rows were all booked by one settlement.\<close>

definition refundable :: "ledger_leg list \<Rightarrow> ledger_leg list" where
  "refundable legs = filter (\<lambda>l. direction l = CREDIT \<and> account l \<in> set REFUNDED_ACCOUNTS) legs"

lemma refund_credits_booked:
  assumes "booked t (Some CAPTURE_SOURCE_TYPE) (Some i) legs d d1"
    and none: "\<forall>r\<in>set (ledgerEntries d). \<not> (le_tenantId r = t \<and> le_sourceType r = Some CAPTURE_SOURCE_TYPE \<and> le_sourceId r = Some i)"
  shows "map leg_of_row (refund_credits d1 t i) = map strip (refundable legs)"
proof -
  from assms(1) obtain rows where rows: "ledgerEntries d1 = ledgerEntries d @ rows" "map leg_of_row rows = map strip legs"
    "\<forall>r\<in>set rows. le_tenantId r = t \<and> le_sourceType r = Some CAPTURE_SOURCE_TYPE \<and> le_sourceId r = Some i"
    unfolding booked_def by blast
  have "refund_credits d1 t i = filter (\<lambda>r. le_direction r = CREDIT \<and> le_account r \<in> set REFUNDED_ACCOUNTS) rows"
  proof -
    let ?P = "\<lambda>r. le_tenantId r = t \<and> le_sourceType r = Some ''payment_intent'' \<and> le_sourceId r = Some i \<and>
        le_direction r = CREDIT \<and> le_account r \<in> set REFUNDED_ACCOUNTS"
    have "filter ?P (ledgerEntries d) = []" using none by (auto simp: filter_empty_conv CAPTURE_SOURCE_TYPE_def)
    moreover have "filter ?P rows = filter (\<lambda>r. le_direction r = CREDIT \<and> le_account r \<in> set REFUNDED_ACCOUNTS) rows"
      using rows(3) by (intro filter_cong) (auto simp: CAPTURE_SOURCE_TYPE_def)
    ultimately show ?thesis by (simp add: refund_credits_def rows(1))
  qed
  moreover have "map leg_of_row (filter (\<lambda>r. le_direction r = CREDIT \<and> le_account r \<in> set REFUNDED_ACCOUNTS) rows)
      = filter (\<lambda>l. direction l = CREDIT \<and> account l \<in> set REFUNDED_ACCOUNTS) (map leg_of_row rows)"
    by (simp add: filter_map comp_def) (simp add: leg_of_row_def)
  moreover have "filter (\<lambda>l. direction l = CREDIT \<and> account l \<in> set REFUNDED_ACCOUNTS) (map strip legs) = map strip (refundable legs)"
    by (simp add: refundable_def filter_map comp_def)
  ultimately show ?thesis using rows(2) by simp
qed

definition leg_credited :: "ledger_leg list \<Rightarrow> ledger_account \<Rightarrow> centimes" where
  "leg_credited legs a = (\<Sum>l\<leftarrow>filter (\<lambda>l. account l = a) legs. max 0 (amountCents l))"

lemma credited_legs:
  assumes "map leg_of_row rows = map strip legs"
  shows "credited rows a = leg_credited legs a" "(\<Sum>r\<leftarrow>rows. max 0 (le_amount r)) = (\<Sum>l\<leftarrow>legs. max 0 (amountCents l))"
    "map le_currency rows = map leg_currency legs"
  using assms
proof (induction rows arbitrary: legs)
  case (Cons r rows)
  { case 1 with Cons show ?case by (auto simp: credited_def leg_credited_def Cons_eq_map_conv dest!: leg_of_row_eq) next
    case 2 with Cons show ?case by (auto simp: Cons_eq_map_conv dest!: leg_of_row_eq) next
    case 3 with Cons show ?case by (auto simp: Cons_eq_map_conv dest!: leg_of_row_eq) }
qed (auto simp: credited_def leg_credited_def)

text \<open>The legs a settlement books, without and with a split.\<close>

lemma capture_booked:
  assumes "settleCapture lc e t i amount cur m d = Inr (True, d1)"
  defines "gross \<equiv> Math_round amount" and "c \<equiv> coalesce cur MAD"
  shows "\<exists>base plan mid. booked t (Some CAPTURE_SOURCE_TYPE) (Some i)
      ([debit CASH gross CAPTURE None c, credit COLLECTED gross CAPTURE None c] @ mid @
       pair_legs (settlement_legs (if settlement_rule_of d t \<noteq> None then AVAILABLE else COLLECTED)
         (settlement_rule_of d t \<noteq> None) plan c)) d d1 \<and>
    planCaptureSettlement base (settlement_fee_of d t) (settlement_policy_of d t) m (Some (settlement_tax_of d t)) = Inr plan \<and>
    (settlement_rule_of d t = None \<longrightarrow> mid = [] \<and> base = gross) \<and>
    (\<forall>r. settlement_rule_of d t = Some r \<longrightarrow> (\<exists>s. split lc gross (sr_shares r) = Inr s \<and> base = res_platformCents s \<and>
       mid = pair_legs (map (split_legs COLLECTED AVAILABLE c) (res_shares s)) @ remainder_legs AT_CAPTURE c (res_platformCents s)))"
proof -
  obtain base plan x y where
    base: "case settlement_rule_of d t of None \<Rightarrow> base = gross
       | Some r \<Rightarrow> \<exists>s. split lc gross (sr_shares r) = Inr s \<and> base = res_platformCents s"
    and plan: "planCaptureSettlement base (settlement_fee_of d t) (settlement_policy_of d t) m
        (Some (settlement_tax_of d t)) = Inr plan"
    and x: "move e t (Some CAPTURE_SOURCE_TYPE) (Some i)
       (debit CASH gross CAPTURE None c, credit COLLECTED gross CAPTURE None c) d = Inr x"
    and y: "case settlement_rule_of d t of None \<Rightarrow> y = x
       | Some r \<Rightarrow> \<exists>rows. executeSplitInTx lc e t (capture_split_input i gross c r) AT_CAPTURE (sr_shares r) x = Inr (rows, y)"
    and z: "moves e t (Some CAPTURE_SOURCE_TYPE) (Some i)
       (settlement_legs (if settlement_rule_of d t \<noteq> None then AVAILABLE else COLLECTED)
          (settlement_rule_of d t \<noteq> None) plan c) y = Inr d1"
    using settleCapture_run [OF assms(1), folded gross_def c_def] by (elim exE conjE) (rule that)
  have "\<exists>mid. booked t (Some CAPTURE_SOURCE_TYPE) (Some i) mid x y \<and> (settlement_rule_of d t = None \<longrightarrow> mid = []) \<and>
    (\<forall>r. settlement_rule_of d t = Some r \<longrightarrow> (\<exists>s. split lc gross (sr_shares r) = Inr s \<and> base = res_platformCents s \<and>
       mid = pair_legs (map (split_legs COLLECTED AVAILABLE c) (res_shares s)) @ remainder_legs AT_CAPTURE c (res_platformCents s)))"
  proof (cases "settlement_rule_of d t")
    case None
    with y show ?thesis by (simp add: booked_none)
  next
    case (Some r)
    with y base obtain rows s where r: "executeSplitInTx lc e t (capture_split_input i gross c r) AT_CAPTURE (sr_shares r) x = Inr (rows, y)"
      "split lc gross (sr_shares r) = Inr s" "base = res_platformCents s" by auto
    from executeSplitInTx_effect [OF r(1)] obtain s' where
      s': "split lc (xs_sourceCents (capture_split_input i gross c r)) (sr_shares r) = Inr s'"
      and bk: "booked t (Some (xs_sourceType (capture_split_input i gross c r))) (Some (xs_sourceId (capture_split_input i gross c r)))
        (pair_legs (map (split_legs (sourceAccountFor AT_CAPTURE)
            (if coalesce (xs_held (capture_split_input i gross c r)) False then RESERVE else AVAILABLE)
            (coalesce (xs_currency (capture_split_input i gross c r)) MAD)) (res_shares s'))
          @ remainder_legs AT_CAPTURE (coalesce (xs_currency (capture_split_input i gross c r)) MAD) (res_platformCents s')) x y"
      by (elim exE conjE) (rule that)
    from s' r(2) have "s' = s" by (simp add: capture_split_input_def)
    with bk have "booked t (Some CAPTURE_SOURCE_TYPE) (Some i)
        (pair_legs (map (split_legs COLLECTED AVAILABLE c) (res_shares s)) @ remainder_legs AT_CAPTURE c (res_platformCents s)) x y"
      by (simp add: capture_split_input_def sourceAccountFor_def)
    then show ?thesis
      by (rule exI [of _ "pair_legs (map (split_legs COLLECTED AVAILABLE c) (res_shares s)) @ remainder_legs AT_CAPTURE c (res_platformCents s)",
            OF conjI]) (simp add: Some r(2,3))
  qed
  then obtain mid where mid: "booked t (Some CAPTURE_SOURCE_TYPE) (Some i) mid x y" "settlement_rule_of d t = None \<longrightarrow> mid = []"
    "\<forall>r. settlement_rule_of d t = Some r \<longrightarrow> (\<exists>s. split lc gross (sr_shares r) = Inr s \<and> base = res_platformCents s \<and>
       mid = pair_legs (map (split_legs COLLECTED AVAILABLE c) (res_shares s)) @ remainder_legs AT_CAPTURE c (res_platformCents s))"
    by (elim exE conjE) (rule that)
  have "settlement_rule_of d t = None \<longrightarrow> base = gross" using base by (cases "settlement_rule_of d t") auto
  with plan mid(2,3) booked_trans [OF booked_move [OF x] booked_trans [OF mid(1) booked_moves [OF z]]] show ?thesis
    by (intro exI [of _ base] exI [of _ plan] exI [of _ mid]) simp
qed

lemma refundable_append [simp]: "refundable (xs @ ys) = refundable xs @ refundable ys"
  by (simp add: refundable_def)

lemma leg_credited_append [simp]: "leg_credited (xs @ ys) a = leg_credited xs a + leg_credited ys a"
  by (simp add: leg_credited_def)

lemma refundable_settlement:
  assumes "0 \<le> feeCents plan" "0 \<le> reserveCents plan"
  shows "leg_credited (refundable (pair_legs (settlement_legs from s plan c))) a =
    (case a of FEES \<Rightarrow> feeCents plan | RESERVE \<Rightarrow> reserveCents plan
     | AVAILABLE \<Rightarrow> if s then 0 else max 0 (netCents plan) | _ \<Rightarrow> 0)"
  using assms by (cases a) (auto simp: settlement_legs_def refundable_def leg_credited_def REFUNDED_ACCOUNTS_def)

lemma refundable_split:
  assumes "\<forall>x\<in>set xs. 0 \<le> alloc_amountCents x" "0 \<le> n"
  shows "leg_credited (refundable (pair_legs (map (split_legs COLLECTED AVAILABLE c) xs) @ remainder_legs AT_CAPTURE c n)) a =
    (if a = AVAILABLE then (\<Sum>x\<leftarrow>xs. alloc_amountCents x) + n else 0)"
proof -
  have "leg_credited (refundable (pair_legs (map (split_legs COLLECTED AVAILABLE c) xs))) a =
    (if a = AVAILABLE then (\<Sum>x\<leftarrow>xs. alloc_amountCents x) else 0)"
    using assms(1) by (induction xs) (auto simp: refundable_def leg_credited_def REFUNDED_ACCOUNTS_def)
  with assms(2) show ?thesis
    by (auto simp: remainder_legs_def refundable_def leg_credited_def REFUNDED_ACCOUNTS_def)
qed

lemma sum_refundable:
  "(\<Sum>l\<leftarrow>refundable legs. max 0 (amountCents l)) =
     leg_credited (refundable legs) AVAILABLE + leg_credited (refundable legs) FEES + leg_credited (refundable legs) RESERVE"
  unfolding leg_credited_def sum_list_filter_if
  by (induction legs) (auto simp: refundable_def REFUNDED_ACCOUNTS_def)

lemma refund_of_capture:
  assumes "booked t (Some CAPTURE_SOURCE_TYPE) (Some i) legs d d1"
    "\<forall>r\<in>set (ledgerEntries d). \<not> (le_tenantId r = t \<and> le_sourceType r = Some CAPTURE_SOURCE_TYPE \<and> le_sourceId r = Some i)"
    "settleRefund e t i rid d1 = Inr (True, d2)" "\<forall>l\<in>set (refundable legs). leg_currency l = c"
  shows "accountBalanceCents d2 t a c = accountBalanceCents d1 t a c
    + (if a = CASH then leg_credited (refundable legs) AVAILABLE + leg_credited (refundable legs) FEES
         + leg_credited (refundable legs) RESERVE else - leg_credited (refundable legs) a)"
proof -
  note map = refund_credits_booked [OF assms(1,2)]
  from settleRefund_run [OF assms(3)] have ne: "refund_credits d1 t i \<noteq> []"
    and m: "moves e t (Some ''refund'') (Some rid) (refund_legs (refund_credits d1 t i) (le_currency (hd (refund_credits d1 t i)))) d1 = Inr d2"
    by auto
  have "le_currency (hd (refund_credits d1 t i)) \<in> set (map le_currency (refund_credits d1 t i))" using ne by simp
  then have c: "le_currency (hd (refund_credits d1 t i)) = c" unfolding credited_legs(3) [OF map] using assms(4) by auto
  have "\<forall>r\<in>set (refund_credits d1 t i). le_account r \<noteq> CASH" by (auto dest: refund_credits_accounts)
  then show ?thesis
    by (simp add: moves_balance [OF m [unfolded c]] balanceOf_refund_legs credited_legs(1,2) [OF map] sum_refundable)
qed

text \<open>What a settlement credited to the refunded accounts, and its whole effect.\<close>

lemma capture_refundable:
  assumes ready: "settle_ready d t (Math_round amount)" and pos: "0 < Math_round amount"
    and run: "settleCapture lc e t i amount cur m d = Inr (True, d1)"
  defines "gross \<equiv> Math_round amount" and "c \<equiv> coalesce cur MAD" and "isSplit \<equiv> settlement_rule_of d t \<noteq> None"
  shows "\<exists>legs base plan. booked t (Some CAPTURE_SOURCE_TYPE) (Some i) legs d d1 \<and>
    planCaptureSettlement base (settlement_fee_of d t) (settlement_policy_of d t) m (Some (settlement_tax_of d t)) = Inr plan \<and>
    0 \<le> feeCents plan \<and> 0 \<le> taxCents plan \<and> 0 \<le> reserveCents plan \<and> (\<not> isSplit \<longrightarrow> base = gross) \<and>
    (\<forall>l\<in>set legs. leg_currency l = c) \<and>
    (\<forall>a. leg_credited (refundable legs) a = (case a of FEES \<Rightarrow> feeCents plan | RESERVE \<Rightarrow> reserveCents plan
       | AVAILABLE \<Rightarrow> if isSplit then gross else max 0 (netCents plan) | _ \<Rightarrow> 0)) \<and>
    (\<forall>a. balanceOf legs a c = (case a of CASH \<Rightarrow> - gross | FEES \<Rightarrow> feeCents plan | TAX_PAYABLE \<Rightarrow> taxCents plan
       | RESERVE \<Rightarrow> reserveCents plan
       | AVAILABLE \<Rightarrow> if isSplit then gross - (feeCents plan + taxCents plan + reserveCents plan) else max 0 (netCents plan)
       | COLLECTED \<Rightarrow> if isSplit then 0 else min 0 (netCents plan) | _ \<Rightarrow> 0))"
proof -
  obtain base plan mid where
    bk: "booked t (Some CAPTURE_SOURCE_TYPE) (Some i)
      ([debit CASH gross CAPTURE None c, credit COLLECTED gross CAPTURE None c] @ mid @
       pair_legs (settlement_legs (if isSplit then AVAILABLE else COLLECTED) isSplit plan c)) d d1"
    and plan: "planCaptureSettlement base (settlement_fee_of d t) (settlement_policy_of d t) m (Some (settlement_tax_of d t)) = Inr plan"
    and none: "settlement_rule_of d t = None \<longrightarrow> mid = [] \<and> base = gross"
    and some: "\<forall>r. settlement_rule_of d t = Some r \<longrightarrow> (\<exists>s. split lc gross (sr_shares r) = Inr s \<and> base = res_platformCents s \<and>
       mid = pair_legs (map (split_legs COLLECTED AVAILABLE c) (res_shares s)) @ remainder_legs AT_CAPTURE c (res_platformCents s))"
    using capture_booked [OF run, folded gross_def c_def isSplit_def] by (elim exE conjE) (rule that)
  have mid: "0 \<le> base \<and> base \<le> gross \<and> (\<forall>l\<in>set mid. leg_currency l = c) \<and>
      leg_credited (refundable mid) a = (if isSplit \<and> a = AVAILABLE then gross else 0) \<and>
      balanceOf mid a c = (if isSplit then (if a = AVAILABLE then gross else 0) - (if a = COLLECTED then gross else 0) else 0)" for a
  proof (cases "settlement_rule_of d t")
    case None
    with none pos show ?thesis by (simp add: isSplit_def gross_def refundable_def leg_credited_def)
  next
    case (Some r)
    with some obtain s where s: "split lc gross (sr_shares r) = Inr s" "base = res_platformCents s"
      "mid = pair_legs (map (split_legs COLLECTED AVAILABLE c) (res_shares s)) @ remainder_legs AT_CAPTURE c (res_platformCents s)" by auto
    have "validateShares (sr_shares r) = Inr ()" "gross * 10000 < 2 ^ 53"
      using Some ready by (auto simp: settle_ready_def gross_def)
    from split_parts [OF _ this(2,1), of lc] pos s have b: "0 \<le> base"
      "(\<Sum>a\<leftarrow>res_shares s. alloc_amountCents a) + base = gross"
      "\<forall>a\<in>set (res_shares s). 0 \<le> alloc_amountCents a" by (auto simp: gross_def list_all_iff)
    from b(3) have "0 \<le> (\<Sum>a\<leftarrow>res_shares s. alloc_amountCents a)" by (intro sum_list_nonneg_map) auto
    with b(2) have "base \<le> gross" by simp
    moreover have "\<forall>l\<in>set mid. leg_currency l = c"
      unfolding s(3) by (auto simp: pair_legs_def split_legs_def remainder_legs_def split: if_splits)
    ultimately show ?thesis
      using b refundable_split [of "res_shares s" base c a] split_effect_zero [OF s(1)] Some s(2,3)
      by (simp add: isSplit_def)
  qed
  have p: "0 \<le> feeCents plan" "0 \<le> taxCents plan" "0 \<le> reserveCents plan"
    using plan_ok [OF ready, of base m] mid plan by (auto simp: gross_def)
  note sum = planCaptureSettlement_sum [OF plan]
  define legs where "legs = [debit CASH gross CAPTURE None c, credit COLLECTED gross CAPTURE None c] @ mid @
       pair_legs (settlement_legs (if isSplit then AVAILABLE else COLLECTED) isSplit plan c)"
  have cur: "\<forall>l\<in>set legs. leg_currency l = c"
    unfolding legs_def using mid by (auto simp: pair_legs_def settlement_legs_def split: if_splits)
  have cred: "leg_credited (refundable legs) a = (case a of FEES \<Rightarrow> feeCents plan | RESERVE \<Rightarrow> reserveCents plan
       | AVAILABLE \<Rightarrow> if isSplit then gross else max 0 (netCents plan) | _ \<Rightarrow> 0)" for a
    unfolding legs_def refundable_append leg_credited_append refundable_settlement [OF p(1,3)]
    using mid [of a] by (cases a) (auto simp: refundable_def leg_credited_def REFUNDED_ACCOUNTS_def)
  have nosplit: "\<not> isSplit \<Longrightarrow> base = gross" using none by (simp add: isSplit_def)
  have bal: "balanceOf legs a c = (case a of CASH \<Rightarrow> - gross | FEES \<Rightarrow> feeCents plan | TAX_PAYABLE \<Rightarrow> taxCents plan
       | RESERVE \<Rightarrow> reserveCents plan
       | AVAILABLE \<Rightarrow> if isSplit then gross - (feeCents plan + taxCents plan + reserveCents plan) else max 0 (netCents plan)
       | COLLECTED \<Rightarrow> if isSplit then 0 else min 0 (netCents plan) | _ \<Rightarrow> 0)" for a
    using p sum nosplit mid [of a] unfolding legs_def
    by (cases a; cases isSplit) (auto simp: balanceOf_settlement_legs max_def min_def)
  show ?thesis
    by (intro exI [of _ legs] exI [of _ base] exI [of _ plan] conjI allI)
       (use bk [folded legs_def] plan p nosplit cur in \<open>simp_all add: cred bal\<close>)
qed

lemma computeTax_zero: "computeTax 0 tax = Inr n \<Longrightarrow> n = 0"
  by (auto simp: computeTax_def applyBps_exact round_bps_def split: option.splits if_splits)

lemma plan_no_fee_no_tax: "planCaptureSettlement gross fee policy m tax = Inr plan \<Longrightarrow> feeCents plan = 0 \<Longrightarrow> taxCents plan = 0"
  by (auto simp: planCaptureSettlement_def dest: computeTax_zero)

lemma credited_pos: "0 < credited rows a \<Longrightarrow> \<exists>r\<in>set rows. 0 < le_amount r"
proof (rule ccontr)
  assume "0 < credited rows a" "\<not> (\<exists>r\<in>set rows. 0 < le_amount r)"
  moreover from this(2) have "credited rows a = 0"
    by (induction rows) (auto simp: credited_def not_less)
  ultimately show False by simp
qed

lemma first_credit_le: "find (\<lambda>r. le_account r = a) rows = Some r \<Longrightarrow> le_amount r \<le> credited rows a"
proof (induction rows)
  case (Cons x rows)
  have "0 \<le> credited rows a" unfolding credited_def by (intro sum_list_nonneg) auto
  with Cons show ?case by (auto simp: credited_def split: if_splits)
qed simp

text \<open>A capture without a split can be refunded as long as AVAILABLE was not negative before it.\<close>

lemma refund_after_capture:
  assumes "settle_ready d t (Math_round amount)" "0 < Math_round amount"
    and "settleCapture lc e t i amount cur m d = Inr (True, d1)" "settlement_rule_of d t = None"
    and none: "\<forall>r\<in>set (ledgerEntries d). \<not> (le_tenantId r = t \<and> le_sourceType r = Some CAPTURE_SOURCE_TYPE \<and> le_sourceId r = Some i)"
    and fresh: "\<forall>r\<in>set (ledgerEntries d). \<not> (le_tenantId r = t \<and> le_sourceType r = Some ''refund'' \<and> le_sourceId r = Some rid)"
    and "0 \<le> accountBalanceCents d t AVAILABLE (coalesce cur MAD)"
  shows "\<exists>d2. settleRefund e' t i rid d1 = Inr (True, d2) \<and> (\<exists>r\<in>set (refund_credits d1 t i). 0 < le_amount r)"
proof -
  obtain legs plan where legs: "booked t (Some CAPTURE_SOURCE_TYPE) (Some i) legs d d1"
    and plan: "planCaptureSettlement (Math_round amount) (settlement_fee_of d t) (settlement_policy_of d t) m (Some (settlement_tax_of d t)) = Inr plan"
    and cur: "\<forall>l\<in>set legs. leg_currency l = coalesce cur MAD"
    and cred: "\<And>a. leg_credited (refundable legs) a = (case a of FEES \<Rightarrow> feeCents plan | RESERVE \<Rightarrow> reserveCents plan
       | AVAILABLE \<Rightarrow> max 0 (netCents plan) | _ \<Rightarrow> 0)"
    and bal: "balanceOf legs AVAILABLE (coalesce cur MAD) = max 0 (netCents plan)"
    and p: "0 \<le> feeCents plan" "0 \<le> reserveCents plan"
    using capture_refundable [OF assms(1-3)] assms(4) by fastforce
  define rows where "rows = refund_credits d1 t i"
  note eq = credited_legs(1) [OF refund_credits_booked [OF legs none], folded rows_def]
  have cur': "map le_currency rows = map leg_currency (refundable legs)"
    unfolding rows_def by (rule credited_legs(3) [OF refund_credits_booked [OF legs none]])
  have "0 < credited rows FEES \<or> 0 < credited rows RESERVE \<or> 0 < credited rows AVAILABLE"
    using planCaptureSettlement_sum [OF plan] plan_no_fee_no_tax [OF plan] assms(2) p by (auto simp: eq cred)
  then have pos: "\<exists>r\<in>set rows. 0 < le_amount r" using credited_pos by blast
  then obtain r0 rest where r0: "rows = r0 # rest" by (cases rows) auto
  have c: "le_currency r0 = coalesce cur MAD"
  proof -
    have "le_currency r0 \<in> set (map leg_currency (refundable legs))" unfolding cur' [symmetric] r0 by simp
    with cur show ?thesis by (auto simp: refundable_def)
  qed
  have old: "\<not> refund_exists d1 t rid"
  proof -
    from legs obtain new where "ledgerEntries d1 = ledgerEntries d @ new" "\<forall>r\<in>set new. le_sourceType r = Some CAPTURE_SOURCE_TYPE"
      unfolding booked_def by blast
    with fresh show ?thesis by (auto simp: refund_exists_def CAPTURE_SOURCE_TYPE_def)
  qed
  have avail: "(case find (\<lambda>r. le_account r = AVAILABLE) rows of Some r \<Rightarrow> le_amount r | None \<Rightarrow> 0)
      \<le> accountBalanceCents d1 t AVAILABLE (coalesce cur MAD)"
    using effect_balance [OF booked_effect [OF legs], of t AVAILABLE "coalesce cur MAD"] assms(7) bal
      first_credit_le [of AVAILABLE rows] by (auto simp: eq cred split: option.split)
  obtain d2 where "moves e' t (Some ''refund'') (Some rid) (refund_legs rows (coalesce cur MAD)) d1 = Inr d2"
    using refund_legs_ok unfolding rows_def by blast
  with old avail c r0 pos show ?thesis
    by (auto simp: settleRefund_def Let_def not_less rows_def [symmetric] simp del: find.simps)
qed

section \<open>Properties\<close>

text \<open>
  A refund. When \<open>settleRefund\<close> returns \<open>settled: true\<close>, each of AVAILABLE, FEES and RESERVE loses exactly what the
  intent's settlement had credited to it, CASH gains the total, no other account moves, every ledger stays balanced, and (as the
  credits are not all zero) repeating the refund returns \<open>settled: false\<close> and changes nothing.
\<close>

lemma settleRefund_correct:
  assumes "settleRefund e t i rid d = Inr (True, d')" "\<exists>r\<in>set (refund_credits d t i). 0 < le_amount r"
  shows "\<exists>c. (\<forall>a. accountBalanceCents d' t a c = accountBalanceCents d t a c
       + (if a = CASH then (\<Sum>r\<leftarrow>refund_credits d t i. max 0 (le_amount r)) else - credited (refund_credits d t i) a)) \<and>
    (\<forall>u. isBalanced (tenant_legs u d) \<longrightarrow> isBalanced (tenant_legs u d')) \<and>
    (\<forall>u. u \<noteq> t \<longrightarrow> tenant_legs u d' = tenant_legs u d) \<and>
    settleRefund e' t i' rid d' = Inr (False, d')"
proof -
  from settleRefund_run [OF assms(1)] obtain c where
    m: "moves e t (Some ''refund'') (Some rid) (refund_legs (refund_credits d t i) c) d = Inr d'" by blast
  note eff = effect_moves [OF m]
  have "\<forall>r\<in>set (refund_credits d t i). le_account r \<noteq> CASH" by (auto dest: refund_credits_accounts)
  then have bal: "accountBalanceCents d' t a c = accountBalanceCents d t a c
       + (if a = CASH then (\<Sum>r\<leftarrow>refund_credits d t i. max 0 (le_amount r)) else - credited (refund_credits d t i) a)" for a
    by (simp add: effect_balance [OF eff] balanceOf_refund_legs)
  from assms(2) have "pair_legs (refund_legs (refund_credits d t i) c) \<noteq> []"
    by (auto simp: refund_legs_def pair_legs_def filter_empty_conv not_le)
  moreover from moves_rows [OF m] obtain rows where rows: "ledgerEntries d' = ledgerEntries d @ rows"
    "map leg_of_row rows = map strip (pair_legs (refund_legs (refund_credits d t i) c))"
    "\<forall>r\<in>set rows. le_tenantId r = t \<and> le_sourceType r = Some ''refund'' \<and> le_sourceId r = Some rid" by blast
  ultimately obtain r where "r \<in> set rows" by (cases rows) auto
  with rows(1,3) have "refund_exists d' t rid" by (auto simp: refund_exists_def)
  then have "settleRefund e' t i' rid d' = Inr (False, d')" by (simp add: settleRefund_def)
  with bal effect_balanced [OF eff] effect_other [OF eff] show ?thesis by blast
qed

lemma demo_refund:
  "\<exists>d1 d2. settleCapture (\<lambda>a b. 0) demo_env ''t1'' ''i1'' 10000 None None demo_db = Inr (True, d1) \<and>
     settleRefund demo_env ''t1'' ''i1'' ''r1'' d1 = Inr (True, d2) \<and> (\<exists>r\<in>set (refund_credits d1 ''t1'' ''i1''). 0 < le_amount r)"
proof -
  have r: "Math_round 10000 = 10000" using Math_round_of_int [of 10000] by simp
  then have ready: "settle_ready demo_db ''t1'' (Math_round 10000)" "0 < Math_round 10000" by (simp_all add: demo_db_ready)
  obtain d1 where d1: "settleCapture (\<lambda>a b. 0) demo_env ''t1'' ''i1'' 10000 None None demo_db = Inr (True, d1)"
    using settleCapture_succeeds [OF ready] demo_db_unsettled by blast
  have "\<exists>d2. settleRefund demo_env ''t1'' ''i1'' ''r1'' d1 = Inr (True, d2) \<and> (\<exists>r\<in>set (refund_credits d1 ''t1'' ''i1''). 0 < le_amount r)"
    by (rule refund_after_capture [OF ready d1])
       (simp_all add: demo_db_def empty_db_def settlement_rule_of_def accountBalanceCents_def)
  with d1 show ?thesis by blast
qed

text \<open>
  A capture followed by its full refund. For a tenant with a sound configuration, the two
  operations together leave this in the capture's currency. Without a split and with a non-negative net, every account is
  back where it was, except that the tax on the fee stays on TAX_PAYABLE and is missing from what CASH got back. With a
  split, the refund also takes the whole gross out of AVAILABLE, where only the gross less fee, tax and reserve was left,
  so AVAILABLE ends below its start by fee, tax and reserve, and CASH is credited fee and reserve more than was collected.
\<close>

lemma capture_refund_residue:
  fixes cur :: "currency option"
  assumes "settle_ready d t (Math_round amount)" "0 < Math_round amount"
    and "settleCapture lc e t i amount cur m d = Inr (True, d1)"
    and "\<forall>r\<in>set (ledgerEntries d). \<not> (le_tenantId r = t \<and> le_sourceType r = Some CAPTURE_SOURCE_TYPE \<and> le_sourceId r = Some i)"
    and "settleRefund e' t i rid d1 = Inr (True, d2)"
  defines "c \<equiv> coalesce cur MAD" and "isSplit \<equiv> settlement_rule_of d t \<noteq> None"
  shows "\<exists>base (plan :: capture_settlement_plan).
    planCaptureSettlement base (settlement_fee_of d t) (settlement_policy_of d t) m (Some (settlement_tax_of d t)) = Inr plan \<and>
    (\<not> isSplit \<longrightarrow> base = Math_round amount) \<and>
    (\<not> isSplit \<and> 0 \<le> netCents plan \<longrightarrow> (\<forall>a. accountBalanceCents d2 t a c = accountBalanceCents d t a c
       + (case a of CASH \<Rightarrow> - taxCents plan | TAX_PAYABLE \<Rightarrow> taxCents plan | _ \<Rightarrow> 0))) \<and>
    (isSplit \<longrightarrow> (\<forall>a. accountBalanceCents d2 t a c = accountBalanceCents d t a c
       + (case a of CASH \<Rightarrow> feeCents plan + reserveCents plan | TAX_PAYABLE \<Rightarrow> taxCents plan
          | AVAILABLE \<Rightarrow> - (feeCents plan + taxCents plan + reserveCents plan) | _ \<Rightarrow> 0)))"
proof -
  obtain legs base plan where legs: "booked t (Some CAPTURE_SOURCE_TYPE) (Some i) legs d d1"
    and plan: "planCaptureSettlement base (settlement_fee_of d t) (settlement_policy_of d t) m (Some (settlement_tax_of d t)) = Inr plan"
    and p: "0 \<le> feeCents plan" "0 \<le> taxCents plan" "0 \<le> reserveCents plan" and nosplit: "\<not> isSplit \<longrightarrow> base = Math_round amount"
    and cur: "\<forall>l\<in>set legs. leg_currency l = c"
    and cred: "\<forall>a. leg_credited (refundable legs) a = (case a of FEES \<Rightarrow> feeCents plan | RESERVE \<Rightarrow> reserveCents plan
       | AVAILABLE \<Rightarrow> if isSplit then Math_round amount else max 0 (netCents plan) | _ \<Rightarrow> 0)"
    and bal: "\<forall>a. balanceOf legs a c = (case a of CASH \<Rightarrow> - Math_round amount | FEES \<Rightarrow> feeCents plan | TAX_PAYABLE \<Rightarrow> taxCents plan
       | RESERVE \<Rightarrow> reserveCents plan
       | AVAILABLE \<Rightarrow> if isSplit then Math_round amount - (feeCents plan + taxCents plan + reserveCents plan) else max 0 (netCents plan)
       | COLLECTED \<Rightarrow> if isSplit then 0 else min 0 (netCents plan) | _ \<Rightarrow> 0)"
    using capture_refundable [OF assms(1-3), folded c_def isSplit_def] by (elim exE conjE) (rule that)
  note sum = planCaptureSettlement_sum [OF plan]
  have "\<forall>l\<in>set (refundable legs). leg_currency l = c" using cur by (auto simp: refundable_def)
  note ref = refund_of_capture [OF legs assms(4,5) this]
  have d2: "accountBalanceCents d2 t a c = accountBalanceCents d t a c + balanceOf legs a c
    + (if a = CASH then leg_credited (refundable legs) AVAILABLE + leg_credited (refundable legs) FEES
         + leg_credited (refundable legs) RESERVE else - leg_credited (refundable legs) a)" for a
    using ref [of a] effect_balance [OF booked_effect [OF legs], of t a c] by simp
  have "\<not> isSplit \<and> 0 \<le> netCents plan \<longrightarrow> (\<forall>a. accountBalanceCents d2 t a c = accountBalanceCents d t a c
       + (case a of CASH \<Rightarrow> - taxCents plan | TAX_PAYABLE \<Rightarrow> taxCents plan | _ \<Rightarrow> 0))"
    using sum nosplit by (auto simp: d2 cred bal max_def split: ledger_account.split)
  moreover have "isSplit \<longrightarrow> (\<forall>a. accountBalanceCents d2 t a c = accountBalanceCents d t a c
       + (case a of CASH \<Rightarrow> feeCents plan + reserveCents plan | TAX_PAYABLE \<Rightarrow> taxCents plan
          | AVAILABLE \<Rightarrow> - (feeCents plan + taxCents plan + reserveCents plan) | _ \<Rightarrow> 0))"
    by (auto simp: d2 cred bal split: ledger_account.split)
  ultimately show ?thesis using plan nosplit by blast
qed

lemma demo_plan:
  "planCaptureSettlement 10000 (settlement_fee_of demo_db ''t1'') (settlement_policy_of demo_db ''t1'') None
     (Some (settlement_tax_of demo_db ''t1'')) = Inr \<lparr>feeCents = 290, taxCents = 58, reserveCents = 500, netCents = 9152\<rparr>"
  by (simp add: planCaptureSettlement_def computeFee_def percentFee_def computeTax_def computeReserve_def applyBps_exact round_bps_def
      demo_db_def empty_db_def settlement_fee_of_def settlement_tax_of_def settlement_policy_of_def resolveFeeSpec_def
      presetForIndustry_def DEFAULT_PRESET_def resolvePolicy_def no_overrides_def percentage_fee_def)

end
