(* ===== verification/Fx.thy ===== *)
theory Fx
  imports LedgerDb
begin

text \<open>
  \<open>src/lib/fx.ts\<close>, \<open>src/lib/fx-settlement.ts\<close> and \<open>src/lib/fx-settlement-db.ts\<close>: reference
  rates, quotes, and the sweep of foreign AVAILABLE balances into the tenant's settlement currency. Rates are
  doubles; a quote carries its rate as the decimal string that \<open>toFixed(8)\<close> prints, which the
  conversion parses again. The active provider (an environment variable selects it) and the body of the ECB
  response are arguments.
\<close>

section \<open>Currencies as strings\<close>

fun currency_code :: "currency \<Rightarrow> string" where
  "currency_code MAD = ''MAD''"
| "currency_code USD = ''USD''"
| "currency_code EUR = ''EUR''"
| "currency_code GBP = ''GBP''"
| "currency_code CAD = ''CAD''"

definition currency_of_code :: "string \<Rightarrow> currency option" where
  "currency_of_code s = find (\<lambda>c. currency_code c = s) SUPPORTED_CURRENCIES"

definition isSupportedCurrency :: "string \<Rightarrow> bool" where
  "isSupportedCurrency value = (value \<in> set (map currency_code SUPPORTED_CURRENCIES))"

definition currencyPairKey :: "currency \<Rightarrow> currency \<Rightarrow> string" where
  "currencyPairKey from to = currency_code from @ ''/'' @ currency_code to"

text \<open>\<open>String.prototype.split\<close> with a one-character separator.\<close>

fun split_on :: "char \<Rightarrow> string \<Rightarrow> string list" where
  "split_on sep [] = [[]]"
| "split_on sep (ch # s) =
     (if ch = sep then [] # split_on sep s
      else (ch # hd (split_on sep s)) # tl (split_on sep s))"

definition parseCurrencyPair :: "string \<Rightarrow> (currency \<times> currency) option" where
  "parseCurrencyPair pair =
     (case split_on (CHR ''/'') pair of
        from # to # _ \<Rightarrow>
          (if \<not> isSupportedCurrency from \<or> \<not> isSupportedCurrency to then None
           else (case (currency_of_code from, currency_of_code to) of
                   (Some f, Some t) \<Rightarrow> Some (f, t) | _ \<Rightarrow> None))
      | _ \<Rightarrow> None)"

section \<open>Rates\<close>

definition FX_QUOTE_TTL_MS :: int where
  "FX_QUOTE_TTL_MS = 24 * 60 * 60 * 1000"

definition FX_RATE_PRECISION :: nat where
  "FX_RATE_PRECISION = 8"

fun FX_BASE_RATES :: "currency \<Rightarrow> rat" where
  "FX_BASE_RATES MAD = 1"
| "FX_BASE_RATES USD = rnd (1005 / 100)"
| "FX_BASE_RATES EUR = rnd (1102 / 100)"
| "FX_BASE_RATES GBP = rnd (1288 / 100)"
| "FX_BASE_RATES CAD = rnd (741 / 100)"

record fx_provider =
  fxp_name :: string
  getRate :: "currency \<Rightarrow> currency \<Rightarrow> rat"

record fx_quote =
  fxq_from :: currency
  fxq_to :: currency
  fxq_rate :: string
  fxq_source :: string
  fxq_issuedAt :: int
  fxq_expiresAt :: int

definition roundRate :: "rat \<Rightarrow> rat" where
  "roundRate rate =
     (let factor = 10 ^ FX_RATE_PRECISION in js_div (of_int (Math_round (js_mul rate factor))) factor)"

definition formatRate :: "rat \<Rightarrow> string" where
  "formatRate rate = toFixed (roundRate rate) FX_RATE_PRECISION"

definition crossRate :: "currency \<Rightarrow> currency \<Rightarrow> (currency \<Rightarrow> rat) \<Rightarrow> rat" where
  "crossRate from to base = (if from = to then 1 else js_div (base from) (base to))"

definition sandboxFxProvider :: fx_provider where
  "sandboxFxProvider = \<lparr>fxp_name = ''sandbox'', getRate = (\<lambda>from to. crossRate from to FX_BASE_RATES)\<rparr>"

text \<open>
  The regular expression of \<open>parseEcbRates\<close> at one position: the currency, the rate and the rest of the text.
\<close>

definition is_quote :: "char \<Rightarrow> bool" where
  "is_quote ch \<longleftrightarrow> ch = CHR 0x27 \<or> ch = CHR 0x22"

definition is_upper :: "char \<Rightarrow> bool" where
  "is_upper ch \<longleftrightarrow> CHR ''A'' \<le> ch \<and> ch \<le> CHR ''Z''"

definition is_rate_char :: "char \<Rightarrow> bool" where
  "is_rate_char ch \<longleftrightarrow> CHR ''0'' \<le> ch \<and> ch \<le> CHR ''9'' \<or> ch = CHR ''.''"

fun drop_prefix :: "string \<Rightarrow> string \<Rightarrow> string option" where
  "drop_prefix [] s = Some s"
| "drop_prefix (p # ps) [] = None"
| "drop_prefix (p # ps) (ch # s) = (if p = ch then drop_prefix ps s else None)"

definition drop_quote :: "string \<Rightarrow> string option" where
  "drop_quote s = (case s of [] \<Rightarrow> None | ch # r \<Rightarrow> if is_quote ch then Some r else None)"

definition match_cube :: "string \<Rightarrow> (string \<times> string \<times> string) option" where
  "match_cube s =
     Option.bind (drop_prefix ''<Cube currency='' s) (\<lambda>s1. Option.bind (drop_quote s1) (\<lambda>s2.
     let cur = take 3 s2 in
     if length cur = 3 \<and> list_all is_upper cur then
       Option.bind (drop_quote (drop 3 s2)) (\<lambda>s3. Option.bind (drop_prefix '' rate='' s3) (\<lambda>s4.
       Option.bind (drop_quote s4) (\<lambda>s5.
       let rate = takeWhile is_rate_char s5 in
       if rate = [] then None
       else Option.bind (drop_quote (drop (length rate) s5)) (\<lambda>s6.
            map_option (\<lambda>rest. (cur, rate, rest)) (drop_prefix ''/>'' s6)))))
     else None))"

text \<open>\<open>Number\<close> on a run of digits and dots: not finite when it has two dots or no digit.\<close>

definition Number_of_rate :: "string \<Rightarrow> rat option" where
  "Number_of_rate s =
     (if length (filter (\<lambda>ch. ch = CHR ''.'') s) \<le> 1 \<and> (\<exists>ch\<in>set s. ch \<noteq> CHR ''.'')
      then Some (rnd (unsigned_value s)) else None)"

lemma drop_prefix_length: "drop_prefix p s = Some r \<Longrightarrow> length r \<le> length s"
  by (induction p s rule: drop_prefix.induct) (auto split: if_splits)

lemma drop_quote_length: "drop_quote s = Some r \<Longrightarrow> length r < length s"
  by (auto simp: drop_quote_def split: list.splits if_splits)

lemma match_cube_length:
  assumes "match_cube s = Some (c, r, rest)"
  shows "length rest < length s"
proof -
  from assms obtain s1 s2 s3 s4 s5 s6 where m: "drop_prefix ''<Cube currency='' s = Some s1" "drop_quote s1 = Some s2"
    "drop_quote (drop 3 s2) = Some s3" "drop_prefix '' rate='' s3 = Some s4" "drop_quote s4 = Some s5"
    "drop_quote (drop (length r) s5) = Some s6" "drop_prefix ''/>'' s6 = Some rest"
    unfolding match_cube_def Let_def bind_eq_Some_conv
    by (elim exE conjE) (simp split: if_splits add: bind_eq_Some_conv, blast)
  note a = m(1,4,7) [THEN drop_prefix_length]
  note b = m(2,3,5,6) [THEN drop_quote_length]
  from a b show ?thesis by simp
qed

function parseEcbRates_loop :: "string \<Rightarrow> (string \<rightharpoonup> rat) \<Rightarrow> (string \<rightharpoonup> rat)" where
  "parseEcbRates_loop s tbl =
     (case match_cube s of
        Some (c, r, rest) \<Rightarrow>
          parseEcbRates_loop rest (case Number_of_rate r of None \<Rightarrow> tbl | Some v \<Rightarrow> tbl(c \<mapsto> v))
      | None \<Rightarrow> (case s of [] \<Rightarrow> tbl | _ # s' \<Rightarrow> parseEcbRates_loop s' tbl))"
  by auto
termination by (relation "measure (length \<circ> fst)") (auto dest: match_cube_length)

declare parseEcbRates_loop.simps [simp del]

definition parseEcbRates :: "string \<Rightarrow> (string \<rightharpoonup> rat)" where
  "parseEcbRates xml = parseEcbRates_loop xml Map.empty"

text \<open>\<open>response\<close> is the body of a successful fetch, \<open>None\<close> otherwise.\<close>

definition ecb_getRate :: "string option \<Rightarrow> currency \<Rightarrow> currency \<Rightarrow> rat" where
  "ecb_getRate response from to =
     (let fetched = (case response of None \<Rightarrow> Map.empty | Some xml \<Rightarrow> parseEcbRates xml);
          eurAnchored = fetched(''EUR'' \<mapsto> 1, ''MAD'' \<mapsto> FX_BASE_RATES EUR)
      in if from = to then 1
         else (case (eurAnchored (currency_code from), eurAnchored (currency_code to)) of
                 (Some fromEur, Some toEur) \<Rightarrow> js_div toEur fromEur
               | _ \<Rightarrow> crossRate from to FX_BASE_RATES))"

definition createEcbFxProvider :: "string option \<Rightarrow> fx_provider" where
  "createEcbFxProvider response = \<lparr>fxp_name = ''ecb'', getRate = ecb_getRate response\<rparr>"

definition getFxProvider :: "string option \<Rightarrow> string option \<Rightarrow> fx_provider" where
  "getFxProvider FX_RATE_PROVIDER response =
     (if coalesce FX_RATE_PROVIDER ''sandbox'' = ''ecb'' then createEcbFxProvider response else sandboxFxProvider)"

definition quoteFx :: "fx_provider \<Rightarrow> currency \<Rightarrow> currency \<Rightarrow> int \<Rightarrow> fx_quote" where
  "quoteFx provider from to t =
     \<lparr>fxq_from = from, fxq_to = to, fxq_rate = formatRate (getRate provider from to),
      fxq_source = fxp_name provider, fxq_issuedAt = t, fxq_expiresAt = t + FX_QUOTE_TTL_MS\<rparr>"

definition convertMinor :: "centimes \<Rightarrow> rat \<Rightarrow> centimes" where
  "convertMinor amountMinor rate = centimes (of_int (Math_round (js_mul (of_int amountMinor) rate)))"

text \<open>\<open>Number(rate)\<close> of a rate string.\<close>

definition rate_number :: "string \<Rightarrow> rat" where
  "rate_number s = Number (literal_value s)"

section \<open>Conversion plan\<close>

definition FX_CONVERSION_SOURCE_TYPE :: string where
  "FX_CONVERSION_SOURCE_TYPE = ''fx_conversion''"

definition FX_ADJUSTMENT_SOURCE_TYPE :: string where
  "FX_ADJUSTMENT_SOURCE_TYPE = ''fx_adjustment''"

record fx_conversion_plan =
  fxc_from :: currency
  fxc_to :: currency
  amountFromMinor :: centimes
  amountToMinor :: centimes
  gainLossMinor :: centimes
  fxc_postings :: "ledger_posting list"

definition planFxConversion ::
  "currency \<Rightarrow> currency \<Rightarrow> centimes \<Rightarrow> string \<Rightarrow> string \<Rightarrow> fx_conversion_plan result" where
  "planFxConversion from to amountFrom lockedRateIn referenceRateIn =
     (if from = to then Inl (JsError ''planFxConversion requires a cross-currency pair'')
      else
        let lockedRate = formatRate (rate_number lockedRateIn);
            referenceRate = formatRate (rate_number referenceRateIn);
            amountTo = convertMinor amountFrom (rate_number lockedRate);
            referenceTo = convertMinor amountFrom (rate_number referenceRate);
            gainLoss = referenceTo - amountTo
        in ebind (posting (debit AVAILABLE amountFrom ADJUSTMENT None from)
                    (credit CASH amountFrom ADJUSTMENT None from) (Some FX_CONVERSION_SOURCE_TYPE) None) (\<lambda>drainSource.
           ebind (posting (debit CASH amountTo ADJUSTMENT None to)
                    (credit AVAILABLE amountTo ADJUSTMENT None to) (Some FX_CONVERSION_SOURCE_TYPE) None) (\<lambda>creditSettlement.
           ebind (if gainLoss > 0
                  then ebind (posting (debit CASH gainLoss FX_ADJUSTMENT None to)
                         (credit FEES gainLoss FX_ADJUSTMENT None to) (Some FX_ADJUSTMENT_SOURCE_TYPE) None) (\<lambda>p. Inr [p])
                  else if gainLoss < 0
                  then ebind (posting (debit FEES (- gainLoss) FX_ADJUSTMENT None to)
                         (credit CASH (- gainLoss) FX_ADJUSTMENT None to) (Some FX_ADJUSTMENT_SOURCE_TYPE) None) (\<lambda>p. Inr [p])
                  else Inr []) (\<lambda>adjustment.
             Inr \<lparr>fxc_from = from, fxc_to = to, amountFromMinor = amountFrom, amountToMinor = amountTo,
                  gainLossMinor = gainLoss, fxc_postings = [drainSource, creditSettlement] @ adjustment\<rparr>))))"

section \<open>The sweep\<close>

record converted_balance_summary =
  cbs_from :: currency
  cbs_to :: currency
  cbs_amountFromMinor :: centimes
  cbs_amountToMinor :: centimes
  cbs_gainLossMinor :: centimes
  cbs_rate :: string
  cbs_source :: string

definition convert_one ::
  "fx_provider \<Rightarrow> env \<Rightarrow> string \<Rightarrow> currency \<Rightarrow> currency
    \<Rightarrow> converted_balance_summary list \<times> db \<Rightarrow> (converted_balance_summary list \<times> db) result" where
  "convert_one provider e tenantId settlementCurrency from s =
     (if from = settlementCurrency then Inr s
      else let balance = accountBalanceCents (snd s) tenantId AVAILABLE from
           in if balance \<le> 0 then Inr s
              else let quote = quoteFx provider from settlementCurrency (now e)
                   in ebind (planFxConversion from settlementCurrency balance (fxq_rate quote) (fxq_rate quote)) (\<lambda>plan.
                      ebind (efold (post e tenantId) (fxc_postings plan) (snd s)) (\<lambda>d.
                        Inr (fst s @ [\<lparr>cbs_from = from, cbs_to = settlementCurrency,
                               cbs_amountFromMinor = amountFromMinor plan, cbs_amountToMinor = amountToMinor plan,
                               cbs_gainLossMinor = gainLossMinor plan, cbs_rate = fxq_rate quote,
                               cbs_source = fxq_source quote\<rparr>], d))))"

definition convertForeignBalancesToSettlement ::
  "fx_provider \<Rightarrow> env \<Rightarrow> string \<Rightarrow> currency \<Rightarrow> db \<Rightarrow> (converted_balance_summary list \<times> db) result" where
  "convertForeignBalancesToSettlement provider e tenantId settlementCurrency d =
     efold (convert_one provider e tenantId settlementCurrency) SUPPORTED_CURRENCIES ([], d)"

section \<open>Lemmas\<close>

lemma currency_code_inj [simp]: "currency_code a = currency_code b \<longleftrightarrow> a = b"
  by (cases a; cases b) simp_all

lemma currency_of_code [simp]: "currency_of_code (currency_code c) = Some c"
  by (cases c) (simp_all add: currency_of_code_def SUPPORTED_CURRENCIES_def)

lemma supported_code [simp]: "isSupportedCurrency (currency_code c)"
  by (auto simp: isSupportedCurrency_def)

lemma split_on_pair:
  "sep \<notin> set a \<Longrightarrow> sep \<notin> set b \<Longrightarrow> split_on sep (a @ sep # b) = [a, b]"
proof -
  have one: "sep \<notin> set b \<Longrightarrow> split_on sep b = [b]" for b by (induction b) auto
  assume "sep \<notin> set a" "sep \<notin> set b"
  then show ?thesis by (induction a) (auto simp: one)
qed

lemma rnd_nonneg: "0 \<le> x \<Longrightarrow> 0 \<le> rnd x"
  using rnd_ge [of 0 x] representable_int [of 0] by simp

lemma Math_round_nonneg: "0 \<le> x \<Longrightarrow> 0 \<le> Math_round x"
  by (simp add: Math_round_def)

lemma rate_nonneg: "0 \<le> r \<Longrightarrow> 0 \<le> rate_number (formatRate r)"
proof -
  assume "0 \<le> r"
  then have "0 \<le> roundRate r"
    unfolding roundRate_def Let_def js_div_def js_mul_def
    by (intro rnd_nonneg divide_nonneg_nonneg) (simp_all add: Math_round_nonneg rnd_nonneg)
  then show ?thesis
    by (simp add: rate_number_def Number_def formatRate_def toFixed_value FX_RATE_PRECISION_def rnd_nonneg)
qed

lemma convertMinor_nonneg: "0 \<le> n \<Longrightarrow> 0 \<le> r \<Longrightarrow> 0 \<le> convertMinor n r"
  by (simp add: convertMinor_def js_mul_def rnd_nonneg Math_round_nonneg)

definition adjustment_postings :: "centimes \<Rightarrow> currency \<Rightarrow> ledger_posting list" where
  "adjustment_postings gainLoss to =
     (if gainLoss > 0 then [mk_posting (debit CASH gainLoss FX_ADJUSTMENT None to)
          (credit FEES gainLoss FX_ADJUSTMENT None to) (Some FX_ADJUSTMENT_SOURCE_TYPE) None]
      else if gainLoss < 0 then [mk_posting (debit FEES (- gainLoss) FX_ADJUSTMENT None to)
          (credit CASH (- gainLoss) FX_ADJUSTMENT None to) (Some FX_ADJUSTMENT_SOURCE_TYPE) None]
      else [])"

lemma planFxConversion_spec:
  fixes reference :: string
  assumes "from \<noteq> to" "0 \<le> n" "0 \<le> rate_number locked"
  defines "amountTo \<equiv> convertMinor n (rate_number (formatRate (rate_number locked)))"
    and "refTo \<equiv> convertMinor n (rate_number (formatRate (rate_number reference)))"
  shows "0 \<le> amountTo \<and> planFxConversion from to n locked reference = Inr
    \<lparr>fxc_from = from, fxc_to = to, amountFromMinor = n, amountToMinor = amountTo,
     gainLossMinor = refTo - amountTo,
     fxc_postings =
       [mk_posting (debit AVAILABLE n ADJUSTMENT None from) (credit CASH n ADJUSTMENT None from)
          (Some FX_CONVERSION_SOURCE_TYPE) None,
        mk_posting (debit CASH amountTo ADJUSTMENT None to) (credit AVAILABLE amountTo ADJUSTMENT None to)
          (Some FX_CONVERSION_SOURCE_TYPE) None] @ adjustment_postings (refTo - amountTo) to\<rparr>"
proof -
  have a: "0 \<le> amountTo"
    unfolding amountTo_def by (intro convertMinor_nonneg assms(2) rate_nonneg assms(3))
  have post: "posting d c st si = Inr (mk_posting d c st si)" if "valid_posting (mk_posting d c st si)" for d c st si
    using that by (simp add: posting_eq_Inr)
  have "posting (debit AVAILABLE n ADJUSTMENT None from) (credit CASH n ADJUSTMENT None from)
      (Some FX_CONVERSION_SOURCE_TYPE) None = Inr (mk_posting (debit AVAILABLE n ADJUSTMENT None from)
      (credit CASH n ADJUSTMENT None from) (Some FX_CONVERSION_SOURCE_TYPE) None)"
    "posting (debit CASH amountTo ADJUSTMENT None to) (credit AVAILABLE amountTo ADJUSTMENT None to)
      (Some FX_CONVERSION_SOURCE_TYPE) None = Inr (mk_posting (debit CASH amountTo ADJUSTMENT None to)
      (credit AVAILABLE amountTo ADJUSTMENT None to) (Some FX_CONVERSION_SOURCE_TYPE) None)"
    using assms(2) a by (auto intro!: post)
  then show ?thesis
    using a assms(1)
    by (simp add: planFxConversion_def Let_def amountTo_def [symmetric] refTo_def [symmetric] post adjustment_postings_def)
qed

text \<open>The sweep converts at one rate, so its plans carry no gain or loss.\<close>

definition sweep_amount :: "fx_provider \<Rightarrow> currency \<Rightarrow> currency \<Rightarrow> centimes \<Rightarrow> centimes" where
  "sweep_amount provider from to n =
     convertMinor n (rate_number (formatRate (rate_number (formatRate (getRate provider from to)))))"

lemma convert_one_skip:
  "from = S \<or> accountBalanceCents d t AVAILABLE from \<le> 0 \<Longrightarrow> convert_one provider e t S from (ss, d) = Inr (ss, d)"
  by (auto simp: convert_one_def Let_def)

lemma convert_one_run:
  assumes "from \<noteq> S" "0 < accountBalanceCents d t AVAILABLE from" "0 \<le> getRate provider from S"
  defines "n \<equiv> accountBalanceCents d t AVAILABLE from"
  defines "amt \<equiv> sweep_amount provider from S n"
  shows "\<exists>row d'. convert_one provider e t S from (ss, d) = Inr (ss @ [row], d') \<and>
    cbs_from row = from \<and> cbs_amountFromMinor row = n \<and> cbs_amountToMinor row = amt \<and> cbs_gainLossMinor row = 0 \<and>
    moves e t (Some FX_CONVERSION_SOURCE_TYPE) None
      [(debit AVAILABLE n ADJUSTMENT None from, credit CASH n ADJUSTMENT None from),
       (debit CASH amt ADJUSTMENT None S, credit AVAILABLE amt ADJUSTMENT None S)] d = Inr d'"
proof -
  define quote where "quote = quoteFx provider from S (now e)"
  define ls where "ls = [(debit AVAILABLE n ADJUSTMENT None from, credit CASH n ADJUSTMENT None from),
      (debit CASH amt ADJUSTMENT None S, credit AVAILABLE amt ADJUSTMENT None S)]"
  have rate: "fxq_rate quote = formatRate (getRate provider from S)" by (simp add: quote_def quoteFx_def)
  have "0 \<le> n" "0 \<le> rate_number (fxq_rate quote)" using assms(2,3) rate by (simp_all add: n_def rate_nonneg)
  note plan = planFxConversion_spec [OF assms(1) this, where reference = "fxq_rate quote",
      unfolded rate sweep_amount_def [symmetric] amt_def [symmetric]]
  have ps: "fxc_postings p = map (to_posting (Some FX_CONVERSION_SOURCE_TYPE) None) ls"
    if "planFxConversion from S n (fxq_rate quote) (fxq_rate quote) = Inr p" for p
    using that plan by (auto simp: rate ls_def to_posting_def adjustment_postings_def)
  have "\<forall>l\<in>set ls. valid_posting (to_posting (Some FX_CONVERSION_SOURCE_TYPE) None l)"
    using \<open>0 \<le> n\<close> plan by (simp add: ls_def to_posting_def)
  then obtain d' where d': "moves e t (Some FX_CONVERSION_SOURCE_TYPE) None ls d = Inr d'"
    using moves_ok by blast
  obtain p where p: "planFxConversion from S n (fxq_rate quote) (fxq_rate quote) = Inr p"
    "amountFromMinor p = n" "amountToMinor p = amt" "gainLossMinor p = 0"
    using plan by (simp add: rate)
  have "efold (post e t) (fxc_postings p) d = Inr d'" using d' ps [OF p(1)] by (simp add: moves_post)
  then have "convert_one provider e t S from (ss, d) = Inr (ss @ [\<lparr>cbs_from = from, cbs_to = S,
      cbs_amountFromMinor = n, cbs_amountToMinor = amt, cbs_gainLossMinor = 0,
      cbs_rate = fxq_rate quote, cbs_source = fxq_source quote\<rparr>], d')"
    using assms(1,2) p by (simp add: convert_one_def Let_def n_def [symmetric] quote_def [symmetric])
  then show ?thesis using d' unfolding ls_def by auto
qed

definition swept :: "string \<Rightarrow> currency \<Rightarrow> currency set \<Rightarrow> db \<Rightarrow> db \<Rightarrow> centimes \<Rightarrow> bool" where
  "swept t S cs d d' n \<longleftrightarrow>
     (\<forall>c. accountBalanceCents d' t AVAILABLE c =
        (if c = S then accountBalanceCents d t AVAILABLE c + n
         else if c \<in> cs then min 0 (accountBalanceCents d t AVAILABLE c) else accountBalanceCents d t AVAILABLE c)) \<and>
     (\<forall>a c. a \<noteq> AVAILABLE \<and> a \<noteq> CASH \<longrightarrow> accountBalanceCents d' t a c = accountBalanceCents d t a c)"

lemma sweep_loop:
  assumes "distinct cs" "\<forall>c. 0 \<le> getRate provider c S"
  shows "\<exists>rows d' ls. efold (convert_one provider e t S) cs (ss, d) = Inr (ss @ rows, d') \<and>
    swept t S (set cs) d d' (\<Sum>r\<leftarrow>rows. cbs_amountToMinor r) \<and> (\<forall>r\<in>set rows. cbs_gainLossMinor r = 0) \<and>
    moves e t (Some FX_CONVERSION_SOURCE_TYPE) None ls d = Inr d' \<and>
    (\<forall>l\<in>set (pair_legs ls). category l = ADJUSTMENT)"
  using assms(1)
proof (induction cs arbitrary: ss d)
  case Nil
  then show ?case
    by (intro exI [of _ "[]"] exI [of _ d]) (simp add: swept_def moves_def)
next
  case (Cons src cs)
  show ?case
  proof (cases "src = S \<or> accountBalanceCents d t AVAILABLE src \<le> 0")
    case True
    obtain rows d' ls where ih: "efold (convert_one provider e t S) cs (ss, d) = Inr (ss @ rows, d')"
      "swept t S (set cs) d d' (\<Sum>r\<leftarrow>rows. cbs_amountToMinor r)" "\<forall>r\<in>set rows. cbs_gainLossMinor r = 0"
      "moves e t (Some FX_CONVERSION_SOURCE_TYPE) None ls d = Inr d'" "\<forall>l\<in>set (pair_legs ls). category l = ADJUSTMENT"
      using Cons.IH [of ss d] Cons.prems by auto
    have "swept t S (set (src # cs)) d d' (\<Sum>r\<leftarrow>rows. cbs_amountToMinor r)"
      using ih(2) True by (auto simp: swept_def)
    with ih True show ?thesis using convert_one_skip [OF True] by (simp, blast)
  next
    case False
    define n where "n = accountBalanceCents d t AVAILABLE src"
    define amt where "amt = sweep_amount provider src S n"
    define l1 where "l1 = [(debit AVAILABLE n ADJUSTMENT None src, credit CASH n ADJUSTMENT None src),
       (debit CASH amt ADJUSTMENT None S, credit AVAILABLE amt ADJUSTMENT None S)]"
    from False convert_one_run [of src S d t provider e ss] assms(2) obtain row d1 where
      1: "convert_one provider e t S src (ss, d) = Inr (ss @ [row], d1)"
      "cbs_amountToMinor row = amt" "cbs_gainLossMinor row = 0"
      "moves e t (Some FX_CONVERSION_SOURCE_TYPE) None l1 d = Inr d1"
      unfolding n_def amt_def l1_def by (auto simp: not_le)
    obtain rows d' ls where ih: "efold (convert_one provider e t S) cs (ss @ [row], d1) = Inr ((ss @ [row]) @ rows, d')"
      "swept t S (set cs) d1 d' (\<Sum>r\<leftarrow>rows. cbs_amountToMinor r)" "\<forall>r\<in>set rows. cbs_gainLossMinor r = 0"
      "moves e t (Some FX_CONVERSION_SOURCE_TYPE) None ls d1 = Inr d'" "\<forall>l\<in>set (pair_legs ls). category l = ADJUSTMENT"
      using Cons.IH [of "ss @ [row]" d1] Cons.prems by auto
    have "swept t S (set (src # cs)) d d' (\<Sum>r\<leftarrow>row # rows. cbs_amountToMinor r)"
      using ih(2) False Cons.prems n_def
      unfolding swept_def by (auto simp: moves_balance [OF 1(4)] l1_def 1(2) split: if_splits)
    moreover have "moves e t (Some FX_CONVERSION_SOURCE_TYPE) None (l1 @ ls) d = Inr d'"
      using 1(4) ih(4) by (simp add: moves_append)
    moreover have "\<forall>l\<in>set (pair_legs (l1 @ ls)). category l = ADJUSTMENT" using ih(5) by (simp add: l1_def)
    ultimately show ?thesis
      using ih(1,3) 1 by (intro exI [of _ "row # rows"] exI [of _ d'] exI [of _ "l1 @ ls"]) simp
  qed
qed

text \<open>The summaries, one for each positive foreign balance, in the order of the currencies.\<close>

lemma sweep_rows:
  assumes "distinct cs" "\<forall>c. 0 \<le> getRate provider c S" "efold (convert_one provider e t S) cs (ss, d) = Inr (ss', d')"
  shows "map (\<lambda>r. (cbs_from r, cbs_amountFromMinor r, cbs_amountToMinor r)) ss' =
    map (\<lambda>r. (cbs_from r, cbs_amountFromMinor r, cbs_amountToMinor r)) ss @
    map (\<lambda>c. (c, accountBalanceCents d t AVAILABLE c, sweep_amount provider c S (accountBalanceCents d t AVAILABLE c)))
      (filter (\<lambda>c. c \<noteq> S \<and> 0 < accountBalanceCents d t AVAILABLE c) cs)"
  using assms(1,3)
proof (induction cs arbitrary: ss d)
  case (Cons src cs)
  show ?case
  proof (cases "src = S \<or> accountBalanceCents d t AVAILABLE src \<le> 0")
    case True
    with Cons show ?thesis using convert_one_skip [OF True] by auto
  next
    case False
    define n where "n = accountBalanceCents d t AVAILABLE src"
    from False convert_one_run [of src S d t provider e ss] assms(2) obtain row d1 where
      1: "convert_one provider e t S src (ss, d) = Inr (ss @ [row], d1)"
      "cbs_from row = src" "cbs_amountFromMinor row = n" "cbs_amountToMinor row = sweep_amount provider src S n"
      and m: "moves e t (Some FX_CONVERSION_SOURCE_TYPE) None
        [(debit AVAILABLE n ADJUSTMENT None src, credit CASH n ADJUSTMENT None src),
         (debit CASH (sweep_amount provider src S n) ADJUSTMENT None S, credit AVAILABLE (sweep_amount provider src S n) ADJUSTMENT None S)] d = Inr d1"
      unfolding n_def by (auto simp: not_le)
    have same: "accountBalanceCents d1 t AVAILABLE c = accountBalanceCents d t AVAILABLE c" if "c \<noteq> src" "c \<noteq> S" for c
      using that by (simp add: moves_balance [OF m])
    have "filter (\<lambda>c. c \<noteq> S \<and> 0 < accountBalanceCents d1 t AVAILABLE c) cs = filter (\<lambda>c. c \<noteq> S \<and> 0 < accountBalanceCents d t AVAILABLE c) cs"
      using Cons.prems(1) same by (intro filter_cong) (auto, metis+)
    moreover have "map (\<lambda>c. (c, accountBalanceCents d1 t AVAILABLE c, sweep_amount provider c S (accountBalanceCents d1 t AVAILABLE c)))
        (filter (\<lambda>c. c \<noteq> S \<and> 0 < accountBalanceCents d t AVAILABLE c) cs) =
      map (\<lambda>c. (c, accountBalanceCents d t AVAILABLE c, sweep_amount provider c S (accountBalanceCents d t AVAILABLE c)))
        (filter (\<lambda>c. c \<noteq> S \<and> 0 < accountBalanceCents d t AVAILABLE c) cs)"
      using Cons.prems(1) same by (intro map_cong) (auto, metis+)
    ultimately show ?thesis using Cons.IH [of "ss @ [row]" d1] Cons.prems False 1 by (simp add: n_def)
  qed
qed simp

subsection \<open>How exact the converted amount is\<close>

lemma Math_round_error: "\<bar>of_int (Math_round x) - x\<bar> \<le> 1/2"
  unfolding Math_round_def by linarith

lemma rnd_near: "\<bar>x\<bar> \<le> b \<Longrightarrow> \<bar>rnd x - x\<bar> \<le> b / 2 ^ 53"
  using order_trans [OF rnd_error [of x] divide_right_mono [of "\<bar>x\<bar>" b "2 ^ 53"]] by simp

text \<open>A rate is rounded to eight decimals, printed and parsed.\<close>

lemma format_error:
  assumes "0 \<le> r" "r \<le> 2000"
  shows "\<bar>rate_number (formatRate r) - r\<bar> \<le> 2 / 100000000"
proof -
  define a where "a = rnd (r * 100000000)"
  define b where "b = (of_int (Math_round a) :: rat)"
  define c where "c = rnd (b / 100000000)"
  define v where "v = (of_int (Math_round (c * 100000000)) / 100000000 :: rat)"
  have a: "\<bar>a - r * 100000000\<bar> \<le> 1 / 1000" unfolding a_def
    by (rule order_trans [OF rnd_near [where b = 200000000000]]) (use assms in simp_all)
  have a0: "0 \<le> a" unfolding a_def using assms by (intro rnd_nonneg) simp
  have b: "\<bar>b - a\<bar> \<le> 1/2" "0 \<le> b" unfolding b_def using Math_round_error a0 by (simp_all add: Math_round_nonneg)
  have b1: "b \<le> 200100000000" using a b(1) assms(2) by linarith
  then have c: "\<bar>c - b / 100000000\<bar> \<le> 1 / 1000000000000" unfolding c_def
    by (intro order_trans [OF rnd_near [where b = 2001]]) (use b(2) in simp_all)
  have c0: "0 \<le> c" unfolding c_def using b(2) by (intro rnd_nonneg) simp
  have "\<bar>of_int (Math_round (c * 100000000)) - c * 100000000\<bar> \<le> 1/2" by (rule Math_round_error)
  then have v: "\<bar>v - c\<bar> \<le> 1 / 200000000" unfolding v_def by linarith
  have v0: "0 \<le> v" unfolding v_def using c0 by (simp add: Math_round_nonneg)
  have "v \<le> 2002" using v c b1 by linarith
  then have w: "\<bar>rnd v - v\<bar> \<le> 1 / 1000000000000"
    by (intro order_trans [OF rnd_near [where b = 2002]]) (use v0 in simp_all)
  have "rate_number (formatRate r) = rnd v"
    using c0 Math_round_nonneg [of "c * 100000000"]
    by (simp add: rate_number_def Number_def formatRate_def toFixed_value FX_RATE_PRECISION_def roundRate_def js_mul_def js_div_def Let_def
        v_def c_def b_def a_def)
  then show ?thesis using a b(1) c v w by linarith
qed

lemma sweep_amount_error:
  assumes "0 \<le> n" "n \<le> 10 ^ 12" "0 \<le> getRate provider c S" "getRate provider c S \<le> 1000"
  shows "\<bar>of_int (sweep_amount provider c S n) - of_int n * getRate provider c S\<bar> \<le> 1 + of_int n * (4 / 10 ^ 8)"
proof -
  define r where "r = getRate provider c S"
  define r1 where "r1 = rate_number (formatRate r)"
  define r2 where "r2 = rate_number (formatRate r1)"
  have r: "0 \<le> r" "r \<le> 1000" using assms(3,4) by (simp_all add: r_def)
  have 1: "\<bar>r1 - r\<bar> \<le> 2 / 100000000" "0 \<le> r1" unfolding r1_def using r by (simp_all only: format_error rate_nonneg)
  have 2: "\<bar>r2 - r1\<bar> \<le> 2 / 100000000" "0 \<le> r2"
    unfolding r2_def by (rule format_error [OF 1(2)], use 1 r in linarith) (rule rate_nonneg [OF 1(2)])
  have "r2 \<le> 1001" using 1 2 r by linarith
  moreover have "(of_int n :: rat) \<le> 1000000000000" proof -
    have "n \<le> 1000000000000" using assms(2) by simp
    then show ?thesis by linarith
  qed
  ultimately have "of_int n * r2 \<le> 1000000000000 * 1001" using assms(1) 2(2) by (intro mult_mono) simp_all
  then have x: "\<bar>rnd (of_int n * r2) - of_int n * r2\<bar> \<le> 1/2"
    by (intro order_trans [OF rnd_near [where b = 1001000000000000]]) (use assms(1) 2(2) in simp_all)
  have y: "\<bar>of_int (sweep_amount provider c S n) - rnd (of_int n * r2)\<bar> \<le> 1/2"
    using Math_round_error [of "rnd (of_int n * r2)"] by (simp add: sweep_amount_def convertMinor_def js_mul_def r2_def r1_def r_def)
  have "\<bar>r2 - r\<bar> \<le> 4 / 100000000" using 1 2 by linarith
  then have "\<bar>of_int n * r2 - of_int n * r\<bar> \<le> of_int n * (4 / 100000000)"
    using assms(1) mult_left_mono [of "\<bar>r2 - r\<bar>" "4 / 100000000" "of_int n"] by (simp add: abs_mult right_diff_distrib [symmetric])
  with x y have "\<bar>of_int (sweep_amount provider c S n) - of_int n * r\<bar> \<le> 1 + of_int n * (4 / 100000000)" by linarith
  then show ?thesis by (simp add: r_def)
qed

lemma convert_run:
  assumes "\<forall>c. 0 \<le> getRate provider c S"
  shows "\<exists>rows d' ls. convertForeignBalancesToSettlement provider e t S d = Inr (rows, d') \<and>
    swept t S UNIV d d' (\<Sum>r\<leftarrow>rows. cbs_amountToMinor r) \<and> (\<forall>r\<in>set rows. cbs_gainLossMinor r = 0) \<and>
    moves e t (Some FX_CONVERSION_SOURCE_TYPE) None ls d = Inr d' \<and> (\<forall>l\<in>set (pair_legs ls). category l = ADJUSTMENT)"
proof -
  have "distinct SUPPORTED_CURRENCIES" by (simp add: SUPPORTED_CURRENCIES_def)
  from sweep_loop [OF this assms, of e t "[]" d] show ?thesis by (simp add: convertForeignBalancesToSettlement_def)
qed

lemma convert_rows:
  assumes "\<forall>c. 0 \<le> getRate provider c S" "convertForeignBalancesToSettlement provider e t S d = Inr (rows, d')"
  shows "map (\<lambda>r. (cbs_from r, cbs_amountFromMinor r)) rows =
      map (\<lambda>c. (c, accountBalanceCents d t AVAILABLE c)) (filter (\<lambda>c. c \<noteq> S \<and> 0 < accountBalanceCents d t AVAILABLE c) SUPPORTED_CURRENCIES)"
    and "\<forall>r\<in>set rows. getRate provider (cbs_from r) S \<le> 1000 \<and> cbs_amountFromMinor r \<le> 10 ^ 12 \<longrightarrow>
       \<bar>of_int (cbs_amountToMinor r) - of_int (cbs_amountFromMinor r) * getRate provider (cbs_from r) S\<bar>
         \<le> 1 + of_int (cbs_amountFromMinor r) * (4 / 10 ^ 8)"
proof -
  have "distinct SUPPORTED_CURRENCIES" by (simp add: SUPPORTED_CURRENCIES_def)
  note rows = sweep_rows [OF this assms(1), of e t "[]" d rows d', simplified, OF assms(2) [unfolded convertForeignBalancesToSettlement_def]]
  from arg_cong [OF rows, of "map (\<lambda>(c, n, m). (c, n))"]
  show "map (\<lambda>r. (cbs_from r, cbs_amountFromMinor r)) rows =
      map (\<lambda>c. (c, accountBalanceCents d t AVAILABLE c)) (filter (\<lambda>c. c \<noteq> S \<and> 0 < accountBalanceCents d t AVAILABLE c) SUPPORTED_CURRENCIES)"
    by (simp add: comp_def)
  show "\<forall>r\<in>set rows. getRate provider (cbs_from r) S \<le> 1000 \<and> cbs_amountFromMinor r \<le> 10 ^ 12 \<longrightarrow>
       \<bar>of_int (cbs_amountToMinor r) - of_int (cbs_amountFromMinor r) * getRate provider (cbs_from r) S\<bar>
         \<le> 1 + of_int (cbs_amountFromMinor r) * (4 / 10 ^ 8)"
  proof (intro ballI impI)
    fix r assume r: "r \<in> set rows" "getRate provider (cbs_from r) S \<le> 1000 \<and> cbs_amountFromMinor r \<le> 10 ^ 12"
    from r(1) have "(cbs_from r, cbs_amountFromMinor r, cbs_amountToMinor r) \<in> set (map (\<lambda>r. (cbs_from r, cbs_amountFromMinor r, cbs_amountToMinor r)) rows)" by force
    then have "0 < cbs_amountFromMinor r" "cbs_amountToMinor r = sweep_amount provider (cbs_from r) S (cbs_amountFromMinor r)"
      unfolding rows by auto
    with sweep_amount_error [of "cbs_amountFromMinor r" provider "cbs_from r" S] r(2) assms(1)
    show "\<bar>of_int (cbs_amountToMinor r) - of_int (cbs_amountFromMinor r) * getRate provider (cbs_from r) S\<bar>
         \<le> 1 + of_int (cbs_amountFromMinor r) * (4 / 10 ^ 8)" by simp
  qed
qed

section \<open>Properties\<close>

text \<open>
  C34. The FX sweep. With non-negative rates \<open>convertForeignBalancesToSettlement\<close> succeeds. It converts, in the order of the
  currencies, exactly the positive foreign AVAILABLE balances, each in full: the summary names the currency, its balance and
  the amount credited, which is the balance at the provider's rate for this currency to within one centime plus four parts in 10 to the
  8 of the balance (rates up to 1000, balances up to 10 to the 12). Every converted balance is then zero (a negative one is left
  alone), the settlement AVAILABLE has grown by exactly the amounts of the summaries, no account but AVAILABLE and CASH is touched,
  every ledger stays balanced and the other tenants' ledgers stay as they were, no gain or loss is recorded, and a second sweep finds
  nothing to convert.
\<close>

theorem fx_sweep_correct:
  assumes "\<forall>c. 0 \<le> getRate provider c S"
  shows "\<exists>rows d'. convertForeignBalancesToSettlement provider e t S d = Inr (rows, d') \<and>
    map (\<lambda>r. (cbs_from r, cbs_amountFromMinor r)) rows =
      map (\<lambda>c. (c, accountBalanceCents d t AVAILABLE c)) (filter (\<lambda>c. c \<noteq> S \<and> 0 < accountBalanceCents d t AVAILABLE c) SUPPORTED_CURRENCIES) \<and>
    (\<forall>r\<in>set rows. getRate provider (cbs_from r) S \<le> 1000 \<and> cbs_amountFromMinor r \<le> 10 ^ 12 \<longrightarrow>
       \<bar>of_int (cbs_amountToMinor r) - of_int (cbs_amountFromMinor r) * getRate provider (cbs_from r) S\<bar>
         \<le> 1 + of_int (cbs_amountFromMinor r) * (4 / 10 ^ 8)) \<and>
    (\<forall>c. c \<noteq> S \<longrightarrow> accountBalanceCents d' t AVAILABLE c = min 0 (accountBalanceCents d t AVAILABLE c)) \<and>
    accountBalanceCents d' t AVAILABLE S = accountBalanceCents d t AVAILABLE S + (\<Sum>r\<leftarrow>rows. cbs_amountToMinor r) \<and>
    (\<forall>a c. a \<noteq> AVAILABLE \<and> a \<noteq> CASH \<longrightarrow> accountBalanceCents d' t a c = accountBalanceCents d t a c) \<and>
    (\<forall>u. isBalanced (tenant_legs u d) \<longrightarrow> isBalanced (tenant_legs u d')) \<and>
    (\<forall>u. u \<noteq> t \<longrightarrow> tenant_legs u d' = tenant_legs u d) \<and>
    (\<forall>r\<in>set rows. cbs_gainLossMinor r = 0) \<and>
    convertForeignBalancesToSettlement provider e' t S d' = Inr ([], d')"
proof -
  obtain rows d' ls where r: "convertForeignBalancesToSettlement provider e t S d = Inr (rows, d')"
    "swept t S UNIV d d' (\<Sum>r\<leftarrow>rows. cbs_amountToMinor r)" "\<forall>r\<in>set rows. cbs_gainLossMinor r = 0"
    and ls: "moves e t (Some FX_CONVERSION_SOURCE_TYPE) None ls d = Inr d'"
    using convert_run [OF assms, of e t d] by blast
  note eff = effect_moves [OF ls] and rows = convert_rows [OF assms r(1)]
  have "efold (convert_one provider e' t S) cs ([], d') = Inr ([], d')" for cs
    by (induction cs) (use r(2) in \<open>simp_all add: convert_one_skip swept_def\<close>)
  then have "convertForeignBalancesToSettlement provider e' t S d' = Inr ([], d')"
    by (simp add: convertForeignBalancesToSettlement_def)
  with r rows effect_balanced [OF eff] effect_other [OF eff] show ?thesis
    by (intro exI [of _ rows] exI [of _ d'] conjI) (auto simp: swept_def)
qed

lemma sandbox_rates: "0 \<le> getRate sandboxFxProvider c S"
proof -
  have "0 \<le> FX_BASE_RATES x" for x by (cases x) (simp_all add: rnd_nonneg)
  then show ?thesis by (simp add: sandboxFxProvider_def crossRate_def js_div_def rnd_nonneg)
qed

text \<open>A balance of 100.00 dollars at a rate of 10.\<close>

definition dollar_db :: db where
  "dollar_db = empty_db\<lparr>ledgerEntries := [\<lparr>le_id = ''l1'', le_postingId = ''p'', le_tenantId = ''t1'', le_account = AVAILABLE,
     le_direction = CREDIT, le_category = CAPTURE, le_amount = 10000, le_currency = USD, le_balanceAfter = 10000, le_sourceType = None,
     le_sourceId = None, le_partyId = None, le_createdAt = 0\<rparr>]\<rparr>"

definition ten_provider :: fx_provider where
  "ten_provider = \<lparr>fxp_name = ''ten'', getRate = (\<lambda>from to. 10)\<rparr>"

theorem fx_sweep_correct_witness:
  "\<exists>r d'. convertForeignBalancesToSettlement ten_provider demo_env ''t1'' MAD dollar_db = Inr ([r], d') \<and>
     cbs_from r = USD \<and> cbs_amountFromMinor r = 10000 \<and> \<bar>of_int (cbs_amountToMinor r) - (100000 :: rat)\<bar> < 2 \<and>
     accountBalanceCents d' ''t1'' AVAILABLE USD = 0 \<and> accountBalanceCents d' ''t1'' AVAILABLE MAD = cbs_amountToMinor r"
proof -
  have rate: "\<forall>c. 0 \<le> getRate ten_provider c MAD" by (simp add: ten_provider_def)
  have bal: "accountBalanceCents dollar_db ''t1'' AVAILABLE c = (if c = USD then 10000 else 0)" for c
    by (simp add: accountBalanceCents_def dollar_db_def empty_db_def)
  have one: "map (\<lambda>c. (c, accountBalanceCents dollar_db ''t1'' AVAILABLE c))
      (filter (\<lambda>c. c \<noteq> MAD \<and> 0 < accountBalanceCents dollar_db ''t1'' AVAILABLE c) SUPPORTED_CURRENCIES) = [(USD, 10000)]"
    by (simp add: bal SUPPORTED_CURRENCIES_def)
  from fx_sweep_correct [OF rate, of demo_env "''t1''" dollar_db demo_env] obtain rows d' where
    r: "convertForeignBalancesToSettlement ten_provider demo_env ''t1'' MAD dollar_db = Inr (rows, d')"
      "map (\<lambda>r. (cbs_from r, cbs_amountFromMinor r)) rows = [(USD, 10000)]"
      "\<forall>r\<in>set rows. getRate ten_provider (cbs_from r) MAD \<le> 1000 \<and> cbs_amountFromMinor r \<le> 10 ^ 12 \<longrightarrow>
       \<bar>of_int (cbs_amountToMinor r) - of_int (cbs_amountFromMinor r) * getRate ten_provider (cbs_from r) MAD\<bar>
         \<le> 1 + of_int (cbs_amountFromMinor r) * (4 / 10 ^ 8)"
      "\<forall>c. c \<noteq> MAD \<longrightarrow> accountBalanceCents d' ''t1'' AVAILABLE c = min 0 (accountBalanceCents dollar_db ''t1'' AVAILABLE c)"
      "accountBalanceCents d' ''t1'' AVAILABLE MAD = accountBalanceCents dollar_db ''t1'' AVAILABLE MAD + (\<Sum>r\<leftarrow>rows. cbs_amountToMinor r)"
    unfolding one by (elim exE conjE) (rule that)
  from r(2) obtain x where x: "rows = [x]" "cbs_from x = USD" "cbs_amountFromMinor x = 10000" by (cases rows) auto
  have "getRate ten_provider (cbs_from x) MAD = 10" by (simp add: ten_provider_def)
  with r(3) x have "\<bar>of_int (cbs_amountToMinor x) - (100000 :: rat)\<bar> \<le> 1 + 10000 * (4 / 10 ^ 8)" by simp
  then have "\<bar>of_int (cbs_amountToMinor x) - (100000 :: rat)\<bar> < 2" by (rule le_less_trans) simp
  with r x show ?thesis by (intro exI [of _ x] exI [of _ d']) (simp add: bal)
qed

text \<open>
  A conversion plan with any pair of non-negative rates consists of balanced single-currency postings that drain the source
  amount from AVAILABLE, credit AVAILABLE in the target currency with the amount at the locked rate, and book the whole
  difference to the reference amount on FEES, so that CASH moves by exactly the reference amount; equal currencies are refused.
\<close>

lemma planFxConversion_books:
  assumes "0 \<le> n" "0 \<le> rate_number locked"
  shows "(from = to \<longrightarrow> (\<exists>msg. planFxConversion from to n locked reference = Inl (JsError msg))) \<and>
    (from \<noteq> to \<longrightarrow> (\<exists>plan. planFxConversion from to n locked reference = Inr plan \<and>
       (\<forall>p\<in>set (fxc_postings plan). valid_posting p) \<and>
       balanceOf (posting_legs (fxc_postings plan)) AVAILABLE from = - n \<and>
       balanceOf (posting_legs (fxc_postings plan)) AVAILABLE to = amountToMinor plan \<and>
       balanceOf (posting_legs (fxc_postings plan)) FEES to = gainLossMinor plan \<and>
       balanceOf (posting_legs (fxc_postings plan)) CASH to
         = - convertMinor n (rate_number (formatRate (rate_number reference))) \<and>
       amountToMinor plan = convertMinor n (rate_number (formatRate (rate_number locked)))))"
proof (cases "from = to")
  case False
  from planFxConversion_spec [OF this assms, of reference] False assms(1) show ?thesis
    by (auto simp: adjustment_postings_def)
qed (simp add: planFxConversion_def)

text \<open>
  The currency-pair key stored on intents and payouts parses back to its two currencies.
\<close>

lemma parseCurrencyPair_key: "parseCurrencyPair (currencyPairKey from to) = Some (from, to)"
proof -
  have "CHR ''/'' \<notin> set (currency_code c)" for c by (cases c) simp_all
  then have "split_on (CHR ''/'') (currencyPairKey from to) = [currency_code from, currency_code to]"
    using split_on_pair [of "CHR ''/''" "currency_code from" "currency_code to"] by (simp add: currencyPairKey_def)
  then show ?thesis by (simp add: parseCurrencyPair_def)
qed

end
