(* ===== verification/Payout.thy ===== *)
theory Payout
  imports Fx StatusMachine ConfigDb
begin

text \<open>
  \<open>src/lib/payout.ts\<close>, \<open>src/lib/payout-db.ts\<close>, \<open>src/lib/settlement-summary.ts\<close> and
  \<open>src/lib/settlement-summary-db.ts\<close>: the payout lifecycle. Creating a payout sweeps foreign balances, snapshots the
  unreserved AVAILABLE credits less the other debits, and reserves credits first in, first out; paying it moves the amount
  AVAILABLE to PAID_OUT after checking the current balance; cancelling or failing it releases the credits. Creating and
  paying run under the tenant's advisory lock and are one step each; the check and the write of cancelling and failing are
  also separate definitions, at the end.
\<close>

section \<open>Status machine and eligibility\<close>

fun payout_TRANSITIONS :: "payout_status \<Rightarrow> payout_status list" where
  "payout_TRANSITIONS PAYOUT_DRAFT = [PAYOUT_SCHEDULED, PAYOUT_CANCELLED]"
| "payout_TRANSITIONS PAYOUT_SCHEDULED = [PAYOUT_PENDING, PAYOUT_CANCELLED]"
| "payout_TRANSITIONS PAYOUT_PENDING = [PAYOUT_PROCESSING, PAYOUT_FAILED, PAYOUT_CANCELLED]"
| "payout_TRANSITIONS PAYOUT_PROCESSING = [PAYOUT_PAID, PAYOUT_FAILED]"
| "payout_TRANSITIONS PAYOUT_PAID = []"
| "payout_TRANSITIONS PAYOUT_FAILED = []"
| "payout_TRANSITIONS PAYOUT_CANCELLED = []"

definition OPEN_PAYOUT_STATUSES :: "payout_status list" where
  "OPEN_PAYOUT_STATUSES = [PAYOUT_DRAFT, PAYOUT_SCHEDULED, PAYOUT_PENDING, PAYOUT_PROCESSING]"

definition payout_canTransition :: "payout_status \<Rightarrow> payout_status \<Rightarrow> bool" where
  "payout_canTransition from to = (to \<in> set (payout_TRANSITIONS from))"

definition payout_assertTransition :: "payout_status \<Rightarrow> payout_status \<Rightarrow> unit result" where
  "payout_assertTransition from to =
     require (payout_canTransition from to) (PayoutError ''illegal payout transition'')"

definition payout_TERMINAL :: "payout_status list" where
  "payout_TERMINAL = [PAYOUT_PAID, PAYOUT_FAILED, PAYOUT_CANCELLED]"

definition eligibleAmount :: "centimes \<Rightarrow> centimes \<Rightarrow> centimes" where
  "eligibleAmount available alreadyScheduled = max 0 (available - alreadyScheduled)"

definition meetsThreshold :: "centimes \<Rightarrow> centimes option \<Rightarrow> bool" where
  "meetsThreshold eligible threshold =
     (case threshold of None \<Rightarrow> eligible > 0 | Some n \<Rightarrow> eligible \<ge> n)"

section \<open>Creation\<close>

fun allocate :: "ledger_entry list \<Rightarrow> centimes \<Rightarrow> (string \<times> centimes) list" where
  "allocate [] remaining = []"
| "allocate (en # ens) remaining =
     (if remaining \<le> 0 then []
      else let alloc = min (le_amount en) remaining in (le_id en, alloc) # allocate ens (remaining - alloc))"

definition is_reserved :: "db \<Rightarrow> ledger_entry \<Rightarrow> bool" where
  "is_reserved d r \<longleftrightarrow> (\<exists>i\<in>set (payoutItems d). pi_ledgerEntryId i = le_id r)"

definition unpaid_credits :: "db \<Rightarrow> string \<Rightarrow> currency \<Rightarrow> ledger_entry list" where
  "unpaid_credits d t c =
     sort_key (\<lambda>r. (le_createdAt r, le_id r))
       (filter (\<lambda>r. le_tenantId r = t \<and> le_account r = AVAILABLE \<and> le_direction r = CREDIT \<and> le_currency r = c \<and>
          \<not> is_reserved d r) (ledgerEntries d))"

definition other_debits :: "db \<Rightarrow> string \<Rightarrow> currency \<Rightarrow> ledger_entry list" where
  "other_debits d t c =
     filter (\<lambda>r. le_tenantId r = t \<and> le_account r = AVAILABLE \<and> le_direction r = DEBIT \<and> le_currency r = c \<and>
          le_category r \<noteq> PAYOUT) (ledgerEntries d)"

definition payout_items_of :: "db \<Rightarrow> string \<Rightarrow> payout_item list" where
  "payout_items_of d payoutId = filter (\<lambda>i. pi_payoutId i = payoutId) (payoutItems d)"

definition settlement_currency_of :: "db \<Rightarrow> string \<Rightarrow> currency" where
  "settlement_currency_of d t =
     (case find (\<lambda>r. tn_id r = t) (tenants d) of Some row \<Rightarrow> tn_settlementCurrency row | None \<Rightarrow> MAD)"

fun create_items :: "env \<Rightarrow> string \<Rightarrow> (string \<times> centimes) list \<Rightarrow> nat \<Rightarrow> payout_item list" where
  "create_items e payoutId [] n = []"
| "create_items e payoutId ((entryId, amount) # xs) n =
     \<lparr>pi_id = gen e n, pi_payoutId = payoutId, pi_ledgerEntryId = entryId, pi_amount = amount\<rparr>
       # create_items e payoutId xs (Suc n)"

definition createPayout ::
  "fx_provider \<Rightarrow> env \<Rightarrow> string \<Rightarrow> string \<Rightarrow> provider \<Rightarrow> payout_method option \<Rightarrow> db
    \<Rightarrow> ((payout \<times> payout_item list) \<times> db) result" where
  "createPayout fxp e tenantId idempotencyKey prov method d =
     (case find (\<lambda>p. po_tenantId p = tenantId \<and> po_idempotencyKey p = idempotencyKey) (payouts d) of
        Some existing \<Rightarrow> Inr ((existing, payout_items_of d (po_id existing)), d)
      | None \<Rightarrow>
          let c = settlement_currency_of d tenantId
          in ebind (convertForeignBalancesToSettlement fxp e tenantId c d) (\<lambda>(_, d1).
               let credits = unpaid_credits d1 tenantId c;
                   unpaidCredits = (\<Sum>r\<leftarrow>credits. le_amount r);
                   otherDebits = (\<Sum>r\<leftarrow>other_debits d1 tenantId c. le_amount r);
                   payable = unpaidCredits - otherDebits
               in if payable \<le> 0 then Inl (PayoutError ''no eligible funds to pay out'')
                  else
                    let row = \<lparr>po_id = fresh e d1, po_tenantId = tenantId, po_amount = payable, po_currency = c,
                               po_status = PAYOUT_DRAFT, po_provider = prov, po_providerTransferId = None,
                               po_method = coalesce method BANK_TRANSFER, po_idempotencyKey = idempotencyKey\<rparr>;
                        items = create_items e (fresh e d1) (allocate credits payable) (Suc (seq d1))
                    in Inr ((row, items),
                            d1\<lparr>seq := Suc (seq d1) + length items, payouts := payouts d1 @ [row],
                               payoutItems := payoutItems d1 @ items\<rparr>)))"

definition getPayout :: "db \<Rightarrow> string \<Rightarrow> string \<Rightarrow> (payout \<times> payout_item list) option" where
  "getPayout d tenantId i =
     map_option (\<lambda>p. (p, payout_items_of d i)) (find (\<lambda>p. po_id p = i \<and> po_tenantId p = tenantId) (payouts d))"

section \<open>Lifecycle\<close>

definition set_payout :: "string \<Rightarrow> payout_status \<Rightarrow> db \<Rightarrow> db" where
  "set_payout i s d = d\<lparr>payouts := map (\<lambda>p. if po_id p = i then p\<lparr>po_status := s\<rparr> else p) (payouts d)\<rparr>"

definition release_items :: "string \<Rightarrow> db \<Rightarrow> db" where
  "release_items i d = d\<lparr>payoutItems := filter (\<lambda>x. pi_payoutId x \<noteq> i) (payoutItems d)\<rparr>"

definition cancelPayout :: "string \<Rightarrow> string \<Rightarrow> db \<Rightarrow> db result" where
  "cancelPayout tenantId i d =
     (case find (\<lambda>p. po_id p = i \<and> po_tenantId p = tenantId) (payouts d) of
        None \<Rightarrow> Inl (PayoutError ''payout not found'')
      | Some p \<Rightarrow>
          ebind (payout_assertTransition (po_status p) PAYOUT_CANCELLED) (\<lambda>_.
            Inr (set_payout i PAYOUT_CANCELLED (release_items i d))))"

definition markPayoutFailed :: "string \<Rightarrow> string \<Rightarrow> db \<Rightarrow> db result" where
  "markPayoutFailed tenantId i d =
     (case find (\<lambda>p. po_id p = i \<and> po_tenantId p = tenantId) (payouts d) of
        None \<Rightarrow> Inl (PayoutError ''payout not found'')
      | Some p \<Rightarrow>
          if po_status p \<in> set payout_TERMINAL then Inl (PayoutError ''payout is already settled'')
          else Inr (set_payout i PAYOUT_FAILED (release_items i d)))"

definition markPayoutPaid :: "env \<Rightarrow> string \<Rightarrow> string \<Rightarrow> string option \<Rightarrow> db \<Rightarrow> db result" where
  "markPayoutPaid e tenantId i transferId d =
     (case find (\<lambda>p. po_id p = i \<and> po_tenantId p = tenantId) (payouts d) of
        None \<Rightarrow> Inl (PayoutError ''payout not found'')
      | Some p \<Rightarrow>
          if po_status p \<in> set payout_TERMINAL then Inl (PayoutError ''payout is already settled'')
          else
            let c = po_currency p; amount = po_amount p
            in if accountBalanceCents d tenantId AVAILABLE c < amount
               then Inl (PayoutError ''payout exceeds current eligible funds'')
               else ebind (move e tenantId (Some ''payout'') (Some i)
                      (debit AVAILABLE amount PAYOUT None c, credit PAID_OUT amount PAYOUT None c) d) (\<lambda>d1.
                    Inr (d1\<lparr>payouts := map (\<lambda>q. if po_id q = i
                           then q\<lparr>po_status := PAYOUT_PAID, po_providerTransferId := transferId\<rparr> else q) (payouts d1)\<rparr>)))"

section \<open>Settlement summary\<close>

record settlement_summary =
  sum_availableCents :: centimes
  sum_scheduledCents :: centimes
  sum_eligibleCents :: centimes
  sum_feesCents :: centimes
  sum_reserveCents :: centimes
  sum_paidOutCents :: centimes

definition computeSettlementSummary :: "(ledger_account \<rightharpoonup> centimes) \<Rightarrow> centimes \<Rightarrow> settlement_summary" where
  "computeSettlementSummary balances scheduled =
     (let available = coalesce (balances AVAILABLE) 0; fees = coalesce (balances FEES) 0;
          reserve = coalesce (balances RESERVE) 0; paidOut = coalesce (balances PAID_OUT) 0
      in \<lparr>sum_availableCents = available, sum_scheduledCents = scheduled,
          sum_eligibleCents = max 0 (available - scheduled), sum_feesCents = fees,
          sum_reserveCents = reserve, sum_paidOutCents = paidOut\<rparr>)"

definition getSettlementSummary :: "db \<Rightarrow> string \<Rightarrow> settlement_summary \<times> payout_rail option" where
  "getSettlementSummary d tenantId =
     (let balances = lv_balances (getTenantLedger d tenantId);
          openPayouts = filter (\<lambda>p. po_tenantId p = tenantId \<and> po_status p \<in> set OPEN_PAYOUT_STATUSES) (payouts d);
          scheduled = (\<Sum>p\<leftarrow>openPayouts. po_amount p)
      in (computeSettlementSummary (\<lambda>a. Some (balances a)) scheduled,
          map_option payoutRail (getActiveSettlementPolicy d tenantId)))"

section \<open>Status machine lemmas\<close>

interpretation payout_sm: ranked_status_machine payout_canTransition
  "\<lambda>s. s \<in> set payout_TERMINAL"
  "\<lambda>s. case s of PAYOUT_DRAFT \<Rightarrow> 4 | PAYOUT_SCHEDULED \<Rightarrow> 3 | PAYOUT_PENDING \<Rightarrow> 2 | PAYOUT_PROCESSING \<Rightarrow> 1 | _ \<Rightarrow> 0"
proof unfold_locales
  show "\<not> payout_canTransition s t" if "s \<in> set payout_TERMINAL" for s t
    using that by (auto simp: payout_canTransition_def payout_TERMINAL_def)
  show "\<exists>t. payout_canTransition s t" if "s \<notin> set payout_TERMINAL" for s
    using that by (cases s) (auto simp: payout_canTransition_def payout_TERMINAL_def)
  show "(case t of PAYOUT_DRAFT \<Rightarrow> 4 | PAYOUT_SCHEDULED \<Rightarrow> 3 | PAYOUT_PENDING \<Rightarrow> 2 | PAYOUT_PROCESSING \<Rightarrow> 1 | _ \<Rightarrow> 0)
    < (case s of PAYOUT_DRAFT \<Rightarrow> 4 | PAYOUT_SCHEDULED \<Rightarrow> 3 | PAYOUT_PENDING \<Rightarrow> 2 | PAYOUT_PROCESSING \<Rightarrow> 1 | _ \<Rightarrow> (0::nat))"
    if "payout_canTransition s t" for s t
    using that by (cases s; cases t) (auto simp: payout_canTransition_def)
qed

section \<open>Allocation\<close>

lemma allocate_sum:
  assumes "\<forall>r\<in>set rs. 0 \<le> le_amount r" "0 \<le> n" "n \<le> (\<Sum>r\<leftarrow>rs. le_amount r)"
  shows "(\<Sum>x\<leftarrow>allocate rs n. snd x) = n"
  using assms
proof (induction rs n rule: allocate.induct)
  case (2 en ens n)
  show ?case
  proof (cases "n \<le> 0")
    case False
    define a where "a = min (le_amount en) n"
    have "0 \<le> (\<Sum>r\<leftarrow>ens. le_amount r)" using 2(2) by (intro sum_list_nonneg_map) simp
    with 2(2-4) False have "(\<Sum>x\<leftarrow>allocate ens (n - a). snd x) = n - a"
      by (intro 2(1)) (auto simp: a_def Let_def)
    with False show ?thesis by (simp add: Let_def a_def)
  qed (use 2 in simp)
qed simp

lemma allocate_entries:
  "(x, a) \<in> set (allocate rs n) \<Longrightarrow> \<exists>r\<in>set rs. le_id r = x \<and> a \<le> le_amount r"
  by (induction rs n rule: allocate.induct) (auto simp: Let_def split: if_splits)

lemma allocate_ids: "\<exists>k. map fst (allocate rs n) = map le_id (take k rs)"
proof (induction rs n rule: allocate.induct)
  case (2 en ens n)
  show ?case
  proof (cases "n \<le> 0")
    case False
    with 2 [OF False refl] obtain k where
      "map fst (allocate ens (n - min (le_amount en) n)) = map le_id (take k ens)" by auto
    with False show ?thesis by (intro exI [of _ "Suc k"]) (simp add: Let_def)
  qed (auto intro: exI [of _ 0])
qed simp

lemma create_items_fields [simp]:
  "map pi_ledgerEntryId (create_items e p xs n) = map fst xs"
  "map pi_amount (create_items e p xs n) = map snd xs"
  "length (create_items e p xs n) = length xs"
  by (induction e p xs n rule: create_items.induct) auto

lemma create_items_payout: "i \<in> set (create_items e p xs n) \<Longrightarrow> pi_payoutId i = p \<and> (pi_ledgerEntryId i, pi_amount i) \<in> set xs"
  by (induction e p xs n rule: create_items.induct) auto

section \<open>The reservation invariant\<close>

lemma sum_list_sort_key: "(\<Sum>x\<leftarrow>sort_key k xs. f x) = (\<Sum>x\<leftarrow>xs. f x :: int)"
proof -
  have "sum_mset (image_mset f (mset (sort_key k xs))) = sum_mset (image_mset f (mset xs))" by simp
  then show ?thesis by (metis mset_map sum_mset_sum_list)
qed

definition credits_of :: "db \<Rightarrow> string \<Rightarrow> currency \<Rightarrow> ledger_entry list" where
  "credits_of d t c = filter (\<lambda>r. le_tenantId r = t \<and> le_account r = AVAILABLE \<and> le_direction r = CREDIT \<and> le_currency r = c)
     (ledgerEntries d)"

definition reserved :: "db \<Rightarrow> string \<Rightarrow> currency \<Rightarrow> centimes" where
  "reserved d t c = (\<Sum>r\<leftarrow>filter (is_reserved d) (credits_of d t c). le_amount r)"

definition payout_debits :: "ledger_entry list \<Rightarrow> string \<Rightarrow> currency \<Rightarrow> centimes" where
  "payout_debits rs t c =
     (\<Sum>r\<leftarrow>filter (\<lambda>r. le_tenantId r = t \<and> le_account r = AVAILABLE \<and> le_direction r = DEBIT \<and> le_currency r = c \<and>
        le_category r = PAYOUT) rs. le_amount r)"

lemma unpaid_credits_sum:
  "(\<Sum>r\<leftarrow>unpaid_credits d t c. le_amount r) + reserved d t c = (\<Sum>r\<leftarrow>credits_of d t c. le_amount r)"
proof -
  have "(\<Sum>r\<leftarrow>unpaid_credits d t c. le_amount r) = (\<Sum>r\<leftarrow>filter (\<lambda>r. \<not> is_reserved d r) (credits_of d t c). le_amount r)"
    unfolding unpaid_credits_def sum_list_sort_key credits_of_def filter_filter by (simp add: conj_ac)
  then show ?thesis
    using sum_list_filter_split [of le_amount "credits_of d t c" "is_reserved d"] by (simp add: reserved_def)
qed

lemma available_split:
  "accountBalanceCents d t AVAILABLE c =
     (\<Sum>r\<leftarrow>unpaid_credits d t c. le_amount r) + reserved d t c
     - (\<Sum>r\<leftarrow>other_debits d t c. le_amount r) - payout_debits (ledgerEntries d) t c"
proof -
  let ?R = "filter (\<lambda>r. le_tenantId r = t \<and> le_account r = AVAILABLE \<and> le_currency r = c) (ledgerEntries d)"
  have cr: "filter (\<lambda>r. le_direction r = CREDIT) ?R = credits_of d t c"
    unfolding credits_of_def filter_filter by (rule filter_cong) auto
  have db: "(\<Sum>r\<leftarrow>filter (\<lambda>r. le_direction r = DEBIT) ?R. le_amount r) =
      payout_debits (ledgerEntries d) t c + (\<Sum>r\<leftarrow>other_debits d t c. le_amount r)"
    unfolding payout_debits_def other_debits_def sum_list_filter_if sum_list_addf [symmetric]
    by (intro arg_cong [where f = sum_list] map_cong) auto
  show ?thesis
    using unpaid_credits_sum [of d t c] db unfolding accountBalanceCents_def Let_def cr by linarith
qed

definition live :: "payout \<Rightarrow> bool" where
  "live p \<longleftrightarrow> po_status p \<noteq> PAYOUT_FAILED \<and> po_status p \<noteq> PAYOUT_CANCELLED"

definition live_total :: "payout list \<Rightarrow> string \<Rightarrow> currency \<Rightarrow> centimes" where
  "live_total ps t c = (\<Sum>p\<leftarrow>filter (\<lambda>p. live p \<and> po_tenantId p = t \<and> po_currency p = c) ps. po_amount p)"

definition paid_total :: "payout list \<Rightarrow> string \<Rightarrow> currency \<Rightarrow> centimes" where
  "paid_total ps t c = (\<Sum>p\<leftarrow>filter (\<lambda>p. po_status p = PAYOUT_PAID \<and> po_tenantId p = t \<and> po_currency p = c) ps. po_amount p)"

definition open_total :: "payout list \<Rightarrow> string \<Rightarrow> currency \<Rightarrow> centimes" where
  "open_total ps t c =
     (\<Sum>p\<leftarrow>filter (\<lambda>p. po_status p \<in> set OPEN_PAYOUT_STATUSES \<and> po_tenantId p = t \<and> po_currency p = c) ps. po_amount p)"

lemma live_open_paid: "live_total ps t c = open_total ps t c + paid_total ps t c"
  unfolding live_total_def open_total_def paid_total_def sum_list_filter_if
proof (induction ps)
  case (Cons p ps)
  then show ?case
    by (cases "po_status p") (simp_all add: live_def OPEN_PAYOUT_STATUSES_def)
qed simp

text \<open>
  An item reserves a credit of the payout's tenant and currency for a payout that is neither failed nor cancelled, a credit
  is reserved once, the items of such a payout add up to its amount, and the PAYOUT debits of the ledger are the paid payouts.
\<close>

definition item_ok :: "db \<Rightarrow> payout_item \<Rightarrow> bool" where
  "item_ok d i \<longleftrightarrow>
     (\<exists>p\<in>set (payouts d). pi_payoutId i = po_id p \<and> live p \<and>
        (\<exists>r\<in>set (credits_of d (po_tenantId p) (po_currency p)). le_id r = pi_ledgerEntryId i \<and> pi_amount i \<le> le_amount r))"

definition payout_inv :: "db \<Rightarrow> bool" where
  "payout_inv d \<longleftrightarrow>
     distinct (map pi_ledgerEntryId (payoutItems d)) \<and> distinct (map po_id (payouts d)) \<and>
     (\<forall>i\<in>set (payoutItems d). item_ok d i) \<and>
     (\<forall>p\<in>set (payouts d). live p \<longrightarrow> (\<Sum>i\<leftarrow>payout_items_of d (po_id p). pi_amount i) = po_amount p) \<and>
     (\<forall>r\<in>set (ledgerEntries d). 0 \<le> le_amount r) \<and>
     (\<forall>t c. payout_debits (ledgerEntries d) t c = paid_total (payouts d) t c)"

lemma sum_set_le_sum_list:
  "(\<And>x. x \<in> set xs \<Longrightarrow> 0 \<le> f x) \<Longrightarrow> sum f (set xs) \<le> (\<Sum>x\<leftarrow>xs. f x :: int)"
proof (induction xs)
  case (Cons x xs)
  then have "sum f (set xs) \<le> (\<Sum>x\<leftarrow>xs. f x)" "0 \<le> f x" by auto
  then show ?case by (cases "x \<in> set xs") (auto simp: insert_absorb)
qed simp

lemma live_le_reserved:
  assumes inv: "payout_inv d"
  shows "live_total (payouts d) t c \<le> reserved d t c"
proof -
  define P where "P = {p \<in> set (payouts d). live p \<and> po_tenantId p = t \<and> po_currency p = c}"
  define I where "I = (\<lambda>p :: payout. {i \<in> set (payoutItems d). pi_payoutId i = po_id p})"
  have dp: "distinct (payouts d)" "inj_on po_id (set (payouts d))"
    and di: "distinct (payoutItems d)" "inj_on pi_ledgerEntryId (set (payoutItems d))"
    using inv by (auto simp: payout_inv_def distinct_map)
  have "po_amount p = sum pi_amount (I p)" if "p \<in> P" for p
    using inv that di(1) unfolding payout_inv_def P_def I_def
    by (simp add: payout_items_of_def sum_list_distinct_conv_sum_set)
  then have "live_total (payouts d) t c = (\<Sum>p\<in>P. sum pi_amount (I p))"
    unfolding live_total_def using dp(1) by (simp add: sum_list_distinct_conv_sum_set P_def)
  also have "\<dots> = sum pi_amount (\<Union>p\<in>P. I p)"
    using dp(2) by (intro sum.UNION_disjoint [symmetric]) (auto simp: P_def I_def dest: inj_onD)
  also have "\<dots> \<le> reserved d t c"
  proof -
    have "\<exists>r. r \<in> set (credits_of d t c) \<and> le_id r = pi_ledgerEntryId i \<and> pi_amount i \<le> le_amount r"
      if "i \<in> (\<Union>p\<in>P. I p)" for i
    proof -
      from that obtain p where p: "p \<in> P" "i \<in> I p" by blast
      then have "item_ok d i" using inv by (auto simp: payout_inv_def I_def)
      then obtain q r where q: "q \<in> set (payouts d)" "pi_payoutId i = po_id q"
        "r \<in> set (credits_of d (po_tenantId q) (po_currency q))" "le_id r = pi_ledgerEntryId i" "pi_amount i \<le> le_amount r"
        unfolding item_ok_def by blast
      with p dp(2) have "q = p" by (auto simp: P_def I_def dest: inj_onD)
      with p q show ?thesis by (auto simp: P_def)
    qed
    then obtain f where f: "\<And>i. i \<in> (\<Union>p\<in>P. I p) \<Longrightarrow>
        f i \<in> set (credits_of d t c) \<and> le_id (f i) = pi_ledgerEntryId i \<and> pi_amount i \<le> le_amount (f i)" by metis
    have inj: "inj_on f (\<Union>p\<in>P. I p)"
    proof (rule inj_onI)
      fix x y assume xy: "x \<in> (\<Union>p\<in>P. I p)" "y \<in> (\<Union>p\<in>P. I p)" "f x = f y"
      then have "pi_ledgerEntryId x = pi_ledgerEntryId y" using f by metis
      with xy di(2) show "x = y" by (auto simp: I_def dest: inj_onD)
    qed
    have sub: "f ` (\<Union>p\<in>P. I p) \<subseteq> set (filter (is_reserved d) (credits_of d t c))"
      using f by (fastforce simp: is_reserved_def I_def)
    have nn: "0 \<le> le_amount r" if "r \<in> set (filter (is_reserved d) (credits_of d t c))" for r
      using that inv by (auto simp: payout_inv_def credits_of_def)
    have "sum pi_amount (\<Union>p\<in>P. I p) \<le> (\<Sum>i\<in>(\<Union>p\<in>P. I p). le_amount (f i))"
      using f by (intro sum_mono) blast
    also have "\<dots> = sum le_amount (f ` (\<Union>p\<in>P. I p))" using inj by (simp add: sum.reindex)
    also have "\<dots> \<le> sum le_amount (set (filter (is_reserved d) (credits_of d t c)))"
      using sub nn by (intro sum_mono2) auto
    also have "\<dots> \<le> reserved d t c" unfolding reserved_def by (intro sum_set_le_sum_list nn)
    finally show ?thesis .
  qed
  finally show ?thesis .
qed

text \<open>What is still payable never exceeds the AVAILABLE balance less the open payouts.\<close>

lemma payable_bound:
  assumes "payout_inv d"
  shows "(\<Sum>r\<leftarrow>unpaid_credits d t c. le_amount r) - (\<Sum>r\<leftarrow>other_debits d t c. le_amount r) + open_total (payouts d) t c
    \<le> accountBalanceCents d t AVAILABLE c"
  using live_le_reserved [OF assms, of t c] live_open_paid [of "payouts d" t c] available_split [of d t c] assms
  by (simp add: payout_inv_def)

lemma payout_invI:
  assumes "distinct (map pi_ledgerEntryId (payoutItems d))" "distinct (map po_id (payouts d))"
    "\<And>i. i \<in> set (payoutItems d) \<Longrightarrow> item_ok d i"
    "\<And>p. p \<in> set (payouts d) \<Longrightarrow> live p \<Longrightarrow> (\<Sum>i\<leftarrow>payout_items_of d (po_id p). pi_amount i) = po_amount p"
    "\<And>r. r \<in> set (ledgerEntries d) \<Longrightarrow> 0 \<le> le_amount r"
    "\<And>t c. payout_debits (ledgerEntries d) t c = paid_total (payouts d) t c"
  shows "payout_inv d"
  using assms by (simp add: payout_inv_def)

lemma payout_invD:
  assumes "payout_inv d"
  shows "distinct (map pi_ledgerEntryId (payoutItems d))" "distinct (map po_id (payouts d))"
    "i \<in> set (payoutItems d) \<Longrightarrow> item_ok d i"
    "p \<in> set (payouts d) \<Longrightarrow> live p \<Longrightarrow> (\<Sum>i\<leftarrow>payout_items_of d (po_id p). pi_amount i) = po_amount p"
    "r \<in> set (ledgerEntries d) \<Longrightarrow> 0 \<le> le_amount r"
    "payout_debits (ledgerEntries d) t c = paid_total (payouts d) t c"
  using assms by (simp_all add: payout_inv_def)

section \<open>The operations keep the invariant\<close>

lemma payout_debits_append [simp]: "payout_debits (xs @ ys) t c = payout_debits xs t c + payout_debits ys t c"
  by (simp add: payout_debits_def)

lemma payout_debits_none: "(\<forall>r\<in>set rs. le_category r \<noteq> PAYOUT) \<Longrightarrow> payout_debits rs t c = 0"
  by (induction rs) (auto simp: payout_debits_def)

lemma item_ok_grow:
  assumes "item_ok d i" "set (ledgerEntries d) \<subseteq> set (ledgerEntries d')" "set (payouts d) \<subseteq> set (payouts d')"
  shows "item_ok d' i"
  using assms unfolding item_ok_def credits_of_def set_filter by blast

lemma payout_inv_grow:
  assumes "payout_inv d" "ledgerEntries d' = ledgerEntries d @ rows" "payouts d' = payouts d" "payoutItems d' = payoutItems d"
    "\<forall>r\<in>set rows. 0 \<le> le_amount r \<and> le_category r \<noteq> PAYOUT"
  shows "payout_inv d'"
proof -
  have "item_ok d' i" if "i \<in> set (payoutItems d)" for i
    by (rule item_ok_grow [of d]) (use assms that in \<open>auto simp: payout_inv_def\<close>)
  then show ?thesis
    using assms payout_debits_none [of rows] by (auto simp: payout_inv_def payout_items_of_def)
qed

lemma legs_category:
  assumes "map leg_of_row rows = map strip legs" "\<forall>l\<in>set legs. P (category l)"
  shows "\<forall>r\<in>set rows. P (le_category r)"
proof -
  from assms(1) have "map category (map leg_of_row rows) = map category (map strip legs)" by simp
  then have "map le_category rows = map category legs" by (simp add: leg_of_row_def comp_def)
  then have "set (map le_category rows) = set (map category legs)" by simp
  with assms(2) show ?thesis by (metis (no_types, lifting) imageE imageI list.set_map)
qed

lemma payout_inv_moves:
  assumes "payout_inv d" "moves e t st si ls d = Inr d'" "\<forall>l\<in>set (pair_legs ls). category l \<noteq> PAYOUT"
  shows "payout_inv d'"
proof -
  from moves_rows [OF assms(2)] obtain rows where rows: "ledgerEntries d' = ledgerEntries d @ rows"
    "map leg_of_row rows = map strip (pair_legs ls)" "\<forall>r\<in>set rows. 0 \<le> le_amount r" by blast
  with legs_category [OF rows(2) assms(3)] show ?thesis
    using moves_frame [OF assms(2)] by (intro payout_inv_grow [OF assms(1) rows(1)]) auto
qed

definition payout_ids :: "(nat \<Rightarrow> string) \<Rightarrow> db \<Rightarrow> bool" where
  "payout_ids g d \<longleftrightarrow> ids_ok g d \<and> po_id ` set (payouts d) \<subseteq> g ` {..<seq d}"

lemma payout_ids_fresh:
  assumes "inj g" "payout_ids g d" "p \<in> set (payouts d)"
  shows "po_id p \<noteq> g (seq d)"
proof
  assume eq: "po_id p = g (seq d)"
  from assms(2,3) obtain k where "k < seq d" "po_id p = g k" unfolding payout_ids_def by blast
  with eq injD [OF assms(1), of k "seq d"] show False by simp
qed

lemma moves_seq: "moves e t st si ls d = Inr d' \<Longrightarrow> seq d \<le> seq d'"
  by (drule moves_appends) (auto simp: appends_def)

lemma payout_ids_moves:
  assumes "inj (gen e)" "payout_ids (gen e) d" "moves e t st si ls d = Inr d'"
  shows "payout_ids (gen e) d'"
proof -
  have "gen e ` {..<seq d} \<subseteq> gen e ` {..<seq d'}" using moves_seq [OF assms(3)] by (intro image_mono) auto
  moreover have "po_id ` set (payouts d) \<subseteq> gen e ` {..<seq d}" "ids_ok (gen e) d'"
    using assms(2) ids_moves [OF assms(1) _ assms(3)] by (simp_all add: payout_ids_def)
  ultimately show ?thesis by (simp add: payout_ids_def moves_frame [OF assms(3)])
qed

lemma set_unpaid: "set (unpaid_credits d t c) = {r \<in> set (credits_of d t c). \<not> is_reserved d r}"
  by (auto simp: unpaid_credits_def credits_of_def)

lemma distinct_unpaid_ids:
  assumes "distinct (map le_id (ledgerEntries d))"
  shows "distinct (map le_id (unpaid_credits d t c))"
proof -
  have "distinct (map le_id (filter P (ledgerEntries d)))" for P
    using assms by (rule distinct_map_filter)
  then have *: "distinct (filter P (ledgerEntries d)) \<and> inj_on le_id (set (filter P (ledgerEntries d)))" for P
    by (simp only: distinct_map)
  from * show ?thesis unfolding unpaid_credits_def distinct_map by (simp only: distinct_sort set_sort)
qed

lemma reserve_keeps_inv:
  assumes inv: "payout_inv d1" and ids: "inj (gen e)" "payout_ids (gen e) d1"
    and pay: "payable = (\<Sum>r\<leftarrow>unpaid_credits d1 t c. le_amount r) - (\<Sum>r\<leftarrow>other_debits d1 t c. le_amount r)" "0 < payable"
    and row: "po_id row = fresh e d1" "po_tenantId row = t" "po_currency row = c" "po_amount row = payable"
      "po_status row = PAYOUT_DRAFT"
    and items: "items = create_items e (fresh e d1) (allocate (unpaid_credits d1 t c) payable) (Suc (seq d1))"
    and d': "d' = d1\<lparr>seq := Suc (seq d1) + length items, payouts := payouts d1 @ [row], payoutItems := payoutItems d1 @ items\<rparr>"
  shows "payout_inv d' \<and> (\<Sum>i\<leftarrow>items. pi_amount i) = payable"
proof -
  let ?al = "allocate (unpaid_credits d1 t c) payable"
  have unpaid: "r \<in> set (credits_of d1 t c)" "\<not> is_reserved d1 r" "0 \<le> le_amount r" if "r \<in> set (unpaid_credits d1 t c)" for r
    using that inv by (auto simp: set_unpaid payout_inv_def credits_of_def)
  have "0 \<le> (\<Sum>r\<leftarrow>other_debits d1 t c. le_amount r)"
    using inv by (intro sum_list_nonneg_map) (auto simp: other_debits_def payout_inv_def)
  then have "(\<Sum>x\<leftarrow>?al. snd x) = payable" using pay unpaid(3) by (intro allocate_sum) auto
  then have total: "(\<Sum>i\<leftarrow>items. pi_amount i) = payable" unfolding items create_items_fields .
  have new: "po_id p \<noteq> fresh e d1" if "p \<in> set (payouts d1)" for p
    using payout_ids_fresh [OF ids that] by (simp add: fresh_def)
  have old_items: "pi_payoutId i \<noteq> fresh e d1" if "i \<in> set (payoutItems d1)" for i
    using that inv new by (auto simp: payout_inv_def item_ok_def)
  have entry: "\<exists>r\<in>set (unpaid_credits d1 t c). le_id r = pi_ledgerEntryId i \<and> pi_amount i \<le> le_amount r"
    if "i \<in> set items" for i
    using that create_items_payout [of i] allocate_entries unfolding items by blast
  have ok: "item_ok d' i" if "i \<in> set items" for i
    using entry [OF that] unpaid(1) row that create_items_payout [of i]
    unfolding item_ok_def d' items by (fastforce simp: live_def credits_of_def)
  have okold: "item_ok d' i" if "i \<in> set (payoutItems d1)" for i
    by (rule item_ok_grow [of d1]) (use that inv in \<open>auto simp: payout_inv_def d'\<close>)
  obtain k where k: "map fst ?al = map le_id (take k (unpaid_credits d1 t c))" using allocate_ids by blast
  have "distinct (map fst ?al)"
    using distinct_unpaid_ids [of d1 t c] ids(2) distinct_take [of "map le_id (unpaid_credits d1 t c)" k]
    unfolding k by (simp add: payout_ids_def ids_ok_def take_map)
  moreover have "pi_ledgerEntryId i \<noteq> pi_ledgerEntryId j" if "i \<in> set (payoutItems d1)" "j \<in> set items" for i j
  proof -
    from entry [OF that(2)] obtain r where r: "r \<in> set (unpaid_credits d1 t c)" "le_id r = pi_ledgerEntryId j" by blast
    from unpaid(2) [OF r(1)] that(1) r(2) show ?thesis unfolding is_reserved_def by metis
  qed
  ultimately have dist: "distinct (map pi_ledgerEntryId (payoutItems d1 @ items))"
    using inv unfolding items by (auto simp: payout_inv_def simp del: create_items_fields simp flip: items)
      (metis create_items_fields(1) items)
  have payout_of: "pi_payoutId i = fresh e d1" if "i \<in> set items" for i
    using that create_items_payout unfolding items by blast
  have sum_old: "payout_items_of d' (po_id p) = payout_items_of d1 (po_id p)" if "p \<in> set (payouts d1)" for p
  proof -
    have "filter (\<lambda>i. pi_payoutId i = po_id p) items = []"
      using new [OF that] payout_of by (auto simp: filter_empty_conv)
    then show ?thesis by (simp add: payout_items_of_def d')
  qed
  have sum_new: "payout_items_of d' (po_id row) = items"
  proof -
    have "filter (\<lambda>i. pi_payoutId i = fresh e d1) items = items"
      "filter (\<lambda>i. pi_payoutId i = fresh e d1) (payoutItems d1) = []"
      using old_items payout_of by (auto simp: filter_empty_conv filter_id_conv)
    then show ?thesis by (simp add: payout_items_of_def d' row(1))
  qed
  have notin: "fresh e d1 \<notin> po_id ` set (payouts d1)" using new by (metis imageE)
  have "payout_inv d'"
  proof (rule payout_invI)
    show "distinct (map pi_ledgerEntryId (payoutItems d'))" using dist by (simp add: d')
    show "distinct (map po_id (payouts d'))" using notin payout_invD(2) [OF inv] by (simp add: d' row(1))
    show "item_ok d' i" if "i \<in> set (payoutItems d')" for i
      using that ok [of i] okold [of i] unfolding d' by auto
    show "(\<Sum>i\<leftarrow>payout_items_of d' (po_id p). pi_amount i) = po_amount p" if "p \<in> set (payouts d')" "live p" for p
    proof (cases "p \<in> set (payouts d1)")
      case True
      with payout_invD(4) [OF inv True that(2)] sum_old show ?thesis by simp
    next
      case False
      with that(1) have "p = row" by (simp add: d')
      with sum_new total row(4) show ?thesis by simp
    qed
    show "0 \<le> le_amount r" if "r \<in> set (ledgerEntries d')" for r
      using that payout_invD(5) [OF inv] by (simp add: d')
    show "payout_debits (ledgerEntries d') u x = paid_total (payouts d') u x" for u x
      using payout_invD(6) [OF inv, of u x] row(5) by (simp add: d' paid_total_def)
  qed
  with total show ?thesis by blast
qed

lemma set_payout_fields [simp]:
  "ledgerEntries (set_payout i s d) = ledgerEntries d" "payoutItems (set_payout i s d) = payoutItems d"
  "ledgerEntries (release_items i d) = ledgerEntries d" "payouts (release_items i d) = payouts d"
  "payoutItems (release_items i d) = filter (\<lambda>x. pi_payoutId x \<noteq> i) (payoutItems d)"
  by (simp_all add: set_payout_def release_items_def)

text \<open>Releasing the items of a payout that was not paid, and marking it dead, keeps the invariant.\<close>

lemma release_keeps_inv:
  assumes inv: "payout_inv d" and p: "find (\<lambda>p. po_id p = i \<and> po_tenantId p = t) (payouts d) = Some p"
    "po_status p \<noteq> PAYOUT_PAID" and s: "s = PAYOUT_FAILED \<or> s = PAYOUT_CANCELLED"
  shows "payout_inv (set_payout i s (release_items i d))"
proof -
  let ?d' = "set_payout i s (release_items i d)"
  let ?f = "\<lambda>q. if po_id q = i then q\<lparr>po_status := s\<rparr> else q"
  have pm: "p \<in> set (payouts d)" "po_id p = i" using find_SomeD [OF p(1)] by simp_all
  have uniq: "q = p" if "q \<in> set (payouts d)" "po_id q = i" for q
    using inv that pm by (auto simp: payout_inv_def distinct_map dest: inj_onD)
  have ps: "payouts ?d' = map ?f (payouts d)" by (simp add: set_payout_def)
  have ok: "item_ok ?d' x" if "x \<in> set (payoutItems d)" "pi_payoutId x \<noteq> i" for x
  proof -
    from that(1) inv have "item_ok d x" by (simp add: payout_inv_def)
    then obtain q where q: "q \<in> set (payouts d)" "pi_payoutId x = po_id q" "live q"
      "\<exists>r\<in>set (credits_of d (po_tenantId q) (po_currency q)). le_id r = pi_ledgerEntryId x \<and> pi_amount x \<le> le_amount r"
      unfolding item_ok_def by blast
    with that(2) have "q \<in> set (payouts ?d')" unfolding ps by force
    with q show ?thesis unfolding item_ok_def by (auto simp: credits_of_def)
  qed
  have same: "payout_items_of ?d' j = payout_items_of d j" if "j \<noteq> i" for j
    using that unfolding payout_items_of_def by (auto simp: filter_filter intro!: filter_cong)
  have paid: "paid_total (payouts ?d') u c = paid_total (payouts d) u c" for u c
    unfolding paid_total_def ps sum_list_filter_if map_map
    using uniq p(2) s by (intro arg_cong [where f = sum_list] map_cong) auto
  have dead: "\<not> live (q\<lparr>po_status := s\<rparr>)" for q using s by (auto simp: live_def)
  show ?thesis
  proof (rule payout_invI)
    show "distinct (map pi_ledgerEntryId (payoutItems ?d'))"
      using payout_invD(1) [OF inv] by (simp add: distinct_map_filter)
    have "map po_id (payouts ?d') = map po_id (payouts d)" unfolding ps by simp
    then show "distinct (map po_id (payouts ?d'))" using payout_invD(2) [OF inv] by (simp only:)
    show "item_ok ?d' x" if "x \<in> set (payoutItems ?d')" for x using that ok by simp
    show "(\<Sum>x\<leftarrow>payout_items_of ?d' (po_id q). pi_amount x) = po_amount q"
      if "q \<in> set (payouts ?d')" "live q" for q
    proof -
      from that(1) obtain q0 where q0: "q0 \<in> set (payouts d)" "q = ?f q0" unfolding ps set_map by blast
      with that(2) dead have "po_id q0 \<noteq> i" by auto
      with q0 have "q \<in> set (payouts d)" "po_id q \<noteq> i" by simp_all
      with payout_invD(4) [OF inv _ that(2)] same show ?thesis by simp
    qed
    show "0 \<le> le_amount r" if "r \<in> set (ledgerEntries ?d')" for r using that payout_invD(5) [OF inv] by simp
    show "payout_debits (ledgerEntries ?d') u c = paid_total (payouts ?d') u c" for u c
      using payout_invD(6) [OF inv] paid by simp
  qed
qed

lemma paid_keeps_inv:
  assumes inv: "payout_inv d" and p: "find (\<lambda>p. po_id p = i \<and> po_tenantId p = t) (payouts d) = Some p"
    "live p" "po_status p \<noteq> PAYOUT_PAID"
    and m: "move e t (Some ''payout'') (Some i) (debit AVAILABLE (po_amount p) PAYOUT None (po_currency p),
        credit PAID_OUT (po_amount p) PAYOUT None (po_currency p)) d = Inr d1"
    and d': "d' = d1\<lparr>payouts := map (\<lambda>q. if po_id q = i
        then q\<lparr>po_status := PAYOUT_PAID, po_providerTransferId := x\<rparr> else q) (payouts d1)\<rparr>"
  shows "payout_inv d'"
proof -
  let ?f = "\<lambda>q. if po_id q = i then q\<lparr>po_status := PAYOUT_PAID, po_providerTransferId := x\<rparr> else q"
  have pm: "p \<in> set (payouts d)" "po_id p = i" "po_tenantId p = t" using find_SomeD [OF p(1)] by simp_all
  have uniq: "q = p" if "q \<in> set (payouts d)" "po_id q = i" for q
    using inv that pm by (auto simp: payout_inv_def distinct_map dest: inj_onD)
  from m have "moves e t (Some ''payout'') (Some i) [(debit AVAILABLE (po_amount p) PAYOUT None (po_currency p),
        credit PAID_OUT (po_amount p) PAYOUT None (po_currency p))] d = Inr d1" by (simp add: moves_def)
  note fr = moves_frame [OF this] and rw = moves_rows [OF this]
  from rw obtain r r' where rows: "ledgerEntries d1 = ledgerEntries d @ [r, r']" "0 \<le> le_amount r" "0 \<le> le_amount r'"
    "leg_of_row r = strip (debit AVAILABLE (po_amount p) PAYOUT None (po_currency p))"
    "leg_of_row r' = strip (credit PAID_OUT (po_amount p) PAYOUT None (po_currency p))" "le_tenantId r = t"
    by (auto simp: map_eq_Cons_conv)
  have ps: "payouts d' = map ?f (payouts d)" and es: "ledgerEntries d' = ledgerEntries d @ [r, r']"
    and its: "payoutItems d' = payoutItems d" using fr rows(1) by (simp_all add: d')
  have fl: "live (?f q) = live q" if "q \<in> set (payouts d)" for q
    using uniq [OF that] p(2) by (auto simp: live_def)
  have deb: "payout_debits [r, r'] u c = (if u = t \<and> c = po_currency p then po_amount p else 0)" for u c
    using leg_of_row_eq [OF rows(4)] leg_of_row_eq [OF rows(5)] rows(6) by (simp add: payout_debits_def)
  have "distinct (payouts d)" using inv by (simp add: payout_inv_def distinct_map)
  then have tot: "paid_total (payouts d') u c = paid_total (payouts d) u c + (if u = t \<and> c = po_currency p then po_amount p else 0)"
    for u c using pm(1)
  proof -
    have "(\<Sum>q\<leftarrow>map ?f (payouts d). if po_status q = PAYOUT_PAID \<and> po_tenantId q = u \<and> po_currency q = c then po_amount q else 0)
      = (\<Sum>q\<leftarrow>payouts d. (if po_status q = PAYOUT_PAID \<and> po_tenantId q = u \<and> po_currency q = c then po_amount q else 0)
          + (if q = p then (if u = t \<and> c = po_currency p then po_amount p else 0) else 0))"
      unfolding map_map
    proof (intro arg_cong [where f = sum_list] map_cong refl)
      fix q assume "q \<in> set (payouts d)"
      then show "((\<lambda>q. if po_status q = PAYOUT_PAID \<and> po_tenantId q = u \<and> po_currency q = c then po_amount q else 0) \<circ> ?f) q =
          (if po_status q = PAYOUT_PAID \<and> po_tenantId q = u \<and> po_currency q = c then po_amount q else 0)
          + (if q = p then (if u = t \<and> c = po_currency p then po_amount p else 0) else 0)"
        using uniq [of q] p(3) pm by (cases "po_id q = i") auto
    qed
    also have "\<dots> = (\<Sum>q\<leftarrow>payouts d. if po_status q = PAYOUT_PAID \<and> po_tenantId q = u \<and> po_currency q = c then po_amount q else 0)
          + (\<Sum>q\<leftarrow>payouts d. if q = p then (if u = t \<and> c = po_currency p then po_amount p else 0) else 0)"
      by (rule sum_list_addf)
    also have "(\<Sum>q\<leftarrow>payouts d. if q = p then (if u = t \<and> c = po_currency p then po_amount p else 0) else 0)
        = (if u = t \<and> c = po_currency p then po_amount p else 0)"
      using \<open>distinct (payouts d)\<close> pm(1) by (simp add: sum_list_distinct_conv_sum_set)
    finally show ?thesis unfolding paid_total_def ps sum_list_filter_if .
  qed
  have ok: "item_ok d' y" if "y \<in> set (payoutItems d)" for y
  proof -
    from that inv have "item_ok d y" by (simp add: payout_inv_def)
    then obtain q where q: "q \<in> set (payouts d)" "pi_payoutId y = po_id q" "live q"
      "\<exists>r\<in>set (credits_of d (po_tenantId q) (po_currency q)). le_id r = pi_ledgerEntryId y \<and> pi_amount y \<le> le_amount r"
      unfolding item_ok_def by blast
    have "?f q \<in> set (payouts d')" using q(1) unfolding ps by simp
    moreover have "po_id (?f q) = po_id q" "live (?f q)" "po_tenantId (?f q) = po_tenantId q" "po_currency (?f q) = po_currency q"
      using fl [OF q(1)] q(3) by auto
    ultimately show ?thesis using q(2,4) es unfolding item_ok_def by (intro bexI [of _ "?f q"]) (auto simp: credits_of_def)
  qed
  show ?thesis
  proof (rule payout_invI)
    show "distinct (map pi_ledgerEntryId (payoutItems d'))" using payout_invD(1) [OF inv] by (simp add: its)
    have "map po_id (payouts d') = map po_id (payouts d)" unfolding ps by simp
    then show "distinct (map po_id (payouts d'))" using payout_invD(2) [OF inv] by (simp only:)
    show "item_ok d' y" if "y \<in> set (payoutItems d')" for y using that ok by (simp add: its)
    show "(\<Sum>x\<leftarrow>payout_items_of d' (po_id q). pi_amount x) = po_amount q"
      if "q \<in> set (payouts d')" "live q" for q
    proof -
      from that(1) obtain q0 where q0: "q0 \<in> set (payouts d)" "q = ?f q0" unfolding ps set_map by blast
      then have "po_id q = po_id q0" "po_amount q = po_amount q0" by simp_all
      moreover have "live q0" using fl [OF q0(1)] that(2) q0(2) by simp
      ultimately show ?thesis using payout_invD(4) [OF inv q0(1)] by (simp add: payout_items_of_def its)
    qed
    show "0 \<le> le_amount z" if "z \<in> set (ledgerEntries d')" for z
      using that payout_invD(5) [OF inv] rows(2,3) by (auto simp: es)
    show "payout_debits (ledgerEntries d') u c = paid_total (payouts d') u c" for u c
      using payout_invD(6) [OF inv, of u c] tot deb by (simp add: es)
  qed
qed

lemma createPayout_run:
  assumes "createPayout fxp e t key prov m d = Inr ((p, items), d')"
    "find (\<lambda>p. po_tenantId p = t \<and> po_idempotencyKey p = key) (payouts d) = None"
    "\<forall>c. 0 \<le> getRate fxp c (settlement_currency_of d t)"
  defines "c \<equiv> settlement_currency_of d t"
  shows "\<exists>d1 ls. moves e t (Some FX_CONVERSION_SOURCE_TYPE) None ls d = Inr d1 \<and>
    (\<forall>l\<in>set (pair_legs ls). category l = ADJUSTMENT) \<and>
    po_amount p = (\<Sum>r\<leftarrow>unpaid_credits d1 t c. le_amount r) - (\<Sum>r\<leftarrow>other_debits d1 t c. le_amount r) \<and> 0 < po_amount p \<and>
    po_id p = fresh e d1 \<and> po_tenantId p = t \<and> po_currency p = c \<and> po_status p = PAYOUT_DRAFT \<and> po_idempotencyKey p = key \<and>
    items = create_items e (fresh e d1) (allocate (unpaid_credits d1 t c) (po_amount p)) (Suc (seq d1)) \<and>
    d' = d1\<lparr>seq := Suc (seq d1) + length items, payouts := payouts d1 @ [p], payoutItems := payoutItems d1 @ items\<rparr>"
proof -
  obtain rows d1 ls where conv: "convertForeignBalancesToSettlement fxp e t c d = Inr (rows, d1)"
    and m: "moves e t (Some FX_CONVERSION_SOURCE_TYPE) None ls d = Inr d1" "\<forall>l\<in>set (pair_legs ls). category l = ADJUSTMENT"
    using convert_run [of fxp c e t d] assms(3) unfolding c_def by blast
  from assms(1) show ?thesis
    unfolding createPayout_def assms(2) using conv m
    by (intro exI [of _ d1] exI [of _ ls]) (auto simp: c_def [symmetric] Let_def split: if_splits)
qed

lemma covered_inv:
  assumes "payout_inv d" "inj (gen e)" "payout_ids (gen e) d"
    "\<forall>c. 0 \<le> getRate fxp c (settlement_currency_of d t)"
    "find (\<lambda>p. po_tenantId p = t \<and> po_idempotencyKey p = key) (payouts d) = None"
    "createPayout fxp e t key prov m d = Inr ((p, items), d')"
  shows "payout_inv d' \<and> (\<Sum>i\<leftarrow>items. pi_amount i) = po_amount p \<and> payout_ids (gen e) d' \<and>
    payoutItems d' = payoutItems d @ items \<and> payouts d' = payouts d @ [p] \<and> 0 < po_amount p \<and> po_status p = PAYOUT_DRAFT \<and>
    po_currency p = settlement_currency_of d t \<and>
    po_amount p + open_total (payouts d) t (po_currency p) \<le> accountBalanceCents d' t AVAILABLE (po_currency p)"
proof -
  obtain d1 ls where m: "moves e t (Some FX_CONVERSION_SOURCE_TYPE) None ls d = Inr d1" "\<forall>l\<in>set (pair_legs ls). category l = ADJUSTMENT"
    and p: "po_amount p = (\<Sum>r\<leftarrow>unpaid_credits d1 t (settlement_currency_of d t). le_amount r)
        - (\<Sum>r\<leftarrow>other_debits d1 t (settlement_currency_of d t). le_amount r)" "0 < po_amount p"
      "po_id p = fresh e d1" "po_tenantId p = t" "po_currency p = settlement_currency_of d t" "po_status p = PAYOUT_DRAFT"
    and items: "items = create_items e (fresh e d1)
        (allocate (unpaid_credits d1 t (settlement_currency_of d t)) (po_amount p)) (Suc (seq d1))"
    and d': "d' = d1\<lparr>seq := Suc (seq d1) + length items, payouts := payouts d1 @ [p], payoutItems := payoutItems d1 @ items\<rparr>"
    using createPayout_run [OF assms(6,5,4)] by (elim exE conjE) (rule that)
  have inv1: "payout_inv d1" using m(2) by (intro payout_inv_moves [OF assms(1) m(1)]) auto
  have ids1: "payout_ids (gen e) d1" by (rule payout_ids_moves [OF assms(2,3) m(1)])
  have inv': "payout_inv d'" "(\<Sum>i\<leftarrow>items. pi_amount i) = po_amount p"
    using reserve_keeps_inv [OF inv1 assms(2) ids1 p(1,2,3,4,5) refl p(6) items d'] by blast+
  have "po_amount p + open_total (payouts d1) t (po_currency p) \<le> accountBalanceCents d1 t AVAILABLE (po_currency p)"
    using payable_bound [OF inv1, of t "po_currency p"] p(1,5) by simp
  moreover have "ids_ok (gen e) d'"
    using ids1 ids_seq [of "gen e" d1 "Suc (seq d1) + length items"] by (simp add: d' payout_ids_def)
  moreover have "po_id ` set (payouts d') \<subseteq> gen e ` {..<seq d'}"
  proof -
    have "gen e ` {..<seq d1} \<subseteq> gen e ` {..<seq d'}" "fresh e d1 \<in> gen e ` {..<seq d'}"
      by (auto simp: d' fresh_def)
    with ids1 show ?thesis by (auto simp: payout_ids_def d' p(3))
  qed
  ultimately show ?thesis
    using inv' p moves_frame [OF m(1)] by (simp add: d' payout_ids_def)
qed

text \<open>A tenant with one available credit of 1000 centimes.\<close>

definition demo_entry :: "nat \<Rightarrow> ledger_account \<Rightarrow> ledger_direction \<Rightarrow> ledger_category \<Rightarrow> centimes \<Rightarrow> ledger_entry" where
  "demo_entry k a dir cat n =
     \<lparr>le_id = gen demo_env k, le_postingId = ''p'', le_tenantId = ''t1'', le_account = a, le_direction = dir,
      le_category = cat, le_amount = n, le_currency = MAD, le_balanceAfter = n, le_sourceType = None,
      le_sourceId = None, le_partyId = None, le_createdAt = int k\<rparr>"

definition funded_db :: db where
  "funded_db = empty_db\<lparr>seq := 3, ledgerEntries :=
     [demo_entry 1 COLLECTED DEBIT CAPTURE 1000, demo_entry 2 AVAILABLE CREDIT CAPTURE 1000]\<rparr>"

lemma demo_gen_eq [simp]: "gen demo_env i = gen demo_env j \<longleftrightarrow> i = j"
  using demo_env_inj by (simp add: inj_eq)

lemma funded_inv: "payout_inv funded_db"
  by (rule payout_invI) (auto simp: funded_db_def empty_db_def demo_entry_def payout_debits_def paid_total_def)

lemma funded_ids: "payout_ids (gen demo_env) funded_db"
  by (auto simp: payout_ids_def ids_ok_def funded_db_def empty_db_def demo_entry_def)

lemma funded_available: "accountBalanceCents funded_db ''t1'' a c =
    (if c = MAD then (if a = AVAILABLE then 1000 else if a = COLLECTED then - 1000 else 0) else 0)"
  by (auto simp: accountBalanceCents_def funded_db_def empty_db_def demo_entry_def)

lemma funded_sweep: "convertForeignBalancesToSettlement fxp e ''t1'' MAD funded_db = Inr ([], funded_db)"
proof -
  have "efold (convert_one fxp e ''t1'' MAD) cs ([], funded_db) = Inr ([], funded_db)" for cs
    by (induction cs) (simp_all add: convert_one_skip funded_available)
  then show ?thesis by (simp add: convertForeignBalancesToSettlement_def)
qed

lemma funded_payout:
  "\<exists>p items d'. createPayout sandboxFxProvider demo_env ''t1'' ''k1'' STRIPE None funded_db = Inr ((p, items), d') \<and>
     po_amount p = 1000 \<and> find (\<lambda>q. po_id q = po_id p \<and> po_tenantId q = ''t1'') (payouts d') = Some p \<and> po_status p = PAYOUT_DRAFT \<and>
     accountBalanceCents d' ''t1'' AVAILABLE (po_currency p) = 1000"
proof -
  have c: "settlement_currency_of funded_db ''t1'' = MAD" "payouts funded_db = []" "payoutItems funded_db = []"
    by (simp_all add: settlement_currency_of_def funded_db_def empty_db_def)
  have "unpaid_credits funded_db ''t1'' MAD = [demo_entry 2 AVAILABLE CREDIT CAPTURE 1000]"
    "other_debits funded_db ''t1'' MAD = []"
    by (simp_all add: unpaid_credits_def other_debits_def is_reserved_def funded_db_def empty_db_def demo_entry_def)
  then show ?thesis
    by (simp add: createPayout_def c funded_sweep Let_def demo_entry_def funded_available)
qed

section \<open>Properties\<close>



text \<open>
  Creating a payout is idempotent: repeating the request with the same key returns the payout created first, with its items, and
  changes nothing.
\<close>

lemma createPayout_idempotent:
  assumes "createPayout fxp e t key prov m d = Inr ((p, items), d')"
    "\<forall>c. 0 \<le> getRate fxp c (settlement_currency_of d t)"
    "payout_inv d" "inj (gen e)" "payout_ids (gen e) d"
  shows "createPayout fxp' e' t key prov' m' d' = Inr ((p, items), d')"
proof (cases "find (\<lambda>p. po_tenantId p = t \<and> po_idempotencyKey p = key) (payouts d)")
  case (Some q)
  with assms(1) show ?thesis by (auto simp: createPayout_def)
next
  case None
  obtain d1 ls where m: "moves e t (Some FX_CONVERSION_SOURCE_TYPE) None ls d = Inr d1" "\<forall>l\<in>set (pair_legs ls). category l = ADJUSTMENT"
    and p: "po_id p = fresh e d1" "po_tenantId p = t" "po_idempotencyKey p = key"
    and items: "items = create_items e (fresh e d1)
        (allocate (unpaid_credits d1 t (settlement_currency_of d t)) (po_amount p)) (Suc (seq d1))"
    and d': "d' = d1\<lparr>seq := Suc (seq d1) + length items, payouts := payouts d1 @ [p], payoutItems := payoutItems d1 @ items\<rparr>"
    using createPayout_run [OF assms(1) None assms(2)] by (elim exE conjE) (rule that)
  have inv1: "payout_inv d1" using m(2) by (intro payout_inv_moves [OF assms(3) m(1)]) auto
  have new: "po_id q \<noteq> fresh e d1" if "q \<in> set (payouts d1)" for q
    using payout_ids_fresh [OF assms(4) payout_ids_moves [OF assms(4,5) m(1)] that] by (simp add: fresh_def)
  have "pi_payoutId i \<noteq> fresh e d1" if "i \<in> set (payoutItems d1)" for i
    using payout_invD(3) [OF inv1 that] new unfolding item_ok_def by metis
  then have "filter (\<lambda>i. pi_payoutId i = fresh e d1) (payoutItems d1) = []" by (auto simp: filter_empty_conv)
  moreover have "filter (\<lambda>i. pi_payoutId i = fresh e d1) items = items"
    using create_items_payout unfolding items by (auto simp: filter_id_conv)
  ultimately have its: "payout_items_of d' (po_id p) = items" by (simp add: payout_items_of_def d' p(1))
  have "find (\<lambda>p. po_tenantId p = t \<and> po_idempotencyKey p = key) (payouts d') = Some p"
    using None p(2,3) moves_frame(4) [OF m(1)] by (simp add: d' find_append)
  with its show ?thesis by (simp add: createPayout_def)
qed

text \<open>
  C30. Paying a payout. A successful \<open>markPayoutPaid\<close> moves exactly the payout's amount from AVAILABLE to PAID_OUT in its
  currency, never leaves AVAILABLE negative, keeps the ledger balanced and the reservation invariant, and the payout can neither be
  paid, failed nor cancelled afterwards.
\<close>

theorem markPayoutPaid_correct:
  assumes "markPayoutPaid e t i x d = Inr d'" "payout_inv d"
  shows "\<exists>p. find (\<lambda>p. po_id p = i \<and> po_tenantId p = t) (payouts d) = Some p \<and>
    (\<forall>a. accountBalanceCents d' t a (po_currency p) = accountBalanceCents d t a (po_currency p)
        - (if a = AVAILABLE then po_amount p else 0) + (if a = PAID_OUT then po_amount p else 0)) \<and>
    0 \<le> accountBalanceCents d' t AVAILABLE (po_currency p) \<and>
    (\<forall>u. isBalanced (tenant_legs u d) \<longrightarrow> isBalanced (tenant_legs u d')) \<and>
    payout_inv d' \<and>
    \<not> is_ok (markPayoutPaid e' t i x' d') \<and> \<not> is_ok (markPayoutFailed t i d') \<and> \<not> is_ok (cancelPayout t i d')"
proof -
  from assms(1) obtain p d1 where p: "find (\<lambda>p. po_id p = i \<and> po_tenantId p = t) (payouts d) = Some p"
      "po_status p \<notin> set payout_TERMINAL" "po_amount p \<le> accountBalanceCents d t AVAILABLE (po_currency p)"
    and m: "move e t (Some ''payout'') (Some i) (debit AVAILABLE (po_amount p) PAYOUT None (po_currency p),
        credit PAID_OUT (po_amount p) PAYOUT None (po_currency p)) d = Inr d1"
    and d': "d' = d1\<lparr>payouts := map (\<lambda>q. if po_id q = i
        then q\<lparr>po_status := PAYOUT_PAID, po_providerTransferId := x\<rparr> else q) (payouts d1)\<rparr>"
    by (auto simp: markPayoutPaid_def Let_def not_less split: option.splits if_splits)
  have eff: "ledger_effect t [debit AVAILABLE (po_amount p) PAYOUT None (po_currency p),
        credit PAID_OUT (po_amount p) PAYOUT None (po_currency p)] d d'"
    using effect_then [OF effect_move [OF m], of d'] by (simp add: d')
  have inv: "payout_inv d'"
    using p(2) by (intro paid_keeps_inv [OF assms(2) p(1) _ _ m d']) (auto simp: live_def payout_TERMINAL_def)
  let ?g = "\<lambda>q. q\<lparr>po_status := PAYOUT_PAID, po_providerTransferId := x\<rparr>"
  have "payouts d1 = payouts d" using move_frame [OF m] by auto
  then have "find (\<lambda>p. po_id p = i \<and> po_tenantId p = t) (payouts d') =
      map_option (\<lambda>q. if po_id q = i then ?g q else q) (find (\<lambda>p. po_id p = i \<and> po_tenantId p = t) (payouts d))"
    by (simp add: d' find_cong_update)
  moreover have "po_id p = i" using find_SomeD [OF p(1)] by simp
  ultimately have after: "find (\<lambda>p. po_id p = i \<and> po_tenantId p = t) (payouts d') = Some (?g p)"
    using p(1) by simp
  have stuck: "\<not> is_ok (markPayoutPaid e' t i x' d')" "\<not> is_ok (markPayoutFailed t i d')" "\<not> is_ok (cancelPayout t i d')"
    by (simp_all add: markPayoutPaid_def markPayoutFailed_def cancelPayout_def after payout_TERMINAL_def
        payout_assertTransition_def payout_canTransition_def require_def)
  have bal: "accountBalanceCents d' t a (po_currency p) = accountBalanceCents d t a (po_currency p)
        - (if a = AVAILABLE then po_amount p else 0) + (if a = PAID_OUT then po_amount p else 0)" for a
    by (simp add: effect_balance [OF eff])
  show ?thesis
    by (intro exI [of _ p] conjI allI impI)
       (simp_all add: p bal effect_balanced [OF eff] inv stuck)
qed

theorem markPayoutPaid_correct_witness:
  "\<exists>p items d1 d2. createPayout sandboxFxProvider demo_env ''t1'' ''k1'' STRIPE None funded_db = Inr ((p, items), d1) \<and>
     markPayoutPaid demo_env ''t1'' (po_id p) None d1 = Inr d2 \<and> \<not> is_ok (markPayoutPaid demo_env ''t1'' (po_id p) None d2)"
proof -
  obtain p items d1 where run: "createPayout sandboxFxProvider demo_env ''t1'' ''k1'' STRIPE None funded_db = Inr ((p, items), d1)"
      "po_amount p = 1000" "find (\<lambda>q. po_id q = po_id p \<and> po_tenantId q = ''t1'') (payouts d1) = Some p" "po_status p = PAYOUT_DRAFT"
      "accountBalanceCents d1 ''t1'' AVAILABLE (po_currency p) = 1000"
    using funded_payout by blast
  have "find (\<lambda>p. po_tenantId p = ''t1'' \<and> po_idempotencyKey p = ''k1'') (payouts funded_db) = None"
    by (simp add: funded_db_def empty_db_def)
  then have inv: "payout_inv d1"
    using covered_inv [OF funded_inv demo_env_inj funded_ids _ _ run(1)] sandbox_rates by blast
  obtain d2 where m: "move demo_env ''t1'' (Some ''payout'') (Some (po_id p)) (debit AVAILABLE (po_amount p) PAYOUT None (po_currency p),
        credit PAID_OUT (po_amount p) PAYOUT None (po_currency p)) d1 = Inr d2"
    using moves_ok [of "[(debit AVAILABLE (po_amount p) PAYOUT None (po_currency p),
        credit PAID_OUT (po_amount p) PAYOUT None (po_currency p))]" "Some ''payout''" "Some (po_id p)" demo_env "''t1''" d1] run(2)
    by (auto simp: moves_def to_posting_def)
  then obtain d3 where paid: "markPayoutPaid demo_env ''t1'' (po_id p) None d1 = Inr d3"
    using run by (simp add: markPayoutPaid_def payout_TERMINAL_def Let_def)
  from markPayoutPaid_correct [OF paid inv, of demo_env None] run(1) paid show ?thesis by blast
qed

text \<open>
  Cancelling or failing a payout is refused once it was paid, failed or cancelled; otherwise it touches no ledger row, releases every
  credit the payout had reserved, so that the credits count as unpaid again, and keeps the invariant.
\<close>

lemma cancel_fail_release:
  assumes "cancelPayout t i d = Inr d' \<or> markPayoutFailed t i d = Inr d'" "payout_inv d"
  shows "ledgerEntries d' = ledgerEntries d \<and> payout_items_of d' i = [] \<and> payout_inv d' \<and>
    (\<forall>r\<in>set (ledgerEntries d). is_reserved d' r \<longleftrightarrow>
       (\<exists>x\<in>set (payoutItems d). pi_ledgerEntryId x = le_id r \<and> pi_payoutId x \<noteq> i)) \<and>
    (\<exists>p\<in>set (payouts d). po_id p = i \<and> po_tenantId p = t \<and> po_status p \<notin> set payout_TERMINAL)"
proof -
  from assms(1) obtain p s where p: "find (\<lambda>p. po_id p = i \<and> po_tenantId p = t) (payouts d) = Some p"
    and s: "s = PAYOUT_FAILED \<or> s = PAYOUT_CANCELLED" "po_status p \<notin> set payout_TERMINAL"
    and d': "d' = set_payout i s (release_items i d)"
    using payout_sm.terminal_iff_stuck
    by (auto simp: cancelPayout_def markPayoutFailed_def payout_assertTransition_def split: option.splits if_splits)
  have "payout_inv d'"
    unfolding d' using s by (intro release_keeps_inv [OF assms(2) p]) (auto simp: payout_TERMINAL_def)
  with find_SomeD [OF p] s(2) show ?thesis
    by (auto simp: d' payout_items_of_def is_reserved_def filter_empty_conv)
qed

text \<open>
  The state after a capture of 1000, a refund of 300, a payout of the remaining 700 that was paid, and a further
  capture of 500.
\<close>

definition shortfall_db :: db where
  "shortfall_db = empty_db\<lparr>seq := 10, ledgerEntries :=
       [demo_entry 1 AVAILABLE CREDIT CAPTURE 1000, demo_entry 2 AVAILABLE DEBIT REFUND 300,
        demo_entry 3 AVAILABLE DEBIT PAYOUT 700, demo_entry 4 AVAILABLE CREDIT CAPTURE 500],
     payouts := [\<lparr>po_id = gen demo_env 5, po_tenantId = ''t1'', po_amount = 700, po_currency = MAD, po_status = PAYOUT_PAID,
        po_provider = STRIPE, po_providerTransferId = None, po_method = BANK_TRANSFER, po_idempotencyKey = ''k0''\<rparr>],
     payoutItems := [\<lparr>pi_id = gen demo_env 6, pi_payoutId = gen demo_env 5, pi_ledgerEntryId = gen demo_env 1, pi_amount = 700\<rparr>]\<rparr>"

lemma shortfall_available: "accountBalanceCents shortfall_db ''t1'' AVAILABLE c = (if c = MAD then 500 else 0)"
  by (auto simp: accountBalanceCents_def shortfall_db_def empty_db_def demo_entry_def)

lemma shortfall_inv: "payout_inv shortfall_db"
  by (rule payout_invI)
     (auto simp: shortfall_db_def empty_db_def demo_entry_def payout_debits_def paid_total_def item_ok_def live_def
       credits_of_def payout_items_of_def)

text \<open>
  Debits that an earlier payout absorbed are subtracted again. With a capture of 1000, a refund of 300 and a paid
  payout of 700 behind it, a tenant whose AVAILABLE balance is 500, with no payout open, is offered a payout of only 200.
\<close>

lemma createPayout_shortfall:
  "payout_inv shortfall_db \<and> open_total (payouts shortfall_db) ''t1'' MAD = 0 \<and>
   accountBalanceCents shortfall_db ''t1'' AVAILABLE MAD = 500 \<and>
   (\<exists>p items d'. createPayout fxp demo_env ''t1'' ''k1'' STRIPE None shortfall_db = Inr ((p, items), d') \<and> po_amount p = 200)"
proof -
  have "efold (convert_one fxp demo_env ''t1'' MAD) cs ([], shortfall_db) = Inr ([], shortfall_db)" for cs
    by (induction cs) (simp_all add: convert_one_skip shortfall_available)
  then have sweep: "convertForeignBalancesToSettlement fxp demo_env ''t1'' MAD shortfall_db = Inr ([], shortfall_db)"
    by (simp add: convertForeignBalancesToSettlement_def)
  have c: "settlement_currency_of shortfall_db ''t1'' = MAD"
    "find (\<lambda>p. po_tenantId p = ''t1'' \<and> po_idempotencyKey p = ''k1'') (payouts shortfall_db) = None"
    by (simp_all add: settlement_currency_of_def shortfall_db_def empty_db_def)
  have "unpaid_credits shortfall_db ''t1'' MAD = [demo_entry 4 AVAILABLE CREDIT CAPTURE 500]"
    "other_debits shortfall_db ''t1'' MAD = [demo_entry 2 AVAILABLE DEBIT REFUND 300]"
    by (simp_all add: unpaid_credits_def other_debits_def is_reserved_def shortfall_db_def empty_db_def demo_entry_def)
  then have "\<exists>p items d'. createPayout fxp demo_env ''t1'' ''k1'' STRIPE None shortfall_db = Inr ((p, items), d') \<and> po_amount p = 200"
    by (simp add: createPayout_def c sweep Let_def demo_entry_def)
  moreover have "open_total (payouts shortfall_db) ''t1'' MAD = 0"
    by (simp add: open_total_def shortfall_db_def OPEN_PAYOUT_STATUSES_def)
  ultimately show ?thesis using shortfall_inv shortfall_available by simp
qed

section \<open>Cancelling while the payout is paid\<close>

text \<open>
  \<open>cancelPayout\<close> and \<open>markPayoutFailed\<close> read the status before their transaction and do not look at it again inside: each is two
  steps, the check and the write, and \<open>cancelPayout\<close> and \<open>markPayoutFailed\<close> above are the runs between which nothing happens.
\<close>

definition cancelPayout_check :: "string \<Rightarrow> string \<Rightarrow> db \<Rightarrow> unit result" where
  "cancelPayout_check tenantId i d =
     (case find (\<lambda>p. po_id p = i \<and> po_tenantId p = tenantId) (payouts d) of
        None \<Rightarrow> Inl (PayoutError ''payout not found'')
      | Some p \<Rightarrow> payout_assertTransition (po_status p) PAYOUT_CANCELLED)"

definition cancelPayout_write :: "string \<Rightarrow> db \<Rightarrow> db" where
  "cancelPayout_write i d = set_payout i PAYOUT_CANCELLED (release_items i d)"

definition markPayoutFailed_check :: "string \<Rightarrow> string \<Rightarrow> db \<Rightarrow> unit result" where
  "markPayoutFailed_check tenantId i d =
     (case find (\<lambda>p. po_id p = i \<and> po_tenantId p = tenantId) (payouts d) of
        None \<Rightarrow> Inl (PayoutError ''payout not found'')
      | Some p \<Rightarrow> if po_status p \<in> set payout_TERMINAL then Inl (PayoutError ''payout is already settled'') else Inr ())"

definition markPayoutFailed_write :: "string \<Rightarrow> db \<Rightarrow> db" where
  "markPayoutFailed_write i d = set_payout i PAYOUT_FAILED (release_items i d)"

lemma close_phases:
  "cancelPayout t i d = ebind (cancelPayout_check t i d) (\<lambda>_. Inr (cancelPayout_write i d))"
  "markPayoutFailed t i d = ebind (markPayoutFailed_check t i d) (\<lambda>_. Inr (markPayoutFailed_write i d))"
  by (simp_all add: cancelPayout_def cancelPayout_check_def cancelPayout_write_def markPayoutFailed_def markPayoutFailed_check_def
      markPayoutFailed_write_def split: option.split)

text \<open>
  A cancellation (or a failure) whose check came before the payment of the payout is written after it: the money has left
  AVAILABLE, the payout says CANCELLED (or FAILED) instead of PAID, and the credits it paid out are free for another payout.
\<close>

lemma closed_after_payment:
  assumes "cancelPayout_check t i d = Inr () \<and> d2 = cancelPayout_write i d1 \<and> s = PAYOUT_CANCELLED \<or>
      markPayoutFailed_check t i d = Inr () \<and> d2 = markPayoutFailed_write i d1 \<and> s = PAYOUT_FAILED"
    and "markPayoutPaid e t i x d = Inr d1"
  shows "\<exists>p q. find (\<lambda>p. po_id p = i \<and> po_tenantId p = t) (payouts d) = Some p \<and>
    accountBalanceCents d2 t AVAILABLE (po_currency p) = accountBalanceCents d t AVAILABLE (po_currency p) - po_amount p \<and>
    find (\<lambda>p. po_id p = i \<and> po_tenantId p = t) (payouts d2) = Some q \<and> po_status q = s \<and> payout_items_of d2 i = []"
proof -
  from assms(2) obtain p d0 where p: "find (\<lambda>p. po_id p = i \<and> po_tenantId p = t) (payouts d) = Some p"
    and m: "move e t (Some ''payout'') (Some i) (debit AVAILABLE (po_amount p) PAYOUT None (po_currency p),
        credit PAID_OUT (po_amount p) PAYOUT None (po_currency p)) d = Inr d0"
    and d1: "d1 = d0\<lparr>payouts := map (\<lambda>q. if po_id q = i
        then q\<lparr>po_status := PAYOUT_PAID, po_providerTransferId := x\<rparr> else q) (payouts d0)\<rparr>"
    by (auto simp: markPayoutPaid_def Let_def split: option.splits if_splits)
  have d2: "d2 = set_payout i s (release_items i d1)" using assms(1) by (auto simp: cancelPayout_write_def markPayoutFailed_write_def)
  then have led: "ledgerEntries d2 = ledgerEntries d0" by (simp add: d1)
  have id: "po_id p = i" using find_SomeD [OF p] by simp
  have "payouts d0 = payouts d" using move_frame [OF m] by auto
  then have "find (\<lambda>p. po_id p = i \<and> po_tenantId p = t) (payouts d2) =
      Some (p\<lparr>po_status := s, po_providerTransferId := x\<rparr>)"
    using p id by (simp add: d2 d1 set_payout_def release_items_def find_cong_update del: map_map)
  then show ?thesis
    using p effect_balance [OF effect_then [OF effect_move [OF m] led]]
    by (simp add: d2 payout_items_of_def set_payout_def release_items_def)
qed

end
