(* ===== verification/Reversals.thy ===== *)
theory Reversals
  imports Payout
begin

text \<open>
  \<open>src/lib/reversals.ts\<close> and \<open>src/lib/reversals-db.ts\<close>: disputes, the funding of a lost one, and its
  postings. \<open>resolveDispute\<close> decides the funding from a read outside the transaction, checks the status inside it
  and writes; the three phases are separate definitions, so that other operations can be placed between them.
\<close>

section \<open>Status machine and funding\<close>

fun dispute_TRANSITIONS :: "dispute_status \<Rightarrow> dispute_status list" where
  "dispute_TRANSITIONS DISPUTE_OPEN = [DISPUTE_WON, DISPUTE_LOST]"
| "dispute_TRANSITIONS DISPUTE_WON = []"
| "dispute_TRANSITIONS DISPUTE_LOST = []"

definition dispute_canTransition :: "dispute_status \<Rightarrow> dispute_status \<Rightarrow> bool" where
  "dispute_canTransition from to = (to \<in> set (dispute_TRANSITIONS from))"

definition dispute_assertTransition :: "dispute_status \<Rightarrow> dispute_status \<Rightarrow> unit result" where
  "dispute_assertTransition from to =
     require (dispute_canTransition from to) (ReversalError ''illegal dispute transition'')"

record clawback_allocation =
  fromAvailable :: centimes
  fromReserve :: centimes
  uncovered :: centimes

definition fundReversal ::
  "reversal_funding \<Rightarrow> bool \<Rightarrow> centimes \<Rightarrow> centimes \<Rightarrow> centimes \<Rightarrow> clawback_allocation result" where
  "fundReversal funding allowNeg gross available reserve =
     (if gross < 0 then Inl (ReversalError ''gross must be non-negative'')
      else if available < 0 then Inl (ReversalError ''available balance must be non-negative'')
      else if reserve < 0 then Inl (ReversalError ''reserve balance must be non-negative'')
      else case funding of
        NET_FROM_AVAILABLE \<Rightarrow>
          (let fromAvail = min gross available
           in Inr \<lparr>fromAvailable = fromAvail, fromReserve = 0, uncovered = gross - fromAvail\<rparr>)
      | DEBIT_RESERVE \<Rightarrow>
          (let fromRes = min gross reserve; remaining = gross - fromRes; fromAvail = min remaining available
           in Inr \<lparr>fromAvailable = fromAvail, fromReserve = fromRes, uncovered = remaining - fromAvail\<rparr>)
      | INVOICE_TENANT \<Rightarrow> Inr \<lparr>fromAvailable = 0, fromReserve = 0, uncovered = gross\<rparr>
      | ALLOW_NEGATIVE \<Rightarrow> Inr \<lparr>fromAvailable = gross, fromReserve = 0, uncovered = 0\<rparr>)"

definition coveredAmount :: "clawback_allocation \<Rightarrow> centimes" where
  "coveredAmount allocation = fromAvailable allocation + fromReserve allocation"

section \<open>Disputes\<close>

record create_dispute_input =
  cd_providerDisputeId :: string
  cd_provider :: provider
  cd_amountCents :: centimes
  cd_feeCents :: "centimes option"
  cd_currency :: "currency option"
  cd_reason :: "string option"
  cd_paymentIntentId :: "string option"
  cd_evidenceDueDate :: "int option"

definition recovery_of :: "db \<Rightarrow> string \<Rightarrow> recovery option" where
  "recovery_of d disputeId = find (\<lambda>r. rc_disputeId r = disputeId) (recoveries d)"

definition createDispute ::
  "env \<Rightarrow> string \<Rightarrow> create_dispute_input \<Rightarrow> db \<Rightarrow> ((dispute \<times> recovery option) \<times> db) result" where
  "createDispute e tenantId input d =
     (case find (\<lambda>x. di_tenantId x = tenantId \<and> di_providerDisputeId x = cd_providerDisputeId input) (disputes d) of
        Some existing \<Rightarrow> Inr ((existing, recovery_of d (di_id existing)), d)
      | None \<Rightarrow>
          let row = \<lparr>di_id = fresh e d, di_tenantId = tenantId, di_paymentIntentId = cd_paymentIntentId input,
                     di_provider = cd_provider input, di_providerDisputeId = cd_providerDisputeId input,
                     di_status = DISPUTE_OPEN, di_amount = cd_amountCents input,
                     di_feeAmount = coalesce (cd_feeCents input) 0, di_currency = coalesce (cd_currency input) MAD,
                     di_reason = cd_reason input, di_evidenceDueDate = cd_evidenceDueDate input\<rparr>
          in Inr ((row, None), (bump d)\<lparr>disputes := disputes d @ [row]\<rparr>))"

definition getDispute :: "db \<Rightarrow> string \<Rightarrow> string \<Rightarrow> (dispute \<times> recovery option) option" where
  "getDispute d tenantId i =
     map_option (\<lambda>x. (x, recovery_of d i)) (find (\<lambda>x. di_id x = i \<and> di_tenantId x = tenantId) (disputes d))"

definition set_dispute :: "string \<Rightarrow> dispute_status \<Rightarrow> db \<Rightarrow> db" where
  "set_dispute i s d = d\<lparr>disputes := map (\<lambda>x. if di_id x = i then x\<lparr>di_status := s\<rparr> else x) (disputes d)\<rparr>"

definition resolveDispute_won :: "string \<Rightarrow> string \<Rightarrow> db \<Rightarrow> db result" where
  "resolveDispute_won tenantId i d =
     (case find (\<lambda>x. di_id x = i \<and> di_tenantId x = tenantId) (disputes d) of
        None \<Rightarrow> Inl (ReversalError ''dispute not found'')
      | Some x \<Rightarrow> ebind (dispute_assertTransition (di_status x) DISPUTE_WON) (\<lambda>_.
            Inr (set_dispute i DISPUTE_WON d)))"

definition resolveDispute_plan :: "string \<Rightarrow> string \<Rightarrow> db \<Rightarrow> (dispute \<times> clawback_allocation) result" where
  "resolveDispute_plan tenantId i d =
     (case find (\<lambda>x. di_id x = i \<and> di_tenantId x = tenantId) (disputes d) of
        None \<Rightarrow> Inl (ReversalError ''dispute not found'')
      | Some x \<Rightarrow> ebind (dispute_assertTransition (di_status x) DISPUTE_LOST) (\<lambda>_.
          let ledger = getTenantLedger d tenantId;
              policy = getActiveSettlementPolicy d tenantId
          in ebind (fundReversal
                (coalesce (map_option reversalFunding policy) (pre_reversalFunding DEFAULT_PRESET))
                (coalesce (map_option allowNegative policy) (pre_allowNegative DEFAULT_PRESET))
                (di_amount x)
                (lv_balancesByCurrency ledger (di_currency x) AVAILABLE)
                (lv_balancesByCurrency ledger (di_currency x) RESERVE)) (\<lambda>allocation. Inr (x, allocation))))"

definition clawback_legs :: "clawback_allocation \<Rightarrow> currency \<Rightarrow> (ledger_leg \<times> ledger_leg) list" where
  "clawback_legs al c =
     (if fromAvailable al > 0
        then [(debit AVAILABLE (fromAvailable al) CHARGEBACK None c, credit CASH (fromAvailable al) CHARGEBACK None c)] else []) @
     (if fromReserve al > 0
        then [(debit RESERVE (fromReserve al) CHARGEBACK None c, credit CASH (fromReserve al) CHARGEBACK None c)] else [])"

text \<open>
  The transaction reads the dispute again, without a lock, and the lock of the ledger comes with the first posting; so two
  transactions can both pass the check before either has posted. The check and the writes are two steps. A dispute has at most
  one recovery (\<open>disputeId\<close> is unique).
\<close>

definition resolveDispute_check :: "string \<Rightarrow> string \<Rightarrow> db \<Rightarrow> unit result" where
  "resolveDispute_check tenantId i d =
     (case find (\<lambda>x. di_id x = i \<and> di_tenantId x = tenantId) (disputes d) of
        None \<Rightarrow> Inl (ReversalError ''dispute not found'')
      | Some cur \<Rightarrow> dispute_assertTransition (di_status cur) DISPUTE_LOST)"

definition resolveDispute_write ::
  "env \<Rightarrow> string \<Rightarrow> string \<Rightarrow> dispute \<times> clawback_allocation \<Rightarrow> db \<Rightarrow> db result" where
  "resolveDispute_write e tenantId i plan d =
     (let c = di_currency (fst plan); al = snd plan
      in ebind (moves e tenantId (Some ''dispute'') (Some i) (clawback_legs al c) d) (\<lambda>d1.
           let d2 = set_dispute i DISPUTE_LOST d1
           in if uncovered al > 0
              then if recovery_of d2 i \<noteq> None then Inl (JsError ''P2002'')
                   else let row = \<lparr>rc_id = fresh e d2, rc_tenantId = tenantId, rc_disputeId = i, rc_status = RECOVERY_PENDING,
                                   rc_amount = uncovered al, rc_currency = c\<rparr>
                        in Inr ((bump d2)\<lparr>recoveries := recoveries d2 @ [row]\<rparr>)
              else Inr d2))"

definition resolveDispute_commit ::
  "env \<Rightarrow> string \<Rightarrow> string \<Rightarrow> dispute \<times> clawback_allocation \<Rightarrow> db \<Rightarrow> db result" where
  "resolveDispute_commit e tenantId i plan d =
     ebind (resolveDispute_check tenantId i d) (\<lambda>_. resolveDispute_write e tenantId i plan d)"

definition resolveDispute :: "env \<Rightarrow> string \<Rightarrow> string \<Rightarrow> dispute_status \<Rightarrow> db \<Rightarrow> db result" where
  "resolveDispute e tenantId i outcome d =
     (if outcome = DISPUTE_WON then resolveDispute_won tenantId i d
      else ebind (resolveDispute_plan tenantId i d) (\<lambda>plan. resolveDispute_commit e tenantId i plan d))"

section \<open>Lemmas\<close>

interpretation dispute_sm: ranked_status_machine dispute_canTransition
  "\<lambda>s. s \<noteq> DISPUTE_OPEN" "\<lambda>s. if s = DISPUTE_OPEN then 1 else 0"
proof unfold_locales
  show "\<not> dispute_canTransition s t" if "s \<noteq> DISPUTE_OPEN" for s t
    using that by (cases s) (auto simp: dispute_canTransition_def)
  show "\<exists>t. dispute_canTransition s t" if "\<not> s \<noteq> DISPUTE_OPEN" for s
    using that by (auto simp: dispute_canTransition_def)
  show "(if t = DISPUTE_OPEN then 1 else 0) < (if s = DISPUTE_OPEN then 1 else (0::nat))"
    if "dispute_canTransition s t" for s t
    using that by (cases s; cases t) (auto simp: dispute_canTransition_def)
qed

lemma fundReversal_spec:
  assumes "fundReversal f an gross available reserve = Inr al"
  shows "0 \<le> gross \<and> 0 \<le> available \<and> 0 \<le> reserve \<and>
    fromAvailable al + fromReserve al + uncovered al = gross \<and>
    0 \<le> fromAvailable al \<and> 0 \<le> fromReserve al \<and> 0 \<le> uncovered al \<and> fromReserve al \<le> reserve \<and>
    (f \<noteq> ALLOW_NEGATIVE \<longrightarrow> fromAvailable al \<le> available)"
  using assms unfolding fundReversal_def Let_def
  by (cases f) (auto split: if_splits)

lemma balanceOf_clawback:
  "0 \<le> fromAvailable al \<Longrightarrow> 0 \<le> fromReserve al \<Longrightarrow>
   balanceOf (pair_legs (clawback_legs al c)) a c =
     (if a = CASH then coveredAmount al else 0) - (if a = AVAILABLE then fromAvailable al else 0)
     - (if a = RESERVE then fromReserve al else 0)"
  by (auto simp: clawback_legs_def coveredAmount_def)

lemma set_dispute_fields [simp]:
  "ledgerEntries (set_dispute i s d) = ledgerEntries d" "recoveries (set_dispute i s d) = recoveries d"
  "settlementPolicies (set_dispute i s d) = settlementPolicies d"
  by (simp_all add: set_dispute_def)

lemma find_set_dispute:
  "find (\<lambda>x. di_id x = i \<and> di_tenantId x = t) (disputes (set_dispute i s d)) =
     map_option (\<lambda>x. x\<lparr>di_status := s\<rparr>) (find (\<lambda>x. di_id x = i \<and> di_tenantId x = t) (disputes d))"
proof -
  have "map_option (\<lambda>r. if di_id r = i then r\<lparr>di_status := s\<rparr> else r) (find (\<lambda>x. di_id x = i \<and> di_tenantId x = t) (disputes d))
      = map_option (\<lambda>x. x\<lparr>di_status := s\<rparr>) (find (\<lambda>x. di_id x = i \<and> di_tenantId x = t) (disputes d))"
    by (cases "find (\<lambda>x. di_id x = i \<and> di_tenantId x = t) (disputes d)") (auto dest: find_SomeD)
  then show ?thesis by (simp add: set_dispute_def find_cong_update)
qed

lemma getTenantLedger_balances: "lv_balancesByCurrency (getTenantLedger d t) c a = accountBalanceCents d t a c"
  by (simp add: getTenantLedger_def Let_def accountBalanceCents_legs tenant_legs_def balanceOf_sorted)

lemma check_ok:
  "resolveDispute_check t i d = Inr u \<longleftrightarrow>
     (\<exists>cur. find (\<lambda>x. di_id x = i \<and> di_tenantId x = t) (disputes d) = Some cur \<and> di_status cur = DISPUTE_OPEN)"
proof -
  have "dispute_canTransition s DISPUTE_LOST \<longleftrightarrow> s = DISPUTE_OPEN" for s by (cases s) (simp_all add: dispute_canTransition_def)
  then show ?thesis by (auto simp: resolveDispute_check_def dispute_assertTransition_def require_def split: option.splits if_splits)
qed

lemma write_run:
  assumes "resolveDispute_write e t i (x, al) d = Inr d'"
  shows "\<exists>d1. moves e t (Some ''dispute'') (Some i) (clawback_legs al (di_currency x)) d = Inr d1 \<and>
    disputes d' = disputes (set_dispute i DISPUTE_LOST d) \<and>
    booked t (Some ''dispute'') (Some i) (pair_legs (clawback_legs al (di_currency x))) d d' \<and>
    (uncovered al > 0 \<longrightarrow> recovery_of d i = None) \<and>
    recoveries d' = recoveries d @ (if uncovered al > 0 then
      [\<lparr>rc_id = fresh e d1, rc_tenantId = t, rc_disputeId = i, rc_status = RECOVERY_PENDING,
        rc_amount = uncovered al, rc_currency = di_currency x\<rparr>] else [])"
proof -
  from assms obtain d1 where m: "moves e t (Some ''dispute'') (Some i) (clawback_legs al (di_currency x)) d = Inr d1"
    by (auto simp: resolveDispute_write_def Let_def)
  have "ledgerEntries d' = ledgerEntries d1" "disputes d' = disputes (set_dispute i DISPUTE_LOST d)"
    "uncovered al > 0 \<longrightarrow> recovery_of d i = None"
    "recoveries d' = recoveries d @ (if uncovered al > 0 then
      [\<lparr>rc_id = fresh e d1, rc_tenantId = t, rc_disputeId = i, rc_status = RECOVERY_PENDING,
        rc_amount = uncovered al, rc_currency = di_currency x\<rparr>] else [])"
    using assms m moves_frame [OF m]
    by (auto simp: resolveDispute_write_def Let_def bump_def fresh_def set_dispute_def recovery_of_def split: if_splits)
  with m booked_then [OF booked_moves [OF m], of d'] show ?thesis by blast
qed

lemma write_ok:
  assumes "uncovered al > 0 \<Longrightarrow> recovery_of d i = None"
  shows "\<exists>d'. resolveDispute_write e t i (x, al) d = Inr d'"
proof -
  obtain d1 where m: "moves e t (Some ''dispute'') (Some i) (clawback_legs al (di_currency x)) d = Inr d1"
    using moves_ok [of "clawback_legs al (di_currency x)"] by (fastforce simp: clawback_legs_def to_posting_def split: if_splits)
  have "recovery_of (set_dispute i DISPUTE_LOST d1) i = recovery_of d i" using moves_frame [OF m] by (auto simp: recovery_of_def)
  with m assms show ?thesis by (simp add: resolveDispute_write_def Let_def)
qed

lemma write_balance:
  assumes "resolveDispute_write e t i (x, al) d = Inr d'" "0 \<le> fromAvailable al" "0 \<le> fromReserve al"
  shows "accountBalanceCents d' t a (di_currency x) = accountBalanceCents d t a (di_currency x)
       + (case a of CASH \<Rightarrow> coveredAmount al | AVAILABLE \<Rightarrow> - fromAvailable al | RESERVE \<Rightarrow> - fromReserve al | _ \<Rightarrow> 0)"
proof -
  have "booked t (Some ''dispute'') (Some i) (pair_legs (clawback_legs al (di_currency x))) d d'" using write_run [OF assms(1)] by blast
  from effect_balance [OF booked_effect [OF this]] assms(2,3) show ?thesis by (cases a) (simp_all add: balanceOf_clawback)
qed

lemma commit_run:
  assumes "resolveDispute_commit e t i (x, al) d = Inr d'"
  shows "\<exists>cur. find (\<lambda>x. di_id x = i \<and> di_tenantId x = t) (disputes d) = Some cur \<and> di_status cur = DISPUTE_OPEN"
    "resolveDispute_write e t i (x, al) d = Inr d'"
  using assms check_ok [of t i d] by (auto simp: resolveDispute_commit_def)

lemma plan_of:
  assumes "find (\<lambda>x. di_id x = i \<and> di_tenantId x = t) (disputes d) = Some x"
  shows "resolveDispute_plan t i d = (if di_status x \<noteq> DISPUTE_OPEN then Inl (ReversalError ''illegal dispute transition'')
    else ebind (fundReversal (coalesce (map_option reversalFunding (getActiveSettlementPolicy d t)) NET_FROM_AVAILABLE)
       (coalesce (map_option allowNegative (getActiveSettlementPolicy d t)) (pre_allowNegative DEFAULT_PRESET)) (di_amount x)
       (accountBalanceCents d t AVAILABLE (di_currency x)) (accountBalanceCents d t RESERVE (di_currency x))) (\<lambda>al. Inr (x, al)))"
proof -
  have "dispute_canTransition s DISPUTE_LOST \<longleftrightarrow> s = DISPUTE_OPEN" for s by (cases s) (simp_all add: dispute_canTransition_def)
  with assms show ?thesis
    by (simp add: resolveDispute_plan_def Let_def getTenantLedger_balances DEFAULT_PRESET_def dispute_assertTransition_def require_def)
qed

lemma lost_final:
  assumes "find (\<lambda>x. di_id x = i \<and> di_tenantId x = t) (disputes d) = Some (x\<lparr>di_status := DISPUTE_LOST\<rparr>)"
  shows "\<not> is_ok (resolveDispute e t i outcome d)"
  using assms by (simp add: resolveDispute_def resolveDispute_won_def resolveDispute_plan_def dispute_assertTransition_def
      dispute_canTransition_def require_def)

section \<open>Properties\<close>

text \<open>
  Funding a reversal. On non-negative inputs \<open>fundReversal\<close> succeeds; its three legs are non-negative and add up to the
  gross; it never takes more than the reserve holds, and never more than the available balance except under ALLOW_NEGATIVE; and under
  NET_FROM_AVAILABLE and DEBIT_RESERVE something stays uncovered only when the permitted balances are exhausted.
\<close>

lemma fundReversal_correct:
  assumes "0 \<le> gross" "0 \<le> available" "0 \<le> reserve"
  shows "\<exists>al. fundReversal f an gross available reserve = Inr al \<and>
    coveredAmount al + uncovered al = gross \<and>
    0 \<le> fromAvailable al \<and> 0 \<le> fromReserve al \<and> 0 \<le> uncovered al \<and> fromReserve al \<le> reserve \<and>
    (f \<noteq> ALLOW_NEGATIVE \<longrightarrow> fromAvailable al \<le> available) \<and>
    (f = NET_FROM_AVAILABLE \<and> 0 < uncovered al \<longrightarrow> fromAvailable al = available) \<and>
    (f = DEBIT_RESERVE \<and> 0 < uncovered al \<longrightarrow> fromAvailable al = available \<and> fromReserve al = reserve)"
  using assms by (cases f) (auto simp: fundReversal_def Let_def coveredAmount_def min_def)

text \<open>
  C31. A lost dispute, resolved without interruption. Resolving a dispute of the tenant as LOST succeeds exactly when it is OPEN,
  its amount and the AVAILABLE and RESERVE balances in its currency are not negative, and a shortfall does not meet an earlier
  recovery. The tenant's policy (without one, NET_FROM_AVAILABLE) decides what is taken: NET_FROM_AVAILABLE takes from AVAILABLE as
  far as it reaches; DEBIT_RESERVE first from RESERVE, then from AVAILABLE; INVOICE_TENANT nothing; ALLOW_NEGATIVE the whole amount
  from AVAILABLE. What is taken goes to CASH, no other account changes, and the rest becomes a PENDING recovery; every ledger stays
  balanced and the dispute cannot be resolved again afterwards.
\<close>

theorem resolveDispute_lost:
  assumes "find (\<lambda>x. di_id x = i \<and> di_tenantId x = t) (disputes d) = Some x"
  defines "n \<equiv> di_amount x" and "c \<equiv> di_currency x"
    and "f \<equiv> coalesce (map_option reversalFunding (getActiveSettlementPolicy d t)) NET_FROM_AVAILABLE"
  defines "A \<equiv> accountBalanceCents d t AVAILABLE c" and "R \<equiv> accountBalanceCents d t RESERVE c"
  defines "fromR \<equiv> if f = DEBIT_RESERVE then min n R else 0"
  defines "fromA \<equiv> case f of NET_FROM_AVAILABLE \<Rightarrow> min n A | DEBIT_RESERVE \<Rightarrow> min (n - min n R) A | INVOICE_TENANT \<Rightarrow> 0 | ALLOW_NEGATIVE \<Rightarrow> n"
  defines "rest \<equiv> n - fromA - fromR"
  shows "if di_status x = DISPUTE_OPEN \<and> 0 \<le> n \<and> 0 \<le> A \<and> 0 \<le> R \<and> (0 < rest \<longrightarrow> recovery_of d i = None)
    then \<exists>d'. resolveDispute e t i DISPUTE_LOST d = Inr d' \<and>
      (\<forall>a. accountBalanceCents d' t a c = accountBalanceCents d t a c
         + (case a of CASH \<Rightarrow> fromA + fromR | AVAILABLE \<Rightarrow> - fromA | RESERVE \<Rightarrow> - fromR | _ \<Rightarrow> 0)) \<and>
      map (\<lambda>r. (rc_tenantId r, rc_disputeId r, rc_amount r, rc_currency r, rc_status r)) (recoveries d') =
        map (\<lambda>r. (rc_tenantId r, rc_disputeId r, rc_amount r, rc_currency r, rc_status r)) (recoveries d)
          @ (if rest > 0 then [(t, i, rest, c, RECOVERY_PENDING)] else []) \<and>
      0 \<le> rest \<and>
      (\<forall>u. isBalanced (tenant_legs u d) \<longrightarrow> isBalanced (tenant_legs u d')) \<and>
      (\<forall>u. u \<noteq> t \<longrightarrow> tenant_legs u d' = tenant_legs u d) \<and>
      \<not> is_ok (resolveDispute e' t i outcome d')
    else \<not> is_ok (resolveDispute e t i DISPUTE_LOST d)"
proof -
  define al where "al = \<lparr>fromAvailable = fromA, fromReserve = fromR, uncovered = rest\<rparr>"
  note plan = plan_of [OF assms(1), folded n_def c_def, folded f_def A_def R_def]
  have fund: "fundReversal f b n A R = (if n < 0 then Inl (ReversalError ''gross must be non-negative'')
      else if A < 0 then Inl (ReversalError ''available balance must be non-negative'')
      else if R < 0 then Inl (ReversalError ''reserve balance must be non-negative'') else Inr al)" for b
    by (cases f) (simp_all add: fundReversal_def Let_def al_def rest_def fromA_def fromR_def)
  show ?thesis
  proof (cases "di_status x = DISPUTE_OPEN \<and> 0 \<le> n \<and> 0 \<le> A \<and> 0 \<le> R \<and> (0 < rest \<longrightarrow> recovery_of d i = None)")
    case True
    then have legs: "0 \<le> fromA" "0 \<le> fromR" "0 \<le> rest" by (cases f; simp add: fromA_def fromR_def rest_def)+
    have p: "resolveDispute_plan t i d = Inr (x, al)" using True plan fund by simp
    obtain d' where w: "resolveDispute_write e t i (x, al) d = Inr d'" using write_ok [of al d i e t x] True by (auto simp: al_def)
    have run: "resolveDispute e t i DISPUTE_LOST d = Inr d'"
      using p w check_ok [of t i d] assms(1) True by (simp add: resolveDispute_def resolveDispute_commit_def)
    from write_run [OF w] have d': "disputes d' = disputes (set_dispute i DISPUTE_LOST d)"
      and eff: "ledger_effect t (pair_legs (clawback_legs al c)) d d'" by (auto simp: c_def intro: booked_effect)
    have rows: "map (\<lambda>r. (rc_tenantId r, rc_disputeId r, rc_amount r, rc_currency r, rc_status r)) (recoveries d') =
        map (\<lambda>r. (rc_tenantId r, rc_disputeId r, rc_amount r, rc_currency r, rc_status r)) (recoveries d)
          @ (if rest > 0 then [(t, i, rest, c, RECOVERY_PENDING)] else [])"
      using write_run [OF w] by (auto simp: al_def c_def)
    have bal: "accountBalanceCents d' t a c = accountBalanceCents d t a c
         + (case a of CASH \<Rightarrow> fromA + fromR | AVAILABLE \<Rightarrow> - fromA | RESERVE \<Rightarrow> - fromR | _ \<Rightarrow> 0)" for a
      using write_balance [OF w, of a] legs by (cases a) (simp_all add: al_def c_def coveredAmount_def)
    have again: "\<not> is_ok (resolveDispute e' t i outcome d')"
      by (rule lost_final) (simp add: d' find_set_dispute assms(1))
    show ?thesis
      using True run bal rows legs(3) effect_balanced [OF eff] effect_other [OF eff] again by auto
  next
    case False
    have "\<not> is_ok (resolveDispute e t i DISPUTE_LOST d)"
    proof
      assume "is_ok (resolveDispute e t i DISPUTE_LOST d)"
      then obtain y z d' where p: "resolveDispute_plan t i d = Inr (y, z)" and commit: "resolveDispute_commit e t i (y, z) d = Inr d'"
        by (cases "resolveDispute_plan t i d"; cases "resolveDispute e t i DISPUTE_LOST d") (auto simp: resolveDispute_def)
      have o: "di_status x = DISPUTE_OPEN" using commit_run(1) [OF commit] assms(1) by simp
      have z: "0 \<le> n" "0 \<le> A" "0 \<le> R" "z = al" using p plan o fund by (auto split: if_splits)
      have "0 < rest \<longrightarrow> recovery_of d i = None" using write_run [OF commit_run(2) [OF commit]] z(4) by (auto simp: al_def)
      with o z False show False by simp
    qed
    then show ?thesis unfolding if_not_P [OF False] .
  qed
qed

definition open_dispute :: dispute where
  "open_dispute = \<lparr>di_id = ''d1'', di_tenantId = ''t1'', di_paymentIntentId = None, di_provider = STRIPE,
     di_providerDisputeId = ''dp1'', di_status = DISPUTE_OPEN, di_amount = 1000, di_feeAmount = 0, di_currency = MAD,
     di_reason = None, di_evidenceDueDate = None\<rparr>"

definition draft_payout :: payout where
  "draft_payout = \<lparr>po_id = ''po1'', po_tenantId = ''t1'', po_amount = 1000, po_currency = MAD, po_status = PAYOUT_DRAFT,
     po_provider = STRIPE, po_providerTransferId = None, po_method = BANK_TRANSFER, po_idempotencyKey = ''k1''\<rparr>"

definition race_db :: db where
  "race_db = funded_db\<lparr>disputes := [open_dispute], payouts := [draft_payout]\<rparr>"

lemma race_available: "accountBalanceCents race_db ''t1'' a MAD =
    (if a = AVAILABLE then 1000 else if a = COLLECTED then - 1000 else 0)"
  by (simp add: race_db_def funded_available)

lemma race_plan: "resolveDispute_plan ''t1'' ''d1'' race_db = Inr (open_dispute, \<lparr>fromAvailable = 1000, fromReserve = 0, uncovered = 0\<rparr>)"
proof -
  have "find (\<lambda>x. di_id x = ''d1'' \<and> di_tenantId x = ''t1'') (disputes race_db) = Some open_dispute"
    "getActiveSettlementPolicy race_db ''t1'' = None"
    by (simp_all add: race_db_def open_dispute_def funded_db_def empty_db_def getActiveSettlementPolicy_def)
  moreover have "di_status open_dispute = DISPUTE_OPEN" "di_amount open_dispute = 1000" "di_currency open_dispute = MAD"
    by (simp_all add: open_dispute_def)
  ultimately show ?thesis
    by (simp add: resolveDispute_plan_def getTenantLedger_balances dispute_assertTransition_def dispute_canTransition_def
        fundReversal_def Let_def race_available DEFAULT_PRESET_def)
qed

lemma all_accounts:
  "(\<forall>a. P a) \<longleftrightarrow> P CASH \<and> P PENDING \<and> P COLLECTED \<and> P AVAILABLE \<and> P RESERVE \<and> P FEES \<and> P PAID_OUT \<and> P WALLET \<and> P TAX_PAYABLE"
  by (metis ledger_account.exhaust)

theorem resolveDispute_lost_witness:
  "\<exists>d'. resolveDispute demo_env ''t1'' ''d1'' DISPUTE_LOST race_db = Inr d' \<and>
     accountBalanceCents d' ''t1'' AVAILABLE MAD = 0 \<and> accountBalanceCents d' ''t1'' CASH MAD = 1000 \<and> recoveries d' = [] \<and>
     \<not> is_ok (resolveDispute demo_env ''t1'' ''d1'' DISPUTE_WON d')"
proof -
  have f: "find (\<lambda>x. di_id x = ''d1'' \<and> di_tenantId x = ''t1'') (disputes race_db) = Some open_dispute"
    by (simp add: race_db_def open_dispute_def)
  have x: "di_status open_dispute = DISPUTE_OPEN" "di_amount open_dispute = 1000" "di_currency open_dispute = MAD"
    by (simp_all add: open_dispute_def)
  have none: "getActiveSettlementPolicy race_db ''t1'' = None" "recoveries race_db = []"
    by (simp_all add: race_db_def funded_db_def empty_db_def getActiveSettlementPolicy_def)
  from resolveDispute_lost [OF f, of demo_env demo_env DISPUTE_WON] obtain d' where
    d': "resolveDispute demo_env ''t1'' ''d1'' DISPUTE_LOST race_db = Inr d'" "\<not> is_ok (resolveDispute demo_env ''t1'' ''d1'' DISPUTE_WON d')"
      "accountBalanceCents d' ''t1'' CASH MAD = 1000" "accountBalanceCents d' ''t1'' AVAILABLE MAD = 0" "recoveries d' = []"
    unfolding x none race_available option.map coalesce_simps reversal_funding.case reversal_funding.distinct
    by (auto simp: all_accounts)
  then show ?thesis by auto
qed

text \<open>
  The second check does not prevent a second clawback. When two requests resolve the same dispute and both transactions have
  passed the check before either posts, both write: an amount that the balances covered is taken twice. (With a shortfall the
  second one fails on the recovery, which is unique.)
\<close>

lemma resolveDispute_claws_twice:
  assumes "resolveDispute_plan t i d = Inr (x, al)" "resolveDispute_check t i d = Inr ()" "uncovered al = 0"
  shows "\<exists>d1 d2. resolveDispute_write e t i (x, al) d = Inr d1 \<and> resolveDispute_write e2 t i (x, al) d1 = Inr d2 \<and>
    resolveDispute e t i DISPUTE_LOST d = Inr d1 \<and>
    accountBalanceCents d2 t CASH (di_currency x) = accountBalanceCents d t CASH (di_currency x) + 2 * coveredAmount al"
proof -
  have f: "0 \<le> fromAvailable al" "0 \<le> fromReserve al"
    using assms(1) by (auto simp: resolveDispute_plan_def Let_def split: option.splits dest!: fundReversal_spec)
  obtain d1 where w1: "resolveDispute_write e t i (x, al) d = Inr d1" using write_ok [of al d i e t x] assms(3) by auto
  obtain d2 where w2: "resolveDispute_write e2 t i (x, al) d1 = Inr d2" using write_ok [of al d1 i e2 t x] assms(3) by auto
  have "resolveDispute e t i DISPUTE_LOST d = Inr d1"
    using assms(1,2) w1 by (simp add: resolveDispute_def resolveDispute_commit_def)
  with w1 w2 write_balance [OF w1 f, of CASH] write_balance [OF w2 f, of CASH] show ?thesis by auto
qed

text \<open>
  The funding of a lost dispute is decided from a read before the transaction that executes it. If the tenant's payout
  is marked paid between the two, the clawback goes through and leaves AVAILABLE negative although the policy nets from
  the available balance only.
\<close>

lemma resolveDispute_stale_plan:
  "\<exists>plan d2 d3. resolveDispute_plan ''t1'' ''d1'' race_db = Inr plan \<and>
     markPayoutPaid demo_env ''t1'' ''po1'' None race_db = Inr d2 \<and>
     resolveDispute_commit demo_env ''t1'' ''d1'' plan d2 = Inr d3 \<and>
     accountBalanceCents d3 ''t1'' AVAILABLE MAD = - 1000"
proof -
  let ?al = "\<lparr>fromAvailable = 1000, fromReserve = 0, uncovered = 0\<rparr>"
  let ?l = "(debit AVAILABLE 1000 PAYOUT None MAD, credit PAID_OUT 1000 PAYOUT None MAD)"
  obtain d1 where m: "move demo_env ''t1'' (Some ''payout'') (Some ''po1'') ?l race_db = Inr d1"
    using moves_ok [of "[?l]" "Some ''payout''" "Some ''po1''" demo_env "''t1''" race_db] by (auto simp: moves_def to_posting_def)
  have "find (\<lambda>p. po_id p = ''po1'' \<and> po_tenantId p = ''t1'') (payouts race_db) = Some draft_payout"
    by (simp add: race_db_def draft_payout_def)
  then obtain d2 where paid: "markPayoutPaid demo_env ''t1'' ''po1'' None race_db = Inr d2" and d2: "ledgerEntries d2 = ledgerEntries d1"
      "disputes d2 = disputes d1"
    using m race_available [of AVAILABLE] by (simp add: markPayoutPaid_def draft_payout_def payout_TERMINAL_def Let_def)
  have "disputes d2 = [open_dispute]" using move_frame [OF m] d2(2) by (auto simp: race_db_def)
  then have "find (\<lambda>x. di_id x = ''d1'' \<and> di_tenantId x = ''t1'') (disputes d2) = Some open_dispute" by (simp add: open_dispute_def)
  then have "resolveDispute_check ''t1'' ''d1'' d2 = Inr ()" unfolding check_ok by (simp add: open_dispute_def)
  then obtain d3 where commit: "resolveDispute_commit demo_env ''t1'' ''d1'' (open_dispute, ?al) d2 = Inr d3"
    using write_ok [of ?al d2 "''d1''" demo_env "''t1''" open_dispute] by (auto simp: resolveDispute_commit_def)
  have e1: "ledger_effect ''t1'' [fst ?l, snd ?l] race_db d2" using effect_then [OF effect_move [OF m] d2(1)] .
  have e2: "ledger_effect ''t1'' (pair_legs (clawback_legs ?al MAD)) d2 d3"
    using write_run [OF commit_run(2) [OF commit]] booked_effect by (auto simp: open_dispute_def)
  have "accountBalanceCents d3 ''t1'' AVAILABLE MAD = - 1000"
    by (simp add: effect_balance [OF e2] effect_balance [OF e1] race_available clawback_legs_def)
  with race_plan paid commit show ?thesis by blast
qed

end
