(* ===== verification/FinanceConfig.thy ===== *)
theory FinanceConfig
  imports Schema
begin

text \<open>
  \<open>src/lib/finance-config.ts\<close> and \<open>finance-config-db.ts\<close>: the set of money-flow capabilities a tenant has enabled, its
  validation, its storage, and the gate the routes put in front of every feature.
\<close>

section \<open>Capabilities\<close>

definition FINANCE_CAPABILITIES :: "string list" where
  "FINANCE_CAPABILITIES =
     [''INSTANT_CAPTURE'', ''PREAUTH_CAPTURE'', ''WALLET'', ''SUBSCRIPTIONS'', ''INSTALLMENTS'', ''MARKETPLACE_SPLITS'']"

definition CAPTURE_DEPENDENT :: "string list" where
  "CAPTURE_DEPENDENT = [''SUBSCRIPTIONS'', ''INSTALLMENTS'', ''MARKETPLACE_SPLITS'']"

definition WALLET_COMMISSION_BASIS :: "string list" where
  "WALLET_COMMISSION_BASIS = [''usage'', ''load'']"

definition DEFAULT_WALLET_COMMISSION_BASIS :: string where
  "DEFAULT_WALLET_COMMISSION_BASIS = ''usage''"

datatype finance_config_code =
    UNKNOWN_CAPABILITY
  | DUPLICATE_CAPABILITY
  | REQUIRES_CAPTURE_FUNDING
  | INVALID_WALLET_COMMISSION_BASIS

record finance_config_violation =
  fv_code :: finance_config_code
  fv_message :: string
  fv_capability :: "string option"

definition FINANCE_PRESETS :: "(string \<times> string list) list" where
  "FINANCE_PRESETS =
     [(''standard'', [''INSTANT_CAPTURE'', ''PREAUTH_CAPTURE'', ''SUBSCRIPTIONS'', ''INSTALLMENTS'']),
      (''wallet'', [''WALLET'', ''INSTANT_CAPTURE'']),
      (''marketplace'', [''INSTANT_CAPTURE'', ''PREAUTH_CAPTURE'', ''MARKETPLACE_SPLITS'']),
      (''full'', [''INSTANT_CAPTURE'', ''PREAUTH_CAPTURE'', ''WALLET'', ''SUBSCRIPTIONS'', ''INSTALLMENTS'', ''MARKETPLACE_SPLITS''])]"

definition presetCapabilities :: "string \<Rightarrow> string list" where
  "presetCapabilities preset = coalesce (map_of FINANCE_PRESETS preset) []"

text \<open>The loop over the capabilities; \<open>enabled\<close> is the set built so far, \<open>vs\<close> the violations pushed so far.\<close>

fun capability_loop ::
  "string list \<Rightarrow> string list \<Rightarrow> finance_config_violation list \<Rightarrow> string list \<times> finance_config_violation list" where
  "capability_loop [] enabled vs = (enabled, vs)"
| "capability_loop (raw # rest) enabled vs =
     (if raw \<notin> set FINANCE_CAPABILITIES
      then capability_loop rest enabled
             (vs @ [\<lparr>fv_code = UNKNOWN_CAPABILITY, fv_message = ''Unknown finance capability: '' @ raw, fv_capability = None\<rparr>])
      else if raw \<in> set enabled
      then capability_loop rest enabled
             (vs @ [\<lparr>fv_code = DUPLICATE_CAPABILITY, fv_message = ''Duplicate finance capability: '' @ raw, fv_capability = Some raw\<rparr>])
      else capability_loop rest (enabled @ [raw]) vs)"

definition validateFinanceCapabilities :: "string list \<Rightarrow> finance_config_violation list" where
  "validateFinanceCapabilities capabilities =
     (let (enabled, vs) = capability_loop capabilities [] [];
          hasCapture = ''INSTANT_CAPTURE'' \<in> set enabled \<or> ''PREAUTH_CAPTURE'' \<in> set enabled
      in vs @ map (\<lambda>cap. \<lparr>fv_code = REQUIRES_CAPTURE_FUNDING,
                          fv_message = cap @ '' requires INSTANT_CAPTURE or PREAUTH_CAPTURE to be enabled'',
                          fv_capability = Some cap\<rparr>)
           (filter (\<lambda>cap. cap \<in> set enabled \<and> \<not> hasCapture) CAPTURE_DEPENDENT))"

text \<open>The value is unknown JSON; \<open>None\<close> stands for null and undefined.\<close>

definition validateWalletCommissionBasis :: "string option \<Rightarrow> finance_config_violation list" where
  "validateWalletCommissionBasis v =
     (case v of
        None \<Rightarrow> []
      | Some b \<Rightarrow>
          if b \<notin> set WALLET_COMMISSION_BASIS
          then [\<lparr>fv_code = INVALID_WALLET_COMMISSION_BASIS,
                 fv_message = ''Invalid wallet commission basis '' @ [CHR 0x22] @ b @ [CHR 0x22] @ ''; expected usage or load'',
                 fv_capability = None\<rparr>]
          else [])"

definition validateFinanceConfig :: "string list \<Rightarrow> string option \<Rightarrow> finance_config_violation list" where
  "validateFinanceConfig capabilities basis =
     validateFinanceCapabilities capabilities @ validateWalletCommissionBasis basis"

section \<open>Persistence\<close>

definition DEFAULT_FINANCE_PRESET :: string where
  "DEFAULT_FINANCE_PRESET = ''full''"

definition getFinanceConfig :: "db \<Rightarrow> string \<Rightarrow> finance_config option" where
  "getFinanceConfig d tenantId = find (\<lambda>r. fc_tenantId r = tenantId) (financeConfigs d)"

definition getEffectiveCapabilities :: "db \<Rightarrow> string \<Rightarrow> string list" where
  "getEffectiveCapabilities d tenantId =
     (case getFinanceConfig d tenantId of
        None \<Rightarrow> presetCapabilities DEFAULT_FINANCE_PRESET
      | Some row \<Rightarrow> fc_capabilities row)"

definition resolveWalletCommissionBasis :: "finance_config option \<Rightarrow> string" where
  "resolveWalletCommissionBasis row =
     (if map_option fc_walletCommissionBasis row = Some ''load'' then ''load'' else DEFAULT_WALLET_COMMISSION_BASIS)"

definition getEffectiveWalletCommissionBasis :: "db \<Rightarrow> string \<Rightarrow> string" where
  "getEffectiveWalletCommissionBasis d tenantId = resolveWalletCommissionBasis (getFinanceConfig d tenantId)"

text \<open>\<open>[...new Set(xs)]\<close>: first occurrences, in order.\<close>

definition js_set :: "'a list \<Rightarrow> 'a list" where
  "js_set xs = rev (remdups (rev xs))"

record upsert_finance_config_input =
  fci_capabilities :: "string list"
  fci_preset :: "string option"
  fci_walletCommissionBasis :: "string option"

definition upsertFinanceConfig :: "string \<Rightarrow> upsert_finance_config_input \<Rightarrow> db \<Rightarrow> (finance_config \<times> db) result" where
  "upsertFinanceConfig tenantId input d =
     (if length (validateFinanceConfig (fci_capabilities input) (fci_walletCommissionBasis input)) > 0
      then Inl (AppError 422 ''INVALID_FINANCE_CONFIG'')
      else
        let normalized = js_set (fci_capabilities input);
            basis = coalesce (fci_walletCommissionBasis input) DEFAULT_WALLET_COMMISSION_BASIS;
            row = \<lparr>fc_tenantId = tenantId, fc_capabilities = normalized,
                   fc_preset = coalesce (fci_preset input) ''custom'', fc_walletCommissionBasis = basis\<rparr>
        in Inr (row, d\<lparr>financeConfigs :=
             (if getFinanceConfig d tenantId = None then financeConfigs d @ [row]
              else map (\<lambda>r. if fc_tenantId r = tenantId then row else r) (financeConfigs d))\<rparr>))"

definition requireCapability :: "db \<Rightarrow> string \<Rightarrow> string \<Rightarrow> unit result" where
  "requireCapability d tenantId capability =
     (if capability \<notin> set (getEffectiveCapabilities d tenantId)
      then Inl (AppError 403 ''CAPABILITY_DISABLED'') else Inr ())"

section \<open>Lemmas\<close>

lemma js_set_distinct: "distinct xs \<Longrightarrow> js_set xs = xs"
  by (simp add: js_set_def distinct_remdups_id)

lemma capability_loop_ok:
  "set enabled \<inter> set caps = {} \<Longrightarrow> distinct caps \<Longrightarrow> set caps \<subseteq> set FINANCE_CAPABILITIES \<Longrightarrow>
     capability_loop caps enabled vs = (enabled @ caps, vs)"
  by (induction caps arbitrary: enabled) auto

lemma capability_loop_violations: "vs \<noteq> [] \<Longrightarrow> snd (capability_loop caps enabled vs) \<noteq> []"
  by (induction caps arbitrary: enabled vs) auto

lemma capability_loop_bad:
  "snd (capability_loop caps enabled []) = [] \<Longrightarrow>
     set enabled \<inter> set caps = {} \<and> distinct caps \<and> set caps \<subseteq> set FINANCE_CAPABILITIES"
proof (induction caps arbitrary: enabled)
  case (Cons a caps)
  then have a: "a \<in> set FINANCE_CAPABILITIES" "a \<notin> set enabled" "snd (capability_loop caps (enabled @ [a]) []) = []"
    using capability_loop_violations [of "[_]" caps enabled] by (auto split: if_splits)
  with Cons.IH [OF a(3)] show ?case by auto
qed simp

definition workable :: "string list \<Rightarrow> bool" where
  "workable caps \<longleftrightarrow> distinct caps \<and> set caps \<subseteq> set FINANCE_CAPABILITIES \<and>
     (set caps \<inter> {''SUBSCRIPTIONS'', ''INSTALLMENTS'', ''MARKETPLACE_SPLITS''} = {} \<or>
      ''INSTANT_CAPTURE'' \<in> set caps \<or> ''PREAUTH_CAPTURE'' \<in> set caps)"

lemma validateFinanceCapabilities_iff: "validateFinanceCapabilities caps = [] \<longleftrightarrow> workable caps"
proof (cases "distinct caps \<and> set caps \<subseteq> set FINANCE_CAPABILITIES")
  case True
  then have "capability_loop caps [] [] = (caps, [])" using capability_loop_ok [of "[]" caps "[]"] by simp
  with True show ?thesis
    by (auto simp: validateFinanceCapabilities_def workable_def CAPTURE_DEPENDENT_def split: if_splits)
next
  case False
  then have "snd (capability_loop caps [] []) \<noteq> []" using capability_loop_bad [of caps "[]"] by auto
  with False show ?thesis
    by (auto simp: validateFinanceCapabilities_def workable_def Let_def split: prod.splits)
qed

lemma validateWalletCommissionBasis_iff:
  "validateWalletCommissionBasis b = [] \<longleftrightarrow> (\<forall>v. b = Some v \<longrightarrow> v \<in> set WALLET_COMMISSION_BASIS)"
  by (simp add: validateWalletCommissionBasis_def split: option.split)

lemma getFinanceConfig_upsert:
  assumes "upsertFinanceConfig t input d = Inr (row, d')"
  shows "getFinanceConfig d' u = (if u = t then Some row else getFinanceConfig d u)"
proof -
  have map: "find (\<lambda>r. fc_tenantId r = u) (map (\<lambda>r. if fc_tenantId r = t then row else r) xs) =
      (if u = t then (if find (\<lambda>r. fc_tenantId r = t) xs = None then None else Some row) else find (\<lambda>r. fc_tenantId r = u) xs)"
    if "fc_tenantId row = t" for xs using that by (induction xs) auto
  have row: "fc_tenantId row = t" and tab: "financeConfigs d' =
      (if getFinanceConfig d t = None then financeConfigs d @ [row]
       else map (\<lambda>r. if fc_tenantId r = t then row else r) (financeConfigs d))"
    using assms by (auto simp: upsertFinanceConfig_def Let_def split: if_splits)
  show ?thesis
    unfolding getFinanceConfig_def [of d'] tab
    by (cases "find (\<lambda>r. fc_tenantId r = t) (financeConfigs d)")
       (simp_all add: map [OF row] getFinanceConfig_def find_append row split: option.split)
qed

section \<open>Properties\<close>

text \<open>
  Storing a finance configuration. \<open>upsertFinanceConfig\<close> accepts exactly the workable capability sets
  (known, without duplicates, and with a card-capture method whenever subscriptions, installments or splits are on) with a
  known commission basis; afterwards the tenant's effective capabilities and basis are the ones stored,
  \<open>requireCapability\<close> admits exactly those capabilities, and no other tenant's configuration has changed.
\<close>

lemma upsertFinanceConfig_correct:
  defines "ok input \<equiv> workable (fci_capabilities input) \<and>
    (\<forall>b. fci_walletCommissionBasis input = Some b \<longrightarrow> b \<in> set WALLET_COMMISSION_BASIS)"
  shows "(\<not> ok input \<longrightarrow> upsertFinanceConfig t input d = Inl (AppError 422 ''INVALID_FINANCE_CONFIG'')) \<and>
    (ok input \<longrightarrow> (\<exists>row d'. upsertFinanceConfig t input d = Inr (row, d') \<and>
       getEffectiveCapabilities d' t = fci_capabilities input \<and>
       getEffectiveWalletCommissionBasis d' t = coalesce (fci_walletCommissionBasis input) ''usage'' \<and>
       (\<forall>cap. is_ok (requireCapability d' t cap) \<longleftrightarrow> cap \<in> set (fci_capabilities input)) \<and>
       (\<forall>u. u \<noteq> t \<longrightarrow> getFinanceConfig d' u = getFinanceConfig d u)))"
proof (cases "ok input")
  case False
  then show ?thesis
    by (auto simp: ok_def upsertFinanceConfig_def validateFinanceConfig_def validateFinanceCapabilities_iff
        validateWalletCommissionBasis_iff)
next
  case True
  then have v: "validateFinanceConfig (fci_capabilities input) (fci_walletCommissionBasis input) = []"
    by (simp add: ok_def validateFinanceConfig_def validateFinanceCapabilities_iff validateWalletCommissionBasis_iff)
  then obtain row d' where r: "upsertFinanceConfig t input d = Inr (row, d')"
    by (simp add: upsertFinanceConfig_def Let_def)
  have "fc_capabilities row = fci_capabilities input"
    "fc_walletCommissionBasis row = coalesce (fci_walletCommissionBasis input) ''usage''"
    using r v True by (auto simp: upsertFinanceConfig_def Let_def ok_def workable_def js_set_distinct
        DEFAULT_WALLET_COMMISSION_BASIS_def)
  moreover have "coalesce (fci_walletCommissionBasis input) ''usage'' \<in> {''usage'', ''load''}"
    using True by (auto simp: ok_def WALLET_COMMISSION_BASIS_def coalesce_def split: option.splits)
  ultimately show ?thesis
    using r True getFinanceConfig_upsert [OF r]
    by (auto simp: getEffectiveCapabilities_def getEffectiveWalletCommissionBasis_def resolveWalletCommissionBasis_def
        requireCapability_def DEFAULT_WALLET_COMMISSION_BASIS_def)
qed

end
