(* ===== verification/Wallet.thy ===== *)
theory Wallet
  imports ConfigDb LedgerDb FinanceConfig
begin

text \<open>
  \<open>src/lib/wallet.ts\<close> and \<open>wallet-db.ts\<close>: customer stored value. Every operation records a signed transaction, updates
  the wallet's cached balance and posts the matching ledger movements; the invariant ties the three together.
\<close>

section \<open>Pure movements\<close>

definition ZERO_FEE_SCHEDULE :: fee_schedule_spec where
  "ZERO_FEE_SCHEDULE =
     \<lparr>feeType = FLAT, flatCents = Some 0, percentageBps = None, perMethodCents = None, tiersCents = None\<rparr>"

record wallet_movement =
  signedAmountCents :: centimes
  balanceAfterCents :: centimes

record wallet_debit = wallet_movement +
  wd_feeCents :: centimes
  wd_netCents :: centimes

record wallet_top_up = wallet_movement +
  wu_grossCents :: centimes
  wu_feeCents :: centimes
  wu_netCents :: centimes

definition computeBalance :: "centimes list \<Rightarrow> centimes" where
  "computeBalance signed = fold (\<lambda>b a. a + b) signed 0"

definition applyMovement :: "centimes \<Rightarrow> centimes \<Rightarrow> centimes" where
  "applyMovement balance signed = balance + signed"

definition walletTopUp :: "centimes \<Rightarrow> centimes \<Rightarrow> wallet_movement result" where
  "walletTopUp balance amount =
     (if amount \<le> 0 then Inl (WalletError ''top-up amount must be positive'' ''WALLET_INVALID_AMOUNT'')
      else Inr \<lparr>signedAmountCents = amount, balanceAfterCents = applyMovement balance amount\<rparr>)"

definition walletDebit :: "centimes \<Rightarrow> centimes \<Rightarrow> wallet_movement result" where
  "walletDebit balance amount =
     (if amount \<le> 0 then Inl (WalletError ''debit amount must be positive'' ''WALLET_INVALID_AMOUNT'')
      else if amount > balance then Inl (WalletError ''insufficient wallet balance'' ''WALLET_INSUFFICIENT_BALANCE'')
      else Inr \<lparr>signedAmountCents = - amount, balanceAfterCents = applyMovement balance (- amount)\<rparr>)"

definition debitWithFee :: "centimes \<Rightarrow> centimes \<Rightarrow> fee_schedule_spec \<Rightarrow> string option \<Rightarrow> wallet_debit result" where
  "debitWithFee balance amount schedule meth =
     ebind (computeFee schedule amount meth) (\<lambda>fee.
     ebind (walletDebit balance amount) (\<lambda>m.
       Inr (wallet_movement.extend m \<lparr>wd_feeCents = fee, wd_netCents = amount - fee\<rparr>)))"

definition topUpWithFee :: "centimes \<Rightarrow> centimes \<Rightarrow> fee_schedule_spec \<Rightarrow> string option \<Rightarrow> wallet_top_up result" where
  "topUpWithFee balance gross schedule meth =
     (if gross \<le> 0 then Inl (WalletError ''top-up amount must be positive'' ''WALLET_INVALID_AMOUNT'')
      else ebind (computeFee schedule gross meth) (\<lambda>fee.
        let netC = gross - fee
        in if netC \<le> 0 then Inl (WalletError ''top-up fee exceeds the top-up amount'' ''WALLET_FEE_EXCEEDS_AMOUNT'')
           else Inr \<lparr>signedAmountCents = netC, balanceAfterCents = applyMovement balance netC,
                     wu_grossCents = gross, wu_feeCents = fee, wu_netCents = netC\<rparr>))"

definition walletRefund :: "centimes \<Rightarrow> centimes \<Rightarrow> wallet_movement result" where
  "walletRefund balance amount =
     (if amount \<le> 0 then Inl (WalletError ''refund amount must be positive'' ''WALLET_INVALID_AMOUNT'')
      else Inr \<lparr>signedAmountCents = amount, balanceAfterCents = applyMovement balance amount\<rparr>)"

definition walletAdjustment :: "centimes \<Rightarrow> centimes \<Rightarrow> wallet_movement result" where
  "walletAdjustment balance signed =
     (let after = applyMovement balance signed
      in if after < 0 then Inl (WalletError ''adjustment would overdraw the wallet'' ''WALLET_INSUFFICIENT_BALANCE'')
         else Inr \<lparr>signedAmountCents = signed, balanceAfterCents = after\<rparr>)"

section \<open>Persistence\<close>

definition createWallet :: "env \<Rightarrow> string \<Rightarrow> wallet_owner_type \<Rightarrow> string \<Rightarrow> currency option \<Rightarrow> db \<Rightarrow> wallet \<times> db" where
  "createWallet e tenantId ownerType ownerId cur d =
     (case find (\<lambda>w. wl_tenantId w = tenantId \<and> wl_ownerType w = ownerType \<and> wl_ownerId w = ownerId) (wallets d) of
        Some w \<Rightarrow> (w, d)
      | None \<Rightarrow>
          let w = \<lparr>wl_id = fresh e d, wl_tenantId = tenantId, wl_ownerType = ownerType, wl_ownerId = ownerId,
                   wl_balance = 0, wl_currency = coalesce cur MAD, wl_status = WALLET_ACTIVE\<rparr>
          in (w, (bump d)\<lparr>wallets := wallets d @ [w]\<rparr>))"

definition getWallet :: "db \<Rightarrow> string \<Rightarrow> string \<Rightarrow> (wallet \<times> wallet_transaction list) option" where
  "getWallet d tenantId i =
     map_option (\<lambda>w. (w, filter (\<lambda>x. wt_walletId x = wl_id w) (walletTransactions d)))
       (find (\<lambda>w. wl_id w = i \<and> wl_tenantId w = tenantId) (wallets d))"

definition loadActiveWallet :: "string \<Rightarrow> string \<Rightarrow> db \<Rightarrow> wallet result" where
  "loadActiveWallet tenantId walletId d =
     (case find (\<lambda>w. wl_id w = walletId \<and> wl_tenantId w = tenantId) (wallets d) of
        None \<Rightarrow> Inl (WalletError ''wallet not found'' ''WALLET_NOT_FOUND'')
      | Some w \<Rightarrow> if wl_status w \<noteq> WALLET_ACTIVE then Inl (WalletError ''wallet is not active'' ''WALLET_NOT_ACTIVE'')
                  else Inr w)"

definition recordMovement ::
  "env \<Rightarrow> string \<Rightarrow> wallet \<Rightarrow> wallet_tx_type \<Rightarrow> centimes \<Rightarrow> centimes \<Rightarrow> string \<Rightarrow> string \<Rightarrow> db
     \<Rightarrow> (wallet \<times> wallet_transaction) \<times> db" where
  "recordMovement e tenantId w ty signed after sourceType sourceId d =
     (let x = \<lparr>wt_id = fresh e d, wt_walletId = wl_id w, wt_tenantId = tenantId, wt_type = ty,
               wt_amount = signed, wt_currency = wl_currency w, wt_balanceAfter = after,
               wt_sourceType = sourceType, wt_sourceId = sourceId\<rparr>
      in ((w\<lparr>wl_balance := after\<rparr>, x),
          (bump d)\<lparr>walletTransactions := walletTransactions d @ [x],
                   wallets := map (\<lambda>r. if wl_id r = wl_id w then r\<lparr>wl_balance := after\<rparr> else r) (wallets d)\<rparr>))"

text \<open>The fee schedule both commission bases resolve: the active schedule, or the preset of the tenant's industry.\<close>

definition wallet_fee_of :: "db \<Rightarrow> string \<Rightarrow> fee_schedule_spec" where
  "wallet_fee_of d tenantId =
     resolveFeeSpec (find (\<lambda>r. fs_tenantId r = tenantId \<and> fs_isActive r) (feeSchedules d))
       (Option.bind (find (\<lambda>r. sp_tenantId r = tenantId \<and> sp_isActive r) (settlementPolicies d)) industry)"

definition wallet_moves :: "env \<Rightarrow> string \<Rightarrow> wallet \<Rightarrow> (ledger_leg \<times> ledger_leg) list \<Rightarrow> db \<Rightarrow> db result" where
  "wallet_moves e tenantId w legs d = moves e tenantId (Some ''wallet'') (Some (wl_id w)) legs d"

definition top_up_source :: "wallet \<Rightarrow> string option \<Rightarrow> string \<times> string" where
  "top_up_source w paymentIntentId =
     ((if paymentIntentId = None \<or> paymentIntentId = Some '''' then ''wallet_topup'' else ''payment_intent''),
      coalesce paymentIntentId (wl_id w))"

definition topUpWallet ::
  "env \<Rightarrow> string \<Rightarrow> string \<Rightarrow> centimes \<Rightarrow> string option \<Rightarrow> db \<Rightarrow> ((wallet \<times> wallet_transaction) \<times> db) result" where
  "topUpWallet e tenantId i amount paymentIntentId d =
     ebind (loadActiveWallet tenantId i d) (\<lambda>w.
       let c = wl_currency w; src = top_up_source w paymentIntentId
       in if getEffectiveWalletCommissionBasis d tenantId = ''load''
          then ebind (topUpWithFee (wl_balance w) amount (wallet_fee_of d tenantId) None) (\<lambda>m.
               ebind (wallet_moves e tenantId w
                 ([(debit CASH (wu_grossCents m) CAPTURE None c, credit WALLET (wu_grossCents m) CAPTURE None c)] @
                  (if wu_feeCents m > 0
                   then [(debit WALLET (wu_feeCents m) FEE None c, credit FEES (wu_feeCents m) FEE None c)] else [])) d) (\<lambda>d1.
               Inr (recordMovement e tenantId w TX_TOP_UP (signedAmountCents m) (balanceAfterCents m) (fst src) (snd src) d1)))
          else ebind (walletTopUp (wl_balance w) amount) (\<lambda>m.
               ebind (wallet_moves e tenantId w
                 [(debit CASH amount CAPTURE None c, credit WALLET amount CAPTURE None c)] d) (\<lambda>d1.
               Inr (recordMovement e tenantId w TX_TOP_UP (signedAmountCents m) (balanceAfterCents m) (fst src) (snd src) d1))))"

definition debitWallet ::
  "env \<Rightarrow> string \<Rightarrow> string \<Rightarrow> centimes \<Rightarrow> string option \<Rightarrow> db \<Rightarrow> ((wallet \<times> wallet_transaction) \<times> db) result" where
  "debitWallet e tenantId i amount meth d =
     ebind (loadActiveWallet tenantId i d) (\<lambda>w.
       let c = wl_currency w
       in if getEffectiveWalletCommissionBasis d tenantId = ''load''
          then ebind (walletDebit (wl_balance w) amount) (\<lambda>m.
               ebind (wallet_moves e tenantId w
                 [(debit WALLET amount CAPTURE None c, credit AVAILABLE amount CAPTURE None c)] d) (\<lambda>d1.
               Inr (recordMovement e tenantId w TX_DEBIT (signedAmountCents m) (balanceAfterCents m) ''wallet_debit'' (wl_id w) d1)))
          else ebind (debitWithFee (wl_balance w) amount (wallet_fee_of d tenantId) meth) (\<lambda>m.
               ebind (wallet_moves e tenantId w
                 ([(debit WALLET amount CAPTURE None c, credit AVAILABLE amount CAPTURE None c)] @
                  (if wd_feeCents m > 0
                   then [(debit AVAILABLE (wd_feeCents m) FEE None c, credit FEES (wd_feeCents m) FEE None c)] else [])) d) (\<lambda>d1.
               Inr (recordMovement e tenantId w TX_DEBIT (signedAmountCents m) (balanceAfterCents m) ''wallet_debit'' (wl_id w) d1))))"

definition refundWallet ::
  "env \<Rightarrow> string \<Rightarrow> string \<Rightarrow> centimes \<Rightarrow> db \<Rightarrow> ((wallet \<times> wallet_transaction) \<times> db) result" where
  "refundWallet e tenantId i amount d =
     ebind (loadActiveWallet tenantId i d) (\<lambda>w.
     ebind (walletRefund (wl_balance w) amount) (\<lambda>m.
     ebind (wallet_moves e tenantId w
       [(debit AVAILABLE amount REFUND None (wl_currency w), credit WALLET amount REFUND None (wl_currency w))] d) (\<lambda>d1.
       Inr (recordMovement e tenantId w TX_REFUND (signedAmountCents m) (balanceAfterCents m) ''wallet_refund'' (wl_id w) d1))))"

definition adjustWallet ::
  "env \<Rightarrow> string \<Rightarrow> string \<Rightarrow> centimes \<Rightarrow> db \<Rightarrow> ((wallet \<times> wallet_transaction) \<times> db) result" where
  "adjustWallet e tenantId i signed d =
     ebind (loadActiveWallet tenantId i d) (\<lambda>w.
     ebind (walletAdjustment (wl_balance w) signed) (\<lambda>m.
       let c = wl_currency w; n = \<bar>signed\<bar>
       in ebind (wallet_moves e tenantId w
            (if signed > 0 then [(debit AVAILABLE n ADJUSTMENT None c, credit WALLET n ADJUSTMENT None c)]
             else if signed < 0 then [(debit WALLET n ADJUSTMENT None c, credit AVAILABLE n ADJUSTMENT None c)]
             else []) d) (\<lambda>d1.
          Inr (recordMovement e tenantId w TX_ADJUSTMENT (signedAmountCents m) (balanceAfterCents m) ''wallet_adjust'' (wl_id w) d1))))"

section \<open>The contract of a wallet operation\<close>

text \<open>
  What the four money movements share: an active wallet of the tenant is found, balanced postings are booked whose effect on
  the WALLET account is exactly the signed amount in the wallet's currency, and the movement is recorded. From this alone the
  invariant follows.
\<close>

definition wallet_sum :: "db \<Rightarrow> string \<Rightarrow> centimes" where
  "wallet_sum d i = (\<Sum>x\<leftarrow>filter (\<lambda>x. wt_walletId x = i) (walletTransactions d). wt_amount x)"

definition held_total :: "wallet list \<Rightarrow> string \<Rightarrow> currency \<Rightarrow> centimes" where
  "held_total ws t c = (\<Sum>w\<leftarrow>filter (\<lambda>w. wl_tenantId w = t \<and> wl_currency w = c) ws. wl_balance w)"

definition wallet_inv :: "(nat \<Rightarrow> string) \<Rightarrow> db \<Rightarrow> bool" where
  "wallet_inv g d \<longleftrightarrow>
     distinct (map wl_id (wallets d)) \<and> wl_id ` set (wallets d) \<subseteq> g ` {..<seq d} \<and>
     wt_walletId ` set (walletTransactions d) \<subseteq> wl_id ` set (wallets d) \<and>
     (\<forall>w\<in>set (wallets d). wl_balance w = wallet_sum d (wl_id w) \<and> 0 \<le> wl_balance w) \<and>
     (\<forall>t c. accountBalanceCents d t WALLET c = held_total (wallets d) t c)"

lemma held_total_append [simp]: "held_total (xs @ ys) t c = held_total xs t c + held_total ys t c"
  by (simp add: held_total_def)

lemma held_total_update:
  assumes "distinct (map wl_id ws)" "w \<in> set ws"
  shows "held_total (map (\<lambda>r. if wl_id r = wl_id w then r\<lparr>wl_balance := n\<rparr> else r) ws) t c =
    held_total ws t c + (if wl_tenantId w = t \<and> wl_currency w = c then n - wl_balance w else 0)"
  using assms
proof (induction ws)
  case (Cons x ws)
  show ?case
  proof (cases "wl_id x = wl_id w")
    case True
    with Cons.prems have "x = w" by (force)
    moreover from True Cons.prems have "map (\<lambda>r. if wl_id r = wl_id w then r\<lparr>wl_balance := n\<rparr> else r) ws = ws"
      by (intro map_if_none) (auto simp: image_iff)
    ultimately show ?thesis by (simp add: held_total_def)
  next
    case False
    with Cons show ?thesis by (auto simp: held_total_def)
  qed
qed simp

lemma recordMovement_inv:
  assumes inv: "wallet_inv g d" and w: "find (\<lambda>w. wl_id w = i \<and> wl_tenantId w = t) (wallets d) = Some w"
    and m: "wallet_moves e t w legs d = Inr d1"
    and legs: "\<forall>c. balanceOf (pair_legs legs) WALLET c = (if c = wl_currency w then signed else 0)"
    and nn: "0 \<le> wl_balance w + signed"
  shows "wallet_inv g (snd (recordMovement e t w ty signed (wl_balance w + signed) st si d1))"
proof -
  from find_SomeD [OF w] have wm: "w \<in> set (wallets d)" and wt: "wl_tenantId w = t" by auto
  from inv have I: "distinct (map wl_id (wallets d))" "wl_id ` set (wallets d) \<subseteq> g ` {..<seq d}"
    "wt_walletId ` set (walletTransactions d) \<subseteq> wl_id ` set (wallets d)"
    "\<And>v. v \<in> set (wallets d) \<Longrightarrow> wl_balance v = wallet_sum d (wl_id v) \<and> 0 \<le> wl_balance v"
    "\<And>t c. accountBalanceCents d t WALLET c = held_total (wallets d) t c" by (auto simp: wallet_inv_def)
  from moves_appends [OF m [unfolded wallet_moves_def]] obtain n rows where d1: "d1 = d\<lparr>seq := n, ledgerEntries := rows\<rparr>" and n: "seq d \<le> n"
    unfolding appends_def by (elim exE conjE) (rule that)
  have bal: "accountBalanceCents d1 u WALLET c = held_total (wallets d) u c + (if u = t \<and> c = wl_currency w then signed else 0)" for u c
    using moves_balance [OF m [unfolded wallet_moves_def], of u WALLET c] legs I(5) by simp
  let ?d' = "snd (recordMovement e t w ty signed (wl_balance w + signed) st si d1)"
  let ?ws = "map (\<lambda>r. if wl_id r = wl_id w then r\<lparr>wl_balance := wl_balance w + signed\<rparr> else r) (wallets d)"
  have ws: "wallets ?d' = ?ws" and sq: "seq ?d' = Suc n" by (simp_all add: recordMovement_def Let_def bump_def d1)
  have ids: "map wl_id ?ws = map wl_id (wallets d)" by simp
  have sum: "wallet_sum ?d' k = wallet_sum d k + (if k = wl_id w then signed else 0)" for k
    by (simp add: wallet_sum_def recordMovement_def Let_def bump_def d1)
  have each: "wl_balance v = wallet_sum ?d' (wl_id v) \<and> 0 \<le> wl_balance v" if v: "v \<in> set ?ws" for v
  proof (cases "wl_id v = wl_id w")
    case True
    from updated_row [of v "\<lambda>r. wl_id r = wl_id w", OF v True, of "\<lambda>v. wl_balance v = wl_balance w + signed"] nn I(4) [OF wm] True
    show ?thesis unfolding sum by simp
  next
    case False
    with v have "v \<in> set (wallets d)" by (auto split: if_splits)
    with I(4) [of v] False show ?thesis unfolding sum by simp
  qed
  have acc: "accountBalanceCents ?d' u WALLET c = held_total ?ws u c" for u c
    using bal [of u c] held_total_update [OF I(1) wm, of "wl_balance w + signed" u c] wt
    by (auto simp: recordMovement_def Let_def bump_def)
  have idset: "wl_id ` set ?ws = wl_id ` set (wallets d)" using arg_cong [OF ids, of set] by (simp only: list.set_map)
  have tx: "wt_walletId ` set (walletTransactions ?d') \<subseteq> wl_id ` set ?ws"
    unfolding idset using I(3) wm by (auto simp: recordMovement_def Let_def bump_def d1)
  have g: "wl_id ` set ?ws \<subseteq> g ` {..<Suc n}"
    unfolding idset using n by (intro subset_trans [OF I(2)] image_mono) auto
  show ?thesis
    unfolding wallet_inv_def ws sq ids using I(1) each acc tx g by blast
qed

lemma computeFee_pos: "computeFee s amount meth = Inr fee \<Longrightarrow> 0 \<le> fee"
  by (auto simp: computeFee_def percentFee_def Let_def split: if_splits fee_type.splits option.splits dest: applyBps_nonneg)

locale wallet_operation =
  fixes run :: "env \<Rightarrow> string \<Rightarrow> string \<Rightarrow> 'i \<Rightarrow> db \<Rightarrow> ((wallet \<times> wallet_transaction) \<times> db) result"
  assumes run_shape: "run e t i x d = Inr (r, d') \<Longrightarrow>
    \<exists>w signed legs d1 ty st si. loadActiveWallet t i d = Inr w \<and>
      (0 \<le> wl_balance w \<longrightarrow> 0 \<le> wl_balance w + signed) \<and> wallet_moves e t w legs d = Inr d1 \<and>
      (\<forall>c. balanceOf (pair_legs legs) WALLET c = (if c = wl_currency w then signed else 0)) \<and>
      (r, d') = recordMovement e t w ty signed (wl_balance w + signed) st si d1"
begin

lemma run_inv:
  assumes "wallet_inv g d" "run e t i x d = Inr (r, d')"
  shows "wallet_inv g d'"
proof -
  from run_shape [OF assms(2)] obtain w signed legs d1 ty st si where
    w: "loadActiveWallet t i d = Inr w" and nn: "0 \<le> wl_balance w \<longrightarrow> 0 \<le> wl_balance w + signed"
    and m: "wallet_moves e t w legs d = Inr d1"
    and legs: "\<forall>c. balanceOf (pair_legs legs) WALLET c = (if c = wl_currency w then signed else 0)"
    and d': "(r, d') = recordMovement e t w ty signed (wl_balance w + signed) st si d1" by (elim exE conjE) (rule that)
  from w have f: "find (\<lambda>w. wl_id w = i \<and> wl_tenantId w = t) (wallets d) = Some w"
    by (auto simp: loadActiveWallet_def split: option.splits if_splits)
  with assms(1) have "0 \<le> wl_balance w" by (auto simp: wallet_inv_def dest: find_SomeD)
  with nn recordMovement_inv [OF assms(1) f m legs, of ty st si] show ?thesis
    unfolding d' [symmetric] by simp
qed

lemma run_balanced: "run e t i x d = Inr (r, d') \<Longrightarrow> isBalanced (tenant_legs u d) \<Longrightarrow> isBalanced (tenant_legs u d')"
proof -
  assume "run e t i x d = Inr (r, d')" and b: "isBalanced (tenant_legs u d)"
  from run_shape [OF this(1)] obtain w signed legs d1 ty st si where m: "wallet_moves e t w legs d = Inr d1"
    and d': "(r, d') = recordMovement e t w ty signed (wl_balance w + signed) st si d1" by (elim exE conjE) (rule that)
  from d' have "tenant_legs u d' = tenant_legs u d1" by (simp add: recordMovement_def Let_def bump_def)
  with moves_balanced [OF m [unfolded wallet_moves_def] b] show ?thesis by simp
qed

end

interpretation top_up: wallet_operation "\<lambda>e t i x. topUpWallet e t i (fst x) (snd x)"
proof (unfold_locales, goal_cases)
  case (1 e t i x d r d')
  then obtain w where w: "loadActiveWallet t i d = Inr w" by (auto simp: topUpWallet_def)
  let ?c = "wl_currency w" and ?src = "top_up_source w (snd x)"
  show ?case
  proof (cases "getEffectiveWalletCommissionBasis d t = ''load''")
    case True
    with 1 w obtain m d1 where m: "topUpWithFee (wl_balance w) (fst x) (wallet_fee_of d t) None = Inr m"
      and mv: "wallet_moves e t w ([(debit CASH (wu_grossCents m) CAPTURE None ?c, credit WALLET (wu_grossCents m) CAPTURE None ?c)] @
         (if wu_feeCents m > 0 then [(debit WALLET (wu_feeCents m) FEE None ?c, credit FEES (wu_feeCents m) FEE None ?c)] else [])) d = Inr d1"
      and r: "(r, d') = recordMovement e t w TX_TOP_UP (signedAmountCents m) (balanceAfterCents m) (fst ?src) (snd ?src) d1"
      by (auto simp: topUpWallet_def Let_def)
    from m have f: "signedAmountCents m = wu_grossCents m - wu_feeCents m" "balanceAfterCents m = wl_balance w + signedAmountCents m"
      "0 < signedAmountCents m" "0 \<le> wu_feeCents m"
      by (auto simp: topUpWithFee_def Let_def applyMovement_def split: if_splits dest: computeFee_pos)
    show ?thesis
      by (rule exI [of _ w], rule exI [of _ "signedAmountCents m"], intro exI conjI)
         (rule w, use f in simp, rule mv, use f in \<open>auto simp: not_less\<close>, use f r in simp)
  next
    case False
    with 1 w obtain m d1 where m: "walletTopUp (wl_balance w) (fst x) = Inr m"
      and mv: "wallet_moves e t w [(debit CASH (fst x) CAPTURE None ?c, credit WALLET (fst x) CAPTURE None ?c)] d = Inr d1"
      and r: "(r, d') = recordMovement e t w TX_TOP_UP (signedAmountCents m) (balanceAfterCents m) (fst ?src) (snd ?src) d1"
      by (auto simp: topUpWallet_def Let_def)
    from m have f: "signedAmountCents m = fst x" "balanceAfterCents m = wl_balance w + signedAmountCents m" "0 < fst x"
      by (auto simp: walletTopUp_def applyMovement_def split: if_splits)
    show ?thesis
      by (rule exI [of _ w], rule exI [of _ "signedAmountCents m"], intro exI conjI)
         (rule w, use f in simp, rule mv, use f in simp, use f r in simp)
  qed
qed

interpretation draw_down: wallet_operation "\<lambda>e t i x. debitWallet e t i (fst x) (snd x)"
proof (unfold_locales, goal_cases)
  case (1 e t i x d r d')
  then obtain w where w: "loadActiveWallet t i d = Inr w" by (auto simp: debitWallet_def)
  let ?c = "wl_currency w"
  show ?case
  proof (cases "getEffectiveWalletCommissionBasis d t = ''load''")
    case True
    with 1 w obtain m d1 where m: "walletDebit (wl_balance w) (fst x) = Inr m"
      and mv: "wallet_moves e t w [(debit WALLET (fst x) CAPTURE None ?c, credit AVAILABLE (fst x) CAPTURE None ?c)] d = Inr d1"
      and r: "(r, d') = recordMovement e t w TX_DEBIT (signedAmountCents m) (balanceAfterCents m) ''wallet_debit'' (wl_id w) d1"
      by (auto simp: debitWallet_def Let_def)
    from m have f: "signedAmountCents m = - fst x" "balanceAfterCents m = wl_balance w + signedAmountCents m" "fst x \<le> wl_balance w"
      by (auto simp: walletDebit_def applyMovement_def split: if_splits)
    show ?thesis
      by (rule exI [of _ w], rule exI [of _ "signedAmountCents m"], intro exI conjI)
         (rule w, use f in simp, rule mv, use f in simp, use f r in simp)
  next
    case False
    with 1 w obtain m d1 where m: "debitWithFee (wl_balance w) (fst x) (wallet_fee_of d t) (snd x) = Inr m"
      and mv: "wallet_moves e t w ([(debit WALLET (fst x) CAPTURE None ?c, credit AVAILABLE (fst x) CAPTURE None ?c)] @
         (if wd_feeCents m > 0 then [(debit AVAILABLE (wd_feeCents m) FEE None ?c, credit FEES (wd_feeCents m) FEE None ?c)] else [])) d = Inr d1"
      and r: "(r, d') = recordMovement e t w TX_DEBIT (signedAmountCents m) (balanceAfterCents m) ''wallet_debit'' (wl_id w) d1"
      by (auto simp: debitWallet_def Let_def)
    from m have f: "signedAmountCents m = - fst x" "balanceAfterCents m = wl_balance w + signedAmountCents m" "fst x \<le> wl_balance w"
      by (auto simp: debitWithFee_def walletDebit_def applyMovement_def wallet_movement.defs split: if_splits)
    show ?thesis
      by (rule exI [of _ w], rule exI [of _ "signedAmountCents m"], intro exI conjI)
         (rule w, use f in simp, rule mv, use f in auto, use f r in simp)
  qed
qed

interpretation give_back: wallet_operation refundWallet
proof (unfold_locales, goal_cases)
  case (1 e t i x d r d')
  then obtain w m d1 where w: "loadActiveWallet t i d = Inr w" and m: "walletRefund (wl_balance w) x = Inr m"
    and mv: "wallet_moves e t w [(debit AVAILABLE x REFUND None (wl_currency w), credit WALLET x REFUND None (wl_currency w))] d = Inr d1"
    and r: "(r, d') = recordMovement e t w TX_REFUND (signedAmountCents m) (balanceAfterCents m) ''wallet_refund'' (wl_id w) d1"
    by (auto simp: refundWallet_def)
  from m have f: "signedAmountCents m = x" "balanceAfterCents m = wl_balance w + signedAmountCents m" "0 < x"
    by (auto simp: walletRefund_def applyMovement_def split: if_splits)
  show ?case
    by (rule exI [of _ w], rule exI [of _ "signedAmountCents m"], intro exI conjI)
       (rule w, use f in simp, rule mv, use f in simp, use f r in simp)
qed

interpretation correction: wallet_operation adjustWallet
proof (unfold_locales, goal_cases)
  case (1 e t i x d r d')
  define legs where "legs w = (if x > 0
    then [(debit AVAILABLE \<bar>x\<bar> ADJUSTMENT None (wl_currency w), credit WALLET \<bar>x\<bar> ADJUSTMENT None (wl_currency w))]
    else if x < 0 then [(debit WALLET \<bar>x\<bar> ADJUSTMENT None (wl_currency w), credit AVAILABLE \<bar>x\<bar> ADJUSTMENT None (wl_currency w))]
    else [])" for w :: wallet
  from 1 obtain w m d1 where w: "loadActiveWallet t i d = Inr w" and m: "walletAdjustment (wl_balance w) x = Inr m"
    and mv: "wallet_moves e t w (legs w) d = Inr d1"
    and r: "(r, d') = recordMovement e t w TX_ADJUSTMENT (signedAmountCents m) (balanceAfterCents m) ''wallet_adjust'' (wl_id w) d1"
    unfolding legs_def by (auto simp: adjustWallet_def Let_def)
  from m have f: "signedAmountCents m = x" "balanceAfterCents m = wl_balance w + signedAmountCents m" "0 \<le> wl_balance w + x"
    by (auto simp: walletAdjustment_def applyMovement_def Let_def split: if_splits)
  have b: "\<forall>c. balanceOf (pair_legs (legs w)) WALLET c = (if c = wl_currency w then x else 0)" by (auto simp: legs_def)
  show ?case
    by (rule exI [of _ w], rule exI [of _ "signedAmountCents m"], intro exI conjI)
       (rule w, use f in simp, rule mv, use f b in simp, use f r in simp)
qed

lemma createWallet_inv:
  assumes "wallet_inv (gen e) d" "inj (gen e)" "createWallet e t ot oi cur d = (w, d')"
  shows "wallet_inv (gen e) d'"
proof (cases "find (\<lambda>w. wl_tenantId w = t \<and> wl_ownerType w = ot \<and> wl_ownerId w = oi) (wallets d)")
  case (Some v)
  with assms show ?thesis by (simp add: createWallet_def)
next
  case None
  with assms(3) have w: "wl_id w = gen e (seq d)" "wl_balance w = 0" and d': "d' = d\<lparr>seq := Suc (seq d), wallets := wallets d @ [w]\<rparr>"
    by (auto simp: createWallet_def Let_def bump_def fresh_def)
  have I: "distinct (map wl_id (wallets d))" "wl_id ` set (wallets d) \<subseteq> gen e ` {..<seq d}"
    "wt_walletId ` set (walletTransactions d) \<subseteq> wl_id ` set (wallets d)"
    "\<And>v. v \<in> set (wallets d) \<Longrightarrow> wl_balance v = wallet_sum d (wl_id v) \<and> 0 \<le> wl_balance v"
    "\<And>t c. accountBalanceCents d t WALLET c = held_total (wallets d) t c" using assms(1) by (auto simp: wallet_inv_def)
  have new: "wl_id w \<notin> wl_id ` set (wallets d)"
    using I(2) assms(2) w(1) by (auto simp: inj_def)
  then have "wl_id w \<notin> wt_walletId ` set (walletTransactions d)" using I(3) by blast
  then have "filter (\<lambda>x. wt_walletId x = wl_id w) (walletTransactions d) = []" by (force simp: filter_empty_conv)
  then have s: "wallet_sum d (wl_id w) = 0" by (simp add: wallet_sum_def)
  have sums: "wallet_sum d' k = wallet_sum d k" for k by (simp add: wallet_sum_def d')
  have "wl_balance v = wallet_sum d' (wl_id v) \<and> 0 \<le> wl_balance v" if "v \<in> set (wallets d')" for v
  proof (cases "v = w")
    case True
    with s w(2) show ?thesis by (simp add: sums)
  next
    case False
    with that have "v \<in> set (wallets d)" by (simp add: d')
    then show ?thesis unfolding sums by (rule I(4))
  qed
  moreover have "accountBalanceCents d' u WALLET c = held_total (wallets d') u c" for u c
    using I(5) [of u c] w(2) by (simp add: d' held_total_def)
  moreover have "wl_id ` set (wallets d') \<subseteq> gen e ` {..<seq d'}"
    using I(2) w(1) by (auto simp: d' lessThan_Suc)
  moreover have "wt_walletId ` set (walletTransactions d') \<subseteq> wl_id ` set (wallets d')" using I(3) by (auto simp: d')
  moreover have "distinct (map wl_id (wallets d'))" using I(1) new by (simp add: d')
  ultimately show ?thesis unfolding wallet_inv_def by blast
qed

section \<open>Sequences of operations\<close>

text \<open>
  Any interleaving of the wallet operations, whoever calls them, with steps of the rest of the system, which leaves the
  wallet tables and the WALLET balances alone, only draws identifiers and books balanced postings.
\<close>

inductive wallet_step :: "(nat \<Rightarrow> string) \<Rightarrow> db \<Rightarrow> db \<Rightarrow> bool" for g where
  create_wallet: "gen e = g \<Longrightarrow> createWallet e t ot oi cur d = (w, d') \<Longrightarrow> wallet_step g d d'"
| top_up_wallet: "topUpWallet e t i amount pid d = Inr (r, d') \<Longrightarrow> wallet_step g d d'"
| debit_wallet: "debitWallet e t i amount meth d = Inr (r, d') \<Longrightarrow> wallet_step g d d'"
| refund_wallet: "refundWallet e t i amount d = Inr (r, d') \<Longrightarrow> wallet_step g d d'"
| adjust_wallet: "adjustWallet e t i signed d = Inr (r, d') \<Longrightarrow> wallet_step g d d'"
| elsewhere: "wallets d' = wallets d \<Longrightarrow> walletTransactions d' = walletTransactions d \<Longrightarrow> seq d \<le> seq d' \<Longrightarrow>
    (\<forall>t c. accountBalanceCents d' t WALLET c = accountBalanceCents d t WALLET c) \<Longrightarrow>
    (\<forall>u. isBalanced (tenant_legs u d) \<longrightarrow> isBalanced (tenant_legs u d')) \<Longrightarrow> wallet_step g d d'"

lemma wallet_step_inv:
  assumes "wallet_step g d d'" "wallet_inv g d" "inj g"
  shows "wallet_inv g d'"
  using assms
proof cases
  case (create_wallet e t ot oi cur w)
  with createWallet_inv [of e d t ot oi cur w d'] assms show ?thesis by blast
next
  case (top_up_wallet e t i amount pid r)
  with top_up.run_inv [of g d e t i "(amount, pid)" r d'] assms show ?thesis by simp
next
  case (debit_wallet e t i amount meth r)
  with draw_down.run_inv [of g d e t i "(amount, meth)" r d'] assms show ?thesis by simp
next
  case (refund_wallet e t i amount r)
  with give_back.run_inv assms show ?thesis by blast
next
  case (adjust_wallet e t i signed r)
  with correction.run_inv assms show ?thesis by blast
next
  case elsewhere
  have "wallet_sum d' k = wallet_sum d k" for k by (simp add: wallet_sum_def elsewhere)
  moreover from elsewhere(3) have "g ` {..<seq d} \<subseteq> g ` {..<seq d'}" by auto
  ultimately show ?thesis using assms(2) elsewhere unfolding wallet_inv_def by auto
qed

lemma wallet_step_balanced:
  assumes "wallet_step g d d'" "isBalanced (tenant_legs u d)"
  shows "isBalanced (tenant_legs u d')"
  using assms
proof cases
  case (create_wallet e t ot oi cur w)
  then have "ledgerEntries d' = ledgerEntries d" by (auto simp: createWallet_def Let_def bump_def split: option.splits)
  with assms(2) show ?thesis by (simp add: tenant_legs_def entries_of_def)
next
  case (top_up_wallet e t i amount pid r)
  with top_up.run_balanced [of e t i "(amount, pid)" d r d' u] assms(2) show ?thesis by simp
next
  case (debit_wallet e t i amount meth r)
  with draw_down.run_balanced [of e t i "(amount, meth)" d r d' u] assms(2) show ?thesis by simp
qed (use assms(2) give_back.run_balanced correction.run_balanced in blast)+

lemma wallet_steps_balanced:
  "(wallet_step g)\<^sup>*\<^sup>* d d' \<Longrightarrow> isBalanced (tenant_legs u d) \<Longrightarrow> isBalanced (tenant_legs u d')"
  by (induction rule: rtranclp_induct) (auto intro: wallet_step_balanced)

lemma wallet_inv_empty: "wallet_inv g empty_db"
  by (simp add: wallet_inv_def empty_db_def held_total_def accountBalanceCents_def)

lemma wallet_steps_inv: "(wallet_step g)\<^sup>*\<^sup>* d d' \<Longrightarrow> wallet_inv g d \<Longrightarrow> inj g \<Longrightarrow> wallet_inv g d'"
  by (induction rule: rtranclp_induct) (auto intro: wallet_step_inv)

section \<open>Properties\<close>

text \<open>
  C35. Stored value is never lost or invented. In every database reached from the empty one by wallet operations,
  interleaved with steps of the rest of the system that leave the WALLET account alone and keep the ledgers balanced, every
  wallet's cached balance is the sum of its signed transactions and is not negative, for every tenant and currency the WALLET account
  of the ledger holds exactly the sum of the tenant's wallet balances, and the ledger of every tenant is balanced.
\<close>

theorem wallet_conservation:
  assumes "(wallet_step g)\<^sup>*\<^sup>* empty_db d" and "inj g"
  shows "(\<forall>w\<in>set (wallets d). 0 \<le> wl_balance w \<and>
      wl_balance w = computeBalance (map wt_amount (filter (\<lambda>x. wt_walletId x = wl_id w) (walletTransactions d)))) \<and>
    accountBalanceCents d t WALLET c = (\<Sum>w\<leftarrow>filter (\<lambda>w. wl_tenantId w = t \<and> wl_currency w = c) (wallets d). wl_balance w) \<and>
    isBalanced (tenant_legs t d)"
proof -
  have "isBalanced (tenant_legs t empty_db)" by (simp add: tenant_legs_def entries_of_def empty_db_def isBalanced_iff)
  note bal = wallet_steps_balanced [OF assms(1) this]
  have "fold (\<lambda>b a. a + b) xs n = n + sum_list xs" for xs and n :: centimes by (induction xs arbitrary: n) auto
  then have "computeBalance xs = sum_list xs" for xs by (simp add: computeBalance_def)
  with wallet_steps_inv [OF assms(1) wallet_inv_empty assms(2)] bal show ?thesis
    by (auto simp: wallet_inv_def wallet_sum_def held_total_def)
qed

theorem wallet_conservation_witness:
  "\<exists>d w x d'. createWallet demo_env ''t1'' OWNER_CUSTOMER ''c1'' None empty_db = (w, d) \<and>
     topUpWallet demo_env ''t1'' ''x'' 500 None d = Inr ((w\<lparr>wl_balance := 500\<rparr>, x), d') \<and>
     accountBalanceCents d' ''t1'' WALLET MAD = (\<Sum>w\<leftarrow>filter (\<lambda>w. wl_tenantId w = ''t1'' \<and> wl_currency w = MAD) (wallets d'). wl_balance w) \<and>
     isBalanced (tenant_legs ''t1'' d')"
proof -
  obtain w d where w: "createWallet demo_env ''t1'' OWNER_CUSTOMER ''c1'' None empty_db = (w, d)" by force
  then have v: "wl_id w = ''x''" "wl_tenantId w = ''t1''" "wl_balance w = 0" "wl_status w = WALLET_ACTIVE"
    and d: "wallets d = [w]" "financeConfigs d = []"
    by (auto simp: createWallet_def empty_db_def fresh_def bump_def demo_env_def Let_def)
  obtain d1 where d1: "wallet_moves demo_env ''t1'' w [(debit CASH 500 CAPTURE None (wl_currency w), credit WALLET 500 CAPTURE None (wl_currency w))] d = Inr d1"
    using moves_ok [of "[(debit CASH 500 CAPTURE None (wl_currency w), credit WALLET 500 CAPTURE None (wl_currency w))]"]
    by (force simp: wallet_moves_def to_posting_def)
  then obtain x d' where u: "topUpWallet demo_env ''t1'' ''x'' 500 None d = Inr ((w\<lparr>wl_balance := 500\<rparr>, x), d')"
    by (simp add: topUpWallet_def loadActiveWallet_def d v walletTopUp_def applyMovement_def recordMovement_def Let_def
        getEffectiveWalletCommissionBasis_def getFinanceConfig_def resolveWalletCommissionBasis_def DEFAULT_WALLET_COMMISSION_BASIS_def)
  have "wallet_step (gen demo_env) empty_db d" "wallet_step (gen demo_env) d d'"
    using wallet_step.create_wallet [OF _ w] wallet_step.top_up_wallet [OF u] by auto
  then have "(wallet_step (gen demo_env))\<^sup>*\<^sup>* empty_db d'" by (meson rtranclp.rtrancl_refl rtranclp.rtrancl_into_rtrancl)
  from wallet_conservation [OF this demo_env_inj, of "''t1''" MAD] w u show ?thesis by blast
qed

text \<open>
  A draw-down. On an active wallet of the tenant, a draw-down succeeds exactly for amounts between one centime and the
  balance; it then lowers the balance by the amount, records it as a negative transaction, and moves in the ledger, in the
  wallet's currency only, the amount out of WALLET, the fee to FEES and the rest to AVAILABLE. On the load basis the fee
  is nothing; on the usage basis it is the fee of the tenant's schedule.
\<close>

lemma debitWallet_correct:
  assumes "loadActiveWallet t i d = Inr w"
    and "(if getEffectiveWalletCommissionBasis d t = ''load'' then Inr 0 else computeFee (wallet_fee_of d t) amount meth) = Inr fee"
  shows "(amount \<le> 0 \<or> amount > wl_balance w \<longrightarrow> (\<exists>msg code. debitWallet e t i amount meth d = Inl (WalletError msg code))) \<and>
    (0 < amount \<and> amount \<le> wl_balance w \<longrightarrow> (\<exists>x d'.
       debitWallet e t i amount meth d = Inr ((w\<lparr>wl_balance := wl_balance w - amount\<rparr>, x), d') \<and>
       wt_amount x = - amount \<and> wt_balanceAfter x = wl_balance w - amount \<and>
       (\<forall>u a c. accountBalanceCents d' u a c = accountBalanceCents d u a c + (if u = t \<and> c = wl_currency w then
          case a of WALLET \<Rightarrow> - amount | AVAILABLE \<Rightarrow> amount - fee | FEES \<Rightarrow> fee | _ \<Rightarrow> 0 else 0))))"
proof (cases "0 < amount \<and> amount \<le> wl_balance w")
  case False
  with assms show ?thesis
    by (auto simp: debitWallet_def Let_def debitWithFee_def walletDebit_def split: if_splits)
next
  case True
  let ?c = "wl_currency w"
  let ?legs = "[(debit WALLET amount CAPTURE None ?c, credit AVAILABLE amount CAPTURE None ?c)] @
    (if fee > 0 then [(debit AVAILABLE fee FEE None ?c, credit FEES fee FEE None ?c)] else [])"
  have fee: "0 \<le> fee" using assms(2) computeFee_pos by (auto split: if_splits)
  obtain d1 where m: "wallet_moves e t w ?legs d = Inr d1"
    unfolding wallet_moves_def using moves_ok [of ?legs "Some ''wallet''" "Some (wl_id w)" e t d] True by (auto simp: to_posting_def)
  obtain x d' where r: "((w\<lparr>wl_balance := wl_balance w - amount\<rparr>, x), d') =
      recordMovement e t w TX_DEBIT (- amount) (wl_balance w - amount) ''wallet_debit'' (wl_id w) d1"
    and x: "wt_amount x = - amount" "wt_balanceAfter x = wl_balance w - amount"
    and d': "ledgerEntries d' = ledgerEntries d1" by (simp add: recordMovement_def Let_def bump_def)
  have "debitWallet e t i amount meth d = Inr ((w\<lparr>wl_balance := wl_balance w - amount\<rparr>, x), d')"
    using assms m r True
    by (cases "getEffectiveWalletCommissionBasis d t = ''load''"; cases "0 < fee")
       (simp_all add: debitWallet_def Let_def debitWithFee_def walletDebit_def applyMovement_def wallet_movement.defs)
  moreover have "accountBalanceCents d' u a c = accountBalanceCents d u a c + (if u = t \<and> c = ?c then
          case a of WALLET \<Rightarrow> - amount | AVAILABLE \<Rightarrow> amount - fee | FEES \<Rightarrow> fee | _ \<Rightarrow> 0 else 0)" for u a c
    using effect_balance [OF effect_then [OF effect_moves [OF m [unfolded wallet_moves_def]] d'], of u a c] fee
    by (cases a) auto
  ultimately show ?thesis using x True by auto
qed

end
