(* ===== verification/Journal.thy ===== *)
theory Journal
  imports SplitsDb Settlement Fx Payout Reversals Refund Wallet Webhooks
begin

text \<open>
  The money operations together. Every operation that writes to the ledger does so through \<open>postEntry\<close> (\<open>src/lib/ledger-db.ts\<close>),
  for one tenant: this theory states that as a relation between databases (\<open>bookings\<close>), shows it for each operation of the
  modules that book money, and draws from it, in a locale, what holds of any interleaving of them.
\<close>

section \<open>What a booking operation does\<close>

definition bookings :: "string \<Rightarrow> db \<Rightarrow> db \<Rightarrow> bool" where
  "bookings t d d' \<longleftrightarrow>
     (\<exists>ps rows. ledgerEntries d' = ledgerEntries d @ rows \<and> map leg_of_row rows = map strip (posting_legs ps) \<and>
        (\<forall>p\<in>set ps. valid_posting p) \<and> (\<forall>r\<in>set rows. le_tenantId r = t))"

lemma posting_legs_append [simp]: "posting_legs (ps @ qs) = posting_legs ps @ posting_legs qs"
  by (simp add: posting_legs_def)

lemma bookings_same: "ledgerEntries d' = ledgerEntries d \<Longrightarrow> bookings t d d'"
  unfolding bookings_def by (intro exI [of _ "[]"]) simp

lemma bookings_refl [intro]: "bookings t d d"
  by (rule bookings_same) simp

lemma bookings_trans [trans]:
  assumes "bookings t d1 d2" "bookings t d2 d3"
  shows "bookings t d1 d3"
proof -
  obtain ps rs where 1: "ledgerEntries d2 = ledgerEntries d1 @ rs" "map leg_of_row rs = map strip (posting_legs ps)"
    "\<forall>p\<in>set ps. valid_posting p" "\<forall>r\<in>set rs. le_tenantId r = t" using assms(1) unfolding bookings_def by blast
  obtain qs ss where 2: "ledgerEntries d3 = ledgerEntries d2 @ ss" "map leg_of_row ss = map strip (posting_legs qs)"
    "\<forall>p\<in>set qs. valid_posting p" "\<forall>r\<in>set ss. le_tenantId r = t" using assms(2) unfolding bookings_def by blast
  show ?thesis unfolding bookings_def by (intro exI [of _ "ps @ qs"] exI [of _ "rs @ ss"]) (use 1 2 in auto)
qed

lemma bookings_then: "bookings t d1 d2 \<Longrightarrow> ledgerEntries d3 = ledgerEntries d2 \<Longrightarrow> bookings t d1 d3"
  by (blast intro: bookings_trans bookings_same)

lemma bookings_after: "ledgerEntries d2 = ledgerEntries d1 \<Longrightarrow> bookings t d2 d3 \<Longrightarrow> bookings t d1 d3"
  by (blast intro: bookings_trans bookings_same)

lemma bookings_post:
  assumes "post e t p d = Inr d'"
  shows "bookings t d d'"
proof -
  from assms have p: "valid_posting p" and d': "ledgerEntries d' = ledgerEntries d @ new_rows e t p d" by (auto simp: post_eq_Inr)
  from p have "map leg_of_row (new_rows e t p d) = map strip (posting_legs [p])" "\<forall>r\<in>set (new_rows e t p d). le_tenantId r = t"
    by (auto simp: new_rows_def valid_posting_def)
  with p d' show ?thesis unfolding bookings_def by (intro exI [of _ "[p]"] exI [of _ "new_rows e t p d"]) simp
qed

lemma bookings_efold:
  assumes "\<And>x s s'. x \<in> set xs \<Longrightarrow> f x s = Inr s' \<Longrightarrow> bookings t (g s) (g s')" "efold f xs s = Inr s'"
  shows "bookings t (g s) (g s')"
  using efold_preserves [where P = "\<lambda>u. bookings t (g s) (g u)" and f = f and xs = xs and s = s and s' = s'] assms
  by (blast intro: bookings_trans)

lemma bookings_posts: "efold (post e t) ps d = Inr d' \<Longrightarrow> bookings t d d'"
  using bookings_efold [where g = "\<lambda>d. d" and f = "post e t"] bookings_post by blast

lemma bookings_moves: "moves e t st si ls d = Inr d' \<Longrightarrow> bookings t d d'"
  unfolding moves_post by (rule bookings_posts)

lemma bookings_move: "move e t st si l d = Inr d' \<Longrightarrow> bookings t d d'"
  unfolding move_post by (rule bookings_post)

section \<open>The operations\<close>

lemma split_allocation_bookings: "split_allocation e t x a h c al s = Inr s' \<Longrightarrow> bookings t (snd s) (snd s')"
  by (auto simp: split_allocation_def Let_def bump_def intro: bookings_then [OF bookings_move] split: if_splits)

lemma split_allocations_bookings:
  "efold (split_allocation e t x a h c) als s = Inr s' \<Longrightarrow> bookings t (snd s) (snd s')"
  by (rule bookings_efold) (rule split_allocation_bookings)

lemma executeSplitInTx_bookings: "executeSplitInTx lc e t x tr sh d = Inr (rows, d') \<Longrightarrow> bookings t d d'"
  by (auto simp: executeSplitInTx_def Let_def split: if_splits dest!: split_allocations_bookings bookings_move)
     (blast intro: bookings_trans)+

lemma executeSplit_bookings: "executeSplit lc e t x d = Inr (rows, d') \<Longrightarrow> bookings t d d'"
  by (auto simp: executeSplit_def intro: executeSplitInTx_bookings)

lemma releaseSplit_write_bookings: "releaseSplit_write e t i s d = Inr d' \<Longrightarrow> bookings t d d'"
  by (auto simp: releaseSplit_write_def Let_def intro: bookings_then [OF bookings_move])

lemma releaseSplit_bookings: "releaseSplit e t i d = Inr d' \<Longrightarrow> bookings t d d'"
  by (auto simp: releaseSplit_phases intro: releaseSplit_write_bookings)

lemma settleCapture_write_bookings:
  assumes "settleCapture_write lc e t i cur p d = Inr d'"
  shows "bookings t d d'"
proof -
  obtain gross rule plan where p: "p = (gross, rule, plan)" by (cases p)
  from assms obtain d1 d2 where d1: "bookings t d d1" and d3: "bookings t d2 d'"
    and d2: "(case rule of None \<Rightarrow> Inr d1 | Some r \<Rightarrow> ebind (executeSplitInTx lc e t (capture_split_input i gross (coalesce cur MAD) r)
       AT_CAPTURE (sr_shares r) d1) (\<lambda>s. Inr (snd s))) = Inr d2"
    by (auto simp: settleCapture_write_def p Let_def intro: bookings_move bookings_moves)
  have "bookings t d1 d2" using d2 by (auto split: option.splits intro: executeSplitInTx_bookings)
  with d1 d3 show ?thesis by (blast intro: bookings_trans)
qed

lemma settleCapture_bookings: "settleCapture lc e t i amt c m d = Inr (b, d') \<Longrightarrow> bookings t d d'"
  by (auto simp: settleCapture_phases intro: settleCapture_write_bookings split: option.splits)

lemma settleRefund_bookings: "settleRefund e t i j d = Inr (b, d') \<Longrightarrow> bookings t d d'"
  by (auto simp: settleRefund_def Let_def split: if_splits list.splits intro: bookings_moves)

lemma convert_one_bookings: "convert_one fxp e t c f s = Inr s' \<Longrightarrow> bookings t (snd s) (snd s')"
  by (auto simp: convert_one_def Let_def split: if_splits intro: bookings_posts)

lemma sweep_bookings: "convertForeignBalancesToSettlement fxp e t c d = Inr (xs, d') \<Longrightarrow> bookings t d d'"
  unfolding convertForeignBalancesToSettlement_def
  using bookings_efold [where g = snd and f = "convert_one fxp e t c", OF convert_one_bookings] by fastforce

lemma createPayout_bookings: "createPayout fxp e t k p m d = Inr (x, d') \<Longrightarrow> bookings t d d'"
  by (auto simp: createPayout_def Let_def split: option.splits if_splits intro: bookings_then [OF sweep_bookings])

lemma markPayoutPaid_bookings: "markPayoutPaid e t i tr d = Inr d' \<Longrightarrow> bookings t d d'"
  by (auto simp: markPayoutPaid_def Let_def split: option.splits if_splits intro: bookings_then [OF bookings_move])

lemma resolveDispute_write_bookings: "resolveDispute_write e t i plan d = Inr d' \<Longrightarrow> bookings t d d'"
  by (auto simp: resolveDispute_write_def Let_def set_dispute_def bump_def split: if_splits intro: bookings_then [OF bookings_moves])

lemma resolveDispute_commit_bookings: "resolveDispute_commit e t i plan d = Inr d' \<Longrightarrow> bookings t d d'"
  by (auto simp: resolveDispute_commit_def intro: resolveDispute_write_bookings)

lemma wallet_moves_bookings:
  "wallet_moves e t w ls d = Inr d1 \<Longrightarrow> recordMovement e t w ty n a st si d1 = (x, d') \<Longrightarrow> bookings t d d'"
  by (auto simp: wallet_moves_def recordMovement_def Let_def bump_def intro: bookings_then [OF bookings_moves])

lemma wallet_bookings:
  "topUpWallet e t i n pid d = Inr (x, d') \<Longrightarrow> bookings t d d'"
  "debitWallet e t i n meth d = Inr (x, d') \<Longrightarrow> bookings t d d'"
  "refundWallet e t i n d = Inr (x, d') \<Longrightarrow> bookings t d d'"
  "adjustWallet e t i z d = Inr (x, d') \<Longrightarrow> bookings t d d'"
  by (auto simp: topUpWallet_def debitWallet_def refundWallet_def adjustWallet_def Let_def intro: wallet_moves_bookings split: if_splits)

section \<open>The steps of the system\<close>

text \<open>
  A step of tenant \<open>t\<close>: one of the transactions that move money for it, or any write that leaves the ledger as it is. The
  actions and jobs that are not transactions (\<open>captureIntent\<close>, the webhook processors, the billing jobs) are sequences of such
  steps, which may be interleaved with those of others. Where a transaction reads before it takes the lock of the tenant, its writes
  alone are a step too, with whatever an earlier state made it read: the settlement of a capture, the release of a share and the
  clawback of a dispute.
\<close>

inductive money_step :: "string \<Rightarrow> db \<Rightarrow> db \<Rightarrow> bool" for t where
  capture: "settleCapture lc e t i amt c m d = Inr (b, d') \<Longrightarrow> money_step t d d'"
| refund: "settleRefund e t i j d = Inr (b, d') \<Longrightarrow> money_step t d d'"
| execute_split: "executeSplit lc e t x d = Inr (rows, d') \<Longrightarrow> money_step t d d'"
| release_split: "releaseSplit e t i d = Inr d' \<Longrightarrow> money_step t d d'"
| fx_sweep: "convertForeignBalancesToSettlement fxp e t c d = Inr (xs, d') \<Longrightarrow> money_step t d d'"
| create_payout: "createPayout fxp e t k p meth d = Inr (x, d') \<Longrightarrow> money_step t d d'"
| pay_payout: "markPayoutPaid e t i tr d = Inr d' \<Longrightarrow> money_step t d d'"
| lose_dispute: "resolveDispute_commit e t i plan d = Inr d' \<Longrightarrow> money_step t d d'"
| capture_late: "settleCapture_write lc e t i c p d = Inr d' \<Longrightarrow> money_step t d d'"
| release_late: "releaseSplit_write e t i s d = Inr d' \<Longrightarrow> money_step t d d'"
| lose_late: "resolveDispute_write e t i plan d = Inr d' \<Longrightarrow> money_step t d d'"
| top_up: "topUpWallet e t i n pid d = Inr (x, d') \<Longrightarrow> money_step t d d'"
| draw_down: "debitWallet e t i n meth d = Inr (x, d') \<Longrightarrow> money_step t d d'"
| give_back: "refundWallet e t i n d = Inr (x, d') \<Longrightarrow> money_step t d d'"
| correct: "adjustWallet e t i z d = Inr (x, d') \<Longrightarrow> money_step t d d'"
| other: "ledgerEntries d' = ledgerEntries d \<Longrightarrow> money_step t d d'"

inductive_cases money_stepE: "money_step t d d'"

lemma money_step_bookings: "money_step t d d' \<Longrightarrow> bookings t d d'"
  by (cases rule: money_step.cases)
     (blast intro: settleCapture_bookings settleRefund_bookings executeSplit_bookings releaseSplit_bookings sweep_bookings
        createPayout_bookings markPayoutPaid_bookings resolveDispute_commit_bookings settleCapture_write_bookings releaseSplit_write_bookings
        resolveDispute_write_bookings wallet_bookings bookings_same)+

section \<open>What follows for any interleaving\<close>

type_synonym balance_sheet = "string \<Rightarrow> ledger_account \<Rightarrow> currency \<Rightarrow> centimes"

definition sheet :: "db \<Rightarrow> balance_sheet" where
  "sheet d = (\<lambda>t a c. accountBalanceCents d t a c)"

text \<open>The abstract specification: money moves inside one tenant, from one account to another, in one currency.\<close>

definition transfer :: "string \<Rightarrow> ledger_account \<Rightarrow> ledger_account \<Rightarrow> currency \<Rightarrow> centimes \<Rightarrow> balance_sheet \<Rightarrow> balance_sheet" where
  "transfer t a b c n B = (\<lambda>u x k. B u x k - (if u = t \<and> x = a \<and> k = c then n else 0) + (if u = t \<and> x = b \<and> k = c then n else 0))"

inductive transfers :: "string \<Rightarrow> balance_sheet \<Rightarrow> balance_sheet \<Rightarrow> bool" for t where
  stay: "transfers t B B"
| more: "transfers t B B' \<Longrightarrow> 0 \<le> n \<Longrightarrow> transfers t B (transfer t a b c n B')"

lemma transfers_trans: "transfers t B2 B3 \<Longrightarrow> transfers t B1 B2 \<Longrightarrow> transfers t B1 B3"
  by (induction rule: transfers.induct) (auto intro: transfers.intros)

definition add_legs :: "string \<Rightarrow> ledger_leg list \<Rightarrow> balance_sheet \<Rightarrow> balance_sheet" where
  "add_legs t ls B = (\<lambda>u a c. B u a c + (if u = t then balanceOf ls a c else 0))"

lemma transfers_postings:
  "\<forall>p\<in>set ps. valid_posting p \<Longrightarrow> transfers t B (add_legs t (posting_legs ps) B)"
proof (induction ps rule: rev_induct)
  case (snoc p ps)
  then have v: "valid_posting p" by simp
  have "add_legs t (posting_legs (ps @ [p])) B = transfer t (account (debit_leg p)) (account (credit_leg p)) (leg_currency (debit_leg p))
      (amountCents (debit_leg p)) (add_legs t (posting_legs ps) B)"
    using v by (auto simp: add_legs_def transfer_def valid_posting_def delta_def fun_eq_iff)
  moreover have "0 \<le> amountCents (debit_leg p)" using v by (simp add: valid_posting_def)
  ultimately show ?case using snoc by (simp del: posting_legs_append add: transfers.more)
qed (simp add: add_legs_def transfers.stay cong: if_cong)

text \<open>The rows of a tenant are the legs of accepted postings, in order.\<close>

definition well_formed_ledger :: "db \<Rightarrow> bool" where
  "well_formed_ledger d \<longleftrightarrow>
     (\<forall>t. \<exists>ps. (\<forall>p\<in>set ps. valid_posting p) \<and> tenant_legs t d = map strip (posting_legs ps))"

lemma well_formed_balanced:
  assumes "well_formed_ledger d"
  shows "isBalanced (tenant_legs t d)" "r \<in> set (ledgerEntries d) \<Longrightarrow> 0 \<le> le_amount r"
proof -
  obtain ps where ps: "\<forall>p\<in>set ps. valid_posting p" "tenant_legs t d = map strip (posting_legs ps)"
    using assms unfolding well_formed_ledger_def by blast
  have "net (posting_legs ps) c = 0" for c using ps(1) by (induction ps) (auto dest: valid_posting_net [of _ c])
  with ps(2) show "isBalanced (tenant_legs t d)" by (simp add: isBalanced_iff)
next
  assume r: "r \<in> set (ledgerEntries d)"
  obtain ps where ps: "\<forall>p\<in>set ps. valid_posting p" "tenant_legs (le_tenantId r) d = map strip (posting_legs ps)"
    using assms unfolding well_formed_ledger_def by blast
  have "leg_of_row r \<in> set (tenant_legs (le_tenantId r) d)" using r by (simp add: tenant_legs_def entries_of_def)
  then obtain l where "l \<in> set (posting_legs ps)" "leg_of_row r = strip l" unfolding ps(2) by auto
  with ps(1) leg_of_row_eq [of r l] show "0 \<le> le_amount r" by (auto simp: posting_legs_def valid_posting_def)
qed

definition reaches :: "(string \<Rightarrow> db \<Rightarrow> db \<Rightarrow> bool) \<Rightarrow> db \<Rightarrow> db \<Rightarrow> bool" where
  "reaches step = (\<lambda>d d'. \<exists>t. step t d d')\<^sup>*\<^sup>*"

locale bookkeeping =
  fixes step :: "string \<Rightarrow> db \<Rightarrow> db \<Rightarrow> bool"
  assumes step_bookings: "step t d d' \<Longrightarrow> bookings t d d'"
begin

lemma step_legs:
  assumes "step t d d'"
  shows "\<exists>ps. (\<forall>p\<in>set ps. valid_posting p) \<and>
    (\<forall>u. tenant_legs u d' = tenant_legs u d @ (if u = t then map strip (posting_legs ps) else []))"
proof -
  obtain ps rows where r: "ledgerEntries d' = ledgerEntries d @ rows" "map leg_of_row rows = map strip (posting_legs ps)"
    "\<forall>p\<in>set ps. valid_posting p" "\<forall>r\<in>set rows. le_tenantId r = t"
    using step_bookings [OF assms] unfolding bookings_def by blast
  have "filter (\<lambda>r. le_tenantId r = u) rows = (if u = t then rows else [])" for u
    using r(4) by (auto simp: filter_id_conv filter_empty_conv)
  with r show ?thesis by (intro exI [of _ ps]) (simp add: tenant_legs_def entries_of_def)
qed

lemma step_grows: "step t d d' \<Longrightarrow> grows d d'"
  using step_bookings by (fastforce simp: bookings_def grows_def)

lemma step_other: "step t d d' \<Longrightarrow> u \<noteq> t \<Longrightarrow> tenant_legs u d' = tenant_legs u d"
  using step_legs by fastforce

lemma step_refines: "step t d d' \<Longrightarrow> transfers t (sheet d) (sheet d')"
proof -
  assume "step t d d'"
  then obtain ps where ps: "\<forall>p\<in>set ps. valid_posting p"
    "\<And>u. tenant_legs u d' = tenant_legs u d @ (if u = t then map strip (posting_legs ps) else [])" using step_legs by blast
  have "sheet d' = add_legs t (posting_legs ps) (sheet d)"
    by (simp add: sheet_def add_legs_def accountBalanceCents_legs ps(2) fun_eq_iff)
  with transfers_postings [OF ps(1)] show ?thesis by simp
qed

lemma step_well_formed: "step t d d' \<Longrightarrow> well_formed_ledger d \<Longrightarrow> well_formed_ledger d'"
proof -
  assume "step t d d'" and wf: "well_formed_ledger d"
  then obtain ps where ps: "\<forall>p\<in>set ps. valid_posting p"
    "\<And>u. tenant_legs u d' = tenant_legs u d @ (if u = t then map strip (posting_legs ps) else [])" using step_legs by blast
  have "\<exists>qs. (\<forall>p\<in>set qs. valid_posting p) \<and> tenant_legs u d' = map strip (posting_legs qs)" for u
  proof -
    obtain rs where "\<forall>p\<in>set rs. valid_posting p" "tenant_legs u d = map strip (posting_legs rs)"
      using wf unfolding well_formed_ledger_def by blast
    with ps show ?thesis by (intro exI [of _ "rs @ (if u = t then ps else [])"]) auto
  qed
  then show ?thesis unfolding well_formed_ledger_def by blast
qed

lemma reach_invariant:
  assumes "reaches step d d'" "well_formed_ledger d"
  shows "well_formed_ledger d' \<and> grows d d'"
  using assms unfolding reaches_def
  by (induction rule: rtranclp_induct) (auto intro: step_well_formed grows_same grows_trans dest: step_grows)

end

interpretation money: bookkeeping money_step
  by unfold_locales (rule money_step_bookings)

lemma empty_well_formed: "ledgerEntries d = [] \<Longrightarrow> well_formed_ledger d"
  unfolding well_formed_ledger_def by (intro allI exI [of _ "[]"]) (simp add: tenant_legs_def entries_of_def)

section \<open>Actions and jobs as sequences of steps\<close>

lemma reaches_step: "money_step t d d' \<Longrightarrow> reaches money_step d d'"
  by (auto simp: reaches_def)

lemma reaches_other: "ledgerEntries d' = ledgerEntries d \<Longrightarrow> reaches money_step d d'"
  by (rule reaches_step [OF money_step.other])

lemma reaches_trans: "reaches money_step d1 d2 \<Longrightarrow> reaches money_step d2 d3 \<Longrightarrow> reaches money_step d1 d3"
  by (simp add: reaches_def)

lemma reaches_then: "reaches money_step d1 d2 \<Longrightarrow> ledgerEntries d3 = ledgerEntries d2 \<Longrightarrow> reaches money_step d1 d3"
  by (blast intro: reaches_trans reaches_other)

lemma reaches_after: "ledgerEntries d2 = ledgerEntries d1 \<Longrightarrow> reaches money_step d2 d3 \<Longrightarrow> reaches money_step d1 d3"
  by (blast intro: reaches_trans reaches_other)

lemma reaches_settle:
  assumes "ledgerEntries d1 = ledgerEntries d" "ledgerEntries d0 = ledgerEntries d"
  shows "reaches money_step d (snd (case settleCapture lc e t i amt c m d1 of Inl x \<Rightarrow> (Inl x, d0) | Inr (b, d2) \<Rightarrow> (Inr (), d2)))"
  using assms by (auto split: sum.splits prod.splits intro: reaches_other reaches_after [OF _ reaches_step [OF money_step.capture]])

lemma reaches_sbind:
  assumes "reaches money_step d (snd m)" "\<And>x. reaches money_step (snd m) (snd (f x (snd m)))"
  shows "reaches money_step d (snd (sbind m f))"
  using assms by (cases m; cases "fst m") (auto simp: sbind_def intro: reaches_trans)

lemma kept_updates [simp]:
  "ledgerEntries (set_intent_status i s d) = ledgerEntries d" "ledgerEntries (revertLock i d) = ledgerEntries d"
  "ledgerEntries (commit_status e r s d) = ledgerEntries d" "ledgerEntries (snd (lock_intent i u d)) = ledgerEntries d"
  "ledgerEntries (bump d) = ledgerEntries d" "ledgerEntries (set_provider_transaction i tx d) = ledgerEntries d"
  "ledgerEntries (mark_link_paid l d) = ledgerEntries d" "ledgerEntries (upsert_provider_transaction e i tx' d) = ledgerEntries d"
  by (simp_all add: set_intent_status_def revertLock_def commit_status_def lock_intent_def bump_def Let_def set_provider_transaction_def
      mark_link_paid_def upsert_provider_transaction_def split: option.split)

lemma kept_steps [simp]:
  "ledgerEntries (snd (update_intent_status ga p body r st d)) = ledgerEntries d"
  "ledgerEntries (snd (stripe_update_status i s d)) = ledgerEntries d"
  "ledgerEntries (snd (store_webhook_event e p r' b uo k d)) = ledgerEntries d"
  "ledgerEntries (snd (update_agreement a f d)) = ledgerEntries d"
  by (simp_all add: update_intent_status_def stripe_update_status_def store_webhook_event_def update_agreement_def Let_def
      split: option.split sum.split json.split)

lemma kept_bootstrap [simp]:
  "ledgerEntries (snd (bootstrap_subscription enc e body r d)) = ledgerEntries d"
  by (simp add: bootstrap_subscription_def Let_def split: option.split sum.split prod.split)

lemma reaches_installments: "reaches money_step d (snd (bootstrap_installments enc e body a d))"
  unfolding bootstrap_installments_def
  by (auto simp: Let_def intro!: reaches_sbind split: option.split sum.split prod.split)
     (rule reaches_other, simp)+

lemma captureIntent_reaches: "reaches money_step d (snd (captureIntent lc getAdapter e i t d))"
  unfolding captureIntent_def
  by (auto simp: split_beta Let_def intro!: reaches_sbind reaches_settle split: option.split)
     (rule reaches_other, simp)+

lemma follow_up_reaches: "reaches money_step d (snd (webhook_follow_up encrypt e p body i uo ev d))"
proof -
  have ins: "reaches money_step d6 (snd (case Option.bind (in_metadata i) meta_installmentAgreementId of
      Some agreementId \<Rightarrow> if p = VPS \<and> ok \<and> agreementId \<noteq> [] then bootstrap_installments encrypt e body agreementId d6 else (Inr (), d6)
    | None \<Rightarrow> (Inr (), d6)))" for d6 ok
    by (auto intro: reaches_installments reaches_other split: option.split)
  show ?thesis
    unfolding webhook_follow_up_def Let_def
    by (intro reaches_sbind ins) (rule reaches_other, simp split: option.split)
qed

lemma webhookProcessor_reaches: "reaches money_step d (snd (webhookProcessor lc getAdapter encrypt e p body raw h key d))"
proof -
  define intent where "intent = find_webhook_intent d p body"
  define up where "up = (case (first_field body [''Status'', ''status'', ''transactionStatus''], intent) of
             (Some st, Some i) \<Rightarrow>
               if truthy st then update_intent_status getAdapter p body i st d
               else (\<lparr>uo_mappedStatus = None, uo_processingError = None, uo_processed = False\<rparr>, d)
           | _ \<Rightarrow> (\<lparr>uo_mappedStatus = None, uo_processingError = None, uo_processed = False\<rparr>, d))"
  have up: "ledgerEntries (snd up) = ledgerEntries d" by (simp add: up_def split: option.split)
  have settle: "reaches money_step d (snd (case intent of
                  Some i \<Rightarrow>
                    if uo_processed (fst up) \<and> uo_mappedStatus (fst up) = Some INTENT_SUCCEEDED
                    then (case settleCapture lc e (in_tenantId i) (in_id i) (fst (link_charge d i)) (Some (snd (link_charge d i))) None (snd up) of
                            Inl x \<Rightarrow> (Inl x, snd up) | Inr (_, d2) \<Rightarrow> (Inr (), d2))
                    else (Inr (), snd up)
                | None \<Rightarrow> (Inr (), snd up)))"
    using up by (auto intro: reaches_other reaches_settle split: option.split)
  show ?thesis
    unfolding webhookProcessor_def Let_def intent_def [symmetric]
    unfolding up_def [symmetric] unfolding split_beta
    by (intro reaches_sbind [OF settle [unfolded split_beta]] reaches_sbind) (auto intro: reaches_other follow_up_reaches split: option.split)
qed

lemma stripeWebhookProcessor_reaches: "reaches money_step d (snd (stripeWebhookProcessor lc e body key d))"
  unfolding stripeWebhookProcessor_def
  by (auto simp: split_beta Let_def intro!: reaches_sbind reaches_settle split: option.split)
     (rule reaches_other, simp)+

section \<open>What every request and job promises\<close>

text \<open>
  The contract of a request or job towards the ledger: it is a sequence of money steps, whatever it returns. The second locale is the
  special case of those that never write to the ledger.
\<close>

locale ledger_job =
  fixes run :: "db \<Rightarrow> db"
  assumes run_reaches: "reaches money_step d (run d)"
begin

lemma run_keeps: "well_formed_ledger d \<Longrightarrow> well_formed_ledger (run d) \<and> (\<exists>rows. ledgerEntries (run d) = ledgerEntries d @ rows)"
  using money.reach_invariant [OF run_reaches] by (simp add: grows_def)

end

locale ledger_neutral =
  fixes run :: "db \<Rightarrow> db"
  assumes run_neutral: "ledgerEntries (run d) = ledgerEntries d"

sublocale ledger_neutral \<subseteq> ledger_job run
  by unfold_locales (rule reaches_other [OF run_neutral])

interpretation capture_job: ledger_job "\<lambda>d. snd (captureIntent lc getAdapter e i t d)" for lc getAdapter e i t
  by unfold_locales (rule captureIntent_reaches)

interpretation webhook_job: ledger_job "\<lambda>d. snd (webhookProcessor lc getAdapter encrypt e p body raw h key d)"
  for lc getAdapter encrypt e p body raw h key
  by unfold_locales (rule webhookProcessor_reaches)

interpretation stripe_job: ledger_job "\<lambda>d. snd (stripeWebhookProcessor lc e body key d)" for lc e body key
  by unfold_locales (rule stripeWebhookProcessor_reaches)

end
