(* ===== verification/RefundRoute.thy ===== *)
theory RefundRoute
  imports Refund Intents Journal
begin

text \<open>
  \<open>src/routes/refunds.ts\<close>: the request that refunds a payment in full, from the checks over the provider's call to the booking of
  \<open>settleRefund\<close> (theory Refund). It is not a transaction: the refund row is committed before the provider is asked, and
  \<open>race\<close> stands for what other requests write between the checks and that row.
\<close>

section \<open>Definitions\<close>

definition audit :: "string \<Rightarrow> string \<Rightarrow> string \<Rightarrow> string \<Rightarrow> string \<Rightarrow> db \<Rightarrow> db" where
  "audit tenantId userId action entityType entityId d =
     d\<lparr>auditLogs := auditLogs d @
        [\<lparr>al_tenantId = Some tenantId, al_userId = Some userId, al_action = action, al_entityType = entityType, al_entityId = entityId\<rparr>]\<rparr>"

definition tenant_intent :: "string \<Rightarrow> string \<Rightarrow> db \<Rightarrow> payment_intent option" where
  "tenant_intent tenantId intentId d = find (\<lambda>r. in_id r = intentId \<and> in_tenantId r = tenantId) (paymentIntents d)"

definition tenant_config :: "string \<Rightarrow> provider \<Rightarrow> db \<Rightarrow> provider_config option" where
  "tenant_config tenantId p d = find (\<lambda>c. pc_tenantId c = tenantId \<and> pc_provider c = p) (providerConfigs d)"

definition active_refund :: "string \<Rightarrow> refund \<Rightarrow> bool" where
  "active_refund intentId r \<longleftrightarrow>
     rf_paymentIntentId r = intentId \<and> (rf_status r = REFUND_SUCCEEDED \<or> rf_status r = REFUND_PENDING)"

definition refund_amount :: "db \<Rightarrow> payment_intent \<Rightarrow> centimes \<times> currency" where
  "refund_amount d intent =
     (let link = find_link d (in_paymentLinkId intent)
      in (case link of
            Some l \<Rightarrow> madToCentimes (fromMinor (pl_amount l) MAD)
          | None \<Rightarrow> centimes (coalesce (Option.bind (in_metadata intent) meta_amount) 0),
          coalesce (or_else (map_option pl_currency link) (Option.bind (in_metadata intent) meta_currency)) MAD))"

text \<open>The checks, up to the amount: the intent, its provider reference and adapter, and what to refund.\<close>

definition refund_checks ::
  "(provider \<Rightarrow> string \<Rightarrow> provider_adapter result) \<Rightarrow> string \<Rightarrow> string \<Rightarrow> db
    \<Rightarrow> (payment_intent \<times> string \<times> provider_adapter \<times> centimes \<times> currency) result" where
  "refund_checks getAdapter tenantId intentId d =
     (case tenant_intent tenantId intentId d of
        None \<Rightarrow> Inl (AppError 404 ''TRANSACTION_NOT_FOUND'')
      | Some intent \<Rightarrow>
          if in_status intent \<noteq> INTENT_SUCCEEDED then Inl (AppError 400 ''NOT_REFUNDABLE'')
          else if list_ex (active_refund intentId) (refunds d) then Inl (AppError 409 ''ALREADY_REFUNDED'')
          else (case in_providerRef intent of
            None \<Rightarrow> Inl (AppError 400 ''NO_PROVIDER_REF'')
          | Some providerRef \<Rightarrow>
              if providerRef = '''' then Inl (AppError 400 ''NO_PROVIDER_REF'')
              else (case tenant_config tenantId (in_provider intent) d of
                None \<Rightarrow> Inl (AppError 400 ''PROVIDER_NOT_CONFIGURED'')
              | Some config \<Rightarrow>
                  ebind (getAdapter (in_provider intent) (pc_encryptedCredentials config)) (\<lambda>adapter.
                  let (amountCentimes, c) = refund_amount d intent
                  in if amountCentimes = 0 then Inl (AppError 400 ''MISSING_AMOUNT'')
                     else Inr (intent, providerRef, adapter, amountCentimes, c)))))"

text \<open>
  The row that opens the refund. The partial unique index \<open>refund_one_active_per_intent\<close> rejects a second active refund of
  an intent; the handler turns the violation into 409.
\<close>

definition refund_open :: "env \<Rightarrow> string \<Rightarrow> string \<Rightarrow> payment_intent \<Rightarrow> centimes \<Rightarrow> currency \<Rightarrow> refund job_step" where
  "refund_open e tenantId userId intent amountCentimes c d =
     (if list_ex (active_refund (in_id intent)) (refunds d) then (Inl (AppError 409 ''ALREADY_REFUNDED''), d)
      else let row = \<lparr>rf_id = fresh e d, rf_paymentIntentId = in_id intent, rf_tenantId = tenantId, rf_initiatedBy = userId,
                 rf_status = REFUND_PENDING, rf_providerRefundRef = None, rf_amount = amountCentimes, rf_currency = c\<rparr>
           in (Inr row, audit tenantId userId ''REFUND_INITIATED'' ''Refund'' (rf_id row) ((bump d)\<lparr>refunds := refunds d @ [row]\<rparr>)))"

definition set_refund :: "string \<Rightarrow> refund_status \<Rightarrow> string option \<Rightarrow> db \<Rightarrow> db" where
  "set_refund refundId s ref d =
     d\<lparr>refunds := map (\<lambda>r. if rf_id r = refundId then r\<lparr>rf_status := s, rf_providerRefundRef := ref\<rparr> else r) (refunds d)\<rparr>"

text \<open>The transaction at the end.\<close>

definition refund_close :: "env \<Rightarrow> string \<Rightarrow> string \<Rightarrow> payment_intent \<Rightarrow> refund \<Rightarrow> refund_result \<Rightarrow> db \<Rightarrow> refund \<times> db" where
  "refund_close e tenantId userId intent row a d =
     (let finalStatus = (if fr_success a then REFUND_SUCCEEDED else REFUND_FAILED);
          d1 = set_refund (rf_id row) finalStatus (fr_providerRefundRef a) d;
          d2 = set_intent_status (in_id intent) (if fr_success a then INTENT_REFUNDED else INTENT_SUCCEEDED) d1;
          d3 = audit tenantId userId (if fr_success a then ''REFUND_SUCCEEDED'' else ''REFUND_FAILED'') ''Refund'' (rf_id row) d2
      in (row\<lparr>rf_status := finalStatus, rf_providerRefundRef := fr_providerRefundRef a\<rparr>,
          (bump d3)\<lparr>providerTransactions := providerTransactions d3 @
            [\<lparr>px_id = fresh e d3, px_paymentIntentId = in_id intent, px_provider = in_provider intent, px_providerTransactionId = None\<rparr>]\<rparr>))"

definition refundTransaction ::
  "(provider \<Rightarrow> string \<Rightarrow> provider_adapter result) \<Rightarrow> (db \<Rightarrow> db) \<Rightarrow> env \<Rightarrow> string \<Rightarrow> string \<Rightarrow> string \<Rightarrow> refund job_step" where
  "refundTransaction getAdapter race e tenantId userId intentId d =
     sbind (refund_checks getAdapter tenantId intentId d, d) (\<lambda>(intent, providerRef, adapter, amountCentimes, c) d.
     sbind (refund_open e tenantId userId intent amountCentimes c (race d)) (\<lambda>row d1.
     sbind (ad_refund adapter providerRef (of_int amountCentimes) c, d1) (\<lambda>a d1.
     sbind (if fr_success a
            then (case settleRefund e tenantId intentId (rf_id row) d1 of Inl x \<Rightarrow> (Inl x, d1) | Inr (_, d2) \<Rightarrow> (Inr (), d2))
            else (Inr (), d1)) (\<lambda>_ d2.
     let (r, d3) = refund_close e tenantId userId intent row a d2 in (Inr r, d3)))))"

section \<open>Lemmas\<close>

lemma refund_open_frame:
  assumes "refund_open e t u r amt c d = (res, d1)"
  shows "ledgerEntries d1 = ledgerEntries d \<and> paymentIntents d1 = paymentIntents d \<and> providerConfigs d1 = providerConfigs d \<and>
    paymentLinks d1 = paymentLinks d"
  using assms by (auto simp: refund_open_def audit_def bump_def Let_def split: if_splits)

lemma settleRefund_frame:
  assumes "settleRefund e t i j d = Inr (b, d')"
  shows "refunds d' = refunds d \<and> paymentIntents d' = paymentIntents d \<and> providerConfigs d' = providerConfigs d \<and>
    paymentLinks d' = paymentLinks d"
  using assms by (auto simp: settleRefund_def Let_def moves_frame split: if_splits list.splits)

lemma tenant_intent_the:
  assumes "tenant_intent t i d = Some r" "the_intent d' i r'" "paymentIntents d' = map f (paymentIntents d)"
    "\<And>x. in_id (f x) = in_id x \<and> in_tenantId (f x) = in_tenantId x"
  shows "tenant_intent t i d' = Some r'"
proof -
  from assms(1) have "r \<in> set (paymentIntents d)" "in_id r = i" "in_tenantId r = t"
    unfolding tenant_intent_def by (auto dest: find_SomeD)
  with assms(3) have "f r \<in> set (paymentIntents d')" by simp
  with \<open>in_id r = i\<close> \<open>in_tenantId r = t\<close> assms(2) assms(4) [of r] have "in_tenantId r' = t" unfolding the_intent_def by metis
  then show ?thesis unfolding tenant_intent_def using assms(2) by (intro find_unique) (auto simp: the_intent_def)
qed

lemma refund_checksD:
  assumes "refund_checks getAdapter t i d = Inr (r, ref, ad, amt, c)"
  shows "tenant_intent t i d = Some r" "in_status r = INTENT_SUCCEEDED" "in_id r = i" "in_tenantId r = t"
    "\<not> list_ex (active_refund i) (refunds d)"
  using assms unfolding refund_checks_def
  by (auto simp: tenant_intent_def case_prod_beta Let_def split: option.splits if_splits dest: find_SomeD)

text \<open>No later request gets past the checks, whatever the provider, the clock, the user or other requests do.\<close>

definition refund_refused :: "db \<Rightarrow> string \<Rightarrow> string \<Rightarrow> exn \<Rightarrow> bool" where
  "refund_refused d t i x \<longleftrightarrow>
     (\<forall>getAdapter race e u. refundTransaction getAdapter race e t u i d = (Inl x, d))"

lemma refused_pending:
  assumes "tenant_intent t i d = Some r" "in_status r = INTENT_SUCCEEDED" "list_ex (active_refund i) (refunds d)"
  shows "refund_refused d t i (AppError 409 ''ALREADY_REFUNDED'')"
  using assms by (simp add: refund_refused_def refundTransaction_def refund_checks_def)

lemma refused_status:
  assumes "tenant_intent t i d = Some r" "in_status r \<noteq> INTENT_SUCCEEDED"
  shows "refund_refused d t i (AppError 400 ''NOT_REFUNDABLE'')"
  using assms by (simp add: refund_refused_def refundTransaction_def refund_checks_def)

lemma refund_asks:
  assumes "refund_checks getAdapter t i d = Inr (r, ref, ad, amt, c)"
  shows "refundTransaction getAdapter (\<lambda>d. d) e t u i d =
    (case refund_open e t u r amt c d of (Inl x, d1) \<Rightarrow> (Inl x, d1) | (Inr row, d1) \<Rightarrow>
      (case ad_refund ad ref (of_int amt) c of
         Inl x \<Rightarrow> (Inl x, d1)
       | Inr a \<Rightarrow>
           if \<not> fr_success a then (let (x, d3) = refund_close e t u r row a d1 in (Inr x, d3))
           else (case settleRefund e t i (rf_id row) d1 of
                   Inl x \<Rightarrow> (Inl x, d1)
                 | Inr (_, d2) \<Rightarrow> (let (x, d3) = refund_close e t u r row a d2 in (Inr x, d3)))))"
  using assms by (auto simp: refundTransaction_def sbind_def Let_def split: sum.split prod.split)

lemma refund_close_parts:
  assumes "refund_close e t u r row a d = (row', d')"
  shows "rf_status row' = (if fr_success a then REFUND_SUCCEEDED else REFUND_FAILED)" "ledgerEntries d' = ledgerEntries d"
    "paymentIntents d' = paymentIntents (set_intent_status (in_id r) (if fr_success a then INTENT_REFUNDED else INTENT_SUCCEEDED) d)"
    "refunds d' = refunds (set_refund (rf_id row) (if fr_success a then REFUND_SUCCEEDED else REFUND_FAILED) (fr_providerRefundRef a) d)"
    "providerConfigs d' = providerConfigs d" "paymentLinks d' = paymentLinks d"
  using assms by (auto simp: refund_close_def Let_def audit_def bump_def set_refund_def set_intent_status_def)

lemma set_same_status:
  assumes "the_intent d i r"
  shows "paymentIntents (set_intent_status i (in_status r) d) = paymentIntents d"
proof -
  have "(if in_id x = i then x\<lparr>in_status := in_status r\<rparr> else x) = x" if "x \<in> set (paymentIntents d)" for x
    using assms that by (cases x) (auto simp: the_intent_def)
  then show ?thesis by (simp add: set_intent_status_def map_idI)
qed

lemma refund_checks_cong:
  assumes "paymentIntents d' = paymentIntents d" "providerConfigs d' = providerConfigs d" "paymentLinks d' = paymentLinks d"
    "list_ex (active_refund i) (refunds d') = list_ex (active_refund i) (refunds d)"
  shows "refund_checks getAdapter t i d' = refund_checks getAdapter t i d"
  using assms by (simp add: refund_checks_def tenant_intent_def tenant_config_def refund_amount_def find_link_def cong: option.case_cong if_cong)

text \<open>A rejected refund can be asked for again.\<close>

lemma refund_reopened:
  assumes "refund_checks ga t i d = Inr (r, ref, ad, amt, c)" "the_intent d i r" "\<forall>x\<in>set (refunds d). rf_id x \<noteq> fresh e d"
    "refund_open e t u r amt c d = (Inr row, d1)" "refund_close e t u r row a d1 = (row', d')" "\<not> fr_success a"
  shows "refund_checks getAdapter t i d' = refund_checks getAdapter t i d"
proof -
  note r = refund_checksD [OF assms(1)] and f = refund_open_frame [OF assms(4)] and p = refund_close_parts [OF assms(5)]
  have row: "rf_id row = fresh e d" "refunds d1 = refunds d @ [row]"
    using assms(4) r by (auto simp: refund_open_def audit_def Let_def split: if_splits)
  have "paymentIntents d' = paymentIntents d"
    using p(3) assms(6) r(2,3) f set_same_status [OF assms(2)] by (simp add: set_intent_status_def)
  moreover have "list_ex (active_refund i) (refunds d') = list_ex (active_refund i) (refunds d)"
    using r(5) p(4) row assms(3,6) by (auto simp: set_refund_def list_ex_iff active_refund_def)
  ultimately show ?thesis using f p(5,6) by (intro refund_checks_cong) simp_all
qed

lemma refund_finished:
  assumes "refund_checks ga t i d = Inr (r, ref, ad, amt, c)" "the_intent d i r" "paymentIntents d2 = paymentIntents d"
    "refund_close e t u r row a d2 = (row', d')" "fr_success a"
  shows "the_intent d' i (r\<lparr>in_status := INTENT_REFUNDED\<rparr>)" "refund_refused d' t i (AppError 400 ''NOT_REFUNDABLE'')"
proof -
  note r = refund_checksD [OF assms(1)] and p = refund_close_parts [OF assms(4)]
  have eq: "paymentIntents d' = paymentIntents (set_intent_status i INTENT_REFUNDED d)"
    using p(3) assms(3,5) r(3) by (simp add: set_intent_status_def)
  then show ti: "the_intent d' i (r\<lparr>in_status := INTENT_REFUNDED\<rparr>)"
    using the_intent_set [OF assms(2)] by (simp add: the_intent_cong [OF eq])
  have "tenant_intent t i d' = Some (r\<lparr>in_status := INTENT_REFUNDED\<rparr>)"
    by (rule tenant_intent_the [OF r(1) ti, where f = "\<lambda>r. if in_id r = i then r\<lparr>in_status := INTENT_REFUNDED\<rparr> else r"])
       (simp_all add: eq set_intent_status_def)
  then show "refund_refused d' t i (AppError 400 ''NOT_REFUNDABLE'')" by (rule refused_status) simp
qed

lemma refund_left_open:
  assumes "refund_checks ga t i d = Inr (r, ref, ad, amt, c)" "refund_open e t u r amt c d = (Inr row, d1)"
  shows "refund_refused d1 t i (AppError 409 ''ALREADY_REFUNDED'')"
proof -
  note r = refund_checksD [OF assms(1)] and f = refund_open_frame [OF assms(2)]
  have "list_ex (active_refund i) (refunds d1)"
    using assms(2) r(3) by (auto simp: refund_open_def audit_def Let_def list_ex_iff active_refund_def split: if_splits)
  moreover have "tenant_intent t i d1 = Some r" using r(1) f by (simp add: tenant_intent_def)
  ultimately show ?thesis using r(2) by (intro refused_pending)
qed

lemma refund_opens:
  assumes "refund_checks ga t i d = Inr (r, ref, ad, amt, c)"
  obtains row where "refund_open e t u r amt c d = (Inr row, snd (refund_open e t u r amt c d))" "rf_id row = fresh e d"
  using refund_checksD [OF assms] by (auto simp: refund_open_def Let_def)

text \<open>Towards the ledger the request is a sequence of money steps.\<close>

lemma refund_open_ledger: "ledgerEntries (snd (refund_open e t u r amt c d)) = ledgerEntries d"
  by (simp add: refund_open_def audit_def Let_def)

lemma refund_close_ledger: "ledgerEntries (snd (refund_close e t u r row a d)) = ledgerEntries d"
  by (cases "refund_close e t u r row a d") (simp add: refund_close_parts)

lemma reaches_refund:
  assumes "ledgerEntries d0 = ledgerEntries d"
  shows "reaches money_step d (snd (case settleRefund e t i j d of Inl x \<Rightarrow> (Inl x, d0) | Inr (b, d2) \<Rightarrow> (Inr (), d2)))"
  using assms by (auto split: sum.splits prod.splits intro: reaches_other reaches_step [OF money_step.refund])

lemma refundTransaction_reaches: "reaches money_step d (snd (refundTransaction getAdapter (\<lambda>d. d) e t u i d))"
  unfolding refundTransaction_def
  by (auto simp: split_beta Let_def intro!: reaches_sbind reaches_refund)
     (rule reaches_other, simp add: refund_open_ledger refund_close_ledger)+

interpretation refund_job: ledger_job "\<lambda>d. snd (refundTransaction getAdapter (\<lambda>d. d) e t u i d)" for getAdapter e t u i
  by unfold_locales (rule refundTransaction_reaches)

section \<open>Property\<close>

text \<open>
  C18. The outcomes of a refund request that passes the checks. When the provider rejects the refund, the refund row is FAILED, the
  ledger is untouched and the request may be repeated. When it accepts and the settlement can be reversed, the row is
  SUCCEEDED, the ledger is the one \<open>settleRefund\<close> leaves, the intent is REFUNDED and every later request is refused. When the
  provider does not answer, or accepts a refund of money that has already been paid out, the request fails with the ledger
  untouched and the row stays PENDING: every later request is answered ALREADY_REFUNDED, although in the first case the
  customer may not have been paid back and in the second the ledger never shows that he was. A request that loses the race
  for the refund row is refused before the provider is asked.
\<close>

theorem refund_outcomes:
  fixes u :: string
  assumes "refund_checks getAdapter t i d = Inr (r, ref, ad, amt, c)" "the_intent d i r"
    "\<forall>x\<in>set (refunds d). rf_id x \<noteq> fresh e d"
  defines "run \<equiv> refundTransaction getAdapter (\<lambda>d. d) e t u i d"
  shows "(\<forall>race. list_ex (active_refund i) (refunds (race d)) \<longrightarrow>
      refundTransaction getAdapter race e t u i d = (Inl (AppError 409 ''ALREADY_REFUNDED''), race d)) \<and>
    (case ad_refund ad ref (of_int amt) c of
      Inl x \<Rightarrow> \<exists>d'. run = (Inl x, d') \<and> ledgerEntries d' = ledgerEntries d \<and>
        refund_refused d' t i (AppError 409 ''ALREADY_REFUNDED'')
    | Inr a \<Rightarrow>
        if \<not> fr_success a
        then \<exists>row d'. run = (Inr row, d') \<and> rf_status row = REFUND_FAILED \<and> ledgerEntries d' = ledgerEntries d \<and>
               (\<forall>ga. refund_checks ga t i d' = refund_checks ga t i d)
        else (case settleRefund e t i (fresh e d) (snd (refund_open e t u r amt c d)) of
               Inl x \<Rightarrow> \<exists>d'. run = (Inl x, d') \<and> ledgerEntries d' = ledgerEntries d \<and>
                 refund_refused d' t i (AppError 409 ''ALREADY_REFUNDED'')
             | Inr (_, d2) \<Rightarrow> \<exists>row d'. run = (Inr row, d') \<and> rf_status row = REFUND_SUCCEEDED \<and>
                 ledgerEntries d' = ledgerEntries d2 \<and> the_intent d' i (r\<lparr>in_status := INTENT_REFUNDED\<rparr>) \<and>
                 refund_refused d' t i (AppError 400 ''NOT_REFUNDABLE'')))"
proof -
  have race: "\<forall>race. list_ex (active_refund i) (refunds (race d)) \<longrightarrow>
      refundTransaction getAdapter race e t u i d = (Inl (AppError 409 ''ALREADY_REFUNDED''), race d)"
    using assms(1) refund_checksD(3) [OF assms(1)] by (simp add: refundTransaction_def refund_open_def)
  obtain row where row: "refund_open e t u r amt c d = (Inr row, snd (refund_open e t u r amt c d))" "rf_id row = fresh e d"
    by (rule refund_opens [OF assms(1)])
  define d1 where "d1 = snd (refund_open e t u r amt c d)"
  note op = row(1) [folded d1_def] and f = refund_open_frame [OF row(1), folded d1_def]
  note asks = refund_asks [OF assms(1), of e u, folded run_def, unfolded op prod.case sum.case row(2)]
  note stuck = refund_left_open [OF assms(1) op]
  have fin: "case settleRefund e t i (fresh e d) d1 of
      Inl x \<Rightarrow> \<exists>d'. run = (Inl x, d') \<and> ledgerEntries d' = ledgerEntries d \<and> refund_refused d' t i (AppError 409 ''ALREADY_REFUNDED'')
    | Inr (_, d2) \<Rightarrow> \<exists>row d'. run = (Inr row, d') \<and> rf_status row = REFUND_SUCCEEDED \<and> ledgerEntries d' = ledgerEntries d2 \<and>
        the_intent d' i (r\<lparr>in_status := INTENT_REFUNDED\<rparr>) \<and> refund_refused d' t i (AppError 400 ''NOT_REFUNDABLE'')"
    if a: "ad_refund ad ref (of_int amt) c = Inr a" "fr_success a" for a
  proof (cases "settleRefund e t i (fresh e d) d1")
    case (Inl x)
    then show ?thesis using asks a stuck f by simp
  next
    case (Inr y)
    obtain b d2 where y: "y = (b, d2)" by (cases y)
    obtain row' d' where cl: "refund_close e t u r row a d2 = (row', d')" by (cases "refund_close e t u r row a d2")
    have "paymentIntents d2 = paymentIntents d" using settleRefund_frame [OF Inr [unfolded y]] f by simp
    note done' = refund_finished [OF assms(1,2) this cl a(2)]
    show ?thesis using asks a Inr y cl done' refund_close_parts(1,2) [OF cl] by simp
  qed
  show ?thesis
  proof (cases "ad_refund ad ref (of_int amt) c")
    case (Inl x)
    then show ?thesis using race asks stuck f by simp
  next
    case (Inr a)
    obtain row' d' where cl: "refund_close e t u r row a d1 = (row', d')" by (cases "refund_close e t u r row a d1")
    show ?thesis
      using race Inr fin [OF Inr] asks cl refund_close_parts(1,2) [OF cl] refund_reopened [OF assms(1-3) op cl] f
      by (cases "fr_success a") (simp_all add: d1_def)
  qed
qed

text \<open>A payment of 5.00 that has been paid out: the provider accepts the refund, the ledger refuses it.\<close>

definition paid_out_db :: db where
  "paid_out_db = demo_intent_db\<lparr>paymentIntents := [demo_intent\<lparr>in_status := INTENT_SUCCEEDED\<rparr>],
     ledgerEntries :=
       [\<lparr>le_id = ''e1'', le_postingId = ''p1'', le_tenantId = ''t1'', le_account = AVAILABLE, le_direction = CREDIT, le_category = CAPTURE,
         le_amount = 500, le_currency = MAD, le_balanceAfter = 500, le_sourceType = Some ''payment_intent'', le_sourceId = Some ''i1'',
         le_partyId = None, le_createdAt = 0\<rparr>,
        \<lparr>le_id = ''e2'', le_postingId = ''p2'', le_tenantId = ''t1'', le_account = AVAILABLE, le_direction = DEBIT, le_category = PAYOUT,
         le_amount = 500, le_currency = MAD, le_balanceAfter = 0, le_sourceType = Some ''payout'', le_sourceId = Some ''po1'',
         le_partyId = None, le_createdAt = 1\<rparr>]\<rparr>"

definition accepting_adapter :: provider_adapter where
  "accepting_adapter =
     (VpsAdapter (\<lambda>k b. b) \<lparr>vc_notificationKey = None, vc_callbackTestMode = None\<rparr> (\<lambda>q. Inl (JsError ''TimeoutError'')))
       \<lparr>ad_refund := \<lambda>ref n c. Inr \<lparr>fr_success = True, fr_providerRefundRef = Some ''rf'', fr_rawResponse = JNull\<rparr>\<rparr>"

theorem refund_outcomes_witness:
  "\<exists>d'. refundTransaction (\<lambda>p k. Inr accepting_adapter) (\<lambda>d. d) demo_env ''t1'' ''owner'' ''i1'' paid_out_db =
      (Inl (AppError 409 ''REFUND_AFTER_PAYOUT''), d') \<and> refund_refused d' ''t1'' ''i1'' (AppError 409 ''ALREADY_REFUNDED'')"
proof -
  let ?r = "demo_intent\<lparr>in_status := INTENT_SUCCEEDED\<rparr>"
  have amt: "centimes 500 = 500" using Math_round_of_int [of 500] by (simp add: centimes_def)
  have ck: "refund_checks (\<lambda>p k. Inr accepting_adapter) ''t1'' ''i1'' paid_out_db = Inr (?r, ''ref'', accepting_adapter, 500, MAD)"
    by (simp add: refund_checks_def tenant_intent_def tenant_config_def refund_amount_def find_link_def paid_out_db_def demo_intent_db_def
        demo_intent_def empty_db_def amt)
  have ti: "the_intent paid_out_db ''i1'' ?r" by (simp add: the_intent_def paid_out_db_def demo_intent_db_def demo_intent_def)
  have new: "\<forall>x\<in>set (refunds paid_out_db). rf_id x \<noteq> fresh demo_env paid_out_db"
    by (simp add: paid_out_db_def demo_intent_db_def empty_db_def)
  have le: "ledgerEntries (snd (refund_open demo_env ''t1'' ''owner'' ?r 500 MAD paid_out_db)) = ledgerEntries paid_out_db"
    using refund_open_frame [of demo_env "''t1''" "''owner''" ?r 500 MAD paid_out_db] by (cases "refund_open demo_env ''t1'' ''owner'' ?r 500 MAD paid_out_db") auto
  have "settleRefund demo_env ''t1'' ''i1'' (fresh demo_env paid_out_db) (snd (refund_open demo_env ''t1'' ''owner'' ?r 500 MAD paid_out_db))
      = Inl (AppError 409 ''REFUND_AFTER_PAYOUT'')"
    by (simp add: settleRefund_def refund_exists_def refund_credits_def REFUNDED_ACCOUNTS_def accountBalanceCents_def entries_of_def le
        paid_out_db_def [THEN arg_cong, of ledgerEntries])
  with refund_outcomes [OF ck ti new, of "''owner''"] show ?thesis by (auto simp: accepting_adapter_def)
qed

end
