(* ===== verification/Poller.thy ===== *)
theory Poller
  imports Webhooks RefundRoute
begin

text \<open>
  The two places that ask a provider for the status of a payment: \<open>GET /payment-intents/:id/status\<close>
  (\<open>src/routes/paymentIntents.ts\<close>) and the polling job (\<open>src/jobs/paymentPoller.inngest.ts\<close>). What others write while a request
  to the provider is under way, or while the job sleeps, is an argument.
\<close>

section \<open>Definitions\<close>

definition intent_by_id :: "string \<Rightarrow> db \<Rightarrow> payment_intent option" where
  "intent_by_id intentId d = find (\<lambda>r. in_id r = intentId) (paymentIntents d)"

text \<open>\<open>prisma.paymentIntent.update\<close> of the status.\<close>

definition write_status :: "string \<Rightarrow> payment_intent_status \<Rightarrow> unit job_step" where
  "write_status intentId s d =
     (case intent_by_id intentId d of None \<Rightarrow> (Inl (JsError ''P2025''), d) | Some _ \<Rightarrow> (Inr (), set_intent_status intentId s d))"

definition intentStatus ::
  "(provider \<Rightarrow> string \<Rightarrow> provider_adapter result) \<Rightarrow> (db \<Rightarrow> db) \<Rightarrow> string \<Rightarrow> string \<Rightarrow> (payment_intent_status \<times> string option) job_step" where
  "intentStatus getAdapter race tenantId intentId d =
     (case tenant_intent tenantId intentId d of
        None \<Rightarrow> (Inl (AppError 404 ''INTENT_NOT_FOUND''), d)
      | Some intent \<Rightarrow>
          if in_status intent \<in> TERMINAL_STATUSES then (Inr (in_status intent, in_providerRef intent), d)
          else (case in_providerRef intent of
            None \<Rightarrow> (Inr (in_status intent, None), d)
          | Some providerRef \<Rightarrow>
              if providerRef = '''' then (Inr (in_status intent, None), d)
              else (case tenant_config tenantId (in_provider intent) d of
                None \<Rightarrow> (Inl (AppError 400 ''PROVIDER_NOT_CONFIGURED''), d)
              | Some config \<Rightarrow>
                  sbind (getAdapter (in_provider intent) (pc_encryptedCredentials config), d) (\<lambda>adapter d.
                  case ad_queryTransactionStatus adapter providerRef of
                    Inl _ \<Rightarrow> (Inr (in_status intent, Some providerRef), race d)
                  | Inr q \<Rightarrow>
                      sbind (if qs_status q \<noteq> in_status intent then write_status intentId (qs_status q) (race d) else (Inr (), race d))
                        (\<lambda>_ d1. (Inr (qs_status q, Some providerRef), d1))))))"

subsection \<open>The polling job\<close>

definition POLL_INTERVAL_MS :: int where "POLL_INTERVAL_MS = 30000"
definition MAX_DURATION_MS_DEFAULT :: int where "MAX_DURATION_MS_DEFAULT = 900000"
definition MAX_DURATION_MS_STRIPE :: int where "MAX_DURATION_MS_STRIPE = 86400000"

definition maxDurationFor :: "provider \<Rightarrow> int" where
  "maxDurationFor p = (if p = STRIPE then MAX_DURATION_MS_STRIPE else MAX_DURATION_MS_DEFAULT)"

text \<open>
  What one turn of the loop meets: the value \<open>started\<close> has in the execution of the function that performs the turn, the clock at the
  time of the check, what others write during the sleep and during the request, and the provider. The job runner executes the
  function again from its first line whenever a step ends, so \<open>started\<close> need not be the same in all turns.
\<close>

record poll_round =
  pr_started :: int
  pr_now :: int
  pr_sleep :: "db \<Rightarrow> db"
  pr_query :: "db \<Rightarrow> db"
  pr_getAdapter :: "provider \<Rightarrow> string \<Rightarrow> provider_adapter result"

definition is_preauth :: "payment_intent \<Rightarrow> bool" where
  "is_preauth intent \<longleftrightarrow> Option.bind (in_metadata intent) meta_isPreauth = Some True"

definition connected_config :: "string \<Rightarrow> provider \<Rightarrow> db \<Rightarrow> provider_config option" where
  "connected_config tenantId p d =
     find (\<lambda>c. pc_tenantId c = tenantId \<and> pc_provider c = p \<and> pc_status c = CONFIG_CONNECTED) (providerConfigs d)"

text \<open>
  The step \<open>query-provider\<close>; \<open>None\<close> is the answer \<open>null\<close>. The promise of the request is returned from the \<open>try\<close> block without
  \<open>await\<close>, so only what \<open>getAdapter\<close> throws is caught.
\<close>

definition query_provider :: "string \<Rightarrow> provider \<Rightarrow> poll_round \<Rightarrow> payment_intent \<Rightarrow> query_status_result option job_step" where
  "query_provider tenantId p turn intent d =
     (case connected_config tenantId p d of
        None \<Rightarrow> (Inr None, d)
      | Some config \<Rightarrow>
          (case pr_getAdapter turn p (pc_encryptedCredentials config) of
             Inl _ \<Rightarrow> (Inr None, d)
           | Inr adapter \<Rightarrow>
               sbind (ad_queryTransactionStatus adapter (coalesce (in_providerRef intent) ''''), pr_query turn d) (\<lambda>q d. (Inr (Some q), d))))"

text \<open>One turn; the value tells whether the loop is left.\<close>

definition poll_once :: "string \<Rightarrow> provider \<Rightarrow> string \<Rightarrow> poll_round \<Rightarrow> bool job_step" where
  "poll_once intentId p tenantId turn d0 =
     (let d = pr_sleep turn d0
      in case intent_by_id intentId d of
           None \<Rightarrow> (Inr True, d)
         | Some intent \<Rightarrow>
             if in_status intent \<in> TERMINAL_STATUSES then (Inr True, d)
             else if is_preauth intent then (Inr False, d)
             else if pr_now turn - pr_started turn \<ge> maxDurationFor p
             then sbind (write_status intentId INTENT_FAILED d) (\<lambda>_ d1. (Inr True, d1))
             else if p = STRIPE \<and> in_status intent = INTENT_REQUIRES_ACTION then (Inr False, d)
             else sbind (query_provider tenantId p turn intent d) (\<lambda>queryResult d.
               case queryResult of
                 None \<Rightarrow> (Inr False, d)
               | Some q \<Rightarrow>
                   let newStatus = qs_status q
                   in if newStatus \<noteq> in_status intent
                      then sbind (write_status intentId newStatus d) (\<lambda>_ d1.
                        if newStatus \<in> {INTENT_SUCCEEDED, INTENT_REFUNDED}
                        then (Inr True, send_event (PaymentNotify intentId tenantId newStatus None) d1)
                        else (Inr (newStatus \<in> {INTENT_FAILED, INTENT_CANCELED}), d1))
                      else (Inr False, d)))"

text \<open>The loop over the turns that take place; \<open>None\<close> when they do not bring it to an end.\<close>

fun paymentPoller :: "string \<Rightarrow> provider \<Rightarrow> string \<Rightarrow> poll_round list \<Rightarrow> db \<Rightarrow> unit result option \<times> db" where
  "paymentPoller intentId p tenantId [] d = (None, d)"
| "paymentPoller intentId p tenantId (turn # rs) d =
     (case poll_once intentId p tenantId turn d of
        (Inl x, d1) \<Rightarrow> (Some (Inl x), d1)
      | (Inr True, d1) \<Rightarrow> (Some (Inr ()), d1)
      | (Inr False, d1) \<Rightarrow> paymentPoller intentId p tenantId rs d1)"

section \<open>Lemmas\<close>

lemma find_map_keep:
  assumes "\<And>x. P (f x) = P x"
  shows "find P (map f xs) = map_option f (find P xs)"
  by (induction xs) (simp_all add: assms)

lemma intent_by_id_set: "intent_by_id i (set_intent_status i s d) = map_option (\<lambda>r. r\<lparr>in_status := s\<rparr>) (intent_by_id i d)"
proof -
  have "find (\<lambda>r. in_id r = i) (map (\<lambda>r. if in_id r = i then r\<lparr>in_status := s\<rparr> else r) xs) =
      map_option (\<lambda>r. r\<lparr>in_status := s\<rparr>) (find (\<lambda>r. in_id r = i) xs)" for xs by (induction xs) auto
  then show ?thesis by (simp add: intent_by_id_def set_intent_status_def)
qed

lemma intent_by_id_send [simp]: "intent_by_id i (send_event ev d) = intent_by_id i d"
  by (simp add: intent_by_id_def)

lemma find_stripe_intent_set:
  "find_stripe_intent (set_intent_status i s d) obj =
     map_option (\<lambda>r. if in_id r = i then r\<lparr>in_status := s\<rparr> else r) (find_stripe_intent d obj)"
proof -
  let ?f = "\<lambda>r. if in_id r = i then r\<lparr>in_status := s\<rparr> else r"
  have 1: "intent_by_correlation (set_intent_status i s d) STRIPE c = map_option ?f (intent_by_correlation d STRIPE c)" for c
    unfolding intent_by_correlation_def set_intent_status_def by (simp add: find_map_keep)
  have 2: "find (\<lambda>r. in_providerRef r = Some k \<and> in_provider r = STRIPE) (paymentIntents (set_intent_status i s d)) =
      map_option ?f (find (\<lambda>r. in_providerRef r = Some k \<and> in_provider r = STRIPE) (paymentIntents d))" for k
    unfolding set_intent_status_def by (simp add: find_map_keep)
  have 3: "or_else (map_option ?f a) (map_option ?f b) = map_option ?f (or_else a b)" for a b
    by (cases a) (simp_all add: or_else_def)
  have 4: "Option.bind a (\<lambda>x. map_option ?f (g x)) = map_option ?f (Option.bind a g)" for a :: "string option" and g
    by (cases a) simp_all
  have 5: "Option.bind a (\<lambda>c. if c = [] then None else map_option ?f (g c)) = map_option ?f (Option.bind a (\<lambda>c. if c = [] then None else g c))"
    for a :: "string option" and g by (cases a) simp_all
  show ?thesis unfolding find_stripe_intent_def Let_def 1 2 3 4 5 ..
qed

lemma write_status_ledger [simp]: "ledgerEntries (snd (write_status i s d)) = ledgerEntries d"
  by (simp add: write_status_def split: option.split)

interpretation status_request: ledger_neutral "\<lambda>d. snd (intentStatus getAdapter (\<lambda>d. d) t i d)" for getAdapter t i
  by unfold_locales (auto simp: intentStatus_def write_status_def sbind_def split: option.split sum.split)

subsection \<open>When the loop ends\<close>

text \<open>What the end of the loop means for the intent: it is gone or in a terminal status.\<close>

definition poll_ended :: "string \<Rightarrow> db \<Rightarrow> bool" where
  "poll_ended i d \<longleftrightarrow> (case intent_by_id i d of None \<Rightarrow> True | Some r \<Rightarrow> in_status r \<in> TERMINAL_STATUSES)"

lemma write_status_cases:
  obtains "write_status i s d = (Inl (JsError ''P2025''), d)" "intent_by_id i d = None"
  | r where "write_status i s d = (Inr (), set_intent_status i s d)" "intent_by_id i d = Some r"
  by (cases "intent_by_id i d") (auto simp: write_status_def)

lemma query_provider_db:
  assumes "query_provider t p turn r d = (res, d')"
  shows "d' = d \<or> d' = pr_query turn d"
  using assms by (auto simp: query_provider_def sbind_def split: option.splits sum.splits)

lemma poll_once_left:
  assumes "poll_once i p t turn d = (Inr True, d')"
  shows "poll_ended i d'"
  using assms
  by (auto simp: poll_once_def poll_ended_def write_status_def intent_by_id_set sbind_def Let_def TERMINAL_STATUSES_def
      split: option.splits if_splits prod.splits sum.splits)

lemma paymentPoller_ended:
  "paymentPoller i p t rs d = (Some (Inr ()), d') \<Longrightarrow> poll_ended i d'"
  by (induction rs arbitrary: d) (auto dest: poll_once_left split: prod.splits sum.splits bool.splits)

text \<open>
  A turn of a job that the runner executes again after the sleep, so that \<open>started\<close> is the time of this execution and the clock is
  read less than the timeout after it. Others may write anything but this intent.
\<close>

definition idle_turn :: "string \<Rightarrow> provider \<Rightarrow> payment_intent \<Rightarrow> poll_round \<Rightarrow> bool" where
  "idle_turn i p r turn \<longleftrightarrow> pr_now turn - pr_started turn < maxDurationFor p \<and>
     (\<forall>d. intent_by_id i d = Some r \<longrightarrow> intent_by_id i (pr_sleep turn d) = Some r \<and> intent_by_id i (pr_query turn d) = Some r)"

text \<open>The provider has nothing new to report.\<close>

definition still_open :: "provider \<Rightarrow> payment_intent \<Rightarrow> poll_round \<Rightarrow> bool" where
  "still_open p r turn \<longleftrightarrow>
     p = STRIPE \<and> in_status r = INTENT_REQUIRES_ACTION \<or>
     (\<forall>cred ad. pr_getAdapter turn p cred = Inr ad \<longrightarrow>
        (\<exists>q. ad_queryTransactionStatus ad (coalesce (in_providerRef r) '''') = Inr q \<and> qs_status q = in_status r))"

lemma poll_once_idle:
  assumes "intent_by_id i d = Some r" "in_status r \<notin> TERMINAL_STATUSES" "idle_turn i p r turn" "still_open p r turn"
  obtains d' where "poll_once i p t turn d = (Inr False, d')" "intent_by_id i d' = Some r"
proof -
  define x where "x = pr_sleep turn d"
  have s: "intent_by_id i x = Some r" "intent_by_id i (pr_query turn x) = Some r" "\<not> maxDurationFor p \<le> pr_now turn - pr_started turn"
    using assms(1,3) by (auto simp: idle_turn_def x_def)
  show ?thesis
  proof (cases "is_preauth r \<or> p = STRIPE \<and> in_status r = INTENT_REQUIRES_ACTION")
    case True
    then have "poll_once i p t turn d = (Inr False, x)" using s assms(2) by (auto simp: poll_once_def x_def [symmetric])
    then show ?thesis using s(1) by (rule that)
  next
    case False
    with assms(4) have q: "pr_getAdapter turn p cred = Inr ad \<Longrightarrow>
        \<exists>q. ad_queryTransactionStatus ad (coalesce (in_providerRef r) '''') = Inr q \<and> qs_status q = in_status r" for cred ad
      unfolding still_open_def by blast
    have "query_provider t p turn r x = (Inr None, x) \<or>
        (\<exists>q. query_provider t p turn r x = (Inr (Some q), pr_query turn x) \<and> qs_status q = in_status r)"
      by (auto simp: query_provider_def s split: option.splits sum.splits dest!: q)
    then obtain y where "poll_once i p t turn d = (Inr False, y)" "y = x \<or> y = pr_query turn x"
      using s assms(2) False by (auto simp: poll_once_def x_def [symmetric])
    with s show ?thesis by (intro that [of y]) auto
  qed
qed

lemma poller_idle:
  assumes "intent_by_id i d = Some r" "in_status r \<notin> TERMINAL_STATUSES" "\<forall>turn\<in>set rs. idle_turn i p r turn \<and> still_open p r turn"
  shows "\<exists>d1. intent_by_id i d1 = Some r \<and> (\<forall>rs'. paymentPoller i p t (rs @ rs') d = paymentPoller i p t rs' d1)"
  using assms(1,3)
proof (induction rs arbitrary: d)
  case (Cons turn rs)
  obtain d' where d': "poll_once i p t turn d = (Inr False, d')" "intent_by_id i d' = Some r"
    by (rule poll_once_idle [OF Cons.prems(1) assms(2), where p = p and turn = turn and t = t]) (use Cons.prems(2) in auto)
  with Cons.IH [OF d'(2)] Cons.prems(2) show ?case by simp
qed auto

lemma poll_once_stops:
  assumes "poll_ended i (pr_sleep turn d)"
  shows "poll_once i p t turn d = (Inr True, pr_sleep turn d)"
  using assms by (auto simp: poll_once_def poll_ended_def Let_def split: option.splits)

lemma poll_once_timeout:
  assumes "intent_by_id i (pr_sleep turn d) = Some r" "in_status r \<notin> TERMINAL_STATUSES" "\<not> is_preauth r"
    "maxDurationFor p \<le> pr_now turn - pr_started turn"
  shows "poll_once i p t turn d = (Inr True, set_intent_status i INTENT_FAILED (pr_sleep turn d))"
  using assms by (simp add: poll_once_def write_status_def)

subsection \<open>The Stripe events\<close>

definition event_type :: "json \<Rightarrow> string" where
  "event_type body = coalesce (json_string (json_field body ''type'')) []"

definition event_object :: "json \<Rightarrow> json" where
  "event_object body = coalesce (json_field (coalesce (json_field body ''data'') (JObj [])) ''object'') (JObj [])"

lemma stripe_tables:
  "ledgerEntries (mark_link_paid l (upsert_provider_transaction e i tx d)) = ledgerEntries d"
  "webhookEvents (mark_link_paid l (upsert_provider_transaction e i tx d)) = webhookEvents d"
  by (simp_all add: mark_link_paid_def upsert_provider_transaction_def bump_def split: option.split)

lemma stored_event:
  assumes "\<not> seen_event d key"
  obtains ev d' where "store_webhook_event e p intent ok uo key d = (Inr ev, d')" "ledgerEntries d' = ledgerEntries d"
  using assms by (simp add: store_webhook_event_def bump_def)

lemma the_intent_found: "the_intent d i r \<Longrightarrow> find (\<lambda>r. in_id r = i) (paymentIntents d) = Some r"
  by (rule find_unique) (auto simp: the_intent_def)

text \<open>A success event for a payment that is SUCCEEDED already is stored and nothing else.\<close>

lemma stripe_success_ignored:
  assumes "find_stripe_intent d (event_object body) = Some r" "the_intent d (in_id r) r" "in_status r = INTENT_SUCCEEDED"
    "route_stripe_event (event_type body) (event_object body) = Some (INTENT_SUCCEEDED, tx)" "\<not> seen_event d key"
  shows "\<exists>d'. stripeWebhookProcessor lc e body key d = (Inr None, d') \<and> ledgerEntries d' = ledgerEntries d"
proof -
  define d4 where "d4 = mark_link_paid (in_paymentLinkId r) (upsert_provider_transaction e (in_id r) tx d)"
  have "\<not> seen_event d4 key" using assms(5) by (simp add: d4_def seen_event_cong [OF stripe_tables(2)])
  then obtain ev d5 where st: "store_webhook_event e STRIPE (Some r) True
      \<lparr>uo_mappedStatus = Some INTENT_SUCCEEDED, uo_processingError = None, uo_processed = False\<rparr> key d4 = (Inr ev, d5)"
    "ledgerEntries d5 = ledgerEntries d4" by (rule stored_event)
  have up: "stripe_update_status (in_id r) INTENT_SUCCEEDED d = (None, d)"
    using the_intent_found [OF assms(2)] assms(3) by (simp add: stripe_update_status_def TERMINAL_STATUSES_def)
  have "stripeWebhookProcessor lc e body key d = (Inr None, d5)"
    unfolding stripeWebhookProcessor_def Let_def event_type_def [symmetric] event_object_def [symmetric]
    by (simp add: assms(1,4) up d4_def [symmetric] st(1))
  with st(2) show ?thesis by (simp add: d4_def stripe_tables)
qed

lemma stripe_success_settles:
  assumes "find_stripe_intent d (event_object body) = Some r" "the_intent d (in_id r) r" "in_status r \<notin> TERMINAL_STATUSES"
    "route_stripe_event (event_type body) (event_object body) = Some (INTENT_SUCCEEDED, tx)" "\<not> seen_event d key"
    "settle_ready d (in_tenantId r) (Math_round (fst (link_charge d r)))" "0 < Math_round (fst (link_charge d r))"
  shows "\<exists>d'. stripeWebhookProcessor lc e body key d = (Inr (Some INTENT_SUCCEEDED), d') \<and> alreadySettled d' (in_tenantId r) (in_id r)"
proof -
  define d1 where "d1 = set_intent_status (in_id r) INTENT_SUCCEEDED d"
  have up: "stripe_update_status (in_id r) INTENT_SUCCEEDED d = (Some INTENT_SUCCEEDED, d1)"
    using the_intent_found [OF assms(2)] assms(3) by (auto simp: stripe_update_status_def TERMINAL_STATUSES_def d1_def)
  have ch: "link_charge d1 r = link_charge d r" by (simp add: d1_def set_intent_status_def link_charge_def find_link_def cong: option.case_cong)
  have "same_money d d1" by (simp add: d1_def set_intent_status_def same_money_def)
  note m = same_money_settle [OF this]
  have "settle_ready d1 (in_tenantId r) (Math_round (fst (link_charge d r)))" using assms(6) m(1) by simp
  from settleCapture_ready [OF this assms(7), of lc e "in_id r" "Some (snd (link_charge d r))" None] obtain b d2 where
    d2: "settleCapture lc e (in_tenantId r) (in_id r) (fst (link_charge d r)) (Some (snd (link_charge d r))) None d1 = Inr (b, d2)"
      "alreadySettled d2 (in_tenantId r) (in_id r)" by blast
  define d4 where "d4 = mark_link_paid (in_paymentLinkId r) (upsert_provider_transaction e (in_id r) tx d2)"
  have "seen_event d4 key = seen_event d1 key"
    using settleCapture_intents [OF d2(1)] by (simp add: d4_def seen_event_def stripe_tables)
  with assms(5) m(3) have "\<not> seen_event d4 key" by simp
  then obtain ev d5 where st: "store_webhook_event e STRIPE (Some r) True
      \<lparr>uo_mappedStatus = Some INTENT_SUCCEEDED, uo_processingError = None, uo_processed = True\<rparr> key d4 = (Inr ev, d5)"
    "ledgerEntries d5 = ledgerEntries d4" by (rule stored_event)
  have "stripeWebhookProcessor lc e body key d = (Inr (Some INTENT_SUCCEEDED), send_event (RiskEvaluate (in_id r) (in_tenantId r))
      (send_event (PaymentNotify (in_id r) (in_tenantId r) INTENT_SUCCEEDED (Some ev)) d5))"
    unfolding stripeWebhookProcessor_def Let_def event_type_def [symmetric] event_object_def [symmetric]
    by (simp add: assms(1,4) up ch d2(1) d4_def [symmetric] st(1))
  moreover have "alreadySettled d5 (in_tenantId r) (in_id r)"
    using d2(2) st(2) by (simp add: alreadySettled_def d4_def stripe_tables)
  ultimately show ?thesis by simp
qed

text \<open>The status request writes what the provider reports.\<close>

lemma intentStatus_asks:
  assumes "the_intent d i r" "in_tenantId r = t" "in_status r \<notin> TERMINAL_STATUSES" "in_providerRef r = Some ref" "ref \<noteq> []"
    "tenant_config t (in_provider r) d = Some cfg" "getAdapter (in_provider r) (pc_encryptedCredentials cfg) = Inr ad"
    "ad_queryTransactionStatus ad ref = Inr q" "qs_status q \<noteq> in_status r"
  shows "intentStatus getAdapter (\<lambda>d. d) t i d = (Inr (qs_status q, Some ref), set_intent_status i (qs_status q) d)"
proof -
  have "tenant_intent t i d = Some r"
    unfolding tenant_intent_def using assms(1,2) by (intro find_unique) (auto simp: the_intent_def)
  moreover have "intent_by_id i d = Some r" using the_intent_found [OF assms(1)] by (simp add: intent_by_id_def)
  ultimately show ?thesis using assms(3-) by (simp add: intentStatus_def write_status_def)
qed

section \<open>Properties\<close>


text \<open>Four days of polling a Stripe payment that requires action: every turn reads the clock a second after its execution started.\<close>

definition silent_turn :: "nat \<Rightarrow> poll_round" where
  "silent_turn k = \<lparr>pr_started = 30000 * (int k + 1), pr_now = 30000 * (int k + 1) + 1000, pr_sleep = (\<lambda>d. d), pr_query = (\<lambda>d. d),
     pr_getAdapter = (\<lambda>p c. Inl (JsError ''no adapter''))\<rparr>"

definition demo_poll_db :: db where
  "demo_poll_db = demo_intent_db\<lparr>paymentIntents := [demo_intent\<lparr>in_status := INTENT_REQUIRES_ACTION, in_provider := STRIPE, in_metadata := None\<rparr>]\<rparr>"


text \<open>
  C19. The lock of a capture does not hold against a status request. While a capture of an authorized payment holds its lock and
  waits for the provider, every other capture or void is refused. But a status request whose answer from the provider is
  AUTHORIZED (Stripe's requires_capture, VPS's AUTHORISED, which is what both report until the capture is done) writes that status
  over PROCESSING and leaves exactly the database before the capture; the payment can be locked again, and a second capture asks
  the provider for the same amount while the first request is still under way. The same status request is what frees a
  payment whose capture failed without an answer of the provider.
\<close>

theorem capture_lock_reopened:
  assumes "capturable getAdapter d i (Some t) r ad ref amt c" "tenant_config t (in_provider r) d = Some cfg"
    "getAdapter (in_provider r) (pc_encryptedCredentials cfg) = Inr ad2"
    "ad_queryTransactionStatus ad2 ref = Inr q" "qs_status q = INTENT_AUTHORIZED" "in_tenantId r = t"
  defines "d1 \<equiv> snd (lock_intent i (Some t) d)"
  shows "closed_to_actions d1 i (Some t) \<and>
    intentStatus getAdapter (\<lambda>d. d) t i d1 = (Inr (INTENT_AUTHORIZED, Some ref), d) \<and>
    fst (lock_intent i (Some t) d) \<noteq> 0 \<and>
    (\<forall>x. ad_capturePayment ad ref amt c = Inl x \<longrightarrow> captureIntent lc getAdapter e i (Some t) d = (Inl x, d1))"
proof -
  from assms(1) have r: "the_intent d i r" "in_status r = INTENT_AUTHORIZED" "in_scope (Some t) r"
    "in_providerRef r = Some ref" "ref \<noteq> []" unfolding capturable_def by blast+
  have d1: "d1 = set_intent_status i INTENT_PROCESSING d" using capturable_locked(1) [OF assms(1)] by (simp add: d1_def)
  let ?r1 = "r\<lparr>in_status := INTENT_PROCESSING\<rparr>"
  have restored: "set_intent_status i INTENT_AUTHORIZED d1 = d" using revert_locked [OF r(1,2)] by (simp add: d1 revertLock_def)
  have cfg: "tenant_config t (in_provider ?r1) d1 = Some cfg" using assms(2) by (simp add: d1 tenant_config_def set_intent_status_def)
  have "intentStatus getAdapter (\<lambda>d. d) t i d1 = (Inr (qs_status q, Some ref), set_intent_status i (qs_status q) d1)"
    by (rule intentStatus_asks [OF the_intent_set [OF r(1), of INTENT_PROCESSING, folded d1] _ _ _ r(5) cfg])
       (use r assms(3-6) in \<open>auto simp: TERMINAL_STATUSES_def\<close>)
  with restored assms(5) show ?thesis
    using capturable_locked(2) [OF assms(1), folded d1] locked(2) [OF r(1-3)] capture_asks [OF assms(1), of lc e] d1 by simp
qed

definition held_adapter :: provider_adapter where
  "held_adapter = accepting_adapter\<lparr>ad_queryTransactionStatus := \<lambda>ref.
     Inr \<lparr>qs_status = INTENT_AUTHORIZED, qs_providerTransactionId = None, qs_rawResponse = JNull\<rparr>\<rparr>"

theorem capture_lock_reopened_witness:
  "intentStatus (\<lambda>p k. Inr held_adapter) (\<lambda>d. d) ''t1'' ''i1'' (snd (lock_intent ''i1'' (Some ''t1'') demo_intent_db)) =
     (Inr (INTENT_AUTHORIZED, Some ''ref''), demo_intent_db)"
proof -
  have "capturable (\<lambda>p k. Inr held_adapter) demo_intent_db ''i1'' (Some ''t1'') demo_intent held_adapter ''ref'' 500 MAD"
    by (simp add: capturable_def the_intent_def demo_intent_db_def demo_intent_def in_scope_def intent_config_def resolveCharge_def find_link_def)
  note reopened = capture_lock_reopened [OF this]
  show ?thesis
    using reopened [of "hd (providerConfigs demo_intent_db)" held_adapter
        "\<lparr>qs_status = INTENT_AUTHORIZED, qs_providerTransactionId = None, qs_rawResponse = JNull\<rparr>"]
    by (simp add: held_adapter_def tenant_config_def demo_intent_db_def demo_intent_def)
qed

text \<open>
  C17. Asking for the status of a Stripe payment can lose its settlement. For an open payment that the provider reports as
  SUCCEEDED: if the success event is processed first, the payment is settled into the ledger. If the merchant asks for the
  status first, the payment is marked SUCCEEDED without a settlement, the success event then finds the status unchanged and
  does not settle either, and the ledger stays as it was.
\<close>

theorem status_request_skips_settlement:
  assumes "the_intent d i r" "in_tenantId r = t" "in_provider r = STRIPE" "in_status r \<notin> TERMINAL_STATUSES"
    "in_providerRef r = Some ref" "ref \<noteq> []" "tenant_config t STRIPE d = Some cfg"
    "getAdapter STRIPE (pc_encryptedCredentials cfg) = Inr ad" "ad_queryTransactionStatus ad ref = Inr q" "qs_status q = INTENT_SUCCEEDED"
    "find_stripe_intent d (event_object body) = Some r"
    "route_stripe_event (event_type body) (event_object body) = Some (INTENT_SUCCEEDED, tx)" "\<not> seen_event d key"
    "settle_ready d t (Math_round (fst (link_charge d r)))" "0 < Math_round (fst (link_charge d r))"
  shows "(\<exists>d'. stripeWebhookProcessor lc e body key d = (Inr (Some INTENT_SUCCEEDED), d') \<and> alreadySettled d' t i) \<and>
    (\<exists>d1 d2. intentStatus getAdapter (\<lambda>d. d) t i d = (Inr (INTENT_SUCCEEDED, Some ref), d1) \<and>
       stripeWebhookProcessor lc e body key d1 = (Inr None, d2) \<and> ledgerEntries d2 = ledgerEntries d)"
proof -
  have i: "in_id r = i" using assms(1) by (simp add: the_intent_def)
  have ne: "qs_status q \<noteq> in_status r" using assms(4,10) by (auto simp: TERMINAL_STATUSES_def)
  define d1 where "d1 = set_intent_status i INTENT_SUCCEEDED d"
  have "intentStatus getAdapter (\<lambda>d. d) t i d = (Inr (INTENT_SUCCEEDED, Some ref), d1)"
    using intentStatus_asks [OF assms(1,2,4-6), of cfg getAdapter ad q] assms(3,7-10) ne by (simp add: d1_def)
  moreover have "\<exists>d2. stripeWebhookProcessor lc e body key d1 = (Inr None, d2) \<and> ledgerEntries d2 = ledgerEntries d1"
  proof (rule stripe_success_ignored)
    show "find_stripe_intent d1 (event_object body) = Some (r\<lparr>in_status := INTENT_SUCCEEDED\<rparr>)"
      unfolding d1_def by (simp add: find_stripe_intent_set assms(11) i)
    show "the_intent d1 (in_id (r\<lparr>in_status := INTENT_SUCCEEDED\<rparr>)) (r\<lparr>in_status := INTENT_SUCCEEDED\<rparr>)"
      using the_intent_set [OF assms(1)] i by (simp add: d1_def)
    show "\<not> seen_event d1 key" using assms(13) by (simp add: d1_def seen_event_def set_intent_status_def)
  qed (use assms(12) in simp_all)
  moreover have "ledgerEntries d1 = ledgerEntries d" by (simp add: d1_def set_intent_status_def)
  moreover have "\<exists>d'. stripeWebhookProcessor lc e body key d = (Inr (Some INTENT_SUCCEEDED), d') \<and> alreadySettled d' t i"
    using stripe_success_settles [OF assms(11) _ assms(4,12,13)] assms(1,2,14,15) i by simp
  ultimately show ?thesis by auto
qed

text \<open>A direct Stripe payment of 5.00 and the event of its completed checkout.\<close>

definition demo_stripe_db :: db where
  "demo_stripe_db = demo_webhook_db\<lparr>paymentIntents := [demo_intent\<lparr>in_status := INTENT_REQUIRES_ACTION, in_provider := STRIPE\<rparr>],
     providerConfigs := [\<lparr>pc_id = ''c'', pc_tenantId = ''t1'', pc_provider = STRIPE, pc_encryptedCredentials = ''k'', pc_status = CONFIG_CONNECTED\<rparr>]\<rparr>"

definition demo_stripe_event :: json where
  "demo_stripe_event = JObj [(''type'', JStr ''payment_intent.succeeded''),
     (''data'', JObj [(''object'', JObj [(''object'', JStr ''payment_intent''), (''id'', JStr ''ref'')])])]"

definition paid_adapter :: provider_adapter where
  "paid_adapter = accepting_adapter\<lparr>ad_queryTransactionStatus := \<lambda>ref.
     Inr \<lparr>qs_status = INTENT_SUCCEEDED, qs_providerTransactionId = None, qs_rawResponse = JNull\<rparr>\<rparr>"

theorem status_request_skips_settlement_witness:
  "\<exists>d1 d2. intentStatus (\<lambda>p k. Inr paid_adapter) (\<lambda>d. d) ''t1'' ''i1'' demo_stripe_db = (Inr (INTENT_SUCCEEDED, Some ''ref''), d1) \<and>
     stripeWebhookProcessor (\<lambda>a b. 0) demo_env demo_stripe_event ''evt'' d1 = (Inr None, d2) \<and> ledgerEntries d2 = ledgerEntries demo_stripe_db"
proof -
  let ?r = "demo_intent\<lparr>in_status := INTENT_REQUIRES_ACTION, in_provider := STRIPE\<rparr>"
  let ?cfg = "\<lparr>pc_id = ''c'', pc_tenantId = ''t1'', pc_provider = STRIPE, pc_encryptedCredentials = ''k'', pc_status = CONFIG_CONNECTED\<rparr>"
  let ?q = "\<lparr>qs_status = INTENT_SUCCEEDED, qs_providerTransactionId = None, qs_rawResponse = JNull\<rparr>"
  have obj: "event_object demo_stripe_event = JObj [(''object'', JStr ''payment_intent''), (''id'', JStr ''ref'')]"
    "event_type demo_stripe_event = ''payment_intent.succeeded''"
    by (simp_all add: event_object_def event_type_def demo_stripe_event_def json_field_def json_string_def)
  have find: "find_stripe_intent demo_stripe_db (event_object demo_stripe_event) = Some ?r"
    by (simp add: obj find_stripe_intent_def extractCorrelationId_def json_field_def json_string_def truthy_string_def demo_stripe_db_def demo_intent_def)
  have charge: "fst (link_charge demo_stripe_db ?r) = 500"
    by (simp add: link_charge_def resolveIntentCharge_def find_link_def demo_intent_def)
  have r: "Math_round 500 = 500" using Math_round_of_int [of 500] by simp
  have ready: "settle_ready demo_stripe_db ''t1'' 500"
  proof -
    have "same_money demo_webhook_db demo_stripe_db" by (simp add: same_money_def demo_stripe_db_def)
    then show ?thesis using demo_webhook_ready same_money_settle(1) by blast
  qed
  obtain tx where route: "route_stripe_event (event_type demo_stripe_event) (event_object demo_stripe_event) = Some (INTENT_SUCCEEDED, tx)"
    by (simp add: obj route_stripe_event_def)
  have "the_intent demo_stripe_db ''i1'' ?r" by (simp add: the_intent_def demo_stripe_db_def demo_intent_def)
  note sk = status_request_skips_settlement [OF this, of "''t1''" "''ref''" ?cfg "\<lambda>p k. Inr paid_adapter" paid_adapter ?q, OF _ _ _ _ _ _ _ _ _ find route,
      of "''evt''" "\<lambda>a b. 0" demo_env]
  have "\<not> seen_event demo_stripe_db ''evt''"
    by (simp add: seen_event_def demo_stripe_db_def demo_webhook_db_def demo_intent_db_def empty_db_def)
  with sk ready show ?thesis
    by (simp add: charge r) (simp add: demo_intent_def TERMINAL_STATUSES_def tenant_config_def demo_stripe_db_def paid_adapter_def)
qed

end
