(* ===== verification/Checkout.thy ===== *)
theory Checkout
  imports Poller Fx Billing
begin

text \<open>
  How payments start (\<open>src/routes/paymentIntents.ts\<close>): a merchant's direct request \<open>POST /payment-intents\<close> and the public
  \<open>POST /public/checkout/:slug/pay\<close> of a payment link, with or without an installment plan. \<open>createSession p k\<close> is
  \<open>getAdapter(p, k).createCheckoutSession\<close> of the provider's adapter; an argument. Currencies are those of the type
  \<open>currency\<close>. Parameters that are only passed through to the provider's page (texts, addresses, customer data) are left out.
\<close>

section \<open>Definitions\<close>

subsection \<open>What the provider is asked for and what it answers\<close>

record checkout_params =
  cp_amount :: rat
  cp_currency :: currency
  cp_reference :: string
  cp_correlationId :: string
  cp_customerLocale :: "string option"
  cp_isPreauth :: bool
  cp_storePaymentProfile :: bool
  cp_walletMode :: "string option"

record checkout_result =
  kr_redirectUrl :: string
  kr_providerRef :: string
  kr_providerData :: "(string \<times> json) list option"

type_synonym create_session = "provider \<Rightarrow> string \<Rightarrow> (checkout_params \<Rightarrow> checkout_result result) result"

definition SUPPORTED_LOCALES :: "string list" where
  "SUPPORTED_LOCALES =
     [''en_US'', ''fr_FR'', ''pt_BR'', ''ar_EG'', ''da_DK'', ''de_DE'', ''es_ES'', ''fi_FI'', ''it_IT'', ''ja_JP'', ''ko_KR'',
      ''nl_NL'', ''no_NO'', ''pl_PL'', ''ru_RU'', ''sv_SE'', ''tr_TR'']"

subsection \<open>The intent row\<close>

text \<open>\<open>prisma.paymentIntent.create\<close>: two identifiers are drawn, the id and the correlation id.\<close>

definition create_intent_row ::
  "env \<Rightarrow> string \<Rightarrow> string option \<Rightarrow> provider \<Rightarrow> risk_verdict \<Rightarrow> intent_metadata option \<Rightarrow> fx_quote option \<Rightarrow> db \<Rightarrow> payment_intent \<times> db" where
  "create_intent_row e tenantId linkId p verdict meta fx d =
     (let row = \<lparr>in_id = fresh e d, in_tenantId = tenantId, in_paymentLinkId = linkId, in_status = INTENT_CREATED, in_provider = p,
            in_providerRef = None, in_correlationId = fresh e (bump d), in_providerData = None, in_metadata = meta,
            in_riskVerdict = Some verdict, in_createdAt = now e, in_fxRate = map_option fxq_rate fx,
            in_fxCurrencyPair = map_option (\<lambda>q. currencyPairKey (fxq_from q) (fxq_to q)) fx, in_fxExpiresAt = map_option fxq_expiresAt fx\<rparr>
      in (row, (bump (bump d))\<lparr>paymentIntents := paymentIntents d @ [row]\<rparr>))"

definition update_intent :: "string \<Rightarrow> (payment_intent \<Rightarrow> payment_intent) \<Rightarrow> db \<Rightarrow> db" where
  "update_intent intentId f d = d\<lparr>paymentIntents := map (\<lambda>r. if in_id r = intentId then f r else r) (paymentIntents d)\<rparr>"

text \<open>\<open>{ ...(providerData ?? {}), ...(redirectUrl ? { redirectUrl } : {}) }\<close>\<close>

fun set_field :: "string \<Rightarrow> json \<Rightarrow> (string \<times> json) list \<Rightarrow> (string \<times> json) list" where
  "set_field k v [] = [(k, v)]"
| "set_field k v ((k', v') # kvs) = (if k = k' then (k, v) # kvs else (k', v') # set_field k v kvs)"

definition stored_provider_data :: "checkout_result \<Rightarrow> json" where
  "stored_provider_data r =
     JObj (if kr_redirectUrl r = '''' then coalesce (kr_providerData r) []
           else set_field ''redirectUrl'' (JStr (kr_redirectUrl r)) (coalesce (kr_providerData r) []))"

text \<open>
  The end of all three paths: the transaction that stores what the provider answered, and the event for the polling job.
\<close>

definition open_checkout ::
  "env \<Rightarrow> payment_intent \<Rightarrow> (payment_intent \<Rightarrow> payment_intent) \<Rightarrow> checkout_result \<Rightarrow> db \<Rightarrow> db" where
  "open_checkout e intent f r d =
     (let d1 = update_intent (in_id intent) (\<lambda>x. f (x\<lparr>in_status := INTENT_REQUIRES_ACTION, in_providerRef := Some (kr_providerRef r),
                  in_providerData := Some (stored_provider_data r)\<rparr>)) d;
          d2 = (bump d1)\<lparr>providerTransactions := providerTransactions d1 @
                  [\<lparr>px_id = fresh e d1, px_paymentIntentId = in_id intent, px_provider = in_provider intent, px_providerTransactionId = None\<rparr>]\<rparr>
      in send_event (PollStatus (in_id intent) (in_provider intent) (in_tenantId intent)) d2)"

subsection \<open>POST /payment-intents\<close>

record create_intent_body =
  ci_provider :: provider
  ci_amount :: rat
  ci_currency :: currency
  ci_reference :: string
  ci_customerLocale :: "string option"
  ci_isPreauth :: "bool option"
  ci_metadata :: "intent_metadata option"
  ci_walletMode :: "string option"

text \<open>The bounds \<open>createIntentSchema\<close> puts on the fields above.\<close>

definition createIntentSchema :: "create_intent_body \<Rightarrow> create_intent_body result" where
  "createIntentSchema body =
     (if of_int \<lfloor>ci_amount body\<rfloor> = ci_amount body \<and> 0 < ci_amount body \<and> 1 \<le> length (ci_reference body) \<and> length (ci_reference body) \<le> 100 \<and>
         (case ci_walletMode body of None \<Rightarrow> True | Some m \<Rightarrow> m \<in> {''apple_pay'', ''google_pay''})
      then Inr body else Inl (AppError 422 ''VALIDATION_ERROR''))"

record create_intent_response =
  re_status :: nat
  re_intentId :: string
  re_correlationId :: string
  re_riskVerdict :: "risk_verdict option"
  re_idempotent :: bool

definition existing_intent :: "env \<Rightarrow> string \<Rightarrow> string \<Rightarrow> db \<Rightarrow> payment_intent option" where
  "existing_intent e tenantId reference d =
     (case sort_key (\<lambda>r. - in_createdAt r)
             (filter (\<lambda>r. in_tenantId r = tenantId \<and> in_status r \<notin> TERMINAL_STATUSES \<and> now e - 5 * 60 * 1000 \<le> in_createdAt r \<and>
                Option.bind (in_metadata r) meta_reference = Some reference) (paymentIntents d)) of
        [] \<Rightarrow> None | r # _ \<Rightarrow> Some r)"

definition intent_is_wallet :: "payment_intent \<Rightarrow> bool" where
  "intent_is_wallet r = (case Option.bind (in_providerData r) (\<lambda>pd. json_field pd ''clientSecret'') of
     Some (JStr s) \<Rightarrow> s \<noteq> '''' | _ \<Rightarrow> False)"

definition is_wallet_request :: "create_intent_body \<Rightarrow> bool" where
  "is_wallet_request body \<longleftrightarrow> ci_walletMode body = Some ''apple_pay'' \<or> ci_walletMode body = Some ''google_pay''"

text \<open>The cached intent that answers the request, unless it is of the other mode.\<close>

definition cached_intent :: "env \<Rightarrow> string \<Rightarrow> create_intent_body \<Rightarrow> db \<Rightarrow> payment_intent option" where
  "cached_intent e tenantId body d =
     (case existing_intent e tenantId (ci_reference body) d of
        None \<Rightarrow> None
      | Some r \<Rightarrow> if is_wallet_request body \<noteq> intent_is_wallet r then None else Some r)"

definition direct_metadata :: "create_intent_body \<Rightarrow> intent_metadata" where
  "direct_metadata body =
     (coalesce (ci_metadata body) \<lparr>meta_amount = None, meta_currency = None, meta_reference = None, meta_isPreauth = None,
        meta_installmentAgreementId = None\<rparr>)
       \<lparr>meta_amount := Some (ci_amount body), meta_currency := Some (ci_currency body), meta_reference := Some (ci_reference body),
        meta_isPreauth := Some (coalesce (ci_isPreauth body) False)\<rparr>"

definition fx_lock :: "fx_provider \<Rightarrow> env \<Rightarrow> string \<Rightarrow> currency \<Rightarrow> db \<Rightarrow> fx_quote option" where
  "fx_lock fxp e tenantId c d =
     (let settlementCurrency = coalesce (map_option tn_settlementCurrency (find (\<lambda>t. tn_id t = tenantId) (tenants d))) MAD
      in if c \<noteq> settlementCurrency then Some (quoteFx fxp c settlementCurrency (now e)) else None)"

definition createIntent ::
  "(string \<Rightarrow> centimes \<Rightarrow> int \<Rightarrow> risk_outcome) option \<Rightarrow> fx_provider \<Rightarrow> create_session \<Rightarrow> env \<Rightarrow> string \<Rightarrow> create_intent_body
    \<Rightarrow> create_intent_response job_step" where
  "createIntent scorer fxp createSession e tenantId raw d =
     sbind (createIntentSchema raw, d) (\<lambda>body d.
     let customerLocale = (case ci_customerLocale body of
           Some l \<Rightarrow> if l \<in> set SUPPORTED_LOCALES then Some l else None | None \<Rightarrow> None)
     in case tenant_config tenantId (ci_provider body) d of
          None \<Rightarrow> (Inl (AppError 503 ''PROVIDER_UNAVAILABLE''), d)
        | Some config \<Rightarrow>
            if pc_status config \<noteq> CONFIG_CONNECTED then (Inl (AppError 503 ''PROVIDER_UNAVAILABLE''), d)
            else (case cached_intent e tenantId body d of
              Some r \<Rightarrow>
                (Inr \<lparr>re_status = 200, re_intentId = in_id r, re_correlationId = in_correlationId r,
                      re_riskVerdict = in_riskVerdict r, re_idempotent = True\<rparr>, d)
            | None \<Rightarrow>
              let verdict = fst (scoreRisk scorer d tenantId (centimes (ci_amount body)) (now e))
              in if verdict = BLOCK then (Inl (AppError 402 ''RISK_BLOCKED''), d)
                 else let fx = fx_lock fxp e tenantId (ci_currency body) d;
                          (intent, d1) = create_intent_row e tenantId None (ci_provider body) verdict (ci_metadata body) fx d
                      in sbind (createSession (ci_provider body) (pc_encryptedCredentials config), d1) (\<lambda>session d1.
                         sbind (session \<lparr>cp_amount = ci_amount body, cp_currency = ci_currency body, cp_reference = ci_reference body,
                             cp_correlationId = in_correlationId intent, cp_customerLocale = customerLocale,
                             cp_isPreauth = (ci_isPreauth body = Some True \<or> verdict = REVIEW), cp_storePaymentProfile = False,
                             cp_walletMode = ci_walletMode body\<rparr>, d1) (\<lambda>r d1.
                         (Inr \<lparr>re_status = 201, re_intentId = in_id intent, re_correlationId = in_correlationId intent,
                               re_riskVerdict = Some verdict, re_idempotent = False\<rparr>,
                          open_checkout e intent (\<lambda>x. x\<lparr>in_metadata := Some (direct_metadata body)\<rparr>) r d1)))))"

subsection \<open>POST /public/checkout/:slug/pay\<close>

record pay_body =
  pb_installmentPlanId :: "string option"
  pb_downPaymentAmount :: "rat option"

definition paySchema :: "pay_body \<Rightarrow> pay_body result" where
  "paySchema body =
     (if (case pb_downPaymentAmount body of None \<Rightarrow> True | Some x \<Rightarrow> 0 < x) then Inr body else Inl (AppError 422 ''VALIDATION_ERROR''))"

text \<open>The checks before the request counts as an attempt.\<close>

definition payable_link :: "env \<Rightarrow> string \<Rightarrow> db \<Rightarrow> payment_link result" where
  "payable_link e slug d =
     (case find (\<lambda>l. pl_slug l = slug) (paymentLinks d) of
        None \<Rightarrow> Inl (AppError 404 ''LINK_NOT_FOUND'')
      | Some link \<Rightarrow>
          if map_option tn_status (find (\<lambda>t. tn_id t = pl_tenantId link) (tenants d)) = Some TENANT_DISABLED
          then Inl (AppError 403 ''TENANT_DISABLED'')
          else if pl_status link \<noteq> LINK_ACTIVE then Inl (AppError 410 ''LINK_INACTIVE'')
          else if (case pl_expiresAt link of None \<Rightarrow> False | Some t \<Rightarrow> t < now e) then Inl (AppError 410 ''LINK_EXPIRED'')
          else Inr link)"

text \<open>\<open>updateMany\<close> with the guard on the counter: the number of rows changed and the new table.\<close>

definition bumpable :: "payment_link \<Rightarrow> payment_link \<Rightarrow> bool" where
  "bumpable link l \<longleftrightarrow> pl_id l = pl_id link \<and> pl_attemptCount l < pl_maxAttempts link"

definition bump_attempts :: "payment_link \<Rightarrow> db \<Rightarrow> nat \<times> db" where
  "bump_attempts link d =
     (length (filter (bumpable link) (paymentLinks d)),
      d\<lparr>paymentLinks := map (\<lambda>l. if bumpable link l then l\<lparr>pl_attemptCount := pl_attemptCount l + 1\<rparr> else l) (paymentLinks d)\<rparr>)"

text \<open>What an installment plan makes of the amount of a link: the down payment, the further installments and their number.\<close>

record installment_offer =
  of_downPayment :: rat
  of_monthly :: rat
  of_total :: int

definition round2 :: "rat \<Rightarrow> rat" where
  "round2 x = js_div (of_int (Math_round (js_mul x 100))) 100"

definition installment_offer_for ::
  "(rat \<Rightarrow> rat \<Rightarrow> rat) \<Rightarrow> rat \<Rightarrow> rat \<Rightarrow> int \<Rightarrow> rat option \<Rightarrow> installment_offer result" where
  "installment_offer_for pow principalAmount apr n downPaymentAmount =
     ebind (computeInstallmentAmount pow principalAmount apr n) (\<lambda>standardInstallment.
     let dp0 = coalesce downPaymentAmount standardInstallment;
         dp1 = (if dp0 < standardInstallment then standardInstallment else dp0);
         dp2 = (if dp1 > principalAmount then principalAmount else dp1);
         downPayment = round2 dp2;
         remainingPrincipal = max 0 (round2 (js_sub principalAmount downPayment));
         remainingInstallments = n - 1
     in ebind (if remainingInstallments > 0 then computeInstallmentAmount pow remainingPrincipal apr remainingInstallments else Inr 0)
          (\<lambda>remainingMonthlyAmt.
        Inr \<lparr>of_downPayment = downPayment, of_monthly = remainingMonthlyAmt,
             of_total = 1 + (if remainingInstallments > 0 then remainingInstallments else 0)\<rparr>))"

definition choose_plan :: "payment_link \<Rightarrow> string \<Rightarrow> db \<Rightarrow> installment_plan result" where
  "choose_plan link planId d =
     (if \<not> pl_isInstallment link then Inl (AppError 400 ''NOT_INSTALLMENT_LINK'')
      else (case find (\<lambda>p. ip_id p = planId \<and> ip_tenantId p = pl_tenantId link \<and> ip_isActive p) (installmentPlans d) of
        None \<Rightarrow> Inl (AppError 404 ''PLAN_NOT_FOUND'')
      | Some plan \<Rightarrow>
          let principalAmount = fromMinor (pl_amount link) MAD
          in if (case ip_minAmount plan of None \<Rightarrow> False | Some m \<Rightarrow> principalAmount < fromMinor m MAD) then Inl (AppError 400 ''AMOUNT_BELOW_MIN'')
             else if (case ip_maxAmount plan of None \<Rightarrow> False | Some m \<Rightarrow> principalAmount > fromMinor m MAD) then Inl (AppError 400 ''AMOUNT_ABOVE_MAX'')
             else Inr plan))"

definition agreement_row :: "env \<Rightarrow> payment_link \<Rightarrow> installment_plan \<Rightarrow> payment_intent \<Rightarrow> installment_offer \<Rightarrow> db \<Rightarrow> installment_agreement" where
  "agreement_row e link plan draftIntent offer d =
     \<lparr>ia_id = fresh e d, ia_tenantId = pl_tenantId link, ia_customerId = in_correlationId draftIntent, ia_planId = ip_id plan,
      ia_paymentLinkId = Some (pl_id link), ia_initialPaymentIntentId = in_id draftIntent, ia_encryptedStoredProfileId = '''',
      ia_status = AGREEMENT_PENDING_CHECKOUT, ia_principalAmount = pl_amount link, ia_downPayment = toMinor (of_downPayment offer) MAD,
      ia_installmentAmount = toMinor (if of_monthly offer > 0 then of_monthly offer else of_downPayment offer) MAD,
      ia_totalInstallments = of_total offer, ia_paidCount = 0, ia_currency = pl_currency link, ia_nextChargeDate = None, ia_inngestRunId = None\<rparr>"

definition bnpl_metadata :: "string option \<Rightarrow> intent_metadata" where
  "bnpl_metadata agreementId =
     \<lparr>meta_amount = None, meta_currency = None, meta_reference = None, meta_isPreauth = None, meta_installmentAgreementId = agreementId\<rparr>"

definition pay_params :: "payment_link \<Rightarrow> payment_intent \<Rightarrow> int \<Rightarrow> bool \<Rightarrow> bool \<Rightarrow> checkout_params" where
  "pay_params link intent chargeCentimes store preauth =
     \<lparr>cp_amount = of_int chargeCentimes, cp_currency = pl_currency link, cp_reference = pl_reference link,
      cp_correlationId = in_correlationId intent, cp_customerLocale = None, cp_isPreauth = preauth, cp_storePaymentProfile = store,
      cp_walletMode = None\<rparr>"

text \<open>The installment path; the answer is the intent, the agreement and what was asked of the provider.\<close>

definition pay_installment ::
  "(rat \<Rightarrow> rat \<Rightarrow> rat) \<Rightarrow> (string \<Rightarrow> centimes \<Rightarrow> int \<Rightarrow> risk_outcome) option \<Rightarrow> (checkout_params \<Rightarrow> checkout_result result) \<Rightarrow> env
    \<Rightarrow> payment_link \<Rightarrow> string \<Rightarrow> rat option \<Rightarrow> (string \<times> string option \<times> checkout_params) job_step" where
  "pay_installment pow scorer session e link planId downPaymentAmount d =
     sbind (choose_plan link planId d, d) (\<lambda>plan d.
     sbind (installment_offer_for pow (fromMinor (pl_amount link) MAD) (ip_annualInterestRate plan) (ip_durationMonths plan) downPaymentAmount, d)
       (\<lambda>offer d.
     let chargeCentimes = Math_round (js_mul (of_downPayment offer) 100);
         verdict = fst (scoreRisk scorer d (pl_tenantId link) (centimes (of_int chargeCentimes)) (now e))
     in if verdict = BLOCK then (Inl (AppError 402 ''RISK_BLOCKED''), d)
        else let (draftIntent, d1) = create_intent_row e (pl_tenantId link) (Some (pl_id link)) (pl_provider link) verdict
                    (Some (bnpl_metadata None)) None d;
                 agreement = agreement_row e link plan draftIntent offer d1;
                 d2 = (bump d1)\<lparr>installmentAgreements := installmentAgreements d1 @ [agreement]\<rparr>;
                 d3 = update_intent (in_id draftIntent) (\<lambda>x. x\<lparr>in_metadata := Some (bnpl_metadata (Some (ia_id agreement)))\<rparr>) d2;
                 params = pay_params link draftIntent chargeCentimes True False
             in sbind (session params, d3) (\<lambda>r d3.
                (Inr (in_id draftIntent, Some (ia_id agreement), params), open_checkout e draftIntent (\<lambda>x. x) r d3))))"

definition pay_in_full ::
  "(string \<Rightarrow> centimes \<Rightarrow> int \<Rightarrow> risk_outcome) option \<Rightarrow> (checkout_params \<Rightarrow> checkout_result result) \<Rightarrow> env
    \<Rightarrow> payment_link \<Rightarrow> (string \<times> string option \<times> checkout_params) job_step" where
  "pay_in_full scorer session e link d =
     (let chargeCentimes = Math_round (js_mul (fromMinor (pl_amount link) MAD) 100);
          verdict = fst (scoreRisk scorer d (pl_tenantId link) (centimes (of_int chargeCentimes)) (now e))
      in if verdict = BLOCK then (Inl (AppError 402 ''RISK_BLOCKED''), d)
         else let (intent, d1) = create_intent_row e (pl_tenantId link) (Some (pl_id link)) (pl_provider link) verdict None None d;
                  params = pay_params link intent chargeCentimes (pl_isRecurring link) (verdict = REVIEW \<and> \<not> pl_isRecurring link)
              in sbind (session params, d1) (\<lambda>r d1.
                 (Inr (in_id intent, None, params), open_checkout e intent (\<lambda>x. x) r d1)))"

definition publicPay ::
  "(rat \<Rightarrow> rat \<Rightarrow> rat) \<Rightarrow> (string \<Rightarrow> centimes \<Rightarrow> int \<Rightarrow> risk_outcome) option \<Rightarrow> create_session \<Rightarrow> env \<Rightarrow> string \<Rightarrow> pay_body
    \<Rightarrow> (string \<times> string option \<times> checkout_params) job_step" where
  "publicPay pow scorer createSession e slug raw d =
     sbind (payable_link e slug d, d) (\<lambda>link d.
     let (count, d1) = bump_attempts link d
     in if count = 0 then (Inl (AppError 429 ''MAX_ATTEMPTS''), d)
        else sbind (paySchema raw, d1) (\<lambda>body d1.
          case tenant_config (pl_tenantId link) (pl_provider link) d1 of
            None \<Rightarrow> (Inl (AppError 503 ''PROVIDER_UNAVAILABLE''), d1)
          | Some config \<Rightarrow>
              if pc_status config \<noteq> CONFIG_CONNECTED then (Inl (AppError 503 ''PROVIDER_UNAVAILABLE''), d1)
              else sbind (createSession (pl_provider link) (pc_encryptedCredentials config), d1) (\<lambda>session d1.
                case pb_installmentPlanId body of
                  Some planId \<Rightarrow>
                    if planId = '''' then (if pl_isInstallment link then (Inl (AppError 400 ''PLAN_REQUIRED''), d1)
                                           else pay_in_full scorer session e link d1)
                    else pay_installment pow scorer session e link planId (pb_downPaymentAmount body) d1
                | None \<Rightarrow> if pl_isInstallment link then (Inl (AppError 400 ''PLAN_REQUIRED''), d1)
                          else pay_in_full scorer session e link d1)))"

section \<open>Lemmas\<close>

lemma update_new_intent:
  assumes "\<forall>x\<in>set xs. in_id x \<noteq> in_id row" "paymentIntents d = xs @ [row]"
  shows "paymentIntents (update_intent (in_id row) f d) = xs @ [f row]"
  using assms by (auto simp: update_intent_def map_idI)

lemma open_checkout_frame:
  "ledgerEntries (open_checkout e i f r d) = ledgerEntries d" "paymentLinks (open_checkout e i f r d) = paymentLinks d"
  "installmentAgreements (open_checkout e i f r d) = installmentAgreements d" "providerConfigs (open_checkout e i f r d) = providerConfigs d"
  "outbox (open_checkout e i f r d) = outbox d @ [PollStatus (in_id i) (in_provider i) (in_tenantId i)]"
  by (simp_all add: open_checkout_def update_intent_def bump_def send_event_def Let_def)

lemma open_checkout_intents:
  assumes "\<forall>x\<in>set xs. in_id x \<noteq> in_id row" "paymentIntents d = xs @ [row]" "in_id i = in_id row"
  shows "paymentIntents (open_checkout e i f r d) = xs @ [f (row\<lparr>in_status := INTENT_REQUIRES_ACTION, in_providerRef := Some (kr_providerRef r),
      in_providerData := Some (stored_provider_data r)\<rparr>)]"
  using update_new_intent [OF assms(1,2)] assms(3) by (simp add: open_checkout_def Let_def bump_def)

text \<open>The run of a request that creates an intent.\<close>

definition direct_intent :: "env \<Rightarrow> string \<Rightarrow> create_intent_body \<Rightarrow> risk_verdict \<Rightarrow> fx_quote option \<Rightarrow> checkout_result \<Rightarrow> db \<Rightarrow> payment_intent" where
  "direct_intent e t body verdict fx r d =
     (fst (create_intent_row e t None (ci_provider body) verdict (ci_metadata body) fx d))\<lparr>in_status := INTENT_REQUIRES_ACTION,
        in_providerRef := Some (kr_providerRef r), in_providerData := Some (stored_provider_data r),
        in_metadata := Some (direct_metadata body)\<rparr>"

lemma createIntent_created:
  assumes "createIntent scorer fxp cs e t body d = (Inr resp, d')" "re_status resp = 201"
    and new: "\<forall>x\<in>set (paymentIntents d). in_id x \<noteq> fresh e d"
  obtains cfg session params r where
    "createIntentSchema body = Inr body" "tenant_config t (ci_provider body) d = Some cfg" "pc_status cfg = CONFIG_CONNECTED"
    "cs (ci_provider body) (pc_encryptedCredentials cfg) = Inr session" "session params = Inr r" "cp_amount params = ci_amount body"
    "cp_currency params = ci_currency body" "fst (scoreRisk scorer d t (centimes (ci_amount body)) (now e)) \<noteq> BLOCK"
    "cp_isPreauth params \<longleftrightarrow> ci_isPreauth body = Some True \<or> fst (scoreRisk scorer d t (centimes (ci_amount body)) (now e)) = REVIEW"
    "paymentIntents d' = paymentIntents d @ [direct_intent e t body (fst (scoreRisk scorer d t (centimes (ci_amount body)) (now e)))
       (fx_lock fxp e t (ci_currency body) d) r d]"
    "resp = \<lparr>re_status = 201, re_intentId = fresh e d, re_correlationId = fresh e (bump d),
       re_riskVerdict = Some (fst (scoreRisk scorer d t (centimes (ci_amount body)) (now e))), re_idempotent = False\<rparr>"
    "outbox d' = outbox d @ [PollStatus (fresh e d) (ci_provider body) t]" "ledgerEntries d' = ledgerEntries d"
    "providerConfigs d' = providerConfigs d" "paymentLinks d' = paymentLinks d" "cp_walletMode params = ci_walletMode body"
proof -
  define verdict where "verdict = fst (scoreRisk scorer d t (centimes (ci_amount body)) (now e))"
  define fx where "fx = fx_lock fxp e t (ci_currency body) d"
  obtain intent d1 where row: "create_intent_row e t None (ci_provider body) verdict (ci_metadata body) fx d = (intent, d1)"
    by (cases "create_intent_row e t None (ci_provider body) verdict (ci_metadata body) fx d")
  have i: "in_id intent = fresh e d" "in_correlationId intent = fresh e (bump d)" "in_provider intent = ci_provider body" "in_tenantId intent = t"
    "paymentIntents d1 = paymentIntents d @ [intent]" "outbox d1 = outbox d" "ledgerEntries d1 = ledgerEntries d"
    "providerConfigs d1 = providerConfigs d" "paymentLinks d1 = paymentLinks d"
    using row by (auto simp: create_intent_row_def Let_def bump_def)
  have "createIntentSchema body = Inr body \<or> createIntentSchema body = Inl (AppError 422 ''VALIDATION_ERROR'')"
    by (simp add: createIntentSchema_def)
  then have schema: "createIntentSchema body = Inr body" using assms(1) by (auto simp: createIntent_def)
  obtain cfg where cfg: "tenant_config t (ci_provider body) d = Some cfg" "pc_status cfg = CONFIG_CONNECTED"
    using assms(1) schema by (auto simp: createIntent_def split: option.splits if_splits)
  have none: "cached_intent e t body d = None"
    using assms(1,2) schema cfg by (auto simp: createIntent_def split: option.splits)
  define params where "params = \<lparr>cp_amount = ci_amount body, cp_currency = ci_currency body, cp_reference = ci_reference body,
     cp_correlationId = in_correlationId intent, cp_customerLocale = (case ci_customerLocale body of
           Some l \<Rightarrow> if l \<in> set SUPPORTED_LOCALES then Some l else None | None \<Rightarrow> None),
     cp_isPreauth = (ci_isPreauth body = Some True \<or> verdict = REVIEW), cp_storePaymentProfile = False, cp_walletMode = ci_walletMode body\<rparr>"
  have run: "(if verdict = BLOCK then (Inl (AppError 402 ''RISK_BLOCKED''), d)
      else sbind (cs (ci_provider body) (pc_encryptedCredentials cfg), d1) (\<lambda>session d1. sbind (session params, d1) (\<lambda>r d1.
        (Inr \<lparr>re_status = 201, re_intentId = in_id intent, re_correlationId = in_correlationId intent,
              re_riskVerdict = Some verdict, re_idempotent = False\<rparr>,
         open_checkout e intent (\<lambda>x. x\<lparr>in_metadata := Some (direct_metadata body)\<rparr>) r d1)))) = (Inr resp, d')"
    using assms(1) schema cfg none
    by (cases "verdict = BLOCK") (simp_all add: createIntent_def Let_def verdict_def [symmetric] fx_def [symmetric] row params_def)
  obtain session r where sr: "cs (ci_provider body) (pc_encryptedCredentials cfg) = Inr session" "session params = Inr r"
    "resp = \<lparr>re_status = 201, re_intentId = in_id intent, re_correlationId = in_correlationId intent, re_riskVerdict = Some verdict, re_idempotent = False\<rparr>"
    "d' = open_checkout e intent (\<lambda>x. x\<lparr>in_metadata := Some (direct_metadata body)\<rparr>) r d1" "verdict \<noteq> BLOCK"
    using run by (auto simp: sbind_def split: if_splits sum.splits prod.splits)
  have intents: "paymentIntents d' = paymentIntents d @ [direct_intent e t body verdict fx r d]"
    unfolding sr(4) direct_intent_def row fst_conv
    using open_checkout_intents [of "paymentIntents d" intent d1 intent] new i by simp
  have frame: "outbox d' = outbox d @ [PollStatus (fresh e d) (ci_provider body) t]" "ledgerEntries d' = ledgerEntries d"
    "providerConfigs d' = providerConfigs d" "paymentLinks d' = paymentLinks d"
    unfolding sr(4) by (simp_all add: open_checkout_frame i)
  show ?thesis
    by (rule that [folded verdict_def fx_def, OF schema cfg sr(1,2) _ _ sr(5) _ intents _ frame])
       (simp_all add: params_def sr(3) i)
qed

lemma sort_key_Nil: "sort_key f xs = [] \<longleftrightarrow> xs = []"
  by (metis length_0_conv length_sort)

lemma existing_none:
  "existing_intent e t ref d = None \<longleftrightarrow>
     (\<forall>r\<in>set (paymentIntents d). \<not> (in_tenantId r = t \<and> in_status r \<notin> TERMINAL_STATUSES \<and> now e - 5 * 60 * 1000 \<le> in_createdAt r \<and>
        Option.bind (in_metadata r) meta_reference = Some ref))"
proof -
  let ?xs = "filter (\<lambda>r. in_tenantId r = t \<and> in_status r \<notin> TERMINAL_STATUSES \<and> now e - 5 * 60 * 1000 \<le> in_createdAt r \<and>
      Option.bind (in_metadata r) meta_reference = Some ref) (paymentIntents d)"
  have "existing_intent e t ref d = None \<longleftrightarrow> sort_key (\<lambda>r. - in_createdAt r) ?xs = []"
    unfolding existing_intent_def by (simp split: list.split)
  then have "existing_intent e t ref d = None \<longleftrightarrow> ?xs = []" by (simp only: sort_key_Nil)
  then show ?thesis by (auto simp: filter_empty_conv)
qed

text \<open>The only open intent of a reference in the window is the one found.\<close>

lemma existing_new:
  assumes "existing_intent e t ref d = None" "now e \<le> now e'" "paymentIntents d' = paymentIntents d @ [r]"
    "in_tenantId r = t" "in_status r \<notin> TERMINAL_STATUSES" "now e' - 5 * 60 * 1000 \<le> in_createdAt r"
    "Option.bind (in_metadata r) meta_reference = Some ref"
  shows "existing_intent e' t ref d' = Some r"
proof -
  have "filter (\<lambda>r. in_tenantId r = t \<and> in_status r \<notin> TERMINAL_STATUSES \<and> now e' - 5 * 60 * 1000 \<le> in_createdAt r \<and>
      Option.bind (in_metadata r) meta_reference = Some ref) (paymentIntents d) = []"
    using assms(1,2) unfolding existing_none filter_empty_conv by force
  then show ?thesis unfolding existing_intent_def using assms(3-) by simp
qed

text \<open>Whether a provider's answer is that of a wallet payment.\<close>

definition wallet_answer :: "checkout_result \<Rightarrow> bool" where
  "wallet_answer r = (case json_field (stored_provider_data r) ''clientSecret'' of Some (JStr s) \<Rightarrow> s \<noteq> '''' | _ \<Rightarrow> False)"

section \<open>Properties\<close>

text \<open>
  A direct payment request that is answered 201. The provider was connected and was asked for exactly the amount and currency of
  the request; one intent is added, open, under the id that is returned, with the provider's reference, and the amount the
  ledger will settle for it is the one that was requested; an exchange rate is locked exactly when the currency is not the
  tenant's settlement currency; one polling job is started and the ledger is untouched. The provider is asked to hold the
  payment when the request says so or the risk verdict is REVIEW, but the intent is marked as held only in the first case.
\<close>

lemma createIntent_opens:
  assumes "createIntent scorer fxp cs e t body d = (Inr resp, d')" "re_status resp = 201"
    "\<forall>x\<in>set (paymentIntents d). in_id x \<noteq> fresh e d"
  shows "\<exists>cfg session params r row.
    tenant_config t (ci_provider body) d = Some cfg \<and> pc_status cfg = CONFIG_CONNECTED \<and>
    cs (ci_provider body) (pc_encryptedCredentials cfg) = Inr session \<and> session params = Inr r \<and>
    cp_amount params = ci_amount body \<and> cp_currency params = ci_currency body \<and>
    paymentIntents d' = paymentIntents d @ [row] \<and> in_id row = re_intentId resp \<and> in_tenantId row = t \<and>
    in_status row = INTENT_REQUIRES_ACTION \<and> in_providerRef row = Some (kr_providerRef r) \<and>
    link_charge d' row = (ci_amount body, ci_currency body) \<and>
    (in_fxRate row = None \<longleftrightarrow> ci_currency body = coalesce (map_option tn_settlementCurrency (find (\<lambda>x. tn_id x = t) (tenants d))) MAD) \<and>
    (cp_isPreauth params \<longleftrightarrow> ci_isPreauth body = Some True \<or> in_riskVerdict row = Some REVIEW) \<and>
    (is_preauth row \<longleftrightarrow> ci_isPreauth body = Some True) \<and> in_riskVerdict row \<noteq> Some BLOCK \<and>
    in_riskVerdict row = Some (fst (scoreRisk scorer d t (centimes (ci_amount body)) (now e))) \<and>
    outbox d' = outbox d @ [PollStatus (in_id row) (ci_provider body) t] \<and> ledgerEntries d' = ledgerEntries d"
proof -
  obtain cfg session params r where run:
    "tenant_config t (ci_provider body) d = Some cfg" "pc_status cfg = CONFIG_CONNECTED"
    "cs (ci_provider body) (pc_encryptedCredentials cfg) = Inr session" "session params = Inr r" "cp_amount params = ci_amount body"
    "cp_currency params = ci_currency body" "fst (scoreRisk scorer d t (centimes (ci_amount body)) (now e)) \<noteq> BLOCK"
    "cp_isPreauth params \<longleftrightarrow> ci_isPreauth body = Some True \<or> fst (scoreRisk scorer d t (centimes (ci_amount body)) (now e)) = REVIEW"
    "paymentIntents d' = paymentIntents d @ [direct_intent e t body (fst (scoreRisk scorer d t (centimes (ci_amount body)) (now e)))
       (fx_lock fxp e t (ci_currency body) d) r d]"
    "re_intentId resp = fresh e d"
    "outbox d' = outbox d @ [PollStatus (fresh e d) (ci_provider body) t]" "ledgerEntries d' = ledgerEntries d"
    by (rule createIntent_created [OF assms]) auto
  define row where "row = direct_intent e t body (fst (scoreRisk scorer d t (centimes (ci_amount body)) (now e))) (fx_lock fxp e t (ci_currency body) d) r d"
  note row = row_def [unfolded direct_intent_def create_intent_row_def Let_def fst_conv]
  have "link_charge d' row = (ci_amount body, ci_currency body)"
    by (simp add: row link_charge_def find_link_def resolveIntentCharge_def direct_metadata_def)
  moreover have "is_preauth row \<longleftrightarrow> ci_isPreauth body = Some True"
    by (cases "ci_isPreauth body") (auto simp: row is_preauth_def direct_metadata_def)
  moreover have "in_fxRate row = None \<longleftrightarrow> ci_currency body = coalesce (map_option tn_settlementCurrency (find (\<lambda>x. tn_id x = t) (tenants d))) MAD"
    by (simp add: row fx_lock_def Let_def)
  moreover have "in_id row = fresh e d" "in_tenantId row = t" "in_status row = INTENT_REQUIRES_ACTION" "in_providerRef row = Some (kr_providerRef r)"
    "in_riskVerdict row = Some (fst (scoreRisk scorer d t (centimes (ci_amount body)) (now e)))" by (simp_all add: row)
  ultimately show ?thesis using run unfolding row_def [symmetric]
    by (intro exI [of _ cfg] exI [of _ session] exI [of _ params] exI [of _ r] exI [of _ row]) simp
qed

definition demo_create_session :: create_session where
  "demo_create_session p k = Inr (\<lambda>params. Inr \<lparr>kr_redirectUrl = ''https://pay'', kr_providerRef = ''ref-1'', kr_providerData = None\<rparr>)"

text \<open>
  Repeating a direct payment request. When a request with no open payment under its reference has been answered 201, the same
  request within five minutes is answered 200 with the same intent, correlation id and verdict, and changes nothing, whatever
  the risk scorer and the exchange rates have become and without asking the provider again (the provider's answer being that
  of a wallet payment exactly when one was requested).
\<close>

lemma createIntent_idempotent:
  assumes "createIntent scorer fxp cs e t body d = (Inr resp, d')" "re_status resp = 201"
    "\<forall>x\<in>set (paymentIntents d). in_id x \<noteq> fresh e d" "existing_intent e t (ci_reference body) d = None"
    "now e \<le> now e'" "now e' \<le> now e + 5 * 60 * 1000"
    "\<forall>k session params r. cs (ci_provider body) k = Inr session \<and> session params = Inr r \<and> cp_walletMode params = ci_walletMode body \<longrightarrow>
       wallet_answer r = is_wallet_request body"
  shows "createIntent scorer' fxp' cs' e' t body d' = (Inr (resp\<lparr>re_status := 200, re_idempotent := True\<rparr>), d')"
proof -
  obtain cfg session params r where run: "createIntentSchema body = Inr body"
    "tenant_config t (ci_provider body) d = Some cfg" "pc_status cfg = CONFIG_CONNECTED"
    "cs (ci_provider body) (pc_encryptedCredentials cfg) = Inr session" "session params = Inr r"
    "paymentIntents d' = paymentIntents d @ [direct_intent e t body (fst (scoreRisk scorer d t (centimes (ci_amount body)) (now e)))
       (fx_lock fxp e t (ci_currency body) d) r d]"
    "resp = \<lparr>re_status = 201, re_intentId = fresh e d, re_correlationId = fresh e (bump d),
       re_riskVerdict = Some (fst (scoreRisk scorer d t (centimes (ci_amount body)) (now e))), re_idempotent = False\<rparr>"
    "providerConfigs d' = providerConfigs d" "cp_walletMode params = ci_walletMode body"
    by (rule createIntent_created [OF assms(1-3)]) blast
  define row where "row = direct_intent e t body (fst (scoreRisk scorer d t (centimes (ci_amount body)) (now e))) (fx_lock fxp e t (ci_currency body) d) r d"
  note row = row_def [unfolded direct_intent_def create_intent_row_def Let_def fst_conv]
  have "existing_intent e' t (ci_reference body) d' = Some row"
    using assms(6) by (intro existing_new [OF assms(4,5) run(6) [folded row_def]]) (simp_all add: row TERMINAL_STATUSES_def direct_metadata_def)
  moreover have "intent_is_wallet row = wallet_answer r" by (simp add: row intent_is_wallet_def wallet_answer_def)
  ultimately have "cached_intent e' t body d' = Some row" using assms(7) run(4,5,9) by (simp add: cached_intent_def)
  moreover have "tenant_config t (ci_provider body) d' = Some cfg" using run(2,8) by (simp add: tenant_config_def)
  ultimately show ?thesis using run(1,3,7) by (simp add: createIntent_def) (simp add: row)
qed

interpretation create_request: ledger_neutral "\<lambda>d. snd (createIntent scorer fxp cs e t body d)" for scorer fxp cs e t body
  by unfold_locales
     (auto simp: createIntent_def sbind_def Let_def create_intent_row_def open_checkout_frame split: option.split sum.split)

section \<open>The attempts of a link\<close>

definition the_link :: "db \<Rightarrow> string \<Rightarrow> payment_link \<Rightarrow> bool" where
  "the_link d s l \<longleftrightarrow>
     l \<in> set (paymentLinks d) \<and> pl_slug l = s \<and> (\<forall>x\<in>set (paymentLinks d). pl_slug x = s \<or> pl_id x = pl_id l \<longrightarrow> x = l)"

lemma the_link_find: "the_link d s l \<Longrightarrow> find (\<lambda>l. pl_slug l = s) (paymentLinks d) = Some l"
  by (rule find_unique) (auto simp: the_link_def)

lemma the_link_cong: "paymentLinks d' = paymentLinks d \<Longrightarrow> the_link d' s l = the_link d s l"
  by (simp add: the_link_def)

lemma payable_the_link: "the_link d s l \<Longrightarrow> payable_link e s d = Inr link \<Longrightarrow> link = l"
  by (auto simp: payable_link_def the_link_find split: if_splits option.splits)

lemma bump_attempts_full:
  assumes "the_link d s l" "pl_maxAttempts l \<le> pl_attemptCount l"
  shows "fst (bump_attempts l d) = 0"
  using assms by (auto simp: bump_attempts_def filter_empty_conv bumpable_def the_link_def)

lemma bump_attempts_link:
  assumes "the_link d s l" "pl_attemptCount l < pl_maxAttempts l"
  shows "the_link (snd (bump_attempts l d)) s (l\<lparr>pl_attemptCount := pl_attemptCount l + 1\<rparr>)"
proof -
  let ?f = "\<lambda>x. if bumpable l x then x\<lparr>pl_attemptCount := pl_attemptCount x + 1\<rparr> else x"
  have keep: "pl_slug (?f x) = pl_slug x" "pl_id (?f x) = pl_id x" for x by simp_all
  have l: "?f l = l\<lparr>pl_attemptCount := pl_attemptCount l + 1\<rparr>" "l \<in> set (paymentLinks d)" "pl_slug l = s"
    using assms by (simp_all add: bumpable_def the_link_def)
  have u: "x = l" if "x \<in> set (paymentLinks d)" "pl_slug (?f x) = s \<or> pl_id (?f x) = pl_id l" for x
    using assms(1) that unfolding keep the_link_def by blast
  have "\<forall>y\<in>?f ` set (paymentLinks d). pl_slug y = s \<or> pl_id y = pl_id l \<longrightarrow> y = ?f l" using u by blast
  moreover have "?f l \<in> ?f ` set (paymentLinks d)" using l(2) by (rule imageI)
  ultimately show ?thesis unfolding the_link_def bump_attempts_def using l(1,3)
    by (simp del: if_image_distrib)
qed

lemma pay_installment_links: "pay_installment pow sc se e l p dp d = (res, d') \<Longrightarrow> paymentLinks d' = paymentLinks d"
  by (auto simp: pay_installment_def sbind_def create_intent_row_def update_intent_def bump_def open_checkout_frame Let_def
      split: sum.splits if_splits prod.splits)

lemma pay_in_full_links: "pay_in_full sc se e l d = (res, d') \<Longrightarrow> paymentLinks d' = paymentLinks d"
  by (auto simp: pay_in_full_def sbind_def create_intent_row_def bump_def open_checkout_frame Let_def split: sum.splits if_splits prod.splits)

text \<open>Every request that passes the checks of the link uses one attempt, whether it then succeeds or not.\<close>

lemma publicPay_links:
  assumes "publicPay pow scorer cs e s body d = (res, d')" "the_link d s l"
  shows "paymentLinks d' = paymentLinks d \<and> (\<exists>x. res = Inl x) \<or>
    pl_attemptCount l < pl_maxAttempts l \<and> paymentLinks d' = paymentLinks (snd (bump_attempts l d))"
proof (cases "payable_link e s d")
  case (Inl x)
  then show ?thesis using assms(1) by (auto simp: publicPay_def)
next
  case (Inr link)
  with payable_the_link [OF assms(2)] have l: "payable_link e s d = Inr l" by simp
  obtain count d1 where b: "bump_attempts l d = (count, d1)" by (cases "bump_attempts l d")
  show ?thesis
  proof (cases "count = 0")
    case True
    then show ?thesis using assms(1) l b by (auto simp: publicPay_def)
  next
    case False
    then have "pl_attemptCount l < pl_maxAttempts l" using bump_attempts_full [OF assms(2)] b by force
    moreover have "paymentLinks d' = paymentLinks d1"
      using assms(1) l b False
      by (auto simp: publicPay_def sbind_def split: sum.splits option.splits if_splits dest!: pay_installment_links pay_in_full_links)
    ultimately show ?thesis using b by simp
  qed
qed

text \<open>A sequence of requests for the link; the number of those that open a checkout.\<close>

fun pay_all :: "(rat \<Rightarrow> rat \<Rightarrow> rat) \<Rightarrow> (string \<Rightarrow> centimes \<Rightarrow> int \<Rightarrow> risk_outcome) option \<Rightarrow> string
    \<Rightarrow> (create_session \<times> env \<times> pay_body) list \<Rightarrow> db \<Rightarrow> nat \<times> db" where
  "pay_all pow scorer s [] d = (0, d)"
| "pay_all pow scorer s ((cs, e, body) # reqs) d =
     (case publicPay pow scorer cs e s body d of (res, d1) \<Rightarrow>
        case pay_all pow scorer s reqs d1 of (n, d2) \<Rightarrow> ((if is_ok res then Suc n else n), d2))"

lemma pay_all_attempts:
  assumes "the_link d s l" "pay_all pow scorer s reqs d = (n, d')"
  shows "\<exists>c. the_link d' s (l\<lparr>pl_attemptCount := c\<rparr>) \<and> int n \<le> c - pl_attemptCount l \<and> (c = pl_attemptCount l \<or> c \<le> pl_maxAttempts l)"
  using assms
proof (induction reqs arbitrary: d l n)
  case Nil
  then show ?case by (intro exI [of _ "pl_attemptCount l"]) simp
next
  case (Cons req reqs)
  obtain cs e body where req: "req = (cs, e, body)" by (cases req)
  obtain res d1 where one: "publicPay pow scorer cs e s body d = (res, d1)" by (cases "publicPay pow scorer cs e s body d")
  obtain m where rest: "pay_all pow scorer s reqs d1 = (m, d')" and n: "n = (if is_ok res then Suc m else m)"
    using Cons.prems(2) req one by (auto split: prod.splits)
  from publicPay_links [OF one Cons.prems(1)] show ?case
  proof (elim disjE conjE exE)
    fix x assume "paymentLinks d1 = paymentLinks d" "res = Inl x"
    then have "the_link d1 s l" "n = m" using Cons.prems(1) n by (simp_all add: the_link_def is_ok_def)
    with Cons.IH [OF _ rest] show ?thesis by blast
  next
    let ?l = "l\<lparr>pl_attemptCount := pl_attemptCount l + 1\<rparr>"
    assume lt: "pl_attemptCount l < pl_maxAttempts l" and eq: "paymentLinks d1 = paymentLinks (snd (bump_attempts l d))"
    have "the_link d1 s ?l" using bump_attempts_link [OF Cons.prems(1) lt] the_link_cong [OF eq] by blast
    from Cons.IH [OF this rest] obtain c where "the_link d' s (?l\<lparr>pl_attemptCount := c\<rparr>)" "int m \<le> c - (pl_attemptCount l + 1)"
      "c = pl_attemptCount l + 1 \<or> c \<le> pl_maxAttempts l" by auto
    with lt n show ?thesis by (intro exI [of _ c]) auto
  qed
qed

text \<open>
  C22. The attempts of a payment link are bounded. However many payment requests are made on a link, and whatever the provider
  answers, the counter grows by at least one for each checkout that is opened and never beyond the maximum: no more checkouts
  are opened than attempts were left.
\<close>

theorem link_attempts_bounded:
  assumes "the_link d s l" "pay_all pow scorer s reqs d = (n, d')"
  shows "\<exists>c. the_link d' s (l\<lparr>pl_attemptCount := c\<rparr>) \<and> int n \<le> c - pl_attemptCount l \<and>
    (c = pl_attemptCount l \<or> c \<le> pl_maxAttempts l) \<and> int n \<le> max 0 (pl_maxAttempts l - pl_attemptCount l)"
  using pay_all_attempts [OF assms] by (auto simp: max_def)

definition demo_link :: payment_link where
  "demo_link = \<lparr>pl_id = ''l1'', pl_tenantId = ''t1'', pl_slug = ''slug'', pl_amount = 120000, pl_currency = MAD, pl_reference = ''ref'',
     pl_provider = VPS, pl_status = LINK_ACTIVE, pl_maxAttempts = 3, pl_attemptCount = 0, pl_expiresAt = None, pl_isRecurring = False,
     pl_billingInterval = None, pl_intervalValue = None, pl_maxRetries = 3, pl_isInstallment = True\<rparr>"

definition demo_link_db :: db where
  "demo_link_db = demo_intent_db\<lparr>paymentIntents := [], paymentLinks := [demo_link], installmentPlans :=
     [\<lparr>ip_id = ''plan'', ip_tenantId = ''t1'', ip_durationMonths = 12, ip_annualInterestRate = 0, ip_minAmount = None, ip_maxAmount = None,
       ip_isActive = True\<rparr>]\<rparr>"

lemma demo_the_link: "the_link demo_link_db ''slug'' demo_link"
  by (simp add: the_link_def demo_link_db_def demo_link_def)

theorem link_attempts_bounded_witness:
  "fst (pay_all (\<lambda>a b. 1) None ''slug'' (replicate 100 (demo_create_session, demo_env, \<lparr>pb_installmentPlanId = Some ''plan'', pb_downPaymentAmount = None\<rparr>))
     demo_link_db) \<le> 3"
proof -
  obtain n d' where "pay_all (\<lambda>a b. 1) None ''slug'' (replicate 100 (demo_create_session, demo_env, \<lparr>pb_installmentPlanId = Some ''plan'',
     pb_downPaymentAmount = None\<rparr>)) demo_link_db = (n, d')" by fastforce
  with link_attempts_bounded [OF demo_the_link this] show ?thesis by (auto simp: demo_link_def)
qed

lemma pay_installment_ledger: "ledgerEntries (snd (pay_installment pow sc se e l p dp d)) = ledgerEntries d"
  by (auto simp: pay_installment_def sbind_def create_intent_row_def update_intent_def bump_def open_checkout_frame Let_def
      split: sum.split prod.split)

lemma pay_in_full_ledger: "ledgerEntries (snd (pay_in_full sc se e l d)) = ledgerEntries d"
  by (auto simp: pay_in_full_def sbind_def create_intent_row_def bump_def open_checkout_frame Let_def split: sum.split prod.split)

interpretation pay_request: ledger_neutral "\<lambda>d. snd (publicPay pow scorer cs e s body d)" for pow scorer cs e s body
  by unfold_locales
     (auto simp: publicPay_def sbind_def bump_attempts_def pay_installment_ledger pay_in_full_ledger split: option.split sum.split)

section \<open>Paying by installments\<close>

lemma down_payment_capped:
  assumes "0 \<le> m" "m \<le> 2 ^ 49" "0 \<le> x" "x \<le> fromMinor m MAD"
  shows "0 \<le> Math_round (js_mul x 100)" "Math_round (js_mul x 100) \<le> m"
proof -
  have "m \<le> 2 ^ 50" using assms(2) by simp
  then have p: "fromMinor m MAD = rnd (of_int m / 100)" using assms(1) by (simp add: fromMinor_def')
  have m: "(of_int m :: rat) \<le> 2 ^ 49" using assms(2) by (metis of_int_le_iff of_int_numeral of_int_power)
  have "\<bar>rnd (of_int m / 100) - of_int m / 100\<bar> \<le> (of_int m :: rat) / 100 / 2 ^ 53" using rnd_error [of "of_int m / 100"] assms(1) by simp
  also have "\<dots> \<le> 1 / 1600" using m by simp
  finally have up: "100 * x \<le> of_int m + 1 / 16" using assms(4) unfolding p abs_le_iff by linarith
  have "\<bar>rnd (x * 100) - x * 100\<bar> \<le> (x * 100) / 2 ^ 53" using rnd_error [of "x * 100"] assms(3) by simp
  also have "\<dots> \<le> 1 / 8" using up m by simp
  finally have "rnd (x * 100) < of_int m + 1 / 2" using up unfolding abs_le_iff by linarith
  then show "Math_round (js_mul x 100) \<le> m" by (simp add: Math_round_def js_mul_def floor_le_iff)
  have "0 \<le> rnd (x * 100)" using rnd_ge [of 0 "x * 100"] representable_int [of 0] assms(3) by simp
  then show "0 \<le> Math_round (js_mul x 100)" by (simp add: Math_round_def js_mul_def)
qed

text \<open>The charge of the down payment in centimes, and what is stored of it.\<close>

lemma offer_down_payment:
  assumes "installment_offer_for pow (fromMinor m MAD) apr n dp = Inr offer" "0 \<le> m" "m \<le> 2 ^ 49"
    "\<forall>s. computeInstallmentAmount pow (fromMinor m MAD) apr n = Inr s \<longrightarrow> 0 \<le> s"
  shows "Math_round (js_mul (of_downPayment offer) 100) = toMinor (of_downPayment offer) MAD"
    "0 \<le> toMinor (of_downPayment offer) MAD" "toMinor (of_downPayment offer) MAD \<le> m"
proof -
  obtain s where s: "computeInstallmentAmount pow (fromMinor m MAD) apr n = Inr s"
    using assms(1) by (cases "computeInstallmentAmount pow (fromMinor m MAD) apr n") (auto simp: installment_offer_for_def)
  have s0: "0 \<le> s" using assms(4) s by blast
  define x where "x = (let y = (if coalesce dp s < s then s else coalesce dp s) in if y > fromMinor m MAD then fromMinor m MAD else y)"
  have of: "of_downPayment offer = round2 x"
    using assms(1) s by (auto simp: installment_offer_for_def Let_def x_def split: if_splits)
  have "0 \<le> fromMinor m MAD"
  proof -
    have "m \<le> 2 ^ 50" using assms(3) by simp
    then show ?thesis using assms(2) rnd_ge [of 0 "of_int m / 100"] representable_int [of 0] by (simp add: fromMinor_def')
  qed
  then have x: "0 \<le> x" "x \<le> fromMinor m MAD" using s0 by (auto simp: x_def Let_def)
  define k where "k = Math_round (js_mul x 100)"
  have k: "0 \<le> k" "k \<le> m" using down_payment_capped [OF assms(2,3) x] by (simp_all add: k_def)
  have fm: "round2 x = fromMinor k MAD" using k assms(3) by (simp add: round2_def k_def [symmetric] fromMinor_def' js_div_def)
  have "toMinor (fromMinor k MAD) MAD = k" using k assms(3) by (intro toMinor_of_fromMinor) simp
  moreover have "Math_round (js_mul (fromMinor k MAD) 100) = k" using calculation by (simp add: toMinor_def Number_def js_mul_def fromMinor_def js_div_def)
  ultimately show "Math_round (js_mul (of_downPayment offer) 100) = toMinor (of_downPayment offer) MAD"
    "0 \<le> toMinor (of_downPayment offer) MAD" "toMinor (of_downPayment offer) MAD \<le> m" using k by (simp_all add: of fm)
qed

lemma publicPay_installment:
  assumes "publicPay pow scorer cs e s body d = (Inr (iid, Some aid, params), d')" "the_link d s l"
  obtains planId dp session d1 where "pay_installment pow scorer session e l planId dp d1 = (Inr (iid, Some aid, params), d')"
    "paymentIntents d1 = paymentIntents d" "fresh e d1 = fresh e d" "the_link d1 s (l\<lparr>pl_attemptCount := pl_attemptCount l + 1\<rparr>)"
proof -
  have full: "pay_in_full sc se e l d1 \<noteq> (Inr (iid, Some aid, params), d')" for sc se d1
    by (auto simp: pay_in_full_def sbind_def Let_def split: if_splits sum.splits prod.splits)
  have lt: "pl_attemptCount l < pl_maxAttempts l" using publicPay_links [OF assms] by auto
  obtain link where "payable_link e s d = Inr link" using assms(1) by (cases "payable_link e s d") (auto simp: publicPay_def)
  with payable_the_link [OF assms(2)] have l: "payable_link e s d = Inr l" by simp
  obtain count d1 where b: "bump_attempts l d = (count, d1)" by (cases "bump_attempts l d")
  have "\<exists>planId dp session. pay_installment pow scorer session e l planId dp d1 = (Inr (iid, Some aid, params), d')"
    using assms(1) l b full
    by (auto simp: publicPay_def sbind_def split: sum.splits option.splits if_splits prod.splits)
  moreover have "paymentIntents d1 = paymentIntents d" "fresh e d1 = fresh e d"
    using b by (auto simp: bump_attempts_def fresh_def)
  moreover have "the_link d1 s (l\<lparr>pl_attemptCount := pl_attemptCount l + 1\<rparr>)" using bump_attempts_link [OF assms(2) lt] b by simp
  ultimately show ?thesis using that by blast
qed

lemma pay_installment_rows:
  assumes "pay_installment pow scorer session e l planId dp d = (Inr (iid, Some aid, params), d')"
    "\<forall>x\<in>set (paymentIntents d). in_id x \<noteq> fresh e d"
  obtains plan :: installment_plan and offer :: installment_offer and row :: payment_intent and a :: installment_agreement where
    "installment_offer_for pow (fromMinor (pl_amount l) MAD) (ip_annualInterestRate plan) (ip_durationMonths plan) dp = Inr offer"
    "row \<in> set (paymentIntents d')" "in_id row = iid" "in_paymentLinkId row = Some (pl_id l)"
    "in_metadata row = Some (bnpl_metadata (Some aid))"
    "a \<in> set (installmentAgreements d')" "ia_id a = aid" "ia_principalAmount a = pl_amount l" "ia_downPayment a = toMinor (of_downPayment offer) MAD"
    "cp_amount params = of_int (Math_round (js_mul (of_downPayment offer) 100))" "paymentLinks d' = paymentLinks d"
proof -
  obtain plan offer where po: "choose_plan l planId d = Inr plan"
    "installment_offer_for pow (fromMinor (pl_amount l) MAD) (ip_annualInterestRate plan) (ip_durationMonths plan) dp = Inr offer"
    using assms(1) by (auto simp: pay_installment_def sbind_def split: sum.splits)
  define k where "k = Math_round (js_mul (of_downPayment offer) 100)"
  define v where "v = fst (scoreRisk scorer d (pl_tenantId l) k (now e))"
  obtain draft d1 where row: "create_intent_row e (pl_tenantId l) (Some (pl_id l)) (pl_provider l) v (Some (bnpl_metadata None)) None d = (draft, d1)"
    by (cases "create_intent_row e (pl_tenantId l) (Some (pl_id l)) (pl_provider l) v (Some (bnpl_metadata None)) None d")
  have i: "in_id draft = fresh e d" "in_paymentLinkId draft = Some (pl_id l)" "paymentIntents d1 = paymentIntents d @ [draft]"
    using row by (auto simp: create_intent_row_def Let_def)
  define a where "a = agreement_row e l plan draft offer d1"
  define d3 where "d3 = update_intent (in_id draft) (\<lambda>x. x\<lparr>in_metadata := Some (bnpl_metadata (Some (ia_id a)))\<rparr>)
    ((bump d1)\<lparr>installmentAgreements := installmentAgreements d1 @ [a]\<rparr>)"
  obtain r where r: "session params = Inr r" "d' = open_checkout e draft (\<lambda>x. x) r d3" "iid = in_id draft" "aid = ia_id a"
    "params = pay_params l draft k True False"
    using assms(1) po row
    by (auto simp: pay_installment_def Let_def k_def [symmetric] v_def [symmetric] a_def [symmetric] d3_def [symmetric] sbind_def
        split: if_splits sum.splits)
  have new: "\<forall>x\<in>set (paymentIntents d). in_id x \<noteq> in_id draft" using assms(2) i by simp
  let ?draft = "draft\<lparr>in_metadata := Some (bnpl_metadata (Some (ia_id a)))\<rparr>"
  have d3: "paymentIntents d3 = paymentIntents d @ [?draft]"
    unfolding d3_def by (rule update_new_intent [OF new]) (simp add: i bump_def)
  have "\<forall>x\<in>set (paymentIntents d). in_id x \<noteq> in_id ?draft" "in_id draft = in_id ?draft" using new by simp_all
  note rows = open_checkout_intents [OF this(1) d3 this(2), of e "\<lambda>x. x" r]
  have "draft\<lparr>in_metadata := Some (bnpl_metadata (Some (ia_id a))), in_status := INTENT_REQUIRES_ACTION, in_providerRef := Some (kr_providerRef r),
      in_providerData := Some (stored_provider_data r)\<rparr> \<in> set (paymentIntents d')" (is "?row \<in> _")
    unfolding r(2) rows by simp
  moreover have "a \<in> set (installmentAgreements d')" "paymentLinks d' = paymentLinks d"
    using row by (auto simp: r(2) open_checkout_frame d3_def update_intent_def create_intent_row_def bump_def Let_def)
  ultimately show ?thesis
    using that [OF po(2), of ?row a] r(3-5) i by (simp add: a_def agreement_row_def pay_params_def k_def)
qed

text \<open>
  A payment by installments is settled for the whole amount. When a payment request with an installment plan opens a checkout, the
  provider is asked to charge the down payment of the new agreement and no more, which is at most the amount of the link; but
  what the ledger settles for the intent when it succeeds is the whole amount of the link, although the rest is charged later,
  if at all.
\<close>

lemma bnpl_settles_whole_amount:
  assumes "publicPay pow scorer cs e s body d = (Inr (iid, Some aid, params), d')" "the_link d s l"
    "\<forall>x\<in>set (paymentIntents d). in_id x \<noteq> fresh e d" "0 \<le> pl_amount l" "pl_amount l \<le> 2 ^ 49"
    "\<forall>apr n x. computeInstallmentAmount pow (fromMinor (pl_amount l) MAD) apr n = Inr x \<longrightarrow> 0 \<le> x"
  shows "\<exists>a row. a \<in> set (installmentAgreements d') \<and> ia_id a = aid \<and> ia_principalAmount a = pl_amount l \<and>
    ia_downPayment a \<le> pl_amount l \<and> cp_amount params = of_int (ia_downPayment a) \<and>
    row \<in> set (paymentIntents d') \<and> in_id row = iid \<and> Option.bind (in_metadata row) meta_installmentAgreementId = Some aid \<and>
    link_charge d' row = (of_int (pl_amount l), pl_currency l)"
proof -
  let ?l = "l\<lparr>pl_attemptCount := pl_attemptCount l + 1\<rparr>"
  obtain planId dp session d1 where run: "pay_installment pow scorer session e l planId dp d1 = (Inr (iid, Some aid, params), d')"
    "paymentIntents d1 = paymentIntents d" "fresh e d1 = fresh e d" "the_link d1 s ?l"
    by (rule publicPay_installment [OF assms(1,2)])
  have new: "\<forall>x\<in>set (paymentIntents d1). in_id x \<noteq> fresh e d1" using assms(3) run(2,3) by simp
  obtain plan :: installment_plan and offer :: installment_offer and row a where rows:
    "installment_offer_for pow (fromMinor (pl_amount l) MAD) (ip_annualInterestRate plan) (ip_durationMonths plan) dp = Inr offer"
    "row \<in> set (paymentIntents d')" "in_id row = iid" "in_paymentLinkId row = Some (pl_id l)"
    "in_metadata row = Some (bnpl_metadata (Some aid))"
    "a \<in> set (installmentAgreements d')" "ia_id a = aid" "ia_principalAmount a = pl_amount l" "ia_downPayment a = toMinor (of_downPayment offer) MAD"
    "cp_amount params = of_int (Math_round (js_mul (of_downPayment offer) 100))" "paymentLinks d' = paymentLinks d1"
    by (rule pay_installment_rows [OF run(1) new])
  have dp: "Math_round (js_mul (of_downPayment offer) 100) = toMinor (of_downPayment offer) MAD" "toMinor (of_downPayment offer) MAD \<le> pl_amount l"
    using offer_down_payment [OF rows(1) assms(4,5)] assms(6) by blast+
  have "find (\<lambda>x. pl_id x = pl_id l) (paymentLinks d1) = Some ?l"
    using run(4) by (intro find_unique) (auto simp: the_link_def)
  then have "link_charge d' row = resolveIntentCharge (Some (fromMinor (pl_amount l) (pl_currency l), pl_currency l)) (in_metadata row)"
    by (simp add: link_charge_def find_link_def rows(4,11))
  moreover have "\<bar>pl_amount l\<bar> \<le> 2 ^ 50" using assms(4,5) by simp
  ultimately have "link_charge d' row = (of_int (pl_amount l), pl_currency l)" by (simp add: resolveIntentCharge_units)
  with rows dp show ?thesis by (intro exI [of _ a] exI [of _ row]) (simp add: bnpl_metadata_def)
qed

end
