(* ===== verification/Lifecycle.thy ===== *)
theory Lifecycle
  imports Checkout
begin

text \<open>
  \<open>src/routes/subscriptions.ts\<close>, \<open>src/routes/installmentAgreements.ts\<close> and \<open>src/routes/installmentPlans.ts\<close>: the requests
  with which a merchant pauses, resumes and cancels what the jobs of theory Dunning charge, and the plans of theory Checkout. The
  argument \<open>accepts\<close> says which events the job runner takes; \<open>inngest.send\<close> throws on the others.
\<close>

section \<open>Subscriptions\<close>

definition tenant_subscription :: "string \<Rightarrow> string \<Rightarrow> db \<Rightarrow> subscription option" where
  "tenant_subscription tenantId i d = find (\<lambda>s. su_id s = i \<and> su_tenantId s = tenantId) (subscriptions d)"

text \<open>The signal to the run that is recorded on a row, when there is one. A failure to send it is ignored.\<close>

definition signal_run :: "(job_event \<Rightarrow> bool) \<Rightarrow> (string \<Rightarrow> job_event) \<Rightarrow> string option \<Rightarrow> db \<Rightarrow> db" where
  "signal_run accepts ev inngestRunId d =
     (let runId = coalesce inngestRunId ''''
      in if runId \<noteq> '''' \<and> accepts (ev runId) then send_event (ev runId) d else d)"

definition pauseSubscription :: "(job_event \<Rightarrow> bool) \<Rightarrow> string \<Rightarrow> string \<Rightarrow> (string \<times> subscription_status) job_step" where
  "pauseSubscription accepts tenantId i d =
     (case tenant_subscription tenantId i d of
        None \<Rightarrow> (Inl (AppError 404 ''SUBSCRIPTION_NOT_FOUND''), d)
      | Some sub \<Rightarrow>
          if su_status sub \<noteq> SUB_ACTIVE \<and> su_status sub \<noteq> SUB_PAST_DUE then (Inl (AppError 400 ''INVALID_STATE''), d)
          else sbind (update_subscription (su_id sub) (\<lambda>s. s\<lparr>su_status := SUB_PAUSED, su_inngestRunId := None\<rparr>)
                 (signal_run accepts (PauseRequested (su_id sub)) (su_inngestRunId sub) d)) (\<lambda>updated d1.
               (Inr (su_id updated, su_status updated), d1)))"

definition resume_due :: "env \<Rightarrow> subscription \<Rightarrow> int" where
  "resume_due e sub = max (coalesce (su_nextBillingDate sub) (now e)) (now e)"

definition resume_event :: "env \<Rightarrow> subscription \<Rightarrow> job_event" where
  "resume_event e sub =
     (let idemKey = billingIdempotencyKey (su_id sub) (resume_due e sub)
      in RenewalDue idemKey
           \<lparr>rn_subscriptionId = su_id sub, rn_tenantId = su_tenantId sub, rn_customerId = su_customerId sub,
            rn_amount = madToCentimes (of_int (su_amount sub) / 100), rn_currency = su_currency sub,
            rn_intervalType = su_intervalType sub, rn_intervalValue = su_intervalValue sub, rn_chargeId = ''renewal-'' @ idemKey,
            rn_idempotencyId = idemKey, rn_attemptNumber = 1\<rparr>)"

definition resumeSubscription :: "(job_event \<Rightarrow> bool) \<Rightarrow> env \<Rightarrow> string \<Rightarrow> string \<Rightarrow> (string \<times> subscription_status) job_step" where
  "resumeSubscription accepts e tenantId i d =
     (case tenant_subscription tenantId i d of
        None \<Rightarrow> (Inl (AppError 404 ''SUBSCRIPTION_NOT_FOUND''), d)
      | Some sub \<Rightarrow>
          if su_status sub \<noteq> SUB_PAUSED then (Inl (AppError 400 ''INVALID_STATE''), d)
          else sbind (update_subscription (su_id sub) (\<lambda>s. s\<lparr>su_status := SUB_ACTIVE\<rparr>) d) (\<lambda>_ d1.
            if accepts (resume_event e sub) then (Inr (su_id sub, SUB_ACTIVE), send_event (resume_event e sub) d1)
            else (Inl (JsError ''inngest.send''), d1)))"

definition cancelSubscription :: "(job_event \<Rightarrow> bool) \<Rightarrow> string \<Rightarrow> string \<Rightarrow> (string \<times> subscription_status) job_step" where
  "cancelSubscription accepts tenantId i d =
     (case tenant_subscription tenantId i d of
        None \<Rightarrow> (Inl (AppError 404 ''SUBSCRIPTION_NOT_FOUND''), d)
      | Some sub \<Rightarrow>
          if su_status sub = SUB_CANCELLED then (Inl (AppError 400 ''ALREADY_CANCELLED''), d)
          else sbind (update_subscription (su_id sub) (\<lambda>s. s\<lparr>su_status := SUB_CANCELLED, su_inngestRunId := None\<rparr>)
                 (signal_run accepts (CancelRequested (su_id sub)) (su_inngestRunId sub) d)) (\<lambda>updated d1.
               (Inr (su_id updated, su_status updated), d1)))"

section \<open>Agreements and plans\<close>

definition cancelAgreement :: "(job_event \<Rightarrow> bool) \<Rightarrow> string \<Rightarrow> string \<Rightarrow> string \<Rightarrow> (string \<times> agreement_status) job_step" where
  "cancelAgreement accepts tenantId userId i d =
     (case find (\<lambda>a. ia_id a = i \<and> ia_tenantId a = tenantId) (installmentAgreements d) of
        None \<Rightarrow> (Inl (AppError 404 ''AGREEMENT_NOT_FOUND''), d)
      | Some agreement \<Rightarrow>
          if ia_status agreement \<notin> {AGREEMENT_ACTIVE, AGREEMENT_PENDING_CHECKOUT} then (Inl (AppError 400 ''INVALID_STATE''), d)
          else sbind (update_agreement (ia_id agreement) (\<lambda>a. a\<lparr>ia_status := AGREEMENT_CANCELLED, ia_inngestRunId := None\<rparr>)
                 (signal_run accepts (InstallmentCancelRequested (ia_id agreement)) (ia_inngestRunId agreement) d)) (\<lambda>updated d1.
               (Inr (ia_id updated, ia_status updated),
                audit tenantId userId ''INSTALLMENT_AGREEMENT_CANCELLED'' ''InstallmentAgreement'' (ia_id agreement) d1)))"

text \<open>
  The deletion of a plan. The foreign key of the agreements is declared ON DELETE RESTRICT, so the database rejects the deletion of
  a plan any agreement refers to, whatever its status.
\<close>

definition deletePlan :: "string \<Rightarrow> string \<Rightarrow> string \<Rightarrow> unit job_step" where
  "deletePlan tenantId userId i d =
     (case find (\<lambda>p. ip_id p = i \<and> ip_tenantId p = tenantId) (installmentPlans d) of
        None \<Rightarrow> (Inl (AppError 404 ''PLAN_NOT_FOUND''), d)
      | Some plan \<Rightarrow>
          let activeCount = length (filter (\<lambda>a. ia_tenantId a = tenantId \<and> ia_planId a = ip_id plan \<and>
                ia_status a \<in> {AGREEMENT_ACTIVE, AGREEMENT_PENDING_CHECKOUT}) (installmentAgreements d))
          in if activeCount > 0 then (Inl (AppError 409 ''PLAN_HAS_ACTIVE_AGREEMENTS''), d)
             else if list_ex (\<lambda>a. ia_planId a = ip_id plan) (installmentAgreements d) then (Inl (JsError ''P2003''), d)
             else (Inr (), audit tenantId userId ''INSTALLMENT_PLAN_DELETED'' ''InstallmentPlan'' (ip_id plan)
                    (d\<lparr>installmentPlans := filter (\<lambda>p. ip_id p \<noteq> ip_id plan) (installmentPlans d)\<rparr>)))"

text \<open>
  Creating and changing plans. The numbers of the body are decimals; the columns keep four digits of the rate, of which two before
  the point, and two digits of the amounts. An absent field of a change is \<open>None\<close> and leaves the column.
\<close>

record plan_body =
  pb_name :: "string option"
  pb_durationMonths :: "int option"
  pb_annualInterestRate :: "rat option"
  pb_minAmount :: "rat option"
  pb_maxAmount :: "rat option"
  pb_isActive :: "bool option"

definition planSchema_partial :: "plan_body \<Rightarrow> bool" where
  "planSchema_partial b \<longleftrightarrow>
     (case pb_name b of None \<Rightarrow> True | Some v \<Rightarrow> 1 \<le> length v \<and> length v \<le> 100) \<and>
     (case pb_durationMonths b of None \<Rightarrow> True | Some n \<Rightarrow> 1 \<le> n \<and> n \<le> 120) \<and>
     (case pb_annualInterestRate b of None \<Rightarrow> True | Some r \<Rightarrow> 0 \<le> r \<and> r \<le> 100) \<and>
     (case pb_minAmount b of None \<Rightarrow> True | Some v \<Rightarrow> 0 < v) \<and> (case pb_maxAmount b of None \<Rightarrow> True | Some v \<Rightarrow> 0 < v)"

definition planSchema :: "plan_body \<Rightarrow> bool" where
  "planSchema b \<longleftrightarrow>
     pb_name b \<noteq> None \<and> pb_durationMonths b \<noteq> None \<and> pb_annualInterestRate b \<noteq> None \<and> planSchema_partial b"

definition stored_rate :: "rat \<Rightarrow> rat" where
  "stored_rate r = of_int \<lfloor>r * 10000 + 1 / 2\<rfloor> / 10000"

definition stored_amount :: "rat \<Rightarrow> centimes" where
  "stored_amount v = \<lfloor>v * 100 + 1 / 2\<rfloor>"

text \<open>The columns refuse a rate of 100 and amounts of ten digits before the point.\<close>

definition columns_ok :: "plan_body \<Rightarrow> bool" where
  "columns_ok b \<longleftrightarrow>
     (case pb_annualInterestRate b of None \<Rightarrow> True | Some r \<Rightarrow> stored_rate r < 100) \<and>
     (case pb_minAmount b of None \<Rightarrow> True | Some v \<Rightarrow> stored_amount v < 10 ^ 12) \<and>
     (case pb_maxAmount b of None \<Rightarrow> True | Some v \<Rightarrow> stored_amount v < 10 ^ 12)"

definition createPlan :: "env \<Rightarrow> string \<Rightarrow> string \<Rightarrow> plan_body \<Rightarrow> installment_plan job_step" where
  "createPlan e tenantId userId b d =
     (if \<not> planSchema b then (Inl (AppError 422 ''VALIDATION_ERROR''), d)
      else if \<not> columns_ok b then (Inl (JsError ''P2020''), d)
      else let plan = \<lparr>ip_id = fresh e d, ip_tenantId = tenantId, ip_durationMonths = the (pb_durationMonths b),
                       ip_annualInterestRate = stored_rate (the (pb_annualInterestRate b)), ip_minAmount = map_option stored_amount (pb_minAmount b),
                       ip_maxAmount = map_option stored_amount (pb_maxAmount b), ip_isActive = coalesce (pb_isActive b) True\<rparr>
           in (Inr plan, audit tenantId userId ''INSTALLMENT_PLAN_CREATED'' ''InstallmentPlan'' (ip_id plan)
                 ((bump d)\<lparr>installmentPlans := installmentPlans d @ [plan]\<rparr>)))"

definition change_plan :: "plan_body \<Rightarrow> installment_plan \<Rightarrow> installment_plan" where
  "change_plan b p =
     p\<lparr>ip_durationMonths := coalesce (pb_durationMonths b) (ip_durationMonths p),
       ip_annualInterestRate := coalesce (map_option stored_rate (pb_annualInterestRate b)) (ip_annualInterestRate p),
       ip_minAmount := or_else (map_option stored_amount (pb_minAmount b)) (ip_minAmount p),
       ip_maxAmount := or_else (map_option stored_amount (pb_maxAmount b)) (ip_maxAmount p),
       ip_isActive := coalesce (pb_isActive b) (ip_isActive p)\<rparr>"

definition updatePlan :: "string \<Rightarrow> string \<Rightarrow> string \<Rightarrow> plan_body \<Rightarrow> installment_plan job_step" where
  "updatePlan tenantId userId i b d =
     (case find (\<lambda>p. ip_id p = i \<and> ip_tenantId p = tenantId) (installmentPlans d) of
        None \<Rightarrow> (Inl (AppError 404 ''PLAN_NOT_FOUND''), d)
      | Some plan \<Rightarrow>
          if \<not> planSchema_partial b then (Inl (AppError 422 ''VALIDATION_ERROR''), d)
          else if \<not> columns_ok b then (Inl (JsError ''P2020''), d)
          else (Inr (change_plan b plan), audit tenantId userId ''INSTALLMENT_PLAN_UPDATED'' ''InstallmentPlan'' (ip_id plan)
                 (d\<lparr>installmentPlans := map (\<lambda>p. if ip_id p = ip_id plan then change_plan b p else p) (installmentPlans d)\<rparr>)))"

text \<open>The public previews of the plans for a link.\<close>

record plan_preview =
  pp_planId :: string
  pp_durationMonths :: int
  pp_annualInterestRate :: rat
  pp_installmentAmount :: rat
  pp_totalAmount :: rat
  pp_totalInterest :: rat
  pp_minAmount :: "rat option"
  pp_maxAmount :: "rat option"

definition preview_plan :: "(rat \<Rightarrow> rat \<Rightarrow> rat) \<Rightarrow> rat \<Rightarrow> installment_plan \<Rightarrow> plan_preview result" where
  "preview_plan pow principalAmount p =
     ebind (computeInstallmentAmount pow principalAmount (ip_annualInterestRate p) (ip_durationMonths p)) (\<lambda>installment.
     ebind (totalInterest pow principalAmount (ip_annualInterestRate p) (ip_durationMonths p)) (\<lambda>interest.
       Inr \<lparr>pp_planId = ip_id p, pp_durationMonths = ip_durationMonths p, pp_annualInterestRate = ip_annualInterestRate p,
            pp_installmentAmount = installment, pp_totalAmount = round2 (js_add principalAmount interest), pp_totalInterest = interest,
            pp_minAmount = map_option (\<lambda>m. fromMinor m MAD) (ip_minAmount p),
            pp_maxAmount = map_option (\<lambda>m. fromMinor m MAD) (ip_maxAmount p)\<rparr>))"

definition planPreviews :: "(rat \<Rightarrow> rat \<Rightarrow> rat) \<Rightarrow> string \<Rightarrow> db \<Rightarrow> (currency \<times> rat \<times> plan_preview list) result" where
  "planPreviews pow slug d =
     (case find (\<lambda>l. pl_slug l = slug) (paymentLinks d) of
        None \<Rightarrow> Inl (AppError 404 ''LINK_NOT_FOUND'')
      | Some link \<Rightarrow>
          if \<not> pl_isInstallment link then Inl (AppError 400 ''NOT_INSTALLMENT'')
          else if map_option tn_status (find (\<lambda>t. tn_id t = pl_tenantId link) (tenants d)) = Some TENANT_DISABLED
          then Inl (AppError 403 ''TENANT_DISABLED'')
          else let principalAmount = fromMinor (pl_amount link) MAD;
                   plans = sort_key ip_durationMonths
                     (filter (\<lambda>p. ip_tenantId p = pl_tenantId link \<and> ip_isActive p) (installmentPlans d))
               in ebind (efold (\<lambda>p acc. ebind (preview_plan pow principalAmount p) (\<lambda>v. Inr (acc @ [v]))) plans [])
                    (\<lambda>previews. Inr (pl_currency link, principalAmount, previews)))"

section \<open>Lemmas\<close>

lemma signal_run_kept [simp]:
  "subscriptions (signal_run accepts ev r d) = subscriptions d" "installmentAgreements (signal_run accepts ev r d) = installmentAgreements d"
  "ledgerEntries (signal_run accepts ev r d) = ledgerEntries d" "providerConfigs (signal_run accepts ev r d) = providerConfigs d"
  by (simp_all add: signal_run_def send_event_def Let_def)

lemma find_refine:
  assumes "find P xs = Some x" "Q x" "\<And>y. Q y \<Longrightarrow> P y"
  shows "find Q xs = Some x"
  using assms by (induction xs) (auto split: if_splits)

lemma tenant_subscription_SomeD:
  assumes "tenant_subscription t i d = Some s"
  shows "su_id s = i" "su_tenantId s = t" "\<exists>s'. find (\<lambda>s. su_id s = i) (subscriptions d) = Some s'"
proof -
  have s: "s \<in> set (subscriptions d)" "su_id s = i" "su_tenantId s = t"
    using assms find_SomeD [of "\<lambda>s. su_id s = i \<and> su_tenantId s = t" "subscriptions d" s] by (simp_all add: tenant_subscription_def)
  then show "su_id s = i" "su_tenantId s = t" by simp_all
  have "find (\<lambda>s. su_id s = i) (subscriptions d) \<noteq> None" unfolding find_None_iff using s by auto
  then show "\<exists>s'. find (\<lambda>s. su_id s = i) (subscriptions d) = Some s'" by blast
qed

lemma tenant_subscription_updated:
  assumes "\<And>r. su_id (f r) = su_id r" "\<And>r. su_tenantId (f r) = su_tenantId r"
    "subscriptions d' = map (\<lambda>s. if su_id s = i then f s else s) (subscriptions d)"
  shows "tenant_subscription t i d' = map_option f (tenant_subscription t i d)"
proof -
  have "find (\<lambda>s. su_id s = i \<and> su_tenantId s = t) (map (\<lambda>s. if su_id s = i then f s else s) xs) =
      map_option f (find (\<lambda>s. su_id s = i \<and> su_tenantId s = t) xs)" for xs
    by (induction xs) (auto simp: assms(1,2))
  then show ?thesis by (simp add: tenant_subscription_def assms(3))
qed

text \<open>What a pause or a cancellation leaves behind.\<close>

definition subscription_set :: "string \<Rightarrow> subscription_status \<Rightarrow> db \<Rightarrow> db \<Rightarrow> bool" where
  "subscription_set i st d d' \<longleftrightarrow>
     subscriptions d' = map (\<lambda>s. if su_id s = i then s\<lparr>su_status := st, su_inngestRunId := None\<rparr> else s) (subscriptions d) \<and>
     (\<exists>s. find (\<lambda>s. su_id s = i) (subscriptions d') = Some s \<and> su_status s = st) \<and>
     ledgerEntries d' = ledgerEntries d \<and> providerConfigs d' = providerConfigs d"

lemma stop_run:
  assumes "sbind (update_subscription i (\<lambda>s. s\<lparr>su_status := st, su_inngestRunId := None\<rparr>) (signal_run accepts ev r d))
      (\<lambda>u d1. (Inr (su_id u, su_status u), d1)) = (Inr x, d')"
  shows "subscription_set i st d d'"
proof -
  let ?f = "\<lambda>s. s\<lparr>su_status := st, su_inngestRunId := None\<rparr>"
  obtain s where s: "find (\<lambda>s. su_id s = i) (subscriptions d) = Some s"
    and d': "d' = (signal_run accepts ev r d)\<lparr>subscriptions := map (\<lambda>s. if su_id s = i then ?f s else s) (subscriptions d)\<rparr>"
    using assms by (auto simp: update_subscription_def split: option.splits)
  have "find (\<lambda>s. su_id s = i) (map (\<lambda>s. if su_id s = i then ?f s else s) (subscriptions d)) = Some (?f s)"
    using find_update_key [of su_id ?f i i "subscriptions d"] s by simp
  then show ?thesis by (simp add: subscription_set_def d')
qed

lemma pause_sets: "pauseSubscription accepts t i d = (Inr x, d') \<Longrightarrow> subscription_set i SUB_PAUSED d d'"
  by (auto simp: pauseSubscription_def dest!: tenant_subscription_SomeD(1) stop_run split: option.splits if_splits)

lemma cancel_sets: "cancelSubscription accepts t i d = (Inr x, d') \<Longrightarrow> subscription_set i SUB_CANCELLED d d'"
  by (auto simp: cancelSubscription_def dest!: tenant_subscription_SomeD(1) stop_run split: option.splits if_splits)

lemma stop_sets:
  assumes "pauseSubscription accepts t i d = (Inr x, d') \<or> cancelSubscription accepts t i d = (Inr x, d')"
  obtains st where "subscription_set i st d d'" "st \<in> {SUB_PAUSED, SUB_CANCELLED}"
  using assms
proof
  assume "pauseSubscription accepts t i d = (Inr x, d')"
  then show thesis by (rule that [OF pause_sets]) simp
next
  assume "cancelSubscription accepts t i d = (Inr x, d')"
  then show thesis by (rule that [OF cancel_sets]) simp
qed

lemma stopped:
  assumes "subscription_set i st d d'" "st \<in> {SUB_PAUSED, SUB_CANCELLED}" "rn_subscriptionId p = i"
  shows "billingRenewal vps decrypt es other runId p d' = (Inr (Skipped ''Subscription is ''), d')"
    and "lc_shouldStop (renewal_ladder vps decrypt es other p) n d' = Some ''Subscription ''"
    and "s \<in> set (subscriptions d') \<Longrightarrow> su_id s = i \<Longrightarrow> \<not> subscription_due time s"
    and "others i d' = others i d"
proof -
  obtain s' where s': "find (\<lambda>s. su_id s = i) (subscriptions d') = Some s'" "su_status s' = st"
    using assms(1) by (auto simp: subscription_set_def)
  then show "billingRenewal vps decrypt es other runId p d' = (Inr (Skipped ''Subscription is ''), d')"
    and "lc_shouldStop (renewal_ladder vps decrypt es other p) n d' = Some ''Subscription ''"
    using assms(2,3) by (auto simp: billingRenewal_def renewal_ladder_def)
  have subs: "subscriptions d' = map (\<lambda>s. if su_id s = i then s\<lparr>su_status := st, su_inngestRunId := None\<rparr> else s) (subscriptions d)"
    using assms(1) by (simp add: subscription_set_def)
  then show "others i d' = others i d" by (simp add: others_def others_update)
  show "\<not> subscription_due time s" if "s \<in> set (subscriptions d')" "su_id s = i"
  proof -
    from that(1) obtain r where "s = (if su_id r = i then r\<lparr>su_status := st, su_inngestRunId := None\<rparr> else r)"
      unfolding subs set_map by (rule imageE)
    with that(2) have "su_status s = st" by (simp split: if_splits)
    with assms(2) show ?thesis by (auto simp: subscription_due_def)
  qed
qed

lemma advance_reactivates:
  assumes "subscription_set i st d d'" "rn_subscriptionId p = i"
    "computeNextBillingDate (now e) (rn_intervalType p) (rn_intervalValue p) = Some next"
  shows "\<exists>d2 s. advanceBillingCycle e p d' = (Inr (Advanced next), d2) \<and> find (\<lambda>s. su_id s = i) (subscriptions d2) = Some s \<and>
    su_status s = SUB_ACTIVE"
proof -
  obtain s' where s': "find (\<lambda>s. su_id s = rn_subscriptionId p) (subscriptions d') = Some s'"
    using assms(1,2) by (auto simp: subscription_set_def)
  obtain d2 where "advanceBillingCycle e p d' = (Inr (Advanced next), d2)"
    "find (\<lambda>s. su_id s = i) (subscriptions d2) = Some (s'\<lparr>su_status := SUB_ACTIVE, su_retryCount := 0, su_currentPeriodStart := Some (now e),
       su_currentPeriodEnd := Some next, su_nextBillingDate := Some next\<rparr>)"
    by (rule advance_run [OF s' assms(3)]) (rule that, auto simp: assms(2))
  then show ?thesis by auto
qed

section \<open>Properties\<close>

text \<open>
  C21. A paused or cancelled subscription is not charged by what starts afterwards. After a successful pause or cancellation every
  renewal event of the subscription is skipped without a change, a retry ladder that sleeps meanwhile stops when it wakes, the daily
  sweep does not select the subscription, and no other subscription is touched. In the state a cancellation leaves, pausing, resuming
  and cancelling are refused and change nothing. But neither is final: a renewal run that had charged before the pause or the
  cancellation arrived sets the subscription to ACTIVE again with its next step, which does not look at the status.
\<close>

theorem stopped_subscription:
  assumes "pauseSubscription accepts t i d = (Inr x, d') \<or> cancelSubscription accepts t i d = (Inr x, d')" "rn_subscriptionId p = i"
  shows "billingRenewal vps decrypt es other runId p d' = (Inr (Skipped ''Subscription is ''), d') \<and>
    lc_shouldStop (renewal_ladder vps decrypt es other p) n d' \<noteq> None \<and>
    (\<forall>s\<in>set (subscriptions d'). su_id s = i \<longrightarrow> \<not> subscription_due time s) \<and> others i d' = others i d \<and>
    (cancelSubscription accepts t i d = (Inr x, d') \<longrightarrow>
       pauseSubscription accepts' t i d' = (Inl (AppError 400 ''INVALID_STATE''), d') \<and>
       resumeSubscription accepts' e t i d' = (Inl (AppError 400 ''INVALID_STATE''), d') \<and>
       cancelSubscription accepts' t i d' = (Inl (AppError 400 ''ALREADY_CANCELLED''), d')) \<and>
    (\<forall>next. computeNextBillingDate (now e) (rn_intervalType p) (rn_intervalValue p) = Some next \<longrightarrow>
       (\<exists>d2 s. advanceBillingCycle e p d' = (Inr (Advanced next), d2) \<and> find (\<lambda>s. su_id s = i) (subscriptions d2) = Some s \<and>
          su_status s = SUB_ACTIVE))"
proof -
  obtain st where st: "subscription_set i st d d'" "st \<in> {SUB_PAUSED, SUB_CANCELLED}" by (rule stop_sets [OF assms(1)])
  have "\<exists>s. tenant_subscription t i d' = Some s \<and> su_status s = SUB_CANCELLED" if c: "cancelSubscription accepts t i d = (Inr x, d')"
  proof -
    from c obtain s where "tenant_subscription t i d = Some s"
      by (cases "tenant_subscription t i d") (simp_all add: cancelSubscription_def)
    moreover have "tenant_subscription t i d' =
        map_option (\<lambda>s. s\<lparr>su_status := SUB_CANCELLED, su_inngestRunId := None\<rparr>) (tenant_subscription t i d)"
      by (rule tenant_subscription_updated [OF _ _ cancel_sets [OF c, unfolded subscription_set_def, THEN conjunct1]]) simp_all
    ultimately show ?thesis by simp
  qed
  then have "cancelSubscription accepts t i d = (Inr x, d') \<longrightarrow>
       pauseSubscription accepts' t i d' = (Inl (AppError 400 ''INVALID_STATE''), d') \<and>
       resumeSubscription accepts' e t i d' = (Inl (AppError 400 ''INVALID_STATE''), d') \<and>
       cancelSubscription accepts' t i d' = (Inl (AppError 400 ''ALREADY_CANCELLED''), d')"
    by (auto simp: pauseSubscription_def resumeSubscription_def cancelSubscription_def)
  then show ?thesis using stopped [OF st assms(2)] advance_reactivates [OF st(1) assms(2)] by simp
qed

theorem stopped_subscription_witness:
  "\<exists>d'. pauseSubscription (\<lambda>ev. True) ''t1'' (su_id demo_subscription) demo_billing_db = (Inr (su_id demo_subscription, SUB_PAUSED), d') \<and>
     billingRenewal (\<lambda>c. Inr (answer ''CHARGED'')) Inr (\<lambda>n. demo_env) (\<lambda>n d. d) ''run'' demo_renewal d' = (Inr (Skipped ''Subscription is ''), d')"
proof -
  have "\<exists>d'. pauseSubscription (\<lambda>ev. True) ''t1'' (su_id demo_subscription) demo_billing_db = (Inr (su_id demo_subscription, SUB_PAUSED), d')"
    by (simp add: pauseSubscription_def tenant_subscription_def update_subscription_def demo_billing_db_def demo_subscription_def)
  then obtain d' where d': "pauseSubscription (\<lambda>ev. True) ''t1'' (su_id demo_subscription) demo_billing_db = (Inr (su_id demo_subscription, SUB_PAUSED), d')" ..
  have "rn_subscriptionId demo_renewal = su_id demo_subscription" by (simp add: demo_renewal_def)
  from stopped_subscription [OF disjI1 [OF d'] this] d' show ?thesis by blast
qed

text \<open>
  A cancellation during a charge is undone. When the cancellation or the pause of a subscription arrives while the renewal job
  waits for the provider, and the charge succeeds, the job's next step sets the subscription to ACTIVE again without looking at
  its status, and sends the event of the next renewal, which charges it.
\<close>

lemma cancellation_undone:
  assumes "pauseSubscription accepts t i d = (Inr x, d1) \<or> cancelSubscription accepts t i d = (Inr x, d1)"
    "rn_subscriptionId p = i" "rn_tenantId p = t" "chargeable vps decrypt True i t d"
    "computeNextBillingDate (now e) (rn_intervalType p) (rn_intervalValue p) = Some next"
  shows "\<exists>d2 s p' d3. advanceBillingCycle e p d1 = (Inr (Advanced next), d2) \<and>
    find (\<lambda>s. su_id s = i) (subscriptions d2) = Some s \<and> su_status s = SUB_ACTIVE \<and>
    outbox d2 = outbox d1 @ [RenewalDue (billingIdempotencyKey i next) p'] \<and>
    billingRenewal vps decrypt (\<lambda>n. e) other runId p' d2 = (Inr (Done (Advanced next)), d3)"
proof -
  obtain st where st: "subscription_set i st d d1" by (rule stop_sets [OF assms(1)])
  from assms(4) obtain s c http prof where s: "find (\<lambda>s. su_id s = i) (subscriptions d) = Some s" "vps_config d t = Some c"
    "vps (pc_encryptedCredentials c) = Inr http" "decrypt (su_encryptedStoredProfileId s) = Inr prof" "always True http"
    unfolding chargeable_def by blast
  define s1 where "s1 = s\<lparr>su_status := st, su_inngestRunId := None\<rparr>"
  have "find (\<lambda>s. su_id s = i) (subscriptions d1) = Some s1"
    using st s(1) find_update_key [of su_id "\<lambda>s. s\<lparr>su_status := st, su_inngestRunId := None\<rparr>" i i "subscriptions d"]
    by (simp add: subscription_set_def s1_def)
  then have f1: "find (\<lambda>s. su_id s = rn_subscriptionId p) (subscriptions d1) = Some s1" by (simp add: assms(2))
  define key where "key = billingIdempotencyKey i next"
  define p' where "p' = p\<lparr>rn_chargeId := ''renewal-'' @ key, rn_idempotencyId := key, rn_attemptNumber := 1\<rparr>"
  define s2 where "s2 = s1\<lparr>su_status := SUB_ACTIVE, su_retryCount := 0, su_currentPeriodStart := Some (now e),
    su_currentPeriodEnd := Some next, su_nextBillingDate := Some next\<rparr>"
  obtain d2 where d2: "advanceBillingCycle e p d1 = (Inr (Advanced next), d2)"
    "find (\<lambda>s. su_id s = i) (subscriptions d2) = Some s2" "vps_config d2 = vps_config d1"
    "outbox d2 = outbox d1 @ [RenewalDue key p']"
    by (rule advance_run [OF f1 assms(5)]) (rule that, auto simp: assms(2) s2_def key_def p'_def)
  have "vps_config d2 t = Some c" using d2(3) st s(2) by (simp add: subscription_set_def vps_config_def)
  then have "chargeable vps decrypt True (rn_subscriptionId p') (rn_tenantId p') d2"
    unfolding chargeable_def using s d2(2)
    by (intro exI [of _ s2] exI [of _ c] exI [of _ http] exI [of _ prof]) (simp add: p'_def assms(2,3) s2_def s1_def)
  then obtain d3 where "billingRenewal vps decrypt (\<lambda>n. e) other runId p' d2 = (Inr (Done (Advanced next)), d3)"
    by (rule renewal_approved [where es = "\<lambda>n. e"]) (use assms(5) that in \<open>simp_all add: p'_def\<close>)
  with d2 show ?thesis by (intro exI [of _ d2] exI [of _ s2] exI [of _ p'] exI [of _ d3]) (simp add: key_def s2_def)
qed

text \<open>
  Resuming charges before the due date. Resuming a paused subscription whose next billing date is still to come sends the
  renewal event of that date at once, for the amount of the subscription, and the job does not look at the date: delivered before it,
  the event charges the customer, and the next billing date is counted from that moment.
\<close>

lemma resume_charges_early:
  assumes sub: "find (\<lambda>s. su_id s = i) (subscriptions d) = Some sub" "su_tenantId sub = t" "su_status sub = SUB_PAUSED"
      "\<bar>su_amount sub\<bar> \<le> 2 ^ 50" "su_nextBillingDate sub = Some due" "now e \<le> now e'" "now e' < due"
    and charge: "vps_config d t = Some c" "vps (pc_encryptedCredentials c) = Inr http" "decrypt (su_encryptedStoredProfileId sub) = Inr prof"
      "always True http"
    and cycle: "computeNextBillingDate (now e') (su_intervalType sub) (su_intervalValue sub) = Some next"
    and accepts: "\<And>ev. accepts ev"
  shows "\<exists>d1 p d2 s. resumeSubscription accepts e t i d = (Inr (i, SUB_ACTIVE), d1) \<and>
    outbox d1 = outbox d @ [RenewalDue (billingIdempotencyKey i due) p] \<and> rn_amount p = su_amount sub \<and>
    billingRenewal vps decrypt (\<lambda>n. e') other runId p d1 = (Inr (Done (Advanced next)), d2) \<and>
    find (\<lambda>s. su_id s = i) (subscriptions d2) = Some s \<and> su_nextBillingDate s = Some next"
proof -
  have i: "su_id sub = i" using find_SomeD [OF sub(1)] by simp
  have ts: "tenant_subscription t i d = Some sub" unfolding tenant_subscription_def by (rule find_refine [OF sub(1)]) (simp_all add: sub(2) i)
  have due: "resume_due e sub = due" using sub(5-7) by (simp add: resume_due_def coalesce_def)
  let ?f = "\<lambda>s. s\<lparr>su_status := SUB_ACTIVE\<rparr>"
  obtain d1 where d1: "update_subscription i ?f d = (Inr (?f sub), d1)" "find (\<lambda>s. su_id s = i) (subscriptions d1) = Some (?f sub)"
    "vps_config d1 = vps_config d" "outbox d1 = outbox d" by (rule update_subscription_run [OF sub(1), of ?f]) (simp, rule that)
  obtain p where ev: "resume_event e sub = RenewalDue (billingIdempotencyKey i due) p"
    and p: "rn_subscriptionId p = i" "rn_tenantId p = t" "rn_amount p = madToCentimes (of_int (su_amount sub) / 100)"
      "rn_intervalType p = su_intervalType sub" "rn_intervalValue p = su_intervalValue sub"
    by (simp add: resume_event_def due i sub(2) Let_def)
  have amount: "madToCentimes (of_int (su_amount sub) / 100) = su_amount sub"
    using sub(4) by (simp add: madToCentimes_def toMinor_cents)
  let ?d1 = "send_event (resume_event e sub) d1"
  have run: "resumeSubscription accepts e t i d = (Inr (i, SUB_ACTIVE), ?d1)"
    by (simp add: resumeSubscription_def ts sub(3) i d1(1) accepts)
  have "vps_config ?d1 t = Some c" using d1(3) charge(1) by (simp add: send_event_def vps_config_def fun_eq_iff)
  then have "chargeable vps decrypt True (rn_subscriptionId p) (rn_tenantId p) ?d1"
    unfolding chargeable_def using charge d1(2)
    by (intro exI [of _ "?f sub"] exI [of _ c] exI [of _ http] exI [of _ prof]) (simp add: p send_event_def)
  then obtain d2 s where "billingRenewal vps decrypt (\<lambda>n. e') other runId p ?d1 = (Inr (Done (Advanced next)), d2)"
    "find (\<lambda>s. su_id s = i) (subscriptions d2) = Some s" "su_nextBillingDate s = Some next"
    by (rule renewal_approved [where es = "\<lambda>n. e'"]) (use cycle that in \<open>simp_all add: p\<close>)
  moreover have "outbox ?d1 = outbox d @ [RenewalDue (billingIdempotencyKey i due) p]" by (simp add: send_event_def d1(4) ev)
  ultimately show ?thesis using run p(3) amount by (intro exI [of _ ?d1] exI [of _ p] exI [of _ d2] exI [of _ s]) simp
qed

section \<open>Agreements and plans\<close>

text \<open>A cancelled agreement is not charged: its events are skipped and a sleeping ladder stops.\<close>

lemma cancelled_agreement:
  assumes "cancelAgreement accepts t u i d = (Inr x, d')" "du_agreementId p = i"
  shows "installmentCharge vps decrypt es other runId p d' = (Inr (Skipped ''Agreement is ''), d')"
    and "lc_shouldStop (installment_ladder vps decrypt es other p) n d' \<noteq> None"
proof -
  let ?f = "\<lambda>a. a\<lparr>ia_status := AGREEMENT_CANCELLED, ia_inngestRunId := None\<rparr>"
  obtain a where a: "find (\<lambda>a. ia_id a = i \<and> ia_tenantId a = t) (installmentAgreements d) = Some a"
    using assms(1) by (auto simp: cancelAgreement_def split: option.splits)
  have i: "ia_id a = i" using find_SomeD [OF a] by simp
  obtain b where b: "find (\<lambda>a. ia_id a = i) (installmentAgreements d) = Some b"
    and d': "installmentAgreements d' = map (\<lambda>a. if ia_id a = i then ?f a else a) (installmentAgreements d)"
    using assms(1) by (auto simp: cancelAgreement_def a i update_agreement_def audit_def split: option.splits if_splits)
  have "find (\<lambda>a. ia_id a = i) (installmentAgreements d') = Some (?f b)"
    using find_update_key [of ia_id ?f i i "installmentAgreements d"] b d' by simp
  then show "installmentCharge vps decrypt es other runId p d' = (Inr (Skipped ''Agreement is ''), d')"
    and "lc_shouldStop (installment_ladder vps decrypt es other p) n d' \<noteq> None"
    by (simp_all add: installmentCharge_def installment_ladder_def assms(2))
qed

text \<open>
  A plan is deleted only when no agreement refers to it. The check counts the open agreements; for a plan whose agreements are all
  finished it passes, and the database's rejection surfaces as an unhandled error.
\<close>

lemma deletePlan_ok:
  assumes "find (\<lambda>p. ip_id p = i \<and> ip_tenantId p = t) (installmentPlans d) = Some plan"
  shows "is_ok (fst (deletePlan t u i d)) \<longleftrightarrow> (\<forall>a\<in>set (installmentAgreements d). ia_planId a \<noteq> i)"
    and "\<not> is_ok (fst (deletePlan t u i d)) \<Longrightarrow> snd (deletePlan t u i d) = d"
  using assms find_SomeD [OF assms] by (auto simp: deletePlan_def Let_def list_ex_iff filter_empty_conv)

lemma deletePlan_finished:
  assumes "find (\<lambda>p. ip_id p = i \<and> ip_tenantId p = t) (installmentPlans d) = Some plan"
    "\<forall>a\<in>set (installmentAgreements d). ia_planId a = i \<longrightarrow> ia_status a \<notin> {AGREEMENT_ACTIVE, AGREEMENT_PENDING_CHECKOUT}"
    "\<exists>a\<in>set (installmentAgreements d). ia_planId a = i"
  shows "deletePlan t u i d = (Inl (JsError ''P2003''), d)"
proof -
  have "filter (\<lambda>a. ia_tenantId a = t \<and> ia_planId a = i \<and> ia_status a \<in> {AGREEMENT_ACTIVE, AGREEMENT_PENDING_CHECKOUT})
      (installmentAgreements d) = []" using assms(2) by (auto simp: filter_empty_conv)
  with assms(1,3) find_SomeD [OF assms(1)] show ?thesis by (simp add: deletePlan_def Let_def list_ex_iff)
qed

text \<open>The plans an agreement can be made of: every request on plans keeps the duration, the rate and the limits in their ranges.\<close>

definition plan_ok :: "installment_plan \<Rightarrow> bool" where
  "plan_ok p \<longleftrightarrow> 1 \<le> ip_durationMonths p \<and> ip_durationMonths p \<le> 120 \<and> 0 \<le> ip_annualInterestRate p \<and> ip_annualInterestRate p < 100 \<and>
     (\<forall>v \<in> set_option (ip_minAmount p) \<union> set_option (ip_maxAmount p). 0 \<le> v \<and> v < 10 ^ 12)"

lemma stored_nonneg: "0 \<le> r \<Longrightarrow> 0 \<le> stored_rate r" "0 < v \<Longrightarrow> 0 \<le> stored_amount v"
  by (simp_all add: stored_rate_def stored_amount_def)

lemma createPlan_ok: "list_all plan_ok (installmentPlans d) \<Longrightarrow> list_all plan_ok (installmentPlans (snd (createPlan e t u b d)))"
  by (auto simp: createPlan_def planSchema_def planSchema_partial_def columns_ok_def plan_ok_def audit_def bump_def stored_nonneg Let_def
      split: option.splits)

lemma change_plan_ok: "plan_ok p \<Longrightarrow> planSchema_partial b \<Longrightarrow> columns_ok b \<Longrightarrow> plan_ok (change_plan b p)"
  by (auto simp: plan_ok_def change_plan_def planSchema_partial_def columns_ok_def coalesce_def or_else_def stored_nonneg split: option.splits)

lemma updatePlan_ok: "list_all plan_ok (installmentPlans d) \<Longrightarrow> list_all plan_ok (installmentPlans (snd (updatePlan t u i b d)))"
  by (auto simp: updatePlan_def audit_def list.pred_map list_all_iff intro: change_plan_ok split: option.splits)

lemma deletePlan_keeps_ok: "list_all plan_ok (installmentPlans d) \<Longrightarrow> list_all plan_ok (installmentPlans (snd (deletePlan t u i d)))"
  by (auto simp: deletePlan_def audit_def list_all_iff Let_def split: option.splits)

text \<open>A rate of 100 per cent, which the schema admits, is refused by the database: the request ends in an unhandled error.\<close>

lemma full_rate_fails: "planSchema b \<Longrightarrow> pb_annualInterestRate b = Some 100 \<Longrightarrow> createPlan e t u b d = (Inl (JsError ''P2020''), d)"
  by (simp add: createPlan_def columns_ok_def stored_rate_def)

text \<open>None of these requests touches the ledger.\<close>

interpretation create_plan_request: ledger_neutral "\<lambda>d. snd (createPlan e t u b d)" for e t u b
  by unfold_locales (auto simp: createPlan_def audit_def bump_def Let_def)

interpretation update_plan_request: ledger_neutral "\<lambda>d. snd (updatePlan t u i b d)" for t u i b
  by unfold_locales (auto simp: updatePlan_def audit_def split: option.splits)

interpretation pause_request: ledger_neutral "\<lambda>d. snd (pauseSubscription accepts t i d)" for accepts t i
  by unfold_locales (auto simp: pauseSubscription_def update_subscription_def split: option.splits)

interpretation resume_request: ledger_neutral "\<lambda>d. snd (resumeSubscription accepts e t i d)" for accepts e t i
  by unfold_locales (auto simp: resumeSubscription_def update_subscription_def send_event_def split: option.splits)

interpretation cancel_subscription_request: ledger_neutral "\<lambda>d. snd (cancelSubscription accepts t i d)" for accepts t i
  by unfold_locales (auto simp: cancelSubscription_def update_subscription_def split: option.splits)

interpretation cancel_agreement_request: ledger_neutral "\<lambda>d. snd (cancelAgreement accepts t u i d)" for accepts t u i
  by unfold_locales (auto simp: cancelAgreement_def update_agreement_def audit_def split: option.splits)

interpretation delete_plan_request: ledger_neutral "\<lambda>d. snd (deletePlan t u i d)" for t u i
  by unfold_locales (auto simp: deletePlan_def audit_def Let_def split: option.splits)

end
