(* ===== verification/Links.thy ===== *)
theory Links
  imports Checkout FinanceConfig
begin

text \<open>
  \<open>src/routes/paymentLinks.ts\<close> and \<open>src/schemas/payment-links.ts\<close>: creating and cancelling a payment link, and the public view of
  it that the checkout page shows before the payment of theory Checkout. The columns that nothing reads back (description and
  customer) are left out; the currency, a free string in the source, is one of the model's five.
\<close>

section \<open>Definitions\<close>

record payment_link_body =
  lb_amount :: rat
  lb_currency :: "currency option"
  lb_reference :: string
  lb_provider :: provider
  lb_expiresAt :: "int option"
  lb_maxAttempts :: "int option"
  lb_isRecurring :: "bool option"
  lb_billingInterval :: "billing_interval option"
  lb_intervalValue :: "int option"
  lb_maxRetries :: "int option"
  lb_isInstallment :: "bool option"

definition createPaymentLinkSchema :: "payment_link_body \<Rightarrow> payment_link_body result" where
  "createPaymentLinkSchema b =
     (let isRecurring = coalesce (lb_isRecurring b) False; isInstallment = coalesce (lb_isInstallment b) False;
          maxAttempts = coalesce (lb_maxAttempts b) 1; intervalValue = coalesce (lb_intervalValue b) 1; maxRetries = coalesce (lb_maxRetries b) 3
      in if 0 < lb_amount b \<and> lb_amount b \<le> 100000000 \<and> 1 \<le> length (lb_reference b) \<and> length (lb_reference b) \<le> 100 \<and>
            lb_provider b \<in> {NAPS, VPS, STRIPE} \<and> 1 \<le> maxAttempts \<and> maxAttempts \<le> 10 \<and> 1 \<le> intervalValue \<and> intervalValue \<le> 365 \<and>
            1 \<le> maxRetries \<and> maxRetries \<le> 10 \<and> (isRecurring \<longrightarrow> lb_billingInterval b \<noteq> None) \<and> (isRecurring \<longrightarrow> lb_provider b = VPS) \<and>
            (isInstallment \<longrightarrow> lb_provider b = VPS) \<and> \<not> (isInstallment \<and> isRecurring)
         then Inr (b\<lparr>lb_currency := Some (coalesce (lb_currency b) MAD), lb_maxAttempts := Some maxAttempts, lb_isRecurring := Some isRecurring,
                    lb_intervalValue := Some intervalValue, lb_maxRetries := Some maxRetries, lb_isInstallment := Some isInstallment\<rparr>)
         else Inl (AppError 422 ''VALIDATION_ERROR''))"

text \<open>The row. Its amount is \<open>centimesToMad (centimes amount)\<close>, kept in centimes here; id and slug are two generated ids.\<close>

definition link_row :: "env \<Rightarrow> string \<Rightarrow> payment_link_body \<Rightarrow> db \<Rightarrow> payment_link" where
  "link_row e tenantId b d =
     \<lparr>pl_id = gen e (seq d), pl_tenantId = tenantId, pl_slug = gen e (Suc (seq d)),
      pl_amount = toMinor (centimesToMad (centimes (lb_amount b))) MAD, pl_currency = coalesce (lb_currency b) MAD,
      pl_reference = lb_reference b, pl_provider = lb_provider b, pl_status = LINK_ACTIVE, pl_maxAttempts = coalesce (lb_maxAttempts b) 1,
      pl_attemptCount = 0, pl_expiresAt = lb_expiresAt b, pl_isRecurring = coalesce (lb_isRecurring b) False,
      pl_billingInterval = lb_billingInterval b, pl_intervalValue = lb_intervalValue b, pl_maxRetries = coalesce (lb_maxRetries b) 3,
      pl_isInstallment = coalesce (lb_isInstallment b) False\<rparr>"

definition createPaymentLink :: "env \<Rightarrow> string \<Rightarrow> payment_link_body \<Rightarrow> payment_link job_step" where
  "createPaymentLink e tenantId raw d =
     sbind (createPaymentLinkSchema raw, d) (\<lambda>b d.
     sbind (if lb_isRecurring b = Some True then requireCapability d tenantId ''SUBSCRIPTIONS'' else Inr (), d) (\<lambda>_ d.
     sbind (if lb_isInstallment b = Some True then requireCapability d tenantId ''INSTALLMENTS'' else Inr (), d) (\<lambda>_ d.
       case find (\<lambda>c. pc_tenantId c = tenantId \<and> pc_provider c = lb_provider b \<and> pc_status c = CONFIG_CONNECTED) (providerConfigs d) of
         None \<Rightarrow> (Inl (AppError 400 ''PROVIDER_NOT_CONFIGURED''), d)
       | Some providerConfig \<Rightarrow>
           (Inr (link_row e tenantId b d),
            d\<lparr>seq := Suc (Suc (seq d)), paymentLinks := paymentLinks d @ [link_row e tenantId b d]\<rparr>))))"

definition cancelPaymentLink :: "string \<Rightarrow> string \<Rightarrow> string \<Rightarrow> (string \<times> payment_link_status) job_step" where
  "cancelPaymentLink tenantId userId i d =
     (case find (\<lambda>l. pl_id l = i \<and> pl_tenantId l = tenantId) (paymentLinks d) of
        None \<Rightarrow> (Inl (AppError 404 ''LINK_NOT_FOUND''), d)
      | Some link \<Rightarrow>
          if pl_status link \<noteq> LINK_ACTIVE then (Inl (AppError 400 ''LINK_NOT_ACTIVE''), d)
          else (Inr (pl_id link, LINK_CANCELED),
                audit tenantId userId ''PAYMENT_LINK_CANCELED'' ''PaymentLink'' (pl_id link)
                  (d\<lparr>paymentLinks := map (\<lambda>l. if pl_id l = pl_id link then l\<lparr>pl_status := LINK_CANCELED\<rparr> else l) (paymentLinks d)\<rparr>)))"

record checkout_view =
  cv_slug :: string
  cv_amount :: centimes
  cv_currency :: currency
  cv_provider :: provider
  cv_isRecurring :: bool
  cv_isInstallment :: bool
  cv_billingInterval :: "billing_interval option"
  cv_intervalValue :: "int option"

definition publicCheckout :: "env \<Rightarrow> string \<Rightarrow> db \<Rightarrow> checkout_view result" where
  "publicCheckout e slug d =
     (case find (\<lambda>l. pl_slug l = slug) (paymentLinks d) of
        None \<Rightarrow> Inl (AppError 404 ''LINK_NOT_FOUND'')
      | Some link \<Rightarrow>
          if map_option tn_status (find (\<lambda>t. tn_id t = pl_tenantId link) (tenants d)) = Some TENANT_DISABLED
          then Inl (AppError 403 ''TENANT_DISABLED'')
          else if pl_status link = LINK_CANCELED then Inl (AppError 410 ''LINK_CANCELED'')
          else if pl_status link = LINK_PAID then Inl (AppError 410 ''LINK_PAID'')
          else if pl_status link = LINK_EXPIRED \<or> (case pl_expiresAt link of None \<Rightarrow> False | Some t \<Rightarrow> t < now e)
          then Inl (AppError 410 ''LINK_EXPIRED'')
          else Inr \<lparr>cv_slug = pl_slug link, cv_amount = pl_amount link, cv_currency = pl_currency link, cv_provider = pl_provider link,
                    cv_isRecurring = pl_isRecurring link, cv_isInstallment = pl_isInstallment link,
                    cv_billingInterval = pl_billingInterval link, cv_intervalValue = pl_intervalValue link\<rparr>)"

section \<open>Lemmas\<close>

text \<open>The page shows a link exactly when a payment of it gets past the checks.\<close>

lemma shown_iff_payable: "is_ok (publicCheckout e slug d) \<longleftrightarrow> is_ok (payable_link e slug d)"
  by (cases "find (\<lambda>l. pl_slug l = slug) (paymentLinks d)")
     (auto simp: publicCheckout_def payable_link_def split: payment_link_status.splits intro: payment_link_status.exhaust)

lemma link_cents: "\<bar>m\<bar> \<le> 2 ^ 50 \<Longrightarrow> Math_round (js_mul (fromMinor m MAD) 100) = m"
  using toMinor_of_fromMinor [of m MAD] by (simp add: toMinor_def Number_def js_mul_def fromMinor_def js_div_def)

lemma createPaymentLink_run:
  assumes "createPaymentLink e t raw d = (Inr link, d1)"
  obtains b where "createPaymentLinkSchema raw = Inr b" "link = link_row e t b d"
    "d1 = d\<lparr>seq := Suc (Suc (seq d)), paymentLinks := paymentLinks d @ [link]\<rparr>"
proof (cases "createPaymentLinkSchema raw")
  case (Inr b)
  with assms show ?thesis by (intro that [of b]) (auto simp: createPaymentLink_def sbind_def split: sum.splits option.splits if_splits)
qed (use assms in \<open>simp add: createPaymentLink_def\<close>)

lemma created_amount:
  assumes "createPaymentLinkSchema raw = Inr b" "lb_amount raw = of_int n"
  shows "pl_amount (link_row e t b d) = n" "0 < n" "n \<le> 100000000" "pl_currency (link_row e t b d) = coalesce (lb_currency raw) MAD"
    "pl_reference (link_row e t b d) = lb_reference raw"
proof -
  have b: "lb_amount b = of_int n" "0 < n" "n \<le> 100000000" "lb_reference b = lb_reference raw" "lb_currency b = Some (coalesce (lb_currency raw) MAD)"
    using assms by (auto simp: createPaymentLinkSchema_def Let_def split: if_splits)
  then have "\<bar>n\<bar> \<le> 2 ^ 50" by simp
  then show "pl_amount (link_row e t b d) = n" by (simp add: link_row_def b(1) centimes_def centimesToMad_def toMinor_of_fromMinor)
  show "0 < n" "n \<le> 100000000" "pl_currency (link_row e t b d) = coalesce (lb_currency raw) MAD" "pl_reference (link_row e t b d) = lb_reference raw"
    using b by (simp_all add: link_row_def coalesce_def)
qed

lemma publicPay_full:
  assumes "publicPay pow scorer cs e s body d = (Inr (iid, None, params), d')" "the_link d s l"
  obtains session d1 where "pay_in_full scorer session e l d1 = (Inr (iid, None, params), d')"
    "paymentIntents d1 = paymentIntents d" "fresh e d1 = fresh e d" "the_link d1 s (l\<lparr>pl_attemptCount := pl_attemptCount l + 1\<rparr>)"
proof -
  have inst: "pay_installment pow sc se e l p dp d1 \<noteq> (Inr (iid, None, params), d')" for sc se p dp d1
    by (auto simp: pay_installment_def sbind_def Let_def split: if_splits sum.splits prod.splits)
  have lt: "pl_attemptCount l < pl_maxAttempts l" using publicPay_links [OF assms] by auto
  obtain link where "payable_link e s d = Inr link" using assms(1) by (cases "payable_link e s d") (auto simp: publicPay_def)
  with payable_the_link [OF assms(2)] have l: "payable_link e s d = Inr l" by simp
  obtain count d1 where b: "bump_attempts l d = (count, d1)" by (cases "bump_attempts l d")
  have "\<exists>session. pay_in_full scorer session e l d1 = (Inr (iid, None, params), d')"
    using assms(1) l b inst
    by (auto simp: publicPay_def sbind_def split: sum.splits option.splits if_splits prod.splits)
  moreover have "paymentIntents d1 = paymentIntents d" "fresh e d1 = fresh e d"
    using b by (auto simp: bump_attempts_def fresh_def)
  moreover have "the_link d1 s (l\<lparr>pl_attemptCount := pl_attemptCount l + 1\<rparr>)" using bump_attempts_link [OF assms(2) lt] b by simp
  ultimately show ?thesis using that by blast
qed

lemma pay_in_full_rows:
  assumes "pay_in_full scorer session e l d = (Inr (iid, None, params), d')"
    "\<forall>x\<in>set (paymentIntents d). in_id x \<noteq> fresh e d"
  obtains row :: payment_intent where "row \<in> set (paymentIntents d')" "in_id row = iid" "in_paymentLinkId row = Some (pl_id l)"
    "cp_amount params = of_int (Math_round (js_mul (fromMinor (pl_amount l) MAD) 100))" "cp_currency params = pl_currency l"
    "cp_reference params = pl_reference l" "paymentLinks d' = paymentLinks d"
proof -
  define k where "k = Math_round (js_mul (fromMinor (pl_amount l) MAD) 100)"
  define v where "v = fst (scoreRisk scorer d (pl_tenantId l) k (now e))"
  obtain intent d1 where row: "create_intent_row e (pl_tenantId l) (Some (pl_id l)) (pl_provider l) v None None d = (intent, d1)"
    by (cases "create_intent_row e (pl_tenantId l) (Some (pl_id l)) (pl_provider l) v None None d")
  have i: "in_id intent = fresh e d" "in_paymentLinkId intent = Some (pl_id l)" "paymentIntents d1 = paymentIntents d @ [intent]"
    "paymentLinks d1 = paymentLinks d"
    using row by (auto simp: create_intent_row_def Let_def bump_def)
  obtain r where r: "d' = open_checkout e intent (\<lambda>x. x) r d1" "iid = in_id intent"
    "params = pay_params l intent k (pl_isRecurring l) (v = REVIEW \<and> \<not> pl_isRecurring l)"
    using assms(1) row by (auto simp: pay_in_full_def Let_def k_def [symmetric] v_def [symmetric] sbind_def split: if_splits sum.splits)
  have new: "\<forall>x\<in>set (paymentIntents d). in_id x \<noteq> in_id intent" using assms(2) i by simp
  note rows = open_checkout_intents [OF new i(3) refl, of e "\<lambda>x. x" r]
  have "intent\<lparr>in_status := INTENT_REQUIRES_ACTION, in_providerRef := Some (kr_providerRef r),
      in_providerData := Some (stored_provider_data r)\<rparr> \<in> set (paymentIntents d')" (is "?row \<in> _")
    unfolding r(1) rows by simp
  then show ?thesis using that [of ?row] r i by (simp add: open_checkout_frame pay_params_def k_def)
qed

section \<open>Properties\<close>

text \<open>
  C23. A link charges what was asked for. When a link created for a whole number of centimes is paid in full, the provider is asked for
  exactly that number of centimes, in the currency and with the reference of the request, through the conversions to dirhams and
  back; and this is the amount the ledger settles for the intent when it succeeds. While the link stands as created, the checkout page
  shows the same amount.
\<close>

theorem link_charges_request:
  assumes "createPaymentLink e t raw d = (Inr link, d1)" "lb_amount raw = of_int n"
    "\<forall>l\<in>set (paymentLinks d). pl_slug l \<noteq> pl_slug link \<and> pl_id l \<noteq> pl_id link"
    "publicPay pow scorer cs e' (pl_slug link) body d1 = (Inr (iid, None, params), d2)"
    "\<forall>x\<in>set (paymentIntents d). in_id x \<noteq> fresh e' d1"
  shows "cp_amount params = of_int n \<and> cp_currency params = coalesce (lb_currency raw) MAD \<and> cp_reference params = lb_reference raw \<and>
    (\<exists>row\<in>set (paymentIntents d2). in_id row = iid \<and> link_charge d2 row = (of_int n, coalesce (lb_currency raw) MAD)) \<and>
    (\<exists>v. publicCheckout e' (pl_slug link) d1 = Inr v \<and> cv_amount v = n)"
proof -
  obtain b where b: "createPaymentLinkSchema raw = Inr b" "link = link_row e t b d"
    "d1 = d\<lparr>seq := Suc (Suc (seq d)), paymentLinks := paymentLinks d @ [link]\<rparr>" by (rule createPaymentLink_run [OF assms(1)])
  have l: "pl_amount link = n" "0 < n" "n \<le> 100000000" "pl_currency link = coalesce (lb_currency raw) MAD" "pl_reference link = lb_reference raw"
    unfolding b(2) by (rule created_amount [OF b(1) assms(2)])+
  have tl: "the_link d1 (pl_slug link) link" using assms(3) by (auto simp: the_link_def b(3))
  let ?l = "link\<lparr>pl_attemptCount := pl_attemptCount link + 1\<rparr>"
  obtain session d1' where run: "pay_in_full scorer session e' link d1' = (Inr (iid, None, params), d2)"
    "paymentIntents d1' = paymentIntents d1" "fresh e' d1' = fresh e' d1" "the_link d1' (pl_slug link) ?l"
    by (rule publicPay_full [OF assms(4) tl])
  have "\<forall>x\<in>set (paymentIntents d1'). in_id x \<noteq> fresh e' d1'" using assms(5) run(2,3) b(3) by simp
  then obtain row where row: "row \<in> set (paymentIntents d2)" "in_id row = iid" "in_paymentLinkId row = Some (pl_id link)"
    "cp_amount params = of_int (Math_round (js_mul (fromMinor (pl_amount link) MAD) 100))" "cp_currency params = pl_currency link"
    "cp_reference params = pl_reference link" "paymentLinks d2 = paymentLinks d1'" by (rule pay_in_full_rows [OF run(1)])
  have n: "\<bar>n\<bar> \<le> 2 ^ 50" using l(2,3) by simp
  have "find (\<lambda>x. pl_id x = pl_id link) (paymentLinks d1') = Some ?l"
    using run(4) by (intro find_unique) (auto simp: the_link_def)
  then have "link_charge d2 row = (of_int n, coalesce (lb_currency raw) MAD)"
    using resolveIntentCharge_units [OF n] by (simp add: link_charge_def find_link_def row(3,7) l(1,4))
  moreover have "payable_link e' (pl_slug link) d1 \<noteq> Inl x" for x using assms(4) by (auto simp: publicPay_def)
  then have "is_ok (publicCheckout e' (pl_slug link) d1)" unfolding shown_iff_payable by (cases "payable_link e' (pl_slug link) d1") auto
  then have "\<exists>v. publicCheckout e' (pl_slug link) d1 = Inr v \<and> cv_amount v = n"
    using l(1) by (auto simp: publicCheckout_def the_link_find [OF tl] is_ok_iff split: if_splits)
  ultimately show ?thesis using row l link_cents [OF n] by auto
qed

definition demo_link_body :: payment_link_body where
  "demo_link_body = \<lparr>lb_amount = 120000, lb_currency = None, lb_reference = ''ref'', lb_provider = VPS, lb_expiresAt = None, lb_maxAttempts = None,
     lb_isRecurring = None, lb_billingInterval = None, lb_intervalValue = None, lb_maxRetries = None, lb_isInstallment = None\<rparr>"

definition demo_created :: payment_link where
  "demo_created = demo_link\<lparr>pl_id := gen demo_env 0, pl_slug := gen demo_env 1, pl_maxAttempts := 1, pl_intervalValue := Some 1, pl_isInstallment := False\<rparr>"

lemma demo_create_link:
  "createPaymentLink demo_env ''t1'' demo_link_body (demo_link_db\<lparr>paymentLinks := []\<rparr>) =
     (Inr demo_created, demo_link_db\<lparr>seq := 2, paymentLinks := [demo_created]\<rparr>)"
proof -
  have "toMinor (fromMinor 120000 MAD) MAD = 120000" by (rule toMinor_of_fromMinor) simp
  moreover have "Math_round 120000 = 120000" using Math_round_of_int [of 120000] by simp
  ultimately show ?thesis
    by (simp add: createPaymentLink_def createPaymentLinkSchema_def demo_link_body_def coalesce_def link_row_def centimes_def centimesToMad_def
        demo_link_db_def demo_intent_db_def empty_db_def demo_created_def demo_link_def)
qed

lemma demo_pay_full:
  "\<exists>iid params d'. publicPay (\<lambda>a b. 1) (Some (\<lambda>t n k. (ALLOW, 0, []))) demo_create_session demo_env (gen demo_env 1)
     \<lparr>pb_installmentPlanId = None, pb_downPaymentAmount = None\<rparr> (demo_link_db\<lparr>seq := 2, paymentLinks := [demo_created]\<rparr>) = (Inr (iid, None, params), d')"
  by (simp add: publicPay_def payable_link_def demo_link_db_def demo_intent_db_def empty_db_def bump_attempts_def bumpable_def demo_created_def
      demo_link_def paySchema_def tenant_config_def demo_create_session_def pay_in_full_def scoreRisk_def create_intent_row_def Let_def)

theorem link_charges_request_witness:
  "\<exists>iid params d'. publicPay (\<lambda>a b. 1) (Some (\<lambda>t n k. (ALLOW, 0, []))) demo_create_session demo_env (gen demo_env 1)
     \<lparr>pb_installmentPlanId = None, pb_downPaymentAmount = None\<rparr> (snd (createPaymentLink demo_env ''t1'' demo_link_body (demo_link_db\<lparr>paymentLinks := []\<rparr>))) =
       (Inr (iid, None, params), d') \<and> cp_amount params = 120000"
proof -
  obtain iid params d' where run: "publicPay (\<lambda>a b. 1) (Some (\<lambda>t n k. (ALLOW, 0, []))) demo_create_session demo_env (pl_slug demo_created)
     \<lparr>pb_installmentPlanId = None, pb_downPaymentAmount = None\<rparr> (demo_link_db\<lparr>seq := 2, paymentLinks := [demo_created]\<rparr>) = (Inr (iid, None, params), d')"
    using demo_pay_full by (auto simp: demo_created_def)
  have "lb_amount demo_link_body = of_int 120000" by (simp add: demo_link_body_def)
  moreover have "\<forall>l\<in>set (paymentLinks (demo_link_db\<lparr>paymentLinks := []\<rparr>)). pl_slug l \<noteq> pl_slug demo_created \<and> pl_id l \<noteq> pl_id demo_created" by simp
  moreover have "\<forall>x\<in>set (paymentIntents (demo_link_db\<lparr>paymentLinks := []\<rparr>)). in_id x \<noteq> fresh demo_env (demo_link_db\<lparr>seq := 2, paymentLinks := [demo_created]\<rparr>)"
    by (simp add: demo_link_db_def)
  ultimately have "cp_amount params = 120000" using link_charges_request [OF demo_create_link _ _ run, of 120000] by simp
  with run show ?thesis by (auto simp: demo_create_link demo_created_def)
qed

section \<open>Further lemmas\<close>

text \<open>A cancelled link can be neither paid nor cancelled again.\<close>

lemma cancelled_link:
  assumes "cancelPaymentLink t u (pl_id l) d = (Inr x, d')" "the_link d s l"
  shows "publicPay pow scorer cs e s body d' = (Inl err, d'') \<Longrightarrow> err \<in> {AppError 403 ''TENANT_DISABLED'', AppError 410 ''LINK_INACTIVE''} \<and> d'' = d'"
    and "\<not> is_ok (fst (publicPay pow scorer cs e s body d'))"
    and "cancelPaymentLink t u (pl_id l) d' = (Inl (AppError 400 ''LINK_NOT_ACTIVE''), d')"
proof -
  let ?f = "\<lambda>l. l\<lparr>pl_status := LINK_CANCELED\<rparr>"
  obtain k where k: "find (\<lambda>k. pl_id k = pl_id l \<and> pl_tenantId k = t) (paymentLinks d) = Some k"
    using assms(1) by (auto simp: cancelPaymentLink_def split: option.splits)
  have l: "k = l" using find_SomeD [OF k] assms(2) by (auto simp: the_link_def)
  have rows: "paymentLinks d' = map (\<lambda>k. if pl_id k = pl_id l then ?f k else k) (paymentLinks d)"
    using assms(1) by (auto simp: cancelPaymentLink_def k l audit_def split: if_splits)
  have own: "find (\<lambda>k. pl_id k = pl_id l \<and> pl_tenantId k = t) (paymentLinks d') = Some (?f l)"
    unfolding rows using k l by (subst find_cong_update) auto
  then show "cancelPaymentLink t u (pl_id l) d' = (Inl (AppError 400 ''LINK_NOT_ACTIVE''), d')" by (simp add: cancelPaymentLink_def)
  have "find (\<lambda>k. pl_slug k = s) (paymentLinks d') = Some (?f l)"
    unfolding rows using the_link_find [OF assms(2)] by (subst find_cong_update) auto
  then have "payable_link e s d' \<in> {Inl (AppError 403 ''TENANT_DISABLED''), Inl (AppError 410 ''LINK_INACTIVE'')}" by (simp add: payable_link_def)
  then show "publicPay pow scorer cs e s body d' = (Inl err, d'') \<Longrightarrow> err \<in> {AppError 403 ''TENANT_DISABLED'', AppError 410 ''LINK_INACTIVE''} \<and> d'' = d'"
    "\<not> is_ok (fst (publicPay pow scorer cs e s body d'))"
    by (auto simp: publicPay_def)
qed

text \<open>The schema admits fractions of a centime; less than half a centime makes a link for nothing.\<close>

lemma fraction_of_centime:
  assumes "createPaymentLinkSchema raw = Inr b" "lb_amount raw = 2 / 5"
  shows "pl_amount (link_row e t b d) = 0"
proof -
  have b: "lb_amount b = 2 / 5" using assms by (auto simp: createPaymentLinkSchema_def Let_def split: if_splits)
  have "toMinor (fromMinor 0 MAD) MAD = 0" by (rule toMinor_of_fromMinor) simp
  moreover have "Math_round (lb_amount b) = 0" unfolding b by (simp add: Math_round_def floor_eq_iff)
  ultimately show ?thesis by (simp add: link_row_def centimes_def centimesToMad_def)
qed

interpretation create_link_request: ledger_neutral "\<lambda>d. snd (createPaymentLink e t raw d)" for e t raw
  by unfold_locales (auto simp: createPaymentLink_def sbind_def split: sum.splits option.splits)

interpretation cancel_link_request: ledger_neutral "\<lambda>d. snd (cancelPaymentLink t u i d)" for t u i
  by unfold_locales (auto simp: cancelPaymentLink_def audit_def split: option.splits)

end
