(* ===== verification/Relay.thy ===== *)
theory Relay
  imports Checkout
begin

text \<open>
  The hosted relay of \<open>src/routes/paymentIntents.ts\<close>: \<open>escapeHtml\<close>, \<open>renderPaywallHtml\<close>, \<open>resolveBrowserRedirect\<close> and
  \<open>GET /public/pay/:correlationId\<close>. A page is the values written into its attributes; the fixed markup around them is left out. The
  stored fields are strings, as the adapters write them.
\<close>

section \<open>Definitions\<close>

definition replaceAll :: "char \<Rightarrow> string \<Rightarrow> string \<Rightarrow> string" where
  "replaceAll c t s = concat (map (\<lambda>x. if x = c then t else [x]) s)"

text \<open>The characters 0x22 and 0x27 are the double and the single quote.\<close>

definition escapeHtml :: "string \<Rightarrow> string" where
  "escapeHtml value =
     replaceAll (CHR 0x27) ''&#39;'' (replaceAll (CHR 0x22) ''&quot;'' (replaceAll (CHR ''>'') ''&gt;''
       (replaceAll (CHR ''<'') ''&lt;'' (replaceAll (CHR ''&'') ''&amp;'' value))))"

datatype page =
    PaywallForm (form_action: string) (form_payload: string) (form_signature: string) (form_mode: string)
  | RedirectPage (refresh_url: string)
  | Unavailable

definition page_field :: "json option \<Rightarrow> string \<Rightarrow> string option" where
  "page_field pd k = Option.bind pd (\<lambda>j. truthy_string (json_field j k))"

definition renderPaywallHtml :: "json option \<Rightarrow> page" where
  "renderPaywallHtml pd =
     (let mode = coalesce (Option.bind pd (\<lambda>j. json_string (json_field j ''mode''))) ''DEEP_LINK''
      in case (page_field pd ''paywallUrl'', page_field pd ''payload'', page_field pd ''signature'') of
           (Some paywallUrl, Some payload, Some signature) \<Rightarrow>
             PaywallForm (escapeHtml paywallUrl) (escapeHtml payload) (escapeHtml signature) (escapeHtml mode)
         | _ \<Rightarrow> (case page_field pd ''redirectUrl'' of
             Some redirectUrl \<Rightarrow> RedirectPage (escapeHtml redirectUrl)
           | None \<Rightarrow> Unavailable))"

definition resolveBrowserRedirect :: "string \<Rightarrow> json option \<Rightarrow> string \<Rightarrow> string \<Rightarrow> string" where
  "resolveBrowserRedirect redirectUrl providerData apiBase correlationId =
     (if page_field providerData ''paywallUrl'' \<noteq> None \<and> page_field providerData ''payload'' \<noteq> None \<and> page_field providerData ''signature'' \<noteq> None
      then apiBase @ ''/public/pay/'' @ correlationId else redirectUrl)"

definition relay_keys :: "string list" where
  "relay_keys = [''paywallUrl'', ''payload'', ''signature'', ''mode'', ''chargeId'', ''redirectUrl'']"

text \<open>The object of the six fields; a field that is undefined does not appear in the answer.\<close>

definition safe_provider_data :: "json option \<Rightarrow> json option" where
  "safe_provider_data providerData =
     (case providerData of
        Some (JObj fs) \<Rightarrow> Some (JObj (List.map_filter (\<lambda>k. map_option (Pair k) (map_of fs k)) relay_keys))
      | Some (JArr xs) \<Rightarrow> Some (JObj [])
      | _ \<Rightarrow> None)"

datatype relay_answer = HtmlAnswer page | JsonAnswer payment_intent_status "json option"

definition publicRelay :: "bool \<Rightarrow> string \<Rightarrow> db \<Rightarrow> relay_answer result" where
  "publicRelay wantsHtml correlationId d =
     (case find (\<lambda>r. in_correlationId r = correlationId) (paymentIntents d) of
        None \<Rightarrow> Inl (AppError 404 ''INTENT_NOT_FOUND'')
      | Some intent \<Rightarrow>
          if in_status intent \<in> {INTENT_SUCCEEDED, INTENT_FAILED, INTENT_CANCELED, INTENT_REFUNDED}
          then Inr (if wantsHtml then HtmlAnswer (renderPaywallHtml None) else JsonAnswer (in_status intent) None)
          else Inr (if wantsHtml then HtmlAnswer (renderPaywallHtml (safe_provider_data (in_providerData intent)))
                    else JsonAnswer (in_status intent) (safe_provider_data (in_providerData intent))))"

section \<open>Escaping\<close>

text \<open>What a browser makes of the text of an attribute, for the entities above.\<close>

definition entities :: "(string \<times> char) list" where
  "entities = [(''&amp;'', CHR ''&''), (''&lt;'', CHR ''<''), (''&gt;'', CHR ''>''), (''&quot;'', CHR 0x22), (''&#39;'', CHR 0x27)]"

function decodeHtml :: "string \<Rightarrow> string" where
  "decodeHtml [] = []"
| "decodeHtml (c # cs) =
     (case find (\<lambda>(ent, x). prefix ent (c # cs)) entities of
        Some (ent, x) \<Rightarrow> x # decodeHtml (drop (length ent - 1) cs)
      | None \<Rightarrow> c # decodeHtml cs)"
  by pat_completeness auto
termination by (relation "measure length") (auto simp: less_Suc_eq_le)

text \<open>Escaping in one pass, character by character.\<close>

definition esc :: "char \<Rightarrow> string" where
  "esc c = (case find (\<lambda>(ent, x). x = c) entities of Some (ent, x) \<Rightarrow> ent | None \<Rightarrow> [c])"

lemma replaceAll_append [simp]: "replaceAll c t (xs @ ys) = replaceAll c t xs @ replaceAll c t ys"
  by (simp add: replaceAll_def)

lemma replaceAll_Nil [simp]: "replaceAll c t [] = []"
  by (simp add: replaceAll_def)

lemma escapeHtml_append: "escapeHtml (xs @ ys) = escapeHtml xs @ escapeHtml ys"
  by (simp add: escapeHtml_def)

lemma escapeHtml_char: "escapeHtml [c] = esc c"
  by (auto simp: escapeHtml_def replaceAll_def esc_def entities_def)

lemma escapeHtml_esc: "escapeHtml s = concat (map esc s)"
proof (induction s)
  case (Cons c s)
  then show ?case using escapeHtml_append [of "[c]" s] by (simp add: escapeHtml_char)
qed (simp add: escapeHtml_def)

lemma decode_esc: "decodeHtml (esc c @ rest) = c # decodeHtml rest"
proof (cases "find (\<lambda>(ent, x). x = c) entities")
  case None
  then have "c \<noteq> CHR ''&''" by (auto simp: entities_def)
  then have "find (\<lambda>(ent, x). prefix ent (c # rest)) entities = None" by (auto simp: entities_def)
  with None show ?thesis by (simp add: esc_def)
next
  case (Some p)
  then have "c \<in> {CHR ''&'', CHR ''<'', CHR ''>'', CHR 0x22, CHR 0x27}" by (auto simp: entities_def split: if_splits)
  then show ?thesis by (auto simp: esc_def entities_def)
qed

lemma escapeHtml_decodes: "decodeHtml (escapeHtml s) = s"
  unfolding escapeHtml_esc by (induction s) (simp_all add: decode_esc)

lemma esc_chars: "set (esc c) \<inter> {CHR ''<'', CHR ''>'', CHR 0x22, CHR 0x27} = {}"
  by (auto simp: esc_def entities_def split: if_splits)

lemma escapeHtml_chars: "set (escapeHtml s) \<inter> {CHR ''<'', CHR ''>'', CHR 0x22, CHR 0x27} = {}"
  unfolding escapeHtml_esc using esc_chars by auto

section \<open>What the relay shows\<close>

lemma safe_field:
  assumes "truthy_string (json_field j k) = Some s" "safe_provider_data pd = Some j"
  shows "\<exists>fs. pd = Some (JObj fs) \<and> k \<in> set relay_keys \<and> map_of fs k = Some (JStr s)"
proof -
  let ?safe = "\<lambda>fs. List.map_filter (\<lambda>k. map_option (Pair k) (map_of fs k)) relay_keys"
  have j: "json_field j k = Some (JStr s)" using assms(1) by (auto simp: truthy_string_def split: option.splits json.splits if_splits)
  show ?thesis
  proof (cases "\<exists>fs. pd = Some (JObj fs)")
    case True
    then obtain fs where fs: "pd = Some (JObj fs)" by blast
    with assms(2) have "j = JObj (?safe fs)" by (simp add: safe_provider_data_def)
    with j have "map_of (?safe fs) k = Some (JStr s)" by (auto simp: json_field_def split: option.splits json.splits)
    then have "(k, JStr s) \<in> set (?safe fs)" by (rule map_of_SomeD)
    then have "k \<in> set relay_keys" "map_of fs k = Some (JStr s)" by (auto simp: List.map_filter_def)
    with fs show ?thesis by blast
  next
    case False
    then have "j = JObj []" using assms(2) by (auto simp: safe_provider_data_def split: option.splits json.splits)
    with j show ?thesis by (simp add: json_field_def)
  qed
qed

lemma paywall_form:
  assumes "renderPaywallHtml pd = PaywallForm a p s m"
  obtains j url payload signature where "pd = Some j" "truthy_string (json_field j ''paywallUrl'') = Some url"
    "truthy_string (json_field j ''payload'') = Some payload" "truthy_string (json_field j ''signature'') = Some signature"
    "a = escapeHtml url" "p = escapeHtml payload" "s = escapeHtml signature" "\<exists>x. m = escapeHtml x"
proof (cases pd)
  case (Some j)
  with assms have "\<exists>url payload signature x. truthy_string (json_field j ''paywallUrl'') = Some url \<and>
      truthy_string (json_field j ''payload'') = Some payload \<and> truthy_string (json_field j ''signature'') = Some signature \<and>
      a = escapeHtml url \<and> p = escapeHtml payload \<and> s = escapeHtml signature \<and> m = escapeHtml x"
    by (auto simp: renderPaywallHtml_def page_field_def Let_def split: option.splits)
  with that [OF Some] show ?thesis by blast
qed (use assms in \<open>simp add: renderPaywallHtml_def page_field_def Let_def\<close>)

text \<open>The JSON answer holds the six fields and nothing else of what is stored, and nothing once the payment is over.\<close>

lemma relay_discloses:
  assumes "publicRelay False c d = Inr (JsonAnswer st data)"
  shows "st \<in> {INTENT_SUCCEEDED, INTENT_FAILED, INTENT_CANCELED, INTENT_REFUNDED} \<Longrightarrow> data = None"
    and "data = Some j \<Longrightarrow> \<exists>fs. j = JObj fs \<and> fst ` set fs \<subseteq> set relay_keys"
proof -
  obtain r where "find (\<lambda>r. in_correlationId r = c) (paymentIntents d) = Some r"
    using assms by (auto simp: publicRelay_def split: option.splits)
  with assms have r: "st = in_status r"
    "data = (if st \<in> {INTENT_SUCCEEDED, INTENT_FAILED, INTENT_CANCELED, INTENT_REFUNDED} then None else safe_provider_data (in_providerData r))"
    by (auto simp: publicRelay_def split: if_splits)
  then show "st \<in> {INTENT_SUCCEEDED, INTENT_FAILED, INTENT_CANCELED, INTENT_REFUNDED} \<Longrightarrow> data = None" by simp
  show "\<exists>fs. j = JObj fs \<and> fst ` set fs \<subseteq> set relay_keys" if "data = Some j"
    using that r(2) by (auto simp: safe_provider_data_def List.map_filter_def split: option.splits json.splits if_splits)
qed

section \<open>Property\<close>

text \<open>
  C24. The relay page posts what was stored, and nothing can break out of its attributes. Whatever the provider's data are, no value
  written into the form contains an angle bracket or a quote, and the browser decodes it to exactly the stored paywall URL, payload and
  signature. The form is served only while the payment is not over.
\<close>

theorem relay_posts_stored:
  assumes "publicRelay wantsHtml c d = Inr (HtmlAnswer (PaywallForm a p s m))"
  shows "(\<forall>v\<in>{a, p, s, m}. set v \<inter> {CHR ''<'', CHR ''>'', CHR 0x22, CHR 0x27} = {}) \<and>
    (\<exists>r fs. r \<in> set (paymentIntents d) \<and> in_correlationId r = c \<and> in_status r \<notin> {INTENT_SUCCEEDED, INTENT_FAILED, INTENT_CANCELED, INTENT_REFUNDED} \<and>
      in_providerData r = Some (JObj fs) \<and> map_of fs ''paywallUrl'' = Some (JStr (decodeHtml a)) \<and>
      map_of fs ''payload'' = Some (JStr (decodeHtml p)) \<and> map_of fs ''signature'' = Some (JStr (decodeHtml s)))"
proof -
  have none: "renderPaywallHtml None = Unavailable" by (simp add: renderPaywallHtml_def page_field_def Let_def)
  obtain r where r: "find (\<lambda>r. in_correlationId r = c) (paymentIntents d) = Some r"
    "in_status r \<notin> {INTENT_SUCCEEDED, INTENT_FAILED, INTENT_CANCELED, INTENT_REFUNDED}"
    "renderPaywallHtml (safe_provider_data (in_providerData r)) = PaywallForm a p s m"
    using assms none by (auto simp: publicRelay_def split: option.splits if_splits)
  obtain j url payload signature where f: "safe_provider_data (in_providerData r) = Some j" "truthy_string (json_field j ''paywallUrl'') = Some url"
    "truthy_string (json_field j ''payload'') = Some payload" "truthy_string (json_field j ''signature'') = Some signature"
    "a = escapeHtml url" "p = escapeHtml payload" "s = escapeHtml signature" "\<exists>x. m = escapeHtml x"
    by (rule paywall_form [OF r(3)])
  obtain fs where "in_providerData r = Some (JObj fs)" "map_of fs ''paywallUrl'' = Some (JStr url)" using safe_field [OF f(2,1)] by blast
  moreover from this safe_field [OF f(3,1)] safe_field [OF f(4,1)]
  have "map_of fs ''payload'' = Some (JStr payload)" "map_of fs ''signature'' = Some (JStr signature)" by simp_all
  ultimately show ?thesis using find_SomeD [OF r(1)] r(2) f(5-8) escapeHtml_chars escapeHtml_decodes by auto
qed

theorem relay_posts_stored_witness:
  "\<exists>a p s m. publicRelay True ''corr'' (demo_intent_db\<lparr>paymentIntents := [demo_intent\<lparr>in_correlationId := ''corr'',
       in_providerData := Some (JObj [(''paywallUrl'', JStr ''https://x''), (''payload'', JStr ''<&>''), (''signature'', JStr ''s'')])\<rparr>]\<rparr>) =
         Inr (HtmlAnswer (PaywallForm a p s m)) \<and> p = ''&lt;&amp;&gt;'' \<and> decodeHtml p = ''<&>'' \<and> CHR 0x22 \<notin> set a"
proof -
  let ?fs = "[(''paywallUrl'', JStr ''https://x''), (''payload'', JStr ''<&>''), (''signature'', JStr ''s'')]"
  let ?d = "demo_intent_db\<lparr>paymentIntents := [demo_intent\<lparr>in_correlationId := ''corr'', in_providerData := Some (JObj ?fs)\<rparr>]\<rparr>"
  have p: "escapeHtml ''<&>'' = ''&lt;&amp;&gt;''" by code_simp
  have run: "publicRelay True ''corr'' ?d =
      Inr (HtmlAnswer (PaywallForm (escapeHtml ''https://x'') (escapeHtml ''<&>'') (escapeHtml ''s'') (escapeHtml ''DEEP_LINK'')))"
    by (simp add: publicRelay_def demo_intent_def safe_provider_data_def relay_keys_def List.map_filter_def renderPaywallHtml_def page_field_def
        truthy_string_def json_field_def json_string_def coalesce_def)
  from relay_posts_stored [OF run] have "decodeHtml (escapeHtml ''<&>'') = ''<&>''" "CHR 0x22 \<notin> set (escapeHtml ''https://x'')" by auto
  with run p show ?thesis by auto
qed

end
