(* ===== verification/PayoutRoute.thy ===== *)
theory PayoutRoute
  imports RefundRoute
begin

text \<open>
  \<open>src/routes/payouts.ts\<close>, the manual execution of \<open>src/routes/admin.ts\<close>, and \<open>createPayout\<close> of the provider
  adapters: the requests that turn the payouts of theory Payout into money sent. The state is the database together with the
  transfers the provider has been asked for and has accepted. A request is not a transaction: the provider is asked before the
  settlement is booked, and \<open>race\<close> stands for what other requests write while the provider answers.
\<close>

section \<open>The disbursement of the adapters\<close>

record create_payout_params =
  pm_amount :: centimes
  pm_currency :: currency
  pm_reference :: string
  pm_method :: payout_method

record payout_result =
  py_success :: bool
  py_providerTransferId :: "string option"

record transfer_request =
  tq_amount :: centimes
  tq_currency :: string
  tq_destination :: string
  tq_transfer_group :: string

text \<open>
  \<open>stripe.transfers.create\<close> is the provider's: \<open>transfersCreate\<close> maps the transfers made so far and the request to the new
  transfer's id, or to an error, in which case nothing was sent.
\<close>

type_synonym disbursement = "create_payout_params \<Rightarrow> transfer_request list \<Rightarrow> payout_result result \<times> transfer_request list"

definition transfer_of :: "string \<Rightarrow> create_payout_params \<Rightarrow> transfer_request" where
  "transfer_of destination params =
     \<lparr>tq_amount = pm_amount params, tq_currency = toLowerCase (currency_code (pm_currency params)),
      tq_destination = destination, tq_transfer_group = pm_reference params\<rparr>"

definition stripe_createPayout ::
  "(transfer_request list \<Rightarrow> transfer_request \<Rightarrow> string result) \<Rightarrow> string option \<Rightarrow> disbursement" where
  "stripe_createPayout transfersCreate connectedAccountId params sent =
     (let destination = coalesce connectedAccountId ''''
      in if destination = '''' then (Inl (JsError ''STRIPE payouts require a Stripe Connect account id (connectedAccountId)''), sent)
         else let request = transfer_of destination params
              in case transfersCreate sent request of
                   Inl x \<Rightarrow> (Inl x, sent)
                 | Inr i \<Rightarrow> (Inr \<lparr>py_success = True, py_providerTransferId = Some i\<rparr>, sent @ [request]))"

definition naps_createPayout :: disbursement where
  "naps_createPayout params sent = (Inl (JsError ''NAPS payouts are not yet implemented''), sent)"

definition vps_createPayout :: disbursement where
  "vps_createPayout params sent = (Inl (JsError ''VPS has no disbursement API -- payout is manual (Morocco)''), sent)"

definition fake_createPayout :: disbursement where
  "fake_createPayout params sent =
     (Inr \<lparr>py_success = True, py_providerTransferId = Some (''fake-payout-'' @ pm_reference params)\<rparr>, sent)"

text \<open>
  \<open>getAdapter\<close>, for this operation. \<open>credentials\<close> decrypts the stored credentials and builds the provider's client; of them
  only the connected account is used here.
\<close>

definition payout_adapter ::
  "bool \<Rightarrow> (string \<Rightarrow> string option result) \<Rightarrow> (transfer_request list \<Rightarrow> transfer_request \<Rightarrow> string result)
    \<Rightarrow> provider \<Rightarrow> string \<Rightarrow> disbursement result" where
  "payout_adapter demoMode credentials transfersCreate p encryptedCredentials =
     (if demoMode then Inr fake_createPayout
      else ebind (credentials encryptedCredentials) (\<lambda>connectedAccountId.
        case p of
          NAPS \<Rightarrow> Inr naps_createPayout
        | VPS \<Rightarrow> Inr vps_createPayout
        | STRIPE \<Rightarrow> Inr (stripe_createPayout transfersCreate connectedAccountId)
        | PAYPAL \<Rightarrow> Inl (JsError ''Provider PAYPAL is not yet implemented'')
        | ADYEN \<Rightarrow> Inl (JsError ''Provider ADYEN is not yet implemented'')))"

section \<open>The requests\<close>

record payout_view =
  pv_id :: string
  pv_status :: payout_status
  pv_provider :: provider
  pv_method :: payout_method
  pv_currency :: currency
  pv_amountCents :: centimes
  pv_providerTransferId :: "string option"
  pv_idempotencyKey :: string
  pv_items :: "(string \<times> string \<times> centimes) list"

text \<open>\<open>madToCentimes\<close> of the stored decimal, whatever its currency.\<close>

definition payout_cents :: "payout \<Rightarrow> centimes" where
  "payout_cents p = madToCentimes (fromMinor (po_amount p) (po_currency p))"

definition payout_toResponse :: "payout \<times> payout_item list \<Rightarrow> payout_view" where
  "payout_toResponse = (\<lambda>(payout, items).
     \<lparr>pv_id = po_id payout, pv_status = po_status payout, pv_provider = po_provider payout, pv_method = po_method payout,
      pv_currency = po_currency payout, pv_amountCents = payout_cents payout,
      pv_providerTransferId = po_providerTransferId payout, pv_idempotencyKey = po_idempotencyKey payout,
      pv_items = map (\<lambda>i. (pi_id i, pi_ledgerEntryId i, madToCentimes (fromMinor (pi_amount i) (po_currency payout)))) items\<rparr>)"

definition payout_answer :: "string \<Rightarrow> string \<Rightarrow> db \<Rightarrow> payout_view result" where
  "payout_answer tenantId i d =
     (case getPayout d tenantId i of None \<Rightarrow> Inl (JsError ''TypeError'') | Some row \<Rightarrow> Inr (payout_toResponse row))"

definition createPayoutRequest ::
  "fx_provider \<Rightarrow> env \<Rightarrow> string \<Rightarrow> string \<Rightarrow> provider \<Rightarrow> payout_method option \<Rightarrow> payout_view job_step" where
  "createPayoutRequest fxp e tenantId idempotencyKey p method d =
     (if idempotencyKey = '''' \<or> 200 < length idempotencyKey then (Inl (AppError 422 ''VALIDATION_ERROR''), d)
      else case createPayout fxp e tenantId idempotencyKey p method d of
             Inl x \<Rightarrow> (Inl x, d)
           | Inr (row, d1) \<Rightarrow> (Inr (payout_toResponse row), d1))"

definition getPayoutRequest :: "string \<Rightarrow> string \<Rightarrow> db \<Rightarrow> payout_view result" where
  "getPayoutRequest tenantId i d =
     (case getPayout d tenantId i of
        None \<Rightarrow> Inl (AppError 404 ''PAYOUT_NOT_FOUND'')
      | Some row \<Rightarrow> Inr (payout_toResponse row))"

definition cancelPayoutRequest :: "string \<Rightarrow> string \<Rightarrow> payout_view job_step" where
  "cancelPayoutRequest tenantId i d =
     (case cancelPayout tenantId i d of
        Inl x \<Rightarrow> (Inl x, d)
      | Inr d1 \<Rightarrow> (payout_answer tenantId i d1, d1))"

definition settlePayout :: "env \<Rightarrow> string \<Rightarrow> string \<Rightarrow> string option \<Rightarrow> db \<Rightarrow> db result" where
  "settlePayout e tenantId i providerTransferId d =
     (case markPayoutPaid e tenantId i providerTransferId d of
        Inl (PayoutError m) \<Rightarrow> Inl (AppError 409 ''PAYOUT_CONFLICT'')
      | r \<Rightarrow> r)"

definition payout_rail_of :: "db \<Rightarrow> string \<Rightarrow> payout_rail" where
  "payout_rail_of d tenantId = coalesce (map_option payoutRail (getActiveSettlementPolicy d tenantId)) RAIL_MANUAL"

definition payout_params :: "payout \<Rightarrow> create_payout_params" where
  "payout_params p =
     \<lparr>pm_amount = payout_cents p, pm_currency = po_currency p, pm_reference = po_idempotencyKey p, pm_method = po_method p\<rparr>"

text \<open>The settlement, its audit row and the answer, which both rails end with.\<close>

definition settle_and_answer :: "env \<Rightarrow> string \<Rightarrow> string \<Rightarrow> string \<Rightarrow> string option \<Rightarrow> payout_view job_step" where
  "settle_and_answer e tenantId userId i providerTransferId d =
     (case settlePayout e tenantId i providerTransferId d of
        Inl x \<Rightarrow> (Inl x, d)
      | Inr d1 \<Rightarrow>
          let d2 = audit tenantId userId ''PAYOUT_MARKED_PAID'' ''Payout'' i d1 in (payout_answer tenantId i d2, d2))"

definition process_manual :: "env \<Rightarrow> string \<Rightarrow> string \<Rightarrow> payout \<Rightarrow> string option \<Rightarrow> payout_view job_step" where
  "process_manual e tenantId userId payout body d =
     (if (case body of Some x \<Rightarrow> 200 < length x | None \<Rightarrow> False) then (Inl (AppError 422 ''VALIDATION_ERROR''), d)
      else settle_and_answer e tenantId userId (po_id payout) body d)"

definition process_connect ::
  "(provider \<Rightarrow> string \<Rightarrow> disbursement result) \<Rightarrow> (db \<Rightarrow> db) \<Rightarrow> env \<Rightarrow> string \<Rightarrow> string \<Rightarrow> payout
    \<Rightarrow> db \<times> transfer_request list \<Rightarrow> payout_view result \<times> db \<times> transfer_request list" where
  "process_connect getAdapter race e tenantId userId payout = (\<lambda>(d, sent).
     case tenant_config tenantId (po_provider payout) d of
       None \<Rightarrow> (Inl (AppError 400 ''PROVIDER_NOT_CONFIGURED''), d, sent)
     | Some config \<Rightarrow>
         (case getAdapter (po_provider payout) (pc_encryptedCredentials config) of
            Inl x \<Rightarrow> (Inl x, d, sent)
          | Inr ad_createPayout \<Rightarrow>
              (case ad_createPayout (payout_params payout) sent of
                 (Inl x, sent1) \<Rightarrow> (Inl x, race d, sent1)
               | (Inr r, sent1) \<Rightarrow>
                   if \<not> py_success r then
                     (case markPayoutFailed tenantId (po_id payout) (race d) of
                        Inl x \<Rightarrow> (Inl x, race d, sent1)
                      | Inr d1 \<Rightarrow> (Inl (AppError 502 ''PAYOUT_FAILED''), d1, sent1))
                   else let (answer, d1) = settle_and_answer e tenantId userId (po_id payout) (py_providerTransferId r) (race d)
                        in (answer, d1, sent1))))"

definition processPayout ::
  "(provider \<Rightarrow> string \<Rightarrow> disbursement result) \<Rightarrow> (db \<Rightarrow> db) \<Rightarrow> env \<Rightarrow> string \<Rightarrow> string \<Rightarrow> string \<Rightarrow> string option
    \<Rightarrow> db \<times> transfer_request list \<Rightarrow> payout_view result \<times> db \<times> transfer_request list" where
  "processPayout getAdapter race e tenantId userId i body = (\<lambda>(d, sent).
     case getPayout d tenantId i of
       None \<Rightarrow> (Inl (AppError 404 ''PAYOUT_NOT_FOUND''), d, sent)
     | Some (payout, _) \<Rightarrow>
         (case payout_rail_of d tenantId of
            RAIL_MANUAL \<Rightarrow> let (answer, d1) = process_manual e tenantId userId payout body d in (answer, d1, sent)
          | STRIPE_CONNECT \<Rightarrow> process_connect getAdapter race e tenantId userId payout (d, sent)))"

text \<open>The manual execution by an administrator, for any tenant; \<open>findUnique\<close> reads by id alone.\<close>

definition executePayout :: "env \<Rightarrow> string \<Rightarrow> string \<Rightarrow> string \<Rightarrow> payout job_step" where
  "executePayout e userId i externalReference d =
     (if externalReference = '''' \<or> 200 < length externalReference then (Inl (AppError 422 ''VALIDATION_ERROR''), d)
      else case find (\<lambda>p. po_id p = i) (payouts d) of
        None \<Rightarrow> (Inl (AppError 404 ''PAYOUT_NOT_FOUND''), d)
      | Some payout \<Rightarrow>
          if po_status payout = PAYOUT_PAID then (Inl (AppError 409 ''PAYOUT_ALREADY_PAID''), d)
          else (case markPayoutPaid e (po_tenantId payout) (po_id payout) (Some externalReference) d of
            Inl x \<Rightarrow> (Inl x, d)
          | Inr d1 \<Rightarrow>
              (Inr (payout\<lparr>po_status := PAYOUT_PAID, po_providerTransferId := Some externalReference\<rparr>),
               audit (po_tenantId payout) userId ''PAYOUT_MARKED_PAID'' ''Payout'' (po_id payout) d1)))"

section \<open>Lemmas\<close>

definition settleable :: "string \<Rightarrow> payout \<Rightarrow> db \<Rightarrow> bool" where
  "settleable t p d \<longleftrightarrow> po_status p \<notin> set payout_TERMINAL \<and> po_amount p \<le> accountBalanceCents d t AVAILABLE (po_currency p)"

lemma payout_cents_exact: "\<bar>po_amount p\<bar> \<le> 2 ^ 50 \<Longrightarrow> payout_cents p = po_amount p"
  using scale_round_trip [of "po_amount p" 100] by (simp add: payout_cents_def madToCentimes_def toMinor_def fromMinor_def' Number_def)

lemma getPayout_Some: "getPayout d t i = Some (p, items) \<longleftrightarrow>
    find (\<lambda>p. po_id p = i \<and> po_tenantId p = t) (payouts d) = Some p \<and> items = payout_items_of d i"
  by (auto simp: getPayout_def)

lemma getPayout_id: "getPayout d t i = Some (p, items) \<Longrightarrow> po_id p = i"
  using find_SomeD [of "\<lambda>p. po_id p = i \<and> po_tenantId p = t" "payouts d" p] by (simp add: getPayout_Some)

lemma audit_kept [simp]:
  "ledgerEntries (audit t u a ty i d) = ledgerEntries d" "payouts (audit t u a ty i d) = payouts d"
  "payoutItems (audit t u a ty i d) = payoutItems d"
  by (simp_all add: audit_def)

lemma settlePayout_ok [simp]: "settlePayout e t i x d = Inr d' \<longleftrightarrow> markPayoutPaid e t i x d = Inr d'"
  by (auto simp: settlePayout_def split: sum.splits exn.splits)

lemma settle_refused:
  "getPayout d t i = Some (p, items) \<Longrightarrow> \<not> settleable t p d \<Longrightarrow> settlePayout e t i x d = Inl (AppError 409 ''PAYOUT_CONFLICT'')"
  by (auto simp: getPayout_Some settlePayout_def markPayoutPaid_def settleable_def Let_def)

lemma paid_row:
  assumes "markPayoutPaid e t i x d = Inr d'"
  obtains p where "find (\<lambda>p. po_id p = i \<and> po_tenantId p = t) (payouts d') = Some p"
    "po_id p = i" "po_status p = PAYOUT_PAID" "po_providerTransferId p = x"
proof -
  from assms obtain p :: payout and d1 :: db
    where p: "find (\<lambda>p. po_id p = i \<and> po_tenantId p = t) (payouts d) = Some p" and "payouts d1 = payouts d"
    and d': "payouts d' = map (\<lambda>q. if po_id q = i then q\<lparr>po_status := PAYOUT_PAID, po_providerTransferId := x\<rparr> else q) (payouts d1)"
    by (auto simp: markPayoutPaid_def Let_def split: option.splits if_splits dest!: move_frame)
  with find_SomeD [OF p] have "find (\<lambda>p. po_id p = i \<and> po_tenantId p = t) (payouts d') =
      Some (p\<lparr>po_status := PAYOUT_PAID, po_providerTransferId := x\<rparr>)"
    by (simp add: find_cong_update)
  with find_SomeD [OF p] that show thesis by simp
qed

lemma settle_and_answer_cases:
  obtains (settled) d1 v where "markPayoutPaid e t i x d = Inr d1"
      "settle_and_answer e t u i x d = (Inr v, audit t u ''PAYOUT_MARKED_PAID'' ''Payout'' i d1)"
      "pv_id v = i" "pv_status v = PAYOUT_PAID" "pv_providerTransferId v = x"
  | (refused) err where "settle_and_answer e t u i x d = (Inl err, d)"
proof (cases "markPayoutPaid e t i x d")
  case (Inr d1)
  obtain p where "find (\<lambda>p. po_id p = i \<and> po_tenantId p = t) (payouts d1) = Some p"
    "po_id p = i" "po_status p = PAYOUT_PAID" "po_providerTransferId p = x" by (rule paid_row [OF Inr])
  with Inr show thesis
    by (intro settled [OF Inr]) (auto simp: settle_and_answer_def Let_def payout_answer_def getPayout_def payout_toResponse_def
        settlePayout_ok [THEN iffD2, OF Inr])
next
  case (Inl err)
  then have "settlePayout e t i x d \<noteq> Inr d'" for d' by simp
  then obtain err' where "settlePayout e t i x d = Inl err'" by (cases "settlePayout e t i x d") auto
  then show thesis by (intro refused) (simp add: settle_and_answer_def)
qed

lemma payout_adapter_cases:
  assumes "payout_adapter demo credentials transfersCreate pr enc = Inr ad" "ad params sent = (r, sent')"
  shows "sent' = sent \<and> (is_ok r \<longrightarrow> demo) \<or> (\<exists>acct. acct \<noteq> '''' \<and> credentials enc = Inr (Some acct) \<and> pr = STRIPE \<and> \<not> demo \<and> is_ok r \<and>
    sent' = sent @ [transfer_of acct params])"
  using assms
  by (cases pr) (auto simp: payout_adapter_def fake_createPayout_def naps_createPayout_def vps_createPayout_def stripe_createPayout_def
      Let_def coalesce_def split: if_splits sum.splits option.splits)

lemma process_manual_cases:
  obtains (settled) d1 v where "markPayoutPaid e t (po_id p) body d = Inr d1"
      "process_manual e t u p body d = (Inr v, audit t u ''PAYOUT_MARKED_PAID'' ''Payout'' (po_id p) d1)"
      "pv_id v = po_id p" "pv_status v = PAYOUT_PAID"
  | (refused) err where "process_manual e t u p body d = (Inl err, d)"
proof (cases "case body of Some x \<Rightarrow> 200 < length x | None \<Rightarrow> False")
  case True
  then show thesis by (intro refused) (simp add: process_manual_def)
next
  case False
  then have eq: "process_manual e t u p body d = settle_and_answer e t u (po_id p) body d" by (simp add: process_manual_def)
  show thesis
    by (rule settle_and_answer_cases [of e t "po_id p" body d u]) (use eq settled refused in auto)
qed

lemma markPayoutFailed_ledger: "markPayoutFailed t i d = Inr d' \<Longrightarrow> ledgerEntries d' = ledgerEntries d"
  by (auto simp: markPayoutFailed_def split: option.splits if_splits)

lemma process_connect_outcomes:
  assumes "process_connect (payout_adapter demo credentials transfersCreate) race e t u p (d, sent) = (r, d', sent')"
  shows "(case r of
       Inr v \<Rightarrow> \<exists>x d1. markPayoutPaid e t (po_id p) x (race d) = Inr d1 \<and> ledgerEntries d' = ledgerEntries d1 \<and>
         pv_id v = po_id p \<and> pv_status v = PAYOUT_PAID \<and> (demo \<or> sent' \<noteq> sent)
     | Inl err \<Rightarrow> ledgerEntries d' \<in> {ledgerEntries d, ledgerEntries (race d)}) \<and>
    (sent' = sent \<or> (\<exists>acct. sent' = sent @ [transfer_of acct (payout_params p)]))"
proof -
  consider (early) err where "r = Inl err" "d' = d" "sent' = sent"
    | (asked) enc ad r1 where "payout_adapter demo credentials transfersCreate (po_provider p) enc = Inr ad"
        "ad (payout_params p) sent = (r1, sent')"
        "(r, d') = (case r1 of Inl x \<Rightarrow> (Inl x, race d)
          | Inr a \<Rightarrow> if \<not> py_success a then (case markPayoutFailed t (po_id p) (race d) of
              Inl x \<Rightarrow> (Inl x, race d) | Inr d1 \<Rightarrow> (Inl (AppError 502 ''PAYOUT_FAILED''), d1))
            else settle_and_answer e t u (po_id p) (py_providerTransferId a) (race d))"
    using assms by (auto simp: process_connect_def split: option.splits sum.splits prod.splits if_splits)
  then show ?thesis
  proof cases
    case early
    then show ?thesis by simp
  next
    case asked
    note sent = payout_adapter_cases [OF asked(1,2)]
    show ?thesis
    proof (cases r1)
      case (Inl x)
      with asked(3) sent show ?thesis by auto
    next
      case (Inr a)
      show ?thesis
      proof (cases "py_success a")
        case True
        show ?thesis
          by (rule settle_and_answer_cases [of e t "po_id p" "py_providerTransferId a" "race d" u]) (use asked(3) sent Inr True in auto)
      next
        case False
        with asked(3) Inr sent show ?thesis by (auto split: sum.splits dest!: markPayoutFailed_ledger)
      qed
    qed
  qed
qed

section \<open>The ledger under these requests\<close>

lemma reaches_paid: "markPayoutPaid e t i x d = Inr d' \<Longrightarrow> reaches money_step d d'"
  by (rule reaches_step) (rule money_step.pay_payout)

lemma processPayout_reaches:
  "reaches money_step d (fst (snd (processPayout (payout_adapter demo credentials transfersCreate) (\<lambda>d. d) e t u i body (d, sent))))"
proof (cases "getPayout d t i")
  case None
  then show ?thesis by (simp add: processPayout_def reaches_other)
next
  case (Some row)
  obtain p items where row: "row = (p, items)" by (cases row)
  show ?thesis
  proof (cases "payout_rail_of d t")
    case RAIL_MANUAL
    show ?thesis
      by (rule process_manual_cases [of e t p body d u])
         (auto simp: processPayout_def Some row RAIL_MANUAL intro: reaches_other reaches_then [OF reaches_paid])
  next
    case STRIPE_CONNECT
    obtain r d' sent' where run: "process_connect (payout_adapter demo credentials transfersCreate) (\<lambda>d. d) e t u p (d, sent) = (r, d', sent')"
      by (rule prod_cases3)
    have "reaches money_step d d'"
      using process_connect_outcomes [OF run] by (auto split: sum.splits intro: reaches_other reaches_then [OF reaches_paid])
    then show ?thesis by (simp add: processPayout_def Some row STRIPE_CONNECT run)
  qed
qed

interpretation process_request: ledger_job
  "\<lambda>d. fst (snd (processPayout (payout_adapter demo credentials transfersCreate) (\<lambda>d. d) e t u i body (d, sent)))"
  for demo credentials transfersCreate e t u i body sent
  by unfold_locales (rule processPayout_reaches)

interpretation execute_request: ledger_job "\<lambda>d. snd (executePayout e u i x d)" for e u i x
  by unfold_locales
     (auto simp: executePayout_def split: option.splits sum.splits intro: reaches_other reaches_then [OF reaches_paid])

interpretation cancel_request: ledger_neutral "\<lambda>d. snd (cancelPayoutRequest t i d)" for t i
  by unfold_locales (auto simp: cancelPayoutRequest_def cancelPayout_def split: sum.splits option.splits)

section \<open>Properties\<close>


text \<open>
  The provider is asked before the payout is checked. On the STRIPE_CONNECT rail, processing a payout that is already PAID,
  FAILED or CANCELLED, or that the AVAILABLE balance no longer covers, sends a transfer of its full amount to the connected account and
  then answers 409 with the database unchanged. So \<open>n\<close> such requests send \<open>n\<close> times the amount, and the ledger knows of none. The
  rail needs the account of the tenant in the stored credentials; the requests that store credentials drop it today (the lemma
  \<open>connect_account_unconfigurable\<close>), so this concerns credentials that were stored in another way, or a repair of that schema.
\<close>

lemma process_resends_transfer:
  fixes e :: env and u :: string and body :: "string option"
  assumes p: "getPayout d t i = Some (p, items)" "\<not> settleable t p d" "\<bar>po_amount p\<bar> \<le> 2 ^ 50"
    and rail: "payout_rail_of d t = STRIPE_CONNECT" "po_provider p = STRIPE" "tenant_config t STRIPE d = Some config"
    and acct: "credentials (pc_encryptedCredentials config) = Inr (Some acct)" "acct \<noteq> ''''"
    and accepts: "\<And>sent request. is_ok (transfersCreate sent request)"
  defines "process \<equiv> processPayout (payout_adapter False credentials transfersCreate) (\<lambda>d. d) e t u i body"
  shows "fst (process (d, sent)) = Inl (AppError 409 ''PAYOUT_CONFLICT'') \<and>
    ((\<lambda>s. snd (process s)) ^^ n) (d, sent) = (d, sent @ replicate n \<lparr>tq_amount = po_amount p,
       tq_currency = toLowerCase (currency_code (po_currency p)), tq_destination = acct, tq_transfer_group = po_idempotencyKey p\<rparr>)"
proof -
  let ?rq = "\<lparr>tq_amount = po_amount p, tq_currency = toLowerCase (currency_code (po_currency p)), tq_destination = acct,
    tq_transfer_group = po_idempotencyKey p\<rparr>"
  have rq: "transfer_of acct (payout_params p) = ?rq" by (simp add: transfer_of_def payout_params_def payout_cents_exact [OF p(3)])
  have step: "process (d, sent) = (Inl (AppError 409 ''PAYOUT_CONFLICT''), d, sent @ [?rq])" for sent
  proof -
    obtain x where "transfersCreate sent ?rq = Inr x" using accepts [of sent ?rq] by (auto simp: is_ok_iff)
    then show ?thesis
      by (simp add: process_def processPayout_def p(1) rail process_connect_def payout_adapter_def acct stripe_createPayout_def
          coalesce_def rq settle_and_answer_def getPayout_id [OF p(1)] settle_refused [OF p(1,2)])
  qed
  have "((\<lambda>s. snd (process s)) ^^ n) (d, sent) = (d, sent @ replicate n ?rq)"
  proof (induction n)
    case (Suc n)
    then show ?case by (simp add: step replicate_append_same)
  qed simp
  with step show ?thesis by simp
qed


end
