(* ===== verification/Reconciliation.thy ===== *)
theory Reconciliation
  imports LedgerDb StatusMachine
begin

text \<open>
  \<open>src/lib/reconciliation.ts\<close> and \<open>reconciliation-db.ts\<close>: the match of a provider's report against the tenant's ledger.
  The matcher is shown to compute, per reference, exactly the comparison of the two sums; the run stores its outcome and
  can be repeated.
\<close>

section \<open>The matcher\<close>

definition RECONCILIATION_STATUSES :: "reconciliation_status list" where
  "RECONCILIATION_STATUSES = [RECON_PENDING, RECON_MATCHED, RECON_UNMATCHED, RECON_RESOLVED]"

definition RECONCILIATION_MATCH_STATUSES :: "reconciliation_match_status list" where
  "RECONCILIATION_MATCH_STATUSES = [LINE_UNMATCHED, LINE_EXACT, LINE_AMOUNT_DIFF]"

text \<open>\<open>ExternalLine\<close> and \<open>InternalLine\<close> have the same fields.\<close>

record external_line =
  el_reference :: string
  el_amountCents :: centimes

type_synonym internal_line = external_line

record line_match =
  lm_reference :: string
  lm_status :: reconciliation_match_status
  lm_externalCents :: centimes
  lm_internalCents :: centimes
  lm_differenceCents :: centimes

record reconcile_result =
  matches :: "line_match list"
  missingInternal :: "external_line list"
  missingExternal :: "internal_line list"
  externalTotalCents :: centimes
  internalTotalCents :: centimes
  netDifferenceCents :: centimes

fun reconciliation_TRANSITIONS :: "reconciliation_status \<Rightarrow> reconciliation_status list" where
  "reconciliation_TRANSITIONS RECON_PENDING = [RECON_MATCHED, RECON_UNMATCHED, RECON_RESOLVED]"
| "reconciliation_TRANSITIONS RECON_MATCHED = [RECON_UNMATCHED, RECON_RESOLVED]"
| "reconciliation_TRANSITIONS RECON_UNMATCHED = [RECON_MATCHED, RECON_RESOLVED]"
| "reconciliation_TRANSITIONS RECON_RESOLVED = []"

definition reconciliation_canTransition :: "reconciliation_status \<Rightarrow> reconciliation_status \<Rightarrow> bool" where
  "reconciliation_canTransition s s' \<longleftrightarrow> s' \<in> set (reconciliation_TRANSITIONS s)"

definition reconciliation_assertTransition :: "reconciliation_status \<Rightarrow> reconciliation_status \<Rightarrow> unit result" where
  "reconciliation_assertTransition s s' =
     (if \<not> reconciliation_canTransition s s' then Inl (ReconciliationError ''illegal reconciliation transition '') else Inr ())"

interpretation reconciliation_sm: status_machine reconciliation_canTransition "\<lambda>s. s = RECON_RESOLVED"
proof unfold_locales
  show "\<not> reconciliation_canTransition s t" if "s = RECON_RESOLVED" for s t
    using that by (simp add: reconciliation_canTransition_def)
  show "\<exists>t. reconciliation_canTransition s t" if "s \<noteq> RECON_RESOLVED" for s
    using that by (intro exI [of _ RECON_RESOLVED]) (cases s; simp add: reconciliation_canTransition_def)
qed

definition classifyMatch :: "centimes \<Rightarrow> centimes \<Rightarrow> reconciliation_match_status" where
  "classifyMatch externalCents internalCents = (if externalCents = internalCents then LINE_EXACT else LINE_AMOUNT_DIFF)"

definition differenceCents :: "centimes \<Rightarrow> centimes \<Rightarrow> centimes" where
  "differenceCents externalCents internalCents = externalCents - internalCents"

definition isClean :: "reconcile_result \<Rightarrow> bool" where
  "isClean r \<longleftrightarrow> length (missingInternal r) = 0 \<and> length (missingExternal r) = 0 \<and>
     list_all (\<lambda>m. lm_status m = LINE_EXACT) (matches r)"

text \<open>A \<open>Map\<close> from references to amounts, in insertion order, and \<open>map.set(k, (map.get(k) ?? 0) + n)\<close>.\<close>

fun add_amount :: "string \<Rightarrow> centimes \<Rightarrow> (string \<times> centimes) list \<Rightarrow> (string \<times> centimes) list" where
  "add_amount k n [] = [(k, n)]"
| "add_amount k n ((k', v) # m) = (if k' = k then (k', v + n) # m else (k', v) # add_amount k n m)"

definition by_reference :: "external_line list \<Rightarrow> (string \<times> centimes) list" where
  "by_reference ls = fold (\<lambda>l. add_amount (el_reference l) (el_amountCents l)) ls []"

definition reconcile_step ::
  "(string \<times> centimes) list \<Rightarrow> (string \<times> centimes) list \<Rightarrow> string \<Rightarrow> reconcile_result \<Rightarrow> reconcile_result" where
  "reconcile_step externalByRef internalByRef ref r =
     (case (map_of externalByRef ref, map_of internalByRef ref) of
        (Some x, Some i) \<Rightarrow>
          r\<lparr>matches := matches r @ [\<lparr>lm_reference = ref, lm_status = classifyMatch x i, lm_externalCents = x,
                                      lm_internalCents = i, lm_differenceCents = differenceCents x i\<rparr>],
            externalTotalCents := externalTotalCents r + x, internalTotalCents := internalTotalCents r + i\<rparr>
      | (Some x, None) \<Rightarrow>
          r\<lparr>missingInternal := missingInternal r @ [\<lparr>el_reference = ref, el_amountCents = x\<rparr>],
            externalTotalCents := externalTotalCents r + x\<rparr>
      | (None, Some i) \<Rightarrow>
          r\<lparr>missingExternal := missingExternal r @ [\<lparr>el_reference = ref, el_amountCents = i\<rparr>],
            internalTotalCents := internalTotalCents r + i\<rparr>
      | (None, None) \<Rightarrow> r)"

definition reconcile :: "external_line list \<Rightarrow> internal_line list \<Rightarrow> reconcile_result" where
  "reconcile external internal =
     (let externalByRef = by_reference external;
          internalByRef = by_reference internal;
          sortedRefs = sort (remdups (map fst externalByRef @ map fst internalByRef));
          r = fold (reconcile_step externalByRef internalByRef) sortedRefs
                \<lparr>matches = [], missingInternal = [], missingExternal = [],
                 externalTotalCents = 0, internalTotalCents = 0, netDifferenceCents = 0\<rparr>
      in r\<lparr>netDifferenceCents := externalTotalCents r - internalTotalCents r\<rparr>)"

section \<open>Persistence\<close>

record create_reconciliation_report_input =
  cr_provider :: provider
  cr_currency :: "currency option"
  cr_periodStart :: "int option"
  cr_periodEnd :: "int option"
  cr_lines :: "external_line list"

fun create_lines :: "env \<Rightarrow> string \<Rightarrow> external_line list \<Rightarrow> nat \<Rightarrow> reconciliation_line list" where
  "create_lines e reportId [] n = []"
| "create_lines e reportId (l # ls) n =
     \<lparr>rl_id = gen e n, rl_reportId = reportId, rl_reference = el_reference l, rl_amount = el_amountCents l,
      rl_status = LINE_UNMATCHED, rl_matchedAmount = None, rl_differenceAmount = None\<rparr> # create_lines e reportId ls (Suc n)"

definition createReconciliationReport ::
  "env \<Rightarrow> string \<Rightarrow> create_reconciliation_report_input \<Rightarrow> db \<Rightarrow> reconciliation_report \<times> db" where
  "createReconciliationReport e tenantId input d =
     (let report = \<lparr>rr_id = fresh e d, rr_tenantId = tenantId, rr_provider = cr_provider input,
                    rr_currency = coalesce (cr_currency input) MAD, rr_periodStart = cr_periodStart input,
                    rr_periodEnd = cr_periodEnd input, rr_status = RECON_PENDING, rr_summary = None\<rparr>
      in (report, d\<lparr>seq := Suc (seq d + length (cr_lines input)),
            reconciliationReports := reconciliationReports d @ [report],
            reconciliationLines := reconciliationLines d @ create_lines e (fresh e d) (cr_lines input) (Suc (seq d))\<rparr>))"

definition report_lines :: "db \<Rightarrow> string \<Rightarrow> reconciliation_line list" where
  "report_lines d i = filter (\<lambda>l. rl_reportId l = i) (reconciliationLines d)"

definition find_report :: "db \<Rightarrow> string \<Rightarrow> string \<Rightarrow> reconciliation_report option" where
  "find_report d tenantId i = find (\<lambda>r. rr_id r = i \<and> rr_tenantId r = tenantId) (reconciliationReports d)"

definition getReconciliationReport :: "db \<Rightarrow> string \<Rightarrow> string \<Rightarrow> (reconciliation_report \<times> reconciliation_line list) option" where
  "getReconciliationReport d tenantId i = map_option (\<lambda>r. (r, report_lines d i)) (find_report d tenantId i)"

definition buildInternalLines :: "db \<Rightarrow> string \<Rightarrow> internal_line list" where
  "buildInternalLines d tenantId =
     (let rows = filter (\<lambda>r. le_tenantId r = tenantId \<and> le_sourceId r \<noteq> None \<and> le_direction r = DEBIT) (ledgerEntries d);
          bySource = fold (\<lambda>r. add_amount (the (le_sourceId r)) (le_amount r)) rows []
      in map (\<lambda>(ref, n). \<lparr>el_reference = ref, el_amountCents = n\<rparr>) bySource)"

definition line_outcome :: "reconcile_result \<Rightarrow> string \<Rightarrow> (reconciliation_match_status \<times> centimes option \<times> centimes) option" where
  "line_outcome r ref =
     map_of (rev (map (\<lambda>m. (lm_reference m, (lm_status m, Some (lm_internalCents m), lm_differenceCents m))) (matches r) @
                  map (\<lambda>l. (el_reference l, (LINE_UNMATCHED, None, el_amountCents l))) (missingInternal r))) ref"

definition summary_of :: "reconcile_result \<Rightarrow> reconciliation_summary" where
  "summary_of r =
     \<lparr>rs_exactCount = length (filter (\<lambda>m. lm_status m = LINE_EXACT) (matches r)),
      rs_amountDiffCount = length (filter (\<lambda>m. lm_status m = LINE_AMOUNT_DIFF) (matches r)),
      rs_missingInternal = map (\<lambda>l. (el_reference l, el_amountCents l)) (missingInternal r),
      rs_missingExternal = map (\<lambda>l. (el_reference l, el_amountCents l)) (missingExternal r),
      rs_externalTotalCents = externalTotalCents r, rs_internalTotalCents = internalTotalCents r,
      rs_netDifferenceCents = netDifferenceCents r\<rparr>"

text \<open>The update of one line by its primary key; the loop runs over the lines of the report.\<close>

definition apply_outcome :: "reconcile_result \<Rightarrow> reconciliation_line \<Rightarrow> reconciliation_line" where
  "apply_outcome r l =
     (case line_outcome r (rl_reference l) of
        None \<Rightarrow> l
      | Some (s, m, diff) \<Rightarrow> l\<lparr>rl_status := s, rl_matchedAmount := m, rl_differenceAmount := Some diff\<rparr>)"

definition runReconciliation :: "string \<Rightarrow> string \<Rightarrow> db \<Rightarrow> db result" where
  "runReconciliation tenantId i d =
     (case find_report d tenantId i of
        None \<Rightarrow> Inl (ReconciliationError ''reconciliation report not found'')
      | Some report \<Rightarrow>
          let external = map (\<lambda>l. \<lparr>el_reference = rl_reference l, el_amountCents = rl_amount l\<rparr>) (report_lines d i);
              r = reconcile external (buildInternalLines d tenantId);
              nextStatus = (if isClean r then RECON_MATCHED else RECON_UNMATCHED)
          in ebind (if rr_status report \<noteq> nextStatus then reconciliation_assertTransition (rr_status report) nextStatus
                    else Inr ()) (\<lambda>_.
             Inr (d\<lparr>reconciliationLines := map (\<lambda>l. if rl_reportId l = i then apply_outcome r l else l) (reconciliationLines d),
                    reconciliationReports := map (\<lambda>x. if rr_id x = i
                      then x\<lparr>rr_status := nextStatus, rr_summary := Some (summary_of r)\<rparr> else x) (reconciliationReports d)\<rparr>)))"

definition resolveReconciliation :: "string \<Rightarrow> string \<Rightarrow> db \<Rightarrow> db result" where
  "resolveReconciliation tenantId i d =
     (case find_report d tenantId i of
        None \<Rightarrow> Inl (ReconciliationError ''reconciliation report not found'')
      | Some report \<Rightarrow>
          ebind (reconciliation_assertTransition (rr_status report) RECON_RESOLVED) (\<lambda>_.
            Inr (d\<lparr>reconciliationReports :=
              map (\<lambda>x. if rr_id x = i then x\<lparr>rr_status := RECON_RESOLVED\<rparr> else x) (reconciliationReports d)\<rparr>)))"

section \<open>Lemmas on sums per reference\<close>

definition ref_sum :: "external_line list \<Rightarrow> string \<Rightarrow> centimes" where
  "ref_sum ls ref = (\<Sum>l\<leftarrow>filter (\<lambda>l. el_reference l = ref) ls. el_amountCents l)"

lemma filter_absent: "k \<notin> f ` set xs \<Longrightarrow> filter (\<lambda>x. f x = k) xs = []"
  by (auto simp: filter_empty_conv)

lemma map_of_add_amount: "map_of (add_amount k n m) ref = (if ref = k then Some (coalesce (map_of m k) 0 + n) else map_of m ref)"
  by (induction m) auto

lemma keys_add_amount: "fst ` set (add_amount k n m) = insert k (fst ` set m)"
  by (induction k n m rule: add_amount.induct) auto

lemma map_of_fold_add:
  "map_of (fold (\<lambda>x. add_amount (f x) (g x)) xs m) ref =
     (if ref \<in> f ` set xs then Some (coalesce (map_of m ref) 0 + (\<Sum>x\<leftarrow>filter (\<lambda>x. f x = ref) xs. g x)) else map_of m ref)"
  by (induction xs arbitrary: m) (auto simp: map_of_add_amount filter_absent)

lemma keys_fold_add: "fst ` set (fold (\<lambda>x. add_amount (f x) (g x)) xs m) = f ` set xs \<union> fst ` set m"
  by (induction xs arbitrary: m) (simp_all add: keys_add_amount)

lemma by_reference_of: "map_of (by_reference ls) ref = (if ref \<in> el_reference ` set ls then Some (ref_sum ls ref) else None)"
  by (simp add: by_reference_def map_of_fold_add ref_sum_def)

lemma by_reference_keys: "fst ` set (by_reference ls) = el_reference ` set ls"
  unfolding by_reference_def keys_fold_add by simp

lemma ref_sum_absent: "ref \<notin> el_reference ` set ls \<Longrightarrow> ref_sum ls ref = 0"
  by (simp add: ref_sum_def filter_absent)

lemma sum_ref_sum:
  assumes "finite S" "el_reference ` set ls \<subseteq> S"
  shows "(\<Sum>ref\<in>S. ref_sum ls ref) = (\<Sum>l\<leftarrow>ls. el_amountCents l)"
  using assms(2)
proof (induction ls)
  case (Cons l ls)
  have "ref_sum (l # ls) ref = (if ref = el_reference l then el_amountCents l else 0) + ref_sum ls ref" for ref
    by (simp add: ref_sum_def)
  then show ?case using Cons assms(1) by (simp add: sum.distrib sum.delta)
qed (simp add: ref_sum_def)

lemma sum_sorted_distinct: "(\<Sum>x\<leftarrow>sort (remdups xs). f x) = (\<Sum>x\<in>set xs. f x :: int)"
  by (simp add: sum_list_distinct_conv_sum_set)

section \<open>Lemmas on the matcher\<close>

definition match_of :: "external_line list \<Rightarrow> internal_line list \<Rightarrow> string \<Rightarrow> line_match" where
  "match_of external internal ref =
     \<lparr>lm_reference = ref, lm_status = classifyMatch (ref_sum external ref) (ref_sum internal ref),
      lm_externalCents = ref_sum external ref, lm_internalCents = ref_sum internal ref,
      lm_differenceCents = differenceCents (ref_sum external ref) (ref_sum internal ref)\<rparr>"

lemma reconcile_fold:
  defines "X ls \<equiv> el_reference ` set (ls :: external_line list)"
  shows "fold (reconcile_step (by_reference external) (by_reference internal)) refs r =
    r\<lparr>matches := matches r @ map (match_of external internal) (filter (\<lambda>k. k \<in> X external \<and> k \<in> X internal) refs),
      missingInternal := missingInternal r @ map (\<lambda>k. \<lparr>el_reference = k, el_amountCents = ref_sum external k\<rparr>)
        (filter (\<lambda>k. k \<in> X external \<and> k \<notin> X internal) refs),
      missingExternal := missingExternal r @ map (\<lambda>k. \<lparr>el_reference = k, el_amountCents = ref_sum internal k\<rparr>)
        (filter (\<lambda>k. k \<notin> X external \<and> k \<in> X internal) refs),
      externalTotalCents := externalTotalCents r + (\<Sum>k\<leftarrow>refs. ref_sum external k),
      internalTotalCents := internalTotalCents r + (\<Sum>k\<leftarrow>refs. ref_sum internal k)\<rparr>"
proof (induction refs arbitrary: r)
  case (Cons k refs)
  show ?case unfolding fold.simps o_apply Cons
    by (auto simp: reconcile_step_def by_reference_of X_def [symmetric] match_of_def ref_sum_absent [folded X_def])
qed simp

definition refs_of :: "external_line list \<Rightarrow> string set" where
  "refs_of ls = el_reference ` set ls"

definition all_refs :: "external_line list \<Rightarrow> internal_line list \<Rightarrow> string list" where
  "all_refs external internal = sort (remdups (map fst (by_reference external) @ map fst (by_reference internal)))"

lemma all_refs_props:
  "set (all_refs x i) = refs_of x \<union> refs_of i" "distinct (all_refs x i)" "sorted (all_refs x i)"
  by (auto simp: all_refs_def refs_of_def image_Un simp flip: by_reference_keys)

lemma reconcile_fields:
  "matches (reconcile x i) = map (match_of x i) (filter (\<lambda>k. k \<in> refs_of x \<and> k \<in> refs_of i) (all_refs x i))"
  "missingInternal (reconcile x i) = map (\<lambda>k. \<lparr>el_reference = k, el_amountCents = ref_sum x k\<rparr>)
     (filter (\<lambda>k. k \<in> refs_of x \<and> k \<notin> refs_of i) (all_refs x i))"
  "missingExternal (reconcile x i) = map (\<lambda>k. \<lparr>el_reference = k, el_amountCents = ref_sum i k\<rparr>)
     (filter (\<lambda>k. k \<notin> refs_of x \<and> k \<in> refs_of i) (all_refs x i))"
  "externalTotalCents (reconcile x i) = (\<Sum>k\<leftarrow>all_refs x i. ref_sum x k)"
  "internalTotalCents (reconcile x i) = (\<Sum>k\<leftarrow>all_refs x i. ref_sum i k)"
  "netDifferenceCents (reconcile x i) = externalTotalCents (reconcile x i) - internalTotalCents (reconcile x i)"
  by (simp_all add: reconcile_def Let_def reconcile_fold refs_of_def all_refs_def)

lemma all_refs_sum: "refs_of ls \<subseteq> refs_of x \<union> refs_of i \<Longrightarrow> (\<Sum>k\<leftarrow>all_refs x i. ref_sum ls k) = (\<Sum>l\<leftarrow>ls. el_amountCents l)"
  using sum_ref_sum [of "refs_of x \<union> refs_of i" ls] all_refs_props(1,2) [of x i]
  by (simp add: sum_list_distinct_conv_sum_set refs_of_def)

lemma isClean_iff: "isClean (reconcile x i) \<longleftrightarrow> refs_of x = refs_of i \<and> (\<forall>k. ref_sum x k = ref_sum i k)"
proof -
  have "isClean (reconcile x i) \<longleftrightarrow> refs_of x = refs_of i \<and> (\<forall>k\<in>refs_of x \<inter> refs_of i. ref_sum x k = ref_sum i k)"
    by (auto simp: isClean_def reconcile_fields filter_empty_conv all_refs_props(1) list_all_iff match_of_def classifyMatch_def
        split: if_splits)
  moreover have "ref_sum x k = ref_sum i k" if "refs_of x = refs_of i" "k \<notin> refs_of x \<inter> refs_of i" for k
    using that ref_sum_absent [of k x] ref_sum_absent [of k i] by (auto simp: refs_of_def)
  ultimately show ?thesis by blast
qed

lemma net_difference_parts:
  assumes "set refs \<subseteq> refs_of x \<union> refs_of i"
  shows "(\<Sum>k\<leftarrow>refs. ref_sum x k) - (\<Sum>k\<leftarrow>refs. ref_sum i k) =
    (\<Sum>k\<leftarrow>filter (\<lambda>k. k \<in> refs_of x \<and> k \<in> refs_of i) refs. ref_sum x k - ref_sum i k)
    + (\<Sum>k\<leftarrow>filter (\<lambda>k. k \<in> refs_of x \<and> k \<notin> refs_of i) refs. ref_sum x k)
    - (\<Sum>k\<leftarrow>filter (\<lambda>k. k \<notin> refs_of x \<and> k \<in> refs_of i) refs. ref_sum i k)"
  using assms
proof (induction refs)
  case (Cons k refs)
  with ref_sum_absent [of k x] ref_sum_absent [of k i] show ?case by (auto simp: refs_of_def)
qed simp

lemma sorted_filter_map: "sorted xs \<Longrightarrow> distinct xs \<Longrightarrow> sorted_wrt (<) (filter P xs)" for xs :: "string list"
  by (simp add: strict_sorted_iff sorted_wrt_filter)

section \<open>Lemmas on a run\<close>

definition recorded :: "db \<Rightarrow> string \<Rightarrow> string \<Rightarrow> centimes" where
  "recorded d t ref = (\<Sum>r\<leftarrow>filter (\<lambda>r. le_tenantId r = t \<and> le_sourceId r = Some ref \<and> le_direction r = DEBIT) (ledgerEntries d). le_amount r)"

definition recorded_refs :: "db \<Rightarrow> string \<Rightarrow> string set" where
  "recorded_refs d t = {ref. \<exists>r\<in>set (ledgerEntries d). le_tenantId r = t \<and> le_sourceId r = Some ref \<and> le_direction r = DEBIT}"

definition reported :: "db \<Rightarrow> string \<Rightarrow> string \<Rightarrow> centimes" where
  "reported d i ref = (\<Sum>l\<leftarrow>filter (\<lambda>l. rl_reference l = ref) (report_lines d i). rl_amount l)"

definition reported_refs :: "db \<Rightarrow> string \<Rightarrow> string set" where
  "reported_refs d i = rl_reference ` set (report_lines d i)"

lemma distinct_add_amount: "distinct (map fst m) \<Longrightarrow> distinct (map fst (add_amount k n m))"
  using keys_add_amount by (induction k n m rule: add_amount.induct) auto

lemma distinct_fold_add: "distinct (map fst m) \<Longrightarrow> distinct (map fst (fold (\<lambda>x. add_amount (f x) (g x)) xs m))"
  by (induction xs arbitrary: m) (auto intro: distinct_add_amount)

lemma ref_sum_pairs:
  "distinct (map fst m) \<Longrightarrow> ref_sum (map (\<lambda>(ref, n). \<lparr>el_reference = ref, el_amountCents = n\<rparr>) m) k = coalesce (map_of m k) 0"
proof (induction m)
  case (Cons x m)
  then show ?case
    by (cases x) (auto simp: ref_sum_def filter_map comp_def case_prod_beta filter_absent)
qed (simp add: ref_sum_def)

lemma internal_sum: "ref_sum (buildInternalLines d t) ref = recorded d t ref"
proof -
  let ?rows = "filter (\<lambda>r. le_tenantId r = t \<and> le_sourceId r \<noteq> None \<and> le_direction r = DEBIT) (ledgerEntries d)"
  have "filter (\<lambda>r. the (le_sourceId r) = ref) ?rows =
      filter (\<lambda>r. le_tenantId r = t \<and> le_sourceId r = Some ref \<and> le_direction r = DEBIT) (ledgerEntries d)"
    by (auto intro!: filter_cong)
  then have "coalesce (map_of (fold (\<lambda>r. add_amount (the (le_sourceId r)) (le_amount r)) ?rows []) ref) 0 = recorded d t ref"
    using filter_absent [of ref "\<lambda>r. the (le_sourceId r)" ?rows] by (simp add: map_of_fold_add recorded_def)
  then show ?thesis
    by (simp add: buildInternalLines_def ref_sum_pairs distinct_fold_add)
qed

lemma internal_refs: "refs_of (buildInternalLines d t) = recorded_refs d t"
proof -
  let ?rows = "filter (\<lambda>r. le_tenantId r = t \<and> le_sourceId r \<noteq> None \<and> le_direction r = DEBIT) (ledgerEntries d)"
  have "refs_of (buildInternalLines d t) = (\<lambda>r. the (le_sourceId r)) ` set ?rows"
    unfolding buildInternalLines_def Let_def refs_of_def list.set_map image_image case_prod_beta external_line.simps keys_fold_add by simp
  also have "\<dots> = recorded_refs d t" by (force simp: recorded_refs_def)
  finally show ?thesis .
qed

definition external_of :: "db \<Rightarrow> string \<Rightarrow> external_line list" where
  "external_of d i = map (\<lambda>l. \<lparr>el_reference = rl_reference l, el_amountCents = rl_amount l\<rparr>) (report_lines d i)"

lemma external_sum: "ref_sum (external_of d i) ref = reported d i ref"
  by (simp add: external_of_def ref_sum_def reported_def filter_map comp_def)

lemma external_refs: "refs_of (external_of d i) = reported_refs d i"
  by (simp add: external_of_def refs_of_def reported_refs_def image_image)

lemma map_of_rev_distinct: "distinct (map fst xs) \<Longrightarrow> map_of (rev xs) k = map_of xs k"
proof -
  assume d: "distinct (map fst xs)"
  then have "map_of (rev xs) k = Some v \<longleftrightarrow> map_of xs k = Some v" for v by (simp add: rev_map [symmetric])
  then show ?thesis by (metis not_Some_eq)
qed

lemma line_outcome_of:
  assumes "k \<in> refs_of x"
  shows "line_outcome (reconcile x i) k = Some (if k \<in> refs_of i
    then (classifyMatch (ref_sum x k) (ref_sum i k), Some (ref_sum i k), differenceCents (ref_sum x k) (ref_sum i k))
    else (LINE_UNMATCHED, None, ref_sum x k))"
proof -
  let ?ms = "map (\<lambda>m. (lm_reference m, (lm_status m, Some (lm_internalCents m), lm_differenceCents m))) (matches (reconcile x i)) @
                  map (\<lambda>l. (el_reference l, (LINE_UNMATCHED, None, el_amountCents l))) (missingInternal (reconcile x i))"
  have keys: "map fst ?ms = filter (\<lambda>k. k \<in> refs_of x \<and> k \<in> refs_of i) (all_refs x i) @
      filter (\<lambda>k. k \<in> refs_of x \<and> k \<notin> refs_of i) (all_refs x i)"
    by (simp add: reconcile_fields comp_def match_of_def)
  have d: "distinct (map fst ?ms)" unfolding keys using all_refs_props(2) by auto
  have "(k, if k \<in> refs_of i
    then (classifyMatch (ref_sum x k) (ref_sum i k), Some (ref_sum i k), differenceCents (ref_sum x k) (ref_sum i k))
    else (LINE_UNMATCHED, None, ref_sum x k)) \<in> set ?ms"
    using assms all_refs_props(1) [of x i] by (auto simp: reconcile_fields match_of_def)
  then show ?thesis unfolding line_outcome_def map_of_rev_distinct [OF d] by (rule map_of_is_SomeI [OF d])
qed

definition next_status :: "db \<Rightarrow> string \<Rightarrow> string \<Rightarrow> reconciliation_status" where
  "next_status d t i = (if isClean (reconcile (external_of d i) (buildInternalLines d t)) then RECON_MATCHED else RECON_UNMATCHED)"

definition reconciled :: "db \<Rightarrow> string \<Rightarrow> string \<Rightarrow> db" where
  "reconciled d t i =
     (let r = reconcile (external_of d i) (buildInternalLines d t)
      in d\<lparr>reconciliationLines := map (\<lambda>l. if rl_reportId l = i then apply_outcome r l else l) (reconciliationLines d),
           reconciliationReports := map (\<lambda>x. if rr_id x = i
             then x\<lparr>rr_status := next_status d t i, rr_summary := Some (summary_of r)\<rparr> else x) (reconciliationReports d)\<rparr>)"

lemma runReconciliation_eq:
  "find_report d t i = Some report \<Longrightarrow> runReconciliation t i d =
     (if rr_status report = RECON_RESOLVED then Inl (ReconciliationError ''illegal reconciliation transition '')
      else Inr (reconciled d t i))"
  by (cases "rr_status report")
     (simp_all add: runReconciliation_def Let_def external_of_def [symmetric] next_status_def reconciled_def
       reconciliation_assertTransition_def reconciliation_canTransition_def)

lemma apply_outcome_fields [simp]:
  "rl_reference (apply_outcome r l) = rl_reference l" "rl_amount (apply_outcome r l) = rl_amount l"
  "rl_reportId (apply_outcome r l) = rl_reportId l" "apply_outcome r (apply_outcome r l) = apply_outcome r l"
  by (simp_all add: apply_outcome_def split: option.split)

lemma report_lines_reconciled:
  "report_lines (reconciled d t i) i = map (apply_outcome (reconcile (external_of d i) (buildInternalLines d t))) (report_lines d i)"
  unfolding report_lines_def reconciled_def Let_def db.simps
  by (induction "reconciliationLines d") (auto simp: filter_map_cond)

lemma external_reconciled: "external_of (reconciled d t i) i = external_of d i"
  by (simp add: external_of_def [of "reconciled d t i"] report_lines_reconciled) (simp add: external_of_def)

lemma internal_reconciled: "buildInternalLines (reconciled d t i) t = buildInternalLines d t"
  by (simp add: buildInternalLines_def reconciled_def Let_def)

lemma reconciled_again: "reconciled (reconciled d t i) t i = reconciled d t i"
proof -
  have "next_status (reconciled d t i) t i = next_status d t i"
    by (simp add: next_status_def external_reconciled internal_reconciled)
  then show ?thesis
    unfolding reconciled_def [of "reconciled d t i"] external_reconciled internal_reconciled Let_def
    by (simp add: reconciled_def Let_def comp_def if_distrib cong: if_cong)
qed

lemma find_report_reconciled:
  "find_report d t i = Some report \<Longrightarrow> \<exists>report'. find_report (reconciled d t i) t i = Some report' \<and> rr_status report' = next_status d t i"
  using find_SomeD [of "\<lambda>r. rr_id r = i \<and> rr_tenantId r = t" "reconciliationReports d" report]
  by (simp add: find_report_def reconciled_def Let_def find_cong_update)

lemma next_status_eq:
  "next_status d t i = (if reported_refs d i = recorded_refs d t \<and> (\<forall>ref. reported d i ref = recorded d t ref)
                        then RECON_MATCHED else RECON_UNMATCHED)"
  by (simp add: next_status_def isClean_iff external_refs internal_refs external_sum internal_sum)

lemma reconciled_line:
  assumes "l \<in> set (report_lines (reconciled d t i) i)"
  shows "if rl_reference l \<in> recorded_refs d t
    then rl_status l = classifyMatch (reported d i (rl_reference l)) (recorded d t (rl_reference l)) \<and>
         rl_matchedAmount l = Some (recorded d t (rl_reference l)) \<and>
         rl_differenceAmount l = Some (reported d i (rl_reference l) - recorded d t (rl_reference l))
    else rl_status l = LINE_UNMATCHED \<and> rl_matchedAmount l = None \<and>
         rl_differenceAmount l = Some (reported d i (rl_reference l))"
proof -
  from assms obtain k where k: "k \<in> set (report_lines d i)"
    "l = apply_outcome (reconcile (external_of d i) (buildInternalLines d t)) k" by (auto simp: report_lines_reconciled)
  then have "rl_reference k \<in> refs_of (external_of d i)" by (simp add: external_refs reported_refs_def)
  from line_outcome_of [OF this, of "buildInternalLines d t"] k(2) show ?thesis
    by (simp add: apply_outcome_def external_sum internal_sum internal_refs differenceCents_def)
qed

section \<open>Properties\<close>

text \<open>
  C36. The matcher. For any two lists of lines, the references on both sides, only on the provider's and only on the
  ledger's are listed exactly, each once and in increasing order; the totals are the sums of the two lists; the net
  difference is the difference of the totals and is explained to the centime by the listed differences and breaks; and the
  report is clean exactly when both sides have the same references with equal sums.
\<close>

theorem reconcile_correct:
  fixes external :: "external_line list" and internal :: "internal_line list"
  defines "r \<equiv> reconcile external internal"
  shows "set (map lm_reference (matches r)) = refs_of external \<inter> refs_of internal \<and>
    set (map el_reference (missingInternal r)) = refs_of external - refs_of internal \<and>
    set (map el_reference (missingExternal r)) = refs_of internal - refs_of external \<and>
    sorted_wrt (<) (map lm_reference (matches r)) \<and> sorted_wrt (<) (map el_reference (missingInternal r)) \<and>
    sorted_wrt (<) (map el_reference (missingExternal r)) \<and>
    externalTotalCents r = (\<Sum>l\<leftarrow>external. el_amountCents l) \<and> internalTotalCents r = (\<Sum>l\<leftarrow>internal. el_amountCents l) \<and>
    netDifferenceCents r = externalTotalCents r - internalTotalCents r \<and>
    netDifferenceCents r = (\<Sum>m\<leftarrow>matches r. lm_differenceCents m) + (\<Sum>l\<leftarrow>missingInternal r. el_amountCents l)
      - (\<Sum>l\<leftarrow>missingExternal r. el_amountCents l) \<and>
    (isClean r \<longleftrightarrow> refs_of external = refs_of internal \<and> (\<forall>ref. ref_sum external ref = ref_sum internal ref))"
proof -
  note sorted = sorted_filter_map [OF all_refs_props(3,2) [of external internal]]
  have "netDifferenceCents r = (\<Sum>m\<leftarrow>matches r. lm_differenceCents m) + (\<Sum>l\<leftarrow>missingInternal r. el_amountCents l)
      - (\<Sum>l\<leftarrow>missingExternal r. el_amountCents l)"
    using net_difference_parts [of "all_refs external internal" external internal] all_refs_props(1) [of external internal]
    by (simp add: r_def reconcile_fields comp_def match_of_def differenceCents_def)
  moreover have "externalTotalCents r = (\<Sum>l\<leftarrow>external. el_amountCents l)" "internalTotalCents r = (\<Sum>l\<leftarrow>internal. el_amountCents l)"
    by (simp_all add: r_def reconcile_fields all_refs_sum)
  moreover have "set (map lm_reference (matches r)) = refs_of external \<inter> refs_of internal"
    "set (map el_reference (missingInternal r)) = refs_of external - refs_of internal"
    "set (map el_reference (missingExternal r)) = refs_of internal - refs_of external"
    using all_refs_props(1) [of external internal] by (auto simp: r_def reconcile_fields match_of_def image_image)
  moreover have "sorted_wrt (<) (map lm_reference (matches r))" "sorted_wrt (<) (map el_reference (missingInternal r))"
    "sorted_wrt (<) (map el_reference (missingExternal r))"
    using sorted by (simp_all add: r_def reconcile_fields comp_def match_of_def)
  ultimately show ?thesis using isClean_iff [of external internal] reconcile_fields(6) [of external internal]
    unfolding r_def by blast
qed

text \<open>
  A run. On a report that is not resolved, \<open>runReconciliation\<close> succeeds; the report becomes MATCHED exactly when the
  report and the tenant's ledger (the debits per source) have the same references with equal sums, and UNMATCHED otherwise;
  each line of the report carries the comparison of its reference; and a second run changes nothing. A resolved report is
  refused.
\<close>

lemma runReconciliation_correct:
  assumes "find_report d t i = Some report"
  shows "(rr_status report = RECON_RESOLVED \<longrightarrow> \<not> is_ok (runReconciliation t i d)) \<and>
    (rr_status report \<noteq> RECON_RESOLVED \<longrightarrow> (\<exists>d' report'. runReconciliation t i d = Inr d' \<and> find_report d' t i = Some report' \<and>
       rr_status report' = (if reported_refs d i = recorded_refs d t \<and> (\<forall>ref. reported d i ref = recorded d t ref)
                            then RECON_MATCHED else RECON_UNMATCHED) \<and>
       (\<forall>l\<in>set (report_lines d' i).
          if rl_reference l \<in> recorded_refs d t
          then rl_status l = classifyMatch (reported d i (rl_reference l)) (recorded d t (rl_reference l)) \<and>
               rl_matchedAmount l = Some (recorded d t (rl_reference l)) \<and>
               rl_differenceAmount l = Some (reported d i (rl_reference l) - recorded d t (rl_reference l))
          else rl_status l = LINE_UNMATCHED \<and> rl_matchedAmount l = None \<and>
               rl_differenceAmount l = Some (reported d i (rl_reference l))) \<and>
       runReconciliation t i d' = Inr d'))"
proof (cases "rr_status report = RECON_RESOLVED")
  case True
  with runReconciliation_eq [OF assms] show ?thesis by simp
next
  case False
  define d' where "d' = reconciled d t i"
  have run: "runReconciliation t i d = Inr d'" using runReconciliation_eq [OF assms] False by (simp add: d'_def)
  obtain report' where r': "find_report d' t i = Some report'" "rr_status report' = next_status d t i"
    using find_report_reconciled [OF assms] unfolding d'_def by blast
  have "runReconciliation t i d' = Inr d'"
    using runReconciliation_eq [OF r'(1)] r'(2) next_status_eq [of d t i] by (simp add: d'_def reconciled_again split: if_splits)
  then show ?thesis using run r' next_status_eq [of d t i] reconciled_line [of _ d t i] False unfolding d'_def by auto
qed

end
