(* ===== verification/Statements.thy ===== *)
theory Statements
  imports LedgerDb StatusMachine
begin

text \<open>
  \<open>src/lib/statements.ts\<close> and \<open>statements-db.ts\<close>: the settlement statement of a period. The build is shown to compute the
  AVAILABLE position at both ends and the debit volume per category, so that consecutive periods fit together.
\<close>

section \<open>Building\<close>

definition STATEMENT_STATUSES :: "statement_status list" where
  "STATEMENT_STATUSES = [STATEMENT_DRAFT, STATEMENT_FINALIZED, STATEMENT_VOID]"

record statement_entry =
  se_category :: ledger_category
  se_account :: ledger_account
  se_direction :: ledger_direction
  se_amountCents :: centimes
  se_createdAt :: int

record category_item =
  ci_category :: ledger_category
  ci_amountCents :: centimes
  ci_entryCount :: nat

record statement_result =
  openingBalanceCents :: centimes
  closingBalanceCents :: centimes
  st_netCents :: centimes
  st_items :: "category_item list"

fun statement_TRANSITIONS :: "statement_status \<Rightarrow> statement_status list" where
  "statement_TRANSITIONS STATEMENT_DRAFT = [STATEMENT_FINALIZED, STATEMENT_VOID]"
| "statement_TRANSITIONS STATEMENT_FINALIZED = [STATEMENT_VOID]"
| "statement_TRANSITIONS STATEMENT_VOID = []"

definition statement_canTransition :: "statement_status \<Rightarrow> statement_status \<Rightarrow> bool" where
  "statement_canTransition s s' \<longleftrightarrow> s' \<in> set (statement_TRANSITIONS s)"

definition statement_assertTransition :: "statement_status \<Rightarrow> statement_status \<Rightarrow> unit result" where
  "statement_assertTransition s s' =
     require (statement_canTransition s s') (StatementError ''illegal statement transition '')"

interpretation statement_sm: ranked_status_machine statement_canTransition "\<lambda>s. s = STATEMENT_VOID"
  "\<lambda>s. case s of STATEMENT_DRAFT \<Rightarrow> 2 | STATEMENT_FINALIZED \<Rightarrow> 1 | STATEMENT_VOID \<Rightarrow> 0"
proof unfold_locales
  show "\<not> statement_canTransition s t" if "s = STATEMENT_VOID" for s t
    using that by (simp add: statement_canTransition_def)
  show "\<exists>t. statement_canTransition s t" if "s \<noteq> STATEMENT_VOID" for s
    using that by (intro exI [of _ STATEMENT_VOID]) (cases s; simp add: statement_canTransition_def)
  show "(case t of STATEMENT_DRAFT \<Rightarrow> 2 | STATEMENT_FINALIZED \<Rightarrow> 1 | STATEMENT_VOID \<Rightarrow> 0)
      < (case s of STATEMENT_DRAFT \<Rightarrow> 2 | STATEMENT_FINALIZED \<Rightarrow> 1 | STATEMENT_VOID \<Rightarrow> (0 :: nat))"
    if "statement_canTransition s t" for s t
    using that by (cases s; cases t) (simp_all add: statement_canTransition_def)
qed

text \<open>The names the categories have as strings, which \<open>localeCompare\<close> orders.\<close>

fun category_name :: "ledger_category \<Rightarrow> string" where
  "category_name CAPTURE = ''CAPTURE''"
| "category_name REFUND = ''REFUND''"
| "category_name FEE = ''FEE''"
| "category_name SPLIT = ''SPLIT''"
| "category_name PAYOUT = ''PAYOUT''"
| "category_name CHARGEBACK = ''CHARGEBACK''"
| "category_name RESERVE_RELEASE = ''RESERVE_RELEASE''"
| "category_name ADJUSTMENT = ''ADJUSTMENT''"
| "category_name FX_ADJUSTMENT = ''FX_ADJUSTMENT''"
| "category_name DISBURSEMENT = ''DISBURSEMENT''"
| "category_name TAX = ''TAX''"

definition entry_delta :: "statement_entry \<Rightarrow> centimes" where
  "entry_delta x = (if se_direction x = CREDIT then se_amountCents x else - se_amountCents x)"

text \<open>\<open>volumeByCategory\<close>: the entries of the \<open>Map\<close> in insertion order.\<close>

fun add_volume :: "ledger_category \<Rightarrow> centimes \<Rightarrow> category_item list \<Rightarrow> category_item list" where
  "add_volume c n [] = [\<lparr>ci_category = c, ci_amountCents = 0 + n, ci_entryCount = 0 + 1\<rparr>]"
| "add_volume c n (v # vs) =
     (if ci_category v = c then v\<lparr>ci_amountCents := ci_amountCents v + n, ci_entryCount := ci_entryCount v + 1\<rparr> # vs
      else v # add_volume c n vs)"

definition statement_step ::
  "int \<Rightarrow> int \<Rightarrow> statement_entry \<Rightarrow> centimes \<times> centimes \<times> category_item list \<Rightarrow> centimes \<times> centimes \<times> category_item list" where
  "statement_step start finish x acc =
     (let (opening, closing, volume) = acc; t = se_createdAt x
      in (if se_account x = AVAILABLE \<and> t < start then opening + entry_delta x else opening,
          if se_account x = AVAILABLE \<and> t < finish then closing + entry_delta x else closing,
          if t \<ge> start \<and> t < finish \<and> se_direction x = DEBIT then add_volume (se_category x) (se_amountCents x) volume else volume))"

definition buildStatement ::
  "(string \<Rightarrow> string \<Rightarrow> int) \<Rightarrow> statement_entry list \<Rightarrow> int \<Rightarrow> int \<Rightarrow> statement_result result" where
  "buildStatement lc entries periodStart periodEnd =
     (if periodStart \<ge> periodEnd then Inl (StatementError ''periodStart must be before periodEnd'')
      else
        let (opening, closing, volume) = fold (statement_step periodStart periodEnd) entries (0, 0, []);
            items = sort_by (\<lambda>a b. lc (category_name (ci_category a)) (category_name (ci_category b)) \<le> 0) volume
        in Inr \<lparr>openingBalanceCents = opening, closingBalanceCents = closing, st_netCents = closing - opening, st_items = items\<rparr>)"

section \<open>Persistence\<close>

record create_settlement_statement_input =
  cs_periodStart :: int
  cs_periodEnd :: int
  cs_currency :: "currency option"

definition statement_entries :: "db \<Rightarrow> string \<Rightarrow> statement_entry list" where
  "statement_entries d tenantId =
     map (\<lambda>r. \<lparr>se_category = le_category r, se_account = le_account r, se_direction = le_direction r,
               se_amountCents = le_amount r, se_createdAt = le_createdAt r\<rparr>)
       (sort_key (\<lambda>r. (le_createdAt r, le_id r)) (filter (\<lambda>r. le_tenantId r = tenantId) (ledgerEntries d)))"

fun create_statement_items :: "env \<Rightarrow> string \<Rightarrow> category_item list \<Rightarrow> nat \<Rightarrow> statement_item list" where
  "create_statement_items e statementId [] n = []"
| "create_statement_items e statementId (x # xs) n =
     \<lparr>si_id = gen e n, si_statementId = statementId, si_category = ci_category x, si_amount = ci_amountCents x,
      si_entryCount = ci_entryCount x\<rparr> # create_statement_items e statementId xs (Suc n)"

definition createSettlementStatement ::
  "(string \<Rightarrow> string \<Rightarrow> int) \<Rightarrow> env \<Rightarrow> string \<Rightarrow> create_settlement_statement_input \<Rightarrow> db \<Rightarrow> (settlement_statement \<times> db) result" where
  "createSettlementStatement lc e tenantId input d =
     ebind (buildStatement lc (statement_entries d tenantId) (cs_periodStart input) (cs_periodEnd input)) (\<lambda>r.
       let s = \<lparr>ss_id = fresh e d, ss_tenantId = tenantId, ss_periodStart = cs_periodStart input, ss_periodEnd = cs_periodEnd input,
                ss_currency = coalesce (cs_currency input) MAD, ss_status = STATEMENT_DRAFT,
                ss_openingBalance = openingBalanceCents r, ss_closingBalance = closingBalanceCents r,
                ss_netAmount = st_netCents r, ss_finalizedAt = None\<rparr>
       in Inr (s, d\<lparr>seq := Suc (seq d + length (st_items r)), statements := statements d @ [s],
                    statementItems := statementItems d @ create_statement_items e (fresh e d) (st_items r) (Suc (seq d))\<rparr>))"

definition find_statement :: "db \<Rightarrow> string \<Rightarrow> string \<Rightarrow> settlement_statement option" where
  "find_statement d tenantId i = find (\<lambda>s. ss_id s = i \<and> ss_tenantId s = tenantId) (statements d)"

definition getSettlementStatement :: "db \<Rightarrow> string \<Rightarrow> string \<Rightarrow> (settlement_statement \<times> statement_item list) option" where
  "getSettlementStatement d tenantId i =
     map_option (\<lambda>s. (s, filter (\<lambda>x. si_statementId x = i) (statementItems d))) (find_statement d tenantId i)"

definition finalizeSettlementStatement :: "env \<Rightarrow> string \<Rightarrow> string \<Rightarrow> db \<Rightarrow> db result" where
  "finalizeSettlementStatement e tenantId i d =
     (case find_statement d tenantId i of
        None \<Rightarrow> Inl (StatementError ''settlement statement not found'')
      | Some s \<Rightarrow>
          ebind (statement_assertTransition (ss_status s) STATEMENT_FINALIZED) (\<lambda>_.
            Inr (d\<lparr>statements := map (\<lambda>x. if ss_id x = i
              then x\<lparr>ss_status := STATEMENT_FINALIZED, ss_finalizedAt := Some (now e)\<rparr> else x) (statements d)\<rparr>)))"

definition voidSettlementStatement :: "string \<Rightarrow> string \<Rightarrow> db \<Rightarrow> db result" where
  "voidSettlementStatement tenantId i d =
     (case find_statement d tenantId i of
        None \<Rightarrow> Inl (StatementError ''settlement statement not found'')
      | Some s \<Rightarrow>
          ebind (statement_assertTransition (ss_status s) STATEMENT_VOID) (\<lambda>_.
            Inr (d\<lparr>statements := map (\<lambda>x. if ss_id x = i then x\<lparr>ss_status := STATEMENT_VOID\<rparr> else x) (statements d)\<rparr>)))"

section \<open>Lemmas\<close>

text \<open>The reference: a position before an instant, and the volume of a category in a window, as plain sums.\<close>

definition position :: "statement_entry list \<Rightarrow> int \<Rightarrow> centimes" where
  "position xs t = (\<Sum>x\<leftarrow>filter (\<lambda>x. se_account x = AVAILABLE \<and> se_createdAt x < t) xs. entry_delta x)"

definition window_debits :: "statement_entry list \<Rightarrow> int \<Rightarrow> int \<Rightarrow> ledger_category \<Rightarrow> statement_entry list" where
  "window_debits xs a b c =
     filter (\<lambda>x. a \<le> se_createdAt x \<and> se_createdAt x < b \<and> se_direction x = DEBIT \<and> se_category x = c) xs"

definition item_of :: "category_item list \<Rightarrow> ledger_category \<Rightarrow> category_item option" where
  "item_of vs c = find (\<lambda>v. ci_category v = c) vs"

lemma item_of_add:
  "item_of (add_volume c n vs) k = (if k = c
     then Some (case item_of vs c of None \<Rightarrow> \<lparr>ci_category = c, ci_amountCents = n, ci_entryCount = 1\<rparr>
       | Some v \<Rightarrow> v\<lparr>ci_amountCents := ci_amountCents v + n, ci_entryCount := ci_entryCount v + 1\<rparr>)
     else item_of vs k)"
  by (induction vs) (auto simp: item_of_def)

lemma distinct_add_volume: "distinct (map ci_category vs) \<Longrightarrow> distinct (map ci_category (add_volume c n vs))"
proof (induction vs)
  case (Cons v vs)
  have "ci_category ` set (add_volume c n vs) \<subseteq> insert c (ci_category ` set vs)" by (induction vs) auto
  with Cons show ?case by auto
qed simp

definition volume_ok :: "statement_entry list \<Rightarrow> int \<Rightarrow> int \<Rightarrow> category_item list \<Rightarrow> bool" where
  "volume_ok xs a b vs \<longleftrightarrow> distinct (map ci_category vs) \<and>
     (\<forall>c. item_of vs c = (if window_debits xs a b c = [] then None
        else Some \<lparr>ci_category = c, ci_amountCents = (\<Sum>x\<leftarrow>window_debits xs a b c. se_amountCents x),
                   ci_entryCount = length (window_debits xs a b c)\<rparr>))"

lemma statement_fold:
  assumes "volume_ok xs a b vs"
  shows "\<exists>vs'. fold (statement_step a b) ys (position xs a, position xs b, vs) = (position (xs @ ys) a, position (xs @ ys) b, vs') \<and>
    volume_ok (xs @ ys) a b vs'"
  using assms
proof (induction ys arbitrary: xs vs)
  case (Cons y ys)
  define vs1 where "vs1 = (if se_createdAt y \<ge> a \<and> se_createdAt y < b \<and> se_direction y = DEBIT
    then add_volume (se_category y) (se_amountCents y) vs else vs)"
  have "statement_step a b y (position xs a, position xs b, vs) = (position (xs @ [y]) a, position (xs @ [y]) b, vs1)"
    by (auto simp: statement_step_def position_def vs1_def)
  moreover have "volume_ok (xs @ [y]) a b vs1"
    using Cons.prems by (auto simp: volume_ok_def vs1_def item_of_add window_debits_def distinct_add_volume)
  ultimately show ?case using Cons.IH [of "xs @ [y]" vs1] by simp
qed simp

lemma find_mset:
  assumes "distinct (map f xs)" "mset ys = mset xs"
  shows "find (\<lambda>x. f x = k) ys = find (\<lambda>x. f x = k) xs"
proof -
  have d: "distinct (map f ys)" using assms by (metis mset_eq_imp_distinct_iff mset_map)
  have uniq: "find (\<lambda>x. f x = k) zs = Some z \<longleftrightarrow> z \<in> set zs \<and> f z = k" if "distinct (map f zs)" for zs z
    using that by (induction zs) auto
  have "set ys = set xs" using assms(2) by (metis set_mset_mset)
  then have "find (\<lambda>x. f x = k) ys = Some z \<longleftrightarrow> find (\<lambda>x. f x = k) xs = Some z" for z
    using uniq [OF d] uniq [OF assms(1)] by simp
  then show ?thesis by (metis not_Some_eq)
qed

lemma buildStatement_run:
  assumes "a < b"
  shows "\<exists>r. buildStatement lc xs a b = Inr r \<and> openingBalanceCents r = position xs a \<and> closingBalanceCents r = position xs b \<and>
    st_netCents r = position xs b - position xs a \<and> volume_ok xs a b (st_items r)"
proof -
  have "volume_ok [] a b []" by (simp add: volume_ok_def item_of_def window_debits_def)
  from statement_fold [OF this, of xs] obtain vs where
    f: "fold (statement_step a b) xs (0, 0, []) = (position xs a, position xs b, vs)" and v: "volume_ok xs a b vs"
    by (auto simp: position_def)
  let ?items = "sort_by (\<lambda>a b. lc (category_name (ci_category a)) (category_name (ci_category b)) \<le> 0) vs"
  have "volume_ok xs a b ?items"
  proof -
    have d: "distinct (map ci_category vs)" using v by (simp add: volume_ok_def)
    have "item_of ?items c = item_of vs c" for c
      unfolding item_of_def by (rule find_mset [OF d mset_sort_by])
    moreover have "distinct (map ci_category ?items)"
      using d mset_sort_by by (metis mset_eq_imp_distinct_iff mset_map)
    ultimately show ?thesis using v by (simp add: volume_ok_def)
  qed
  with f assms show ?thesis by (simp add: buildStatement_def)
qed

definition amount_in :: "statement_result \<Rightarrow> ledger_category \<Rightarrow> centimes" where
  "amount_in r c = (case item_of (st_items r) c of None \<Rightarrow> 0 | Some v \<Rightarrow> ci_amountCents v)"

lemma amount_in_volume: "volume_ok xs a b (st_items r) \<Longrightarrow> amount_in r c = (\<Sum>x\<leftarrow>window_debits xs a b c. se_amountCents x)"
  by (simp add: volume_ok_def amount_in_def)

lemma window_split:
  "a \<le> b \<Longrightarrow> b \<le> c \<Longrightarrow> (\<Sum>x\<leftarrow>window_debits xs a c k. se_amountCents x) =
     (\<Sum>x\<leftarrow>window_debits xs a b k. se_amountCents x) + (\<Sum>x\<leftarrow>window_debits xs b c k. se_amountCents x)"
  by (induction xs) (auto simp: window_debits_def)

lemma position_balance:
  assumes "\<forall>r\<in>set (ledgerEntries d). le_tenantId r = t \<longrightarrow> le_currency r = c \<and> le_createdAt r < b"
  shows "position (statement_entries d t) b = accountBalanceCents d t AVAILABLE c"
proof -
  let ?rows = "filter (\<lambda>r. le_tenantId r = t) (ledgerEntries d)"
  let ?k = "\<lambda>r. (le_createdAt r, le_id r)"
  have "position (statement_entries d t) b =
      (\<Sum>r\<leftarrow>filter (\<lambda>r. le_account r = AVAILABLE \<and> le_createdAt r < b) (sort_key ?k ?rows). delta (leg_of_row r))"
    by (simp add: position_def statement_entries_def filter_map comp_def entry_delta_def cong: if_cong)
  also have "\<dots> = balanceOf (map leg_of_row (sort_key ?k ?rows)) AVAILABLE c"
  proof -
    have "filter (\<lambda>r. le_account r = AVAILABLE \<and> le_createdAt r < b) (sort_key ?k ?rows) =
        filter (\<lambda>r. le_account r = AVAILABLE \<and> le_currency r = c) (sort_key ?k ?rows)"
      by (rule filter_cong [OF refl]) (use assms in auto)
    then show ?thesis by (simp add: balanceOf_sum filter_map comp_def)
  qed
  finally show ?thesis by (simp add: accountBalanceCents_legs balanceOf_sorted tenant_legs_def entries_of_def)
qed

lemma find_statement_frame: "find (\<lambda>s. ss_id s = i \<and> ss_tenantId s = t) (map (\<lambda>x. if ss_id x = i then f x else x) xs) =
    map_option f (find (\<lambda>s. ss_id s = i \<and> ss_tenantId s = t) xs)"
  if "\<And>x. ss_id (f x) = ss_id x" "\<And>x. ss_tenantId (f x) = ss_tenantId x"
  using that by (induction xs) auto

section \<open>Properties\<close>

text \<open>
  Consecutive statements fit together. For instants \<open>a < b < c\<close> over the same entries, the three statements are built;
  the closing balance of the first period is the opening balance of the second, the net of the whole is the sum of the
  nets, and for every category the volume of the whole is the sum of the volumes, so no entry is lost or counted twice
  at the boundary.
\<close>

lemma statement_periods_chain:
  assumes "a < b" "b < c"
  shows "\<exists>r1 r2 r. buildStatement lc xs a b = Inr r1 \<and> buildStatement lc xs b c = Inr r2 \<and> buildStatement lc xs a c = Inr r \<and>
    closingBalanceCents r1 = openingBalanceCents r2 \<and> openingBalanceCents r = openingBalanceCents r1 \<and>
    closingBalanceCents r = closingBalanceCents r2 \<and> st_netCents r = st_netCents r1 + st_netCents r2 \<and>
    (\<forall>k. amount_in r k = amount_in r1 k + amount_in r2 k)"
proof -
  from assms have "a < c" by simp
  then obtain r where r: "buildStatement lc xs a c = Inr r" "openingBalanceCents r = position xs a" "closingBalanceCents r = position xs c"
    "st_netCents r = position xs c - position xs a" "volume_ok xs a c (st_items r)" using buildStatement_run by blast
  obtain r1 where r1: "buildStatement lc xs a b = Inr r1" "openingBalanceCents r1 = position xs a" "closingBalanceCents r1 = position xs b"
    "st_netCents r1 = position xs b - position xs a" "volume_ok xs a b (st_items r1)" using buildStatement_run [OF assms(1)] by blast
  obtain r2 where r2: "buildStatement lc xs b c = Inr r2" "openingBalanceCents r2 = position xs b" "closingBalanceCents r2 = position xs c"
    "st_netCents r2 = position xs c - position xs b" "volume_ok xs b c (st_items r2)" using buildStatement_run [OF assms(2)] by blast
  have "\<forall>k. amount_in r k = amount_in r1 k + amount_in r2 k"
    using window_split [of a b c xs] assms by (simp add: amount_in_volume [OF r(5)] amount_in_volume [OF r1(5)] amount_in_volume [OF r2(5)])
  with r r1 r2 show ?thesis by simp
qed

text \<open>
  A stored statement. When all the tenant's ledger rows are in one currency and lie before the end of the period,
  the statement's closing balance is the tenant's AVAILABLE balance in the ledger and its net amount is closing less opening.
  It can be finalized once; finalizing or voiding it changes no figure of it and no row of the ledger; a voided statement
  admits neither.
\<close>

lemma createSettlementStatement_correct:
  assumes "createSettlementStatement lc e t input d = Inr (s, d')"
    and "\<forall>r\<in>set (ledgerEntries d). le_tenantId r = t \<longrightarrow> le_currency r = c \<and> le_createdAt r < cs_periodEnd input"
    and "find_statement d t (ss_id s) = None"
  shows "ss_closingBalance s = accountBalanceCents d t AVAILABLE c \<and> ss_netAmount s = ss_closingBalance s - ss_openingBalance s \<and>
    find_statement d' t (ss_id s) = Some s \<and>
    (\<exists>d2. finalizeSettlementStatement e' t (ss_id s) d' = Inr d2 \<and> ledgerEntries d2 = ledgerEntries d \<and>
       find_statement d2 t (ss_id s) = Some (s\<lparr>ss_status := STATEMENT_FINALIZED, ss_finalizedAt := Some (now e')\<rparr>) \<and>
       \<not> is_ok (finalizeSettlementStatement e' t (ss_id s) d2) \<and>
       (\<exists>d3. voidSettlementStatement t (ss_id s) d2 = Inr d3 \<and> ledgerEntries d3 = ledgerEntries d \<and>
          find_statement d3 t (ss_id s) = Some (s\<lparr>ss_status := STATEMENT_VOID, ss_finalizedAt := Some (now e')\<rparr>) \<and>
          \<not> is_ok (finalizeSettlementStatement e' t (ss_id s) d3) \<and> \<not> is_ok (voidSettlementStatement t (ss_id s) d3)))"
proof -
  from assms(1) obtain r where r: "buildStatement lc (statement_entries d t) (cs_periodStart input) (cs_periodEnd input) = Inr r"
    by (auto simp: createSettlementStatement_def)
  then have "cs_periodStart input < cs_periodEnd input" by (auto simp: buildStatement_def split: if_splits)
  from buildStatement_run [OF this, of lc "statement_entries d t"] r have
    v: "closingBalanceCents r = position (statement_entries d t) (cs_periodEnd input)" "st_netCents r = closingBalanceCents r - openingBalanceCents r" by auto
  from assms(1) r have s: "ss_closingBalance s = closingBalanceCents r" "ss_netAmount s = st_netCents r" "ss_openingBalance s = openingBalanceCents r"
    "ss_status s = STATEMENT_DRAFT" "ss_tenantId s = t" "statements d' = statements d @ [s]" "ledgerEntries d' = ledgerEntries d"
    by (auto simp: createSettlementStatement_def Let_def)
  have f: "find_statement d' t (ss_id s) = Some s" using assms(3) s(5,6) by (simp add: find_statement_def find_append)
  let ?fin = "\<lambda>x. x\<lparr>ss_status := STATEMENT_FINALIZED, ss_finalizedAt := Some (now e')\<rparr>"
  obtain d2 where d2: "finalizeSettlementStatement e' t (ss_id s) d' = Inr d2" "ledgerEntries d2 = ledgerEntries d"
      "statements d2 = map (\<lambda>x. if ss_id x = ss_id s then ?fin x else x) (statements d')"
    using f s(4,7) by (simp add: finalizeSettlementStatement_def statement_assertTransition_def statement_canTransition_def)
  have f2: "find_statement d2 t (ss_id s) = Some (?fin s)"
    using f find_statement_frame [of ?fin "ss_id s" t "statements d'"] by (simp add: find_statement_def d2(3))
  let ?void = "\<lambda>x :: settlement_statement. x\<lparr>ss_status := STATEMENT_VOID\<rparr>"
  obtain d3 where d3: "voidSettlementStatement t (ss_id s) d2 = Inr d3" "ledgerEntries d3 = ledgerEntries d"
      "statements d3 = map (\<lambda>x. if ss_id x = ss_id s then ?void x else x) (statements d2)"
    using f2 d2(2) by (simp add: voidSettlementStatement_def statement_assertTransition_def statement_canTransition_def)
  have f3: "find_statement d3 t (ss_id s) = Some (?void (?fin s))"
    using f2 find_statement_frame [of ?void "ss_id s" t "statements d2"] by (simp add: find_statement_def d3(3))
  have "\<not> is_ok (finalizeSettlementStatement e' t (ss_id s) d2)" "\<not> is_ok (finalizeSettlementStatement e' t (ss_id s) d3)"
    "\<not> is_ok (voidSettlementStatement t (ss_id s) d3)"
    using f2 f3 by (simp_all add: finalizeSettlementStatement_def voidSettlementStatement_def statement_assertTransition_def statement_canTransition_def)
  moreover have "ss_closingBalance s = accountBalanceCents d t AVAILABLE c"
    using position_balance [OF assms(2)] s(1) v(1) by simp
  moreover have "ss_netAmount s = ss_closingBalance s - ss_openingBalance s" using s(1-3) v(2) by simp
  ultimately show ?thesis using f d2(1,2) f2 d3(1,2) f3 by simp
qed

end
