(* ===== verification/Admin.thy ===== *)
theory Admin
  imports Checkout PayoutRoute Reconciliation Statements
begin

text \<open>
  \<open>src/routes/admin.ts\<close>: the administrator's actions across tenants. The resolution of a risk review captures or voids a held
  payment and records the verdict; the others look up the row by its id alone and run the tenant's own operation for the tenant that
  owns it. The manual execution of payouts is in theory PayoutRoute.
\<close>

section \<open>Definitions\<close>

definition record_verdict :: "string \<Rightarrow> payment_intent \<Rightarrow> risk_verdict \<Rightarrow> (string \<times> risk_verdict option \<times> payment_intent_status) job_step" where
  "record_verdict userId intent verdict d =
     (let d1 = update_intent (in_id intent) (\<lambda>r. r\<lparr>in_riskVerdict := Some verdict\<rparr>) d
      in case find (\<lambda>r. in_id r = in_id intent) (paymentIntents d1) of
           None \<Rightarrow> (Inl (JsError ''P2025''), d)
         | Some updated \<Rightarrow>
             (Inr (in_id updated, in_riskVerdict updated, in_status updated),
              audit (in_tenantId intent) userId ''RISK_OVERRIDE'' ''PaymentIntent'' (in_id intent) d1))"

text \<open>\<open>verdict\<close> is ALLOW or BLOCK, the values the request's schema admits.\<close>

definition resolveRiskDecision ::
  "(string \<Rightarrow> string \<Rightarrow> int) \<Rightarrow> (provider \<Rightarrow> string \<Rightarrow> provider_adapter result) \<Rightarrow> env \<Rightarrow> string \<Rightarrow> string \<Rightarrow> risk_verdict
    \<Rightarrow> (string \<times> risk_verdict option \<times> payment_intent_status) job_step" where
  "resolveRiskDecision lc getAdapter e userId i verdict d =
     (if verdict \<notin> {ALLOW, BLOCK} then (Inl (AppError 422 ''VALIDATION_ERROR''), d)
      else case find (\<lambda>r. in_id r = i) (paymentIntents d) of
        None \<Rightarrow> (Inl (AppError 404 ''INTENT_NOT_FOUND''), d)
      | Some intent \<Rightarrow>
          sbind (if in_status intent = INTENT_AUTHORIZED
                 then sbind (if verdict = ALLOW then captureIntent lc getAdapter e (in_id intent) None d
                             else voidIntent getAdapter e (in_id intent) None d) (\<lambda>_ d1. (Inr (), d1))
                 else (Inr (), d)) (\<lambda>_ d1. record_verdict userId intent verdict d1))"

definition adminResolveDispute :: "env \<Rightarrow> string \<Rightarrow> string \<Rightarrow> dispute_status \<Rightarrow> unit job_step" where
  "adminResolveDispute e userId i outcome d =
     (if outcome \<notin> {DISPUTE_WON, DISPUTE_LOST} then (Inl (AppError 422 ''VALIDATION_ERROR''), d)
      else case find (\<lambda>x. di_id x = i) (disputes d) of
        None \<Rightarrow> (Inl (AppError 404 ''DISPUTE_NOT_FOUND''), d)
      | Some dispute \<Rightarrow>
          (case resolveDispute e (di_tenantId dispute) (di_id dispute) outcome d of
             Inl x \<Rightarrow> (Inl x, d)
           | Inr d1 \<Rightarrow> (Inr (), audit (di_tenantId dispute) userId ''DISPUTE_RESOLVED'' ''Dispute'' (di_id dispute) d1)))"

definition adminResolveReconciliation :: "string \<Rightarrow> unit job_step" where
  "adminResolveReconciliation i d =
     (case find (\<lambda>x. rr_id x = i) (reconciliationReports d) of
        None \<Rightarrow> (Inl (AppError 404 ''RECONCILIATION_NOT_FOUND''), d)
      | Some report \<Rightarrow>
          (case resolveReconciliation (rr_tenantId report) (rr_id report) d of Inl x \<Rightarrow> (Inl x, d) | Inr d1 \<Rightarrow> (Inr (), d1)))"

definition adminFinalizeStatement :: "env \<Rightarrow> string \<Rightarrow> unit job_step" where
  "adminFinalizeStatement e i d =
     (case find (\<lambda>x. ss_id x = i) (statements d) of
        None \<Rightarrow> (Inl (AppError 404 ''STATEMENT_NOT_FOUND''), d)
      | Some statement \<Rightarrow>
          (case finalizeSettlementStatement e (ss_tenantId statement) (ss_id statement) d of Inl x \<Rightarrow> (Inl x, d) | Inr d1 \<Rightarrow> (Inr (), d1)))"

definition adminVoidStatement :: "string \<Rightarrow> unit job_step" where
  "adminVoidStatement i d =
     (case find (\<lambda>x. ss_id x = i) (statements d) of
        None \<Rightarrow> (Inl (AppError 404 ''STATEMENT_NOT_FOUND''), d)
      | Some statement \<Rightarrow>
          (case voidSettlementStatement (ss_tenantId statement) (ss_id statement) d of Inl x \<Rightarrow> (Inl x, d) | Inr d1 \<Rightarrow> (Inr (), d1)))"

section \<open>The ledger under these requests\<close>

lemma record_verdict_ledger: "ledgerEntries (snd (record_verdict u r v d)) = ledgerEntries d"
  by (auto simp: record_verdict_def update_intent_def Let_def split: option.splits)

lemma voidIntent_ledger: "ledgerEntries (snd (voidIntent getAdapter e i t d)) = ledgerEntries d"
  by (auto simp: voidIntent_def lock_intent_def revertLock_def commit_status_def set_intent_status_def bump_def sbind_def Let_def
      split: sum.splits option.splits prod.splits)

interpretation risk_request: ledger_job "\<lambda>d. snd (resolveRiskDecision lc getAdapter e u i v d)" for lc getAdapter e u i v
proof unfold_locales
  fix d
  have rec: "reaches money_step d' (snd (record_verdict u r v d'))" for d' r
    by (rule reaches_other [OF record_verdict_ledger])
  have act: "reaches money_step d (snd (if v = ALLOW then captureIntent lc getAdapter e j None d else voidIntent getAdapter e j None d))" for j
    by (simp add: captureIntent_reaches reaches_other [OF voidIntent_ledger])
  have held: "reaches money_step d (snd (sbind (if v = ALLOW then captureIntent lc getAdapter e j None d else voidIntent getAdapter e j None d)
      (\<lambda>_ d1. (Inr (), d1))))" for j
    by (rule reaches_sbind [OF act]) (simp add: reaches_other)
  have "reaches money_step d (snd (sbind (if in_status r = INTENT_AUTHORIZED
       then sbind (if v = ALLOW then captureIntent lc getAdapter e (in_id r) None d else voidIntent getAdapter e (in_id r) None d)
              (\<lambda>_ d1. (Inr (), d1)) else (Inr (), d)) (\<lambda>_ d1. record_verdict u r v d1)))" for r
    using held [of "in_id r"] by (intro reaches_sbind rec) (auto simp: reaches_other)
  then show "reaches money_step d (snd (resolveRiskDecision lc getAdapter e u i v d))"
    unfolding resolveRiskDecision_def by (cases "find (\<lambda>r. in_id r = i) (paymentIntents d)") (simp_all add: reaches_other)
qed

interpretation admin_dispute: ledger_job "\<lambda>d. snd (adminResolveDispute e u i outcome d)" for e u i outcome
proof unfold_locales
  fix d
  have resolved: "reaches money_step d d'" if "resolveDispute e t j outcome d = Inr d'" for t j d'
    using that
    by (auto simp: resolveDispute_def resolveDispute_won_def set_dispute_def split: if_splits option.splits
        intro: reaches_other reaches_step [OF money_step.lose_dispute])
  show "reaches money_step d (snd (adminResolveDispute e u i outcome d))"
  proof (cases "outcome \<in> {DISPUTE_WON, DISPUTE_LOST}")
    case True
    then show ?thesis
      by (simp only: adminResolveDispute_def if_False not_not split: option.split sum.split)
         (auto intro: reaches_other reaches_then [OF resolved])
  qed (auto simp: adminResolveDispute_def intro: reaches_other)
qed

interpretation admin_reconciliation: ledger_neutral "\<lambda>d. snd (adminResolveReconciliation i d)" for i
  by unfold_locales (auto simp: adminResolveReconciliation_def resolveReconciliation_def split: option.splits sum.splits)

interpretation admin_finalize: ledger_neutral "\<lambda>d. snd (adminFinalizeStatement e i d)" for e i
  by unfold_locales (auto simp: adminFinalizeStatement_def finalizeSettlementStatement_def split: option.splits sum.splits)

interpretation admin_void: ledger_neutral "\<lambda>d. snd (adminVoidStatement i d)" for i
  by unfold_locales (auto simp: adminVoidStatement_def voidSettlementStatement_def split: option.splits sum.splits)

section \<open>The verdict and the payment\<close>

lemma record_verdict_run:
  fixes v :: risk_verdict
  assumes "the_intent d i r"
  defines "d1 \<equiv> update_intent i (\<lambda>x. x\<lparr>in_riskVerdict := Some v\<rparr>) d"
  shows "record_verdict u r v d = (Inr (i, Some v, in_status r), audit (in_tenantId r) u ''RISK_OVERRIDE'' ''PaymentIntent'' i d1)"
    and "the_intent (audit t' u' a ty j d1) i (r\<lparr>in_riskVerdict := Some v\<rparr>)"
proof -
  have i: "in_id r = i" using assms(1) by (simp add: the_intent_def)
  have "find (\<lambda>r. in_id r = i) (paymentIntents d1) = Some (r\<lparr>in_riskVerdict := Some v\<rparr>)"
    using find_update_key [of in_id "\<lambda>x. x\<lparr>in_riskVerdict := Some v\<rparr>" i i "paymentIntents d"] the_intent_found [OF assms(1)]
    by (simp add: d1_def update_intent_def)
  then show "record_verdict u r v d = (Inr (i, Some v, in_status r), audit (in_tenantId r) u ''RISK_OVERRIDE'' ''PaymentIntent'' i d1)"
    by (simp add: record_verdict_def i d1_def Let_def)
  show "the_intent (audit t' u' a ty j d1) i (r\<lparr>in_riskVerdict := Some v\<rparr>)"
    using assms(1) by (force simp: the_intent_def d1_def update_intent_def audit_def)
qed

lemma verdict_stripe_intent:
  assumes "find_stripe_intent d obj = Some r" "in_id r = i"
  shows "find_stripe_intent (audit t u a ty j (update_intent i (\<lambda>x. x\<lparr>in_riskVerdict := Some v\<rparr>) d)) obj = Some (r\<lparr>in_riskVerdict := Some v\<rparr>)"
proof -
  let ?f = "\<lambda>x. if in_id x = i then x\<lparr>in_riskVerdict := Some v\<rparr> else x"
  let ?d = "audit t u a ty j (update_intent i (\<lambda>x. x\<lparr>in_riskVerdict := Some v\<rparr>) d)"
  have rows: "paymentIntents ?d = map ?f (paymentIntents d)" by (simp add: audit_def update_intent_def)
  have "find P (paymentIntents ?d) = map_option ?f (find P (paymentIntents d))" if "\<And>x. P (x\<lparr>in_riskVerdict := Some v\<rparr>) = P x" for P
    unfolding rows using that by (rule find_cong_update)
  then have "intent_by_correlation ?d STRIPE c = map_option ?f (intent_by_correlation d STRIPE c)"
    "find (\<lambda>r. in_providerRef r = Some k \<and> in_provider r = STRIPE) (paymentIntents ?d) =
       map_option ?f (find (\<lambda>r. in_providerRef r = Some k \<and> in_provider r = STRIPE) (paymentIntents d))" for c k
    by (simp_all add: intent_by_correlation_def)
  moreover have "map_option f (or_else x y) = or_else (map_option f x) (map_option f y)" for f :: "payment_intent \<Rightarrow> payment_intent" and x y
    by (simp add: or_else_def split: option.split)
  moreover have "map_option f (Option.bind x g) = Option.bind x (\<lambda>z. map_option f (g z))"
    for f :: "payment_intent \<Rightarrow> payment_intent" and x :: "string option" and g
    by (cases x) simp_all
  ultimately have "find_stripe_intent ?d obj = map_option ?f (find_stripe_intent d obj)"
    unfolding find_stripe_intent_def Let_def by (simp only: if_distrib [of "map_option ?f"] option.map)
  then show ?thesis using assms by simp
qed

section \<open>Property\<close>

text \<open>
  Blocking a payment that is not held does not stop it. When an administrator resolves the review of a Stripe payment that is not
  yet AUTHORIZED as BLOCK, the request succeeds and only records the verdict; the provider is not told, and the success event
  that follows makes the payment SUCCEEDED and settles it, since nothing reads the verdict again.
\<close>

lemma blocked_payment_settles:
  assumes "the_intent d i r" "in_status r \<notin> TERMINAL_STATUSES" "in_status r \<noteq> INTENT_AUTHORIZED"
    "find_stripe_intent d (event_object body) = Some r"
    "route_stripe_event (event_type body) (event_object body) = Some (INTENT_SUCCEEDED, tx)" "\<not> seen_event d key"
    "settle_ready d (in_tenantId r) (Math_round (fst (link_charge d r)))" "0 < Math_round (fst (link_charge d r))"
  shows "\<exists>d1 d2. resolveRiskDecision lc getAdapter e u i BLOCK d = (Inr (i, Some BLOCK, in_status r), d1) \<and>
    ledgerEntries d1 = ledgerEntries d \<and>
    stripeWebhookProcessor lc e' body key d1 = (Inr (Some INTENT_SUCCEEDED), d2) \<and> alreadySettled d2 (in_tenantId r) i"
proof -
  have i: "in_id r = i" using assms(1) by (simp add: the_intent_def)
  let ?r = "r\<lparr>in_riskVerdict := Some BLOCK\<rparr>"
  define d1 where "d1 = audit (in_tenantId r) u ''RISK_OVERRIDE'' ''PaymentIntent'' i (update_intent i (\<lambda>x. x\<lparr>in_riskVerdict := Some BLOCK\<rparr>) d)"
  have run: "resolveRiskDecision lc getAdapter e u i BLOCK d = (Inr (i, Some BLOCK, in_status r), d1)"
    using assms(3) the_intent_found [OF assms(1)] record_verdict_run(1) [OF assms(1), of u BLOCK] by (simp add: resolveRiskDecision_def d1_def)
  have money: "same_money d d1" by (simp add: d1_def same_money_def audit_def update_intent_def)
  have charge: "link_charge d1 ?r = link_charge d r" by (simp add: d1_def link_charge_def find_link_def audit_def update_intent_def cong: option.case_cong)
  have "\<exists>d2. stripeWebhookProcessor lc e' body key d1 = (Inr (Some INTENT_SUCCEEDED), d2) \<and> alreadySettled d2 (in_tenantId ?r) (in_id ?r)"
  proof (rule stripe_success_settles [OF _ _ _ assms(5)])
    show "find_stripe_intent d1 (event_object body) = Some ?r" unfolding d1_def by (rule verdict_stripe_intent [OF assms(4) i])
    show "the_intent d1 (in_id ?r) ?r" using record_verdict_run(2) [OF assms(1)] by (simp add: d1_def i)
  qed (use assms same_money_settle [OF money] charge in simp_all)
  moreover have "ledgerEntries d1 = ledgerEntries d" using money by (simp add: same_money_def)
  ultimately show ?thesis using run i by auto
qed

end
