(* ===== verification/Auth.thy ===== *)
theory Auth
  imports RefundRoute
begin

text \<open>
  \<open>src/middleware/auth.ts\<close>: who a request acts as. The state holds the accounts (users, API keys, the columns of a tenant that only
  its profile shows), the in-memory cache of tenant statuses, and the writes the code starts without waiting for them. The libraries
  the code calls (bcrypt, SHA-256, random bytes, JSON Web Tokens, the validation of an e-mail address) are one argument, a record of
  functions.
\<close>

section \<open>Data\<close>

datatype user_role = OWNER | STAFF | SUPPORT_ADMIN | SUPER_ADMIN

datatype environment = SANDBOX | PRODUCTION

record user =
  us_id :: string
  us_tenantId :: string
  us_email :: string
  us_passwordHash :: string
  us_role :: user_role

record api_key =
  ak_id :: string
  ak_tenantId :: string
  ak_name :: string
  ak_keyHash :: string
  ak_keySha256 :: "string option"
  ak_keyPrefix :: string
  ak_lastUsedAt :: "int option"
  ak_revokedAt :: "int option"
  ak_createdAt :: int

text \<open>The columns of a tenant beside those of \<open>tenant\<close> in theory Schema.\<close>

record tenant_profile =
  tp_id :: string
  tp_name :: string
  tp_slug :: string
  tp_environment :: environment
  tp_notifyEmail :: "string option"
  tp_notifyWebhookUrl :: "string option"
  tp_webhookSigningSecret :: "string option"

record jwt_payload =
  jp_sub :: string
  jp_tenantId :: string
  jp_role :: user_role
  jp_email :: string

text \<open>\<open>req.user\<close>.\<close>

record req_user =
  ru_id :: string
  ru_tenantId :: string
  ru_role :: user_role
  ru_email :: string

text \<open>Updates of an API key that \<open>requireAuth\<close> starts and does not await; their errors are dropped.\<close>

datatype deferred_write = Backfill string string | StampUse string int

record accounts =
  acc_db :: db
  profiles :: "tenant_profile list"
  users :: "user list"
  apiKeys :: "api_key list"
  tenantStatusCache :: "string \<rightharpoonup> tenant_status \<times> int"
  deferred :: "deferred_write list"

type_synonym 'a account_step = "accounts \<Rightarrow> 'a result \<times> accounts"

text \<open>
  The libraries. Random values are numbered by the identifiers drawn so far: \<open>bcrypt_hash cost n\<close> hashes with the n-th salt,
  \<open>random_hex n k\<close> is the n-th drawing of k bytes in hexadecimal. A token is signed and verified at an instant.
\<close>

record libs =
  sha256 :: "string \<Rightarrow> string"
  bcrypt_hash :: "nat \<Rightarrow> nat \<Rightarrow> string \<Rightarrow> string"
  bcrypt_compare :: "string \<Rightarrow> string \<Rightarrow> bool"
  random_hex :: "nat \<Rightarrow> nat \<Rightarrow> string"
  jwt_sign :: "int \<Rightarrow> jwt_payload \<Rightarrow> string"
  jwt_verify :: "int \<Rightarrow> string \<Rightarrow> jwt_payload option"
  is_email :: "string \<Rightarrow> bool"

section \<open>Tenant status\<close>

definition startsWith :: "string \<Rightarrow> string \<Rightarrow> bool" where
  "startsWith p s \<longleftrightarrow> take (length p) s = p"

definition tenant_by_id :: "string \<Rightarrow> accounts \<Rightarrow> tenant option" where
  "tenant_by_id t s = find (\<lambda>r. tn_id r = t) (tenants (acc_db s))"

definition TENANT_CACHE_TTL_MS :: int where
  "TENANT_CACHE_TTL_MS = 60000"

definition read_tenant_status :: "string \<Rightarrow> accounts \<Rightarrow> tenant_status" where
  "read_tenant_status t s = (case tenant_by_id t s of None \<Rightarrow> TENANT_DISABLED | Some r \<Rightarrow> tn_status r)"

definition checkTenantActive :: "int \<Rightarrow> string \<Rightarrow> accounts \<Rightarrow> bool \<times> accounts" where
  "checkTenantActive instant tenantId s =
     (let look_up = (let status = read_tenant_status tenantId s
                     in (status = TENANT_ACTIVE,
                         s\<lparr>tenantStatusCache := (tenantStatusCache s)(tenantId \<mapsto> (status, instant + TENANT_CACHE_TTL_MS))\<rparr>))
      in case tenantStatusCache s tenantId of
           None \<Rightarrow> look_up
         | Some (status, expiresAt) \<Rightarrow> if expiresAt > instant then (status = TENANT_ACTIVE, s) else look_up)"

section \<open>Authentication\<close>

definition unrevoked :: "api_key \<Rightarrow> bool" where
  "unrevoked k \<longleftrightarrow> ak_revokedAt k = None"

definition by_sha256 :: "string \<Rightarrow> accounts \<Rightarrow> api_key option" where
  "by_sha256 h s = find (\<lambda>k. ak_keySha256 k = Some h \<and> unrevoked k) (apiKeys s)"

definition legacy_candidates :: "string \<Rightarrow> accounts \<Rightarrow> api_key list" where
  "legacy_candidates token s = filter (\<lambda>k. ak_keyPrefix k = take 16 token \<and> ak_keySha256 k = None \<and> unrevoked k) (apiKeys s)"

definition find_api_key :: "libs \<Rightarrow> string \<Rightarrow> accounts \<Rightarrow> api_key option \<times> accounts" where
  "find_api_key c token s =
     (case by_sha256 (sha256 c token) s of
        Some k \<Rightarrow> (Some k, s)
      | None \<Rightarrow>
          (case find (\<lambda>k. bcrypt_compare c token (ak_keyHash k)) (legacy_candidates token s) of
             None \<Rightarrow> (None, s)
           | Some k \<Rightarrow> (Some k, s\<lparr>deferred := deferred s @ [Backfill (ak_id k) (sha256 c token)]\<rparr>)))"

definition owner_of :: "string \<Rightarrow> accounts \<Rightarrow> user option" where
  "owner_of t s = find (\<lambda>u. us_tenantId u = t \<and> us_role u = OWNER) (users s)"

definition apiKeyAuth :: "libs \<Rightarrow> env \<Rightarrow> string \<Rightarrow> req_user account_step" where
  "apiKeyAuth c e token s =
     (case find_api_key c token s of
        (None, s1) \<Rightarrow> (Inl (AppError 401 ''UNAUTHORIZED''), s1)
      | (Some apiKey, s1) \<Rightarrow>
          if read_tenant_status (ak_tenantId apiKey) s1 = TENANT_DISABLED then (Inl (AppError 403 ''TENANT_DISABLED''), s1)
          else (case owner_of (ak_tenantId apiKey) s1 of
            None \<Rightarrow> (Inl (AppError 500 ''INTERNAL_ERROR''), s1)
          | Some owner \<Rightarrow>
              (Inr \<lparr>ru_id = us_id owner, ru_tenantId = ak_tenantId apiKey, ru_role = OWNER, ru_email = us_email owner\<rparr>,
               s1\<lparr>deferred := deferred s1 @ [StampUse (ak_id apiKey) (now e)]\<rparr>)))"

definition jwtAuth :: "libs \<Rightarrow> env \<Rightarrow> string \<Rightarrow> req_user account_step" where
  "jwtAuth c e token s =
     (case jwt_verify c (now e) token of
        None \<Rightarrow> (Inl (AppError 401 ''TOKEN_INVALID''), s)
      | Some payload \<Rightarrow>
          (case checkTenantActive (now e) (jp_tenantId payload) s of
             (False, s1) \<Rightarrow> (Inl (AppError 403 ''TENANT_DISABLED''), s1)
           | (True, s1) \<Rightarrow>
               (Inr \<lparr>ru_id = jp_sub payload, ru_tenantId = jp_tenantId payload, ru_role = jp_role payload, ru_email = jp_email payload\<rparr>, s1)))"

definition requireAuth :: "libs \<Rightarrow> env \<Rightarrow> string option \<Rightarrow> req_user account_step" where
  "requireAuth c e header s =
     (case header of
        None \<Rightarrow> (Inl (AppError 401 ''UNAUTHORIZED''), s)
      | Some h \<Rightarrow>
          if \<not> startsWith ''Bearer '' h then (Inl (AppError 401 ''UNAUTHORIZED''), s)
          else let token = drop 7 h
               in if startsWith ''cp_live_'' token \<or> startsWith ''cp_test_'' token then apiKeyAuth c e token s
                  else jwtAuth c e token s)"

definition requireRole :: "user_role list \<Rightarrow> req_user \<Rightarrow> unit result" where
  "requireRole roles u = require (ru_role u \<in> set roles) (AppError 403 ''FORBIDDEN'')"

definition requireMerchant :: "req_user \<Rightarrow> unit result" where
  "requireMerchant = requireRole [OWNER, STAFF]"

definition requireOwner :: "req_user \<Rightarrow> unit result" where
  "requireOwner = requireRole [OWNER]"

definition requireAdmin :: "req_user \<Rightarrow> unit result" where
  "requireAdmin = requireRole [SUPPORT_ADMIN, SUPER_ADMIN]"

definition requireSuperAdmin :: "req_user \<Rightarrow> unit result" where
  "requireSuperAdmin = requireRole [SUPER_ADMIN]"

text \<open>\<open>signToken\<close>: the token and what it certifies.\<close>

definition token_payload :: "user \<Rightarrow> string \<Rightarrow> jwt_payload" where
  "token_payload u tenantId = \<lparr>jp_sub = us_id u, jp_tenantId = tenantId, jp_role = us_role u, jp_email = us_email u\<rparr>"

definition signToken :: "libs \<Rightarrow> env \<Rightarrow> jwt_payload \<Rightarrow> string" where
  "signToken c e payload = jwt_sign c (now e) payload"

text \<open>A route guarded by \<open>requireAuth\<close> and a role check: the handler runs only when both pass.\<close>

definition guarded :: "libs \<Rightarrow> env \<Rightarrow> string option \<Rightarrow> (req_user \<Rightarrow> unit result) \<Rightarrow> (req_user \<Rightarrow> 'a account_step) \<Rightarrow> 'a account_step" where
  "guarded c e header role_check handler s =
     sbind (requireAuth c e header s) (\<lambda>u s1. sbind (role_check u, s1) (\<lambda>_ s2. handler u s2))"

text \<open>A write that was started earlier is carried out, or fails: a unique digest is taken, or the row is gone.\<close>

definition update_key :: "string \<Rightarrow> (api_key \<Rightarrow> api_key) \<Rightarrow> accounts \<Rightarrow> accounts" where
  "update_key i f s = s\<lparr>apiKeys := map (\<lambda>k. if ak_id k = i then f k else k) (apiKeys s)\<rparr>"

definition run_deferred :: "deferred_write \<Rightarrow> accounts \<Rightarrow> accounts" where
  "run_deferred w s =
     (case w of
        Backfill i h \<Rightarrow>
          if list_ex (\<lambda>k. ak_keySha256 k = Some h \<and> ak_id k \<noteq> i) (apiKeys s) then s
          else update_key i (\<lambda>k. k\<lparr>ak_keySha256 := Some h\<rparr>) s
      | StampUse i instant \<Rightarrow> update_key i (\<lambda>k. k\<lparr>ak_lastUsedAt := Some instant\<rparr>) s)"

lemma startsWith_iff: "startsWith p s \<longleftrightarrow> (\<exists>r. s = p @ r)"
  by (metis append_eq_conv_conj append_take_drop_id startsWith_def)

lemma startsWith_append [simp]: "startsWith p (p @ r)"
  by (auto simp: startsWith_iff)

end
