(* ===== verification/Accounts.thy ===== *)
theory Accounts
  imports Auth
begin

text \<open>
  \<open>src/routes/auth.ts\<close>, \<open>apiKeys.ts\<close>, \<open>users.ts\<close> and the status request of \<open>tenant.ts\<close>: registration, login, API keys,
  the users of a tenant and the switch that disables a tenant. \<open>serve\<close> dispatches a request, \<open>account_run\<close> is any sequence of
  them. A tenant is never deleted by the code, so the foreign keys that refer to it hold; the one of an audit entry to its user does
  not, because a token outlives its user.
\<close>

section \<open>Registration and login\<close>

definition is_alnum_lower :: "char \<Rightarrow> bool" where
  "is_alnum_lower ch \<longleftrightarrow> (CHR ''a'' \<le> ch \<and> ch \<le> CHR ''z'') \<or> (CHR ''0'' \<le> ch \<and> ch \<le> CHR ''9'')"

text \<open>\<open>replace(/[^a-z0-9]+/g, "-")\<close>; the flag says that the character before was replaced.\<close>

fun dash_runs :: "bool \<Rightarrow> string \<Rightarrow> string" where
  "dash_runs inside [] = []"
| "dash_runs inside (ch # cs) =
     (if is_alnum_lower ch then ch # dash_runs False cs
      else if inside then dash_runs True cs else CHR ''-'' # dash_runs True cs)"

definition trim_dashes :: "string \<Rightarrow> string" where
  "trim_dashes s =
     (let s1 = (if startsWith ''-'' s then tl s else s)
      in if s1 \<noteq> [] \<and> last s1 = CHR ''-'' then butlast s1 else s1)"

definition business_slug :: "string \<Rightarrow> string" where
  "business_slug businessName = take 60 (trim_dashes (dash_runs False (toLowerCase businessName)))"

definition registerSchema :: "libs \<Rightarrow> string \<Rightarrow> string \<Rightarrow> string \<Rightarrow> unit result" where
  "registerSchema c businessName email password =
     require (2 \<le> length businessName \<and> length businessName \<le> 100 \<and> is_email c email \<and> 8 \<le> length password)
       (AppError 422 ''VALIDATION_ERROR'')"

definition new_tenant :: "string \<Rightarrow> tenant" where
  "new_tenant i = \<lparr>tn_id = i, tn_status = TENANT_ACTIVE, tn_settlementCurrency = MAD, tn_taxRateBps = 0, tn_taxExempt = False\<rparr>"

definition new_profile :: "string \<Rightarrow> string \<Rightarrow> string \<Rightarrow> tenant_profile" where
  "new_profile i name slug =
     \<lparr>tp_id = i, tp_name = name, tp_slug = slug, tp_environment = SANDBOX, tp_notifyEmail = None, tp_notifyWebhookUrl = None,
      tp_webhookSigningSecret = None\<rparr>"

definition register :: "libs \<Rightarrow> env \<Rightarrow> string \<Rightarrow> string \<Rightarrow> string \<Rightarrow> jwt_payload account_step" where
  "register c e businessName email password s =
     (case registerSchema c businessName email password of
        Inl x \<Rightarrow> (Inl x, s)
      | Inr _ \<Rightarrow>
          if list_ex (\<lambda>u. us_email u = email) (users s) then (Inl (AppError 409 ''EMAIL_TAKEN''), s)
          else let d = acc_db s;
                   passwordHash = bcrypt_hash c 12 (seq d) password;
                   slug = business_slug businessName @ ''-'' @ show_nat (nat (now e));
                   tenantId = fresh e d;
                   u = \<lparr>us_id = fresh e (bump d), us_tenantId = tenantId, us_email = email, us_passwordHash = passwordHash, us_role = OWNER\<rparr>
               in if list_ex (\<lambda>p. tp_slug p = slug) (profiles s) then (Inl (JsError ''P2002''), s)
                  else (Inr (token_payload u tenantId),
                        s\<lparr>acc_db := (bump (bump d))\<lparr>tenants := tenants d @ [new_tenant tenantId]\<rparr>,
                          profiles := profiles s @ [new_profile tenantId businessName slug],
                          users := users s @ [u]\<rparr>))"

definition login :: "libs \<Rightarrow> string \<Rightarrow> string \<Rightarrow> jwt_payload account_step" where
  "login c email password s =
     (if \<not> is_email c email then (Inl (AppError 422 ''VALIDATION_ERROR''), s)
      else case find (\<lambda>u. us_email u = email) (users s) of
        None \<Rightarrow> (Inl (AppError 401 ''INVALID_CREDENTIALS''), s)
      | Some u \<Rightarrow>
          if \<not> bcrypt_compare c password (us_passwordHash u) then (Inl (AppError 401 ''INVALID_CREDENTIALS''), s)
          else if read_tenant_status (us_tenantId u) s = TENANT_DISABLED then (Inl (AppError 403 ''TENANT_DISABLED''), s)
          else (Inr (token_payload u (us_tenantId u)), s))"

definition me :: "req_user \<Rightarrow> user account_step" where
  "me u s = (case find (\<lambda>x. us_id x = ru_id u) (users s) of None \<Rightarrow> (Inl (AppError 404 ''USER_NOT_FOUND''), s) | Some x \<Rightarrow> (Inr x, s))"

text \<open>The two password requests validate their input and answer; neither reads or writes anything.\<close>

definition forgotPassword :: "libs \<Rightarrow> string \<Rightarrow> string account_step" where
  "forgotPassword c email s =
     (if is_email c email then (Inr ''If that email is registered, a reset link has been sent.'', s)
      else (Inl (AppError 422 ''VALIDATION_ERROR''), s))"

definition resetPassword :: "string \<Rightarrow> string \<Rightarrow> string account_step" where
  "resetPassword token password s =
     (if 8 \<le> length password then (Inr ''Password updated.'', s) else (Inl (AppError 422 ''VALIDATION_ERROR''), s))"

section \<open>Audit entries\<close>

text \<open>\<open>auditLog.create\<close> with the foreign key of its user.\<close>

definition audit_as :: "string \<Rightarrow> req_user \<Rightarrow> string \<Rightarrow> string \<Rightarrow> string \<Rightarrow> unit account_step" where
  "audit_as tenantId u action entityType entityId s =
     (if list_ex (\<lambda>x. us_id x = ru_id u) (users s)
      then (Inr (), s\<lparr>acc_db := audit tenantId (ru_id u) action entityType entityId (acc_db s)\<rparr>)
      else (Inl (JsError ''P2003''), s))"

section \<open>API keys\<close>

definition listApiKeys :: "req_user \<Rightarrow> api_key list account_step" where
  "listApiKeys u s =
     (Inr (sort_by (\<lambda>a b. ak_createdAt a \<ge> ak_createdAt b) (filter (\<lambda>k. unrevoked k \<and> ak_tenantId k = ru_tenantId u) (apiKeys s))), s)"

definition raw_key :: "libs \<Rightarrow> nat \<Rightarrow> string" where
  "raw_key c n = ''cp_live_'' @ random_hex c n 32"

definition api_key_row :: "libs \<Rightarrow> env \<Rightarrow> string \<Rightarrow> string \<Rightarrow> accounts \<Rightarrow> api_key" where
  "api_key_row c e tenantId name s =
     (let n = seq (acc_db s); rawKey = raw_key c n
      in \<lparr>ak_id = fresh e (acc_db s), ak_tenantId = tenantId, ak_name = name, ak_keyHash = bcrypt_hash c 10 n rawKey,
          ak_keySha256 = Some (sha256 c rawKey), ak_keyPrefix = take 16 rawKey, ak_lastUsedAt = None, ak_revokedAt = None,
          ak_createdAt = now e\<rparr>)"

text \<open>The primary key and the two unique columns of \<open>api_keys\<close>.\<close>

definition key_taken :: "api_key \<Rightarrow> accounts \<Rightarrow> bool" where
  "key_taken k s \<longleftrightarrow>
     list_ex (\<lambda>x. ak_id x = ak_id k \<or> ak_keyHash x = ak_keyHash k \<or> (ak_keySha256 k \<noteq> None \<and> ak_keySha256 x = ak_keySha256 k)) (apiKeys s)"

definition createApiKey :: "libs \<Rightarrow> env \<Rightarrow> string \<Rightarrow> req_user \<Rightarrow> (api_key \<times> string) account_step" where
  "createApiKey c e name u s =
     (if name = [] \<or> 100 < length name then (Inl (AppError 422 ''VALIDATION_ERROR''), s)
      else let rawKey = raw_key c (seq (acc_db s)); k = api_key_row c e (ru_tenantId u) name s
           in if key_taken k s then (Inl (JsError ''P2002''), s)
              else sbind (audit_as (ru_tenantId u) u ''API_KEY_CREATED'' ''ApiKey'' (ak_id k)
                            (s\<lparr>acc_db := bump (acc_db s), apiKeys := apiKeys s @ [k]\<rparr>))
                     (\<lambda>_ s1. (Inr (k, rawKey), s1)))"

definition revokeApiKey :: "env \<Rightarrow> string \<Rightarrow> req_user \<Rightarrow> unit account_step" where
  "revokeApiKey e i u s =
     (case find (\<lambda>k. ak_id k = i \<and> unrevoked k \<and> ak_tenantId k = ru_tenantId u) (apiKeys s) of
        None \<Rightarrow> (Inl (AppError 404 ''KEY_NOT_FOUND''), s)
      | Some key \<Rightarrow>
          audit_as (ru_tenantId u) u ''API_KEY_REVOKED'' ''ApiKey'' (ak_id key)
            (update_key (ak_id key) (\<lambda>k. k\<lparr>ak_revokedAt := Some (now e)\<rparr>) s))"

section \<open>The users of a tenant\<close>

definition listUsers :: "req_user \<Rightarrow> user list account_step" where
  "listUsers u s = (Inr (filter (\<lambda>x. us_tenantId x = ru_tenantId u) (users s)), s)"

definition inviteSchema :: "libs \<Rightarrow> string \<Rightarrow> user_role \<Rightarrow> string \<Rightarrow> unit result" where
  "inviteSchema c email role password =
     require (is_email c email \<and> role \<in> {STAFF, OWNER} \<and> 8 \<le> length password) (AppError 422 ''VALIDATION_ERROR'')"

definition inviteUser :: "libs \<Rightarrow> env \<Rightarrow> string \<Rightarrow> user_role \<Rightarrow> string \<Rightarrow> req_user \<Rightarrow> user account_step" where
  "inviteUser c e email role password u s =
     (case inviteSchema c email role password of
        Inl x \<Rightarrow> (Inl x, s)
      | Inr _ \<Rightarrow>
          if list_ex (\<lambda>x. us_email x = email \<and> us_tenantId x = ru_tenantId u) (users s) then (Inl (AppError 409 ''EMAIL_TAKEN''), s)
          else let d = acc_db s;
                   x = \<lparr>us_id = fresh e d, us_tenantId = ru_tenantId u, us_email = email,
                        us_passwordHash = bcrypt_hash c 12 (seq d) password, us_role = role\<rparr>
               in sbind (audit_as (ru_tenantId u) u ''USER_INVITED'' ''User'' (us_id x) (s\<lparr>acc_db := bump d, users := users s @ [x]\<rparr>))
                    (\<lambda>_ s1. (Inr x, s1)))"

definition owner_count :: "string \<Rightarrow> accounts \<Rightarrow> nat" where
  "owner_count t s = length (filter (\<lambda>x. us_tenantId x = t \<and> us_role x = OWNER) (users s))"

definition is_member :: "string \<Rightarrow> string \<Rightarrow> user \<Rightarrow> bool" where
  "is_member i t x \<longleftrightarrow> us_id x = i \<and> us_tenantId x = t"

definition changeRole :: "env \<Rightarrow> string \<Rightarrow> user_role \<Rightarrow> req_user \<Rightarrow> user account_step" where
  "changeRole e i role u s =
     (if role \<notin> {STAFF, OWNER} then (Inl (AppError 422 ''VALIDATION_ERROR''), s)
      else if i = ru_id u \<and> role \<noteq> OWNER \<and> owner_count (ru_tenantId u) s \<le> 1 then (Inl (AppError 400 ''LAST_OWNER''), s)
      else case find (is_member i (ru_tenantId u)) (users s) of
        None \<Rightarrow> (Inl (JsError ''P2025''), s)
      | Some x \<Rightarrow>
          sbind (audit_as (ru_tenantId u) u ''USER_ROLE_CHANGED'' ''User'' i
                   (s\<lparr>users := map (\<lambda>x. if is_member i (ru_tenantId u) x then x\<lparr>us_role := role\<rparr> else x) (users s)\<rparr>))
            (\<lambda>_ s1. (Inr (x\<lparr>us_role := role\<rparr>), s1)))"

text \<open>
  The user of a refund is a required reference, so the database refuses to delete a user who has initiated one; the user of an audit
  entry is optional and is cleared.
\<close>

definition deleteUser :: "env \<Rightarrow> string \<Rightarrow> req_user \<Rightarrow> unit account_step" where
  "deleteUser e i u s =
     (if i = ru_id u then (Inl (AppError 400 ''CANNOT_DELETE_SELF''), s)
      else if find (is_member i (ru_tenantId u)) (users s) = None then (Inl (JsError ''P2025''), s)
      else if list_ex (\<lambda>r. rf_initiatedBy r = i) (refunds (acc_db s)) then (Inl (JsError ''P2003''), s)
      else audit_as (ru_tenantId u) u ''USER_REMOVED'' ''User'' i
             (s\<lparr>users := filter (\<lambda>x. \<not> is_member i (ru_tenantId u) x) (users s),
                acc_db := (acc_db s)\<lparr>auditLogs := map (\<lambda>l. if al_userId l = Some i then l\<lparr>al_userId := None\<rparr> else l) (auditLogs (acc_db s))\<rparr>\<rparr>))"

section \<open>Tenants\<close>

definition setTenantStatus :: "string \<Rightarrow> tenant_status \<Rightarrow> req_user \<Rightarrow> tenant_status account_step" where
  "setTenantStatus i status u s =
     (case tenant_by_id i s of
        None \<Rightarrow> (Inl (JsError ''P2025''), s)
      | Some r \<Rightarrow>
          sbind (audit_as i u (if status = TENANT_ACTIVE then ''TENANT_ENABLED'' else ''TENANT_DISABLED'') ''Tenant'' i
                   (s\<lparr>acc_db := (acc_db s)\<lparr>tenants := map (\<lambda>r. if tn_id r = i then r\<lparr>tn_status := status\<rparr> else r) (tenants (acc_db s))\<rparr>\<rparr>))
            (\<lambda>_ s1. (Inr status, s1)))"

section \<open>Dispatch\<close>

text \<open>
  One request, with its authorization header. \<open>Deferred\<close> is the completion of a write started earlier (by its position),
  \<open>Elsewhere\<close> anything the rest of the program does to the other tables.
\<close>

datatype api_call =
    Register string string string
  | Login string string
  | Me "string option"
  | ForgotPassword string
  | ResetPassword string string
  | ListApiKeys "string option"
  | CreateApiKey "string option" string
  | RevokeApiKey "string option" string
  | ListUsers "string option"
  | InviteUser "string option" string user_role string
  | ChangeRole "string option" string user_role
  | DeleteUser "string option" string
  | SetTenantStatus "string option" string tenant_status
  | Authenticate "string option"
  | Deferred nat
  | Elsewhere db

text \<open>The tokens a request hands out, and the state it leaves.\<close>

definition granted :: "'a result \<times> accounts \<Rightarrow> ('a \<Rightarrow> jwt_payload set) \<Rightarrow> jwt_payload set \<times> accounts" where
  "granted r f = (case fst r of Inl _ \<Rightarrow> {} | Inr x \<Rightarrow> f x, snd r)"

definition no_token :: "'a result \<times> accounts \<Rightarrow> jwt_payload set \<times> accounts" where
  "no_token r = ({}, snd r)"

fun serve :: "libs \<Rightarrow> env \<Rightarrow> api_call \<Rightarrow> accounts \<Rightarrow> jwt_payload set \<times> accounts" where
  "serve c e (Register businessName email password) s = granted (register c e businessName email password s) (\<lambda>p. {p})"
| "serve c e (Login email password) s = granted (login c email password s) (\<lambda>p. {p})"
| "serve c e (Me h) s = no_token (guarded c e h (\<lambda>_. Inr ()) me s)"
| "serve c e (ForgotPassword email) s = no_token (forgotPassword c email s)"
| "serve c e (ResetPassword token password) s = no_token (resetPassword token password s)"
| "serve c e (ListApiKeys h) s = no_token (guarded c e h requireOwner listApiKeys s)"
| "serve c e (CreateApiKey h name) s = no_token (guarded c e h requireOwner (createApiKey c e name) s)"
| "serve c e (RevokeApiKey h i) s = no_token (guarded c e h requireOwner (revokeApiKey e i) s)"
| "serve c e (ListUsers h) s = no_token (guarded c e h requireOwner listUsers s)"
| "serve c e (InviteUser h email role password) s = no_token (guarded c e h requireOwner (inviteUser c e email role password) s)"
| "serve c e (ChangeRole h i role) s = no_token (guarded c e h requireOwner (changeRole e i role) s)"
| "serve c e (DeleteUser h i) s = no_token (guarded c e h requireOwner (deleteUser e i) s)"
| "serve c e (SetTenantStatus h i status) s = no_token (guarded c e h requireSuperAdmin (setTenantStatus i status) s)"
| "serve c e (Authenticate h) s = no_token (requireAuth c e h s)"
| "serve c e (Deferred n) s =
     ({}, if n < length (deferred s) then run_deferred (deferred s ! n) (s\<lparr>deferred := take n (deferred s) @ drop (Suc n) (deferred s)\<rparr>) else s)"
| "serve c e (Elsewhere d) s = ({}, s\<lparr>acc_db := d\<lparr>tenants := tenants (acc_db s)\<rparr>\<rparr>)"

text \<open>
  A run: requests one after the other, the clock not going back. \<open>allowed\<close> restricts which requests occur. The state of a run
  holds the clock, the accounts and the payloads of the tokens signed so far.
\<close>

record account_world =
  aw_clock :: int
  aw_accounts :: accounts
  aw_signed :: "jwt_payload set"

inductive account_run :: "libs \<Rightarrow> (api_call \<Rightarrow> bool) \<Rightarrow> account_world \<Rightarrow> account_world \<Rightarrow> bool" for c allowed where
  stay: "account_run c allowed w w"
| call: "account_run c allowed w w' \<Longrightarrow> allowed req \<Longrightarrow> aw_clock w' \<le> now e \<Longrightarrow> serve c e req (aw_accounts w') = (T, s) \<Longrightarrow>
    account_run c allowed w \<lparr>aw_clock = now e, aw_accounts = s, aw_signed = aw_signed w' \<union> T\<rparr>"

section \<open>What a request may do to the accounts\<close>

definition admin_ids :: "accounts \<Rightarrow> string set" where
  "admin_ids s = us_id ` {u \<in> set (users s). us_role u = SUPPORT_ADMIN \<or> us_role u = SUPER_ADMIN}"

text \<open>
  \<open>key_dead\<close>: the key is revoked. A revoked row keeps its digest, no other row answers the key, and no write is under way that
  would change the digest of the revoked row.
\<close>

definition answers :: "libs \<Rightarrow> string \<Rightarrow> api_key \<Rightarrow> bool" where
  "answers c token k \<longleftrightarrow> unrevoked k \<and>
     (ak_keySha256 k = Some (sha256 c token) \<or>
      ak_keySha256 k = None \<and> ak_keyPrefix k = take 16 token \<and> bcrypt_compare c token (ak_keyHash k))"

definition key_dead :: "libs \<Rightarrow> string \<Rightarrow> accounts \<Rightarrow> bool" where
  "key_dead c token s \<longleftrightarrow>
     distinct (map ak_id (apiKeys s)) \<and> (\<forall>k \<in> set (apiKeys s). \<not> answers c token k) \<and>
     (\<exists>k \<in> set (apiKeys s). ak_keySha256 k = Some (sha256 c token) \<and> (\<forall>h. Backfill (ak_id k) h \<notin> set (deferred s)))"

text \<open>\<open>cache_fresh t\<close>: no cached status outlives the instant t by more than the time to live.\<close>

definition cache_fresh :: "int \<Rightarrow> accounts \<Rightarrow> bool" where
  "cache_fresh t s \<longleftrightarrow> (\<forall>i status x. tenantStatusCache s i = Some (status, x) \<longrightarrow> x \<le> t + TENANT_CACHE_TTL_MS)"

definition disabled_until :: "int \<Rightarrow> string \<Rightarrow> accounts \<Rightarrow> bool" where
  "disabled_until t i s \<longleftrightarrow>
     (\<exists>r. tenant_by_id i s = Some r \<and> tn_status r = TENANT_DISABLED) \<and>
     (\<forall>x. tenantStatusCache s i = Some (TENANT_ACTIVE, x) \<longrightarrow> x \<le> t)"

text \<open>
  The contract of a handler behind the middleware: it leaves the cache and the pending writes alone, makes nobody an administrator,
  revives no revoked key, and touches no user and no key of another tenant than the caller's. The second contract adds that it
  leaves the tenants alone.
\<close>

locale account_handler =
  fixes handler :: "req_user \<Rightarrow> accounts \<Rightarrow> 'a result \<times> accounts"
  assumes keeps_cache: "tenantStatusCache (snd (handler u s)) = tenantStatusCache s"
    and keeps_deferred: "deferred (snd (handler u s)) = deferred s"
    and no_new_admins: "admin_ids (snd (handler u s)) \<subseteq> admin_ids s"
    and keeps_dead: "key_dead c token s \<Longrightarrow> key_dead c token (snd (handler u s))"
    and other_users: "t \<noteq> ru_tenantId u \<Longrightarrow>
      filter (\<lambda>x. us_tenantId x = t) (users (snd (handler u s))) = filter (\<lambda>x. us_tenantId x = t) (users s)"
    and other_keys: "distinct (map ak_id (apiKeys s)) \<Longrightarrow> t \<noteq> ru_tenantId u \<Longrightarrow>
      filter (\<lambda>k. ak_tenantId k = t) (apiKeys (snd (handler u s))) = filter (\<lambda>k. ak_tenantId k = t) (apiKeys s)"

locale tenant_handler = account_handler +
  assumes keeps_tenants: "tenants (acc_db (snd (handler u s))) = tenants (acc_db s)"

subsection \<open>The middleware\<close>

lemma checkTenantActive_frame:
  assumes "checkTenantActive t i s = (b, s')"
  obtains (same) "s' = s"
  | (looked_up) "s' = s\<lparr>tenantStatusCache := (tenantStatusCache s)(i \<mapsto> (read_tenant_status i s, t + TENANT_CACHE_TTL_MS))\<rparr>"
  using assms by (auto simp: checkTenantActive_def Let_def split: option.splits prod.splits if_splits)

text \<open>What \<open>requireAuth\<close> may change: nothing but the cache entry it looked up and the writes it starts.\<close>

definition only_starts :: "accounts \<Rightarrow> accounts \<Rightarrow> bool" where
  "only_starts s s' \<longleftrightarrow>
     acc_db s' = acc_db s \<and> profiles s' = profiles s \<and> users s' = users s \<and> apiKeys s' = apiKeys s \<and>
     (\<forall>i h. Backfill i h \<in> set (deferred s') \<longrightarrow> Backfill i h \<in> set (deferred s) \<or> (\<exists>k \<in> set (apiKeys s). ak_id k = i \<and> ak_keySha256 k = None))"

lemma find_api_key_frame:
  assumes "find_api_key c token s = (r, s')"
  shows "only_starts s s'" "tenantStatusCache s' = tenantStatusCache s"
    "\<And>k. r = Some k \<Longrightarrow> k \<in> set (apiKeys s) \<and> answers c token k"
proof -
  have fast_row: "k \<in> set (apiKeys s) \<and> ak_keySha256 k = Some (sha256 c token) \<and> unrevoked k" if "by_sha256 (sha256 c token) s = Some k" for k
    using that by (auto simp: by_sha256_def dest: find_SomeD)
  have slow_row: "k \<in> set (apiKeys s) \<and> ak_keySha256 k = None \<and> answers c token k"
    if "find (\<lambda>k. bcrypt_compare c token (ak_keyHash k)) (legacy_candidates token s) = Some k" for k
    using find_SomeD [OF that] by (auto simp: legacy_candidates_def answers_def)
  have "only_starts s s' \<and> tenantStatusCache s' = tenantStatusCache s \<and> (\<forall>k. r = Some k \<longrightarrow> k \<in> set (apiKeys s) \<and> answers c token k)"
  proof (cases "by_sha256 (sha256 c token) s")
    case (Some k)
    then show ?thesis using assms fast_row by (auto simp: find_api_key_def only_starts_def answers_def)
  next
    case None
    show ?thesis
    proof (cases "find (\<lambda>k. bcrypt_compare c token (ak_keyHash k)) (legacy_candidates token s)")
      case (Some k)
      then show ?thesis using assms None slow_row [OF Some] by (auto simp: find_api_key_def only_starts_def)
    qed (use assms None in \<open>simp add: find_api_key_def only_starts_def\<close>)
  qed
  then show "only_starts s s'" "tenantStatusCache s' = tenantStatusCache s"
    "\<And>k. r = Some k \<Longrightarrow> k \<in> set (apiKeys s) \<and> answers c token k" by auto
qed

lemma apiKeyAuth_frame:
  "only_starts s (snd (apiKeyAuth c e token s))" "tenantStatusCache (snd (apiKeyAuth c e token s)) = tenantStatusCache s"
proof -
  obtain r s1 where f: "find_api_key c token s = (r, s1)" by force
  note frame = find_api_key_frame [OF f]
  show "only_starts s (snd (apiKeyAuth c e token s))"
    using frame(1) by (auto simp: apiKeyAuth_def f only_starts_def split: option.splits)
  show "tenantStatusCache (snd (apiKeyAuth c e token s)) = tenantStatusCache s"
    using frame(2) by (auto simp: apiKeyAuth_def f split: option.splits)
qed

lemma requireAuth_frame:
  obtains (cache_kept) "only_starts s (snd (requireAuth c e h s))" "tenantStatusCache (snd (requireAuth c e h s)) = tenantStatusCache s"
  | (cache_set) i where "only_starts s (snd (requireAuth c e h s))"
      "tenantStatusCache (snd (requireAuth c e h s)) = (tenantStatusCache s)(i \<mapsto> (read_tenant_status i s, now e + TENANT_CACHE_TTL_MS))"
proof -
  have refl: "only_starts s s" by (simp add: only_starts_def)
  have jwt: "thesis" if "requireAuth c e h s = jwtAuth c e token s" for token
  proof (cases "jwt_verify c (now e) token")
    case None
    with that refl cache_kept show ?thesis by (simp add: jwtAuth_def)
  next
    case (Some p)
    obtain b s1 where b: "checkTenantActive (now e) (jp_tenantId p) s = (b, s1)" by force
    then have "snd (requireAuth c e h s) = s1" using that Some by (cases b) (simp_all add: jwtAuth_def)
    with b cache_kept cache_set [of "jp_tenantId p"] refl show ?thesis
      by (elim checkTenantActive_frame) (auto simp: only_starts_def)
  qed
  show thesis
  proof (cases "\<exists>token. requireAuth c e h s = apiKeyAuth c e token s")
    case True
    with apiKeyAuth_frame cache_kept show ?thesis by metis
  next
    case False
    then have "(\<exists>token. requireAuth c e h s = jwtAuth c e token s) \<or> snd (requireAuth c e h s) = s"
      by (auto simp: requireAuth_def Let_def split: option.splits if_splits)
    with jwt refl cache_kept show ?thesis by auto
  qed
qed

lemma requireAuth_tables [simp]:
  "users (snd (requireAuth c e h s)) = users s" "apiKeys (snd (requireAuth c e h s)) = apiKeys s"
  "acc_db (snd (requireAuth c e h s)) = acc_db s" "profiles (snd (requireAuth c e h s)) = profiles s"
  by (rule requireAuth_frame [of s c e h]; simp add: only_starts_def)+

lemma requireAuth_admins [simp]: "admin_ids (snd (requireAuth c e h s)) = admin_ids s"
  by (simp add: admin_ids_def)

lemma requireAuth_dead:
  assumes "key_dead c' token s"
  shows "key_dead c' token (snd (requireAuth c e h s))"
proof -
  let ?s = "snd (requireAuth c e h s)"
  obtain k where k: "k \<in> set (apiKeys s)" "ak_keySha256 k = Some (sha256 c' token)" "\<And>h. Backfill (ak_id k) h \<notin> set (deferred s)"
    and ids: "distinct (map ak_id (apiKeys s))"
    using assms by (auto simp: key_dead_def)
  have "only_starts s ?s" by (rule requireAuth_frame [of s c e h])
  moreover have "x = k" if "x \<in> set (apiKeys s)" "ak_id x = ak_id k" for x
    using ids that k(1) by (auto simp: distinct_map dest: inj_onD)
  ultimately have "Backfill (ak_id k) h \<notin> set (deferred ?s)" for h
    using k by (fastforce simp: only_starts_def)
  with assms k(1,2) show ?thesis by (auto simp: key_dead_def)
qed

lemma requireAuth_cache_fresh:
  assumes "cache_fresh t s" "t \<le> now e"
  shows "cache_fresh (now e) (snd (requireAuth c e h s))"
proof (rule requireAuth_frame [of s c e h])
  have old: "x \<le> now e + TENANT_CACHE_TTL_MS" if "tenantStatusCache s i = Some (status, x)" for i status x
    using assms that unfolding cache_fresh_def by (meson add_right_mono order_trans)
  show ?thesis if "tenantStatusCache (snd (requireAuth c e h s)) = tenantStatusCache s"
    using old by (simp add: cache_fresh_def that)
  show ?thesis if "tenantStatusCache (snd (requireAuth c e h s)) = (tenantStatusCache s)(i \<mapsto> (read_tenant_status i s, now e + TENANT_CACHE_TTL_MS))" for i
    using old by (auto simp: cache_fresh_def that)
qed

lemma requireAuth_disabled:
  assumes "disabled_until t i s"
  shows "disabled_until t i (snd (requireAuth c e h s))"
proof -
  have "tenant_by_id i (snd (requireAuth c e h s)) = tenant_by_id i s" by (simp add: tenant_by_id_def)
  moreover have "read_tenant_status i s = TENANT_DISABLED" using assms by (auto simp: disabled_until_def read_tenant_status_def)
  ultimately show ?thesis
    using assms by (rule_tac requireAuth_frame [of s c e h]) (auto simp: disabled_until_def split: if_splits)
qed

context account_handler
begin

lemma guarded_snd:
  "snd (guarded c e h role_check handler s) = snd (requireAuth c e h s) \<or>
   (\<exists>u. snd (guarded c e h role_check handler s) = snd (handler u (snd (requireAuth c e h s))))"
  by (cases "requireAuth c e h s"; cases "fst (requireAuth c e h s)"; cases "role_check (projr (fst (requireAuth c e h s)))")
     (auto simp: guarded_def)

lemma guarded_admins: "admin_ids (snd (guarded c e h role_check handler s)) \<subseteq> admin_ids s"
  using guarded_snd [of c e h role_check s] no_new_admins [of _ "snd (requireAuth c e h s)"] by (metis requireAuth_admins order_refl)

lemma guarded_dead: "key_dead c' token s \<Longrightarrow> key_dead c' token (snd (guarded c e h role_check handler s))"
  using guarded_snd [of c e h role_check s] keeps_dead requireAuth_dead by metis

lemma guarded_cache_fresh:
  assumes "cache_fresh t s" "t \<le> now e"
  shows "cache_fresh (now e) (snd (guarded c e h role_check handler s))"
  using guarded_snd [of c e h role_check s] requireAuth_cache_fresh [OF assms, of c h] keeps_cache
  by (auto simp: cache_fresh_def)

end

context tenant_handler
begin

lemma guarded_disabled:
  assumes "disabled_until t i s"
  shows "disabled_until t i (snd (guarded c e h role_check handler s))"
proof -
  have "disabled_until t i (snd (handler u s'))" if "disabled_until t i s'" for u s'
    using that keeps_tenants [of u s'] keeps_cache [of u s'] by (simp add: disabled_until_def tenant_by_id_def)
  then show ?thesis
    using guarded_snd [of c e h role_check s] requireAuth_disabled [OF assms, of c e h] by auto
qed

end

subsection \<open>The handlers\<close>

lemma audit_as_frame:
  "users (snd (audit_as t u a ty i s)) = users s" "apiKeys (snd (audit_as t u a ty i s)) = apiKeys s"
  "deferred (snd (audit_as t u a ty i s)) = deferred s" "tenantStatusCache (snd (audit_as t u a ty i s)) = tenantStatusCache s"
  "tenants (acc_db (snd (audit_as t u a ty i s))) = tenants (acc_db s)"
  by (simp_all add: audit_as_def audit_def)

lemma sbind_answer: "snd (sbind m (\<lambda>x s1. (g x, s1))) = snd m"
  by (cases m; cases "fst m") (auto simp: sbind_def)

lemmas handler_frames = audit_as_frame sbind_answer

lemma key_dead_cong: "apiKeys s' = apiKeys s \<Longrightarrow> deferred s' = deferred s \<Longrightarrow> key_dead c token s' = key_dead c token s"
  by (simp add: key_dead_def)

lemma answers_cong:
  "ak_revokedAt k' = ak_revokedAt k \<Longrightarrow> ak_keySha256 k' = ak_keySha256 k \<Longrightarrow> ak_keyPrefix k' = ak_keyPrefix k \<Longrightarrow>
   ak_keyHash k' = ak_keyHash k \<Longrightarrow> answers c token k' = answers c token k"
  by (simp add: answers_def unrevoked_def)

text \<open>An update of one row that leaves its id and digest alone and does not make it answer more keys.\<close>

lemma key_dead_update:
  assumes "key_dead c token s" "\<And>k. ak_id (f k) = ak_id k" "\<And>k. ak_keySha256 (f k) = ak_keySha256 k"
    "\<And>k. answers c token (f k) \<Longrightarrow> answers c token k"
  shows "key_dead c token (update_key i f s)"
proof -
  let ?f = "\<lambda>k. if ak_id k = i then f k else k"
  have keys: "apiKeys (update_key i f s) = map ?f (apiKeys s)" by (simp add: update_key_def)
  obtain k where k: "k \<in> set (apiKeys s)" "ak_keySha256 k = Some (sha256 c token)" "\<And>h. Backfill (ak_id k) h \<notin> set (deferred s)"
    using assms(1) by (auto simp: key_dead_def)
  have ids: "map ak_id (map ?f (apiKeys s)) = map ak_id (apiKeys s)" using assms(2) by simp
  have holder: "?f k \<in> set (map ?f (apiKeys s))" "ak_keySha256 (?f k) = Some (sha256 c token)" "ak_id (?f k) = ak_id k"
    using k(1,2) assms(2,3) by auto
  have "\<not> answers c token (?f y)" if "y \<in> set (apiKeys s)" for y
    using that assms(1) assms(4) [of y] by (auto simp: key_dead_def)
  then have "\<forall>x \<in> set (map ?f (apiKeys s)). \<not> answers c token x" by (metis (no_types, lifting) imageE set_map)
  moreover have "distinct (map ak_id (map ?f (apiKeys s)))" using assms(1) unfolding ids key_dead_def by simp
  moreover have "deferred (update_key i f s) = deferred s" by (simp add: update_key_def)
  moreover from this have "\<forall>h. Backfill (ak_id (?f k)) h \<notin> set (deferred (update_key i f s))" unfolding holder(3) using k(3) by simp
  ultimately show ?thesis using holder(1,2) unfolding key_dead_def keys by blast
qed

lemma createApiKey_keys:
  "apiKeys (snd (createApiKey c e name u s)) = apiKeys s \<or>
   (apiKeys (snd (createApiKey c e name u s)) = apiKeys s @ [api_key_row c e (ru_tenantId u) name s] \<and>
    \<not> key_taken (api_key_row c e (ru_tenantId u) name s) s)"
  by (simp add: createApiKey_def Let_def handler_frames)

lemma createApiKey_frame:
  "users (snd (createApiKey c e name u s)) = users s" "deferred (snd (createApiKey c e name u s)) = deferred s"
  "tenantStatusCache (snd (createApiKey c e name u s)) = tenantStatusCache s"
  "tenants (acc_db (snd (createApiKey c e name u s))) = tenants (acc_db s)"
  by (simp_all add: createApiKey_def Let_def handler_frames bump_def)

lemma key_dead_append:
  assumes "key_dead c token s" "\<not> key_taken k s" "ak_keySha256 k \<noteq> None"
    "apiKeys s' = apiKeys s @ [k]" "deferred s' = deferred s"
  shows "key_dead c token s'"
proof -
  obtain x where "x \<in> set (apiKeys s)" "ak_keySha256 x = Some (sha256 c token)" using assms(1) by (auto simp: key_dead_def)
  with assms(2,3) have "ak_keySha256 k \<noteq> Some (sha256 c token)" by (auto simp: key_taken_def list_ex_iff)
  with assms(3) have "\<not> answers c token k" by (simp add: answers_def)
  moreover have "ak_id k \<notin> ak_id ` set (apiKeys s)" using assms(2) by (auto simp: key_taken_def list_ex_iff)
  ultimately show ?thesis using assms(1,4,5) by (auto simp: key_dead_def)
qed

interpretation list_keys: tenant_handler listApiKeys
  by unfold_locales (simp_all add: listApiKeys_def)

interpretation list_users: tenant_handler listUsers
  by unfold_locales (simp_all add: listUsers_def)

interpretation own_user: tenant_handler me
  by unfold_locales (auto simp: me_def split: option.splits)

interpretation create_key: tenant_handler "createApiKey c e name" for c e name
proof unfold_locales
  fix u :: req_user and s :: accounts and c' :: libs and token
  assume "key_dead c' token s"
  then show "key_dead c' token (snd (createApiKey c e name u s))"
    using createApiKey_keys [of c e name u s] key_dead_append [of c' token s "api_key_row c e (ru_tenantId u) name s"]
    by (auto simp: createApiKey_frame api_key_row_def Let_def cong: key_dead_cong)
next
  fix u :: req_user and s :: accounts and t
  assume "distinct (map ak_id (apiKeys s))" "t \<noteq> ru_tenantId u"
  then show "filter (\<lambda>k. ak_tenantId k = t) (apiKeys (snd (createApiKey c e name u s))) = filter (\<lambda>k. ak_tenantId k = t) (apiKeys s)"
    using createApiKey_keys [of c e name u s] by (auto simp: api_key_row_def Let_def)
qed (simp_all add: createApiKey_frame admin_ids_def)

lemma filter_update_row:
  assumes "\<And>x. x \<in> set xs \<Longrightarrow> P x \<Longrightarrow> \<not> Q x \<and> \<not> Q (f x)"
  shows "filter Q (map (\<lambda>x. if P x then f x else x) xs) = filter Q xs"
  using assms by (induction xs) auto

lemma filter_remove_other:
  assumes "\<And>x. P x \<Longrightarrow> \<not> Q x"
  shows "filter Q (filter (\<lambda>x. \<not> P x) xs) = filter Q xs"
  using assms by (induction xs) auto

lemma revokeApiKey_cases:
  obtains (refused) "snd (revokeApiKey e i u s) = s"
  | (revoked) k where "find (\<lambda>k. ak_id k = i \<and> unrevoked k \<and> ak_tenantId k = ru_tenantId u) (apiKeys s) = Some k"
      "revokeApiKey e i u s = audit_as (ru_tenantId u) u ''API_KEY_REVOKED'' ''ApiKey'' i (update_key i (\<lambda>k. k\<lparr>ak_revokedAt := Some (now e)\<rparr>) s)"
  by (cases "find (\<lambda>k. ak_id k = i \<and> unrevoked k \<and> ak_tenantId k = ru_tenantId u) (apiKeys s)")
     (auto simp: revokeApiKey_def dest: find_SomeD)

text \<open>The ids are unique, so the update by id changes the tenant's own key and no other.\<close>

interpretation revoke_key: tenant_handler "revokeApiKey e i" for e i
proof unfold_locales
  fix u :: req_user and s :: accounts
  let ?f = "\<lambda>k. k\<lparr>ak_revokedAt := Some (now e)\<rparr>" and ?s = "snd (revokeApiKey e i u s)"
  show "tenantStatusCache ?s = tenantStatusCache s" "deferred ?s = deferred s" "admin_ids ?s \<subseteq> admin_ids s"
    "tenants (acc_db ?s) = tenants (acc_db s)"
    by (rule revokeApiKey_cases [of e i u s]; simp add: handler_frames update_key_def admin_ids_def)+
  show "filter (\<lambda>x. us_tenantId x = t) (users ?s) = filter (\<lambda>x. us_tenantId x = t) (users s)" for t
    by (rule revokeApiKey_cases [of e i u s]; simp add: handler_frames update_key_def)
  show "key_dead c' token ?s" if "key_dead c' token s" for c' token
  proof (rule revokeApiKey_cases [of e i u s])
    assume "revokeApiKey e i u s = audit_as (ru_tenantId u) u ''API_KEY_REVOKED'' ''ApiKey'' i (update_key i ?f s)"
    then have "key_dead c' token ?s = key_dead c' token (update_key i ?f s)" by (simp add: handler_frames cong: key_dead_cong)
    moreover have "key_dead c' token (update_key i ?f s)"
      by (rule key_dead_update [OF that]) (simp_all add: answers_def unrevoked_def)
    ultimately show ?thesis by simp
  qed (use that in simp)
  show "filter (\<lambda>k. ak_tenantId k = t) (apiKeys ?s) = filter (\<lambda>k. ak_tenantId k = t) (apiKeys s)"
    if "distinct (map ak_id (apiKeys s))" "t \<noteq> ru_tenantId u" for t
  proof (rule revokeApiKey_cases [of e i u s])
    fix k
    assume k: "find (\<lambda>k. ak_id k = i \<and> unrevoked k \<and> ak_tenantId k = ru_tenantId u) (apiKeys s) = Some k"
      and run: "revokeApiKey e i u s = audit_as (ru_tenantId u) u ''API_KEY_REVOKED'' ''ApiKey'' i (update_key i ?f s)"
    have "ak_tenantId x = ru_tenantId u" if "x \<in> set (apiKeys s)" "ak_id x = i" for x
      using find_SomeD [OF k] that \<open>distinct (map ak_id (apiKeys s))\<close> by (auto simp: distinct_map dest: inj_onD)
    then have "filter (\<lambda>k. ak_tenantId k = t) (map (\<lambda>k. if ak_id k = i then ?f k else k) (apiKeys s)) = filter (\<lambda>k. ak_tenantId k = t) (apiKeys s)"
      using that(2) by (intro filter_update_row) auto
    then show ?thesis by (simp add: run handler_frames update_key_def)
  qed simp
qed

lemma inviteUser_users:
  "users (snd (inviteUser c e email role password u s)) = users s \<or>
   (\<exists>x. users (snd (inviteUser c e email role password u s)) = users s @ [x] \<and> us_tenantId x = ru_tenantId u \<and> us_role x \<in> {STAFF, OWNER})"
  by (cases "inviteSchema c email role password") (auto simp: inviteUser_def inviteSchema_def Let_def handler_frames)

lemma inviteUser_frame:
  "apiKeys (snd (inviteUser c e email role password u s)) = apiKeys s" "deferred (snd (inviteUser c e email role password u s)) = deferred s"
  "tenantStatusCache (snd (inviteUser c e email role password u s)) = tenantStatusCache s"
  "tenants (acc_db (snd (inviteUser c e email role password u s))) = tenants (acc_db s)"
  by (simp_all add: inviteUser_def Let_def handler_frames bump_def split: sum.split)

interpretation invite: tenant_handler "inviteUser c e email role password" for c e email role password
proof unfold_locales
  fix u s
  let ?s = "snd (inviteUser c e email role password u s)"
  show "admin_ids ?s \<subseteq> admin_ids s"
    using inviteUser_users [of c e email role password u s] by (auto simp: admin_ids_def)
  show "filter (\<lambda>x. us_tenantId x = t) (users ?s) = filter (\<lambda>x. us_tenantId x = t) (users s)" if "t \<noteq> ru_tenantId u" for t
    using inviteUser_users [of c e email role password u s] that by auto
qed (simp_all add: inviteUser_frame cong: key_dead_cong)

lemma changeRole_users:
  "users (snd (changeRole e i role u s)) = users s \<or>
   (role \<in> {STAFF, OWNER} \<and>
    users (snd (changeRole e i role u s)) = map (\<lambda>x. if is_member i (ru_tenantId u) x then x\<lparr>us_role := role\<rparr> else x) (users s))"
  by (cases "find (is_member i (ru_tenantId u)) (users s)") (auto simp: changeRole_def handler_frames)

lemma changeRole_frame:
  "apiKeys (snd (changeRole e i role u s)) = apiKeys s" "deferred (snd (changeRole e i role u s)) = deferred s"
  "tenantStatusCache (snd (changeRole e i role u s)) = tenantStatusCache s"
  "tenants (acc_db (snd (changeRole e i role u s))) = tenants (acc_db s)"
  by (simp_all add: changeRole_def handler_frames split: option.split)

interpretation change_role: tenant_handler "changeRole e i role" for e i role
proof unfold_locales
  fix u s
  let ?s = "snd (changeRole e i role u s)"
  show "admin_ids ?s \<subseteq> admin_ids s"
    using changeRole_users [of e i role u s] by (auto simp: admin_ids_def split: if_splits)
  show "filter (\<lambda>x. us_tenantId x = t) (users ?s) = filter (\<lambda>x. us_tenantId x = t) (users s)" if "t \<noteq> ru_tenantId u" for t
  proof -
    have "filter (\<lambda>x. us_tenantId x = t) (map (\<lambda>x. if is_member i (ru_tenantId u) x then x\<lparr>us_role := role\<rparr> else x) (users s)) =
      filter (\<lambda>x. us_tenantId x = t) (users s)" using that by (intro filter_update_row) (auto simp: is_member_def)
    with changeRole_users [of e i role u s] show ?thesis by auto
  qed
qed (simp_all add: changeRole_frame cong: key_dead_cong)

lemma deleteUser_users:
  "users (snd (deleteUser e i u s)) = users s \<or> users (snd (deleteUser e i u s)) = filter (\<lambda>x. \<not> is_member i (ru_tenantId u) x) (users s)"
  by (simp add: deleteUser_def handler_frames)

lemma deleteUser_frame:
  "apiKeys (snd (deleteUser e i u s)) = apiKeys s" "deferred (snd (deleteUser e i u s)) = deferred s"
  "tenantStatusCache (snd (deleteUser e i u s)) = tenantStatusCache s"
  "tenants (acc_db (snd (deleteUser e i u s))) = tenants (acc_db s)"
  by (simp_all add: deleteUser_def handler_frames)

interpretation delete_user: tenant_handler "deleteUser e i" for e i
proof unfold_locales
  fix u s
  let ?s = "snd (deleteUser e i u s)"
  show "admin_ids ?s \<subseteq> admin_ids s" using deleteUser_users [of e i u s] by (auto simp: admin_ids_def)
  show "filter (\<lambda>x. us_tenantId x = t) (users ?s) = filter (\<lambda>x. us_tenantId x = t) (users s)" if "t \<noteq> ru_tenantId u" for t
    using deleteUser_users [of e i u s] that filter_remove_other [of "is_member i (ru_tenantId u)" "\<lambda>x. us_tenantId x = t" "users s"]
    by (auto simp: is_member_def)
qed (simp_all add: deleteUser_frame cong: key_dead_cong)

lemma setTenantStatus_frame:
  "users (snd (setTenantStatus i status u s)) = users s"
  "apiKeys (snd (setTenantStatus i status u s)) = apiKeys s" "deferred (snd (setTenantStatus i status u s)) = deferred s"
  "tenantStatusCache (snd (setTenantStatus i status u s)) = tenantStatusCache s"
  by (simp_all add: setTenantStatus_def handler_frames split: option.split)

lemma setTenantStatus_lookup:
  "tenant_by_id t (snd (setTenantStatus i status u s)) =
     (if t = i then map_option (\<lambda>r. r\<lparr>tn_status := status\<rparr>) (tenant_by_id t s) else tenant_by_id t s)"
  using find_update_key [of tn_id "\<lambda>r. r\<lparr>tn_status := status\<rparr>" t i "tenants (acc_db s)"]
  by (cases "t = i") (auto simp: setTenantStatus_def handler_frames tenant_by_id_def split: option.split)

interpretation tenant_switch: account_handler "setTenantStatus i status" for i status
  by unfold_locales (simp_all add: setTenantStatus_frame admin_ids_def cong: key_dead_cong)

subsection \<open>Requests without the middleware\<close>

lemma register_users:
  "users (snd (register c e n m p s)) = users s \<or> (\<exists>u. users (snd (register c e n m p s)) = users s @ [u] \<and> us_role u = OWNER)"
  by (cases "registerSchema c n m p") (auto simp: register_def Let_def)

lemma register_frame:
  "apiKeys (snd (register c e n m p s)) = apiKeys s" "deferred (snd (register c e n m p s)) = deferred s"
  "tenantStatusCache (snd (register c e n m p s)) = tenantStatusCache s"
  by (simp_all add: register_def Let_def split: sum.split)

lemma register_tenant: "tenant_by_id i s = Some r \<Longrightarrow> tenant_by_id i (snd (register c e n m p s)) = Some r"
  by (auto simp: register_def Let_def tenant_by_id_def find_append bump_def split: sum.split)

lemma login_state [simp]: "snd (login c email password s) = s"
  by (simp add: login_def split: option.split)

lemma forgot_reset_state [simp]: "snd (forgotPassword c email s) = s" "snd (resetPassword token password s) = s"
  by (simp_all add: forgotPassword_def resetPassword_def)

lemma run_deferred_frame [simp]:
  "users (run_deferred w s) = users s" "acc_db (run_deferred w s) = acc_db s" "tenantStatusCache (run_deferred w s) = tenantStatusCache s"
  by (simp_all add: run_deferred_def update_key_def split: deferred_write.split)

text \<open>
  The completion of a write does not revive a revoked key: its digest is still taken by the revoked row, so the backfill of another
  row with the same digest fails.
\<close>

lemma run_deferred_dead:
  assumes "key_dead c token s" "w \<in> set (deferred s)"
  shows "key_dead c token (run_deferred w s)"
proof (cases w)
  case (StampUse i t)
  have "key_dead c token (update_key i (\<lambda>k. k\<lparr>ak_lastUsedAt := Some t\<rparr>) s)"
    by (rule key_dead_update [OF assms(1)]) (simp_all add: answers_def unrevoked_def)
  with StampUse show ?thesis by (simp add: run_deferred_def)
next
  case (Backfill i h)
  let ?f = "\<lambda>k. if ak_id k = i then k\<lparr>ak_keySha256 := Some h\<rparr> else k"
  obtain k where k: "k \<in> set (apiKeys s)" "ak_keySha256 k = Some (sha256 c token)" "\<And>h. Backfill (ak_id k) h \<notin> set (deferred s)"
    using assms(1) by (auto simp: key_dead_def)
  have other: "ak_id k \<noteq> i" using k(3) assms(2) Backfill by auto
  show ?thesis
  proof (cases "list_ex (\<lambda>k. ak_keySha256 k = Some h \<and> ak_id k \<noteq> i) (apiKeys s)")
    case False
    with k(1,2) other have h: "h \<noteq> sha256 c token" by (auto simp: list_ex_iff)
    define s' where "s' = run_deferred w s"
    have keys: "apiKeys s' = map ?f (apiKeys s)" and pending: "deferred s' = deferred s"
      using False Backfill by (simp_all add: s'_def run_deferred_def update_key_def)
    have "\<not> answers c token (?f y)" if "y \<in> set (apiKeys s)" for y
      using that assms(1) h by (auto simp: key_dead_def answers_def unrevoked_def)
    then have "\<forall>x \<in> set (apiKeys s'). \<not> answers c token x" unfolding keys by (metis (no_types, lifting) imageE set_map)
    moreover have ids: "map ak_id (map ?f (apiKeys s)) = map ak_id (apiKeys s)" by simp
    have "distinct (map ak_id (apiKeys s'))" using assms(1) unfolding keys ids key_dead_def by simp
    moreover have "k \<in> set (apiKeys s')" using k(1) other unfolding keys set_map by (intro image_eqI [of _ _ k]) simp_all
    ultimately show ?thesis using k(2,3) unfolding key_dead_def s'_def [symmetric] pending by blast
  qed (use assms(1) Backfill in \<open>simp add: run_deferred_def\<close>)
qed

lemma granted_simps [simp]: "snd (granted r f) = snd r" "snd (no_token r) = snd r" "fst (no_token r) = {}"
  by (simp_all add: granted_def no_token_def)

subsection \<open>Any request\<close>

lemmas guarded_admins_all = own_user.guarded_admins list_keys.guarded_admins create_key.guarded_admins revoke_key.guarded_admins
  list_users.guarded_admins invite.guarded_admins change_role.guarded_admins delete_user.guarded_admins tenant_switch.guarded_admins

lemmas guarded_dead_all = own_user.guarded_dead list_keys.guarded_dead create_key.guarded_dead revoke_key.guarded_dead
  list_users.guarded_dead invite.guarded_dead change_role.guarded_dead delete_user.guarded_dead tenant_switch.guarded_dead

lemmas guarded_cache_all = own_user.guarded_cache_fresh list_keys.guarded_cache_fresh create_key.guarded_cache_fresh
  revoke_key.guarded_cache_fresh list_users.guarded_cache_fresh invite.guarded_cache_fresh change_role.guarded_cache_fresh
  delete_user.guarded_cache_fresh tenant_switch.guarded_cache_fresh

lemmas guarded_disabled_all = own_user.guarded_disabled list_keys.guarded_disabled create_key.guarded_disabled
  revoke_key.guarded_disabled list_users.guarded_disabled invite.guarded_disabled change_role.guarded_disabled delete_user.guarded_disabled

lemma serve_admins: "admin_ids (snd (serve c e req s)) \<subseteq> admin_ids s"
proof (cases req)
  case (Register n m p)
  then show ?thesis using register_users [of c e n m p s] by (auto simp: admin_ids_def)
next
  case (Deferred n)
  then show ?thesis by (simp add: admin_ids_def)
next
  case (Elsewhere d)
  then show ?thesis by (simp add: admin_ids_def)
qed (simp_all add: guarded_admins_all)

lemma serve_signed:
  assumes "p \<in> fst (serve c e req s)" "jp_role p = SUPPORT_ADMIN \<or> jp_role p = SUPER_ADMIN"
  shows "jp_sub p \<in> admin_ids s"
proof (cases req)
  case (Register n m w)
  then show ?thesis using assms by (auto simp: granted_def register_def token_payload_def Let_def split: sum.splits if_splits)
next
  case (Login m w)
  then obtain u where "find (\<lambda>u. us_email u = m) (users s) = Some u" "p = token_payload u (us_tenantId u)"
    using assms(1) by (auto simp: granted_def login_def split: if_splits option.splits)
  then show ?thesis using assms(2) by (force simp: admin_ids_def token_payload_def dest: find_SomeD)
qed (use assms in auto)

lemma serve_dead:
  assumes "key_dead c' token s"
  shows "key_dead c' token (snd (serve c e req s))"
proof (cases req)
  case (Register n m p)
  then show ?thesis using assms by (simp add: register_frame cong: key_dead_cong)
next
  case (Authenticate h)
  then show ?thesis using assms by (simp add: requireAuth_dead)
next
  case (Deferred n)
  show ?thesis
  proof (cases "n < length (deferred s)")
    case True
    let ?s = "s\<lparr>deferred := take n (deferred s) @ drop (Suc n) (deferred s)\<rparr>" and ?w = "deferred s ! n"
    have "key_dead c' token (run_deferred ?w s)" using True assms by (intro run_deferred_dead) auto
    moreover have "apiKeys (run_deferred ?w ?s) = apiKeys (run_deferred ?w s)"
      by (simp add: run_deferred_def update_key_def split: deferred_write.split)
    moreover have "set (deferred (run_deferred ?w ?s)) \<subseteq> set (deferred s)" "deferred (run_deferred ?w s) = deferred s"
      by (auto simp: run_deferred_def update_key_def dest: in_set_takeD in_set_dropD split: deferred_write.split)
    ultimately have "key_dead c' token (run_deferred ?w ?s)" unfolding key_dead_def by (metis (no_types, lifting) subsetD)
    then show ?thesis using True Deferred by simp
  qed (use assms Deferred in simp)
next
  case (Elsewhere d)
  then show ?thesis using assms by (simp cong: key_dead_cong)
qed (use assms in \<open>simp_all add: guarded_dead_all\<close>)

lemma serve_cache_fresh:
  assumes "cache_fresh t s" "t \<le> now e"
  shows "cache_fresh (now e) (snd (serve c e req s))"
proof -
  have same: "cache_fresh (now e) s'" if "tenantStatusCache s' = tenantStatusCache s" for s'
    using assms unfolding cache_fresh_def that by (meson add_right_mono order_trans)
  show ?thesis
  proof (cases req)
    case (Register n m p)
    then show ?thesis by (simp add: register_frame same)
  next
    case (Authenticate h)
    then show ?thesis using assms by (simp add: requireAuth_cache_fresh)
  qed (use assms in \<open>simp_all add: guarded_cache_all same\<close>)
qed

lemma serve_disabled:
  assumes "disabled_until t i s" "\<And>h. req \<noteq> SetTenantStatus h i TENANT_ACTIVE"
  shows "disabled_until t i (snd (serve c e req s))"
proof (cases req)
  case (Register n m p)
  then show ?thesis using assms(1) by (auto simp: disabled_until_def register_frame register_tenant)
next
  case (SetTenantStatus h j status)
  have "disabled_until t i (snd (setTenantStatus j status u s'))" if "disabled_until t i s'" for u s'
    using that assms(2) [of h] SetTenantStatus by (cases status) (auto simp: disabled_until_def setTenantStatus_frame setTenantStatus_lookup)
  then show ?thesis
    using SetTenantStatus requireAuth_disabled [OF assms(1), of c e h] tenant_switch.guarded_snd [of c e h requireSuperAdmin j status s]
    by auto
next
  case (Elsewhere d)
  then show ?thesis using assms(1) by (simp add: disabled_until_def tenant_by_id_def)
next
  case (Deferred n)
  then show ?thesis using assms(1) by (simp add: disabled_until_def tenant_by_id_def)
qed (use assms(1) in \<open>simp_all add: guarded_disabled_all requireAuth_disabled\<close>)

subsection \<open>Any sequence of requests\<close>

lemma account_run_invariant:
  assumes "account_run c allowed w w'" "P (aw_accounts w)" "\<And>e req s. P s \<Longrightarrow> allowed req \<Longrightarrow> P (snd (serve c e req s))"
  shows "P (aw_accounts w')"
  using assms(1,2)
proof (induction rule: account_run.induct)
  case (call w w' req e T s)
  then show ?case using assms(3) [of "aw_accounts w'" req e] by simp
qed

lemma account_run_clock: "account_run c allowed w w' \<Longrightarrow> aw_clock w \<le> aw_clock w'"
  by (induction rule: account_run.induct) auto

lemma account_run_cache:
  assumes "account_run c allowed w w'" "cache_fresh (aw_clock w) (aw_accounts w)"
  shows "cache_fresh (aw_clock w') (aw_accounts w')"
  using assms
proof (induction rule: account_run.induct)
  case (call w w' req e T s)
  then show ?case using serve_cache_fresh [of "aw_clock w'" "aw_accounts w'" e c req] by simp
qed

lemma account_run_admins:
  assumes "account_run c allowed w w'"
  shows "admin_ids (aw_accounts w') \<subseteq> admin_ids (aw_accounts w)"
  using assms by (rule account_run_invariant [where P = "\<lambda>s. admin_ids s \<subseteq> admin_ids (aw_accounts w)"]) (use serve_admins in blast)+

lemma account_run_signed:
  assumes "account_run c allowed w w'" "aw_signed w = {}" "p \<in> aw_signed w'" "jp_role p = SUPPORT_ADMIN \<or> jp_role p = SUPER_ADMIN"
  shows "jp_sub p \<in> admin_ids (aw_accounts w)"
  using assms(1,2,3)
proof (induction rule: account_run.induct)
  case (call w w' req e T s)
  then consider "p \<in> aw_signed w'" | "p \<in> fst (serve c e req (aw_accounts w'))" by auto
  then show ?case
    using call.IH call.prems(1) serve_signed [OF _ assms(4), of c e req "aw_accounts w'"] account_run_admins [OF call.hyps(1)] by cases auto
qed simp

section \<open>What authentication accepts\<close>

lemma requireAuth_bearer:
  "requireAuth c e (Some (''Bearer '' @ token)) s =
     (if startsWith ''cp_live_'' token \<or> startsWith ''cp_test_'' token then apiKeyAuth c e token s else jwtAuth c e token s)"
  by (simp add: requireAuth_def startsWith_def Let_def)

lemma requireAuth_admin_payload:
  assumes "requireAuth c e h s = (Inr u, s')" "requireAdmin u = Inr ()"
  obtains token p where "jwt_verify c (now e) token = Some p" "jp_sub p = ru_id u" "jp_role p \<in> {SUPPORT_ADMIN, SUPER_ADMIN}"
proof -
  have role: "ru_role u \<in> {SUPPORT_ADMIN, SUPER_ADMIN}" using assms(2) by (simp add: requireAdmin_def requireRole_def)
  have "apiKeyAuth c e token s \<noteq> (Inr u, s')" for token
    using role by (auto simp: apiKeyAuth_def split: prod.splits option.splits if_splits)
  then obtain token where "jwtAuth c e token s = (Inr u, s')"
    using assms(1) by (auto simp: requireAuth_def Let_def split: option.splits if_splits)
  then show thesis using role that by (auto simp: jwtAuth_def split: option.splits prod.splits bool.splits)
qed

lemma dead_key_refused:
  assumes "key_dead c token s" "startsWith ''cp_live_'' token \<or> startsWith ''cp_test_'' token"
  shows "fst (requireAuth c e (Some (''Bearer '' @ token)) s) = Inl (AppError 401 ''UNAUTHORIZED'')"
proof -
  obtain r s1 where f: "find_api_key c token s = (r, s1)" by force
  with assms(1) find_api_key_frame(3) [OF f] have "r = None" by (cases r) (auto simp: key_dead_def)
  with f assms(2) show ?thesis unfolding requireAuth_bearer by (simp add: apiKeyAuth_def)
qed

lemma disabled_key_refused:
  assumes "apiKeyAuth c e token s = (Inr u, s')" "read_tenant_status i s = TENANT_DISABLED"
  shows "ru_tenantId u \<noteq> i"
proof -
  obtain k s1 where f: "find_api_key c token s = (k, s1)" by force
  then have "read_tenant_status i s1 = TENANT_DISABLED"
    using assms(2) find_api_key_frame(1) [OF f] by (simp add: read_tenant_status_def tenant_by_id_def only_starts_def)
  then show ?thesis using assms(1) f by (auto simp: apiKeyAuth_def split: option.splits if_splits)
qed

lemma disabled_refused:
  assumes "disabled_until t i s" "t \<le> now e" "requireAuth c e h s = (Inr u, s')"
  shows "ru_tenantId u \<noteq> i"
proof -
  have status: "read_tenant_status i s = TENANT_DISABLED" using assms(1) by (auto simp: disabled_until_def read_tenant_status_def)
  have "jwtAuth c e token s \<noteq> (Inr u, s')" if "ru_tenantId u = i" for token
    using that status assms(1,2)
    by (auto simp: jwtAuth_def checkTenantActive_def disabled_until_def Let_def split: option.splits prod.splits bool.splits if_splits)
  then show ?thesis
    using assms(3) disabled_key_refused [OF _ status] by (auto simp: requireAuth_def Let_def split: option.splits if_splits)
qed

lemma created_key_accepted:
  assumes "createApiKey c e name u s = (Inr (k, rawKey), s1)" "read_tenant_status (ru_tenantId u) s = TENANT_ACTIVE"
    "owner_of (ru_tenantId u) s = Some owner"
  shows "fst (requireAuth c e' (Some (''Bearer '' @ rawKey)) s1) =
    Inr \<lparr>ru_id = us_id owner, ru_tenantId = ru_tenantId u, ru_role = OWNER, ru_email = us_email owner\<rparr>"
proof -
  have k: "k = api_key_row c e (ru_tenantId u) name s" "rawKey = raw_key c (seq (acc_db s))" "\<not> key_taken k s" "apiKeys s1 = apiKeys s @ [k]"
    using assms(1) createApiKey_keys [of c e name u s]
    by (auto simp: createApiKey_def audit_as_def Let_def split: if_splits)
  have same: "users s1 = users s" "tenants (acc_db s1) = tenants (acc_db s)"
    using createApiKey_frame [of c e name u s] assms(1) by simp_all
  have sha: "ak_keySha256 k = Some (sha256 c rawKey)" "unrevoked k" "ak_tenantId k = ru_tenantId u"
    by (simp_all add: k(1,2) api_key_row_def unrevoked_def Let_def)
  have "find (\<lambda>x. ak_keySha256 x = Some (sha256 c rawKey) \<and> unrevoked x) (apiKeys s) = None"
    using k(3) sha(1) by (auto simp: key_taken_def list_ex_iff find_None_iff)
  then have "by_sha256 (sha256 c rawKey) s1 = Some k" using k(4) sha by (simp add: by_sha256_def find_append)
  then have "find_api_key c rawKey s1 = (Some k, s1)" by (simp add: find_api_key_def)
  moreover have "read_tenant_status (ru_tenantId u) s1 = TENANT_ACTIVE" "owner_of (ru_tenantId u) s1 = Some owner"
    using assms(2,3) same by (simp_all add: read_tenant_status_def tenant_by_id_def owner_of_def)
  moreover have "startsWith ''cp_live_'' rawKey" unfolding k(2) raw_key_def by (rule startsWith_append)
  ultimately show ?thesis using requireAuth_bearer [of c e' rawKey s1] sha(3) by (simp add: apiKeyAuth_def)
qed

section \<open>Properties\<close>

text \<open>
  C6. Nobody becomes an administrator through the API. Whatever requests are made, starting with no token signed, a caller whom
  \<open>requireAuth\<close> and \<open>requireAdmin\<close> let pass is a user who was an administrator at the beginning, provided the token library
  accepts only tokens signed by this program; and no request makes another user an administrator. An API key never passes.
\<close>

theorem no_privilege_escalation:
  assumes "account_run c allowed w w'" "aw_signed w = {}" "\<And>token p. jwt_verify c (now e) token = Some p \<Longrightarrow> p \<in> aw_signed w'"
    "requireAuth c e h (aw_accounts w') = (Inr u, s)" "requireAdmin u = Inr ()"
  shows "ru_id u \<in> admin_ids (aw_accounts w) \<and> admin_ids (aw_accounts w') \<subseteq> admin_ids (aw_accounts w)"
proof -
  obtain token p where p: "jwt_verify c (now e) token = Some p" "jp_sub p = ru_id u" "jp_role p \<in> {SUPPORT_ADMIN, SUPER_ADMIN}"
    using requireAuth_admin_payload [OF assms(4,5)] .
  then have "jp_sub p \<in> admin_ids (aw_accounts w)" by (intro account_run_signed [OF assms(1,2) assms(3)]) auto
  then show ?thesis using p(2) account_run_admins [OF assms(1)] by simp
qed

text \<open>A small system for the witnesses: one tenant with an owner and an administrator.\<close>

definition demo_admin :: user where
  "demo_admin = \<lparr>us_id = ''adm'', us_tenantId = ''t1'', us_email = ''adm@x'', us_passwordHash = ''bsecretpw'', us_role = SUPER_ADMIN\<rparr>"

definition demo_owner :: user where
  "demo_owner = \<lparr>us_id = ''own'', us_tenantId = ''t1'', us_email = ''own@x'', us_passwordHash = ''bownerpass'', us_role = OWNER\<rparr>"

definition demo_partner :: user where
  "demo_partner = \<lparr>us_id = ''par'', us_tenantId = ''t1'', us_email = ''par@x'', us_passwordHash = ''bpartnerpw'', us_role = OWNER\<rparr>"

definition demo_libs :: libs where
  "demo_libs = \<lparr>sha256 = (\<lambda>s. ''h'' @ s), bcrypt_hash = (\<lambda>cost n s. ''b'' @ s), bcrypt_compare = (\<lambda>s h. h = ''b'' @ s),
     random_hex = (\<lambda>n k. replicate n (CHR ''1'')), jwt_sign = (\<lambda>t p. ''jwt-'' @ jp_sub p),
     jwt_verify = (\<lambda>t token. if token = ''jwt-adm'' then Some (token_payload demo_admin ''t1'')
                           else if token = ''jwt-par'' then Some (token_payload demo_partner ''t1'')
                           else if token = ''jwt-xx'' then Some \<lparr>jp_sub = ''xx'', jp_tenantId = ''x'', jp_role = OWNER, jp_email = ''new@x''\<rparr> else None),
     is_email = (\<lambda>s. CHR ''@'' \<in> set s)\<rparr>"

definition demo_accounts :: accounts where
  "demo_accounts = \<lparr>acc_db = empty_db\<lparr>tenants := [new_tenant ''t1'']\<rparr>, profiles = [new_profile ''t1'' ''Shop'' ''shop''],
     users = [demo_admin, demo_owner, demo_partner], apiKeys = [], tenantStatusCache = Map.empty, deferred = []\<rparr>"

definition demo_world :: account_world where
  "demo_world = \<lparr>aw_clock = 0, aw_accounts = demo_accounts, aw_signed = {}\<rparr>"

lemmas demo_account_simps = demo_libs_def demo_accounts_def demo_admin_def demo_owner_def demo_partner_def demo_env_def new_tenant_def
  empty_db_def startsWith_def requireAuth_def jwtAuth_def checkTenantActive_def read_tenant_status_def tenant_by_id_def token_payload_def

definition only_admin_libs :: libs where
  "only_admin_libs = demo_libs\<lparr>jwt_verify := (\<lambda>t token. if token = ''jwt-adm'' then Some (token_payload demo_admin ''t1'') else None)\<rparr>"

theorem no_privilege_escalation_witness:
  "\<exists>w u. account_run only_admin_libs (\<lambda>_. True) demo_world w \<and> ru_role u = SUPER_ADMIN \<and>
     fst (requireAuth only_admin_libs demo_env (Some ''Bearer jwt-adm'') (aw_accounts w)) = Inr u \<and> ru_id u \<in> admin_ids demo_accounts"
proof -
  let ?p = "token_payload demo_admin ''t1''" and ?u = "\<lparr>ru_id = ''adm'', ru_tenantId = ''t1'', ru_role = SUPER_ADMIN, ru_email = ''adm@x''\<rparr>"
  let ?w = "\<lparr>aw_clock = 0, aw_accounts = demo_accounts, aw_signed = {} \<union> {?p}\<rparr>"
  have "login only_admin_libs ''adm@x'' ''secretpw'' demo_accounts = (Inr ?p, demo_accounts)"
    by (simp add: login_def only_admin_libs_def demo_account_simps)
  then have served: "serve only_admin_libs demo_env (Login ''adm@x'' ''secretpw'') (aw_accounts demo_world) = ({?p}, demo_accounts)"
    by (simp add: granted_def demo_world_def)
  have "now demo_env = 0" by (simp add: demo_env_def)
  with account_run.call [OF account_run.stay, of "\<lambda>_. True" _ demo_world demo_env, OF _ _ served]
  have run: "account_run only_admin_libs (\<lambda>_. True) demo_world ?w" by (simp add: demo_world_def)
  obtain s where auth: "requireAuth only_admin_libs demo_env (Some ''Bearer jwt-adm'') (aw_accounts ?w) = (Inr ?u, s)"
    by (simp add: demo_account_simps only_admin_libs_def)
  have sound: "p \<in> aw_signed ?w" if "jwt_verify only_admin_libs (now demo_env) token = Some p" for token p
    using that by (simp add: only_admin_libs_def split: if_splits)
  have admin: "requireAdmin ?u = Inr ()" by (simp add: requireAdmin_def requireRole_def)
  have unsigned: "aw_signed demo_world = {}" by (simp add: demo_world_def)
  have "ru_id ?u \<in> admin_ids (aw_accounts demo_world)"
    by (rule conjunct1 [OF no_privilege_escalation [OF run unsigned sound auth admin]])
  then show ?thesis using run auth by (intro exI [of _ ?w] exI [of _ ?u]) (simp add: demo_world_def)
qed

text \<open>
  C7. A revoked API key is refused for ever. After the request that revokes a key is answered with success, and after whatever requests
  follow, also those that were authenticating while it was revoked, a request that presents the key is answered 401. The key is one
  whose digest is stored, as every key the program creates; the digest is unique, and no older row without a digest accepts the key.
\<close>

theorem revoked_key_refused:
  assumes "distinct (map ak_id (apiKeys s))" "k \<in> set (apiKeys s)" "ak_keySha256 k = Some (sha256 c token)"
    "\<And>x. x \<in> set (apiKeys s) \<Longrightarrow> x \<noteq> k \<Longrightarrow> ak_keySha256 x \<noteq> Some (sha256 c token)"
    "\<And>x. x \<in> set (apiKeys s) \<Longrightarrow> ak_keySha256 x = None \<Longrightarrow> \<not> bcrypt_compare c token (ak_keyHash x)"
    "\<And>h. Backfill (ak_id k) h \<notin> set (deferred s)"
    "startsWith ''cp_live_'' token \<or> startsWith ''cp_test_'' token"
    "revokeApiKey e (ak_id k) u s = (Inr (), s1)"
    "account_run c allowed w w'" "aw_accounts w = s1"
  shows "fst (requireAuth c e' (Some (''Bearer '' @ token)) (aw_accounts w')) = Inl (AppError 401 ''UNAUTHORIZED'')"
proof -
  let ?f = "\<lambda>k. k\<lparr>ak_revokedAt := Some (now e)\<rparr>"
  let ?g = "\<lambda>x. if ak_id x = ak_id k then ?f x else x"
  obtain keys: "apiKeys s1 = map ?g (apiKeys s)" and pending: "deferred s1 = deferred s"
    using assms(8) by (simp add: revokeApiKey_def audit_as_def update_key_def split: option.splits if_splits) (use find_SomeD in force)
  have "\<not> answers c token (?g x)" if "x \<in> set (apiKeys s)" for x
  proof (cases "ak_id x = ak_id k")
    case False
    then have "x \<noteq> k" by blast
    with False assms(4,5) [OF that] show ?thesis by (auto simp: answers_def)
  qed (simp add: answers_def unrevoked_def)
  then have none: "\<forall>x \<in> set (apiKeys s1). \<not> answers c token x" unfolding keys by (metis (no_types, lifting) imageE set_map)
  have ids: "map ak_id (map ?g (apiKeys s)) = map ak_id (apiKeys s)" by simp
  have "distinct (map ak_id (apiKeys s1))" using assms(1) unfolding keys ids .
  moreover have "?f k \<in> set (apiKeys s1)" using assms(2) unfolding keys set_map by (intro image_eqI [of _ _ k]) simp_all
  moreover have "\<forall>h. Backfill (ak_id (?f k)) h \<notin> set (deferred s1)" using assms(6) pending by simp
  ultimately have "key_dead c token s1" using none assms(3) unfolding key_dead_def by (metis api_key.select_convs(5) api_key.surjective api_key.update_convs(8))
  then have "key_dead c token (aw_accounts w')"
    using account_run_invariant [OF assms(9), of "key_dead c token"] serve_dead assms(10) by blast
  then show ?thesis using assms(7) by (rule dead_key_refused)
qed

definition demo_key :: api_key where
  "demo_key = \<lparr>ak_id = ''k1'', ak_tenantId = ''t1'', ak_name = ''shop'', ak_keyHash = ''bcp_live_1'', ak_keySha256 = Some ''hcp_live_1'',
     ak_keyPrefix = ''cp_live_1'', ak_lastUsedAt = None, ak_revokedAt = None, ak_createdAt = 0\<rparr>"

definition owner_request :: req_user where
  "owner_request = \<lparr>ru_id = ''own'', ru_tenantId = ''t1'', ru_role = OWNER, ru_email = ''own@x''\<rparr>"

theorem revoked_key_refused_witness:
  "is_ok (fst (requireAuth demo_libs demo_env (Some ''Bearer cp_live_1'') (demo_accounts\<lparr>apiKeys := [demo_key]\<rparr>))) \<and>
   (\<exists>s1. revokeApiKey demo_env ''k1'' owner_request (demo_accounts\<lparr>apiKeys := [demo_key]\<rparr>) = (Inr (), s1) \<and>
     fst (requireAuth demo_libs demo_env (Some ''Bearer cp_live_1'') s1) = Inl (AppError 401 ''UNAUTHORIZED''))"
proof -
  let ?s = "demo_accounts\<lparr>apiKeys := [demo_key]\<rparr>"
  have before: "is_ok (fst (requireAuth demo_libs demo_env (Some ''Bearer cp_live_1'') ?s))"
    by (simp add: demo_account_simps demo_key_def apiKeyAuth_def find_api_key_def by_sha256_def unrevoked_def owner_of_def Let_def)
  obtain s1 where revoked: "revokeApiKey demo_env (ak_id demo_key) owner_request ?s = (Inr (), s1)"
    by (simp add: demo_key_def revokeApiKey_def owner_request_def audit_as_def unrevoked_def update_key_def demo_accounts_def demo_owner_def demo_admin_def)
  let ?w = "\<lparr>aw_clock = 0, aw_accounts = s1, aw_signed = {}\<rparr>"
  have run: "account_run demo_libs (\<lambda>_. True) ?w ?w" by (rule account_run.stay)
  have keys: "apiKeys ?s = [demo_key]" "deferred ?s = []" by (simp_all add: demo_accounts_def)
  have sha: "ak_keySha256 demo_key = Some (sha256 demo_libs ''cp_live_1'')" by (simp add: demo_key_def demo_libs_def)
  have token: "startsWith ''cp_live_'' ''cp_live_1'' \<or> startsWith ''cp_test_'' ''cp_live_1''" by (simp add: startsWith_def)
  have "fst (requireAuth demo_libs demo_env (Some (''Bearer '' @ ''cp_live_1'')) (aw_accounts ?w)) = Inl (AppError 401 ''UNAUTHORIZED'')"
    by (rule revoked_key_refused [OF _ _ sha _ _ _ token revoked run]) (use keys sha in auto)
  then show ?thesis using before revoked by (auto simp: demo_key_def)
qed

text \<open>
  C8. A disabled tenant is locked out within a minute. The program starts with an empty status cache and serves any requests; a super
  administrator disables the tenant; requests follow that do not enable it again. From 60 seconds after the switch on nobody is
  authenticated for that tenant, neither with a token nor with a key, although each token remains valid for days; with an API key
  nobody is, from the switch on.
\<close>

theorem disabled_tenant_locked_out:
  assumes "tenantStatusCache (aw_accounts w0) = Map.empty" "account_run c (\<lambda>_. True) w0 w" "aw_clock w \<le> now e"
    "guarded c e h requireSuperAdmin (setTenantStatus i TENANT_DISABLED) (aw_accounts w) = (Inr TENANT_DISABLED, s)"
    "account_run c (\<lambda>req. \<forall>h. req \<noteq> SetTenantStatus h i TENANT_ACTIVE) \<lparr>aw_clock = now e, aw_accounts = s, aw_signed = aw_signed w\<rparr> w'"
    "now e + 60000 \<le> now e' \<or> startsWith ''Bearer cp_live_'' (the h')"
  shows "\<not> (\<exists>u s'. requireAuth c e' h' (aw_accounts w') = (Inr u, s') \<and> ru_tenantId u = i)"
proof -
  let ?t = "now e + TENANT_CACHE_TTL_MS"
  have "cache_fresh (aw_clock w0) (aw_accounts w0)" using assms(1) by (simp add: cache_fresh_def)
  then have "cache_fresh (aw_clock w) (aw_accounts w)" by (rule account_run_cache [OF assms(2)])
  then have fresh: "cache_fresh (now e) s"
    using tenant_switch.guarded_cache_fresh [OF _ assms(3), of "aw_accounts w" c h requireSuperAdmin i TENANT_DISABLED] assms(4) by simp
  obtain u1 s1 where step: "setTenantStatus i TENANT_DISABLED u1 s1 = (Inr TENANT_DISABLED, s)"
    using assms(4) by (auto simp: guarded_def sbind_def split: prod.splits sum.splits)
  then obtain r where "tenant_by_id i s1 = Some r" by (auto simp: setTenantStatus_def split: option.splits)
  then have "disabled_until ?t i s"
    using setTenantStatus_lookup [of i i TENANT_DISABLED u1 s1] step fresh by (auto simp: disabled_until_def cache_fresh_def)
  then have dis: "disabled_until ?t i (aw_accounts w')"
    using account_run_invariant [OF assms(5), of "disabled_until ?t i"] serve_disabled by simp
  have "ru_tenantId u \<noteq> i" if auth: "requireAuth c e' h' (aw_accounts w') = (Inr u, s')" for u s'
  proof (cases "now e + 60000 \<le> now e'")
    case True
    then show ?thesis using disabled_refused [OF dis _ auth] by (simp add: TENANT_CACHE_TTL_MS_def)
  next
    case False
    obtain line where line: "h' = Some line" using auth by (cases h') (simp_all add: requireAuth_def)
    with False assms(6) obtain r where r: "line = ''Bearer cp_live_'' @ r" by (auto simp: startsWith_iff)
    define token where "token = ''cp_live_'' @ r"
    have "h' = Some (''Bearer '' @ token)" "startsWith ''cp_live_'' token"
      using line r startsWith_append [of "''cp_live_''" r] by (simp_all add: token_def)
    then have "apiKeyAuth c e' token (aw_accounts w') = (Inr u, s')" using auth requireAuth_bearer [of c e' token "aw_accounts w'"] by simp
    moreover have "read_tenant_status i (aw_accounts w') = TENANT_DISABLED" using dis by (auto simp: disabled_until_def read_tenant_status_def)
    ultimately show ?thesis by (rule disabled_key_refused)
  qed
  then show ?thesis by blast
qed

theorem disabled_tenant_locked_out_witness:
  "\<exists>s. guarded demo_libs demo_env (Some ''Bearer jwt-adm'') requireSuperAdmin (setTenantStatus ''t1'' TENANT_DISABLED) demo_accounts =
       (Inr TENANT_DISABLED, s) \<and>
     fst (requireAuth demo_libs demo_env (Some ''Bearer jwt-par'') s) =
       Inr \<lparr>ru_id = ''par'', ru_tenantId = ''t1'', ru_role = OWNER, ru_email = ''par@x''\<rparr> \<and>
     \<not> (\<exists>u s'. requireAuth demo_libs (demo_env\<lparr>now := 60000\<rparr>) (Some ''Bearer jwt-par'') s = (Inr u, s') \<and> ru_tenantId u = ''t1'')"
proof -
  obtain s where switch: "guarded demo_libs demo_env (Some ''Bearer jwt-adm'') requireSuperAdmin (setTenantStatus ''t1'' TENANT_DISABLED)
      (aw_accounts demo_world) = (Inr TENANT_DISABLED, s)"
    and cached: "tenantStatusCache s = [''t1'' \<mapsto> (TENANT_ACTIVE, 60000)]"
    by (simp add: guarded_def demo_world_def demo_account_simps requireSuperAdmin_def requireRole_def setTenantStatus_def audit_as_def
        TENANT_CACHE_TTL_MS_def Let_def)
  let ?w = "\<lparr>aw_clock = now demo_env, aw_accounts = s, aw_signed = aw_signed demo_world\<rparr>"
  have late: "now demo_env + 60000 \<le> now (demo_env\<lparr>now := 60000\<rparr>) \<or> startsWith ''Bearer cp_live_'' (the (Some ''Bearer jwt-par''))"
    by (simp add: demo_env_def)
  have "\<not> (\<exists>u s'. requireAuth demo_libs (demo_env\<lparr>now := 60000\<rparr>) (Some ''Bearer jwt-par'') (aw_accounts ?w) = (Inr u, s') \<and> ru_tenantId u = ''t1'')"
    by (rule disabled_tenant_locked_out [OF _ account_run.stay _ switch account_run.stay late]) (simp_all add: demo_world_def demo_accounts_def demo_env_def)
  moreover have "fst (requireAuth demo_libs demo_env (Some ''Bearer jwt-par'') s) =
      Inr \<lparr>ru_id = ''par'', ru_tenantId = ''t1'', ru_role = OWNER, ru_email = ''par@x''\<rparr>"
    by (simp add: requireAuth_def startsWith_def jwtAuth_def checkTenantActive_def cached demo_libs_def demo_env_def token_payload_def demo_partner_def)
  ultimately show ?thesis using switch by (intro exI [of _ s]) (simp add: demo_world_def)
qed

text \<open>
  C14. Accounts work. After a successful registration the address and password log in as the owner of the new tenant, and the token
  handed out authenticates exactly that user; a key created by a request authenticates its tenant as OWNER, in the name of an owner
  of the tenant. The libraries do what they document: a password matches its own hash, a token verifies to what was signed, and no
  token looks like an API key.
\<close>

theorem accounts_authenticate:
  assumes "\<And>cost n p. bcrypt_compare c p (bcrypt_hash c cost n p)" "jwt_verify c (now e') (signToken c e payload) = Some payload"
    "\<not> startsWith ''cp_'' (signToken c e payload)"
    "tenant_by_id (fresh e (acc_db s)) s = None" "tenantStatusCache s (fresh e (acc_db s)) = None"
    "register c e businessName email password s = (Inr payload, s1)"
    "createApiKey c e name u s2 = (Inr (k, rawKey), s3)" "read_tenant_status (ru_tenantId u) s2 = TENANT_ACTIVE"
    "owner_of (ru_tenantId u) s2 = Some owner"
  shows "jp_role payload = OWNER \<and> jp_tenantId payload = fresh e (acc_db s) \<and> login c email password s1 = (Inr payload, s1) \<and>
    fst (requireAuth c e' (Some (''Bearer '' @ signToken c e payload)) s1) =
      Inr \<lparr>ru_id = jp_sub payload, ru_tenantId = jp_tenantId payload, ru_role = OWNER, ru_email = email\<rparr> \<and>
    fst (requireAuth c e' (Some (''Bearer '' @ rawKey)) s3) =
      Inr \<lparr>ru_id = us_id owner, ru_tenantId = ru_tenantId u, ru_role = OWNER, ru_email = us_email owner\<rparr>"
proof -
  define t where "t = fresh e (acc_db s)"
  define x where "x = \<lparr>us_id = fresh e (bump (acc_db s)), us_tenantId = t, us_email = email,
    us_passwordHash = bcrypt_hash c 12 (seq (acc_db s)) password, us_role = OWNER\<rparr>"
  have reg: "payload = token_payload x t" "users s1 = users s @ [x]" "tenants (acc_db s1) = tenants (acc_db s) @ [new_tenant t]"
      "tenantStatusCache s1 = tenantStatusCache s" "find (\<lambda>u. us_email u = email) (users s) = None" "is_email c email"
    using assms(6) unfolding register_def registerSchema_def x_def t_def
    by (auto simp: Let_def bump_def find_None_iff list_ex_iff split: sum.splits if_splits)
  have active: "read_tenant_status t s1 = TENANT_ACTIVE"
    using assms(4) reg(3) by (simp add: t_def read_tenant_status_def tenant_by_id_def find_append new_tenant_def)
  have "login c email password s1 = (Inr payload, s1)"
    using reg active assms(1) by (simp add: login_def find_append x_def)
  moreover have "\<not> startsWith ''cp_live_'' tok \<and> \<not> startsWith ''cp_test_'' tok" if "\<not> startsWith ''cp_'' tok" for tok
    using that by (auto simp: startsWith_iff)
  then have "requireAuth c e' (Some (''Bearer '' @ signToken c e payload)) s1 = jwtAuth c e' (signToken c e payload) s1"
    using assms(3) requireAuth_bearer [of c e' "signToken c e payload" s1] by simp
  moreover have "fst (jwtAuth c e' (signToken c e payload) s1) =
      Inr \<lparr>ru_id = jp_sub payload, ru_tenantId = jp_tenantId payload, ru_role = OWNER, ru_email = email\<rparr>"
    using assms(2,5) reg(1,4) active by (simp add: jwtAuth_def checkTenantActive_def t_def token_payload_def x_def)
  moreover have "fst (requireAuth c e' (Some (''Bearer '' @ rawKey)) s3) =
      Inr \<lparr>ru_id = us_id owner, ru_tenantId = ru_tenantId u, ru_role = OWNER, ru_email = us_email owner\<rparr>"
    by (rule created_key_accepted [OF assms(7-9)])
  ultimately show ?thesis by (simp add: reg(1) token_payload_def x_def t_def)
qed

theorem accounts_authenticate_witness:
  "\<exists>payload s1 k rawKey s3. register demo_libs demo_env ''New Shop'' ''new@x'' ''longpassword'' demo_accounts = (Inr payload, s1) \<and>
     login demo_libs ''new@x'' ''longpassword'' s1 = (Inr payload, s1) \<and>
     fst (requireAuth demo_libs demo_env (Some (''Bearer '' @ signToken demo_libs demo_env payload)) s1) =
       Inr \<lparr>ru_id = ''xx'', ru_tenantId = ''x'', ru_role = OWNER, ru_email = ''new@x''\<rparr> \<and>
     createApiKey demo_libs demo_env ''shop'' owner_request demo_accounts = (Inr (k, rawKey), s3) \<and>
     fst (requireAuth demo_libs demo_env (Some (''Bearer '' @ rawKey)) s3) = Inr owner_request"
proof -
  let ?p = "\<lparr>jp_sub = ''xx'', jp_tenantId = ''x'', jp_role = OWNER, jp_email = ''new@x''\<rparr>"
  have ids: "fresh demo_env (acc_db demo_accounts) = ''x''" "fresh demo_env (bump (acc_db demo_accounts)) = ''xx''"
    by (simp_all add: fresh_def bump_def demo_env_def demo_accounts_def empty_db_def)
  have other: "''shop'' \<noteq> m @ ''-'' @ n" "m @ ''-'' @ n \<noteq> ''shop''" for m n :: string
    by (auto dest!: arg_cong [of _ _ "\<lambda>l. CHR ''-'' \<in> set l"])
  obtain s1 where reg: "register demo_libs demo_env ''New Shop'' ''new@x'' ''longpassword'' demo_accounts = (Inr ?p, s1)"
    using other by (simp add: register_def registerSchema_def ids token_payload_def Let_def demo_libs_def new_profile_def)
       (simp add: demo_accounts_def demo_admin_def demo_owner_def demo_partner_def new_profile_def Let_def fresh_def bump_def demo_env_def
         token_payload_def empty_db_def)
  obtain k rawKey s3 where key: "createApiKey demo_libs demo_env ''shop'' owner_request demo_accounts = (Inr (k, rawKey), s3)"
    by (simp add: createApiKey_def key_taken_def audit_as_def Let_def owner_request_def)
       (simp add: demo_accounts_def demo_owner_def audit_as_def)
  have laws: "bcrypt_compare demo_libs p (bcrypt_hash demo_libs cost n p)" for cost n p by (simp add: demo_libs_def)
  have token: "jwt_verify demo_libs (now demo_env) (signToken demo_libs demo_env ?p) = Some ?p" "\<not> startsWith ''cp_'' (signToken demo_libs demo_env ?p)"
    by (simp_all add: demo_libs_def signToken_def startsWith_def)
  have new: "tenant_by_id (fresh demo_env (acc_db demo_accounts)) demo_accounts = None"
      "tenantStatusCache demo_accounts (fresh demo_env (acc_db demo_accounts)) = None"
      "read_tenant_status (ru_tenantId owner_request) demo_accounts = TENANT_ACTIVE" "owner_of (ru_tenantId owner_request) demo_accounts = Some demo_owner"
    unfolding ids by (simp_all add: tenant_by_id_def read_tenant_status_def owner_of_def owner_request_def)
       (simp_all add: demo_accounts_def new_tenant_def demo_owner_def demo_admin_def)
  have owner: "\<lparr>ru_id = us_id demo_owner, ru_tenantId = ru_tenantId owner_request, ru_role = OWNER, ru_email = us_email demo_owner\<rparr> = owner_request"
    by (simp add: demo_owner_def owner_request_def)
  note all = accounts_authenticate [OF laws token new(1,2) reg key new(3,4)]
  show ?thesis
    using all unfolding owner ids by (intro exI [of _ ?p] exI [of _ s1] exI [of _ k] exI [of _ rawKey] exI [of _ s3]) (simp add: reg key)
qed

text \<open>
  C15. A removed owner can come back. Once another owner has removed a user, the user's token is still accepted with the role written in
  it: an invitation of a new owner stores the account, then fails on the audit entry, whose user no longer exists, and is answered
  with an error; the account logs in as an owner of the tenant.
\<close>

theorem removed_owner_returns:
  assumes "deleteUser e (jp_sub p) a s = (Inr (), s1)" "distinct (map us_id (users s))"
    "jwt_verify c (now e') token = Some p" "jp_role p = OWNER" "jp_tenantId p = ru_tenantId a" "\<not> startsWith ''cp_'' token"
    "tenantStatusCache s (ru_tenantId a) = None" "read_tenant_status (ru_tenantId a) s = TENANT_ACTIVE"
    "is_email c email" "8 \<le> length password" "\<forall>x \<in> set (users s). us_email x \<noteq> email" "jp_sub p \<noteq> fresh e' (acc_db s)"
    "\<And>cost n. bcrypt_compare c password (bcrypt_hash c cost n password)"
  shows "\<exists>s2 q. guarded c e' (Some (''Bearer '' @ token)) requireOwner (inviteUser c e' email OWNER password) s1 = (Inl (JsError ''P2003''), s2) \<and>
    login c email password s2 = (Inr q, s2) \<and> jp_role q = OWNER \<and> jp_tenantId q = ru_tenantId a"
proof -
  let ?t = "ru_tenantId a" and ?u = "\<lparr>ru_id = jp_sub p, ru_tenantId = jp_tenantId p, ru_role = jp_role p, ru_email = jp_email p\<rparr>"
  have del: "users s1 = filter (\<lambda>x. \<not> is_member (jp_sub p) ?t x) (users s)" "tenantStatusCache s1 = tenantStatusCache s"
      "tenants (acc_db s1) = tenants (acc_db s)" "seq (acc_db s1) = seq (acc_db s)"
      and member: "find (is_member (jp_sub p) ?t) (users s) \<noteq> None"
    using assms(1) by (auto simp: deleteUser_def audit_as_def audit_def split: if_splits)
  obtain x where x: "x \<in> set (users s)" "is_member (jp_sub p) ?t x" using member find_SomeD by (metis not_None_eq)
  have gone: "us_id y \<noteq> jp_sub p" if "y \<in> set (users s1)" for y
  proof
    assume y: "us_id y = jp_sub p"
    have "y \<in> set (users s)" "\<not> is_member (jp_sub p) ?t y" using that by (auto simp: del(1))
    moreover have "y = x" using inj_onD [of us_id "set (users s)" y x] assms(2) x \<open>y \<in> set (users s)\<close> y by (simp add: is_member_def distinct_map)
    ultimately show False using x(2) by simp
  qed
  define s2 where "s2 = snd (jwtAuth c e' token s1)"
  have jwt: "jwtAuth c e' token s1 = (Inr ?u, s2)" and s2: "users s2 = users s1" "acc_db s2 = acc_db s1"
    using assms(3,5,7,8) del(2,3) by (simp_all add: s2_def jwtAuth_def checkTenantActive_def read_tenant_status_def tenant_by_id_def)
  have notkey: "\<not> startsWith ''cp_live_'' token \<and> \<not> startsWith ''cp_test_'' token" using assms(6) by (auto simp: startsWith_iff)
  have auth: "requireAuth c e' (Some (''Bearer '' @ token)) s1 = (Inr ?u, s2)"
    using notkey requireAuth_bearer [of c e' token s1] jwt by simp
  define n where "n = \<lparr>us_id = fresh e' (acc_db s2), us_tenantId = ?t, us_email = email,
    us_passwordHash = bcrypt_hash c 12 (seq (acc_db s2)) password, us_role = OWNER\<rparr>"
  define s3 where "s3 = s2\<lparr>acc_db := bump (acc_db s2), users := users s2 @ [n]\<rparr>"
  have fresh: "us_id n \<noteq> jp_sub p" using assms(12) s2(2) del(4) by (simp add: n_def fresh_def)
  have unused: "us_email y \<noteq> email" if "y \<in> set (users s2)" for y using that assms(11) by (auto simp: s2(1) del(1))
  have "inviteUser c e' email OWNER password ?u s2 = (Inl (JsError ''P2003''), s3)"
    using assms(5,9,10) unused gone fresh s2(1)
    by (auto simp: inviteUser_def inviteSchema_def audit_as_def Let_def n_def s3_def list_ex_iff)
  then have "guarded c e' (Some (''Bearer '' @ token)) requireOwner (inviteUser c e' email OWNER password) s1 = (Inl (JsError ''P2003''), s3)"
    unfolding guarded_def auth using assms(4) by (simp add: requireOwner_def requireRole_def)
  moreover have "find (\<lambda>u. us_email u = email) (users s3) = Some n"
    using unused by (simp add: s3_def find_append n_def) (auto simp: find_None_iff split: option.split dest: find_SomeD)
  moreover have "read_tenant_status ?t s3 = TENANT_ACTIVE"
    using assms(8) s2(2) del(3) by (simp add: read_tenant_status_def tenant_by_id_def s3_def bump_def)
  ultimately show ?thesis using assms(9,13) by (auto simp: login_def n_def token_payload_def)
qed

theorem removed_owner_returns_witness:
  "\<exists>s1 s2 q. deleteUser demo_env ''par'' owner_request demo_accounts = (Inr (), s1) \<and>
     guarded demo_libs demo_env (Some ''Bearer jwt-par'') requireOwner (inviteUser demo_libs demo_env ''again@x'' OWNER ''password'') s1 =
       (Inl (JsError ''P2003''), s2) \<and>
     login demo_libs ''again@x'' ''password'' s2 = (Inr q, s2) \<and> jp_role q = OWNER \<and> jp_tenantId q = ''t1''"
proof -
  let ?p = "token_payload demo_partner ''t1''"
  have p: "jp_sub ?p = ''par''" "jp_role ?p = OWNER" "jp_tenantId ?p = ru_tenantId owner_request" "ru_tenantId owner_request = ''t1''"
    by (simp_all add: token_payload_def demo_partner_def owner_request_def)
  obtain s1 where del: "deleteUser demo_env (jp_sub ?p) owner_request demo_accounts = (Inr (), s1)"
    unfolding p by (simp add: deleteUser_def owner_request_def is_member_def audit_as_def)
      (simp add: demo_accounts_def demo_partner_def demo_owner_def demo_admin_def empty_db_def is_member_def audit_as_def)
  have users: "users demo_accounts = [demo_admin, demo_owner, demo_partner]" "acc_db demo_accounts = empty_db\<lparr>tenants := [new_tenant ''t1'']\<rparr>"
      "tenantStatusCache demo_accounts = Map.empty" by (simp_all add: demo_accounts_def)
  have ids: "distinct (map us_id (users demo_accounts))" by (simp add: users demo_admin_def demo_owner_def demo_partner_def)
  have token: "jwt_verify demo_libs (now demo_env) ''jwt-par'' = Some ?p" "\<not> startsWith ''cp_'' ''jwt-par''"
    by (simp_all add: demo_libs_def startsWith_def)
  have tenant: "tenantStatusCache demo_accounts (ru_tenantId owner_request) = None"
      "read_tenant_status (ru_tenantId owner_request) demo_accounts = TENANT_ACTIVE"
    by (simp_all add: users owner_request_def read_tenant_status_def tenant_by_id_def new_tenant_def)
  have form: "is_email demo_libs ''again@x''" "8 \<le> length ''password''" "\<forall>x \<in> set (users demo_accounts). us_email x \<noteq> ''again@x''"
      "jp_sub ?p \<noteq> fresh demo_env (acc_db demo_accounts)" "\<And>cost n. bcrypt_compare demo_libs ''password'' (bcrypt_hash demo_libs cost n ''password'')"
    by (simp_all add: users token_payload_def demo_libs_def demo_admin_def demo_owner_def demo_partner_def fresh_def demo_env_def empty_db_def)
  from removed_owner_returns [OF del ids token(1) p(2,3) token(2) tenant form]
  show ?thesis using del unfolding p by (simp only: append.simps) blast
qed

text \<open>
  The account requests of one tenant do not touch another: whatever the caller asks, the users and API keys of every other tenant
  are the same rows afterwards, although keys are updated by their id alone.
\<close>

lemma account_requests_isolated:
  assumes "distinct (map ak_id (apiKeys s))" "t \<noteq> ru_tenantId u"
    "s' \<in> {snd (createApiKey c e name u s), snd (revokeApiKey e i u s), snd (inviteUser c e email role password u s),
           snd (changeRole e i role u s), snd (deleteUser e i u s), snd (setTenantStatus i status u s)}"
  shows "filter (\<lambda>x. us_tenantId x = t) (users s') = filter (\<lambda>x. us_tenantId x = t) (users s) \<and>
    filter (\<lambda>k. ak_tenantId k = t) (apiKeys s') = filter (\<lambda>k. ak_tenantId k = t) (apiKeys s)"
  using assms(3) create_key.other_users [OF assms(2)] revoke_key.other_users [OF assms(2)] invite.other_users [OF assms(2)]
    change_role.other_users [OF assms(2)] delete_user.other_users [OF assms(2)] tenant_switch.other_users [OF assms(2)]
    create_key.other_keys [OF assms(1,2)] revoke_key.other_keys [OF assms(1,2)] invite.other_keys [OF assms(1,2)]
    change_role.other_keys [OF assms(1,2)] delete_user.other_keys [OF assms(1,2)] tenant_switch.other_keys [OF assms(1,2)]
  by (elim insertE emptyE) (simp_all only: simp_thms)

end
