(* ===== verification/Encryption.thy ===== *)
theory Encryption
  imports Auth
begin

text \<open>
  \<open>src/lib/encryption.ts\<close>: how secrets are stored. A text is held as the bytes of its UTF-8 encoding, so that the conversions
  between text and buffers are the identity; hexadecimal and base64 are modelled as Node's \<open>Buffer\<close> reads and writes them. The
  ciphers are an argument: AES-256-GCM of Node, and the AES-CBC and base64 of the package crypto-js that old rows still need.
\<close>

section \<open>Base64\<close>

definition B64 :: string where
  "B64 = ''ABCDEFGHIJKLMNOPQRSTUVWXYZabcdefghijklmnopqrstuvwxyz0123456789+/''"

definition b64_char :: "nat \<Rightarrow> char" where
  "b64_char n = B64 ! n"

text \<open>The value of a character; the decoder also reads the alphabet for file names, and skips any other character.\<close>

definition b64_value :: "char \<Rightarrow> nat option" where
  "b64_value ch = (if ch = CHR ''-'' then Some 62 else if ch = CHR ''_'' then Some 63 else map_of (zip B64 [0..<64]) ch)"

fun b64_encode :: "nat list \<Rightarrow> string" where
  "b64_encode [] = []"
| "b64_encode [a] = [b64_char (a div 4), b64_char (a mod 4 * 16), CHR ''='', CHR ''='']"
| "b64_encode [a, b] = [b64_char (a div 4), b64_char (a mod 4 * 16 + b div 16), b64_char (b mod 16 * 4), CHR ''='']"
| "b64_encode (a # b # d # r) =
     b64_char (a div 4) # b64_char (a mod 4 * 16 + b div 16) # b64_char (b mod 16 * 4 + d div 64) # b64_char (d mod 64) # b64_encode r"

fun b64_bytes :: "nat list \<Rightarrow> nat list" where
  "b64_bytes (w # x # y # z # r) = (w * 4 + x div 16) # (x mod 16 * 16 + y div 4) # (y mod 4 * 64 + z) # b64_bytes r"
| "b64_bytes [w, x, y] = [w * 4 + x div 16, x mod 16 * 16 + y div 4]"
| "b64_bytes [w, x] = [w * 4 + x div 16]"
| "b64_bytes _ = []"

text \<open>\<open>buffer.toString("base64")\<close> and \<open>Buffer.from(s, "base64")\<close>.\<close>

definition to_base64 :: "string \<Rightarrow> string" where
  "to_base64 bytes = b64_encode (map of_char bytes)"

definition from_base64 :: "string \<Rightarrow> string" where
  "from_base64 s = map char_of (b64_bytes (List.map_filter b64_value (takeWhile (\<lambda>ch. ch \<noteq> CHR ''='') s)))"

section \<open>Hexadecimal\<close>

definition hex_value :: "char \<Rightarrow> nat option" where
  "hex_value ch = map_of (zip ''0123456789abcdefABCDEF'' ([0..<16] @ [10..<16])) ch"

text \<open>\<open>Buffer.from(s, "hex")\<close> stops at the first pair that is not hexadecimal.\<close>

fun from_hex :: "string \<Rightarrow> string" where
  "from_hex (a # b # r) =
     (case (hex_value a, hex_value b) of (Some x, Some y) \<Rightarrow> char_of (16 * x + y) # from_hex r | _ \<Rightarrow> [])"
| "from_hex _ = []"

section \<open>Encryption\<close>

record ciphers =
  gcm_encrypt :: "string \<Rightarrow> string \<Rightarrow> string \<Rightarrow> string \<times> string"
  gcm_decrypt :: "string \<Rightarrow> string \<Rightarrow> string \<Rightarrow> string \<Rightarrow> string option"
  cbc_decrypt :: "string \<Rightarrow> string \<Rightarrow> string \<Rightarrow> string"
  cj_base64 :: "string \<Rightarrow> string"

record key_env =
  ENCRYPTION_KEY :: "string option"
  ENCRYPTION_KEY_V1 :: "string option"

definition GCM_IV_BYTES :: nat where
  "GCM_IV_BYTES = 12"

definition GCM_TAG_BYTES :: nat where
  "GCM_TAG_BYTES = 16"

definition FORMAT_V2_PREFIX :: string where
  "FORMAT_V2_PREFIX = ''v2:''"

definition getKey :: "key_env \<Rightarrow> string result" where
  "getKey k =
     (let raw = coalesce (ENCRYPTION_KEY k) ''''
      in if raw = '''' then Inl (JsError ''ENCRYPTION_KEY environment variable is not set'')
         else if length raw \<noteq> 64 then Inl (JsError ''ENCRYPTION_KEY must be exactly 64 hex characters (32 bytes)'')
         else Inr (from_hex raw))"

definition getLegacyKey :: "key_env \<Rightarrow> string option" where
  "getLegacyKey k = or_else (ENCRYPTION_KEY_V1 k) (ENCRYPTION_KEY k)"

text \<open>A cipher is created only for a key of 32 bytes; \<open>iv\<close> is what \<open>randomBytes\<close> returned.\<close>

definition gcm_key :: "string \<Rightarrow> string result" where
  "gcm_key key = (if length key = 32 then Inr key else Inl (JsError ''Invalid key length''))"

definition encrypt :: "ciphers \<Rightarrow> key_env \<Rightarrow> string \<Rightarrow> string \<Rightarrow> string result" where
  "encrypt c k iv plaintext =
     ebind (getKey k) (\<lambda>key. ebind (gcm_key key) (\<lambda>key.
       (case gcm_encrypt c key iv plaintext of (encrypted, tag) \<Rightarrow> Inr (FORMAT_V2_PREFIX @ to_base64 (iv @ tag @ encrypted)))))"

definition decrypt_v2 :: "ciphers \<Rightarrow> key_env \<Rightarrow> string \<Rightarrow> string result" where
  "decrypt_v2 c k ciphertext =
     ebind (getKey k) (\<lambda>key. ebind (gcm_key key) (\<lambda>key.
       (let buf = from_base64 (drop (length FORMAT_V2_PREFIX) ciphertext);
            iv = take GCM_IV_BYTES buf;
            tag = take GCM_TAG_BYTES (drop GCM_IV_BYTES buf);
            enc = drop (GCM_IV_BYTES + GCM_TAG_BYTES) buf
        in case gcm_decrypt c key iv tag enc of
             None \<Rightarrow> Inl (JsError ''Unsupported state or unable to authenticate data'')
           | Some p \<Rightarrow> Inr p)))"

definition decrypt_legacy :: "ciphers \<Rightarrow> key_env \<Rightarrow> string \<Rightarrow> string result" where
  "decrypt_legacy c k ciphertext =
     (let legacyRaw = coalesce (getLegacyKey k) ''''
      in if legacyRaw = '''' then Inl (JsError ''ENCRYPTION_KEY_V1 required to decrypt legacy credentials. Set it and re-run the migration.'')
         else let combined = cj_base64 c ciphertext;
                  plain = cbc_decrypt c (take 32 legacyRaw) (take 16 combined) (drop 16 combined)
              in if plain = '''' then Inl (JsError ''Legacy decryption failed: wrong key or corrupted ciphertext'') else Inr plain)"

definition decrypt :: "ciphers \<Rightarrow> key_env \<Rightarrow> string \<Rightarrow> string result" where
  "decrypt c k ciphertext = (if startsWith FORMAT_V2_PREFIX ciphertext then decrypt_v2 c k ciphertext else decrypt_legacy c k ciphertext)"

text \<open>\<open>stringify\<close> and \<open>parse\<close> are \<open>JSON.stringify\<close> and \<open>JSON.parse\<close>.\<close>

definition encryptCredentials :: "(json \<Rightarrow> string) \<Rightarrow> ciphers \<Rightarrow> key_env \<Rightarrow> string \<Rightarrow> json \<Rightarrow> string result" where
  "encryptCredentials stringify c k iv credentials = encrypt c k iv (stringify credentials)"

definition decryptCredentials :: "(string \<Rightarrow> json result) \<Rightarrow> ciphers \<Rightarrow> key_env \<Rightarrow> string \<Rightarrow> json result" where
  "decryptCredentials parse c k encrypted = ebind (decrypt c k encrypted) parse"

section \<open>Base64 is lossless\<close>

lemma B64_facts: "distinct B64" "length B64 = 64" "CHR ''='' \<notin> set B64" "CHR ''-'' \<notin> set B64" "CHR ''_'' \<notin> set B64"
  by (simp_all add: B64_def)

lemma b64_char_in [simp]: "n < 64 \<Longrightarrow> b64_char n \<in> set B64"
  using B64_facts(2) by (simp add: b64_char_def)

lemma b64_value_char [simp]:
  assumes "n < 64"
  shows "b64_value (b64_char n) = Some n" "b64_char n \<noteq> CHR ''=''"
proof -
  have "map_of (zip B64 [0..<64]) (B64 ! n) = Some ([0..<64] ! n)"
    using assms B64_facts(1,2) by (intro map_of_zip_nth) simp_all
  then show "b64_value (b64_char n) = Some n"
    using assms b64_char_in [OF assms] B64_facts(4,5) by (auto simp: b64_value_def b64_char_def)
  show "b64_char n \<noteq> CHR ''=''" using b64_char_in [OF assms] B64_facts(3) by auto
qed

lemma b64_roundtrip:
  "\<forall>b \<in> set bs. b < 256 \<Longrightarrow> b64_bytes (List.map_filter b64_value (takeWhile (\<lambda>ch. ch \<noteq> CHR ''='') (b64_encode bs))) = bs"
proof (induction bs rule: b64_encode.induct)
  case (4 a b d r)
  have "a < 256" "b < 256" "d < 256" using 4(2) by auto
  then have lt: "a div 4 < 64" "a mod 4 * 16 + b div 16 < 64" "b mod 16 * 4 + d div 64 < 64" "d mod 64 < 64" by linarith+
  have "(a mod 4 * 16 + b div 16) div 16 = a mod 4" "(a mod 4 * 16 + b div 16) mod 16 = b div 16"
    "(b mod 16 * 4 + d div 64) div 4 = b mod 16" "(b mod 16 * 4 + d div 64) mod 4 = d div 64"
    using \<open>b < 256\<close> \<open>d < 256\<close> by (simp_all add: div_add1_eq)
  then show ?case using 4 lt by (simp add: List.map_filter_simps)
qed (auto simp: List.map_filter_simps)

lemma from_to_base64: "from_base64 (to_base64 bytes) = bytes"
proof -
  have "\<forall>b \<in> set (map of_char bytes). b < (256 :: nat)" by auto
  then show ?thesis unfolding from_base64_def to_base64_def by (subst b64_roundtrip) (simp_all add: o_def)
qed

lemma b64_encode_chars: "\<forall>b \<in> set bs. b < 256 \<Longrightarrow> set (b64_encode bs) \<subseteq> insert (CHR ''='') (set B64)"
proof (induction bs rule: b64_encode.induct)
  case (4 a b d r)
  have "a < 256" "b < 256" "d < 256" using 4(2) by auto
  then have "a div 4 < 64" "a mod 4 * 16 + b div 16 < 64" "b mod 16 * 4 + d div 64 < 64" "d mod 64 < 64" by linarith+
  then show ?case using 4 by auto
qed auto

lemma base64_not_v2: "\<not> startsWith FORMAT_V2_PREFIX (to_base64 bytes)"
proof
  assume "startsWith FORMAT_V2_PREFIX (to_base64 bytes)"
  then have "CHR '':'' \<in> set (to_base64 bytes)" by (auto simp: startsWith_iff FORMAT_V2_PREFIX_def)
  moreover have "\<forall>b \<in> set (map of_char bytes). b < (256 :: nat)" by auto
  ultimately have "CHR '':'' \<in> insert (CHR ''='') (set B64)" using b64_encode_chars unfolding to_base64_def by blast
  then show False by (simp add: B64_def)
qed

lemma length_from_hex: "\<forall>ch \<in> set s. hex_value ch \<noteq> None \<Longrightarrow> length (from_hex s) = length s div 2"
  by (induction s rule: from_hex.induct) (auto split: option.splits)

lemma decrypt_encrypt:
  assumes "\<And>key p ct tag. gcm_encrypt c key iv p = (ct, tag) \<Longrightarrow> gcm_decrypt c key iv tag ct = Some p \<and> length tag = 16"
    "length iv = 12" "encrypt c k iv plaintext = Inr x"
  shows "decrypt c k x = Inr plaintext"
proof -
  obtain key where key: "getKey k = Inr key" "gcm_key key = Inr key"
    using assms(3) by (auto simp: encrypt_def gcm_key_def split: if_splits)
  obtain ct tag where enc: "gcm_encrypt c key iv plaintext = (ct, tag)" by force
  then have tag: "gcm_decrypt c key iv tag ct = Some plaintext" "length tag = 16" using assms(1) by blast+
  have "x = FORMAT_V2_PREFIX @ to_base64 (iv @ tag @ ct)" using assms(3) by (simp add: encrypt_def key enc)
  then show ?thesis
    using tag assms(2) by (simp add: decrypt_def decrypt_v2_def key from_to_base64 GCM_IV_BYTES_def GCM_TAG_BYTES_def)
qed

section \<open>Property\<close>

text \<open>
  C13. What is encrypted can be read again. With a key of 64 hexadecimal digits every text is encrypted, and decrypting the result
  gives the text; and rows in the old format, which are base64 text, are never taken for the new one. The cipher does what it
  documents: it decrypts what it encrypted under the same key and vector, with a tag of 16 bytes; the vector has 12.
\<close>

theorem encryption_roundtrip:
  assumes "\<And>key p ct tag. gcm_encrypt c key iv p = (ct, tag) \<Longrightarrow> gcm_decrypt c key iv tag ct = Some p \<and> length tag = 16"
    "length iv = 12" "ENCRYPTION_KEY k = Some raw" "length raw = 64" "\<forall>ch \<in> set raw. hex_value ch \<noteq> None"
  shows "(\<exists>x. encrypt c k iv plaintext = Inr x \<and> decrypt c k x = Inr plaintext) \<and>
    decrypt c k (to_base64 row) = decrypt_legacy c k (to_base64 row)"
proof -
  have key: "getKey k = Inr (from_hex raw)" "gcm_key (from_hex raw) = Inr (from_hex raw)"
    using assms(3,4) length_from_hex [OF assms(5)] by (auto simp: getKey_def gcm_key_def)
  then have "\<exists>x. encrypt c k iv plaintext = Inr x" by (simp add: encrypt_def split: prod.split)
  then obtain x where x: "encrypt c k iv plaintext = Inr x" ..
  moreover have "decrypt c k x = Inr plaintext" using assms(1) by (rule decrypt_encrypt [OF _ assms(2) x])
  ultimately show ?thesis using base64_not_v2 [of row] by (simp add: decrypt_def)
qed

definition demo_ciphers :: ciphers where
  "demo_ciphers = \<lparr>gcm_encrypt = (\<lambda>k iv p. (rev p, replicate 16 (CHR ''t''))), gcm_decrypt = (\<lambda>k iv tag ct. Some (rev ct)),
     cbc_decrypt = (\<lambda>k iv ct. ct), cj_base64 = from_base64\<rparr>"

definition demo_keys :: key_env where
  "demo_keys = \<lparr>ENCRYPTION_KEY = Some (replicate 64 (CHR ''a'')), ENCRYPTION_KEY_V1 = None\<rparr>"

theorem encryption_roundtrip_witness:
  "\<exists>x. encrypt demo_ciphers demo_keys (replicate 12 (CHR ''i'')) ''sk_live'' = Inr x \<and> decrypt demo_ciphers demo_keys x = Inr ''sk_live''"
proof -
  have "gcm_decrypt demo_ciphers key (replicate 12 (CHR ''i'')) tag ct = Some p \<and> length tag = 16"
    if "gcm_encrypt demo_ciphers key (replicate 12 (CHR ''i'')) p = (ct, tag)" for key p ct tag
    using that by (auto simp: demo_ciphers_def)
  moreover have "ENCRYPTION_KEY demo_keys = Some (replicate 64 (CHR ''a''))" by (simp add: demo_keys_def)
  moreover have "\<forall>ch \<in> set (replicate 64 (CHR ''a'')). hex_value ch \<noteq> None" by (simp add: hex_value_def upt_rec)
  ultimately show ?thesis using encryption_roundtrip [of demo_ciphers "replicate 12 (CHR ''i'')" demo_keys "replicate 64 (CHR ''a'')" "''sk_live''" "[]"]
    by (simp only: length_replicate refl simp_thms)
qed

end
