(* ===== verification/Notify.thy ===== *)
theory Notify
  imports Accounts Encryption JsDate
begin

text \<open>
  The events a merchant receives: \<open>src/lib/webhook-sign.ts\<close> signs them, \<open>src/jobs/notifications.inngest.ts\<close> sends them to the
  address of the tenant's profile and to the sink of \<open>src/lib/notification-sink.ts\<close>, and \<open>src/routes/tenant.ts\<close> sets the address and
  the signing secret, with the check of addresses of \<open>src/schemas/common.ts\<close>. HMAC, \<open>JSON.stringify\<close>, \<open>new URL\<close>, \<open>fetch\<close> and the
  registered publisher are arguments.
\<close>

section \<open>Addresses\<close>

text \<open>\<open>parseUrl\<close> is \<open>new URL(val)\<close>: the protocol and the host name, or \<open>None\<close> when it throws.\<close>

definition PRIVATE_HOSTNAME :: "string list" where
  "PRIVATE_HOSTNAME =
     [''localhost'', ''127.'', ''10.''] @ map (\<lambda>n. ''172.'' @ show_nat n @ ''.'') [16..<32] @ [''192.168.'', ''0.0.0.0'', ''::1'', ''169.254.'']"

definition private_hostname :: "string \<Rightarrow> bool" where
  "private_hostname hostname \<longleftrightarrow> list_ex (\<lambda>p. startsWith p (toLowerCase hostname)) PRIVATE_HOSTNAME"

definition safeUrl :: "(string \<Rightarrow> (string \<times> string) option) \<Rightarrow> string \<Rightarrow> bool" where
  "safeUrl parseUrl val =
     (case parseUrl val of
        None \<Rightarrow> False
      | Some (protocol, hostname) \<Rightarrow> if protocol \<noteq> ''https:'' then False else if private_hostname hostname then False else True)"

text \<open>The parts of a text between dots.\<close>

fun split_dots :: "string \<Rightarrow> string list" where
  "split_dots [] = [[]]"
| "split_dots (ch # cs) =
     (case split_dots cs of
        [] \<Rightarrow> [[ch]]
      | p # ps \<Rightarrow> if ch = CHR ''.'' then [] # p # ps else (ch # p) # ps)"

definition is_digit :: "char \<Rightarrow> bool" where
  "is_digit ch = (let n = of_char ch :: nat in 48 \<le> n \<and> n \<le> 57)"

definition loopback_hostname :: "string \<Rightarrow> bool" where
  "loopback_hostname hostname =
     (let h = toLowerCase hostname
      in h = ''localhost'' \<or> h \<in> {''::1'', ''[::1'', ''::1]'', ''[::1]''} \<or>
         (case split_dots h of
            [a, b, c, d] \<Rightarrow> a = ''127'' \<and> (\<forall>p \<in> {b, c, d}. p \<noteq> [] \<and> list_all is_digit p)
          | _ \<Rightarrow> False))"

definition safeRedirectUrl :: "(string \<Rightarrow> (string \<times> string) option) \<Rightarrow> string \<Rightarrow> bool" where
  "safeRedirectUrl parseUrl val =
     (case parseUrl val of
        None \<Rightarrow> False
      | Some (protocol, hostname) \<Rightarrow>
          if protocol = ''https:'' then \<not> private_hostname hostname
          else if protocol = ''http:'' then loopback_hostname hostname else False)"

section \<open>Signing\<close>

definition SECRET_BYTES :: nat where
  "SECRET_BYTES = 32"

definition generateWebhookSecret :: "libs \<Rightarrow> nat \<Rightarrow> string" where
  "generateWebhookSecret c n = random_hex c n SECRET_BYTES"

text \<open>Instants are whole seconds, below \<open>2 ^ 53\<close>, so that numbers hold them exactly.\<close>

definition signWebhookPayload :: "(string \<Rightarrow> string \<Rightarrow> string) \<Rightarrow> string \<Rightarrow> nat \<Rightarrow> string \<Rightarrow> string" where
  "signWebhookPayload hmac secret timestamp body = hmac secret (show_nat timestamp @ ''.'' @ body)"

definition buildWebhookSignatureHeader :: "(string \<Rightarrow> string \<Rightarrow> string) \<Rightarrow> env \<Rightarrow> string \<Rightarrow> string \<Rightarrow> string \<times> nat" where
  "buildWebhookSignatureHeader hmac e secret body =
     (let timestamp = nat (now e div 1000)
      in (''t='' @ show_nat timestamp @ '',v1='' @ signWebhookPayload hmac secret timestamp body, timestamp))"

text \<open>
  \<open>/(?:^|,)\s*name=(class+)/.exec(header)?.[1]\<close>: the first value at the start or after a comma, behind any white space. \<open>name\<close>
  includes the equals sign; with the flag \<open>i\<close> it is compared without regard to case.
\<close>

definition is_space :: "char \<Rightarrow> bool" where
  "is_space ch = (let n = of_char ch :: nat in 9 \<le> n \<and> n \<le> 13 \<or> n = 32 \<or> n = 160)"

definition match_field :: "(string \<Rightarrow> string) \<Rightarrow> string \<Rightarrow> (char \<Rightarrow> bool) \<Rightarrow> string \<Rightarrow> string option" where
  "match_field fold_case name cls s =
     (let r = dropWhile is_space s; v = takeWhile cls (drop (length name) r)
      in if fold_case (take (length name) r) = name \<and> v \<noteq> [] then Some v else None)"

fun match_after_comma :: "(string \<Rightarrow> string) \<Rightarrow> string \<Rightarrow> (char \<Rightarrow> bool) \<Rightarrow> string \<Rightarrow> string option" where
  "match_after_comma fold_case name cls [] = None"
| "match_after_comma fold_case name cls (ch # cs) =
     (if ch = CHR '','' then or_else (match_field fold_case name cls cs) (match_after_comma fold_case name cls cs)
      else match_after_comma fold_case name cls cs)"

definition exec_field :: "(string \<Rightarrow> string) \<Rightarrow> string \<Rightarrow> (char \<Rightarrow> bool) \<Rightarrow> string \<Rightarrow> string option" where
  "exec_field fold_case name cls header =
     or_else (match_field fold_case name cls header) (match_after_comma fold_case name cls header)"

definition is_hex :: "char \<Rightarrow> bool" where
  "is_hex ch \<longleftrightarrow> hex_value ch \<noteq> None"

definition verifyWebhookSignatureHeader :: "(string \<Rightarrow> string \<Rightarrow> string) \<Rightarrow> string \<Rightarrow> string \<Rightarrow> string \<Rightarrow> bool" where
  "verifyWebhookSignatureHeader hmac secret header body =
     (case (exec_field id ''t='' is_digit header, exec_field toLowerCase ''v1='' is_hex header) of
        (Some t, Some v1) \<Rightarrow>
          let expected = signWebhookPayload hmac secret (digits_value t) body; given = toLowerCase v1
          in length expected = length given \<and> expected = given
      | _ \<Rightarrow> False)"

section \<open>The tenant's profile\<close>

text \<open>The body of the request: an absent field is \<open>None\<close>, \<open>null\<close> is \<open>Some None\<close>.\<close>

record tenant_patch =
  tq_name :: "string option"
  tq_notifyWebhookUrl :: "string option option"
  tq_notifyEmail :: "string option option"
  tq_rotate :: "bool option"
  tq_settlementCurrency :: "currency option"
  tq_taxRateBps :: "int option"
  tq_taxExempt :: "bool option"

definition updateTenantSchema :: "libs \<Rightarrow> (string \<Rightarrow> (string \<times> string) option) \<Rightarrow> tenant_patch \<Rightarrow> unit result" where
  "updateTenantSchema c parseUrl q =
     require ((case tq_name q of None \<Rightarrow> True | Some n \<Rightarrow> 2 \<le> length n \<and> length n \<le> 100) \<and>
              (case tq_notifyWebhookUrl q of Some (Some url) \<Rightarrow> safeUrl parseUrl url | _ \<Rightarrow> True) \<and>
              (case tq_notifyEmail q of Some (Some m) \<Rightarrow> is_email c m | _ \<Rightarrow> True) \<and>
              (case tq_taxRateBps q of None \<Rightarrow> True | Some b \<Rightarrow> 0 \<le> b \<and> b \<le> 10000))
       (AppError 422 ''VALIDATION_ERROR'')"

definition profile_of :: "string \<Rightarrow> accounts \<Rightarrow> tenant_profile option" where
  "profile_of t s = find (\<lambda>p. tp_id p = t) (profiles s)"

definition has_secret :: "tenant_profile option \<Rightarrow> bool" where
  "has_secret p = (case p of None \<Rightarrow> False | Some p \<Rightarrow> coalesce (tp_webhookSigningSecret p) '''' \<noteq> '''')"

definition new_webhook_secret :: "libs \<Rightarrow> tenant_patch \<Rightarrow> string \<Rightarrow> accounts \<Rightarrow> string option" where
  "new_webhook_secret c q t s =
     (let secret = generateWebhookSecret c (seq (acc_db s))
      in if tq_rotate q = Some True then Some secret
         else if (case tq_notifyWebhookUrl q of Some (Some url) \<Rightarrow> url \<noteq> '''' | _ \<Rightarrow> False) \<and> \<not> has_secret (profile_of t s) then Some secret
         else None)"

definition patch_tenant :: "tenant_patch \<Rightarrow> tenant \<Rightarrow> tenant" where
  "patch_tenant q r =
     r\<lparr>tn_settlementCurrency := coalesce (tq_settlementCurrency q) (tn_settlementCurrency r),
       tn_taxRateBps := coalesce (tq_taxRateBps q) (tn_taxRateBps r),
       tn_taxExempt := coalesce (tq_taxExempt q) (tn_taxExempt r)\<rparr>"

definition patch_profile :: "tenant_patch \<Rightarrow> string option \<Rightarrow> tenant_profile \<Rightarrow> tenant_profile" where
  "patch_profile q encrypted p =
     p\<lparr>tp_name := coalesce (tq_name q) (tp_name p),
       tp_notifyWebhookUrl := coalesce (tq_notifyWebhookUrl q) (tp_notifyWebhookUrl p),
       tp_notifyEmail := coalesce (tq_notifyEmail q) (tp_notifyEmail p),
       tp_webhookSigningSecret := or_else encrypted (tp_webhookSigningSecret p)\<rparr>"

text \<open>\<open>enc\<close> is \<open>encrypt\<close> with the vector it draws.\<close>

definition updateTenant ::
  "libs \<Rightarrow> (string \<Rightarrow> (string \<times> string) option) \<Rightarrow> (string \<Rightarrow> string result) \<Rightarrow> tenant_patch \<Rightarrow> req_user \<Rightarrow> (tenant_profile \<times> string option) account_step" where
  "updateTenant c parseUrl enc q u s =
     (let t = ru_tenantId u; newSecret = new_webhook_secret c q t s
      in case ebind (updateTenantSchema c parseUrl q)
                (\<lambda>_. case newSecret of None \<Rightarrow> Inr None | Some x \<Rightarrow> ebind (enc x) (\<lambda>y. Inr (Some y))) of
           Inl err \<Rightarrow> (Inl err, s)
         | Inr encrypted \<Rightarrow>
             (case profile_of t s of
                None \<Rightarrow> (Inl (JsError ''P2025''), s)
              | Some p \<Rightarrow>
                  (Inr (patch_profile q encrypted p, newSecret),
                   s\<lparr>acc_db := (bump (acc_db s))\<lparr>tenants := map (\<lambda>r. if tn_id r = t then patch_tenant q r else r) (tenants (acc_db s))\<rparr>,
                     profiles := map (\<lambda>p. if tp_id p = t then patch_profile q encrypted p else p) (profiles s)\<rparr>)))"

text \<open>\<open>GET /tenant\<close>: the stored secret itself is not shown.\<close>

definition getTenant :: "req_user \<Rightarrow> (tenant_profile \<times> tenant option \<times> bool) account_step" where
  "getTenant u s =
     (case profile_of (ru_tenantId u) s of
        None \<Rightarrow> (Inl (AppError 404 ''TENANT_NOT_FOUND''), s)
      | Some p \<Rightarrow> (Inr (p\<lparr>tp_webhookSigningSecret := None\<rparr>, tenant_by_id (ru_tenantId u) s, has_secret (Some p)), s))"

section \<open>The job\<close>

text \<open>The registered publisher, if any; it may throw.\<close>

type_synonym publisher = "string \<Rightarrow> string \<Rightarrow> string \<Rightarrow> string \<Rightarrow> string option result"

definition publishNotification :: "publisher option \<Rightarrow> string \<Rightarrow> string \<Rightarrow> string \<Rightarrow> string \<Rightarrow> string option result" where
  "publishNotification registered messageBody tenantId intentId status =
     (case registered of None \<Rightarrow> Inr None | Some f \<Rightarrow> f messageBody tenantId intentId status)"

record delivery =
  dv_url :: string
  dv_headers :: headers
  dv_body :: string

datatype notify_result = Skipped string | Published string | Notified

definition number_json :: "rat option \<Rightarrow> json" where
  "number_json v = (case v of None \<Rightarrow> JNull | Some x \<Rightarrow> JNum x)"

definition string_json :: "string option \<Rightarrow> json" where
  "string_json v = (case v of None \<Rightarrow> JNull | Some x \<Rightarrow> JStr x)"

text \<open>The modelled fields of \<open>intent.metadata\<close>.\<close>

definition metadata_json :: "intent_metadata option \<Rightarrow> json" where
  "metadata_json m =
     (case m of
        None \<Rightarrow> JObj []
      | Some m \<Rightarrow> JObj (List.map_filter (\<lambda>(k, v). map_option (Pair k) v)
          [(''amount'', map_option JNum (meta_amount m)), (''currency'', map_option (\<lambda>c. JStr (currency_code c)) (meta_currency m)),
           (''reference'', map_option JStr (meta_reference m)), (''isPreauth'', map_option JBool (meta_isPreauth m)),
           (''installmentAgreementId'', map_option JStr (meta_installmentAgreementId m))]))"

text \<open>\<open>Number(paymentLink.amount)\<close> is the amount in units of the currency; the metadata holds what the request sent.\<close>

definition notified_amount :: "payment_link option \<Rightarrow> payment_intent \<Rightarrow> json" where
  "notified_amount link intent =
     (case link of
        Some l \<Rightarrow> JNum (rnd (of_int (pl_amount l) / 100))
      | None \<Rightarrow> number_json (Option.bind (in_metadata intent) meta_amount))"

definition message_body :: "env \<Rightarrow> string \<Rightarrow> payment_link option \<Rightarrow> payment_intent \<Rightarrow> json" where
  "message_body e status link intent =
     JObj ([(''event'', JStr ''payment.updated''), (''status'', JStr status), (''intentId'', JStr (in_id intent)),
       (''reference'', string_json (map_option pl_reference link)),
       (''amount'', notified_amount link intent),
       (''currency'', string_json (map_option currency_code (or_else (map_option pl_currency link) (Option.bind (in_metadata intent) meta_currency))))] @
      (case link of Some _ \<Rightarrow> [] | None \<Rightarrow> [(''metadata'', metadata_json (in_metadata intent))]) @
      [(''occurredAt'', JStr (toISOString (now e)))])"

definition notify_headers :: "(string \<Rightarrow> string \<Rightarrow> string) \<Rightarrow> (string \<Rightarrow> string result) \<Rightarrow> env \<Rightarrow> string \<Rightarrow> string \<Rightarrow> tenant_profile \<Rightarrow> string \<Rightarrow> headers result" where
  "notify_headers hmac dec e intentId status tenant body =
     (let headers = [''Content-Type'' \<mapsto> ''application/json'', ''X-CorpoPay-Webhook-Id'' \<mapsto> intentId @ '':'' @ status]
      in if has_secret (Some tenant)
         then ebind (dec (coalesce (tp_webhookSigningSecret tenant) '''')) (\<lambda>signingSecret.
                (case buildWebhookSignatureHeader hmac e signingSecret body of
                   (signature, timestamp) \<Rightarrow>
                     Inr (headers(''X-CorpoPay-Signature'' \<mapsto> signature, ''X-CorpoPay-Timestamp'' \<mapsto> show_nat timestamp))))
         else Inr headers)"

text \<open>
  One run of the job. \<open>fetch\<close> returns the HTTP status, or \<open>None\<close> when it throws or is aborted after five seconds; the
  deliveries are listed in the order they were sent.
\<close>

definition notifications ::
  "(string \<Rightarrow> string \<Rightarrow> string) \<Rightarrow> (string \<Rightarrow> string result) \<Rightarrow> (json \<Rightarrow> string) \<Rightarrow> (delivery \<Rightarrow> int option) \<Rightarrow> publisher option
    \<Rightarrow> env \<Rightarrow> string \<Rightarrow> string \<Rightarrow> string \<Rightarrow> accounts \<Rightarrow> notify_result result \<times> delivery list" where
  "notifications hmac dec stringify fetch registered e intentId tenantId status s =
     (case find (\<lambda>r. in_id r = intentId) (paymentIntents (acc_db s)) of
        None \<Rightarrow> (Inr (Skipped ''intent-not-found''), [])
      | Some intent \<Rightarrow>
          (case profile_of tenantId s of
             None \<Rightarrow> (Inr (Skipped ''tenant-not-found''), [])
           | Some tenant \<Rightarrow>
               let messageBody = stringify (message_body e status (find_link (acc_db s) (in_paymentLinkId intent)) intent);
                   url = coalesce (tp_notifyWebhookUrl tenant) ''''
               in if url = '''' then (Inr (Skipped ''no-notify-url''), [])
                  else (case notify_headers hmac dec e intentId status tenant messageBody of
                     Inl x \<Rightarrow> (Inl x, [])
                   | Inr headers \<Rightarrow>
                       let d = \<lparr>dv_url = url, dv_headers = headers, dv_body = messageBody\<rparr>
                       in (case fetch d of
                            None \<Rightarrow> (Inl (JsError ''outbound webhook failed: ''), [d])
                          | Some st \<Rightarrow>
                              if \<not> (200 \<le> st \<and> st \<le> 299) then (Inl (JsError ''outbound webhook returned HTTP ''), [d])
                              else (case publishNotification registered messageBody tenantId intentId status of
                                 Inl x \<Rightarrow> (Inl x, [d])
                               | Inr m \<Rightarrow> (Inr (if coalesce m '''' = '''' then Notified else Published (coalesce m '''')), [d]))))))"

text \<open>\<open>retries: 3\<close>: a run that throws is repeated; the n-th run has its own clock and answers.\<close>

fun notification_runs :: "(nat \<Rightarrow> notify_result result \<times> delivery list) \<Rightarrow> nat \<Rightarrow> nat \<Rightarrow> notify_result result \<times> delivery list" where
  "notification_runs job n 0 = job n"
| "notification_runs job n (Suc left) =
     (case job n of
        (Inr r, ds) \<Rightarrow> (Inr r, ds)
      | (Inl x, ds) \<Rightarrow> (case notification_runs job (Suc n) left of (r, ds') \<Rightarrow> (r, ds @ ds')))"

section \<open>A signed event verifies\<close>

lemma show_nat_is_digit: "ch \<in> set (show_nat n) \<Longrightarrow> is_digit ch"
proof (induction n rule: show_nat.induct)
  case (1 n)
  have "is_digit (digit_char d)" if "d < 10" for d using that by (simp add: is_digit_def of_char_digit_char)
  then show ?case using 1 by (subst (asm) (2) show_nat.simps) (auto split: if_splits)
qed

lemma show_nat_nonempty [simp]: "show_nat n \<noteq> []"
  by (subst show_nat.simps) simp

lemma match_after_comma_skip:
  "CHR '','' \<notin> set xs \<Longrightarrow> match_after_comma f name cls (xs @ ys) = match_after_comma f name cls ys"
  by (induction xs) auto

lemma digit_facts: "\<not> is_digit (CHR '','')" "\<not> is_space (CHR ''t'')" "\<not> is_space (CHR ''v'')" "\<not> is_digit (CHR ''.'')"
  by (simp_all add: is_digit_def is_space_def)

lemma header_fields:
  fixes n :: nat
  assumes "\<forall>ch \<in> set sig. is_hex ch" "sig \<noteq> []"
  defines "header \<equiv> ''t='' @ show_nat n @ '',v1='' @ sig"
  shows "exec_field id ''t='' is_digit header = Some (show_nat n)" "exec_field toLowerCase ''v1='' is_hex header = Some sig"
proof -
  have digits: "takeWhile is_digit (show_nat n @ CHR '','' # r) = show_nat n" for r
    using show_nat_is_digit by (simp add: takeWhile_append1 takeWhile_append2 digit_facts)
  show "exec_field id ''t='' is_digit header = Some (show_nat n)"
    using digits by (simp add: exec_field_def match_field_def header_def digit_facts Let_def)
  have comma: "CHR '','' \<notin> set (''t='' @ show_nat n)" using show_nat_is_digit digit_facts(1) by auto
  have "match_after_comma toLowerCase ''v1='' is_hex header = match_after_comma toLowerCase ''v1='' is_hex ('',v1='' @ sig)"
    using match_after_comma_skip [OF comma] unfolding header_def by (simp only: append_assoc)
  moreover have all: "takeWhile is_hex sig = sig" using assms(1) by (simp only: takeWhile_eq_all_conv)
  have "match_field toLowerCase ''v1='' is_hex (''v1='' @ sig) = Some sig"
    using assms(2) by (simp add: match_field_def digit_facts Let_def toLowerCase_def lower_char_def all)
  moreover have "match_field toLowerCase ''v1='' is_hex header = None"
    by (simp add: match_field_def header_def digit_facts Let_def toLowerCase_def lower_char_def)
  ultimately show "exec_field toLowerCase ''v1='' is_hex header = Some sig" by (simp add: exec_field_def)
qed

text \<open>The digest of a library: hexadecimal in lower case, not empty.\<close>

definition hex_digest :: "string \<Rightarrow> bool" where
  "hex_digest x \<longleftrightarrow> x \<noteq> [] \<and> (\<forall>ch \<in> set x. is_hex ch) \<and> toLowerCase x = x"

lemma verify_built:
  assumes "hex_digest (signWebhookPayload hmac secret (nat (now e div 1000)) body)"
  shows "verifyWebhookSignatureHeader hmac secret' (fst (buildWebhookSignatureHeader hmac e secret body)) body' \<longleftrightarrow>
    signWebhookPayload hmac secret' (nat (now e div 1000)) body' = signWebhookPayload hmac secret (nat (now e div 1000)) body"
proof -
  let ?n = "nat (now e div 1000)" and ?sig = "signWebhookPayload hmac secret (nat (now e div 1000)) body"
  have "fst (buildWebhookSignatureHeader hmac e secret body) = ''t='' @ show_nat ?n @ '',v1='' @ ?sig"
    by (simp add: buildWebhookSignatureHeader_def Let_def)
  moreover have "exec_field id ''t='' is_digit (''t='' @ show_nat ?n @ '',v1='' @ ?sig) = Some (show_nat ?n)"
    "exec_field toLowerCase ''v1='' is_hex (''t='' @ show_nat ?n @ '',v1='' @ ?sig) = Some ?sig"
    using assms header_fields [of ?sig ?n] by (simp_all add: hex_digest_def)
  ultimately show ?thesis
    using assms by (auto simp: verifyWebhookSignatureHeader_def digits_value_show hex_digest_def Let_def simp del: append.simps)
qed

section \<open>Host names\<close>

lemma dot_free_prefix:
  assumes "CHR ''.'' \<notin> set p" "CHR ''.'' \<notin> set x"
  shows "p @ CHR ''.'' # q = x @ CHR ''.'' # y \<longleftrightarrow> p = x \<and> q = y"
  using assms
proof (induction p arbitrary: x)
  case Nil
  then show ?case by (cases x) auto
next
  case (Cons ch p)
  then show ?case by (cases x) auto
qed

lemma show_nat_dot [simp]: "CHR ''.'' \<notin> set (show_nat n)"
  using show_nat_is_digit digit_facts(4) by blast

lemma startsWith_octet:
  assumes "CHR ''.'' \<notin> set p"
  shows "startsWith (p @ CHR ''.'' # q) (show_nat n @ CHR ''.'' # y) \<longleftrightarrow> p = show_nat n \<and> startsWith q y"
proof -
  have "startsWith (p @ CHR ''.'' # q) (show_nat n @ CHR ''.'' # y) \<longleftrightarrow> (\<exists>r. show_nat n @ CHR ''.'' # y = p @ CHR ''.'' # q @ r)"
    by (simp add: startsWith_iff)
  also have "\<dots> \<longleftrightarrow> p = show_nat n \<and> startsWith q y"
    using dot_free_prefix [OF show_nat_dot assms] by (auto simp: startsWith_iff)
  finally show ?thesis .
qed

lemma show_nat_inject [simp]: "show_nat m = show_nat n \<longleftrightarrow> m = n"
  by (metis digits_value_show)

lemma show_nat_head: "startsWith ''0'' (show_nat n) \<longleftrightarrow> n = 0"
proof
  assume "startsWith ''0'' (show_nat n)"
  then show "n = 0"
  proof (induction n rule: show_nat.induct)
    case (1 n)
    show ?case
    proof (cases "n < 10")
      case True
      then have "digit_char n = CHR ''0''" using 1(2) by (subst (asm) show_nat.simps) (simp add: startsWith_def)
      then have "of_char (digit_char n) = (48 :: nat)" by simp
      then show ?thesis using of_char_digit_char [OF True] by simp
    next
      case False
      have "show_nat n = show_nat (n div 10) @ [digit_char (n mod 10)]" using False by (subst show_nat.simps) simp
      then have "startsWith ''0'' (show_nat (n div 10))" using 1(2) by (cases "show_nat (n div 10)") (auto simp: startsWith_def)
      then have "n div 10 = 0" using 1(1) False by blast
      then show ?thesis using False by simp
    qed
  qed
next
  have "show_nat 0 = ''0''" by code_simp
  then show "n = 0 \<Longrightarrow> startsWith ''0'' (show_nat n)" by (simp add: startsWith_def)
qed

definition dotted :: "nat \<Rightarrow> nat \<Rightarrow> nat \<Rightarrow> nat \<Rightarrow> string" where
  "dotted a b c d = show_nat a @ ''.'' @ show_nat b @ ''.'' @ show_nat c @ ''.'' @ show_nat d"

lemma toLowerCase_dotted: "toLowerCase (dotted a b c d) = dotted a b c d"
proof -
  have "lower_char ch = ch" if "is_digit ch" for ch using that by (simp add: is_digit_def lower_char_def Let_def)
  then have "map lower_char (show_nat n) = show_nat n" for n using show_nat_is_digit by (intro map_idI) blast
  then show ?thesis by (simp add: toLowerCase_def dotted_def lower_char_def)
qed

lemma startsWith_letter:
  assumes "\<not> is_digit ch"
  shows "\<not> startsWith (ch # p) (dotted a b c d)"
proof -
  obtain x r where "show_nat a = x # r" by (meson list.exhaust show_nat_nonempty)
  moreover from this have "is_digit x" using show_nat_is_digit [of x a] by simp
  ultimately show ?thesis using assms by (auto simp: startsWith_def dotted_def)
qed

lemma private_dotted:
  "private_hostname (dotted a b c d) \<longleftrightarrow>
     a = 127 \<or> a = 10 \<or> (a = 172 \<and> 16 \<le> b \<and> b < 32) \<or> (a = 192 \<and> b = 168) \<or> (a = 0 \<and> b = 0 \<and> c = 0 \<and> d = 0) \<or> (a = 169 \<and> b = 254)"
proof -
  have num: "''127'' = show_nat 127" "''10'' = show_nat 10" "''172'' = show_nat 172" "''192'' = show_nat 192" "''168'' = show_nat 168"
      "''0'' = show_nat 0" "''169'' = show_nat 169" "''254'' = show_nat 254"
    by (code_simp+)
  have one: "startsWith (show_nat x @ ''.'') (dotted a b c d) \<longleftrightarrow> a = x" for x
    using startsWith_octet [of "show_nat x" "[]" a] by (auto simp: dotted_def startsWith_def)
  have two: "startsWith (show_nat x @ ''.'' @ show_nat y @ ''.'') (dotted a b c d) \<longleftrightarrow> a = x \<and> b = y" for x y
    using startsWith_octet [of "show_nat x" "show_nat y @ ''.''" a] startsWith_octet [of "show_nat y" "[]" b]
    by (auto simp: dotted_def startsWith_def)
  have four: "startsWith ''0.0.0.0'' (dotted a b c d) \<longleftrightarrow> a = 0 \<and> b = 0 \<and> c = 0 \<and> d = 0"
  proof -
    have "startsWith (show_nat 0 @ CHR ''.'' # show_nat 0 @ CHR ''.'' # show_nat 0 @ CHR ''.'' # ''0'') (dotted a b c d) \<longleftrightarrow> a = 0 \<and> b = 0 \<and> c = 0 \<and> d = 0"
      using show_nat_head [of d] by (simp add: dotted_def startsWith_octet)
    then show ?thesis by (simp add: num(6) [symmetric])
  qed
  have "startsWith ''127.'' (dotted a b c d) \<longleftrightarrow> a = 127" "startsWith ''10.'' (dotted a b c d) \<longleftrightarrow> a = 10"
    "startsWith ''192.168.'' (dotted a b c d) \<longleftrightarrow> a = 192 \<and> b = 168" "startsWith ''169.254.'' (dotted a b c d) \<longleftrightarrow> a = 169 \<and> b = 254"
    "startsWith (''172.'' @ show_nat n @ ''.'') (dotted a b c d) \<longleftrightarrow> a = 172 \<and> b = n" for n
    using one [of 127] one [of 10] two [of 192 168] two [of 169 254] two [of 172 n] by (simp_all add: num [symmetric])
  moreover have "\<not> startsWith ''localhost'' (dotted a b c d)" "\<not> startsWith ''::1'' (dotted a b c d)"
    by (rule startsWith_letter; simp add: is_digit_def)+
  moreover have "(\<exists>p \<in> set (map (\<lambda>n. ''172.'' @ show_nat n @ ''.'') [16..<32]). startsWith p (dotted a b c d)) \<longleftrightarrow> a = 172 \<and> 16 \<le> b \<and> b < 32"
    unfolding set_map bex_simps(7) calculation(5) set_upt by auto
  ultimately show ?thesis
    unfolding private_hostname_def PRIVATE_HOSTNAME_def toLowerCase_dotted list_ex_iff set_append bex_Un list.set bex_simps(5,6) four by blast
qed

section \<open>Properties\<close>

text \<open>
  C16. The check of addresses of numeric hosts is the reference list. An https address whose host is a dotted quad is accepted exactly
  when it is not loopback, not in 10/8, 172.16/12, 192.168/16 or 169.254/16 and not 0.0.0.0; but the IPv6 loopback, whose host
  name is written in brackets, is accepted.
\<close>

theorem safeUrl_ipv4:
  assumes "parseUrl v = Some (''https:'', dotted a b c d)" "parseUrl w = Some (''https:'', ''[::1]'')"
  shows "(safeUrl parseUrl v \<longleftrightarrow>
      \<not> (a = 127 \<or> a = 10 \<or> (a = 172 \<and> 16 \<le> b \<and> b < 32) \<or> (a = 192 \<and> b = 168) \<or> (a = 0 \<and> b = 0 \<and> c = 0 \<and> d = 0) \<or> (a = 169 \<and> b = 254))) \<and>
    safeUrl parseUrl w"
proof -
  have "\<not> private_hostname ''[::1]''"
    by (auto simp: private_hostname_def PRIVATE_HOSTNAME_def list_ex_iff startsWith_def toLowerCase_def lower_char_def)
  then show ?thesis using private_dotted [of a b c d] assms by (simp add: safeUrl_def)
qed

theorem safeUrl_ipv4_witness:
  "\<not> safeUrl (\<lambda>v. if v = ''https://10.0.0.7/'' then Some (''https:'', ''10.0.0.7'') else Some (''https:'', ''[::1]'')) ''https://10.0.0.7/'' \<and>
   safeUrl (\<lambda>v. if v = ''https://10.0.0.7/'' then Some (''https:'', ''10.0.0.7'') else Some (''https:'', ''[::1]'')) ''https://[::1]/''"
proof -
  let ?parse = "\<lambda>v. if v = ''https://10.0.0.7/'' then Some (''https:'', ''10.0.0.7'') else Some (''https:'', ''[::1]'')"
  have "''10.0.0.7'' = dotted 10 0 0 7" by code_simp
  then have "?parse ''https://10.0.0.7/'' = Some (''https:'', dotted 10 0 0 7)" "?parse ''https://[::1]/'' = Some (''https:'', ''[::1]'')"
    by simp_all
  from safeUrl_ipv4 [of ?parse "''https://10.0.0.7/''" 10 0 0 7 "''https://[::1]/''", OF this] show ?thesis by simp
qed

text \<open>
  C11. The secret a merchant is shown verifies the events it receives. When a request changes the profile and answers with a new
  signing secret, every event the job then sends carries a signature which \<open>verifyWebhookSignatureHeader\<close> accepts for the body
  that was sent, with that secret, and for no other body unless the HMAC of both is the same. The encryption is the one of theory
  Encryption; the HMAC is not empty and in lower-case hexadecimal.
\<close>

theorem webhook_secret_verifies:
  assumes "\<And>key p ct tag. gcm_encrypt ci key iv p = (ct, tag) \<Longrightarrow> gcm_decrypt ci key iv tag ct = Some p \<and> length tag = 16" "length iv = 12"
    "\<And>key m. hex_digest (hmac key m)"
    "updateTenant c parseUrl (encrypt ci k iv) q u s = (Inr (p, Some secret), s1)"
    "d \<in> set (snd (notifications hmac (decrypt ci k) stringify fetch registered e intentId (ru_tenantId u) status s1))"
  shows "\<exists>sig. dv_headers d ''X-CorpoPay-Signature'' = Some sig \<and> verifyWebhookSignatureHeader hmac secret sig (dv_body d) \<and>
    (\<forall>body. verifyWebhookSignatureHeader hmac secret sig body \<longrightarrow>
       hmac secret (show_nat (nat (now e div 1000)) @ ''.'' @ body) = hmac secret (show_nat (nat (now e div 1000)) @ ''.'' @ dv_body d))"
proof -
  let ?t = "ru_tenantId u"
  obtain x p0 where enc: "encrypt ci k iv secret = Inr x" and p0: "profile_of ?t s = Some p0"
      and s1: "profiles s1 = map (\<lambda>p. if tp_id p = ?t then patch_profile q (Some x) p else p) (profiles s)"
    using assms(4) by (auto simp: updateTenant_def Let_def split: sum.splits option.splits)
  have dec: "decrypt ci k x = Inr secret" using assms(1) by (rule decrypt_encrypt [OF _ assms(2) enc])
  have "profile_of ?t s1 = map_option (patch_profile q (Some x)) (profile_of ?t s)"
    using find_update_key [of tp_id "patch_profile q (Some x)" ?t ?t "profiles s"] by (simp add: profile_of_def s1 patch_profile_def)
  then have prof: "profile_of ?t s1 = Some (patch_profile q (Some x) p0)" using p0 by simp
  have x: "x \<noteq> ''''" using enc by (auto simp: encrypt_def FORMAT_V2_PREFIX_def case_prod_beta)
  have secret: "has_secret (Some (patch_profile q (Some x) p0))" "tp_webhookSigningSecret (patch_profile q (Some x) p0) = Some x"
    using x by (simp_all add: has_secret_def patch_profile_def)
  have hd: "dv_headers d ''X-CorpoPay-Signature'' = Some (fst (buildWebhookSignatureHeader hmac e secret (dv_body d)))"
    using assms(5) secret dec
    by (auto simp: notifications_def prof notify_headers_def Let_def split: option.splits sum.splits prod.splits if_splits)
  have "hex_digest (signWebhookPayload hmac secret (nat (now e div 1000)) (dv_body d))" using assms(3) by (simp add: signWebhookPayload_def)
  from verify_built [OF this] hd show ?thesis by (auto simp: signWebhookPayload_def)
qed

definition demo_patch :: tenant_patch where
  "demo_patch = \<lparr>tq_name = None, tq_notifyWebhookUrl = Some (Some ''https://shop/hook''), tq_notifyEmail = None, tq_rotate = None,
     tq_settlementCurrency = None, tq_taxRateBps = None, tq_taxExempt = None\<rparr>"

definition demo_notify_accounts :: accounts where
  "demo_notify_accounts = demo_accounts\<lparr>acc_db := (acc_db demo_accounts)\<lparr>paymentIntents := [demo_intent]\<rparr>\<rparr>"

theorem webhook_secret_verifies_witness:
  "\<exists>p secret s1 d sig.
     updateTenant demo_libs (\<lambda>v. Some (''https:'', ''shop'')) (encrypt demo_ciphers demo_keys (replicate 12 (CHR ''i''))) demo_patch owner_request
       demo_notify_accounts = (Inr (p, Some secret), s1) \<and>
     notifications (\<lambda>k m. ''ab'') (decrypt demo_ciphers demo_keys) (\<lambda>j. ''{}'') (\<lambda>d. Some 200) None demo_env ''i1'' ''t1'' ''SUCCEEDED'' s1 =
       (Inr Notified, [d]) \<and>
     dv_headers d ''X-CorpoPay-Signature'' = Some sig \<and> verifyWebhookSignatureHeader (\<lambda>k m. ''ab'') secret sig (dv_body d)"
proof -
  let ?iv = "replicate 12 (CHR ''i'')" and ?parse = "\<lambda>v. Some (''https:'', ''shop'')" and ?secret = "generateWebhookSecret demo_libs 0"
  have laws: "gcm_decrypt demo_ciphers key ?iv tag ct = Some p \<and> length tag = 16" if "gcm_encrypt demo_ciphers key ?iv p = (ct, tag)" for key p ct tag
    using that by (auto simp: demo_ciphers_def)
  have "\<exists>x. encrypt demo_ciphers demo_keys ?iv ?secret = Inr x"
  proof -
    have "getKey demo_keys = Inr (from_hex (replicate 64 (CHR ''a'')))" by (simp add: getKey_def demo_keys_def)
    moreover have "length (from_hex (replicate 64 (CHR ''a''))) = 32" by (subst length_from_hex) (simp_all add: hex_value_def upt_rec)
    ultimately show ?thesis by (simp add: encrypt_def gcm_key_def split: prod.split)
  qed
  then obtain x where x: "encrypt demo_ciphers demo_keys ?iv ?secret = Inr x" ..
  have prof: "profile_of ''t1'' demo_notify_accounts = Some (new_profile ''t1'' ''Shop'' ''shop'')" "seq (acc_db demo_notify_accounts) = 0"
    by (simp_all add: profile_of_def demo_notify_accounts_def demo_accounts_def new_profile_def empty_db_def)
  have "\<not> private_hostname ''shop''"
    by (auto simp: private_hostname_def PRIVATE_HOSTNAME_def list_ex_iff startsWith_def toLowerCase_def lower_char_def)
  then have ok: "updateTenantSchema demo_libs ?parse demo_patch = Inr ()"
    by (simp add: updateTenantSchema_def demo_patch_def safeUrl_def)
  have new: "new_webhook_secret demo_libs demo_patch ''t1'' demo_notify_accounts = Some ?secret"
    by (simp add: new_webhook_secret_def demo_patch_def prof has_secret_def new_profile_def)
  obtain s1 where upd: "updateTenant demo_libs ?parse (encrypt demo_ciphers demo_keys ?iv) demo_patch owner_request demo_notify_accounts =
      (Inr (patch_profile demo_patch (Some x) (new_profile ''t1'' ''Shop'' ''shop''), Some ?secret), s1)"
      and s1: "profiles s1 = [patch_profile demo_patch (Some x) (new_profile ''t1'' ''Shop'' ''shop'')]" "paymentIntents (acc_db s1) = [demo_intent]"
    by (simp add: updateTenant_def owner_request_def ok new x prof)
      (simp add: demo_notify_accounts_def demo_accounts_def new_profile_def bump_def Let_def)
  have dec: "decrypt demo_ciphers demo_keys x = Inr ?secret" using laws by (rule decrypt_encrypt [OF _ _ x]) simp_all
  have prof1: "profile_of ''t1'' s1 = Some (patch_profile demo_patch (Some x) (new_profile ''t1'' ''Shop'' ''shop''))"
    by (simp add: profile_of_def s1 patch_profile_def new_profile_def)
  have "x \<noteq> ''''" using x by (auto simp: encrypt_def FORMAT_V2_PREFIX_def case_prod_beta)
  then obtain hs where hs: "notify_headers (\<lambda>k m. ''ab'') (decrypt demo_ciphers demo_keys) demo_env ''i1'' ''SUCCEEDED''
      (patch_profile demo_patch (Some x) (new_profile ''t1'' ''Shop'' ''shop'')) ''{}'' = Inr hs"
    by (simp add: notify_headers_def has_secret_def patch_profile_def dec Let_def case_prod_beta)
  let ?d = "\<lparr>dv_url = ''https://shop/hook'', dv_headers = hs, dv_body = ''{}''\<rparr>"
  have job: "notifications (\<lambda>k m. ''ab'') (decrypt demo_ciphers demo_keys) (\<lambda>j. ''{}'') (\<lambda>d. Some 200) None demo_env ''i1'' ''t1'' ''SUCCEEDED'' s1 =
      (Inr Notified, [?d])"
    by (simp add: notifications_def s1 prof1 hs publishNotification_def demo_intent_def Let_def)
      (simp add: patch_profile_def demo_patch_def)
  have owner: "ru_tenantId owner_request = ''t1''" by (simp add: owner_request_def)
  have digest: "hex_digest ''ab''" by (simp add: hex_digest_def is_hex_def hex_value_def upt_rec toLowerCase_def lower_char_def)
  have "?d \<in> set (snd (notifications (\<lambda>k m. ''ab'') (decrypt demo_ciphers demo_keys) (\<lambda>j. ''{}'') (\<lambda>d. Some 200) None demo_env ''i1''
      (ru_tenantId owner_request) ''SUCCEEDED'' s1))" by (simp add: job owner)
  from webhook_secret_verifies [OF laws _ digest upd this]
  obtain sig where "dv_headers ?d ''X-CorpoPay-Signature'' = Some sig" "verifyWebhookSignatureHeader (\<lambda>k m. ''ab'') ?secret sig (dv_body ?d)"
    by auto
  with upd job show ?thesis by blast
qed

lemma notification_runs_ok: "is_ok (fst (notification_runs job n left)) \<longleftrightarrow> (\<exists>m \<le> left. is_ok (fst (job (n + m))))"
proof (induction left arbitrary: n)
  case (Suc left)
  obtain r ds where j: "job n = (r, ds)" by force
  show ?case
  proof (cases r)
    case (Inl x)
    have "is_ok (fst (notification_runs job n (Suc left))) \<longleftrightarrow> (\<exists>m \<le> left. is_ok (fst (job (Suc n + m))))"
      using Suc [of "Suc n"] by (simp add: j Inl case_prod_beta)
    also have "\<dots> \<longleftrightarrow> (\<exists>m \<le> Suc left. is_ok (fst (job (n + m))))"
    proof -
      have "\<not> is_ok (fst (job (n + 0)))" by (simp add: j Inl)
      then show ?thesis by (metis Suc_le_mono add_Suc_right add_Suc not0_implies_Suc)
    qed
    finally show ?thesis .
  next
    case (Inr x)
    then show ?thesis using j by (auto intro!: exI [of _ 0])
  qed
qed simp

lemma notification_runs_deliveries:
  assumes "\<And>m. length (snd (job m)) \<le> 1" "\<And>m d. d \<in> set (snd (job m)) \<Longrightarrow> P d"
  shows "length (snd (notification_runs job n left)) \<le> Suc left \<and> (\<forall>d \<in> set (snd (notification_runs job n left)). P d)"
proof (induction left arbitrary: n)
  case 0
  then show ?case using assms(1) [of n] assms(2) [of _ n] by auto
next
  case (Suc left)
  obtain r ds where j: "job n = (r, ds)" by force
  have "length ds \<le> 1" "\<forall>d \<in> set ds. P d" using assms(1) [of n] assms(2) [of _ n] by (auto simp: j)
  then show ?case using Suc [of "Suc n"] by (cases r) (auto simp: j case_prod_beta)
qed

lemma notifications_run:
  assumes "find (\<lambda>r. in_id r = intentId) (paymentIntents (acc_db s)) = Some intent" "profile_of tenantId s = Some tenant"
    "tp_notifyWebhookUrl tenant = Some url" "url \<noteq> []"
    "body = stringify (message_body e status (find_link (acc_db s) (in_paymentLinkId intent)) intent)"
    "notify_headers hmac dec e intentId status tenant body = Inr h" "d = \<lparr>dv_url = url, dv_headers = h, dv_body = body\<rparr>"
  shows "snd (notifications hmac dec stringify fetch None e intentId tenantId status s) = [d]"
    "is_ok (fst (notifications hmac dec stringify fetch None e intentId tenantId status s)) \<longleftrightarrow> (\<exists>st. fetch d = Some st \<and> 200 \<le> st \<and> st \<le> 299)"
  unfolding notifications_def using assms(4,6)
  by (simp_all add: assms(1-3,7) assms(5) [symmetric] publishNotification_def Let_def split: option.split)

text \<open>
  C12. The delivery of an event. For a tenant with an address (and a secret that can be read, if it has one) the four runs of the job
  send the event at most four times, always to that address and under the same identifier, and the job succeeds exactly when one
  of the four requests is answered with a success status; no answer of the merchant loses the event before the fourth.
\<close>

theorem notification_delivery:
  assumes "find (\<lambda>r. in_id r = intentId) (paymentIntents (acc_db s)) = Some intent" "profile_of tenantId s = Some tenant"
    "tp_notifyWebhookUrl tenant = Some url" "url \<noteq> ''''" "has_secret (Some tenant) \<Longrightarrow> is_ok (dec (the (tp_webhookSigningSecret tenant)))"
    "job = (\<lambda>n. notifications hmac dec stringify (fetch n) None (e n) intentId tenantId status s)"
  shows "length (snd (notification_runs job 0 3)) \<le> 4 \<and>
    (\<forall>d \<in> set (snd (notification_runs job 0 3)). dv_url d = url \<and> dv_headers d ''X-CorpoPay-Webhook-Id'' = Some (intentId @ '':'' @ status)) \<and>
    (is_ok (fst (notification_runs job 0 3)) \<longleftrightarrow>
       (\<exists>n < 4. \<exists>d st. snd (job n) = [d] \<and> fetch n d = Some st \<and> 200 \<le> st \<and> st \<le> 299))"
proof -
  define body where "body n = stringify (message_body (e n) status (find_link (acc_db s) (in_paymentLinkId intent)) intent)" for n
  have headers: "\<exists>h. notify_headers hmac dec (e n) intentId status tenant b = Inr h \<and> h ''X-CorpoPay-Webhook-Id'' = Some (intentId @ '':'' @ status)" for n b
    using assms(5) by (cases "tp_webhookSigningSecret tenant") (auto simp: notify_headers_def has_secret_def is_ok_iff Let_def case_prod_beta)
  define hs where "hs n = projr (notify_headers hmac dec (e n) intentId status tenant (body n))" for n
  have hs: "notify_headers hmac dec (e n) intentId status tenant (body n) = Inr (hs n)"
      "hs n ''X-CorpoPay-Webhook-Id'' = Some (intentId @ '':'' @ status)" for n
    using headers [of n "body n"] by (auto simp: hs_def)
  define d where "d n = \<lparr>dv_url = url, dv_headers = hs n, dv_body = body n\<rparr>" for n
  have job: "snd (job n) = [d n]" "is_ok (fst (job n)) \<longleftrightarrow> (\<exists>st. fetch n (d n) = Some st \<and> 200 \<le> st \<and> st \<le> 299)" for n
    unfolding assms(6) using notifications_run [where stringify = stringify, OF assms(1-4) body_def [of n] hs(1) [of n] d_def [of n]] by simp_all
  have "length (snd (notification_runs job 0 3)) \<le> Suc 3 \<and> (\<forall>d \<in> set (snd (notification_runs job 0 3)). dv_url d = url \<and>
      dv_headers d ''X-CorpoPay-Webhook-Id'' = Some (intentId @ '':'' @ status))"
    by (rule notification_runs_deliveries) (auto simp: job d_def hs(2))
  moreover have "is_ok (fst (notification_runs job 0 3)) \<longleftrightarrow> (\<exists>n < 4. \<exists>st. fetch n (d n) = Some st \<and> 200 \<le> st \<and> st \<le> 299)"
    using notification_runs_ok [of job 0 3] by (simp add: job less_Suc_eq_le [symmetric] numeral_eq_Suc)
  ultimately show ?thesis by (simp add: job)
qed

theorem notification_delivery_witness:
  "is_ok (fst (notification_runs (\<lambda>n. notifications (\<lambda>k m. ''ab'') Inr (\<lambda>j. ''{}'') (\<lambda>d. if n = 2 then Some 200 else None) None demo_env ''i1'' ''t1'' ''PAID''
     (demo_notify_accounts\<lparr>profiles := [(new_profile ''t1'' ''Shop'' ''shop'')\<lparr>tp_notifyWebhookUrl := Some ''https://shop/hook''\<rparr>]\<rparr>)) 0 3))"
proof -
  let ?p = "(new_profile ''t1'' ''Shop'' ''shop'')\<lparr>tp_notifyWebhookUrl := Some ''https://shop/hook''\<rparr>"
  let ?s = "demo_notify_accounts\<lparr>profiles := [?p]\<rparr>"
  let ?fetch = "\<lambda>n d. if n = (2 :: nat) then Some 200 else None"
  let ?job = "\<lambda>n. notifications (\<lambda>k m. ''ab'') Inr (\<lambda>j. ''{}'') (?fetch n) None demo_env ''i1'' ''t1'' ''PAID'' ?s"
  have intent: "find (\<lambda>r. in_id r = ''i1'') (paymentIntents (acc_db ?s)) = Some demo_intent"
    by (simp add: demo_notify_accounts_def demo_intent_def)
  have prof: "profile_of ''t1'' ?s = Some ?p" "tp_notifyWebhookUrl ?p = Some ''https://shop/hook''" "''https://shop/hook'' \<noteq> ''''"
    by (simp_all add: profile_of_def new_profile_def)
  have sec: "has_secret (Some ?p) \<Longrightarrow> is_ok (Inr (the (tp_webhookSigningSecret ?p)) :: string result)" by simp
  obtain h where h: "notify_headers (\<lambda>k m. ''ab'') Inr demo_env ''i1'' ''PAID'' ?p ''{}'' = Inr h"
    by (simp add: notify_headers_def has_secret_def new_profile_def)
  have "\<exists>d. snd (?job 2) = [d]" using notifications_run(1) [where stringify = "\<lambda>j. ''{}''", OF intent prof refl h refl] by blast
  then show ?thesis
    using notification_delivery [where dec = Inr and fetch = ?fetch and e = "\<lambda>n. demo_env" and hmac = "\<lambda>k m. ''ab''" and stringify = "\<lambda>j. ''{}''"
        and status = "''PAID''" and job = ?job, OF intent prof sec refl]
    by (auto intro!: exI [of _ 2])
qed

end
