(* ===== verification/ProviderConfig.thy ===== *)
theory ProviderConfig
  imports Accounts PayoutRoute
begin

text \<open>
  \<open>src/routes/providerConfig.ts\<close>: the credentials of a tenant for its payment providers, their connection test and their switch, with
  the schemas of \<open>src/schemas/provider-config.ts\<close>. Encryption, the validation of an address and the connection test are arguments. The
  column \<open>environment\<close> of a configuration is only stored and shown, so it is not part of the row.
\<close>

section \<open>Schemas\<close>

datatype field_kind = NonEmpty | UrlText | OptText | OptFlag

definition own_value :: "json \<Rightarrow> string \<Rightarrow> json option" where
  "own_value j k = (case j of JObj kvs \<Rightarrow> map_of kvs k | _ \<Rightarrow> None)"

definition field_ok :: "(string \<Rightarrow> bool) \<Rightarrow> field_kind \<Rightarrow> json option \<Rightarrow> bool" where
  "field_ok is_url kind v =
     (case kind of
        NonEmpty \<Rightarrow> (case v of Some (JStr s) \<Rightarrow> s \<noteq> '''' | _ \<Rightarrow> False)
      | UrlText \<Rightarrow> (case v of Some (JStr s) \<Rightarrow> is_url s | _ \<Rightarrow> False)
      | OptText \<Rightarrow> (case v of None \<Rightarrow> True | Some (JStr _) \<Rightarrow> True | _ \<Rightarrow> False)
      | OptFlag \<Rightarrow> (case v of None \<Rightarrow> True | Some (JBool _) \<Rightarrow> True | _ \<Rightarrow> False))"

text \<open>\<open>z.object(schema).parse(j)\<close>: the fields of the schema are checked, any other field is dropped.\<close>

definition parse_object :: "(string \<Rightarrow> bool) \<Rightarrow> (string \<times> field_kind) list \<Rightarrow> json \<Rightarrow> json result" where
  "parse_object is_url schema j =
     (case j of
        JObj kvs \<Rightarrow>
          if list_all (\<lambda>(k, kind). field_ok is_url kind (map_of kvs k)) schema
          then Inr (JObj (List.map_filter (\<lambda>(k, kind). map_option (Pair k) (map_of kvs k)) schema))
          else Inl (AppError 422 ''VALIDATION_ERROR'')
      | _ \<Rightarrow> Inl (AppError 422 ''VALIDATION_ERROR''))"

definition napsCredentialsSchema :: "(string \<times> field_kind) list" where
  "napsCredentialsSchema = [(''merchantId'', NonEmpty), (''terminalId'', NonEmpty), (''secretKey'', NonEmpty), (''baseUrl'', UrlText)]"

definition vpsCredentialsSchema :: "(string \<times> field_kind) list" where
  "vpsCredentialsSchema =
     [(''merchantAccount'', NonEmpty), (''paywallSecretKey'', NonEmpty), (''paywallUrl'', UrlText), (''skin'', OptText),
      (''doFundsAuthOnly'', OptFlag), (''mode'', OptText), (''paymentMethod'', OptText), (''showPaymentProfiles'', OptText),
      (''apiUrl'', UrlText), (''callerName'', NonEmpty), (''callerPassword'', NonEmpty), (''notificationKey'', OptText),
      (''callbackTestMode'', OptFlag)]"

definition stripeCredentialsSchema :: "(string \<times> field_kind) list" where
  "stripeCredentialsSchema = [(''secretKey'', NonEmpty), (''webhookSecret'', NonEmpty), (''publishableKey'', OptText)]"

section \<open>Masking\<close>

definition SENSITIVE :: "string list" where
  "SENSITIVE = [''secretKey'', ''apiKey'', ''password'', ''token'', ''paywallSecretKey'', ''callerPassword'', ''notificationKey'', ''webhookSecret'']"

definition mask_secret :: "json \<Rightarrow> json" where
  "mask_secret v =
     (case v of
        JStr s \<Rightarrow> if 4 < length s then JStr (take 4 s @ replicate (max (length s - 4) 4) (CHR ''*'')) else JStr ''****''
      | _ \<Rightarrow> JStr ''****'')"

definition maskCredentials :: "(string \<times> json) list \<Rightarrow> (string \<times> json) list" where
  "maskCredentials creds = map (\<lambda>(k, v). (k, if k \<in> set SENSITIVE then mask_secret v else v)) creds"

text \<open>What is listed of a configuration; credentials that cannot be decrypted are shown as empty.\<close>

definition shown_credentials :: "(string \<Rightarrow> json result) \<Rightarrow> provider_config \<Rightarrow> (string \<times> json) list" where
  "shown_credentials dec c = (case dec (pc_encryptedCredentials c) of Inr (JObj kvs) \<Rightarrow> maskCredentials kvs | _ \<Rightarrow> [])"

type_synonym config_view = "string \<times> provider \<times> provider_config_status \<times> (string \<times> json) list"

definition config_view_of :: "(string \<Rightarrow> json result) \<Rightarrow> provider_config \<Rightarrow> config_view" where
  "config_view_of dec c = (pc_id c, pc_provider c, pc_status c, shown_credentials dec c)"

definition listProviderConfigs :: "(string \<Rightarrow> json result) \<Rightarrow> req_user \<Rightarrow> config_view list account_step" where
  "listProviderConfigs dec u s = (Inr (map (config_view_of dec) (filter (\<lambda>c. pc_tenantId c = ru_tenantId u) (providerConfigs (acc_db s)))), s)"

definition adminListProviderConfigs :: "(string \<Rightarrow> json result) \<Rightarrow> string \<Rightarrow> req_user \<Rightarrow> config_view list account_step" where
  "adminListProviderConfigs dec i u s = (Inr (map (config_view_of dec) (filter (\<lambda>c. pc_tenantId c = i) (providerConfigs (acc_db s)))), s)"

section \<open>Requests\<close>

definition body_provider :: "json \<Rightarrow> provider result" where
  "body_provider body =
     (case own_value body ''provider'' of
        Some (JStr p) \<Rightarrow>
          if p = ''NAPS'' then Inr NAPS else if p = ''VPS'' then Inr VPS else if p = ''STRIPE'' then Inr STRIPE
          else Inl (AppError 422 ''VALIDATION_ERROR'')
      | _ \<Rightarrow> Inl (AppError 422 ''VALIDATION_ERROR''))"

definition body_credentials :: "(string \<Rightarrow> bool) \<Rightarrow> provider \<Rightarrow> json \<Rightarrow> json result" where
  "body_credentials is_url p body =
     (let raw = coalesce (json_field body ''credentials'') body
      in parse_object is_url (if p = NAPS then napsCredentialsSchema else if p = STRIPE then stripeCredentialsSchema else vpsCredentialsSchema) raw)"

definition body_environment :: "json \<Rightarrow> json" where
  "body_environment body = coalesce (json_field body ''environment'') (JStr ''SANDBOX'')"

definition config_warnings :: "provider \<Rightarrow> json \<Rightarrow> string list" where
  "config_warnings p credentials =
     (if p = VPS \<and> coalesce (json_string (own_value credentials ''notificationKey'')) '''' = ''''
      then [''notificationKey is not set: inbound Payzone webhooks will be rejected. Set it to enable payment confirmation callbacks.''] else []) @
     (if p = STRIPE \<and> coalesce (json_string (own_value credentials ''webhookSecret'')) '''' = ''''
      then [''webhookSecret is not set: inbound Stripe webhooks will be rejected. Retrieve it from the Stripe Dashboard -> Webhooks.''] else [])"

text \<open>The checks before anything is written: the provider, its credentials, the test mode, the encrypted credentials, the environment.\<close>

definition config_input :: "(string \<Rightarrow> bool) \<Rightarrow> (json \<Rightarrow> string result) \<Rightarrow> json \<Rightarrow> (provider \<times> json \<times> string) result" where
  "config_input is_url enc body =
     ebind (body_provider body) (\<lambda>p. ebind (body_credentials is_url p body) (\<lambda>credentials.
       let environment = body_environment body
       in if environment = JStr ''PRODUCTION'' \<and> p = VPS \<and> own_value credentials ''callbackTestMode'' = Some (JBool True)
          then Inl (AppError 400 ''UNSAFE_TEST_CONFIG'')
          else ebind (enc credentials) (\<lambda>encrypted.
            if environment \<in> {JStr ''SANDBOX'', JStr ''PRODUCTION''} then Inr (p, credentials, encrypted)
            else Inl (JsError ''PrismaClientValidationError''))))"

definition upsert_config :: "env \<Rightarrow> string \<Rightarrow> provider \<Rightarrow> string \<Rightarrow> accounts \<Rightarrow> provider_config \<times> bool \<times> accounts" where
  "upsert_config e t p encrypted s =
     (let d = acc_db s
      in case tenant_config t p d of
           None \<Rightarrow>
             (let c = \<lparr>pc_id = fresh e d, pc_tenantId = t, pc_provider = p, pc_encryptedCredentials = encrypted, pc_status = CONFIG_MISSING\<rparr>
              in (c, True, s\<lparr>acc_db := (bump d)\<lparr>providerConfigs := providerConfigs d @ [c]\<rparr>\<rparr>))
         | Some existing \<Rightarrow>
             (let upd = (\<lambda>c. c\<lparr>pc_encryptedCredentials := encrypted,
                              pc_status := (if pc_status existing = CONFIG_DISABLED then CONFIG_DISABLED else CONFIG_MISSING)\<rparr>)
              in (upd existing, False,
                  s\<lparr>acc_db := d\<lparr>providerConfigs := map (\<lambda>c. if pc_tenantId c = t \<and> pc_provider c = p then upd c else c) (providerConfigs d)\<rparr>\<rparr>)))"

definition saveProviderConfig ::
  "(string \<Rightarrow> bool) \<Rightarrow> (json \<Rightarrow> string result) \<Rightarrow> env \<Rightarrow> json \<Rightarrow> req_user \<Rightarrow> (string \<times> provider \<times> provider_config_status \<times> string list) account_step" where
  "saveProviderConfig is_url enc e body u s =
     (case config_input is_url enc body of
        Inl x \<Rightarrow> (Inl x, s)
      | Inr (p, credentials, encrypted) \<Rightarrow>
          (case upsert_config e (ru_tenantId u) p encrypted s of
             (c, isNew, s1) \<Rightarrow>
               sbind (audit_as (ru_tenantId u) u (if isNew then ''PROVIDER_CONFIG_CREATED'' else ''PROVIDER_CONFIG_UPDATED'') ''ProviderConfig'' (pc_id c) s1)
                 (\<lambda>_ s2. (Inr (pc_id c, pc_provider c, pc_status c, config_warnings p credentials), s2))))"

definition own_config :: "string \<Rightarrow> req_user \<Rightarrow> accounts \<Rightarrow> provider_config option" where
  "own_config i u s = find (\<lambda>c. pc_id c = i \<and> pc_tenantId c = ru_tenantId u) (providerConfigs (acc_db s))"

definition set_config_status :: "string \<Rightarrow> provider_config_status \<Rightarrow> accounts \<Rightarrow> accounts" where
  "set_config_status i status s =
     s\<lparr>acc_db := (acc_db s)\<lparr>providerConfigs := map (\<lambda>c. if pc_id c = i then c\<lparr>pc_status := status\<rparr> else c) (providerConfigs (acc_db s))\<rparr>\<rparr>"

definition toggleProviderConfig :: "string \<Rightarrow> bool \<Rightarrow> req_user \<Rightarrow> provider_config_status account_step" where
  "toggleProviderConfig i enabled u s =
     (case own_config i u s of
        None \<Rightarrow> (Inl (AppError 404 ''CONFIG_NOT_FOUND''), s)
      | Some c \<Rightarrow>
          if enabled \<and> pc_status c = CONFIG_MISSING then (Inl (AppError 409 ''CONFIG_NOT_TESTED''), s)
          else if enabled \<and> pc_status c = CONFIG_INVALID then (Inl (AppError 409 ''CONFIG_INVALID''), s)
          else let newStatus = (if enabled then CONFIG_CONNECTED else CONFIG_DISABLED)
               in sbind (audit_as (ru_tenantId u) u (if enabled then ''PROVIDER_CONFIG_ENABLED'' else ''PROVIDER_CONFIG_DISABLED'') ''ProviderConfig'' (pc_id c)
                           (set_config_status (pc_id c) newStatus s))
                    (\<lambda>_ s1. (Inr newStatus, s1)))"

text \<open>\<open>test p x\<close> is \<open>getAdapter(p, x).testConnection()\<close>: whether it connected, and the error it reports.\<close>

definition testProviderConfig ::
  "(provider \<Rightarrow> string \<Rightarrow> (bool \<times> json option) result) \<Rightarrow> string \<Rightarrow> req_user \<Rightarrow> (bool \<times> provider_config_status \<times> json option) account_step" where
  "testProviderConfig test i u s =
     (case own_config i u s of
        None \<Rightarrow> (Inl (AppError 404 ''CONFIG_NOT_FOUND''), s)
      | Some c \<Rightarrow>
          if pc_status c = CONFIG_DISABLED then (Inl (AppError 409 ''CONFIG_DISABLED''), s)
          else (case test (pc_provider c) (pc_encryptedCredentials c) of
             Inl x \<Rightarrow> (Inl x, s)
           | Inr (reached, error) \<Rightarrow>
               let newStatus = (if reached then CONFIG_CONNECTED else CONFIG_INVALID)
               in sbind (audit_as (ru_tenantId u) u ''PROVIDER_CONFIG_VALIDATED'' ''ProviderConfig'' (pc_id c) (set_config_status (pc_id c) newStatus s))
                    (\<lambda>_ s1. (Inr (reached, newStatus, error), s1))))"

definition deleteProviderConfig :: "string \<Rightarrow> req_user \<Rightarrow> unit account_step" where
  "deleteProviderConfig i u s =
     (case own_config i u s of
        None \<Rightarrow> (Inl (AppError 404 ''CONFIG_NOT_FOUND''), s)
      | Some c \<Rightarrow>
          audit_as (ru_tenantId u) u ''PROVIDER_CONFIG_DELETED'' ''ProviderConfig'' (pc_id c)
            (s\<lparr>acc_db := (acc_db s)\<lparr>providerConfigs := filter (\<lambda>x. pc_id x \<noteq> pc_id c) (providerConfigs (acc_db s))\<rparr>\<rparr>))"

section \<open>Connection tests\<close>

text \<open>The answer to the probe, \<open>Inl\<close> when \<open>fetch\<close> throws or times out.\<close>

definition error_message :: "exn \<Rightarrow> string" where
  "error_message x = (case x of JsError m \<Rightarrow> m | AppError _ m \<Rightarrow> m | _ \<Rightarrow> [])"

definition message_or_status :: "http_response \<Rightarrow> json" where
  "message_or_status r =
     (case json_get (coalesce (rp_body r) (JObj [])) ''message'' of
        Inl x \<Rightarrow> JStr (error_message x)
      | Inr m \<Rightarrow> coalesce m (JStr (''HTTP '' @ show_nat (nat (rp_status r)))))"

definition naps_testConnection :: "http_response result \<Rightarrow> bool \<times> json option" where
  "naps_testConnection response =
     (case response of
        Inl x \<Rightarrow> (False, Some (JStr (error_message x)))
      | Inr r \<Rightarrow> if response_ok r then (True, None) else (False, Some (message_or_status r)))"

definition vps_testConnection :: "http_response result \<Rightarrow> bool \<times> json option" where
  "vps_testConnection response =
     (case response of
        Inl x \<Rightarrow> (False, Some (JStr (error_message x)))
      | Inr r \<Rightarrow>
          if response_ok r \<or> rp_status r = 404 then (True, None)
          else if rp_status r = 401 \<or> rp_status r = 403 then (False, Some (JStr ''Invalid credentials (authentication rejected)''))
          else (False, Some (message_or_status r)))"

text \<open>The outcome of \<open>stripe.balance.retrieve()\<close>.\<close>

definition stripe_testConnection :: "unit result \<Rightarrow> bool \<times> json option" where
  "stripe_testConnection balance = (case balance of Inr _ \<Rightarrow> (True, None) | Inl x \<Rightarrow> (False, Some (JStr (error_message x))))"

definition fake_testConnection :: "bool \<times> json option" where
  "fake_testConnection = (True, None)"

text \<open>
  \<open>getAdapter(p, x).testConnection()\<close>: \<open>dec\<close> decrypts the credentials; \<open>naps\<close>, \<open>vps\<close> and \<open>stripe\<close> are the answers to the
  probes of the three providers.
\<close>

definition adapter_test ::
  "bool \<Rightarrow> (string \<Rightarrow> json result) \<Rightarrow> (json \<Rightarrow> http_response result) \<Rightarrow> (json \<Rightarrow> http_response result) \<Rightarrow> (json \<Rightarrow> unit result)
    \<Rightarrow> provider \<Rightarrow> string \<Rightarrow> (bool \<times> json option) result" where
  "adapter_test demoMode dec naps vps stripe p x =
     (if demoMode then Inr fake_testConnection
      else ebind (dec x) (\<lambda>credentials.
        case p of
          NAPS \<Rightarrow> Inr (naps_testConnection (naps credentials))
        | VPS \<Rightarrow> Inr (vps_testConnection (vps credentials))
        | STRIPE \<Rightarrow> Inr (stripe_testConnection (stripe credentials))
        | PAYPAL \<Rightarrow> Inl (JsError ''Provider PAYPAL is not yet implemented'')
        | ADYEN \<Rightarrow> Inl (JsError ''Provider ADYEN is not yet implemented'')))"

section \<open>Sequences of requests\<close>

text \<open>Any of the requests that change configurations, by any caller, or anything else that leaves the configurations alone.\<close>

inductive config_run :: "(string \<Rightarrow> bool) \<Rightarrow> (json \<Rightarrow> string result) \<Rightarrow> accounts \<Rightarrow> accounts \<Rightarrow> bool" for is_url enc where
  none: "config_run is_url enc s s"
| save: "config_run is_url enc s s1 \<Longrightarrow> config_run is_url enc s (snd (saveProviderConfig is_url enc e body u s1))"
| toggle: "config_run is_url enc s s1 \<Longrightarrow> config_run is_url enc s (snd (toggleProviderConfig i enabled u s1))"
| test: "config_run is_url enc s s1 \<Longrightarrow> config_run is_url enc s (snd (testProviderConfig probe i u s1))"
| delete: "config_run is_url enc s s1 \<Longrightarrow> config_run is_url enc s (snd (deleteProviderConfig i u s1))"
| other: "config_run is_url enc s s1 \<Longrightarrow> providerConfigs (acc_db s2) = providerConfigs (acc_db s1) \<Longrightarrow> config_run is_url enc s s2"

text \<open>The contract of these requests: whatever the rows were, each row stored afterwards has credentials that were there before or were encrypted from a checked body.\<close>

definition checked_credentials :: "(string \<Rightarrow> bool) \<Rightarrow> (json \<Rightarrow> string result) \<Rightarrow> provider \<Rightarrow> string \<Rightarrow> bool" where
  "checked_credentials is_url enc p x \<longleftrightarrow>
     (\<exists>raw j. parse_object is_url (if p = NAPS then napsCredentialsSchema else if p = STRIPE then stripeCredentialsSchema else vpsCredentialsSchema) raw = Inr j \<and>
        enc j = Inr x)"

definition configs_checked :: "(string \<Rightarrow> bool) \<Rightarrow> (json \<Rightarrow> string result) \<Rightarrow> provider_config list \<Rightarrow> bool" where
  "configs_checked is_url enc cs \<longleftrightarrow> list_all (\<lambda>c. checked_credentials is_url enc (pc_provider c) (pc_encryptedCredentials c)) cs"

abbreviation configs :: "accounts \<Rightarrow> provider_config list" where
  "configs s \<equiv> providerConfigs (acc_db s)"

locale config_request =
  fixes request :: "req_user \<Rightarrow> accounts \<Rightarrow> 'a result \<times> accounts" and is_url :: "string \<Rightarrow> bool" and enc :: "json \<Rightarrow> string result"
  assumes keeps_checked: "configs_checked is_url enc (configs s) \<Longrightarrow> configs_checked is_url enc (configs (snd (request u s)))"

lemma audit_as_configs [simp]: "configs (snd (audit_as t u a ty i s)) = configs s"
  by (simp add: audit_as_def audit_def)

lemma config_input_checked:
  "config_input is_url enc body = Inr (p, j, x) \<Longrightarrow> checked_credentials is_url enc p x"
  by (auto simp: config_input_def body_credentials_def checked_credentials_def Let_def split: if_splits)

lemma list_all_update: "(\<And>x. P (f x) = P x) \<Longrightarrow> list_all P (map (\<lambda>x. if Q x then f x else x) xs) = list_all P xs"
  by (induction xs) auto

lemma set_config_status_checked [simp]: "configs_checked is_url enc (configs (set_config_status i st s)) = configs_checked is_url enc (configs s)"
  by (simp add: configs_checked_def set_config_status_def list_all_update)

lemma upsert_config_checked:
  assumes "configs_checked is_url enc (configs s)" "checked_credentials is_url enc p x"
  shows "configs_checked is_url enc (configs (snd (snd (upsert_config e t p x s))))"
  using assms
  by (auto simp: upsert_config_def configs_checked_def list.pred_map list_all_iff bump_def Let_def split: option.splits if_splits)

interpretation save_config: config_request "saveProviderConfig is_url enc e body" is_url enc for is_url enc e body
proof unfold_locales
  fix s u
  assume old: "configs_checked is_url enc (configs s)"
  show "configs_checked is_url enc (configs (snd (saveProviderConfig is_url enc e body u s)))"
  proof (cases "config_input is_url enc body")
    case (Inr r)
    obtain p j x where r: "r = (p, j, x)" by (cases r)
    have "checked_credentials is_url enc p x" by (rule config_input_checked [OF Inr [unfolded r]])
    with old have "configs_checked is_url enc (configs (snd (snd (upsert_config e (ru_tenantId u) p x s))))" by (rule upsert_config_checked)
    then show ?thesis by (simp add: saveProviderConfig_def Inr r sbind_answer case_prod_beta)
  qed (use old in \<open>simp add: saveProviderConfig_def\<close>)
qed

interpretation toggle_config: config_request "toggleProviderConfig i enabled" is_url enc for i enabled is_url enc
  by unfold_locales (auto simp: toggleProviderConfig_def sbind_answer Let_def split: option.split)

interpretation test_config: config_request "testProviderConfig probe i" is_url enc for probe i is_url enc
  by unfold_locales (auto simp: testProviderConfig_def sbind_answer Let_def split: option.split sum.split)

interpretation delete_config: config_request "deleteProviderConfig i" is_url enc for i is_url enc
  by unfold_locales (auto simp: deleteProviderConfig_def configs_checked_def list_all_iff split: option.split)

lemma config_run_checked:
  assumes "config_run is_url enc s s'" "configs_checked is_url enc (configs s)"
  shows "configs_checked is_url enc (configs s')"
  using assms
  by (induction rule: config_run.induct)
     (simp_all add: save_config.keeps_checked toggle_config.keeps_checked test_config.keeps_checked delete_config.keeps_checked)

section \<open>Properties\<close>

lemma parse_object_keys:
  assumes "parse_object is_url schema raw = Inr j" "k \<notin> fst ` set schema"
  shows "own_value j k = None"
proof -
  obtain kvs where "j = JObj (List.map_filter (\<lambda>(k, kind). map_option (Pair k) (map_of kvs k)) schema)"
    using assms(1) by (auto simp: parse_object_def split: json.splits if_splits)
  moreover have "k \<notin> fst ` set (List.map_filter (\<lambda>(k, kind). map_option (Pair k) (map_of kvs k)) schema)"
    using assms(2) by (force simp: List.map_filter_def)
  ultimately show ?thesis by (simp add: own_value_def map_of_eq_None_iff)
qed

lemma stripe_keeps_no_account:
  assumes "checked_credentials is_url enc STRIPE x" "\<And>j x. enc j = Inr x \<Longrightarrow> dec x = Inr j"
  shows "\<exists>j. dec x = Inr j \<and> own_value j ''connectedAccountId'' = None"
proof -
  obtain raw j where j: "parse_object is_url stripeCredentialsSchema raw = Inr j" "enc j = Inr x"
    using assms(1) by (auto simp: checked_credentials_def)
  have "''connectedAccountId'' \<notin> fst ` set stripeCredentialsSchema" by (simp add: stripeCredentialsSchema_def)
  from parse_object_keys [OF j(1) this] assms(2) [OF j(2)] show ?thesis by blast
qed

text \<open>
  Payouts over Stripe Connect cannot be set up through the API. The adapter takes the connected account from the stored
  credentials, and the schema by which every request's credentials are read drops that field. After any sequence of requests from
  an empty table, processing a payout of a tenant on that rail fails and sends no transfer (outside the demo mode).
\<close>

lemma connect_account_unconfigurable:
  assumes "config_run is_url enc s s'" "configs s = []" "\<And>j x. enc j = Inr x \<Longrightarrow> dec x = Inr j"
    "credentials = (\<lambda>x. ebind (dec x) (\<lambda>j. Inr (json_string (own_value j ''connectedAccountId''))))"
    "payout_rail_of (acc_db s') t = STRIPE_CONNECT"
    "processPayout (payout_adapter False credentials transfersCreate) race e t u i body (acc_db s', sent) = (r, d', sent')"
  shows "\<not> is_ok r \<and> sent' = sent"
proof -
  have checked: "configs_checked is_url enc (configs s')"
    using config_run_checked [OF assms(1)] assms(2) by (simp add: configs_checked_def)
  have connect: "\<not> is_ok r \<and> sent' = sent"
    if run: "process_connect (payout_adapter False credentials transfersCreate) race e t u p (acc_db s', sent) = (r, d', sent')" for p
  proof (cases "tenant_config t (po_provider p) (acc_db s')")
    case None
    then show ?thesis using run by (auto simp: process_connect_def)
  next
    case (Some c)
    have c: "c \<in> set (configs s')" "pc_provider c = po_provider p" using find_SomeD [OF Some [unfolded tenant_config_def]] by auto
    have account: "credentials (pc_encryptedCredentials c) = Inr None" if stripe: "po_provider p = STRIPE"
    proof -
      have "checked_credentials is_url enc STRIPE (pc_encryptedCredentials c)"
        using checked c stripe by (auto simp: configs_checked_def list_all_iff)
      then obtain j where "dec (pc_encryptedCredentials c) = Inr j" "own_value j ''connectedAccountId'' = None"
        using stripe_keeps_no_account assms(3) by meson
      then show ?thesis by (simp add: assms(4) json_string_def)
    qed
    show ?thesis
      using run Some account
      by (cases "po_provider p"; cases "credentials (pc_encryptedCredentials c)")
         (auto simp: process_connect_def payout_adapter_def naps_createPayout_def vps_createPayout_def stripe_createPayout_def)
  qed
  show ?thesis
  proof (cases "getPayout (acc_db s') t i")
    case None
    then show ?thesis using assms(6) by (auto simp: processPayout_def)
  next
    case (Some row)
    then show ?thesis using connect assms(5,6) by (cases row) (simp add: processPayout_def)
  qed
qed

lemma own_config_after:
  assumes "own_config i u s = Some c" "users s' = users s" "configs s' = map (\<lambda>c. if pc_id c = i then c\<lparr>pc_status := st\<rparr> else c) (configs s)"
  shows "own_config i u s' = Some (c\<lparr>pc_status := st\<rparr>)"
proof -
  have "pc_id c = i" using find_SomeD [OF assms(1) [unfolded own_config_def]] by simp
  then show ?thesis
    using find_cong_update [of "\<lambda>c. pc_id c = i \<and> pc_tenantId c = ru_tenantId u" "\<lambda>c. c\<lparr>pc_status := st\<rparr>" "\<lambda>c. pc_id c = i" "configs s"] assms
    by (simp add: own_config_def)
qed

lemma toggle_run:
  assumes "own_config i u s = Some c" "list_ex (\<lambda>x. us_id x = ru_id u) (users s)" "enabled \<Longrightarrow> pc_status c \<notin> {CONFIG_MISSING, CONFIG_INVALID}"
  defines "st \<equiv> if enabled then CONFIG_CONNECTED else CONFIG_DISABLED"
  obtains s1 where "toggleProviderConfig i enabled u s = (Inr st, s1)" "own_config i u s1 = Some (c\<lparr>pc_status := st\<rparr>)" "users s1 = users s"
proof -
  have i: "pc_id c = i" using find_SomeD [OF assms(1) [unfolded own_config_def]] by simp
  define s1 where "s1 = snd (audit_as (ru_tenantId u) u (if enabled then ''PROVIDER_CONFIG_ENABLED'' else ''PROVIDER_CONFIG_DISABLED'') ''ProviderConfig'' i
    (set_config_status i st s))"
  have "users (set_config_status i st s) = users s" by (simp add: set_config_status_def)
  then have "toggleProviderConfig i enabled u s = (Inr st, s1)"
    using assms(1-3) by (auto simp: toggleProviderConfig_def i s1_def st_def audit_as_def)
  moreover have "users s1 = users s" "configs s1 = map (\<lambda>c. if pc_id c = i then c\<lparr>pc_status := st\<rparr> else c) (configs s)"
    by (simp_all add: s1_def audit_as_frame set_config_status_def)
  moreover from this have "own_config i u s1 = Some (c\<lparr>pc_status := st\<rparr>)" by (rule own_config_after [OF assms(1)])
  ultimately show thesis using that by blast
qed

text \<open>
  The connection test can be left out. Enabling a configuration that was never tested, or failed its test, is refused; but
  disabling it first is accepted whatever its status, and enabling it then makes it CONNECTED, although its credentials never
  passed a test.
\<close>

lemma untested_config_enabled:
  assumes "own_config i u s = Some c" "list_ex (\<lambda>x. us_id x = ru_id u) (users s)" "pc_status c \<in> {CONFIG_MISSING, CONFIG_INVALID}"
  shows "(\<exists>code. toggleProviderConfig i True u s = (Inl (AppError 409 code), s)) \<and>
    (\<exists>s1 s2. toggleProviderConfig i False u s = (Inr CONFIG_DISABLED, s1) \<and> toggleProviderConfig i True u s1 = (Inr CONFIG_CONNECTED, s2) \<and>
       own_config i u s2 = Some (c\<lparr>pc_status := CONFIG_CONNECTED\<rparr>))"
proof -
  obtain s1 where off: "toggleProviderConfig i False u s = (Inr CONFIG_DISABLED, s1)" "own_config i u s1 = Some (c\<lparr>pc_status := CONFIG_DISABLED\<rparr>)"
      "users s1 = users s"
    using toggle_run [of i u s c False] assms(1,2) by auto
  obtain s2 where "toggleProviderConfig i True u s1 = (Inr CONFIG_CONNECTED, s2)" "own_config i u s2 = Some (c\<lparr>pc_status := CONFIG_CONNECTED\<rparr>)"
    using toggle_run [of i u s1 "c\<lparr>pc_status := CONFIG_DISABLED\<rparr>" True] off(2,3) assms(2) by auto
  with off(1) assms(1,3) show ?thesis by (auto simp: toggleProviderConfig_def)
qed

end
