(* ===== verification/Onboarding.thy ===== *)
theory Onboarding
  imports Schema StatusMachine
begin

text \<open>
  \<open>src/lib/onboarding.ts\<close> and \<open>onboarding-db.ts\<close>: the merchant's application, its review states, the risk tier and the
  settlement policy that the industry selects.
\<close>

section \<open>Rules\<close>

definition ONBOARDING_STATUSES :: "onboarding_status list" where
  "ONBOARDING_STATUSES =
     [ONBOARDING_DRAFT, ONBOARDING_SUBMITTED, ONBOARDING_APPROVED, ONBOARDING_REJECTED, ONBOARDING_NEEDS_INFO]"

definition RISK_TIERS :: "risk_tier list" where
  "RISK_TIERS = [TIER_LOW, TIER_MEDIUM, TIER_HIGH]"

fun onboarding_TRANSITIONS :: "onboarding_status \<Rightarrow> onboarding_status list" where
  "onboarding_TRANSITIONS ONBOARDING_DRAFT = [ONBOARDING_SUBMITTED]"
| "onboarding_TRANSITIONS ONBOARDING_SUBMITTED = [ONBOARDING_APPROVED, ONBOARDING_REJECTED, ONBOARDING_NEEDS_INFO]"
| "onboarding_TRANSITIONS ONBOARDING_APPROVED = []"
| "onboarding_TRANSITIONS ONBOARDING_REJECTED = [ONBOARDING_SUBMITTED]"
| "onboarding_TRANSITIONS ONBOARDING_NEEDS_INFO = [ONBOARDING_SUBMITTED]"

definition onboarding_canTransition :: "onboarding_status \<Rightarrow> onboarding_status \<Rightarrow> bool" where
  "onboarding_canTransition s s' \<longleftrightarrow> s' \<in> set (onboarding_TRANSITIONS s)"

definition onboarding_assertTransition :: "onboarding_status \<Rightarrow> onboarding_status \<Rightarrow> unit result" where
  "onboarding_assertTransition s s' =
     require (onboarding_canTransition s s') (OnboardingError 409 ''ONBOARDING_CONFLICT'')"

interpretation onboarding_sm: status_machine onboarding_canTransition "\<lambda>s. s = ONBOARDING_APPROVED"
proof unfold_locales
  show "\<not> onboarding_canTransition s t" if "s = ONBOARDING_APPROVED" for s t
    using that by (simp add: onboarding_canTransition_def)
  show "\<exists>t. onboarding_canTransition s t" if "s \<noteq> ONBOARDING_APPROVED" for s
    using that by (cases s) (auto simp: onboarding_canTransition_def)
qed

record onboarding_fields =
  of_legalName :: "string option"
  of_entityType :: "string option"
  of_registrationNumber :: "string option"
  of_country :: "string option"
  of_businessAddress :: "string option"
  of_website :: "string option"
  of_contactEmail :: "string option"
  of_industry :: "string option"
  of_mcc :: "string option"
  of_riskTier :: "risk_tier option"

text \<open>\<open>s.trim() === ''''\<close>: only white space (of the 8-bit characters).\<close>

definition is_white :: "char \<Rightarrow> bool" where
  "is_white c \<longleftrightarrow> of_char c \<in> {9, 10, 11, 12, 13, 32, 160 :: nat}"

definition missing :: "string option \<Rightarrow> bool" where
  "missing v = (case v of None \<Rightarrow> True | Some s \<Rightarrow> list_all is_white s)"

definition REQUIRED_SUBMIT_FIELDS :: "(merchant_onboarding \<Rightarrow> string option) list" where
  "REQUIRED_SUBMIT_FIELDS = [ob_legalName, ob_entityType, ob_country, ob_industry, ob_mcc]"

definition validateOnboarding :: "merchant_onboarding \<Rightarrow> unit result" where
  "validateOnboarding row =
     (if list_ex (\<lambda>key. missing (key row)) REQUIRED_SUBMIT_FIELDS
      then Inl (OnboardingError 422 ''ONBOARDING_INCOMPLETE'') else Inr ())"

definition suggestedRiskTier :: "string option \<Rightarrow> risk_tier" where
  "suggestedRiskTier ind =
     (if ind \<in> {Some ''travel'', Some ''lending''} then TIER_HIGH
      else if ind \<in> {Some ''marketplace'', Some ''on_demand''} then TIER_MEDIUM
      else if ind \<in> {Some ''saas'', Some ''retail'', Some ''escrow''} then TIER_LOW
      else TIER_MEDIUM)"

definition policySpecForIndustry :: "string option \<Rightarrow> string option \<Rightarrow> policy_spec" where
  "policySpecForIndustry ind mccCode =
     (let preset = presetForIndustry ind; resolved = resolvePolicy preset no_overrides
      in resolved\<lparr>industry := or_else ind (Some (pre_industry preset)), mcc := or_else mccCode (pre_mcc preset)\<rparr>)"

section \<open>Persistence\<close>

definition getOnboarding :: "db \<Rightarrow> string \<Rightarrow> merchant_onboarding option" where
  "getOnboarding d tenantId = find (\<lambda>r. ob_tenantId r = tenantId) (onboardings d)"

definition update_onboarding :: "string \<Rightarrow> (merchant_onboarding \<Rightarrow> merchant_onboarding) \<Rightarrow> db \<Rightarrow> db" where
  "update_onboarding tenantId f d = d\<lparr>onboardings := map (\<lambda>r. if ob_tenantId r = tenantId then f r else r) (onboardings d)\<rparr>"

definition upsertOnboarding :: "env \<Rightarrow> string \<Rightarrow> onboarding_fields \<Rightarrow> db \<Rightarrow> db" where
  "upsertOnboarding e tenantId input d =
     (let tier = coalesce (of_riskTier input) (suggestedRiskTier (of_industry input));
          fill = (\<lambda>r. r\<lparr>ob_legalName := of_legalName input, ob_entityType := of_entityType input,
                        ob_registrationNumber := of_registrationNumber input, ob_country := of_country input,
                        ob_businessAddress := of_businessAddress input, ob_website := of_website input,
                        ob_contactEmail := of_contactEmail input, ob_industry := of_industry input,
                        ob_mcc := of_mcc input, ob_riskTier := tier\<rparr>)
      in if getOnboarding d tenantId = None
         then (bump d)\<lparr>onboardings := onboardings d @
                [fill \<lparr>ob_id = fresh e d, ob_tenantId = tenantId, ob_status = ONBOARDING_DRAFT, ob_legalName = None,
                       ob_entityType = None, ob_registrationNumber = None, ob_country = None, ob_businessAddress = None,
                       ob_website = None, ob_contactEmail = None, ob_industry = None, ob_mcc = None,
                       ob_riskTier = TIER_MEDIUM, ob_submittedAt = None, ob_reviewerId = None, ob_reviewNotes = None,
                       ob_rejectionReason = None, ob_approvedAt = None\<rparr>]\<rparr>
         else update_onboarding tenantId fill d)"

definition submitOnboarding :: "env \<Rightarrow> string \<Rightarrow> db \<Rightarrow> db result" where
  "submitOnboarding e tenantId d =
     (case getOnboarding d tenantId of
        None \<Rightarrow> Inl (OnboardingError 404 ''ONBOARDING_NOT_FOUND'')
      | Some r \<Rightarrow>
          ebind (onboarding_assertTransition (ob_status r) ONBOARDING_SUBMITTED) (\<lambda>_.
          ebind (validateOnboarding r) (\<lambda>_.
            Inr (update_onboarding tenantId (\<lambda>r. r\<lparr>ob_status := ONBOARDING_SUBMITTED, ob_submittedAt := Some (now e)\<rparr>) d))))"

definition approveOnboarding :: "env \<Rightarrow> string \<Rightarrow> string \<Rightarrow> db \<Rightarrow> (policy_spec \<times> db) result" where
  "approveOnboarding e tenantId reviewerId d =
     (case getOnboarding d tenantId of
        None \<Rightarrow> Inl (OnboardingError 404 ''ONBOARDING_NOT_FOUND'')
      | Some r \<Rightarrow>
          ebind (onboarding_assertTransition (ob_status r) ONBOARDING_APPROVED) (\<lambda>_.
            Inr (policySpecForIndustry (ob_industry r) (ob_mcc r),
                 update_onboarding tenantId
                   (\<lambda>r. r\<lparr>ob_status := ONBOARDING_APPROVED, ob_approvedAt := Some (now e), ob_reviewerId := Some reviewerId\<rparr>) d)))"

definition rejectOnboarding :: "string \<Rightarrow> string \<Rightarrow> string \<Rightarrow> db \<Rightarrow> db result" where
  "rejectOnboarding tenantId reviewerId reason d =
     (case getOnboarding d tenantId of
        None \<Rightarrow> Inl (OnboardingError 404 ''ONBOARDING_NOT_FOUND'')
      | Some r \<Rightarrow>
          ebind (onboarding_assertTransition (ob_status r) ONBOARDING_REJECTED) (\<lambda>_.
            Inr (update_onboarding tenantId
              (\<lambda>r. r\<lparr>ob_status := ONBOARDING_REJECTED, ob_reviewerId := Some reviewerId, ob_rejectionReason := Some reason\<rparr>) d)))"

definition requestInfoOnboarding :: "string \<Rightarrow> string \<Rightarrow> string \<Rightarrow> db \<Rightarrow> db result" where
  "requestInfoOnboarding tenantId reviewerId notes d =
     (case getOnboarding d tenantId of
        None \<Rightarrow> Inl (OnboardingError 404 ''ONBOARDING_NOT_FOUND'')
      | Some r \<Rightarrow>
          ebind (onboarding_assertTransition (ob_status r) ONBOARDING_NEEDS_INFO) (\<lambda>_.
            Inr (update_onboarding tenantId
              (\<lambda>r. r\<lparr>ob_status := ONBOARDING_NEEDS_INFO, ob_reviewerId := Some reviewerId, ob_reviewNotes := Some notes\<rparr>) d)))"

section \<open>Sequences of operations\<close>

inductive onboarding_step :: "string \<Rightarrow> db \<Rightarrow> db \<Rightarrow> bool" for t where
  upsert: "onboarding_step t d (upsertOnboarding e t input d)"
| submit: "submitOnboarding e t d = Inr d' \<Longrightarrow> onboarding_step t d d'"
| approve: "approveOnboarding e t reviewer d = Inr (spec, d') \<Longrightarrow> onboarding_step t d d'"
| reject: "rejectOnboarding t reviewer reason d = Inr d' \<Longrightarrow> onboarding_step t d d'"
| request_info: "requestInfoOnboarding t reviewer notes d = Inr d' \<Longrightarrow> onboarding_step t d d'"

lemma getOnboarding_update:
  "(\<And>r. ob_tenantId (f r) = ob_tenantId r) \<Longrightarrow>
     getOnboarding (update_onboarding t f d) u = (if u = t then map_option f (getOnboarding d t) else getOnboarding d u)"
  by (simp add: getOnboarding_def update_onboarding_def find_update_key)

lemma step_status:
  assumes "onboarding_step t d d'" "getOnboarding d t = Some r"
  shows "\<exists>r'. getOnboarding d' t = Some r' \<and> (ob_status r' = ob_status r \<or> onboarding_canTransition (ob_status r) (ob_status r'))"
  using assms
  by cases (auto simp: upsertOnboarding_def submitOnboarding_def approveOnboarding_def rejectOnboarding_def requestInfoOnboarding_def
      onboarding_assertTransition_def getOnboarding_update Let_def)

lemma steps_status:
  assumes "(onboarding_step t)\<^sup>*\<^sup>* d d'" "getOnboarding d t = Some r"
  shows "\<exists>r'. getOnboarding d' t = Some r' \<and> onboarding_canTransition\<^sup>*\<^sup>* (ob_status r) (ob_status r')"
  using assms
proof (induction rule: rtranclp_induct)
  case (step d1 d2)
  then obtain r1 where "getOnboarding d1 t = Some r1" "onboarding_canTransition\<^sup>*\<^sup>* (ob_status r) (ob_status r1)" by blast
  with step_status [OF step.hyps(2)] show ?case by (metis rtranclp.rtrancl_into_rtrancl)
qed auto

lemma policySpecForIndustry_valid: "validatePolicy (policySpecForIndustry ind m) = Inr ()"
  using presets_valid [of ind] unfolding policySpecForIndustry_def Let_def validatePolicy_ok by simp

section \<open>Properties\<close>

text \<open>
  Review of an application. Whatever the merchant and the reviewers do, the status of an application only moves along
  the transition table, so an approved application stays approved, and submission, approval, rejection and requests for
  information are refused from then on. An application is approved only from SUBMITTED, and approval returns a settlement
  policy that passes validation and carries the industry and category code of the application.
\<close>

lemma onboarding_review:
  assumes "getOnboarding d t = Some r" "approveOnboarding e t reviewer d = Inr (spec, d1)" "(onboarding_step t)\<^sup>*\<^sup>* d1 d2"
  shows "ob_status r = ONBOARDING_SUBMITTED \<and> validatePolicy spec = Inr () \<and>
    (\<forall>i. ob_industry r = Some i \<longrightarrow> industry spec = Some i) \<and> (\<forall>m. ob_mcc r = Some m \<longrightarrow> mcc spec = Some m) \<and>
    (\<exists>r2. getOnboarding d2 t = Some r2 \<and> ob_status r2 = ONBOARDING_APPROVED) \<and>
    \<not> is_ok (submitOnboarding e' t d2) \<and> \<not> is_ok (approveOnboarding e' t v d2) \<and>
    \<not> is_ok (rejectOnboarding t v x d2) \<and> \<not> is_ok (requestInfoOnboarding t v x d2)"
proof -
  from assms(1,2) have sub: "onboarding_canTransition (ob_status r) ONBOARDING_APPROVED"
    and spec: "spec = policySpecForIndustry (ob_industry r) (ob_mcc r)"
    and d1: "\<exists>r1. getOnboarding d1 t = Some r1 \<and> ob_status r1 = ONBOARDING_APPROVED"
    by (auto simp: approveOnboarding_def onboarding_assertTransition_def getOnboarding_update)
  from sub have "ob_status r = ONBOARDING_SUBMITTED" by (cases "ob_status r") (auto simp: onboarding_canTransition_def)
  moreover from d1 steps_status [OF assms(3)] obtain r2 where
    r2: "getOnboarding d2 t = Some r2" "onboarding_canTransition\<^sup>*\<^sup>* ONBOARDING_APPROVED (ob_status r2)" by auto
  then have "ob_status r2 = ONBOARDING_APPROVED" using onboarding_sm.terminal_absorbing [OF refl] by blast
  ultimately show ?thesis
    using r2(1) policySpecForIndustry_valid spec
    by (auto simp: submitOnboarding_def approveOnboarding_def rejectOnboarding_def requestInfoOnboarding_def
        onboarding_assertTransition_def onboarding_canTransition_def policySpecForIndustry_def Let_def)
qed

text \<open>
  The draft operation is not guarded by the status. An approved application can be overwritten by the merchant: it
  stays approved although the data it was approved with is gone and would no longer pass the check of a submission.
\<close>

lemma approved_application_overwritten:
  fixes blank :: onboarding_fields
  assumes "getOnboarding d t = Some r" "ob_status r = ONBOARDING_APPROVED"
  defines "blank \<equiv> \<lparr>of_legalName = None, of_entityType = None, of_registrationNumber = None, of_country = None,
    of_businessAddress = None, of_website = None, of_contactEmail = None, of_industry = None, of_mcc = None, of_riskTier = None\<rparr>"
  shows "\<exists>r'. getOnboarding (upsertOnboarding e t blank d) t = Some r' \<and> ob_status r' = ONBOARDING_APPROVED \<and>
    ob_legalName r' = None \<and> validateOnboarding r' = Inl (OnboardingError 422 ''ONBOARDING_INCOMPLETE'')"
  using assms
  by (auto simp: upsertOnboarding_def Let_def getOnboarding_update validateOnboarding_def REQUIRED_SUBMIT_FIELDS_def missing_def)

end
