(* ===== verification/FinanceRoutes.thy ===== *)
theory FinanceRoutes
  imports Accounts PayoutRoute Reconciliation Statements Onboarding Journal
begin

text \<open>
  The requests of the finance engine: \<open>src/routes/wallets.ts\<close>, \<open>disputes.ts\<close>, \<open>splits.ts\<close>, \<open>reconciliation.ts\<close>, \<open>statements.ts\<close>,
  \<open>onboarding.ts\<close>, \<open>fee-schedules.ts\<close>, \<open>settlement-policies.ts\<close>, \<open>finance-config.ts\<close>, \<open>ledger.ts\<close> and \<open>settlement.ts\<close>, with their
  schemas, and \<open>src/middleware/errorHandler.ts\<close>, which turns errors into answers. Each handler checks the body, runs the operation of
  the library for the tenant of the caller and shapes the answer. Whole numbers are \<open>int\<close>, so that \<open>z.number().int()\<close> is the type;
  a currency is one of the supported ones. An answer is the stored row, with the amounts converted as the code converts them; the
  times at which a row was written are not part of it, and lists ordered by them follow the order in which rows were added.
\<close>

section \<open>Errors\<close>

definition errorHandler :: "exn \<Rightarrow> nat \<times> string" where
  "errorHandler err =
     (case err of
        AppError status code \<Rightarrow> (status, code)
      | OnboardingError status code \<Rightarrow> (status, code)
      | _ \<Rightarrow> (500, ''INTERNAL_ERROR''))"

text \<open>\<open>run\<close> of the wallet routes.\<close>

definition wallet_run :: "'a result \<Rightarrow> 'a result" where
  "wallet_run r =
     (case r of
        Inl (WalletError m code) \<Rightarrow>
          Inl (AppError (if code = ''WALLET_NOT_FOUND'' then 404
                         else if code = ''WALLET_NOT_ACTIVE'' \<or> code = ''WALLET_INSUFFICIENT_BALANCE'' then 409 else 400) code)
      | _ \<Rightarrow> r)"

section \<open>Handlers\<close>

definition body_ok :: "bool \<Rightarrow> unit result" where
  "body_ok b = require b (AppError 422 ''VALIDATION_ERROR'')"

definition text_ok :: "nat \<Rightarrow> nat \<Rightarrow> string \<Rightarrow> bool" where
  "text_ok lo hi v \<longleftrightarrow> lo \<le> length v \<and> length v \<le> hi"

definition opt_ok :: "('a \<Rightarrow> bool) \<Rightarrow> 'a option \<Rightarrow> bool" where
  "opt_ok p v = (case v of None \<Rightarrow> True | Some x \<Rightarrow> p x)"

text \<open>A handler whose work is one transaction of the library, and one that only reads.\<close>

definition transact :: "(db \<Rightarrow> ('a \<times> db) result) \<Rightarrow> 'a account_step" where
  "transact f s = (case f (acc_db s) of Inl x \<Rightarrow> (Inl x, s) | Inr (a, d) \<Rightarrow> (Inr a, s\<lparr>acc_db := d\<rparr>))"

definition reading :: "(db \<Rightarrow> 'a result) \<Rightarrow> 'a account_step" where
  "reading f s = (f (acc_db s), s)"

definition found :: "exn \<Rightarrow> 'a option \<Rightarrow> 'a result" where
  "found err v = (case v of None \<Rightarrow> Inl err | Some x \<Rightarrow> Inr x)"

text \<open>\<open>madToCentimes\<close> of a stored decimal.\<close>

definition shown_cents :: "centimes \<Rightarrow> currency \<Rightarrow> centimes" where
  "shown_cents n c = madToCentimes (fromMinor n c)"

subsection \<open>Wallets\<close>

definition toWalletResponse :: "wallet \<Rightarrow> wallet" where
  "toWalletResponse w = w\<lparr>wl_balance := shown_cents (wl_balance w) (wl_currency w)\<rparr>"

definition toTransactionResponse :: "wallet_transaction \<Rightarrow> wallet_transaction" where
  "toTransactionResponse x =
     x\<lparr>wt_amount := shown_cents (wt_amount x) (wt_currency x), wt_balanceAfter := shown_cents (wt_balanceAfter x) (wt_currency x)\<rparr>"

definition createWalletSchema :: "string \<Rightarrow> bool" where
  "createWalletSchema ownerId \<longleftrightarrow> text_ok 1 200 ownerId"

definition createWalletRequest :: "env \<Rightarrow> wallet_owner_type \<Rightarrow> string \<Rightarrow> currency option \<Rightarrow> req_user \<Rightarrow> wallet account_step" where
  "createWalletRequest e ownerType ownerId cur u =
     transact (\<lambda>d.
       ebind (body_ok (createWalletSchema ownerId)) (\<lambda>_.
       ebind (requireCapability d (ru_tenantId u) ''WALLET'') (\<lambda>_.
         (case createWallet e (ru_tenantId u) ownerType ownerId cur d of (w, d1) \<Rightarrow> Inr (toWalletResponse w, d1)))))"

definition listWalletsRequest :: "req_user \<Rightarrow> wallet list account_step" where
  "listWalletsRequest u = reading (\<lambda>d. Inr (map toWalletResponse (filter (\<lambda>w. wl_tenantId w = ru_tenantId u) (wallets d))))"

definition getWalletRequest :: "string \<Rightarrow> req_user \<Rightarrow> (wallet \<times> wallet_transaction list) account_step" where
  "getWalletRequest i u =
     reading (\<lambda>d. ebind (found (AppError 404 ''WALLET_NOT_FOUND'') (getWallet d (ru_tenantId u) i)) (\<lambda>(w, txs).
       Inr (toWalletResponse w, map toTransactionResponse txs)))"

text \<open>What the four money movements share: the body, the movement with its errors mapped, the answer.\<close>

definition wallet_request ::
  "bool \<Rightarrow> (db \<Rightarrow> ((wallet \<times> wallet_transaction) \<times> db) result) \<Rightarrow> (wallet \<times> wallet_transaction) account_step" where
  "wallet_request ok movement =
     transact (\<lambda>d.
       ebind (body_ok ok) (\<lambda>_.
       ebind (wallet_run (movement d)) (\<lambda>((w, x), d1). Inr ((toWalletResponse w, toTransactionResponse x), d1))))"

definition topUpWalletSchema :: "int \<Rightarrow> string option \<Rightarrow> bool" where
  "topUpWalletSchema amount paymentIntentId \<longleftrightarrow> 0 < amount \<and> opt_ok (text_ok 1 200) paymentIntentId"

definition topUpWalletRequest :: "env \<Rightarrow> string \<Rightarrow> int \<Rightarrow> string option \<Rightarrow> req_user \<Rightarrow> (wallet \<times> wallet_transaction) account_step" where
  "topUpWalletRequest e i amount paymentIntentId u =
     wallet_request (topUpWalletSchema amount paymentIntentId)
       (topUpWallet e (ru_tenantId u) i (centimes (of_int amount)) paymentIntentId)"

definition debitWalletSchema :: "int \<Rightarrow> string option \<Rightarrow> bool" where
  "debitWalletSchema amount meth \<longleftrightarrow> 0 < amount \<and> opt_ok (text_ok 1 50) meth"

definition debitWalletRequest :: "env \<Rightarrow> string \<Rightarrow> int \<Rightarrow> string option \<Rightarrow> req_user \<Rightarrow> (wallet \<times> wallet_transaction) account_step" where
  "debitWalletRequest e i amount meth u =
     wallet_request (debitWalletSchema amount meth) (debitWallet e (ru_tenantId u) i (centimes (of_int amount)) meth)"

definition refundWalletRequest :: "env \<Rightarrow> string \<Rightarrow> int \<Rightarrow> req_user \<Rightarrow> (wallet \<times> wallet_transaction) account_step" where
  "refundWalletRequest e i amount u =
     wallet_request (0 < amount) (refundWallet e (ru_tenantId u) i (centimes (of_int amount)))"

definition adjustWalletRequest :: "env \<Rightarrow> string \<Rightarrow> int \<Rightarrow> req_user \<Rightarrow> (wallet \<times> wallet_transaction) account_step" where
  "adjustWalletRequest e i amount u = wallet_request True (adjustWallet e (ru_tenantId u) i (centimes (of_int amount)))"

subsection \<open>Disputes\<close>

definition dispute_toResponse :: "dispute \<times> recovery option \<Rightarrow> dispute \<times> recovery option" where
  "dispute_toResponse = (\<lambda>(d, r).
     (d\<lparr>di_amount := shown_cents (di_amount d) (di_currency d), di_feeAmount := shown_cents (di_feeAmount d) (di_currency d)\<rparr>,
      map_option (\<lambda>r. r\<lparr>rc_amount := shown_cents (rc_amount r) (rc_currency r)\<rparr>) r))"

definition createDisputeSchema :: "create_dispute_input \<Rightarrow> bool" where
  "createDisputeSchema input \<longleftrightarrow>
     text_ok 1 200 (cd_providerDisputeId input) \<and> 0 \<le> cd_amountCents input \<and> opt_ok (\<lambda>n. 0 \<le> n) (cd_feeCents input) \<and>
     opt_ok (text_ok 0 500) (cd_reason input)"

definition createDisputeRequest :: "env \<Rightarrow> create_dispute_input \<Rightarrow> req_user \<Rightarrow> (dispute \<times> recovery option) account_step" where
  "createDisputeRequest e input u =
     transact (\<lambda>d.
       ebind (body_ok (createDisputeSchema input)) (\<lambda>_.
       ebind (createDispute e (ru_tenantId u) input d) (\<lambda>(r, d1). Inr (dispute_toResponse r, d1))))"

definition listDisputesRequest :: "req_user \<Rightarrow> (dispute \<times> recovery option) list account_step" where
  "listDisputesRequest u =
     reading (\<lambda>d. Inr (map (\<lambda>x. dispute_toResponse (x, recovery_of d (di_id x))) (rev (filter (\<lambda>x. di_tenantId x = ru_tenantId u) (disputes d)))))"

definition getDisputeRequest :: "string \<Rightarrow> req_user \<Rightarrow> (dispute \<times> recovery option) account_step" where
  "getDisputeRequest i u =
     reading (\<lambda>d. ebind (found (AppError 404 ''DISPUTE_NOT_FOUND'') (getDispute d (ru_tenantId u) i)) (\<lambda>r. Inr (dispute_toResponse r)))"

text \<open>The row is the one the update returned; the audit row follows in a write of its own.\<close>

definition resolveDisputeRequest :: "env \<Rightarrow> string \<Rightarrow> dispute_status \<Rightarrow> req_user \<Rightarrow> (dispute \<times> recovery option) account_step" where
  "resolveDisputeRequest e i outcome u s =
     sbind (transact (\<lambda>d.
         ebind (body_ok (outcome \<in> {DISPUTE_WON, DISPUTE_LOST})) (\<lambda>_.
         ebind (resolveDispute e (ru_tenantId u) i outcome d) (\<lambda>d1.
         ebind (found (JsError ''TypeError'') (getDispute d1 (ru_tenantId u) i)) (\<lambda>r. Inr (r, d1))))) s) (\<lambda>r s1.
       sbind (audit_as (ru_tenantId u) u ''DISPUTE_RESOLVED'' ''Dispute'' i s1) (\<lambda>_ s2. (Inr (dispute_toResponse r), s2)))"

subsection \<open>Splits\<close>

definition split_toResponse :: "split_row \<Rightarrow> split_row" where
  "split_toResponse r = r\<lparr>sl_amount := shown_cents (sl_amount r) (sl_currency r)\<rparr>"

definition createSplitPartyRequest :: "env \<Rightarrow> string \<Rightarrow> string \<Rightarrow> split_party_type option \<Rightarrow> req_user \<Rightarrow> split_party account_step" where
  "createSplitPartyRequest e slug name type u =
     transact (\<lambda>d. ebind (body_ok (text_ok 1 100 slug \<and> text_ok 1 200 name)) (\<lambda>_. createSplitParty e (ru_tenantId u) slug type d))"

definition listSplitPartiesRequest :: "req_user \<Rightarrow> split_party list account_step" where
  "listSplitPartiesRequest u = reading (\<lambda>d. Inr (filter (\<lambda>p. pt_tenantId p = ru_tenantId u) (splitParties d)))"

definition getSplitPartyRequest :: "string \<Rightarrow> req_user \<Rightarrow> split_party account_step" where
  "getSplitPartyRequest i u = reading (\<lambda>d. found (AppError 404 ''SPLIT_PARTY_NOT_FOUND'') (getSplitParty d (ru_tenantId u) i))"

definition deactivateSplitPartyRequest :: "string \<Rightarrow> req_user \<Rightarrow> split_party account_step" where
  "deactivateSplitPartyRequest i u =
     transact (\<lambda>d. ebind (deactivateSplitParty (ru_tenantId u) i d) (\<lambda>d1.
       ebind (found (JsError ''P2025'') (getSplitParty d1 (ru_tenantId u) i)) (\<lambda>r. Inr (r, d1))))"

text \<open>The shares of a rule: at least one, each a whole number of basis points from 1 to 10000, at most 10000 together.\<close>

definition sharesSchema :: "share_spec list \<Rightarrow> bool" where
  "sharesSchema shares \<longleftrightarrow>
     shares \<noteq> [] \<and>
     list_all (\<lambda>x. share_partyId x \<noteq> '''' \<and> Number_isInteger (shareBps x) \<and> 0 < shareBps x \<and> shareBps x \<le> 10000) shares \<and>
     (\<Sum>x\<leftarrow>shares. shareBps x) \<le> 10000"

definition createSplitRuleRequest :: "env \<Rightarrow> string \<Rightarrow> split_trigger option \<Rightarrow> share_spec list \<Rightarrow> req_user \<Rightarrow> split_rule account_step" where
  "createSplitRuleRequest e name trigger shares u =
     transact (\<lambda>d.
       ebind (body_ok (text_ok 1 200 name \<and> sharesSchema shares)) (\<lambda>_.
       ebind (requireCapability d (ru_tenantId u) ''MARKETPLACE_SPLITS'') (\<lambda>_. createSplitRule e (ru_tenantId u) name trigger shares d)))"

definition listSplitRulesRequest :: "req_user \<Rightarrow> split_rule list account_step" where
  "listSplitRulesRequest u = reading (\<lambda>d. Inr (filter (\<lambda>r. sr_tenantId r = ru_tenantId u) (splitRules d)))"

definition getSplitRuleRequest :: "string \<Rightarrow> req_user \<Rightarrow> split_rule account_step" where
  "getSplitRuleRequest i u = reading (\<lambda>d. found (AppError 404 ''SPLIT_RULE_NOT_FOUND'') (getSplitRule d (ru_tenantId u) i))"

definition deactivateSplitRuleRequest :: "string \<Rightarrow> req_user \<Rightarrow> split_rule account_step" where
  "deactivateSplitRuleRequest i u =
     transact (\<lambda>d. ebind (deactivateSplitRule (ru_tenantId u) i d) (\<lambda>d1.
       ebind (found (JsError ''P2025'') (getSplitRule d1 (ru_tenantId u) i)) (\<lambda>r. Inr (r, d1))))"

text \<open>The body has no currency: the operation takes MAD.\<close>

definition executeSplitSchema :: "execute_split_input \<Rightarrow> bool" where
  "executeSplitSchema input \<longleftrightarrow>
     text_ok 1 100 (xs_sourceType input) \<and> text_ok 1 200 (xs_sourceId input) \<and> 0 \<le> xs_sourceCents input \<and>
     opt_ok sharesSchema (xs_shares input)"

definition executeSplitRequest :: "(string \<Rightarrow> string \<Rightarrow> int) \<Rightarrow> env \<Rightarrow> execute_split_input \<Rightarrow> req_user \<Rightarrow> split_row list account_step" where
  "executeSplitRequest lc e input u =
     transact (\<lambda>d.
       ebind (body_ok (executeSplitSchema input)) (\<lambda>_.
       ebind (executeSplit lc e (ru_tenantId u)
               (input\<lparr>xs_sourceCents := centimes (of_int (xs_sourceCents input)), xs_currency := None,
                      xs_held := Some (coalesce (xs_held input) False)\<rparr>) d) (\<lambda>(rows, d1).
         Inr (map split_toResponse rows, d1))))"

text \<open>The filter applies when one of the query parameters is given and not empty.\<close>

definition listSplitsRequest :: "string option \<Rightarrow> string option \<Rightarrow> req_user \<Rightarrow> split_row list account_step" where
  "listSplitsRequest sourceType sourceId u =
     reading (\<lambda>d.
       let given = coalesce sourceType '''' \<noteq> '''' \<or> coalesce sourceId '''' \<noteq> ''''
       in Inr (map split_toResponse (rev (filter (\<lambda>r. sl_tenantId r = ru_tenantId u \<and>
            (given \<longrightarrow> opt_ok (\<lambda>v. sl_sourceType r = v) sourceType \<and> opt_ok (\<lambda>v. sl_sourceId r = v) sourceId)) (splits d)))))"

definition getSplitRequest :: "string \<Rightarrow> req_user \<Rightarrow> split_row account_step" where
  "getSplitRequest i u =
     reading (\<lambda>d. ebind (found (AppError 404 ''SPLIT_NOT_FOUND'') (getSplit d (ru_tenantId u) i)) (\<lambda>r. Inr (split_toResponse r)))"

definition releaseSplitRequest :: "env \<Rightarrow> string \<Rightarrow> req_user \<Rightarrow> split_row account_step" where
  "releaseSplitRequest e i u =
     transact (\<lambda>d.
       ebind (found (AppError 404 ''SPLIT_NOT_FOUND'') (getSplit d (ru_tenantId u) i)) (\<lambda>_.
       ebind (releaseSplit e (ru_tenantId u) i d) (\<lambda>d1.
       ebind (found (JsError ''P2025'') (getSplit d1 (ru_tenantId u) i)) (\<lambda>r. Inr (split_toResponse r, d1)))))"

subsection \<open>Reconciliation\<close>

definition createReconciliationReportSchema :: "create_reconciliation_report_input \<Rightarrow> bool" where
  "createReconciliationReportSchema input \<longleftrightarrow>
     cr_lines input \<noteq> [] \<and> list_all (\<lambda>l. text_ok 1 200 (el_reference l) \<and> 0 \<le> el_amountCents l) (cr_lines input)"

definition createReconciliationRequest ::
  "env \<Rightarrow> create_reconciliation_report_input \<Rightarrow> req_user \<Rightarrow> (reconciliation_report \<times> reconciliation_line list) account_step" where
  "createReconciliationRequest e input u =
     transact (\<lambda>d.
       ebind (body_ok (createReconciliationReportSchema input)) (\<lambda>_.
         (case createReconciliationReport e (ru_tenantId u) input d of (r, d1) \<Rightarrow> Inr ((r, report_lines d1 (rr_id r)), d1))))"

definition listReconciliationsRequest :: "req_user \<Rightarrow> (reconciliation_report \<times> reconciliation_line list) list account_step" where
  "listReconciliationsRequest u =
     reading (\<lambda>d. Inr (map (\<lambda>r. (r, report_lines d (rr_id r))) (rev (filter (\<lambda>r. rr_tenantId r = ru_tenantId u) (reconciliationReports d)))))"

definition getReconciliationRequest :: "string \<Rightarrow> req_user \<Rightarrow> (reconciliation_report \<times> reconciliation_line list) account_step" where
  "getReconciliationRequest i u =
     reading (\<lambda>d. found (AppError 404 ''RECONCILIATION_NOT_FOUND'') (getReconciliationReport d (ru_tenantId u) i))"

text \<open>Both requests read the report again after the write.\<close>

definition runReconciliationRequest :: "string \<Rightarrow> req_user \<Rightarrow> (reconciliation_report \<times> reconciliation_line list) account_step" where
  "runReconciliationRequest i u =
     transact (\<lambda>d. ebind (runReconciliation (ru_tenantId u) i d) (\<lambda>d1.
       ebind (found (JsError ''TypeError'') (getReconciliationReport d1 (ru_tenantId u) i)) (\<lambda>r. Inr (r, d1))))"

definition resolveReconciliationRequest :: "string \<Rightarrow> req_user \<Rightarrow> (reconciliation_report \<times> reconciliation_line list) account_step" where
  "resolveReconciliationRequest i u =
     transact (\<lambda>d. ebind (resolveReconciliation (ru_tenantId u) i d) (\<lambda>d1.
       ebind (found (JsError ''TypeError'') (getReconciliationReport d1 (ru_tenantId u) i)) (\<lambda>r. Inr (r, d1))))"

subsection \<open>Statements\<close>

definition statement_with_items :: "db \<Rightarrow> settlement_statement \<Rightarrow> settlement_statement \<times> statement_item list" where
  "statement_with_items d r = (r, filter (\<lambda>x. si_statementId x = ss_id r) (statementItems d))"

definition createStatementRequest ::
  "(string \<Rightarrow> string \<Rightarrow> int) \<Rightarrow> env \<Rightarrow> create_settlement_statement_input \<Rightarrow> req_user \<Rightarrow> (settlement_statement \<times> statement_item list) account_step" where
  "createStatementRequest lc e input u =
     transact (\<lambda>d.
       ebind (body_ok (cs_periodStart input < cs_periodEnd input)) (\<lambda>_.
       ebind (createSettlementStatement lc e (ru_tenantId u) input d) (\<lambda>(r, d1). Inr (statement_with_items d1 r, d1))))"

definition listStatementsRequest :: "req_user \<Rightarrow> (settlement_statement \<times> statement_item list) list account_step" where
  "listStatementsRequest u =
     reading (\<lambda>d. Inr (map (statement_with_items d) (rev (filter (\<lambda>r. ss_tenantId r = ru_tenantId u) (statements d)))))"

definition getStatementRequest :: "string \<Rightarrow> req_user \<Rightarrow> (settlement_statement \<times> statement_item list) account_step" where
  "getStatementRequest i u = reading (\<lambda>d. found (AppError 404 ''STATEMENT_NOT_FOUND'') (getSettlementStatement d (ru_tenantId u) i))"

definition finalizeStatementRequest :: "env \<Rightarrow> string \<Rightarrow> req_user \<Rightarrow> (settlement_statement \<times> statement_item list) account_step" where
  "finalizeStatementRequest e i u =
     transact (\<lambda>d. ebind (finalizeSettlementStatement e (ru_tenantId u) i d) (\<lambda>d1.
       ebind (found (JsError ''TypeError'') (getSettlementStatement d1 (ru_tenantId u) i)) (\<lambda>r. Inr (r, d1))))"

definition voidStatementRequest :: "string \<Rightarrow> req_user \<Rightarrow> (settlement_statement \<times> statement_item list) account_step" where
  "voidStatementRequest i u =
     transact (\<lambda>d. ebind (voidSettlementStatement (ru_tenantId u) i d) (\<lambda>d1.
       ebind (found (JsError ''TypeError'') (getSettlementStatement d1 (ru_tenantId u) i)) (\<lambda>r. Inr (r, d1))))"

subsection \<open>Onboarding\<close>

definition upsertOnboardingSchema :: "libs \<Rightarrow> (string \<Rightarrow> bool) \<Rightarrow> onboarding_fields \<Rightarrow> bool" where
  "upsertOnboardingSchema c is_url input \<longleftrightarrow>
     opt_ok (text_ok 1 200) (of_legalName input) \<and> opt_ok (text_ok 1 100) (of_entityType input) \<and>
     opt_ok (text_ok 1 100) (of_registrationNumber input) \<and> opt_ok (text_ok 2 2) (of_country input) \<and>
     opt_ok (text_ok 1 500) (of_businessAddress input) \<and> opt_ok is_url (of_website input) \<and>
     opt_ok (is_email c) (of_contactEmail input) \<and> opt_ok (text_ok 1 50) (of_industry input) \<and> opt_ok (text_ok 1 10) (of_mcc input)"

definition getOnboardingRequest :: "req_user \<Rightarrow> merchant_onboarding account_step" where
  "getOnboardingRequest u = reading (\<lambda>d. found (AppError 404 ''ONBOARDING_NOT_FOUND'') (getOnboarding d (ru_tenantId u)))"

text \<open>The operations of the library return the row they wrote.\<close>

definition onboarding_row :: "string \<Rightarrow> db \<Rightarrow> (merchant_onboarding \<times> db) result" where
  "onboarding_row t d = ebind (found (JsError ''P2025'') (getOnboarding d t)) (\<lambda>r. Inr (r, d))"

definition upsertOnboardingRequest :: "libs \<Rightarrow> (string \<Rightarrow> bool) \<Rightarrow> env \<Rightarrow> onboarding_fields \<Rightarrow> req_user \<Rightarrow> merchant_onboarding account_step" where
  "upsertOnboardingRequest c is_url e input u =
     transact (\<lambda>d.
       ebind (body_ok (upsertOnboardingSchema c is_url input)) (\<lambda>_.
         onboarding_row (ru_tenantId u) (upsertOnboarding e (ru_tenantId u) input d)))"

definition submitOnboardingRequest :: "env \<Rightarrow> req_user \<Rightarrow> merchant_onboarding account_step" where
  "submitOnboardingRequest e u = transact (\<lambda>d. ebind (submitOnboarding e (ru_tenantId u) d) (onboarding_row (ru_tenantId u)))"

definition approveOnboardingRequest :: "env \<Rightarrow> string \<Rightarrow> req_user \<Rightarrow> (merchant_onboarding \<times> policy_spec) account_step" where
  "approveOnboardingRequest e t u =
     transact (\<lambda>d.
       ebind (approveOnboarding e t (ru_id u) d) (\<lambda>(spec, d1).
       ebind (onboarding_row t d1) (\<lambda>(r, d2). Inr ((r, spec), d2))))"

definition rejectOnboardingRequest :: "string \<Rightarrow> string \<Rightarrow> req_user \<Rightarrow> merchant_onboarding account_step" where
  "rejectOnboardingRequest t reason u =
     transact (\<lambda>d. ebind (body_ok (text_ok 1 500 reason)) (\<lambda>_. ebind (rejectOnboarding t (ru_id u) reason d) (onboarding_row t)))"

definition requestInfoRequest :: "string \<Rightarrow> string \<Rightarrow> req_user \<Rightarrow> merchant_onboarding account_step" where
  "requestInfoRequest t notes u =
     transact (\<lambda>d. ebind (body_ok (text_ok 1 500 notes)) (\<lambda>_. ebind (requestInfoOnboarding t (ru_id u) notes d) (onboarding_row t)))"

subsection \<open>Configuration\<close>

definition createFeeScheduleSchema :: "fee_schedule_input \<Rightarrow> bool" where
  "createFeeScheduleSchema input \<longleftrightarrow>
     opt_ok (text_ok 1 100) (fi_name input) \<and> opt_ok (\<lambda>n. 0 \<le> n) (fi_flatCents input) \<and> opt_ok (\<lambda>n. 0 \<le> n) (fi_percentageBps input) \<and>
     opt_ok (\<lambda>m. \<forall>n \<in> ran m. 0 \<le> n) (fi_perMethodCents input) \<and>
     opt_ok (list_all (\<lambda>x. 0 \<le> upToCents x \<and> 0 \<le> tier_percentageBps x)) (fi_tiersCents input) \<and>
     opt_ok (text_ok 3 3) (fi_currency input)"

definition listFeeSchedulesRequest :: "req_user \<Rightarrow> (fee_schedule \<times> fee_schedule_spec) list account_step" where
  "listFeeSchedulesRequest u = reading (\<lambda>d. Inr (map (\<lambda>r. (r, toFeeSpec r)) (listFeeSchedules d (ru_tenantId u))))"

definition createFeeScheduleRequest :: "env \<Rightarrow> fee_schedule_input \<Rightarrow> req_user \<Rightarrow> (fee_schedule \<times> fee_schedule_spec) account_step" where
  "createFeeScheduleRequest e input u =
     transact (\<lambda>d.
       ebind (body_ok (createFeeScheduleSchema input)) (\<lambda>_.
       ebind (createFeeSchedule e (ru_tenantId u) input d) (\<lambda>(r, d1). Inr ((r, toFeeSpec r), d1))))"

definition activeFeeScheduleRequest :: "req_user \<Rightarrow> (fee_schedule \<times> fee_schedule_spec) account_step" where
  "activeFeeScheduleRequest u =
     reading (\<lambda>d. ebind (found (AppError 404 ''FEE_SCHEDULE_NOT_FOUND'') (getActiveFeeSchedule d (ru_tenantId u))) (\<lambda>r. Inr (r, toFeeSpec r)))"

definition createSettlementPolicySchema :: "settlement_policy_input \<Rightarrow> bool" where
  "createSettlementPolicySchema input \<longleftrightarrow>
     opt_ok (text_ok 1 100) (pin_name input) \<and> opt_ok (text_ok 1 50) (ov_industry input) \<and> opt_ok (text_ok 1 8) (ov_mcc input) \<and>
     opt_ok (\<lambda>n. 0 \<le> n) (ov_availabilityDelayDays input) \<and> opt_ok (\<lambda>n. 0 \<le> n) (ov_reservePercentageBps input) \<and>
     opt_ok (\<lambda>n. 0 \<le> n) (ov_reserveHoldDays input) \<and> opt_ok (\<lambda>n. 0 \<le> n) (ov_reserveFixedCents input) \<and>
     opt_ok (\<lambda>n. 0 \<le> n) (ov_payoutMinCents input)"

definition listSettlementPoliciesRequest :: "req_user \<Rightarrow> settlement_policy list account_step" where
  "listSettlementPoliciesRequest u = reading (\<lambda>d. Inr (listSettlementPolicies d (ru_tenantId u)))"

definition createSettlementPolicyRequest :: "env \<Rightarrow> settlement_policy_input \<Rightarrow> req_user \<Rightarrow> settlement_policy account_step" where
  "createSettlementPolicyRequest e input u =
     transact (\<lambda>d. ebind (body_ok (createSettlementPolicySchema input)) (\<lambda>_. createSettlementPolicy e (ru_tenantId u) input d))"

definition activeSettlementPolicyRequest :: "req_user \<Rightarrow> settlement_policy account_step" where
  "activeSettlementPolicyRequest u =
     reading (\<lambda>d. found (AppError 404 ''SETTLEMENT_POLICY_NOT_FOUND'') (getActiveSettlementPolicy d (ru_tenantId u)))"

definition updateFinanceConfigSchema :: "upsert_finance_config_input \<Rightarrow> bool" where
  "updateFinanceConfigSchema input \<longleftrightarrow>
     list_all (\<lambda>x. x \<in> set FINANCE_CAPABILITIES) (fci_capabilities input) \<and> opt_ok (text_ok 1 50) (fci_preset input) \<and>
     opt_ok (\<lambda>b. b \<in> set WALLET_COMMISSION_BASIS) (fci_walletCommissionBasis input)"

definition getFinanceConfigRequest :: "req_user \<Rightarrow> (string list \<times> string \<times> string) account_step" where
  "getFinanceConfigRequest u =
     reading (\<lambda>d. let row = getFinanceConfig d (ru_tenantId u)
       in Inr (getEffectiveCapabilities d (ru_tenantId u), coalesce (map_option fc_preset row) DEFAULT_FINANCE_PRESET,
               resolveWalletCommissionBasis row))"

definition updateFinanceConfigRequest :: "upsert_finance_config_input \<Rightarrow> req_user \<Rightarrow> (string list \<times> string \<times> string) account_step" where
  "updateFinanceConfigRequest input u =
     transact (\<lambda>d.
       ebind (body_ok (updateFinanceConfigSchema input)) (\<lambda>_.
       ebind (upsertFinanceConfig (ru_tenantId u) input d) (\<lambda>(r, d1). Inr ((fc_capabilities r, fc_preset r, fc_walletCommissionBasis r), d1))))"

subsection \<open>Reports\<close>

record ledger_response =
  lr_balanced :: bool
  lr_balances :: "ledger_account \<Rightarrow> rat"
  lr_balancesByCurrency :: "currency \<Rightarrow> ledger_account \<Rightarrow> rat"
  lr_entries :: "(ledger_entry \<times> rat \<times> rat) list"

definition ledgerRequest :: "req_user \<Rightarrow> ledger_response account_step" where
  "ledgerRequest u =
     reading (\<lambda>d. let view = getTenantLedger d (ru_tenantId u)
       in Inr \<lparr>lr_balanced = lv_balanced view,
               lr_balances = (\<lambda>a. centimesToMad (lv_balances view a)),
               lr_balancesByCurrency = (\<lambda>c a. fromMinor (lv_balancesByCurrency view c a) c),
               lr_entries = map (\<lambda>r. (r, fromMinor (le_amount r) (le_currency r), fromMinor (le_balanceAfter r) (le_currency r))) (lv_entries view)\<rparr>)"

definition settlementSummaryRequest :: "req_user \<Rightarrow> (settlement_summary \<times> payout_rail option) account_step" where
  "settlementSummaryRequest u = reading (\<lambda>d. Inr (getSettlementSummary d (ru_tenantId u)))"

section \<open>The API\<close>

text \<open>One type of calls and one router per file; a handler's answer is reduced to whether it succeeds.\<close>

definition answered :: "'a result \<times> accounts \<Rightarrow> unit result \<times> accounts" where
  "answered r = (map_sum id (\<lambda>_. ()) (fst r), snd r)"

datatype wallet_call =
    CreateWallet wallet_owner_type string "currency option"
  | ListWallets
  | GetWallet string
  | TopUpWallet string int "string option"
  | DebitWallet string int "string option"
  | RefundWallet string int
  | AdjustWallet string int

definition wallet_router :: "env \<Rightarrow> wallet_call \<Rightarrow> req_user \<Rightarrow> unit account_step" where
  "wallet_router e call u s =
     (case call of
        CreateWallet ty i cur \<Rightarrow> answered (createWalletRequest e ty i cur u s)
      | ListWallets \<Rightarrow> answered (listWalletsRequest u s)
      | GetWallet i \<Rightarrow> answered (getWalletRequest i u s)
      | TopUpWallet i n pid \<Rightarrow> answered (topUpWalletRequest e i n pid u s)
      | DebitWallet i n m \<Rightarrow> answered (debitWalletRequest e i n m u s)
      | RefundWallet i n \<Rightarrow> answered (refundWalletRequest e i n u s)
      | AdjustWallet i n \<Rightarrow> answered (adjustWalletRequest e i n u s))"

datatype dispute_call =
    CreateDispute create_dispute_input
  | ListDisputes
  | GetDispute string
  | ResolveDispute string dispute_status

definition dispute_router :: "env \<Rightarrow> dispute_call \<Rightarrow> req_user \<Rightarrow> unit account_step" where
  "dispute_router e call u s =
     (case call of
        CreateDispute x \<Rightarrow> answered (createDisputeRequest e x u s)
      | ListDisputes \<Rightarrow> answered (listDisputesRequest u s)
      | GetDispute i \<Rightarrow> answered (getDisputeRequest i u s)
      | ResolveDispute i x \<Rightarrow> answered (resolveDisputeRequest e i x u s))"

datatype split_call =
    CreateSplitParty string string "split_party_type option"
  | ListSplitParties
  | GetSplitParty string
  | DeactivateSplitParty string
  | CreateSplitRule string "split_trigger option" "share_spec list"
  | ListSplitRules
  | GetSplitRule string
  | DeactivateSplitRule string
  | ExecuteSplit execute_split_input
  | ListSplits "string option" "string option"
  | GetSplit string
  | ReleaseSplit string

definition split_router :: "(string \<Rightarrow> string \<Rightarrow> int) \<Rightarrow> env \<Rightarrow> split_call \<Rightarrow> req_user \<Rightarrow> unit account_step" where
  "split_router lc e call u s =
     (case call of
        CreateSplitParty sl n ty \<Rightarrow> answered (createSplitPartyRequest e sl n ty u s)
      | ListSplitParties \<Rightarrow> answered (listSplitPartiesRequest u s)
      | GetSplitParty i \<Rightarrow> answered (getSplitPartyRequest i u s)
      | DeactivateSplitParty i \<Rightarrow> answered (deactivateSplitPartyRequest i u s)
      | CreateSplitRule n tr sh \<Rightarrow> answered (createSplitRuleRequest e n tr sh u s)
      | ListSplitRules \<Rightarrow> answered (listSplitRulesRequest u s)
      | GetSplitRule i \<Rightarrow> answered (getSplitRuleRequest i u s)
      | DeactivateSplitRule i \<Rightarrow> answered (deactivateSplitRuleRequest i u s)
      | ExecuteSplit x \<Rightarrow> answered (executeSplitRequest lc e x u s)
      | ListSplits st si \<Rightarrow> answered (listSplitsRequest st si u s)
      | GetSplit i \<Rightarrow> answered (getSplitRequest i u s)
      | ReleaseSplit i \<Rightarrow> answered (releaseSplitRequest e i u s))"

datatype reconciliation_call =
    CreateReconciliation create_reconciliation_report_input
  | ListReconciliations
  | GetReconciliation string
  | RunReconciliation string
  | ResolveReconciliation string

definition reconciliation_router :: "env \<Rightarrow> reconciliation_call \<Rightarrow> req_user \<Rightarrow> unit account_step" where
  "reconciliation_router e call u s =
     (case call of
        CreateReconciliation x \<Rightarrow> answered (createReconciliationRequest e x u s)
      | ListReconciliations \<Rightarrow> answered (listReconciliationsRequest u s)
      | GetReconciliation i \<Rightarrow> answered (getReconciliationRequest i u s)
      | RunReconciliation i \<Rightarrow> answered (runReconciliationRequest i u s)
      | ResolveReconciliation i \<Rightarrow> answered (resolveReconciliationRequest i u s))"

datatype statement_call =
    CreateStatement create_settlement_statement_input
  | ListStatements
  | GetStatement string
  | FinalizeStatement string
  | VoidStatement string

definition statement_router :: "(string \<Rightarrow> string \<Rightarrow> int) \<Rightarrow> env \<Rightarrow> statement_call \<Rightarrow> req_user \<Rightarrow> unit account_step" where
  "statement_router lc e call u s =
     (case call of
        CreateStatement x \<Rightarrow> answered (createStatementRequest lc e x u s)
      | ListStatements \<Rightarrow> answered (listStatementsRequest u s)
      | GetStatement i \<Rightarrow> answered (getStatementRequest i u s)
      | FinalizeStatement i \<Rightarrow> answered (finalizeStatementRequest e i u s)
      | VoidStatement i \<Rightarrow> answered (voidStatementRequest i u s))"

datatype onboarding_call =
    GetOnboarding
  | UpsertOnboarding onboarding_fields
  | SubmitOnboarding

definition onboarding_router :: "libs \<Rightarrow> (string \<Rightarrow> bool) \<Rightarrow> env \<Rightarrow> onboarding_call \<Rightarrow> req_user \<Rightarrow> unit account_step" where
  "onboarding_router c is_url e call u s =
     (case call of
        GetOnboarding \<Rightarrow> answered (getOnboardingRequest u s)
      | UpsertOnboarding x \<Rightarrow> answered (upsertOnboardingRequest c is_url e x u s)
      | SubmitOnboarding \<Rightarrow> answered (submitOnboardingRequest e u s))"

datatype review_call =
    ApproveOnboarding string
  | RejectOnboarding string string
  | RequestInfo string string

definition review_router :: "env \<Rightarrow> review_call \<Rightarrow> req_user \<Rightarrow> unit account_step" where
  "review_router e call u s =
     (case call of
        ApproveOnboarding t \<Rightarrow> answered (approveOnboardingRequest e t u s)
      | RejectOnboarding t x \<Rightarrow> answered (rejectOnboardingRequest t x u s)
      | RequestInfo t x \<Rightarrow> answered (requestInfoRequest t x u s))"

datatype config_call =
    ListFeeSchedules
  | CreateFeeSchedule fee_schedule_input
  | ActiveFeeSchedule
  | ListSettlementPolicies
  | CreateSettlementPolicy settlement_policy_input
  | ActiveSettlementPolicy
  | GetFinanceConfig
  | UpdateFinanceConfig upsert_finance_config_input

definition config_router :: "env \<Rightarrow> config_call \<Rightarrow> req_user \<Rightarrow> unit account_step" where
  "config_router e call u s =
     (case call of
        ListFeeSchedules \<Rightarrow> answered (listFeeSchedulesRequest u s)
      | CreateFeeSchedule x \<Rightarrow> answered (createFeeScheduleRequest e x u s)
      | ActiveFeeSchedule \<Rightarrow> answered (activeFeeScheduleRequest u s)
      | ListSettlementPolicies \<Rightarrow> answered (listSettlementPoliciesRequest u s)
      | CreateSettlementPolicy x \<Rightarrow> answered (createSettlementPolicyRequest e x u s)
      | ActiveSettlementPolicy \<Rightarrow> answered (activeSettlementPolicyRequest u s)
      | GetFinanceConfig \<Rightarrow> answered (getFinanceConfigRequest u s)
      | UpdateFinanceConfig x \<Rightarrow> answered (updateFinanceConfigRequest x u s))"

datatype report_call =
    GetLedger
  | SettlementSummary

definition report_router :: "report_call \<Rightarrow> req_user \<Rightarrow> unit account_step" where
  "report_router call u s =
     (case call of
        GetLedger \<Rightarrow> answered (ledgerRequest u s)
      | SettlementSummary \<Rightarrow> answered (settlementSummaryRequest u s))"

datatype finance_call =
    WalletRoute wallet_call
  | DisputeRoute dispute_call
  | SplitRoute split_call
  | ReconciliationRoute reconciliation_call
  | StatementRoute statement_call
  | OnboardingRoute onboarding_call
  | ReviewRoute review_call
  | ConfigRoute config_call
  | ReportRoute report_call

text \<open>The role a request needs: an owner, an administrator for the review of applications, anyone signed in for the ledger.\<close>

definition finance_role :: "finance_call \<Rightarrow> req_user \<Rightarrow> unit result" where
  "finance_role call =
     (case call of
        ReviewRoute _ \<Rightarrow> requireAdmin
      | ReportRoute GetLedger \<Rightarrow> (\<lambda>_. Inr ())
      | _ \<Rightarrow> requireOwner)"

definition finance_handler ::
  "(string \<Rightarrow> string \<Rightarrow> int) \<Rightarrow> libs \<Rightarrow> (string \<Rightarrow> bool) \<Rightarrow> env \<Rightarrow> finance_call \<Rightarrow> req_user \<Rightarrow> unit account_step" where
  "finance_handler lc c is_url e call =
     (case call of
        WalletRoute x \<Rightarrow> wallet_router e x
      | DisputeRoute x \<Rightarrow> dispute_router e x
      | SplitRoute x \<Rightarrow> split_router lc e x
      | ReconciliationRoute x \<Rightarrow> reconciliation_router e x
      | StatementRoute x \<Rightarrow> statement_router lc e x
      | OnboardingRoute x \<Rightarrow> onboarding_router c is_url e x
      | ReviewRoute x \<Rightarrow> review_router e x
      | ConfigRoute x \<Rightarrow> config_router e x
      | ReportRoute x \<Rightarrow> report_router x)"

definition serve_finance ::
  "(string \<Rightarrow> string \<Rightarrow> int) \<Rightarrow> libs \<Rightarrow> (string \<Rightarrow> bool) \<Rightarrow> env \<Rightarrow> string option \<Rightarrow> finance_call \<Rightarrow> unit account_step" where
  "serve_finance lc c is_url e header call = guarded c e header (finance_role call) (finance_handler lc c is_url e call)"

section \<open>What the requests share\<close>

text \<open>
  The contract of a request: it books only for the tenant of the caller. A quiet request books nothing, which is a special case.
\<close>

locale finance_request =
  fixes request :: "req_user \<Rightarrow> 'a account_step"
  assumes books: "bookings (ru_tenantId u) (acc_db s) (acc_db (snd (request u s)))"

locale quiet_request =
  fixes request :: "req_user \<Rightarrow> 'a account_step"
  assumes ledger_kept: "ledgerEntries (acc_db (snd (request u s))) = ledgerEntries (acc_db s)"

sublocale quiet_request \<subseteq> finance_request
  by unfold_locales (rule bookings_same [OF ledger_kept])

lemma answer_state [simp]: "snd (reading f s) = s" "snd (answered r) = snd r"
  by (simp_all add: reading_def answered_def)

lemma transact_books:
  assumes "\<And>d a d'. f d = Inr (a, d') \<Longrightarrow> bookings t d d'"
  shows "bookings t (acc_db s) (acc_db (snd (transact f s)))"
  using assms [of "acc_db s"] by (auto simp: transact_def split: sum.split prod.split)

lemma transact_quiet:
  assumes "\<And>d a d'. f d = Inr (a, d') \<Longrightarrow> ledgerEntries d' = ledgerEntries d"
  shows "ledgerEntries (acc_db (snd (transact f s))) = ledgerEntries (acc_db s)"
  using assms [of "acc_db s"] by (auto simp: transact_def split: sum.split prod.split)

lemma body_ok_Inr [simp]: "body_ok b = Inr x \<longleftrightarrow> b"
  by (simp add: body_ok_def require_def)

lemma found_Inr [simp]: "found err v = Inr x \<longleftrightarrow> v = Some x"
  by (simp add: found_def split: option.split)

lemma wallet_run_Inr [simp]: "wallet_run r = Inr x \<longleftrightarrow> r = Inr x"
  by (auto simp: wallet_run_def split: sum.split exn.split)

lemma wallet_request_books:
  assumes "\<And>d x d'. movement d = Inr (x, d') \<Longrightarrow> bookings t d d'"
  shows "bookings t (acc_db s) (acc_db (snd (wallet_request ok movement s)))"
  unfolding wallet_request_def by (rule transact_books) (use assms in \<open>auto split: prod.splits\<close>)

lemma createWallet_ledger: "ledgerEntries (snd (createWallet e t ty i cur d)) = ledgerEntries d"
  by (simp add: createWallet_def Let_def bump_def split: option.split)

lemma createWalletRequest_ledger: "ledgerEntries (acc_db (snd (createWalletRequest e ty i cur u s))) = ledgerEntries (acc_db s)"
  unfolding createWalletRequest_def
  by (rule transact_quiet) (use createWallet_ledger [of e "ru_tenantId u" ty i cur] in \<open>auto split: prod.splits\<close>, metis snd_conv)

interpretation wallet_routes: finance_request "wallet_router e call" for e call
  by unfold_locales
     (auto simp: wallet_router_def listWalletsRequest_def getWalletRequest_def topUpWalletRequest_def debitWalletRequest_def
        refundWalletRequest_def adjustWalletRequest_def split: wallet_call.split
        intro!: bookings_same [OF createWalletRequest_ledger] wallet_request_books intro: wallet_bookings)

lemma createDispute_ledger: "createDispute e t x d = Inr (r, d') \<Longrightarrow> ledgerEntries d' = ledgerEntries d"
  by (auto simp: createDispute_def Let_def bump_def split: option.splits)

lemma resolveDispute_books: "resolveDispute e t i outcome d = Inr d' \<Longrightarrow> bookings t d d'"
  by (auto simp: resolveDispute_def resolveDispute_won_def set_dispute_def split: if_splits option.splits
      intro: bookings_same resolveDispute_commit_bookings)

lemma createDisputeRequest_ledger: "ledgerEntries (acc_db (snd (createDisputeRequest e x u s))) = ledgerEntries (acc_db s)"
  unfolding createDisputeRequest_def by (rule transact_quiet) (auto dest: createDispute_ledger split: prod.splits)

lemma audit_as_ledger [simp]: "ledgerEntries (acc_db (snd (audit_as t u a ty i s))) = ledgerEntries (acc_db s)"
  by (simp add: audit_as_def audit_def)

lemma books_sbind:
  assumes "bookings t (acc_db s) (acc_db (snd m))" "\<And>x s1. ledgerEntries (acc_db (snd (f x s1))) = ledgerEntries (acc_db s1)"
  shows "bookings t (acc_db s) (acc_db (snd (sbind m f)))"
  using assms by (cases m; cases "fst m") (auto simp: sbind_def intro: bookings_then)

lemma resolveDisputeRequest_books: "bookings (ru_tenantId u) (acc_db s) (acc_db (snd (resolveDisputeRequest e i outcome u s)))"
  unfolding resolveDisputeRequest_def
  by (intro books_sbind transact_books) (auto simp: sbind_answer dest: resolveDispute_books)

interpretation dispute_routes: finance_request "dispute_router e call" for e call
  by unfold_locales
     (auto simp: dispute_router_def listDisputesRequest_def getDisputeRequest_def split: dispute_call.split
        intro: bookings_same [OF createDisputeRequest_ledger] resolveDisputeRequest_books)

lemma split_rows_ledger:
  "createSplitParty e t sl ty d = Inr (p, d') \<Longrightarrow> ledgerEntries d' = ledgerEntries d"
  "deactivateSplitParty t i d = Inr d' \<Longrightarrow> ledgerEntries d' = ledgerEntries d"
  "createSplitRule e t n tr sh d = Inr (r, d') \<Longrightarrow> ledgerEntries d' = ledgerEntries d"
  "deactivateSplitRule t i d = Inr d' \<Longrightarrow> ledgerEntries d' = ledgerEntries d"
  by (auto simp: createSplitParty_def deactivateSplitParty_def createSplitRule_def deactivateSplitRule_def Let_def bump_def
      split: if_splits option.splits)

interpretation split_routes: finance_request "split_router lc e call" for lc e call
proof unfold_locales
  fix u :: req_user and s :: accounts
  let ?t = "ru_tenantId u"
  note defs = createSplitPartyRequest_def deactivateSplitPartyRequest_def createSplitRuleRequest_def deactivateSplitRuleRequest_def
    executeSplitRequest_def releaseSplitRequest_def
  have "bookings ?t (acc_db s) (acc_db (snd (createSplitPartyRequest e sl n ty u s)))"
    "bookings ?t (acc_db s) (acc_db (snd (deactivateSplitPartyRequest i u s)))"
    "bookings ?t (acc_db s) (acc_db (snd (createSplitRuleRequest e n tr sh u s)))"
    "bookings ?t (acc_db s) (acc_db (snd (deactivateSplitRuleRequest i u s)))"
    "bookings ?t (acc_db s) (acc_db (snd (executeSplitRequest lc e x u s)))"
    "bookings ?t (acc_db s) (acc_db (snd (releaseSplitRequest e i u s)))" for sl n ty i tr sh x
    unfolding defs
    by (rule transact_books;
        auto split: prod.splits intro: bookings_same split_rows_ledger dest: executeSplit_bookings releaseSplit_bookings)+
  then show "bookings ?t (acc_db s) (acc_db (snd (split_router lc e call u s)))"
    by (auto simp: split_router_def listSplitPartiesRequest_def getSplitPartyRequest_def listSplitRulesRequest_def
        getSplitRuleRequest_def listSplitsRequest_def getSplitRequest_def split: split_call.split)
qed

lemma config_rows_ledger:
  "createReconciliationReport e t x d = (r, d') \<Longrightarrow> ledgerEntries d' = ledgerEntries d"
  "runReconciliation t i d = Inr d' \<Longrightarrow> ledgerEntries d' = ledgerEntries d"
  "resolveReconciliation t i d = Inr d' \<Longrightarrow> ledgerEntries d' = ledgerEntries d"
  "createSettlementStatement lc e t y d = Inr (st, d') \<Longrightarrow> ledgerEntries d' = ledgerEntries d"
  "finalizeSettlementStatement e t i d = Inr d' \<Longrightarrow> ledgerEntries d' = ledgerEntries d"
  "voidSettlementStatement t i d = Inr d' \<Longrightarrow> ledgerEntries d' = ledgerEntries d"
  "ledgerEntries (upsertOnboarding e t z d) = ledgerEntries d"
  "submitOnboarding e t d = Inr d' \<Longrightarrow> ledgerEntries d' = ledgerEntries d"
  "approveOnboarding e t rv d = Inr (spec, d') \<Longrightarrow> ledgerEntries d' = ledgerEntries d"
  "rejectOnboarding t rv tx d = Inr d' \<Longrightarrow> ledgerEntries d' = ledgerEntries d"
  "requestInfoOnboarding t rv tx d = Inr d' \<Longrightarrow> ledgerEntries d' = ledgerEntries d"
  "createFeeSchedule e t fi d = Inr (f, d') \<Longrightarrow> ledgerEntries d' = ledgerEntries d"
  "createSettlementPolicy e t pin d = Inr (p, d') \<Longrightarrow> ledgerEntries d' = ledgerEntries d"
  "upsertFinanceConfig t fc d = Inr (cf, d') \<Longrightarrow> ledgerEntries d' = ledgerEntries d"
  by (auto simp: createReconciliationReport_def runReconciliation_def resolveReconciliation_def createSettlementStatement_def
      finalizeSettlementStatement_def voidSettlementStatement_def upsertOnboarding_def submitOnboarding_def approveOnboarding_def
      rejectOnboarding_def requestInfoOnboarding_def update_onboarding_def createFeeSchedule_def createSettlementPolicy_def
      upsertFinanceConfig_def bump_def Let_def split: if_splits option.splits)

lemma onboarding_row_ledger: "onboarding_row t d = Inr (r, d') \<Longrightarrow> ledgerEntries d' = ledgerEntries d"
  by (auto simp: onboarding_row_def)

interpretation reconciliation_routes: quiet_request "reconciliation_router e call" for e call
  by unfold_locales
     (auto simp: reconciliation_router_def createReconciliationRequest_def listReconciliationsRequest_def getReconciliationRequest_def
        runReconciliationRequest_def resolveReconciliationRequest_def split: reconciliation_call.split prod.splits
        intro!: transact_quiet dest: config_rows_ledger(1-3))

interpretation statement_routes: quiet_request "statement_router lc e call" for lc e call
  by unfold_locales
     (auto simp: statement_router_def createStatementRequest_def listStatementsRequest_def getStatementRequest_def
        finalizeStatementRequest_def voidStatementRequest_def split: statement_call.split prod.splits
        intro!: transact_quiet dest: config_rows_ledger(4-6))

interpretation onboarding_routes: quiet_request "onboarding_router c is_url e call" for c is_url e call
  by unfold_locales
     (auto simp: onboarding_router_def getOnboardingRequest_def upsertOnboardingRequest_def submitOnboardingRequest_def config_rows_ledger(7)
        split: onboarding_call.split intro!: transact_quiet dest!: config_rows_ledger(8) onboarding_row_ledger)

interpretation review_routes: quiet_request "review_router e call" for e call
  by unfold_locales
     (auto simp: review_router_def approveOnboardingRequest_def rejectOnboardingRequest_def requestInfoRequest_def
        split: review_call.split prod.splits intro!: transact_quiet dest!: config_rows_ledger(9-11) onboarding_row_ledger)

interpretation config_routes: quiet_request "config_router e call" for e call
  by unfold_locales
     (auto simp: config_router_def listFeeSchedulesRequest_def createFeeScheduleRequest_def activeFeeScheduleRequest_def
        listSettlementPoliciesRequest_def createSettlementPolicyRequest_def activeSettlementPolicyRequest_def getFinanceConfigRequest_def
        updateFinanceConfigRequest_def split: config_call.split prod.splits intro!: transact_quiet dest!: config_rows_ledger(12-14))

interpretation report_routes: quiet_request "report_router call" for call
  by unfold_locales (simp add: report_router_def ledgerRequest_def settlementSummaryRequest_def split: report_call.split)

lemma finance_handler_books: "bookings (ru_tenantId u) (acc_db s) (acc_db (snd (finance_handler lc c is_url e call u s)))"
  unfolding finance_handler_def
  by (simp add: wallet_routes.books dispute_routes.books split_routes.books reconciliation_routes.books statement_routes.books
      onboarding_routes.books review_routes.books config_routes.books report_routes.books split: finance_call.split)

lemma finance_handler_quiet:
  assumes "finance_role call u = Inr ()" "ru_role u \<noteq> OWNER"
  shows "ledgerEntries (acc_db (snd (finance_handler lc c is_url e call u s))) = ledgerEntries (acc_db s)"
  using assms unfolding finance_handler_def finance_role_def
  by (auto simp: requireOwner_def requireRole_def review_routes.ledger_kept report_routes.ledger_kept
      split: finance_call.splits report_call.splits if_splits)

interpretation booked: bookkeeping bookings
  by unfold_locales

lemma serve_finance_cases:
  fixes c e h call s lc is_url
  defines "s' \<equiv> snd (serve_finance lc c is_url e h call s)"
  obtains (silent) "ledgerEntries (acc_db s') = ledgerEntries (acc_db s)"
  | (owner) u where "fst (requireAuth c e h s) = Inr u" "ru_role u = OWNER" "bookings (ru_tenantId u) (acc_db s) (acc_db s')"
proof (cases "fst (requireAuth c e h s)")
  case (Inl x)
  then have "s' = snd (requireAuth c e h s)"
    unfolding s'_def serve_finance_def guarded_def by (cases "requireAuth c e h s") (simp add: sbind_def)
  then show ?thesis using silent by simp
next
  case (Inr u)
  define s1 where "s1 = snd (requireAuth c e h s)"
  have s1: "requireAuth c e h s = (Inr u, s1)" "acc_db s1 = acc_db s" by (simp_all add: s1_def Inr prod_eq_iff)
  show ?thesis
  proof (cases "finance_role call u")
    case (Inl x)
    then have "s' = s1" unfolding s'_def serve_finance_def guarded_def sbind_def by (simp add: s1)
    then show ?thesis using silent s1 by simp
  next
    case (Inr v)
    then have s': "s' = snd (finance_handler lc c is_url e call u s1)"
      unfolding s'_def serve_finance_def guarded_def sbind_def by (simp add: s1)
    show ?thesis
    proof (cases "ru_role u = OWNER")
      case True
      then show ?thesis using owner [of u] finance_handler_books [of u s1 lc c is_url e call] s1 by (simp add: s')
    next
      case False
      then show ?thesis using silent finance_handler_quiet [of call u lc c is_url e s1] Inr s1 by (simp add: s')
    qed
  qed
qed

section \<open>Properties\<close>

text \<open>
  C5. The finance API and the ledger. Whatever request is sent with whatever token, a well-formed ledger stays well formed and only
  grows, and the ledger of a tenant changes only when the token is that of an owner of this very tenant.
\<close>

theorem finance_requests_book:
  assumes "well_formed_ledger (acc_db s)"
  shows "let s' = snd (serve_finance lc c is_url e h call s)
         in well_formed_ledger (acc_db s') \<and> grows (acc_db s) (acc_db s') \<and>
            (\<forall>t. tenant_legs t (acc_db s') \<noteq> tenant_legs t (acc_db s) \<longrightarrow>
               (\<exists>u. fst (requireAuth c e h s) = Inr u \<and> ru_tenantId u = t \<and> ru_role u = OWNER))"
proof (cases rule: serve_finance_cases [where lc = lc and c = c and is_url = is_url and e = e and h = h and call = call and s = s])
  case silent
  then have "bookings t (acc_db s) (acc_db (snd (serve_finance lc c is_url e h call s)))" for t by (rule bookings_same)
  with booked.step_well_formed [of _ "acc_db s"] assms booked.step_grows [of _ "acc_db s"] silent show ?thesis
    by (simp add: Let_def tenant_legs_def entries_of_def)
next
  case (owner u)
  have "t = ru_tenantId u" if "tenant_legs t (acc_db (snd (serve_finance lc c is_url e h call s))) \<noteq> tenant_legs t (acc_db s)" for t
    using booked.step_other [OF owner(3), of t] that by blast
  with owner(1,2) booked.step_well_formed [OF owner(3) assms] booked.step_grows [OF owner(3)]
  show ?thesis by (simp add: Let_def)
qed

theorem finance_requests_book_witness:
  "well_formed_ledger (acc_db (snd (serve_finance (\<lambda>_ _. 0) demo_libs (\<lambda>_. True) demo_env (Some ''Bearer jwt-par'')
     (WalletRoute (TopUpWallet ''w1'' 500 None)) demo_accounts)))"
proof -
  have "well_formed_ledger (acc_db demo_accounts)" by (rule empty_well_formed) (simp add: demo_accounts_def empty_db_def)
  then show ?thesis
    using finance_requests_book [where s = demo_accounts and lc = "\<lambda>_ _. 0" and c = demo_libs and is_url = "\<lambda>_. True" and e = demo_env
        and h = "Some ''Bearer jwt-par''" and call = "WalletRoute (TopUpWallet ''w1'' 500 None)"] by (simp add: Let_def)
qed

text \<open>The rows booked in between are in the range of their columns.\<close>

definition rows_fit :: "db \<Rightarrow> db \<Rightarrow> bool" where
  "rows_fit d d' \<longleftrightarrow> (\<exists>rows. ledgerEntries d' = ledgerEntries d @ rows \<and>
     (\<forall>r\<in>set rows. fits_column (le_amount r) \<and> fits_column (le_balanceAfter r)))"

lemma rows_fit_trans: "rows_fit d1 d2 \<Longrightarrow> rows_fit d2 d3 \<Longrightarrow> rows_fit d1 d3"
  by (force simp: rows_fit_def)

lemma pair_rows_fit:
  assumes "wallet_moves e t w [(debit a n k None c, credit b n k None c)] d = Inr d1"
    "fits_column n" "fits_column (accountBalanceCents d t a c - n)" "fits_column (accountBalanceCents d t b c + n)"
  shows "rows_fit d d1"
proof -
  from assms(1) have "ledgerEntries d1 = ledgerEntries d @
      new_rows e t (to_posting (Some ''wallet'') (Some (wl_id w)) (debit a n k None c, credit b n k None c)) d"
    by (auto simp: wallet_moves_def moves_post post_eq_Inr)
  with assms(2-4) show ?thesis
    unfolding rows_fit_def
    by (intro exI conjI) (assumption, auto simp: new_rows_def entry_row_def to_posting_def debit_def credit_def delta_def)
qed

lemma recorded_movement:
  assumes w: "loadActiveWallet t i d = Inr w" and m: "wallet_moves e t w legs d = Inr d1"
    and d'_def: "d' = snd (recordMovement e t w ty signed after st si d1)"
  shows "loadActiveWallet t i d' = Inr (w\<lparr>wl_balance := after\<rparr>)"
    and "accountBalanceCents d' t a c = accountBalanceCents d t a c + balanceOf (pair_legs legs) a c"
    and "paymentIntents d' = paymentIntents d"
    and "rows_fit d d1 \<Longrightarrow> rows_fit d d'"
proof -
  show "rows_fit d d1 \<Longrightarrow> rows_fit d d'" by (simp add: rows_fit_def d'_def recordMovement_def Let_def bump_def)
  from moves_appends [OF m [unfolded wallet_moves_def]] obtain n rows where d1: "d1 = d\<lparr>seq := n, ledgerEntries := rows\<rparr>"
    unfolding appends_def by (elim exE conjE) (rule that)
  have ws: "wallets d' = map (\<lambda>r. if wl_id r = wl_id w then r\<lparr>wl_balance := after\<rparr> else r) (wallets d)"
    by (simp add: d'_def recordMovement_def Let_def d1 bump_def)
  show "paymentIntents d' = paymentIntents d" by (simp add: d'_def recordMovement_def Let_def d1 bump_def)
  from w have f: "find (\<lambda>w. wl_id w = i \<and> wl_tenantId w = t) (wallets d) = Some w" "wl_status w = WALLET_ACTIVE"
    by (auto simp: loadActiveWallet_def split: option.splits if_splits)
  have "wl_id w = i" using find_SomeD [OF f(1)] by simp
  then show "loadActiveWallet t i d' = Inr (w\<lparr>wl_balance := after\<rparr>)"
    using f find_update_id [where k = wl_id and Q = "\<lambda>w. wl_tenantId w = t" and f = "\<lambda>r. r\<lparr>wl_balance := after\<rparr>" and i = i and xs = "wallets d"]
    by (simp add: loadActiveWallet_def ws)
  have "accountBalanceCents d' t a c = accountBalanceCents d1 t a c" by (simp add: d'_def recordMovement_def Let_def bump_def)
  then show "accountBalanceCents d' t a c = accountBalanceCents d t a c + balanceOf (pair_legs legs) a c"
    using moves_balance [OF m [unfolded wallet_moves_def], of t a c] by simp
qed

lemma wallet_pair_moves:
  assumes "0 \<le> n" "a \<noteq> b"
  shows "\<exists>d1. wallet_moves e t w [(debit a n k None c, credit b n k None c)] d = Inr d1"
  unfolding wallet_moves_def by (rule moves_ok) (use assms in \<open>simp add: valid_posting_def to_posting_def debit_def credit_def\<close>)

lemma topUp_usage:
  assumes "loadActiveWallet t i d = Inr w" "getEffectiveWalletCommissionBasis d t \<noteq> ''load''" "0 < n"
  shows "\<exists>x d'. topUpWallet e t i n pid d = Inr (x, d') \<and> loadActiveWallet t i d' = Inr (w\<lparr>wl_balance := wl_balance w + n\<rparr>) \<and>
    (\<forall>a c. accountBalanceCents d' t a c = accountBalanceCents d t a c +
       (if c = wl_currency w then (if a = WALLET then n else if a = CASH then - n else 0) else 0)) \<and>
    paymentIntents d' = paymentIntents d \<and>
    (fits_column n \<and> fits_column (accountBalanceCents d t CASH (wl_currency w) - n) \<and>
     fits_column (accountBalanceCents d t WALLET (wl_currency w) + n) \<longrightarrow> rows_fit d d')"
proof -
  let ?c = "wl_currency w"
  let ?legs = "[(debit CASH n CAPTURE None ?c, credit WALLET n CAPTURE None ?c)]"
  obtain d1 where m: "wallet_moves e t w ?legs d = Inr d1" using wallet_pair_moves [of n CASH WALLET e t w CAPTURE ?c d] assms(3) by auto
  let ?r = "recordMovement e t w TX_TOP_UP n (wl_balance w + n) (fst (top_up_source w pid)) (snd (top_up_source w pid)) d1"
  have "topUpWallet e t i n pid d = Inr ?r"
    using assms m by (simp add: topUpWallet_def walletTopUp_def applyMovement_def Let_def)
  moreover have "balanceOf (pair_legs ?legs) a c = (if c = ?c then (if a = WALLET then n else if a = CASH then - n else 0) else 0)" for a c
    by (simp add: balanceOf_def pair_legs_def debit_def credit_def delta_def)
  ultimately show ?thesis
    using recorded_movement [OF assms(1) m, of "snd ?r" TX_TOP_UP n "wl_balance w + n" "fst (top_up_source w pid)" "snd (top_up_source w pid)"] pair_rows_fit [OF m]
    by (cases ?r) auto
qed

lemma adjust_down:
  assumes "loadActiveWallet t i d = Inr w" "0 < n" "n \<le> wl_balance w"
  shows "\<exists>x d'. adjustWallet e t i (- n) d = Inr (x, d') \<and> loadActiveWallet t i d' = Inr (w\<lparr>wl_balance := wl_balance w - n\<rparr>) \<and>
    (\<forall>a c. accountBalanceCents d' t a c = accountBalanceCents d t a c +
       (if c = wl_currency w then (if a = AVAILABLE then n else if a = WALLET then - n else 0) else 0)) \<and>
    paymentIntents d' = paymentIntents d \<and>
    (fits_column n \<and> fits_column (accountBalanceCents d t WALLET (wl_currency w) - n) \<and>
     fits_column (accountBalanceCents d t AVAILABLE (wl_currency w) + n) \<longrightarrow> rows_fit d d')"
proof -
  let ?c = "wl_currency w"
  let ?legs = "[(debit WALLET n ADJUSTMENT None ?c, credit AVAILABLE n ADJUSTMENT None ?c)]"
  obtain d1 where m: "wallet_moves e t w ?legs d = Inr d1" using wallet_pair_moves [of n WALLET AVAILABLE e t w ADJUSTMENT ?c d] assms(2) by auto
  let ?r = "recordMovement e t w TX_ADJUSTMENT (- n) (wl_balance w - n) ''wallet_adjust'' (wl_id w) d1"
  have "adjustWallet e t i (- n) d = Inr ?r"
    using assms m by (simp add: adjustWallet_def walletAdjustment_def applyMovement_def Let_def)
  moreover have "balanceOf (pair_legs ?legs) a c = (if c = ?c then (if a = AVAILABLE then n else if a = WALLET then - n else 0) else 0)" for a c
    by (simp add: balanceOf_def pair_legs_def debit_def credit_def delta_def)
  ultimately show ?thesis
    using recorded_movement [OF assms(1) m, of "snd ?r" TX_ADJUSTMENT "- n" "wl_balance w - n" "''wallet_adjust''" "wl_id w"] pair_rows_fit [OF m]
    by (cases ?r) auto
qed

text \<open>
  C9. An owner can create money to pay out. With any active wallet of the tenant whose commission is not taken on load (the default),
  a top-up of any amount, which no payment has to back, followed by a negative adjustment of the same amount leaves the wallet as it
  was and moves the amount from CASH to AVAILABLE, the balance from which payouts are made, without a payment and without
  commission. The amount and the balances it leads to have to fit the columns of the database, up to ten thousand million units; then
  so does every row that is booked.
\<close>

theorem owner_mints_balance:
  assumes "loadActiveWallet (ru_tenantId u) i (acc_db s) = Inr w"
    and "getEffectiveWalletCommissionBasis (acc_db s) (ru_tenantId u) \<noteq> ''load''"
    and "0 \<le> wl_balance w" "0 < n"
  defines "B \<equiv> \<lambda>a. accountBalanceCents (acc_db s) (ru_tenantId u) a (wl_currency w)"
  assumes "\<forall>x\<in>{n, wl_balance w + n, B WALLET, B WALLET + n, B CASH - n, B AVAILABLE + n}. fits_column x"
  shows "\<exists>r1 s1 r2 s2. topUpWalletRequest e1 i n None u s = (Inr r1, s1) \<and> adjustWalletRequest e2 i (- n) u s1 = (Inr r2, s2) \<and>
    loadActiveWallet (ru_tenantId u) i (acc_db s2) = Inr w \<and> paymentIntents (acc_db s2) = paymentIntents (acc_db s) \<and>
    (\<forall>a c. accountBalanceCents (acc_db s2) (ru_tenantId u) a c = accountBalanceCents (acc_db s) (ru_tenantId u) a c +
       (if c = wl_currency w then (if a = AVAILABLE then n else if a = CASH then - n else 0) else 0)) \<and>
    rows_fit (acc_db s) (acc_db s2)"
proof -
  let ?t = "ru_tenantId u"
  obtain x1 d1 where 1: "topUpWallet e1 ?t i n None (acc_db s) = Inr (x1, d1)"
      "loadActiveWallet ?t i d1 = Inr (w\<lparr>wl_balance := wl_balance w + n\<rparr>)" "paymentIntents d1 = paymentIntents (acc_db s)"
      "\<forall>a c. accountBalanceCents d1 ?t a c = accountBalanceCents (acc_db s) ?t a c +
         (if c = wl_currency w then (if a = WALLET then n else if a = CASH then - n else 0) else 0)"
      "rows_fit (acc_db s) d1"
    using topUp_usage [OF assms(1,2,4), of e1 None] assms(6) unfolding B_def by auto
  obtain x2 d2 where 2: "adjustWallet e2 ?t i (- n) d1 = Inr (x2, d2)"
      "loadActiveWallet ?t i d2 = Inr w" "paymentIntents d2 = paymentIntents d1"
      "\<forall>a c. accountBalanceCents d2 ?t a c = accountBalanceCents d1 ?t a c +
         (if c = wl_currency w then (if a = AVAILABLE then n else if a = WALLET then - n else 0) else 0)"
      "rows_fit d1 d2"
    using adjust_down [OF 1(2), of n e2] assms(3,4,6) 1(4) unfolding B_def by auto
  have top: "topUpWalletRequest e1 i n None u s = (Inr (toWalletResponse (fst x1), toTransactionResponse (snd x1)), s\<lparr>acc_db := d1\<rparr>)"
    using assms(4) by (simp add: topUpWalletRequest_def wallet_request_def transact_def topUpWalletSchema_def opt_ok_def body_ok_def
        require_def wallet_run_def 1(1) case_prod_beta)
  have "centimes (of_int (- n)) = - n" by (rule centimes_of_int)
  then have adj: "adjustWalletRequest e2 i (- n) u (s\<lparr>acc_db := d1\<rparr>) =
      (Inr (toWalletResponse (fst x2), toTransactionResponse (snd x2)), s\<lparr>acc_db := d2\<rparr>)"
    by (simp del: of_int_minus add: adjustWalletRequest_def wallet_request_def transact_def body_ok_def require_def wallet_run_def 2(1) case_prod_beta)
  show ?thesis using top adj 1(3,4) 2(2-4) rows_fit_trans [OF 1(5) 2(5)] by (intro exI conjI) (rule top, rule adj, auto)
qed

definition demo_wallet :: wallet where
  "demo_wallet = \<lparr>wl_id = ''w1'', wl_tenantId = ''t1'', wl_ownerType = OWNER_CUSTOMER, wl_ownerId = ''cust'', wl_balance = 0,
     wl_currency = MAD, wl_status = WALLET_ACTIVE\<rparr>"

definition demo_finance :: accounts where
  "demo_finance = demo_accounts\<lparr>acc_db := (acc_db demo_accounts)\<lparr>wallets := [demo_wallet]\<rparr>\<rparr>"

text \<open>An empty ledger; two requests later 50000 dirhams are available.\<close>

theorem owner_mints_balance_witness:
  "\<exists>r1 s1 r2 s2. topUpWalletRequest demo_env ''w1'' 5000000 None owner_request demo_finance = (Inr r1, s1) \<and>
     adjustWalletRequest demo_env ''w1'' (- 5000000) owner_request s1 = (Inr r2, s2) \<and>
     paymentIntents (acc_db s2) = [] \<and> accountBalanceCents (acc_db s2) ''t1'' AVAILABLE MAD = 5000000"
proof -
  have t: "ru_tenantId owner_request = ''t1''" by (simp add: owner_request_def)
  have w: "loadActiveWallet (ru_tenantId owner_request) ''w1'' (acc_db demo_finance) = Inr demo_wallet"
    by (simp add: t loadActiveWallet_def demo_finance_def demo_wallet_def)
  have b: "getEffectiveWalletCommissionBasis (acc_db demo_finance) (ru_tenantId owner_request) \<noteq> ''load''"
    by (simp add: getEffectiveWalletCommissionBasis_def getFinanceConfig_def resolveWalletCommissionBasis_def demo_finance_def
        demo_accounts_def empty_db_def DEFAULT_WALLET_COMMISSION_BASIS_def)
  have "accountBalanceCents (acc_db demo_finance) ''t1'' a MAD = 0" for a
    by (simp add: demo_finance_def demo_accounts_def empty_db_def accountBalanceCents_def)
  moreover have "paymentIntents (acc_db demo_finance) = []"
    "wl_currency demo_wallet = MAD" "wl_balance demo_wallet = 0"
    by (simp_all add: demo_finance_def demo_accounts_def empty_db_def demo_wallet_def)
  ultimately show ?thesis
    using owner_mints_balance [OF w b, of 5000000 demo_env demo_env] unfolding t by (fastforce simp: fits_column_def)
qed

definition http_answer :: "'a result \<times> accounts \<Rightarrow> nat \<times> string + 'a" where
  "http_answer r = map_sum errorHandler id (fst r)"

text \<open>
  Refusals that reach the client as internal errors. A statement or a reconciliation report that does not exist is answered 404 when
  it is read, as the API documents for every request on it, but 500 by the requests that change it; a refused change of the status of a
  statement is answered 500 as well. None of them changes anything.
\<close>

lemma refused_actions_internal:
  fixes e i u s
  defines "internal \<equiv> (500, ''INTERNAL_ERROR'')"
  shows "(getSettlementStatement (acc_db s) (ru_tenantId u) i = None \<longrightarrow>
      http_answer (getStatementRequest i u s) = Inl (404, ''STATEMENT_NOT_FOUND'') \<and>
      http_answer (finalizeStatementRequest e i u s) = Inl internal \<and> snd (finalizeStatementRequest e i u s) = s \<and>
      http_answer (voidStatementRequest i u s) = Inl internal \<and> snd (voidStatementRequest i u s) = s) \<and>
   (\<forall>r items. getSettlementStatement (acc_db s) (ru_tenantId u) i = Some (r, items) \<longrightarrow>
      (\<not> statement_canTransition (ss_status r) STATEMENT_FINALIZED \<longrightarrow>
         http_answer (finalizeStatementRequest e i u s) = Inl internal \<and> snd (finalizeStatementRequest e i u s) = s) \<and>
      (\<not> statement_canTransition (ss_status r) STATEMENT_VOID \<longrightarrow>
         http_answer (voidStatementRequest i u s) = Inl internal \<and> snd (voidStatementRequest i u s) = s)) \<and>
   (getReconciliationReport (acc_db s) (ru_tenantId u) i = None \<longrightarrow>
      http_answer (getReconciliationRequest i u s) = Inl (404, ''RECONCILIATION_NOT_FOUND'') \<and>
      http_answer (runReconciliationRequest i u s) = Inl internal \<and> snd (runReconciliationRequest i u s) = s \<and>
      http_answer (resolveReconciliationRequest i u s) = Inl internal \<and> snd (resolveReconciliationRequest i u s) = s)"
proof -
  note requests = http_answer_def errorHandler_def reading_def transact_def found_def internal_def
  show ?thesis
    by (intro conjI impI allI)
       (auto simp: requests getStatementRequest_def finalizeStatementRequest_def voidStatementRequest_def getReconciliationRequest_def
          runReconciliationRequest_def resolveReconciliationRequest_def getSettlementStatement_def getReconciliationReport_def
          finalizeSettlementStatement_def voidSettlementStatement_def runReconciliation_def resolveReconciliation_def
          statement_assertTransition_def require_def)
qed

end
