(* ===== verification/TenantDb.thy ===== *)
theory TenantDb
  imports Json
begin

text \<open>
  \<open>src/lib/tenant-db.ts\<close>: the database client of a tenant. Every query goes through \<open>withTenantFilter\<close>, which adds the tenant to
  the condition of the operations that take a filter. Arguments and conditions are JSON values; an operation with no arguments has \<open>None\<close>.
\<close>

section \<open>Definitions\<close>

definition TENANT_SCOPED_MODELS :: "string list" where
  "TENANT_SCOPED_MODELS =
     [''User'', ''ProviderConfig'', ''PaymentLink'', ''PaymentIntent'', ''Refund'', ''ApiKey'', ''Subscription'', ''InstallmentPlan'',
      ''InstallmentAgreement'', ''LedgerEntry'', ''FeeSchedule'', ''SettlementPolicy'', ''Payout'', ''PayoutItem'', ''Dispute'', ''Recovery'',
      ''SplitParty'', ''SplitRule'', ''Split'', ''ReconciliationReport'', ''SettlementStatement'', ''MerchantOnboarding'', ''FinanceConfig'',
      ''Wallet'', ''WalletTransaction'']"

text \<open>
  The models of \<open>prisma/schema.prisma\<close> and whether a row names its tenant: in a column that is never null, in one that may be null,
  or not at all.
\<close>

datatype tenant_column = NoTenant | NullableTenant | OwnTenant

definition schema_models :: "(string \<times> tenant_column) list" where
  "schema_models =
     [(''Tenant'', NoTenant), (''User'', OwnTenant), (''ProviderConfig'', OwnTenant), (''PaymentLink'', OwnTenant),
      (''PaymentIntent'', OwnTenant), (''ProviderTransaction'', NoTenant), (''Refund'', OwnTenant),
      (''WebhookEvent'', NullableTenant), (''ApiKey'', OwnTenant), (''AuditLog'', NullableTenant),
      (''ProviderHealth'', NoTenant), (''Subscription'', OwnTenant), (''BillingEvent'', NoTenant),
      (''InstallmentPlan'', OwnTenant), (''InstallmentAgreement'', OwnTenant), (''InstallmentCharge'', NoTenant),
      (''LedgerEntry'', OwnTenant), (''FeeSchedule'', OwnTenant), (''SettlementPolicy'', OwnTenant), (''Payout'', OwnTenant),
      (''PayoutItem'', NoTenant), (''Dispute'', OwnTenant), (''Recovery'', OwnTenant), (''SplitParty'', OwnTenant),
      (''SplitRule'', OwnTenant), (''Split'', OwnTenant), (''ReconciliationReport'', OwnTenant),
      (''ReconciliationLine'', NoTenant), (''SettlementStatement'', OwnTenant), (''SettlementStatementItem'', NoTenant),
      (''MerchantOnboarding'', OwnTenant), (''RiskDecision'', OwnTenant), (''FinanceConfig'', OwnTenant),
      (''Wallet'', OwnTenant), (''WalletTransaction'', OwnTenant)]"

definition FILTER_OPERATIONS :: "string list" where
  "FILTER_OPERATIONS = [''findMany'', ''findFirst'', ''findFirstOrThrow'', ''count'', ''aggregate'', ''groupBy'', ''updateMany'', ''deleteMany'']"

definition isTenantScopedModel :: "string \<Rightarrow> bool" where
  "isTenantScopedModel model \<longleftrightarrow> model \<in> set TENANT_SCOPED_MODELS"

text \<open>\<open>{ ...obj, k: v }\<close>: a key that exists keeps its place. Spreading \<open>null\<close> or \<open>undefined\<close> gives no field.\<close>

fun with_field :: "(string \<times> json) list \<Rightarrow> string \<Rightarrow> json \<Rightarrow> (string \<times> json) list" where
  "with_field [] k v = [(k, v)]"
| "with_field ((k', v') # kvs) k v = (if k' = k then (k, v) # kvs else (k', v') # with_field kvs k v)"

definition fields_of :: "json option \<Rightarrow> (string \<times> json) list" where
  "fields_of j = (case j of Some (JObj kvs) \<Rightarrow> kvs | _ \<Rightarrow> [])"

definition withTenantFilter :: "string \<Rightarrow> string \<Rightarrow> string \<Rightarrow> json option \<Rightarrow> json option" where
  "withTenantFilter tenantId model operation args =
     (if \<not> isTenantScopedModel model then args
      else if operation \<notin> set FILTER_OPERATIONS then args
      else let current = fields_of args
           in Some (JObj (with_field current ''where'' (JObj (with_field (fields_of (map_of current ''where'')) ''tenantId'' (JStr tenantId))))))"

section \<open>Properties\<close>

lemma map_of_with_field: "map_of (with_field kvs k v) = (map_of kvs)(k \<mapsto> v)"
  by (induction kvs k v rule: with_field.induct) auto

text \<open>
  When a row satisfies a condition: every field of the condition holds of the row. \<open>sat\<close> says what a single field means; the field
  \<open>tenantId\<close> with a text is an equality.
\<close>

definition satisfies :: "(string \<Rightarrow> json \<Rightarrow> 'row \<Rightarrow> bool) \<Rightarrow> json option \<Rightarrow> 'row \<Rightarrow> bool" where
  "satisfies sat cond row \<longleftrightarrow> (\<forall>(k, v) \<in> set (fields_of cond). sat k v row)"

definition where_of :: "json option \<Rightarrow> json option" where
  "where_of args = map_of (fields_of args) ''where''"

lemma fields_of_object [simp]: "fields_of (Some (JObj kvs)) = kvs"
  by (simp add: fields_of_def)

lemma filtered_condition:
  "isTenantScopedModel model \<Longrightarrow> operation \<in> set FILTER_OPERATIONS \<Longrightarrow>
   where_of (withTenantFilter tenantId model operation args) =
     Some (JObj (with_field (fields_of (where_of args)) ''tenantId'' (JStr tenantId)))"
  by (simp add: withTenantFilter_def where_of_def map_of_with_field Let_def)

lemma set_with_field:
  assumes "distinct (map fst kvs)"
  shows "set (with_field kvs k v) = insert (k, v) {kv \<in> set kvs. fst kv \<noteq> k}"
  using assms by (induction kvs k v rule: with_field.induct) force+

lemma scoped_models:
  "isTenantScopedModel model \<longleftrightarrow> model = ''PayoutItem'' \<or> map_of schema_models model = Some OwnTenant \<and> model \<noteq> ''RiskDecision''"
proof -
  have "distinct (map fst schema_models)" by (simp add: schema_models_def)
  then have "map_of schema_models model = Some OwnTenant \<longleftrightarrow> (model, OwnTenant) \<in> set schema_models" by simp
  then show ?thesis by (auto simp: isTenantScopedModel_def TENANT_SCOPED_MODELS_def schema_models_def)
qed



end
