(* ===== verification/ProviderCheckout.thy ===== *)
theory ProviderCheckout
  imports Checkout
begin

text \<open>
  \<open>createCheckoutSession\<close> of \<open>src/adapters/naps.adapter.ts\<close> and \<open>src/adapters/vps.adapter.ts\<close>, with the signatures of what the
  customer's browser carries to the provider, and \<open>src/adapters/fake.adapter.ts\<close>. SHA-256 (in hexadecimal) and \<open>JSON.stringify\<close>
  are arguments; \<open>URLSearchParams\<close> is modelled for ASCII texts.
\<close>

section \<open>Parameters\<close>

text \<open>
  The parameters of \<open>CreateCheckoutParams\<close> that theory Checkout leaves out. \<open>cp_preauthGiven\<close>: whether \<open>isPreauth\<close> is defined;
  the installment path leaves it out.
\<close>

record page_params = checkout_params +
  cp_preauthGiven :: bool
  cp_description :: string
  cp_returnUrl :: string
  cp_successUrl :: "string option"
  cp_cancelUrl :: "string option"
  cp_failureUrl :: "string option"
  cp_webhookUrl :: string
  cp_customerEmail :: "string option"
  cp_customerName :: "string option"
  cp_customerCountry :: "string option"
  cp_checkoutMode :: "string option"

section \<open>URLSearchParams\<close>

definition form_safe :: "char \<Rightarrow> bool" where
  "form_safe ch = (let n = of_char ch :: nat in 48 \<le> n \<and> n \<le> 57 \<or> 65 \<le> n \<and> n \<le> 90 \<or> 97 \<le> n \<and> n \<le> 122 \<or> ch \<in> set ''*-._'')"

definition hex_digit :: "nat \<Rightarrow> char" where
  "hex_digit k = ''0123456789ABCDEF'' ! k"

definition form_char :: "char \<Rightarrow> string" where
  "form_char ch =
     (if form_safe ch then [ch] else if ch = CHR '' '' then ''+''
      else let n = of_char ch :: nat in [CHR ''%'', hex_digit (n div 16), hex_digit (n mod 16)])"

definition form_encode :: "string \<Rightarrow> string" where
  "form_encode s = concat (map form_char s)"

definition form_field :: "string \<times> string \<Rightarrow> string" where
  "form_field kv = form_encode (fst kv) @ ''='' @ form_encode (snd kv)"

fun URLSearchParams_toString :: "(string \<times> string) list \<Rightarrow> string" where
  "URLSearchParams_toString [] = ''''"
| "URLSearchParams_toString [kv] = form_field kv"
| "URLSearchParams_toString (kv # kvs) = form_field kv @ ''&'' @ URLSearchParams_toString kvs"

section \<open>NAPS\<close>

record naps_credentials =
  nc_merchantId :: string
  nc_terminalId :: string
  nc_secretKey :: string
  nc_baseUrl :: string

definition field_or_empty :: "(string \<times> string) list \<Rightarrow> string \<Rightarrow> string" where
  "field_or_empty fs k = coalesce (map_of fs k) ''''"

definition buildSignature :: "(string \<Rightarrow> string) \<Rightarrow> naps_credentials \<Rightarrow> (string \<times> string) list \<Rightarrow> string" where
  "buildSignature sha256 c fs =
     toUpperCase (sha256 (field_or_empty fs ''MerchantID'' @ ''|'' @ field_or_empty fs ''TerminalID'' @ ''|'' @
       field_or_empty fs ''Amount'' @ ''|'' @ field_or_empty fs ''OrderID'' @ ''|'' @ nc_secretKey c))"

text \<open>\<open>replace(/\/$/, "")\<close>\<close>

definition drop_final_slash :: "string \<Rightarrow> string" where
  "drop_final_slash s = (if s \<noteq> '''' \<and> last s = CHR ''/'' then butlast s else s)"

definition buildUrl :: "naps_credentials \<Rightarrow> string \<Rightarrow> string" where
  "buildUrl c path = drop_final_slash (nc_baseUrl c) @ path"

definition naps_fields :: "naps_credentials \<Rightarrow> page_params \<Rightarrow> (string \<times> string) list" where
  "naps_fields c params =
     [(''MerchantID'', nc_merchantId c), (''TerminalID'', nc_terminalId c), (''OrderID'', cp_correlationId params),
      (''Amount'', toFixed (js_div (cp_amount params) 100) 2), (''Currency'', currency_code (cp_currency params)),
      (''Description'', cp_description params), (''ReturnURL'', cp_returnUrl params), (''WebhookURL'', cp_webhookUrl params),
      (''CustomerEmail'', coalesce (cp_customerEmail params) ''''), (''CustomerName'', coalesce (cp_customerName params) '''')]"

definition signed_fields :: "(string \<Rightarrow> string) \<Rightarrow> naps_credentials \<Rightarrow> page_params \<Rightarrow> (string \<times> string) list" where
  "signed_fields sha256 c params = naps_fields c params @ [(''Signature'', buildSignature sha256 c (naps_fields c params))]"

definition naps_createCheckoutSession :: "(string \<Rightarrow> string) \<Rightarrow> naps_credentials \<Rightarrow> page_params \<Rightarrow> checkout_result result" where
  "naps_createCheckoutSession sha256 c params =
     (let requestFields = signed_fields sha256 c params;
          qs = URLSearchParams_toString requestFields;
          redirectUrl = buildUrl c ''/checkout/start'' @ ''?'' @ qs
      in Inr \<lparr>kr_redirectUrl = redirectUrl, kr_providerRef = cp_correlationId params, kr_providerData = None\<rparr>)"

section \<open>VPS\<close>

record paywall_credentials =
  wc_merchantAccount :: string
  wc_paywallSecretKey :: string
  wc_paywallUrl :: string
  wc_skin :: "string option"
  wc_doFundsAuthOnly :: "bool option"
  wc_mode :: "string option"
  wc_paymentMethod :: "string option"
  wc_showPaymentProfiles :: "string option"

definition generatePaywallSignature :: "(string \<Rightarrow> string) \<Rightarrow> (json \<Rightarrow> string) \<Rightarrow> json \<Rightarrow> string \<Rightarrow> string" where
  "generatePaywallSignature sha256 stringify payload secretKey = sha256 (secretKey @ stringify payload)"

text \<open>\<open>c.mode || "DEEP_LINK"\<close>\<close>

definition paywall_mode :: "paywall_credentials \<Rightarrow> string" where
  "paywall_mode c = (case wc_mode c of None \<Rightarrow> ''DEEP_LINK'' | Some m \<Rightarrow> if m = '''' then ''DEEP_LINK'' else m)"

definition auth_only :: "paywall_credentials \<Rightarrow> page_params \<Rightarrow> bool" where
  "auth_only c params =
     coalesce (or_else (if cp_preauthGiven params then Some (cp_isPreauth params) else None) (wc_doFundsAuthOnly c)) False"

definition str_field :: "string \<Rightarrow> string option \<Rightarrow> (string \<times> json) list" where
  "str_field k v = (case v of None \<Rightarrow> [] | Some s \<Rightarrow> [(k, JStr s)])"

definition js_true_text :: "bool \<Rightarrow> string" where
  "js_true_text b = (if b then ''true'' else ''false'')"

text \<open>The payload in the order of its keys; a key whose value is undefined is left out, as \<open>JSON.stringify\<close> does.\<close>

definition paywall_payload :: "paywall_credentials \<Rightarrow> env \<Rightarrow> page_params \<Rightarrow> (string \<times> json) list" where
  "paywall_payload c e params =
     [(''merchantAccount'', JStr (wc_merchantAccount c)), (''timestamp'', JNum (of_int (now e div 1000))),
      (''skin'', JStr (coalesce (wc_skin c) ''vps-1-vue'')), (''doFundsAuthOnly'', JBool (auth_only c params)),
      (''customerId'', JStr (cp_correlationId params)),
      (''customerCountry'', JStr (coalesce (cp_customerCountry params) ''MA'')),
      (''customerLocale'', JStr (coalesce (cp_customerLocale params) ''en_US'')),
      (''customerName'', JStr (coalesce (cp_customerName params) ''Guest Customer''))] @
     str_field ''customerEmail'' (cp_customerEmail params) @
     [(''chargeId'', JStr (cp_correlationId params)), (''orderId'', JStr (cp_reference params)),
      (''price'', JStr (toFixed (js_div (cp_amount params) 100) 2)), (''currency'', JStr (currency_code (cp_currency params))),
      (''description'', JStr (cp_description params)), (''mode'', JStr (paywall_mode c))] @
     str_field ''paymentMethod'' (case wc_paymentMethod c of Some m \<Rightarrow> if m = '''' then None else Some m | None \<Rightarrow> None) @
     [(''savePaymentProfile'', JStr (js_true_text (cp_storePaymentProfile params))),
      (''showPaymentProfiles'', JStr (if cp_storePaymentProfile params then ''true'' else coalesce (wc_showPaymentProfiles c) ''false'')),
      (''callbackUrl'', JStr (cp_webhookUrl params)),
      (''successUrl'', JStr (coalesce (cp_successUrl params) (cp_returnUrl params))),
      (''failureUrl'', JStr (coalesce (cp_failureUrl params) (cp_returnUrl params))),
      (''cancelUrl'', JStr (coalesce (cp_cancelUrl params) (cp_returnUrl params)))]"

definition vps_createCheckoutSession ::
  "(string \<Rightarrow> string) \<Rightarrow> (json \<Rightarrow> string) \<Rightarrow> paywall_credentials \<Rightarrow> env \<Rightarrow> page_params \<Rightarrow> checkout_result result" where
  "vps_createCheckoutSession sha256 stringify c e params =
     (let payload = JObj (paywall_payload c e params);
          signature = generatePaywallSignature sha256 stringify payload (wc_paywallSecretKey c)
      in Inr \<lparr>kr_redirectUrl = wc_paywallUrl c, kr_providerRef = cp_correlationId params,
              kr_providerData = Some [(''paywallUrl'', JStr (wc_paywallUrl c)), (''payload'', JStr (stringify payload)),
                (''signature'', JStr signature), (''chargeId'', JStr (cp_correlationId params)), (''mode'', JStr (paywall_mode c))]\<rparr>)"

section \<open>The fake adapter\<close>

text \<open>
  The adapter of the demonstration mode, as \<open>getAdapter\<close> makes it. It returns a provider's status unchanged; \<open>as_status\<close> reads the
  text as a status.
\<close>

definition fake_createCheckoutSession :: "page_params \<Rightarrow> checkout_result result" where
  "fake_createCheckoutSession params =
     Inr \<lparr>kr_redirectUrl = ''https://fake.example/checkout'', kr_providerRef = cp_correlationId params, kr_providerData = None\<rparr>"

definition fake_action :: "string \<Rightarrow> rat \<Rightarrow> currency \<Rightarrow> action_result result" where
  "fake_action providerRef amount c = Inr \<lparr>ar_success = True, ar_status = None, ar_rawResponse = JObj []\<rparr>"

definition fake_queryTransactionStatus :: "payment_intent_status option \<Rightarrow> string \<Rightarrow> query_status_result result" where
  "fake_queryTransactionStatus status providerRef =
     Inr \<lparr>qs_status = coalesce status INTENT_SUCCEEDED, qs_providerTransactionId = Some (''fake-tx-'' @ providerRef),
          qs_rawResponse = JObj []\<rparr>"

definition fake_refund :: "string \<Rightarrow> rat \<Rightarrow> currency \<Rightarrow> refund_result result" where
  "fake_refund providerRef amount c =
     Inr \<lparr>fr_success = True, fr_providerRefundRef = Some (''fake-refund-'' @ providerRef), fr_rawResponse = JObj []\<rparr>"

definition FakeAdapter ::
  "(string \<Rightarrow> payment_intent_status) \<Rightarrow> payment_intent_status option \<Rightarrow> bool option \<Rightarrow> provider_adapter" where
  "FakeAdapter as_status status signatureValid =
     \<lparr>ad_capturePayment = fake_action, ad_cancelPayment = fake_action,
      ad_queryTransactionStatus = fake_queryTransactionStatus status, ad_refund = fake_refund,
      ad_verifyWebhookSignature = (\<lambda>rawBody h. coalesce signatureValid True), ad_mapStatusToInternal = as_status\<rparr>"

section \<open>Reading the query\<close>

text \<open>A reference decoder of \<open>application/x-www-form-urlencoded\<close> texts, as the provider's server reads them.\<close>

definition hex_val :: "char \<Rightarrow> nat" where
  "hex_val ch = (let n = of_char ch :: nat in if n \<le> 57 then n - 48 else n - 55)"

fun form_decode :: "string \<Rightarrow> string" where
  "form_decode [] = []"
| "form_decode (ch # s) =
     (if ch = CHR ''+'' then CHR '' '' # form_decode s
      else if ch = CHR ''%'' then (case s of a # b # r \<Rightarrow> char_of (16 * hex_val a + hex_val b) # form_decode r | _ \<Rightarrow> ch # form_decode s)
      else ch # form_decode s)"

fun split_amp :: "string \<Rightarrow> string list" where
  "split_amp [] = [[]]"
| "split_amp (ch # s) =
     (if ch = CHR ''&'' then [] # split_amp s else (case split_amp s of [] \<Rightarrow> [[ch]] | x # xs \<Rightarrow> (ch # x) # xs))"

definition parse_field :: "string \<Rightarrow> string \<times> string" where
  "parse_field s = (form_decode (takeWhile (\<lambda>ch. ch \<noteq> CHR ''='') s), form_decode (tl (dropWhile (\<lambda>ch. ch \<noteq> CHR ''='') s)))"

definition parse_query :: "string \<Rightarrow> (string \<times> string) list" where
  "parse_query s = map parse_field (split_amp s)"

lemma hex_val_digit:
  assumes "k < 16"
  shows "hex_val (hex_digit k) = k"
proof -
  have "\<forall>k < (16::nat). hex_val (hex_digit k) = k" by code_simp
  with assms show ?thesis by blast
qed

lemma hex_digit_plain:
  assumes "k < 16"
  shows "hex_digit k \<notin> {CHR ''&'', CHR ''=''}"
proof -
  have "\<forall>k < (16::nat). hex_digit k \<notin> {CHR ''&'', CHR ''=''}" by code_simp
  with assms show ?thesis by blast
qed

lemma hex_bounds: "(of_char ch :: nat) div 16 < 16" "(of_char ch :: nat) mod 16 < 16"
proof -
  have "(of_char ch :: nat) < 256" using mod_less_divisor [of 256 "of_char ch :: nat"] by simp
  then show "(of_char ch :: nat) div 16 < 16" "(of_char ch :: nat) mod 16 < 16" by (auto intro: less_mult_imp_div_less)
qed

lemma form_char_plain: "x \<in> set (form_char ch) \<Longrightarrow> x \<noteq> CHR ''&'' \<and> x \<noteq> CHR ''=''"
  using hex_digit_plain [OF hex_bounds(1) [of ch]] hex_digit_plain [OF hex_bounds(2) [of ch]]
  by (auto simp: form_char_def form_safe_def Let_def split: if_splits)

lemma form_encode_plain: "x \<in> set (form_encode s) \<Longrightarrow> x \<noteq> CHR ''&'' \<and> x \<noteq> CHR ''=''"
  by (auto simp: form_encode_def dest: form_char_plain)

lemma form_decode_char: "form_decode (form_char ch @ s) = ch # form_decode s"
proof -
  have "form_safe ch \<Longrightarrow> ch \<noteq> CHR ''+'' \<and> ch \<noteq> CHR ''%''" by (auto simp: form_safe_def Let_def)
  then show ?thesis
    by (simp add: form_char_def Let_def hex_val_digit [OF hex_bounds(1)] hex_val_digit [OF hex_bounds(2)])
qed

lemma form_decode_encode [simp]: "form_decode (form_encode s) = s"
  by (induction s) (simp_all add: form_encode_def form_decode_char)

lemma split_amp_plain: "CHR ''&'' \<notin> set x \<Longrightarrow> split_amp x = [x]"
  by (induction x) auto

lemma split_amp_append: "CHR ''&'' \<notin> set x \<Longrightarrow> split_amp (x @ CHR ''&'' # y) = x # split_amp y"
  by (induction x) auto

lemma form_field_plain: "CHR ''&'' \<notin> set (form_field kv)"
  by (auto simp: form_field_def dest: form_encode_plain)

lemma parse_form_field [simp]: "parse_field (form_field kv) = kv"
proof -
  have "takeWhile (\<lambda>ch. ch \<noteq> CHR ''='') (form_encode (fst kv) @ CHR ''='' # r) = form_encode (fst kv)"
    "dropWhile (\<lambda>ch. ch \<noteq> CHR ''='') (form_encode (fst kv) @ CHR ''='' # r) = CHR ''='' # r" for r
    by (auto simp: takeWhile_append dropWhile_append takeWhile_eq_all_conv dest: form_encode_plain)
  then show ?thesis by (simp add: parse_field_def form_field_def)
qed

lemma parse_query_toString:
  assumes "kvs \<noteq> []"
  shows "parse_query (URLSearchParams_toString kvs) = kvs"
  using assms
  by (induction kvs rule: URLSearchParams_toString.induct)
     (simp_all add: parse_query_def split_amp_plain split_amp_append form_field_plain)

section \<open>What the provider is told\<close>

text \<open>
  The address of a NAPS checkout carries exactly the fields of the request, whatever characters they have, and the amount in it
  is that of the payment to the centime; for VPS the price is, and the signature is that of the stored payload.
\<close>

lemma naps_checkout_request:
  assumes "cp_amount params = of_int m" "\<bar>m\<bar> \<le> 2 ^ 50"
  obtains r qs where "naps_createCheckoutSession sha256 c params = Inr r" "kr_providerRef r = cp_correlationId params"
    "kr_redirectUrl r = buildUrl c ''/checkout/start'' @ ''?'' @ qs" "parse_query qs = signed_fields sha256 c params"
    "literal_value (the (map_of (parse_query qs) ''Amount'')) = of_int m / 100"
proof -
  have p: "parse_query (URLSearchParams_toString (signed_fields sha256 c params)) = signed_fields sha256 c params"
    by (rule parse_query_toString) (simp add: signed_fields_def)
  have "js_div (of_int m) 100 = fromMinor m MAD" using assms(2) by (simp add: fromMinor_def' js_div_def)
  then have "literal_value (the (map_of (signed_fields sha256 c params) ''Amount'')) = of_int m / 100"
    using toMinorString_value [OF assms(2), of MAD] assms(1) by (simp add: signed_fields_def naps_fields_def toMinorString_def)
  with p show ?thesis
    by (intro that [of "projr (naps_createCheckoutSession sha256 c params)" "URLSearchParams_toString (signed_fields sha256 c params)"])
       (simp_all add: naps_createCheckoutSession_def)
qed

lemma vps_checkout_request:
  assumes "cp_amount params = of_int m" "\<bar>m\<bar> \<le> 2 ^ 50"
  obtains r kvs body where "vps_createCheckoutSession sha256 stringify c e params = Inr r" "kr_providerData r = Some kvs"
    "map_of kvs ''payload'' = Some (JStr body)" "map_of kvs ''signature'' = Some (JStr (sha256 (wc_paywallSecretKey c @ body)))"
    "body = stringify (JObj (paywall_payload c e params))"
    "map_option literal_value (json_string (json_field (JObj (paywall_payload c e params)) ''price'')) = Some (of_int m / 100)"
proof -
  have "js_div (of_int m) 100 = fromMinor m MAD" using assms(2) by (simp add: fromMinor_def' js_div_def)
  then have "map_option literal_value (json_string (json_field (JObj (paywall_payload c e params)) ''price'')) = Some (of_int m / 100)"
    using toMinorString_value [OF assms(2), of MAD] assms(1)
    by (simp add: paywall_payload_def str_field_def json_field_def json_string_def toMinorString_def split: option.split)
  then show ?thesis
    by (intro that [of "projr (vps_createCheckoutSession sha256 stringify c e params)"
          "the (kr_providerData (projr (vps_createCheckoutSession sha256 stringify c e params)))" "stringify (JObj (paywall_payload c e params))"])
       (simp_all add: vps_createCheckoutSession_def generatePaywallSignature_def Let_def)
qed

text \<open>
  Holding a payment for review. The VPS adapter passes the wish on; NAPS is asked for the same checkout with and without it, so a
  payment under review is charged at once. The setting \<open>doFundsAuthOnly\<close> of the VPS credentials only has an effect on the path
  that leaves \<open>isPreauth\<close> out, that of the installments.
\<close>

lemma naps_ignores_hold:
  "naps_createCheckoutSession sha256 c (params\<lparr>cp_isPreauth := b, cp_preauthGiven := g\<rparr>) = naps_createCheckoutSession sha256 c params"
  by (simp add: naps_createCheckoutSession_def signed_fields_def naps_fields_def)

lemma vps_hold:
  "json_field (JObj (paywall_payload c e params)) ''doFundsAuthOnly'' =
     Some (JBool (if cp_preauthGiven params then cp_isPreauth params else wc_doFundsAuthOnly c = Some True))"
  by (cases "wc_doFundsAuthOnly c") (simp_all add: paywall_payload_def json_field_def auth_only_def)

text \<open>The signature of a NAPS checkout does not cover the currency, nor the addresses the customer and the notifications are sent to.\<close>

lemma naps_signature_partial:
  "buildSignature sha256 c (naps_fields c (params\<lparr>cp_currency := x, cp_returnUrl := u, cp_webhookUrl := w\<rparr>)) =
     buildSignature sha256 c (naps_fields c params)"
  by (simp add: buildSignature_def naps_fields_def field_or_empty_def)

end
