(* ===== verification/StripeAdapter.thy ===== *)
theory StripeAdapter
  imports ProviderCheckout Auth
begin

text \<open>
  \<open>src/adapters/stripe.adapter.ts\<close>, less \<open>createPayout\<close> (theory PayoutRoute) and \<open>testConnection\<close> (theory ProviderConfig), and
  what the actions on payments do with it. The \<open>stripe\<close> package is a third party's: \<open>stripe\<close> maps each call the adapter makes
  to the object that the package returns, or to what it throws, and \<open>constructEvent\<close> is its check of a signature.
\<close>

section \<open>The calls of the package\<close>

text \<open>
  The requests. In \<open>SessionsCreate\<close> the one line item is its currency, the text used as name and description, and the amount;
  the metadata are the correlation id, under two names, on the session and on its payment intent.
\<close>

record session_params =
  ss_currency :: string
  ss_name :: string
  ss_unit_amount :: rat
  ss_success_url :: string
  ss_cancel_url :: string
  ss_metadata :: "(string \<times> string) list"
  ss_customer_email :: "string option"
  ss_capture_method :: string
  ss_intent_metadata :: "(string \<times> string) list"

record intent_params =
  sq_amount :: rat
  sq_currency :: string
  sq_description :: string
  sq_capture_method :: string
  sq_metadata :: "(string \<times> string) list"
  sq_receipt_email :: "string option"

text \<open>The fields of the package's objects that the adapter reads, and the object itself, which it passes on.\<close>

record stripe_intent =
  st_id :: string
  st_status :: string
  st_client_secret :: "string option"
  st_latest_charge :: "string option"
  st_raw :: json

record stripe_session =
  sn_id :: string
  sn_url :: "string option"
  sn_payment_intent :: "string option"
  sn_payment_status :: string
  sn_expanded_intent :: "stripe_intent option"
  sn_raw :: json

record stripe_refund =
  sf_id :: string
  sf_status :: "string option"
  sf_raw :: json

record stripe_transfer =
  sx_id :: string
  sx_reversed :: bool
  sx_raw :: json

record stripe_dispute =
  sd_id :: string
  sd_status :: string
  sd_amount :: int
  sd_currency :: string
  sd_reason :: "string option"
  sd_evidence_details :: "int option option"
  sd_charge :: "string option"

record stripe_client =
  sessions_create :: "session_params \<Rightarrow> stripe_session result"
  sessions_retrieve :: "string \<Rightarrow> stripe_session result"
  intents_create :: "intent_params \<Rightarrow> stripe_intent result"
  intents_retrieve :: "string \<Rightarrow> stripe_intent result"
  intents_capture :: "string \<Rightarrow> rat \<Rightarrow> stripe_intent result"
  intents_cancel :: "string \<Rightarrow> stripe_intent result"
  refunds_create :: "string \<Rightarrow> rat \<Rightarrow> stripe_refund result"
  transfers_retrieve :: "string \<Rightarrow> stripe_transfer result"
  disputes_list :: "nat \<Rightarrow> (stripe_dispute list \<times> json) result"
  disputes_update :: "string \<Rightarrow> (string \<times> string) list \<Rightarrow> json result"

section \<open>The adapter\<close>

record stripe_credentials =
  sc_webhookSecret :: string
  sc_publishableKey :: "string option"

text \<open>Its answer for a payment inside the page.\<close>

record stripe_checkout = checkout_result +
  kr_stripeData :: "(string \<times> string) option"

definition stripe_mapStatusToInternal :: "string \<Rightarrow> payment_intent_status" where
  "stripe_mapStatusToInternal providerStatus = mapStripeStatus providerStatus"

definition correlation_metadata :: "page_params \<Rightarrow> (string \<times> string) list" where
  "correlation_metadata params = [(''correlationId'', cp_correlationId params), (''corpopayRef'', cp_correlationId params)]"

definition capture_method :: "page_params \<Rightarrow> string" where
  "capture_method params = (if cp_isPreauth params then ''manual'' else ''automatic'')"

text \<open>\<open>customerEmail ? { ... } : {}\<close>\<close>

definition given_email :: "page_params \<Rightarrow> string option" where
  "given_email params = (case cp_customerEmail params of Some m \<Rightarrow> if m = '''' then None else Some m | None \<Rightarrow> None)"

definition json_or_null :: "string option \<Rightarrow> json" where
  "json_or_null v = (case v of None \<Rightarrow> JNull | Some s \<Rightarrow> JStr s)"

definition pi_params :: "page_params \<Rightarrow> intent_params" where
  "pi_params params =
     \<lparr>sq_amount = cp_amount params, sq_currency = toLowerCase (currency_code (cp_currency params)),
      sq_description = cp_description params, sq_capture_method = capture_method params,
      sq_metadata = correlation_metadata params, sq_receipt_email = given_email params\<rparr>"

definition createPaymentIntent :: "stripe_client \<Rightarrow> stripe_credentials \<Rightarrow> page_params \<Rightarrow> stripe_checkout result" where
  "createPaymentIntent stripe c params =
     ebind (intents_create stripe (pi_params params)) (\<lambda>intent.
     case st_client_secret intent of
       None \<Rightarrow> Inl (JsError ''Stripe did not return a client_secret for the PaymentIntent.'')
     | Some secret \<Rightarrow>
         if secret = '''' then Inl (JsError ''Stripe did not return a client_secret for the PaymentIntent.'')
         else Inr \<lparr>kr_redirectUrl = '''', kr_providerRef = st_id intent,
                kr_providerData = Some [(''paymentIntentId'', JStr (st_id intent)), (''publishableKey'', json_or_null (sc_publishableKey c)),
                  (''clientSecret'', JStr secret)],
                kr_stripeData = Some (secret, coalesce (sc_publishableKey c) '''')\<rparr>)"

definition success_url :: "string \<Rightarrow> string" where
  "success_url url = url @ (if CHR ''?'' \<in> set url then ''&'' else ''?'') @ ''session_id={CHECKOUT_SESSION_ID}''"

definition session_request :: "page_params \<Rightarrow> session_params" where
  "session_request params =
     \<lparr>ss_currency = toLowerCase (currency_code (cp_currency params)), ss_name = cp_description params,
      ss_unit_amount = cp_amount params,
      ss_success_url = success_url (coalesce (cp_successUrl params) (cp_returnUrl params)),
      ss_cancel_url = coalesce (cp_cancelUrl params) (cp_returnUrl params),
      ss_metadata = correlation_metadata params, ss_customer_email = given_email params,
      ss_capture_method = capture_method params, ss_intent_metadata = correlation_metadata params\<rparr>"

text \<open>The modes in which the customer pays inside the merchant's page.\<close>

definition element_mode :: "page_params \<Rightarrow> bool" where
  "element_mode params \<longleftrightarrow> cp_checkoutMode params = Some ''element'' \<or> cp_walletMode params = Some ''apple_pay'' \<or>
     cp_walletMode params = Some ''google_pay''"

text \<open>
  An address \<open>session.url\<close> that is \<open>null\<close> is the empty text here; the callers only ask whether there is one.
\<close>

definition stripe_createCheckoutSession :: "stripe_client \<Rightarrow> stripe_credentials \<Rightarrow> page_params \<Rightarrow> stripe_checkout result" where
  "stripe_createCheckoutSession stripe c params =
     (if element_mode params then createPaymentIntent stripe c params
      else ebind (sessions_create stripe (session_request params)) (\<lambda>session.
        Inr \<lparr>kr_redirectUrl = coalesce (sn_url session) '''',
             kr_providerRef = coalesce (sn_payment_intent session) (sn_id session),
             kr_providerData = Some [(''sessionId'', JStr (sn_id session)),
               (''paymentIntentId'', json_or_null (sn_payment_intent session)),
               (''publishableKey'', json_or_null (sc_publishableKey c))],
             kr_stripeData = None\<rparr>))"

definition stripe_capturePayment :: "stripe_client \<Rightarrow> string \<Rightarrow> rat \<Rightarrow> currency \<Rightarrow> action_result result" where
  "stripe_capturePayment stripe providerRef amount c =
     ebind (intents_capture stripe providerRef amount) (\<lambda>intent.
       Inr \<lparr>ar_success = (st_status intent = ''succeeded''), ar_status = Some (stripe_mapStatusToInternal (st_status intent)),
            ar_rawResponse = st_raw intent\<rparr>)"

definition stripe_cancelPayment :: "stripe_client \<Rightarrow> string \<Rightarrow> rat \<Rightarrow> currency \<Rightarrow> action_result result" where
  "stripe_cancelPayment stripe providerRef amount c =
     ebind (intents_cancel stripe providerRef) (\<lambda>intent.
       Inr \<lparr>ar_success = (st_status intent = ''canceled''), ar_status = Some (stripe_mapStatusToInternal (st_status intent)),
            ar_rawResponse = st_raw intent\<rparr>)"

definition stripe_queryTransactionStatus :: "stripe_client \<Rightarrow> string \<Rightarrow> query_status_result result" where
  "stripe_queryTransactionStatus stripe providerRef =
     (if startsWith ''cs_'' providerRef
      then ebind (sessions_retrieve stripe providerRef) (\<lambda>session.
        let sessionStatus = stripe_mapStatusToInternal (sn_payment_status session)
        in case sn_expanded_intent session of
             Some intent \<Rightarrow> Inr \<lparr>qs_status = stripe_mapStatusToInternal (st_status intent), qs_providerTransactionId = st_latest_charge intent,
                            qs_rawResponse = sn_raw session\<rparr>
           | None \<Rightarrow> Inr \<lparr>qs_status = sessionStatus, qs_providerTransactionId = None, qs_rawResponse = sn_raw session\<rparr>)
      else ebind (intents_retrieve stripe providerRef) (\<lambda>intent.
        Inr \<lparr>qs_status = stripe_mapStatusToInternal (st_status intent), qs_providerTransactionId = st_latest_charge intent,
             qs_rawResponse = st_raw intent\<rparr>))"

definition stripe_refund_payment :: "stripe_client \<Rightarrow> string \<Rightarrow> rat \<Rightarrow> currency \<Rightarrow> refund_result result" where
  "stripe_refund_payment stripe providerRef amount c =
     ebind (refunds_create stripe providerRef amount) (\<lambda>r.
       Inr \<lparr>fr_success = (sf_status r = Some ''succeeded'' \<or> sf_status r = Some ''pending''),
            fr_providerRefundRef = Some (sf_id r), fr_rawResponse = sf_raw r\<rparr>)"

definition stripe_verifyWebhookSignature ::
  "(string \<Rightarrow> string \<Rightarrow> string \<Rightarrow> bool) \<Rightarrow> stripe_credentials \<Rightarrow> string \<Rightarrow> headers \<Rightarrow> bool" where
  "stripe_verifyWebhookSignature constructEvent c rawBody h =
     (let sig = coalesce (or_else (h ''stripe-signature'') (h ''Stripe-Signature'')) '''';
          secret = sc_webhookSecret c
      in if sig = '''' \<or> secret = '''' then False else constructEvent rawBody sig secret)"

definition StripeAdapter ::
  "(string \<Rightarrow> string \<Rightarrow> string \<Rightarrow> bool) \<Rightarrow> stripe_credentials \<Rightarrow> stripe_client \<Rightarrow> provider_adapter" where
  "StripeAdapter constructEvent c stripe =
     \<lparr>ad_capturePayment = stripe_capturePayment stripe, ad_cancelPayment = stripe_cancelPayment stripe,
      ad_queryTransactionStatus = stripe_queryTransactionStatus stripe, ad_refund = stripe_refund_payment stripe,
      ad_verifyWebhookSignature = stripe_verifyWebhookSignature constructEvent c, ad_mapStatusToInternal = stripe_mapStatusToInternal\<rparr>"

subsection \<open>Payouts and disputes\<close>

record payout_status_result =
  ps_status :: payout_status
  ps_providerTransferId :: "string option"
  ps_rawResponse :: json

definition stripe_getPayoutStatus :: "stripe_client \<Rightarrow> string \<Rightarrow> payout_status_result result" where
  "stripe_getPayoutStatus stripe providerTransferId =
     ebind (transfers_retrieve stripe providerTransferId) (\<lambda>transfer.
       Inr \<lparr>ps_status = (if sx_reversed transfer then PAYOUT_FAILED else PAYOUT_PAID), ps_providerTransferId = Some (sx_id transfer),
            ps_rawResponse = sx_raw transfer\<rparr>)"

record dispute_summary =
  ds_providerDisputeId :: string
  ds_status :: string
  ds_amount :: int
  ds_currency :: string
  ds_reason :: "string option"
  ds_evidenceDueDate :: "int option"
  ds_chargeId :: "string option"

text \<open>\<open>d.evidence_details?.due_by ? new Date(... * 1000) : null\<close>, where 0 counts as absent.\<close>

definition evidence_due :: "int option option \<Rightarrow> int option" where
  "evidence_due details =
     (case Option.bind details id of Some due_by \<Rightarrow> if due_by = 0 then None else Some (due_by * 1000) | None \<Rightarrow> None)"

definition dispute_summary_of :: "stripe_dispute \<Rightarrow> dispute_summary" where
  "dispute_summary_of s =
     \<lparr>ds_providerDisputeId = sd_id s, ds_status = sd_status s, ds_amount = sd_amount s, ds_currency = toUpperCase (sd_currency s),
      ds_reason = sd_reason s, ds_evidenceDueDate = evidence_due (sd_evidence_details s), ds_chargeId = sd_charge s\<rparr>"

definition stripe_listDisputes :: "stripe_client \<Rightarrow> (dispute_summary list \<times> json) result" where
  "stripe_listDisputes stripe = ebind (disputes_list stripe 100) (\<lambda>(data, raw). Inr (map dispute_summary_of data, raw))"

definition stripe_submitDisputeEvidence :: "stripe_client \<Rightarrow> string \<Rightarrow> (string \<times> string) list \<Rightarrow> (bool \<times> json) result" where
  "stripe_submitDisputeEvidence stripe providerDisputeId evidence =
     ebind (disputes_update stripe providerDisputeId evidence) (\<lambda>raw. Inr (True, raw))"

section \<open>Checkouts\<close>

text \<open>
  \<open>createCheckoutSession\<close> as the payment routes call it: they give the parameters that theory Checkout models and, in \<open>page\<close>, the
  texts, addresses and the mode of the page.
\<close>

definition with_page :: "checkout_params \<Rightarrow> page_params \<Rightarrow> page_params" where
  "with_page params page = checkout_params.extend params (checkout_params.more page)"

definition stripe_session_of ::
  "stripe_client \<Rightarrow> stripe_credentials \<Rightarrow> (checkout_params \<Rightarrow> page_params) \<Rightarrow> checkout_params \<Rightarrow> checkout_result result" where
  "stripe_session_of stripe c page params =
     ebind (stripe_createCheckoutSession stripe c (with_page params (page params))) (\<lambda>r. Inr (checkout_result.truncate r))"

lemma with_page_fields [simp]:
  "cp_amount (with_page params page) = cp_amount params" "cp_currency (with_page params page) = cp_currency params"
  "cp_isPreauth (with_page params page) = cp_isPreauth params" "cp_walletMode (with_page params page) = cp_walletMode params"
  "cp_correlationId (with_page params page) = cp_correlationId params" "cp_checkoutMode (with_page params page) = cp_checkoutMode page"
  by (cases params; cases page; simp add: with_page_def checkout_params.extend_def)+

text \<open>A hosted checkout: the session carries the amount, the capture mode and the correlation id that webhooks are matched with.\<close>

lemma hosted_checkout:
  assumes "stripe_session_of stripe c page params = Inr r" "\<not> element_mode (with_page params (page params))"
  obtains q session where "sessions_create stripe q = Inr session" "kr_providerRef r = coalesce (sn_payment_intent session) (sn_id session)"
    "ss_unit_amount q = cp_amount params" "ss_currency q = toLowerCase (currency_code (cp_currency params))"
    "ss_capture_method q = ''manual'' \<longleftrightarrow> cp_isPreauth params" "map_of (ss_intent_metadata q) ''correlationId'' = Some (cp_correlationId params)"
    "json_field (stored_provider_data r) ''clientSecret'' = None"
proof -
  let ?q = "session_request (with_page params (page params))"
  from assms obtain session where s: "sessions_create stripe ?q = Inr session"
    "r = \<lparr>kr_redirectUrl = coalesce (sn_url session) '''', kr_providerRef = coalesce (sn_payment_intent session) (sn_id session),
       kr_providerData = Some [(''sessionId'', JStr (sn_id session)), (''paymentIntentId'', json_or_null (sn_payment_intent session)),
         (''publishableKey'', json_or_null (sc_publishableKey c))]\<rparr>"
    by (auto simp: stripe_session_of_def stripe_createCheckoutSession_def checkout_result.truncate_def)
  show ?thesis
    by (rule that [OF s(1)])
       (simp_all add: s(2) session_request_def capture_method_def correlation_metadata_def stored_provider_data_def json_field_def)
qed

lemma element_checkout:
  assumes "stripe_session_of stripe c page params = Inr r" "element_mode (with_page params (page params))"
  obtains q intent where "intents_create stripe q = Inr intent" "kr_providerRef r = st_id intent" "kr_redirectUrl r = ''''"
    "sq_amount q = cp_amount params" "sq_currency q = toLowerCase (currency_code (cp_currency params))"
    "sq_capture_method q = ''manual'' \<longleftrightarrow> cp_isPreauth params" "wallet_answer r"
proof -
  let ?q = "pi_params (with_page params (page params))"
  from assms obtain intent secret where s: "intents_create stripe ?q = Inr intent" "secret \<noteq> ''''"
    "r = \<lparr>kr_redirectUrl = '''', kr_providerRef = st_id intent, kr_providerData = Some [(''paymentIntentId'', JStr (st_id intent)),
         (''publishableKey'', json_or_null (sc_publishableKey c)), (''clientSecret'', JStr secret)]\<rparr>"
    by (auto simp: stripe_session_of_def stripe_createCheckoutSession_def createPaymentIntent_def checkout_result.truncate_def
        split: option.splits if_splits)
  show ?thesis
    by (rule that [OF s(1)])
       (simp_all add: s pi_params_def capture_method_def wallet_answer_def stored_provider_data_def json_field_def)
qed

lemma wallet_answer_iff:
  assumes "stripe_session_of stripe c page params = Inr r"
  shows "wallet_answer r \<longleftrightarrow> element_mode (with_page params (page params))"
proof (cases "element_mode (with_page params (page params))")
  case True
  then show ?thesis using element_checkout [OF assms] by metis
next
  case False
  obtain q s where "json_field (stored_provider_data r) ''clientSecret'' = None" by (rule hosted_checkout [OF assms False])
  with False show ?thesis by (simp add: wallet_answer_def)
qed

text \<open>
  The duplicate check of \<open>POST /payment-intents\<close> over this adapter: it works in every mode but \<open>checkoutMode: "element"\<close>
  without a wallet, in which a request is never recognised when it is repeated and opens another payment.
\<close>

lemma stripe_request_repeats:
  assumes "createIntent scorer fxp cs e t body d = (Inr resp, d')" "re_status resp = 201"
    "\<forall>x\<in>set (paymentIntents d). in_id x \<noteq> fresh e d" "existing_intent e t (ci_reference body) d = None"
    "now e \<le> now e'" "now e' \<le> now e + 5 * 60 * 1000"
    "\<forall>k. cs (ci_provider body) k = Inr (stripe_session_of stripe c page)" "\<forall>params. cp_checkoutMode (page params) \<noteq> Some ''element''"
  shows "createIntent scorer' fxp' cs' e' t body d' = (Inr (resp\<lparr>re_status := 200, re_idempotent := True\<rparr>), d')"
proof (rule createIntent_idempotent [OF assms(1-6)], intro allI impI)
  fix k session params r
  assume "cs (ci_provider body) k = Inr session \<and> session params = Inr r \<and> cp_walletMode params = ci_walletMode body"
  with assms(7) have "stripe_session_of stripe c page params = Inr r" "cp_walletMode params = ci_walletMode body" by auto
  with wallet_answer_iff [of stripe c page params r] assms(8) show "wallet_answer r = is_wallet_request body"
    by (simp add: element_mode_def is_wallet_request_def)
qed

lemma element_request_duplicates:
  assumes "createIntent scorer fxp cs e t body d = (Inr resp, d')" "re_status resp = 201"
    "\<forall>x\<in>set (paymentIntents d). in_id x \<noteq> fresh e d" "existing_intent e t (ci_reference body) d = None"
    "now e \<le> now e'" "now e' \<le> now e + 5 * 60 * 1000"
    "\<forall>k. cs (ci_provider body) k = Inr (stripe_session_of stripe c page)" "\<forall>params. cp_checkoutMode (page params) = Some ''element''"
    "ci_walletMode body = None" "\<forall>x\<in>set (paymentIntents d'). in_id x \<noteq> fresh e' d'"
    "createIntent scorer' fxp' cs e' t body d' = (Inr resp', d'')"
  shows "re_status resp' = 201 \<and> re_intentId resp' \<noteq> re_intentId resp \<and> (\<exists>row. paymentIntents d'' = paymentIntents d' @ [row])"
proof -
  obtain cfg session params r where schema: "createIntentSchema body = Inr body" "tenant_config t (ci_provider body) d = Some cfg" and run: "cs (ci_provider body) (pc_encryptedCredentials cfg) = Inr session" "session params = Inr r"
    "paymentIntents d' = paymentIntents d @ [direct_intent e t body (fst (scoreRisk scorer d t (centimes (ci_amount body)) (now e)))
       (fx_lock fxp e t (ci_currency body) d) r d]"
    "resp = \<lparr>re_status = 201, re_intentId = fresh e d, re_correlationId = fresh e (bump d),
       re_riskVerdict = Some (fst (scoreRisk scorer d t (centimes (ci_amount body)) (now e))), re_idempotent = False\<rparr>"
    by (rule createIntent_created [OF assms(1-3)]) blast
  define row where "row = direct_intent e t body (fst (scoreRisk scorer d t (centimes (ci_amount body)) (now e))) (fx_lock fxp e t (ci_currency body) d) r d"
  note row = row_def [unfolded direct_intent_def create_intent_row_def Let_def fst_conv]
  have "existing_intent e' t (ci_reference body) d' = Some row"
    using assms(6) by (intro existing_new [OF assms(4,5) run(3) [folded row_def]]) (simp_all add: row TERMINAL_STATUSES_def direct_metadata_def)
  moreover have "stripe_session_of stripe c page params = Inr r" using run(1,2) assms(7) by simp
  from wallet_answer_iff [OF this] have "intent_is_wallet row"
    using assms(8) by (simp add: row intent_is_wallet_def wallet_answer_def element_mode_def)
  ultimately have "cached_intent e' t body d' = None" using assms(9) by (simp add: cached_intent_def is_wallet_request_def)
  then have st: "re_status resp' = 201"
    using assms(11) schema(1) by (auto simp: createIntent_def sbind_def Let_def split: sum.splits option.splits if_splits prod.splits)
  obtain row' where "paymentIntents d'' = paymentIntents d' @ [row']" "re_intentId resp' = fresh e' d'"
    by (rule createIntent_created [OF assms(11) st assms(10)]) auto
  moreover have "in_id row = fresh e d" "row \<in> set (paymentIntents d')" using run(3) by (simp_all add: row_def [symmetric]) (simp add: row)
  moreover have "re_intentId resp = fresh e d" using run(4) by simp
  ultimately show ?thesis using st assms(10) by metis
qed

section \<open>Actions on payments\<close>

text \<open>
  What \<open>captureIntent\<close> and \<open>voidIntent\<close> rely on: an adapter that reports a success reports the final status with it, or none.
\<close>

locale decisive_adapter =
  fixes ad :: provider_adapter
  assumes capture_status: "ad_capturePayment ad ref amt c = Inr r \<Longrightarrow> ar_success r \<Longrightarrow> coalesce (ar_status r) INTENT_SUCCEEDED = INTENT_SUCCEEDED"
    and cancel_status: "ad_cancelPayment ad ref amt c = Inr r \<Longrightarrow> ar_success r \<Longrightarrow> coalesce (ar_status r) INTENT_CANCELED = INTENT_CANCELED"
begin

lemma capture_final:
  assumes "captureIntent lc (\<lambda>p k. Inr ad) e i t d = (Inr (j, s), d')"
  shows "j = i \<and> s = INTENT_SUCCEEDED"
  using assms by (auto simp: captureIntent_def sbind_def Let_def capture_status split: prod.splits sum.splits option.splits if_splits)

lemma void_final:
  assumes "voidIntent (\<lambda>p k. Inr ad) e i t d = (Inr (j, s), d')"
  shows "j = i \<and> s = INTENT_CANCELED"
  using assms by (auto simp: voidIntent_def sbind_def Let_def cancel_status split: prod.splits sum.splits option.splits if_splits)

end

interpretation stripe_adapter: decisive_adapter "StripeAdapter constructEvent cr stripe" for constructEvent cr stripe
  by unfold_locales
     (auto simp: StripeAdapter_def stripe_capturePayment_def stripe_cancelPayment_def stripe_mapStatusToInternal_def mapStripeStatus_def
       STRIPE_STATUS_MAP_def)

interpretation vps_adapter: decisive_adapter "VpsAdapter hmac cr http" for hmac cr http
  by unfold_locales
     (auto simp: VpsAdapter_def vps_capturePayment_def vps_cancelPayment_def json_string_def auth_reversed_maps settle_success_maps
       SETTLE_SUCCESS_def [THEN arg_cong, of set])

interpretation naps_adapter: decisive_adapter "NapsAdapter hmac secretKey http" for hmac secretKey http
  by unfold_locales (simp_all add: NapsAdapter_def naps_capturePayment_def naps_cancelPayment_def)

interpretation fake_adapter: decisive_adapter "FakeAdapter as_status status signatureValid" for as_status status signatureValid
  by unfold_locales (auto simp: FakeAdapter_def fake_action_def)

text \<open>
  So over each of the adapters a capture or a void that is answered with a success is final; a payment that a provider settles
  later is reported as failed.
\<close>

lemma actions_final:
  assumes "ad = StripeAdapter constructEvent sc stripe \<or> ad = VpsAdapter hmac vc vhttp \<or> ad = NapsAdapter hmac key nhttp \<or>
    ad = FakeAdapter as_status status valid"
  shows "captureIntent lc (\<lambda>p k. Inr ad) e i t d = (Inr (j, s), d') \<Longrightarrow> j = i \<and> s = INTENT_SUCCEEDED"
    "voidIntent (\<lambda>p k. Inr ad) e i t d = (Inr (j, s), d') \<Longrightarrow> j = i \<and> s = INTENT_CANCELED"
  using assms stripe_adapter.capture_final vps_adapter.capture_final naps_adapter.capture_final fake_adapter.capture_final
    stripe_adapter.void_final vps_adapter.void_final naps_adapter.void_final fake_adapter.void_final
  by metis+

text \<open>
  A session has no payment intent when it is created, as the comment in \<open>queryTransactionStatus\<close> says, so the reference of a
  hosted checkout is the id of the session. The package throws when a session's id is passed for that of a payment intent.
\<close>

definition session_ids_apart :: "stripe_client \<Rightarrow> bool" where
  "session_ids_apart stripe \<longleftrightarrow>
     (\<forall>q s. sessions_create stripe q = Inr s \<longrightarrow> sn_payment_intent s = None \<and> startsWith ''cs_'' (sn_id s)) \<and>
     (\<forall>ref a. startsWith ''cs_'' ref \<longrightarrow>
        \<not> is_ok (intents_capture stripe ref a) \<and> \<not> is_ok (intents_cancel stripe ref) \<and> \<not> is_ok (refunds_create stripe ref a))"

lemma hosted_reference:
  assumes "stripe_session_of stripe c page params = Inr r" "\<not> element_mode (with_page params (page params))" "session_ids_apart stripe"
  shows "startsWith ''cs_'' (kr_providerRef r)"
proof -
  obtain q session where "sessions_create stripe q = Inr session" "kr_providerRef r = coalesce (sn_payment_intent session) (sn_id session)"
    by (rule hosted_checkout [OF assms(1,2)])
  with assms(3) show ?thesis by (auto simp: session_ids_apart_def)
qed

lemma hosted_request_reference:
  assumes "createIntent scorer fxp cs e t body d = (Inr resp, d')" "re_status resp = 201"
    "\<forall>x\<in>set (paymentIntents d). in_id x \<noteq> fresh e d" "ci_walletMode body = None" "session_ids_apart stripe"
    "\<forall>k. cs (ci_provider body) k = Inr (stripe_session_of stripe c page)" "\<forall>params. cp_checkoutMode (page params) \<noteq> Some ''element''"
  shows "\<exists>row ref. paymentIntents d' = paymentIntents d @ [row] \<and> in_id row = re_intentId resp \<and> in_providerRef row = Some ref \<and>
    startsWith ''cs_'' ref"
proof -
  obtain cfg session params r where "createIntentSchema body = Inr body" "tenant_config t (ci_provider body) d = Some cfg" and
    run: "cs (ci_provider body) (pc_encryptedCredentials cfg) = Inr session" "session params = Inr r"
    "paymentIntents d' = paymentIntents d @ [direct_intent e t body (fst (scoreRisk scorer d t (centimes (ci_amount body)) (now e)))
       (fx_lock fxp e t (ci_currency body) d) r d]"
    "resp = \<lparr>re_status = 201, re_intentId = fresh e d, re_correlationId = fresh e (bump d),
       re_riskVerdict = Some (fst (scoreRisk scorer d t (centimes (ci_amount body)) (now e))), re_idempotent = False\<rparr>"
    "cp_walletMode params = ci_walletMode body"
    by (rule createIntent_created [OF assms(1-3)]) blast
  have "stripe_session_of stripe c page params = Inr r" using run(1,2) assms(6) by simp
  moreover have "\<not> element_mode (with_page params (page params))" using run(5) assms(4,7) by (simp add: element_mode_def)
  ultimately have "startsWith ''cs_'' (kr_providerRef r)" using assms(5) by (rule hosted_reference)
  with run(3,4) show ?thesis by (simp add: direct_intent_def create_intent_row_def Let_def)
qed

lemma session_actions_fail:
  assumes "session_ids_apart stripe" "startsWith ''cs_'' ref"
  obtains x y z where "stripe_capturePayment stripe ref amt c = Inl x" "stripe_cancelPayment stripe ref amt c = Inl y"
    "stripe_refund_payment stripe ref amt c = Inl z"
proof -
  have "\<not> is_ok (intents_capture stripe ref amt)" "\<not> is_ok (intents_cancel stripe ref)" "\<not> is_ok (refunds_create stripe ref amt)"
    using assms by (auto simp: session_ids_apart_def)
  then show ?thesis
    by (auto simp: is_ok_def stripe_capturePayment_def stripe_cancelPayment_def stripe_refund_payment_def split: sum.splits intro!: that)
qed

text \<open>
  Hosted checkouts cannot be undone. For a payment whose reference is a session's id, the refund fails with the ledger untouched and every later refund request is answered
  ALREADY_REFUNDED; and the capture of a held payment fails and leaves it locked in PROCESSING, unsettled.
\<close>

lemma hosted_payment_not_undone:
  fixes u :: string
  assumes "session_ids_apart stripe" "startsWith ''cs_'' ref" and ad: "ad = StripeAdapter constructEvent cr stripe"
  shows "(refund_checks ga t i d = Inr (r, ref, ad, amt, c) \<longrightarrow>
      (\<exists>x d'. refundTransaction ga (\<lambda>d. d) e t u i d = (Inl x, d') \<and> ledgerEntries d' = ledgerEntries d \<and>
        refund_refused d' t i (AppError 409 ''ALREADY_REFUNDED''))) \<and>
    (capturable ga d i s r ad ref a c \<longrightarrow>
      (\<exists>x. captureIntent lc ga e i s d = (Inl x, set_intent_status i INTENT_PROCESSING d)))"
proof (intro conjI impI)
  assume ck: "refund_checks ga t i d = Inr (r, ref, ad, amt, c)"
  obtain row where row: "refund_open e t u r amt c d = (Inr row, snd (refund_open e t u r amt c d))" by (rule refund_opens [OF ck])
  obtain z where "stripe_refund_payment stripe ref (of_int amt) c = Inl z" by (rule session_actions_fail [OF assms(1,2)])
  with refund_asks [OF ck, of e u] row have "refundTransaction ga (\<lambda>d. d) e t u i d = (Inl z, snd (refund_open e t u r amt c d))"
    by (simp add: ad StripeAdapter_def split: prod.splits sum.splits)
  with refund_left_open [OF ck row] refund_open_frame [OF row]
  show "\<exists>x d'. refundTransaction ga (\<lambda>d. d) e t u i d = (Inl x, d') \<and> ledgerEntries d' = ledgerEntries d \<and>
      refund_refused d' t i (AppError 409 ''ALREADY_REFUNDED'')" by blast
next
  assume cap: "capturable ga d i s r ad ref a c"
  obtain x where "stripe_capturePayment stripe ref a c = Inl x" by (rule session_actions_fail [OF assms(1,2)])
  with capture_asks [OF cap, of lc e] show "\<exists>x. captureIntent lc ga e i s d = (Inl x, set_intent_status i INTENT_PROCESSING d)"
    by (simp add: ad StripeAdapter_def)
qed

text \<open>Every dispute of the first hundred is reported with its amount.\<close>

lemma stripe_disputes_reported:
  assumes "stripe_listDisputes stripe = Inr (xs, raw)"
  shows "\<exists>data. disputes_list stripe 100 = Inr (data, raw) \<and> map ds_providerDisputeId xs = map sd_id data \<and>
    sum_list (map ds_amount xs) = sum_list (map sd_amount data)"
  using assms by (auto simp: stripe_listDisputes_def dispute_summary_of_def comp_def)

text \<open>A client that keeps the two kinds of ids apart, with one open session.\<close>

definition demo_stripe :: stripe_client where
  "demo_stripe =
     (let missing = Inl (JsError ''No such payment_intent'');
          session = \<lparr>sn_id = ''cs_1'', sn_url = Some ''https://checkout.stripe.com/cs_1'', sn_payment_intent = None,
            sn_payment_status = ''unpaid'', sn_expanded_intent = None, sn_raw = JNull\<rparr>
      in \<lparr>sessions_create = \<lambda>q. Inr session, sessions_retrieve = \<lambda>i. Inr session, intents_create = \<lambda>q. missing,
          intents_retrieve = \<lambda>i. missing, intents_capture = \<lambda>i a. missing, intents_cancel = \<lambda>i. missing,
          refunds_create = \<lambda>i a. Inl (JsError ''No such payment_intent''), transfers_retrieve = \<lambda>i. Inl (JsError ''No such transfer''),
          disputes_list = \<lambda>n. Inr ([], JNull), disputes_update = \<lambda>i ev. Inr JNull\<rparr>)"

lemma demo_stripe_apart: "session_ids_apart demo_stripe"
  by (simp add: session_ids_apart_def demo_stripe_def Let_def startsWith_def)

lemma demo_stripe_query: "map_sum id qs_status (stripe_queryTransactionStatus demo_stripe ''cs_1'') = Inr INTENT_REQUIRES_ACTION"
  by (simp add: stripe_queryTransactionStatus_def demo_stripe_def Let_def startsWith_def stripe_mapStatusToInternal_def mapStripeStatus_def
      STRIPE_STATUS_MAP_def STRIPE_SESSION_STATUS_MAP_def)

end
