(* ===== verification/Spec2Isabelle.thy ===== *)
theory Spec2Isabelle
  imports Lifecycle Links Relay Admin Notify ProviderConfig FinanceRoutes TenantDb StripeAdapter
begin

text \<open>
  Verification of the CorpoPay API, a multi-tenant payment orchestration and settlement service written in TypeScript
  (\<open>src/\<close>: Express routes, Prisma on PostgreSQL, durable jobs on Inngest, adapters to payment providers).

  \<^bold>\<open>How the program works.\<close> A merchant (tenant) charges customers through a provider (NAPS, VPS, Stripe). A provider reports the
  outcome by a webhook: the route verifies its signature and queues a job; the job updates the payment intent and books a
  successful capture into the tenant's double-entry ledger (gross, fee, tax on the fee, reserve, net, and the shares of a
  split rule). From the AVAILABLE account money leaves by payouts, refunds and lost disputes, enters by wallet draw-downs, and
  is converted from foreign currencies before a payout. Reconciliation compares the ledger with a provider's report,
  statements summarise a period, and risk rules are evaluated after a capture. Subscriptions and installment agreements are
  charged by jobs with a retry ladder. People sign in with tokens, programs with API keys; every request runs for the tenant of its
  caller and with its role. The merchant is told of payments by signed events.

  \<^bold>\<open>The model.\<close> The database is one record of row lists (\<open>Schema.db\<close>, after \<open>prisma/schema.prisma\<close>); an operation is a function on
  it. Amounts are integers of minor units (the code stores the decimal \<open>fromMinor\<close> of such an integer and reads it back with
  \<open>toMinor\<close>; the round trip is proved in \<open>Money\<close>). Where the code computes with doubles, the model rounds as IEEE doubles do
  (\<open>JsNumber\<close>). A throw is \<open>Inl\<close>: inside a transaction it rolls back, so the operation returns no database
  (\<open>db \<Rightarrow> ('a \<times> db) result\<close>); actions and jobs that are not transactions return the database they leave
  (\<open>db \<Rightarrow> 'a result \<times> db\<close>). Transactions run at READ COMMITTED; payouts, refunds and wallet movements take the advisory lock of
  their tenant first and are serial, so each is one step. The settlement of a capture, the release of a share and the resolution of a
  dispute read before their first posting takes the lock, and cancelling or failing a payout reads before its transaction:
  there the reads and the writes are separate definitions (\<open>settleCapture_read\<close> and \<open>settleCapture_write\<close>, \<open>releaseSplit_read\<close> and
  \<open>releaseSplit_write\<close>, \<open>resolveDispute_plan\<close>, \<open>resolveDispute_check\<close> and \<open>resolveDispute_write\<close>, \<open>cancelPayout_check\<close> and
  \<open>cancelPayout_write\<close>, \<open>markPayoutFailed_check\<close> and \<open>markPayoutFailed_write\<close>), the operation is the run that nothing interrupts,
  and lemmas say what two interleaved runs do. The step relation of \<open>Journal\<close> has the writes alone as steps, so its invariants
  hold for every interleaving. Outside code is an argument: identifiers and the clock (\<open>env\<close>), the locale order \<open>lc\<close>, the FX
  provider and the ECB response, the HTTP transport and adapters of the providers, HMAC, SHA-256, encryption, \<open>JSON.parse\<close>
  and the power function, and what other requests do between two steps of a job (\<open>other\<close>).

  \<^bold>\<open>The theories\<close>, with the files under \<open>src/src/\<close> they model:

  \<^item> \<open>Prelude\<close>: errors, sequencing, generic lemmas. \<open>JsNumber\<close>, \<open>JsDate\<close>, \<open>Json\<close> (with \<open>lib/mask.ts\<close>): doubles, UTC dates and
    JSON values as ECMAScript defines them. \<open>StatusMachine\<close>: the locale of the status machines, interpreted for payouts,
    disputes, splits, statements, reconciliations and onboarding.
  \<^item> \<open>Money\<close> (\<open>lib/money.ts\<close>), \<open>Ledger\<close> (\<open>lib/ledger.ts\<close>), \<open>Fees\<close> (\<open>lib/fees.ts\<close>, \<open>lib/tax.ts\<close>), \<open>Policy\<close>
    (\<open>lib/settlement-policy.ts\<close>, \<open>lib/settlement-presets.ts\<close>), \<open>Splits\<close> (\<open>lib/splits.ts\<close>): the pure money functions, with
    exactness, bounds, conservation and validation.
  \<^item> \<open>LedgerDb\<close> (\<open>lib/ledger-db.ts\<close>): postings, balances and views; the locale \<open>ledger_store\<close> states what a posting promises and
    is interpreted on \<open>postEntry\<close>; the client modules reason with its facts. \<open>ConfigDb\<close> (\<open>lib/fees-db.ts\<close>, \<open>lib/policy-db.ts\<close>):
    the locale \<open>versioned_config\<close>, interpreted for fee schedules and settlement policies.
  \<^item> \<open>Settlement\<close> (\<open>lib/settlement.ts\<close>, \<open>lib/settlement-db.ts\<close>), \<open>SplitsDb\<close> (\<open>lib/splits-db.ts\<close>), \<open>Fx\<close> (\<open>lib/fx.ts\<close>,
    \<open>lib/fx-settlement.ts\<close>, \<open>lib/fx-settlement-db.ts\<close>), \<open>Payout\<close> (\<open>lib/payout.ts\<close>, \<open>lib/payout-db.ts\<close>,
    \<open>lib/settlement-summary.ts\<close>, \<open>lib/settlement-summary-db.ts\<close>), \<open>Reversals\<close> (\<open>lib/reversals.ts\<close>, \<open>lib/reversals-db.ts\<close>),
    \<open>Refund\<close> (\<open>lib/refund-db.ts\<close>), \<open>Wallet\<close> (\<open>lib/wallet.ts\<close>, \<open>lib/wallet-db.ts\<close>; the locale \<open>wallet_operation\<close> is interpreted for
    its four movements): what each operation books, when it is refused, and that it is done once when nothing interrupts it.
  \<^item> \<open>FinanceConfig\<close> (\<open>lib/finance-config.ts\<close>, \<open>lib/finance-config-db.ts\<close>), \<open>Reconciliation\<close> (\<open>lib/reconciliation.ts\<close>,
    \<open>lib/reconciliation-db.ts\<close>), \<open>Statements\<close> (\<open>lib/statements.ts\<close>, \<open>lib/statements-db.ts\<close>), \<open>Onboarding\<close> (\<open>lib/onboarding.ts\<close>,
    \<open>lib/onboarding-db.ts\<close>), \<open>Risk\<close> (\<open>lib/risk.ts\<close>, \<open>lib/risk-scorer.ts\<close>, \<open>lib/risk-db.ts\<close>, \<open>jobs/riskEvaluate.inngest.ts\<close>).
  \<^item> \<open>Billing\<close> (\<open>lib/billing.ts\<close>), \<open>Adapters\<close> (\<open>lib/status-maps.ts\<close>, \<open>adapters/types.ts\<close>, \<open>adapters/vps.adapter.ts\<close>,
    \<open>adapters/naps.adapter.ts\<close>), \<open>Dunning\<close> (\<open>lib/dunning.ts\<close> and the jobs \<open>billingRenewal\<close>, \<open>subscriptionActivated\<close>,
    \<open>billingDailySweep\<close>, \<open>installmentCharge\<close>): schedules, charges, and what a run of a job leads to.
  \<^item> \<open>Intents\<close> (\<open>lib/intent-actions.ts\<close>), \<open>Webhooks\<close> (\<open>lib/webhook-verify.ts\<close>, \<open>routes/webhooks.ts\<close>, the jobs
    \<open>webhookProcessor\<close> and \<open>stripeWebhookProcessor\<close>): from a provider's answer or notification to the intent and the ledger.
  \<^item> \<open>Journal\<close>: all money operations as one step relation, with the locale \<open>bookkeeping\<close> for what follows of any interleaving,
    and the abstract balance sheet that the steps refine. The locale \<open>ledger_job\<close> is the contract of requests and jobs towards
    the ledger, interpreted for each of them. This theory adds the properties that span components.
  \<^item> \<open>RefundRoute\<close> (\<open>routes/refunds.ts\<close>): the refund request around \<open>settleRefund\<close>, with the race for the refund row. \<open>Poller\<close>
    (the status request of \<open>routes/paymentIntents.ts\<close>, \<open>jobs/paymentPoller.inngest.ts\<close>): status queries, when the polling loop
    ends, and what they do to the settlement and to the lock of a capture. \<open>Checkout\<close> (\<open>routes/paymentIntents.ts\<close>): direct payment requests and the payment
    of links, in full or by installments. \<open>Links\<close> (\<open>routes/paymentLinks.ts\<close>, \<open>schemas/payment-links.ts\<close>): creating, showing and
    cancelling links, and that what is asked for is what is charged. \<open>Relay\<close> (\<open>routes/paymentIntents.ts\<close>): the hosted page that
    posts the stored data to the provider, with its escaping.
  \<^item> \<open>ProviderCheckout\<close> (\<open>createCheckoutSession\<close> of \<open>adapters/naps.adapter.ts\<close> and \<open>adapters/vps.adapter.ts\<close>,
    \<open>adapters/fake.adapter.ts\<close>): what the customer's browser carries to the provider, and that it is read as it was sent.
    \<open>StripeAdapter\<close> (\<open>adapters/stripe.adapter.ts\<close>): the adapter over the package's calls; the locale \<open>decisive_adapter\<close> is what
    captures and voids rely on, interpreted for every adapter; which payments of this provider can be repeated and undone.
  \<^item> \<open>PayoutRoute\<close> (\<open>routes/payouts.ts\<close>, \<open>createPayout\<close> of the adapters, the manual execution of \<open>routes/admin.ts\<close>): the requests
    around theory \<open>Payout\<close>, with the transfers the provider accepted as part of the state. \<open>Lifecycle\<close> (\<open>routes/subscriptions.ts\<close>,
    \<open>routes/installmentAgreements.ts\<close>, \<open>routes/installmentPlans.ts\<close>): pausing, resuming and cancelling what the jobs of
    \<open>Dunning\<close> charge. \<open>Admin\<close> (\<open>routes/admin.ts\<close>): risk decisions and the other actions across tenants.
  \<^item> \<open>Auth\<close> (\<open>middleware/auth.ts\<close>): who a token or an API key stands for, the cache of the tenant status, the writes a request
    starts and does not await, the roles. Its state \<open>accounts\<close> is the database with users, keys and profiles, the cache and the
    pending writes. \<open>Accounts\<close> (\<open>routes/auth.ts\<close>, \<open>routes/apiKeys.ts\<close>, \<open>routes/users.ts\<close>, the status switch of
    \<open>routes/tenant.ts\<close>): the requests on accounts, as handlers under the locales \<open>account_handler\<close> and \<open>tenant_handler\<close> and as
    one relation \<open>account_run\<close> of all sequences of them; that nobody becomes an administrator, that revoked keys and disabled
    tenants are refused, that what was created authenticates.
  \<^item> \<open>Encryption\<close> (\<open>lib/encryption.ts\<close>): the wire format with base64 and hexadecimal, and that it is lossless. \<open>Notify\<close>
    (\<open>lib/webhook-sign.ts\<close>, \<open>lib/notification-sink.ts\<close>, \<open>jobs/notifications.inngest.ts\<close>, \<open>routes/tenant.ts\<close>, \<open>schemas/common.ts\<close>):
    the profile with its address and secret, and the events sent to it. \<open>ProviderConfig\<close> (\<open>routes/providerConfig.ts\<close>,
    \<open>schemas/provider-config.ts\<close>, \<open>testConnection\<close> of the adapters): the credentials of the providers; the locale
    \<open>config_request\<close> says that only checked credentials are stored. \<open>TenantDb\<close> (\<open>lib/tenant-db.ts\<close>): the filter that keeps
    queries in their tenant.
  \<^item> \<open>FinanceRoutes\<close> (\<open>routes/\<close> of wallets, disputes, splits, reconciliation, statements, onboarding, fee schedules, settlement
    policies, the finance configuration, the ledger and the summary, their schemas, \<open>middleware/errorHandler.ts\<close>): each request of
    the finance engine and the API they form behind \<open>requireAuth\<close> and the role checks; the locales \<open>finance_request\<close> and
    \<open>quiet_request\<close>, interpreted per router, carry the ledger from the handlers to the whole API.

  \<^bold>\<open>Bounds and termination.\<close> Every function is total. The retry ladder recurses with the measure \<open>Suc maxAttempts - n\<close>; the
  hand-out of the remainder of a split is bounded by the number of centimes left; \<open>deliver_installments\<close> takes as fuel the
  number of installments left, and the property about it says that this is enough; the polling loop runs over the list of turns
  that take place and is \<open>None\<close> when they do not end it, and it is proved that as the job runner executes it no number of turns
  brings the timeout about. Hypotheses such as
  \<open>gross * 10000 < 2 ^ 53\<close> keep products within the integers a double represents exactly.

  \<^bold>\<open>Where the model is coarser than the program.\<close> The columns of amounts are \<open>Decimal(12, 2)\<close>; the model's integers have no bound. The
  refusal of larger values is part of \<open>postEntry_columns\<close> only: theorems that say an operation succeeds are about amounts and
  balances below 10 to the 12 centimes, where it is the call without a bound. A currency is one of the five supported ones, also in
  the requests for links, wallets and disputes, where the code takes any text. \<open>captureIntent\<close>, \<open>voidIntent\<close> and \<open>checkTenantActive\<close>
  are one step each, though they wait in between; what a status request does to a capture under way is a theorem of
  \<open>Poller\<close>. The runs of a notification job see the same intent and tenant. A refund by a user who was removed meanwhile is not
  refused by the foreign key of its audit row. The relay page takes data of the provider that is not text as missing (the adapters store
  texts). Foreign keys are modelled for split parties and rules, plans and audit rows, and left out elsewhere.

  \<^bold>\<open>Not modelled.\<close> The calls of the Stripe package, a third party's (arguments of \<open>StripeAdapter\<close>), and the operations of adapters
  that always throw; rate limits and the set-up of the server; lists, totals, exports and detail views of
  \<open>routes/admin.ts\<close>, \<open>routes/transactions.ts\<close>, \<open>routes/dashboard.ts\<close>, \<open>routes/exports.ts\<close> and of payments, links, subscriptions and
  plans; the simulation routes and jobs, which replay the modelled jobs for
  demonstrations; the OpenAPI document, seeds and environment handling: they hold no logic of the money path or are input and
  output. Concurrency inside one request is modelled where an action reads before it writes, and by the pending writes of \<open>Auth\<close>.
  Columns such as \<open>updatedAt\<close> and free text are left out of the database.
\<close>

section \<open>Properties across components\<close>

text \<open>
  C1. The ledger is well formed. Start from an empty ledger and run captures, refunds, splits and their release, currency
  sweeps, payouts, lost disputes and wallet movements of any tenants in any order, interleaved with any writes that do not
  touch the ledger, and with the writes of settlements, releases and clawbacks whose reads came earlier. Then each tenant's rows are, in order, the debit and credit legs of accepted postings (equal non-negative
  amounts, one currency, different accounts or parties), so no row is negative and the accounts of a tenant cancel in every
  currency.
\<close>

theorem ledger_well_formed:
  assumes "ledgerEntries d0 = []" "reaches money_step d0 d"
  shows "(\<forall>t. \<exists>ps. (\<forall>p\<in>set ps. valid_posting p) \<and> tenant_legs t d = map strip (posting_legs ps)) \<and>
    (\<forall>r\<in>set (ledgerEntries d). 0 \<le> le_amount r) \<and>
    (\<forall>t c. (\<Sum>a\<in>UNIV. accountBalanceCents d t a c) = 0)"
proof -
  have wf: "well_formed_ledger d"
    using money.reach_invariant [OF assms(2)] empty_well_formed [OF assms(1)] by blast
  then have "(\<Sum>a\<in>UNIV. accountBalanceCents d t a c) = 0" for t c
    using well_formed_balanced(1) [OF wf, of t] by (simp add: accountBalanceCents_legs net_eq_sum_accounts [symmetric] isBalanced_iff)
  then show ?thesis using wf well_formed_balanced(2) [OF wf] by (auto simp: well_formed_ledger_def)
qed

lemma demo_capture: "\<exists>d. settleCapture (\<lambda>a b. 0) demo_env ''t1'' ''i1'' 10000 None None demo_db = Inr (True, d)"
proof -
  have "Math_round 10000 = 10000" using Math_round_of_int [of 10000] by simp
  then show ?thesis using settleCapture_succeeds [of demo_db "''t1''" 10000 "''i1''"] demo_db_ready demo_db_unsettled by simp
qed

theorem ledger_well_formed_witness:
  "\<exists>d. settleCapture (\<lambda>a b. 0) demo_env ''t1'' ''i1'' 10000 None None demo_db = Inr (True, d) \<and>
     (\<forall>r\<in>set (ledgerEntries d). 0 \<le> le_amount r) \<and> (\<Sum>a\<in>UNIV. accountBalanceCents d ''t1'' a MAD) = 0"
proof -
  obtain d where d: "settleCapture (\<lambda>a b. 0) demo_env ''t1'' ''i1'' 10000 None None demo_db = Inr (True, d)" using demo_capture by blast
  have "ledgerEntries demo_db = []" by (simp add: demo_db_def empty_db_def)
  from ledger_well_formed [OF this reaches_step [OF money_step.capture [OF d]]] d show ?thesis by blast
qed

text \<open>
  C2. Every step implements the abstract balance sheet. Seen through the balances, a step of tenant \<open>t\<close> is a sequence of
  transfers of non-negative amounts between accounts of \<open>t\<close>; it appends rows to the ledger and changes none; and it leaves the
  ledger of every other tenant as it was.
\<close>

theorem money_step_refines:
  assumes "money_step t d d'"
  shows "transfers t (sheet d) (sheet d') \<and> (\<exists>rows. ledgerEntries d' = ledgerEntries d @ rows) \<and>
    (\<forall>u. u \<noteq> t \<longrightarrow> tenant_legs u d' = tenant_legs u d)"
  using money.step_refines [OF assms] money.step_grows [OF assms] money.step_other [OF assms] by (simp add: grows_def)

theorem money_step_refines_witness:
  "\<exists>d. settleCapture (\<lambda>a b. 0) demo_env ''t1'' ''i1'' 10000 None None demo_db = Inr (True, d) \<and>
     transfers ''t1'' (sheet demo_db) (sheet d) \<and> tenant_legs ''t2'' d = tenant_legs ''t2'' demo_db"
proof -
  obtain d where d: "settleCapture (\<lambda>a b. 0) demo_env ''t1'' ''i1'' 10000 None None demo_db = Inr (True, d)" using demo_capture by blast
  from money_step_refines [OF money_step.capture [OF d]] d show ?thesis by simp
qed

text \<open>
  C3. Requests and jobs that fail half-way. Starting a payment, asking for its status, capturing an intent, processing a
  notification of a provider, refunding a payment, processing or executing a payout and an administrator's decisions on risk and
  disputes are not transactions: a throw leaves what was written before it. Whatever they return, and from any database whose
  ledger is well formed, the ledger they leave is well formed, and no row of it is lost.
\<close>

theorem jobs_keep_ledger:
  assumes "well_formed_ledger d"
  shows "\<forall>d'\<in>{snd (captureIntent lc getAdapter e i t d), snd (webhookProcessor lc getAdapter enc e p body raw h key d),
                  snd (stripeWebhookProcessor lc e body key d), snd (refundTransaction getAdapter (\<lambda>d. d) e tid u i d),
                  snd (intentStatus getAdapter (\<lambda>d. d) tid i d), snd (createIntent scorer fxp cs e tid req d),
                  snd (publicPay pow scorer cs e slug pay d),
                  fst (snd (processPayout (payout_adapter demo credentials transfersCreate) (\<lambda>d. d) e tid u i ref (d, sent))),
                  snd (executePayout e u i ext d), snd (resolveRiskDecision lc getAdapter e u i verdict d),
                  snd (adminResolveDispute e u i outcome d)}.
    well_formed_ledger d' \<and> (\<exists>rows. ledgerEntries d' = ledgerEntries d @ rows)"
  using capture_job.run_keeps [OF assms] webhook_job.run_keeps [OF assms] stripe_job.run_keeps [OF assms] refund_job.run_keeps [OF assms]
    status_request.run_keeps [OF assms] create_request.run_keeps [OF assms] pay_request.run_keeps [OF assms]
    process_request.run_keeps [OF assms] execute_request.run_keeps [OF assms] risk_request.run_keeps [OF assms]
    admin_dispute.run_keeps [OF assms]
  by auto

theorem jobs_keep_ledger_witness:
  "well_formed_ledger (snd (captureIntent (\<lambda>a b. 0) demo_adapter demo_env ''i1'' (Some ''t1'') demo_intent_db)) \<and>
   well_formed_ledger (snd (webhookProcessor (\<lambda>a b. 0) demo_adapter Inr demo_env VPS demo_body ''raw'' (\<lambda>x. Some ''k2'') ''key'' demo_webhook_db))"
proof -
  have "well_formed_ledger demo_intent_db" "well_formed_ledger demo_webhook_db"
    by (rule empty_well_formed, simp add: demo_webhook)+
  with jobs_keep_ledger [of demo_intent_db] jobs_keep_ledger [of demo_webhook_db] show ?thesis by auto
qed

section \<open>Captures in the reconciliation\<close>

lemma balance_ge_debits:
  assumes "\<forall>r\<in>set rows. 0 \<le> le_amount r"
  shows "- (\<Sum>r\<leftarrow>filter (\<lambda>r. le_direction r = DEBIT) rows. le_amount r) \<le> balanceOf (map leg_of_row rows) a c"
  using assms by (induction rows) auto

lemma recorded_append:
  "ledgerEntries d' = ledgerEntries d @ rows \<Longrightarrow> recorded d' t i = recorded d t i +
     (\<Sum>r\<leftarrow>filter (\<lambda>r. le_tenantId r = t \<and> le_sourceId r = Some i \<and> le_direction r = DEBIT) rows. le_amount r)"
  by (simp add: recorded_def)

lemma recorded_booked:
  assumes "booked t st (Some i) ls d d'" "\<forall>r\<in>set (ledgerEntries d'). 0 \<le> le_amount r"
  shows "recorded d t i - balanceOf ls a c \<le> recorded d' t i"
proof -
  obtain rows where r: "ledgerEntries d' = ledgerEntries d @ rows" "map leg_of_row rows = map strip ls"
    "\<forall>r\<in>set rows. le_tenantId r = t \<and> le_sourceId r = Some i" using assms(1) unfolding booked_def by blast
  have "filter (\<lambda>r. le_tenantId r = t \<and> le_sourceId r = Some i \<and> le_direction r = DEBIT) rows = filter (\<lambda>r. le_direction r = DEBIT) rows"
    using r(3) by (auto intro!: filter_cong)
  with balance_ge_debits [of rows a c] assms(2) r(1,2) show ?thesis by (simp add: recorded_append [OF r(1)])
qed

lemma recorded_mono:
  assumes "grows d d'" "\<forall>r\<in>set (ledgerEntries d'). 0 \<le> le_amount r"
  shows "recorded d t i \<le> recorded d' t i"
proof -
  obtain rows where r: "ledgerEntries d' = ledgerEntries d @ rows" using assms(1) by (auto simp: grows_def)
  with assms(2) show ?thesis unfolding recorded_append [OF r] by (auto intro!: sum_list_nonneg)
qed

lemma capture_recorded:
  fixes cur :: "currency option"
  assumes run: "settleCapture lc e t i amount cur m d = Inr (True, d')" and ready: "settle_ready d t (Math_round amount)" "0 < Math_round amount"
    and wf: "well_formed_ledger d"
  shows "2 * Math_round amount \<le> recorded d' t i" "well_formed_ledger d'"
proof -
  define gross where "gross = Math_round amount"
  define c where "c = coalesce cur MAD"
  define rule where "rule = settlement_rule_of d t"
  obtain base plan d1 d2 where
    base: "case rule of None \<Rightarrow> base = gross
       | Some r \<Rightarrow> \<exists>s. split lc gross (sr_shares r) = Inr s \<and> base = res_platformCents s"
    and plan: "planCaptureSettlement base (settlement_fee_of d t) (settlement_policy_of d t) m
        (Some (settlement_tax_of d t)) = Inr plan"
    and d1: "move e t (Some CAPTURE_SOURCE_TYPE) (Some i)
       (debit CASH gross CAPTURE None c, credit COLLECTED gross CAPTURE None c) d = Inr d1"
    and d2: "case rule of None \<Rightarrow> d2 = d1
       | Some r \<Rightarrow> \<exists>rows. executeSplitInTx lc e t (capture_split_input i gross c r) AT_CAPTURE (sr_shares r) d1 = Inr (rows, d2)"
    and d3: "moves e t (Some CAPTURE_SOURCE_TYPE) (Some i)
       (settlement_legs (if rule \<noteq> None then AVAILABLE else COLLECTED) (rule \<noteq> None) plan c) d2 = Inr d'"
    using settleCapture_run [OF run, folded gross_def c_def rule_def] by (elim exE conjE) (rule that)
  obtain legs where mid: "booked t (Some CAPTURE_SOURCE_TYPE) (Some i) legs d1 d2"
    and legs: "\<And>a. balanceOf legs a c = (if rule \<noteq> None then (if a = AVAILABLE then gross else 0)
                 - (if a = COLLECTED then gross else 0) else 0)"
    using split_booking [OF ready base [unfolded gross_def rule_def] d2 [unfolded gross_def rule_def]]
    unfolding gross_def c_def rule_def by blast
  let ?legs = "legs @ pair_legs (settlement_legs (if rule \<noteq> None then AVAILABLE else COLLECTED) (rule \<noteq> None) plan c)"
  have rest: "booked t (Some CAPTURE_SOURCE_TYPE) (Some i) ?legs d1 d'" by (rule booked_trans [OF mid booked_moves [OF d3]])
  have wf': "well_formed_ledger d'" using money.step_well_formed [OF money_step.capture [OF run] wf] .
  have pos: "\<forall>r\<in>set (ledgerEntries d'). 0 \<le> le_amount r" using well_formed_balanced(2) [OF wf'] by blast
  then have pos1: "\<forall>r\<in>set (ledgerEntries d1). 0 \<le> le_amount r" using grows_set [OF grows_booked [OF rest]] by blast
  have start: "0 \<le> recorded d t i" using well_formed_balanced(2) [OF wf] by (auto simp: recorded_def intro!: sum_list_nonneg)
  have first: "recorded d t i + gross \<le> recorded d1 t i" using recorded_booked [OF booked_move [OF d1] pos1, of CASH c] by simp
  have "balanceOf ?legs COLLECTED c \<le> - gross"
    using planCaptureSettlement_sum [OF plan] base by (cases rule) (auto simp: legs settlement_legs_def)
  with recorded_booked [OF rest pos, of COLLECTED c] first start show "2 * Math_round amount \<le> recorded d' t i" by (simp add: gross_def)
  show "well_formed_ledger d'" by (rule wf')
qed

text \<open>
  C4. A settled capture never reconciles. The reconciliation takes, for each source, the sum of all debits, and a settlement
  debits the gross twice: from CASH when the money is collected and from COLLECTED when it is distributed. So in every later
  state of the ledger a provider's report that states the captured amount for the intent is marked UNMATCHED, and its line for
  the intent AMOUNT_DIFF.
\<close>

theorem capture_never_reconciles:
  assumes "settleCapture lc e t i amount cur m d = Inr (True, d1)" "settle_ready d t (Math_round amount)" "0 < Math_round amount"
    and "well_formed_ledger d" "reaches money_step d1 d2"
    and report: "find_report d2 t j = Some report" "rr_status report \<noteq> RECON_RESOLVED"
      "i \<in> reported_refs d2 j" "reported d2 j i = Math_round amount"
  shows "\<exists>d3 report'. runReconciliation t j d2 = Inr d3 \<and> find_report d3 t j = Some report' \<and> rr_status report' = RECON_UNMATCHED \<and>
    (\<forall>l\<in>set (report_lines d3 j). rl_reference l = i \<longrightarrow> rl_status l = LINE_AMOUNT_DIFF)"
proof -
  note c = capture_recorded [OF assms(1-4)]
  note r = money.reach_invariant [OF assms(5) c(2)]
  then have "2 * Math_round amount \<le> recorded d2 t i"
    using recorded_mono [of d1 d2 t i] well_formed_balanced(2) [of d2] c(1) by force
  with assms(3) have ne: "recorded d2 t i \<noteq> Math_round amount" "recorded d2 t i \<noteq> 0" by auto
  have refs: "i \<in> recorded_refs d2 t"
  proof (rule ccontr)
    assume "i \<notin> recorded_refs d2 t"
    then have "filter (\<lambda>r. le_tenantId r = t \<and> le_sourceId r = Some i \<and> le_direction r = DEBIT) (ledgerEntries d2) = []"
      by (auto simp: recorded_refs_def filter_empty_conv)
    with ne(2) show False by (simp add: recorded_def)
  qed
  have "next_status d2 t j = RECON_UNMATCHED" using ne(1) report(4) unfolding next_status_eq by metis
  moreover have "runReconciliation t j d2 = Inr (reconciled d2 t j)" using runReconciliation_eq [OF report(1)] report(2) by simp
  moreover have "rl_status l = LINE_AMOUNT_DIFF" if "l \<in> set (report_lines (reconciled d2 t j) j)" "rl_reference l = i" for l
    using reconciled_line [OF that(1)] that(2) refs ne(1) report(4) by (simp add: classifyMatch_def)
  ultimately show ?thesis using find_report_reconciled [OF report(1)] by metis
qed

definition demo_report :: "db \<Rightarrow> db" where
  "demo_report d = d\<lparr>reconciliationReports := [\<lparr>rr_id = ''r1'', rr_tenantId = ''t1'', rr_provider = VPS, rr_currency = MAD,
       rr_periodStart = None, rr_periodEnd = None, rr_status = RECON_PENDING, rr_summary = None\<rparr>],
     reconciliationLines := [\<lparr>rl_id = ''l1'', rl_reportId = ''r1'', rl_reference = ''i1'', rl_amount = 10000, rl_status = LINE_UNMATCHED,
       rl_matchedAmount = None, rl_differenceAmount = None\<rparr>]\<rparr>"

theorem capture_never_reconciles_witness:
  "\<exists>d1 d3 report'. settleCapture (\<lambda>a b. 0) demo_env ''t1'' ''i1'' 10000 None None demo_db = Inr (True, d1) \<and>
     runReconciliation ''t1'' ''r1'' (demo_report d1) = Inr d3 \<and> find_report d3 ''t1'' ''r1'' = Some report' \<and> rr_status report' = RECON_UNMATCHED"
proof -
  obtain d1 where d1: "settleCapture (\<lambda>a b. 0) demo_env ''t1'' ''i1'' 10000 None None demo_db = Inr (True, d1)" using demo_capture by blast
  have m: "Math_round 10000 = 10000" using Math_round_of_int [of 10000] by simp
  then have ready: "settle_ready demo_db ''t1'' (Math_round 10000)" "0 < Math_round 10000" using demo_db_ready by simp_all
  have wf: "well_formed_ledger demo_db" by (rule empty_well_formed) (simp add: demo_db_def empty_db_def)
  have later: "reaches money_step d1 (demo_report d1)" by (rule reaches_other) (simp add: demo_report_def)
  have rep: "\<exists>report. find_report (demo_report d1) ''t1'' ''r1'' = Some report \<and> rr_status report \<noteq> RECON_RESOLVED"
    "''i1'' \<in> reported_refs (demo_report d1) ''r1''" "reported (demo_report d1) ''r1'' ''i1'' = Math_round 10000"
    by (simp_all add: demo_report_def find_report_def reported_refs_def reported_def report_lines_def m)
  then show ?thesis using capture_never_reconciles [OF d1 ready wf later _ _ rep(2,3)] d1 by blast
qed

end
